(* ===== verification/Prelude.thy ===== *)
theory Prelude
  imports Main "HOL-Library.Word"
begin

text \<open>
  Shared vocabulary of the development: the C integer types of the nanostack
  sources as words, the collections of simplification rules the component
  theories fill, the contract of the external random number library, and the
  facts on words and lists several components use.
\<close>

unbundle bit_operations_syntax

section \<open>Types of the C sources\<close>

type_synonym u8 = "8 word"
type_synonym u16 = "16 word"
type_synonym u32 = "32 word"
type_synonym u64 = "64 word"

text \<open>A byte array of the sources; its length is part of the value.\<close>

type_synonym bytes = "u8 list"

section \<open>Collections\<close>

named_theorems frame_simps \<open>which fields an operation leaves alone\<close>
named_theorems inv_intros \<open>operations that keep a component's invariant\<close>

section \<open>External random numbers\<close>

text \<open>
  \<open>randLIB_get_random_in_range\<close> of the external randLIB is a parameter
  \<open>rnd\<close> of every operation that draws a number: one function per draw, so that
  two draws of one operation are independent. Its documented contract is that
  the result lies in the closed range it is given.
\<close>

type_synonym rand = "u16 \<Rightarrow> u16 \<Rightarrow> u16"

definition rand_ok :: "rand \<Rightarrow> bool" where
  "rand_ok rnd \<longleftrightarrow> (\<forall>a b. a \<le> b \<longrightarrow> a \<le> rnd a b \<and> rnd a b \<le> b)"

lemma rand_okD:
  assumes "rand_ok rnd" and "a \<le> b"
  shows "a \<le> rnd a b" and "rnd a b \<le> b"
  using assms by (auto simp: rand_ok_def)

lemma rand_ok_low: "rand_ok (\<lambda>a b. a)"
  by (simp add: rand_ok_def)

lemma rand_ok_high: "rand_ok (\<lambda>a b. b)"
  by (simp add: rand_ok_def)

section \<open>Words\<close>

lemma unat_u8_lt: "unat (x :: u8) < 256"
  using unsigned_less [of x] by simp

lemma unat_u16_lt: "unat (x :: u16) < 65536"
  using unsigned_less [of x] by simp

lemma unat_u32_lt: "unat (x :: u32) < 4294967296"
  using unsigned_less [of x] by simp

lemma unat_mult2:
  fixes x :: u16
  assumes "unat x < 32768"
  shows "unat (x * 2) = 2 * unat x"
  using assms by (simp add: unat_word_ariths)

text \<open>
  Doubling a 16-bit interval the way the sources do it, with the overflow caught
  before it happens, is saturating multiplication on the natural numbers.
\<close>

lemma unat_double_sat:
  fixes x :: u16
  shows "unat (if x \<le> 32767 then x * 2 else 65535) = min (2 * unat x) 65535"
proof -
  have "unat x < 65536" by (rule unat_u16_lt)
  then show ?thesis
    by (auto simp: word_le_nat_alt unat_mult2)
qed

lemma unat_add_sat:
  fixes x y :: u16
  shows "unat (if x + y < x then 65535 else x + y) = min (unat x + unat y) 65535"
proof (cases "unat x + unat y < 65536")
  case True
  then have "unat (x + y) = unat x + unat y"
    by (simp add: unat_word_ariths)
  with True show ?thesis by (simp add: word_less_nat_alt)
next
  case False
  have b: "unat x < 65536" "unat y < 65536"
    by (rule unat_u16_lt)+
  have "unat (x + y) = (unat x + unat y) mod 65536"
    by (simp add: unat_word_ariths)
  also have "\<dots> = unat x + unat y - 65536"
    using False b by (simp add: le_mod_geq)
  finally have "unat (x + y) < unat x" using False b by linarith
  with False show ?thesis by (simp add: word_less_nat_alt)
qed

lemma unat_diff_le:
  fixes x y :: "'a::len word"
  assumes "y \<le> x"
  shows "unat (x - y) = unat x - unat y"
  using assms by (simp add: unat_sub)

lemma unat_min: "unat (if a > b then b else a) = min (unat a) (unat b)"
  by (simp add: word_less_nat_alt min_def)

section \<open>Lists of entries\<close>

text \<open>
  An \<open>NS_LIST\<close> of the sources is the list of its entries in iteration order, and a pointer
  to an entry is its position. A search loop that returns the first entry with some property
  returns such a position.
\<close>

fun find_index :: "('a \<Rightarrow> bool) \<Rightarrow> 'a list \<Rightarrow> nat option" where
  "find_index P [] = None"
| "find_index P (x # xs) = (if P x then Some 0 else map_option Suc (find_index P xs))"

lemma find_index_None [simp]: "find_index P xs = None \<longleftrightarrow> (\<forall>x \<in> set xs. \<not> P x)"
  by (induction xs) auto

lemma find_index_Some:
  "find_index P xs = Some i \<longleftrightarrow> i < length xs \<and> P (xs ! i) \<and> (\<forall>j < i. \<not> P (xs ! j))"
proof (induction xs arbitrary: i)
  case Nil
  then show ?case by simp
next
  case (Cons x xs)
  show ?case
  proof (cases i)
    case 0
    then show ?thesis by auto
  next
    case (Suc k)
    then show ?thesis using Cons.IH [of k] by (auto simp: All_less_Suc2)
  qed
qed

lemma find_index_SomeD:
  assumes "find_index P xs = Some i"
  shows "i < length xs" and "P (xs ! i)"
  using assms by (simp_all add: find_index_Some)

lemma find_index_ex: "(\<exists>i. find_index P xs = Some i) \<longleftrightarrow> (\<exists>x \<in> set xs. P x)"
  using find_index_None [of P xs] by (cases "find_index P xs") auto

section \<open>Loops that may fail\<close>

primrec fold_opt :: "('a \<Rightarrow> 's \<Rightarrow> 's option) \<Rightarrow> 'a list \<Rightarrow> 's \<Rightarrow> 's option" where
  "fold_opt f [] s = Some s"
| "fold_opt f (x # xs) s = (case f x s of None \<Rightarrow> None | Some s' \<Rightarrow> fold_opt f xs s')"

lemma fold_opt_append:
  "fold_opt f (xs @ ys) s = (case fold_opt f xs s of None \<Rightarrow> None | Some s' \<Rightarrow> fold_opt f ys s')"
  by (induction xs arbitrary: s) (auto split: option.split)

lemma fold_opt_Some_invariant:
  assumes "P s" and "\<And>x s s'. x \<in> set xs \<Longrightarrow> P s \<Longrightarrow> f x s = Some s' \<Longrightarrow> P s'"
    and "fold_opt f xs s = Some s'"
  shows "P s'"
  using assms by (induction xs arbitrary: s) (auto split: option.splits)

lemma fold_opt_total:
  assumes "P s" and "\<And>x s. x \<in> set xs \<Longrightarrow> P s \<Longrightarrow> \<exists>s'. f x s = Some s' \<and> P s'"
  shows "\<exists>s'. fold_opt f xs s = Some s' \<and> P s'"
  using assms
proof (induction xs arbitrary: s)
  case (Cons x xs)
  then obtain t where "f x s = Some t" "P t" by (meson list.set_intros(1))
  with Cons show ?case by simp
qed simp

end
