(* ===== verification/Trickle.thy ===== *)
theory Trickle
  imports Prelude
begin

text \<open>
  The Trickle timer of \<open>Service_Libs/Trickle/trickle.c\<close> (RFC 6206 with the expiration
  counter of RFC 7731). One definition per C function; the state is the struct
  \<open>trickle_t\<close>, returned updated. \<open>randLIB_get_random_in_range\<close> is the parameter
  \<open>rnd\<close>.

  The theory shows that every operation keeps the timer well formed, that the 16-bit
  arithmetic is the unbounded arithmetic of the RFC, how often a timer can tell its
  user to transmit, and that a timer with a finite expiration count stops.
\<close>

section \<open>Data\<close>

record trickle_params_t =
  p_Imin :: u16
  p_Imax :: u16
  p_k :: u8
  p_TimerExpirations :: u8

record trickle_t =
  tr_c :: u8
  tr_e :: u8
  tr_I :: u16
  tr_t :: u16
  tr_now :: u16
  tr_num_tx :: u8

abbreviation TRICKLE_TIME_MAX :: u16 where
  "TRICKLE_TIME_MAX \<equiv> 65535"

abbreviation TRICKLE_EXPIRATIONS_INFINITE :: u8 where
  "TRICKLE_EXPIRATIONS_INFINITE \<equiv> 255"

section \<open>Operations\<close>

definition trickle_begin_interval :: "rand \<Rightarrow> trickle_t \<Rightarrow> trickle_t" where
  "trickle_begin_interval rnd t =
     (let t = t\<lparr>tr_c := 0\<rparr>;
          t = (if tr_I t > 2
               then t\<lparr>tr_t := rnd (tr_I t div 2) (tr_I t - 1)\<rparr>
               else t\<lparr>tr_t := 1\<rparr>)
      in t\<lparr>tr_now := 0\<rparr>)"

text \<open>\<open>rndI\<close> is the draw of the first interval, \<open>rnd\<close> that of the transmission time.\<close>

definition trickle_start :: "rand \<Rightarrow> rand \<Rightarrow> trickle_params_t \<Rightarrow> trickle_t \<Rightarrow> trickle_t" where
  "trickle_start rndI rnd params t =
     trickle_begin_interval rnd
       (t\<lparr>tr_e := 0, tr_I := rndI (p_Imin params) (p_Imax params)\<rparr>)"

fun trickle_timer_max_loop :: "trickle_params_t \<Rightarrow> nat \<Rightarrow> u16 \<Rightarrow> u32 \<Rightarrow> u32" where
  "trickle_timer_max_loop params 0 time_I total_time = total_time"
| "trickle_timer_max_loop params (Suc n) time_I total_time =
     (let time_I = (if time_I \<le> TRICKLE_TIME_MAX div 2 then time_I * 2 else TRICKLE_TIME_MAX);
          time_I = (if time_I > p_Imax params then p_Imax params else time_I)
      in trickle_timer_max_loop params n time_I (total_time + ucast time_I))"

definition trickle_timer_max :: "trickle_params_t \<Rightarrow> u8 \<Rightarrow> u32" where
  "trickle_timer_max params trickle_timer_expiration =
     (let time_I = p_Imin params - 1
      in trickle_timer_max_loop params (unat trickle_timer_expiration) time_I (ucast time_I))"

definition trickle_reset_timer :: "rand \<Rightarrow> trickle_params_t \<Rightarrow> trickle_t \<Rightarrow> trickle_t" where
  "trickle_reset_timer rnd params t =
     trickle_begin_interval rnd (t\<lparr>tr_e := 0, tr_I := p_Imin params\<rparr>)"

definition trickle_consistent_heard :: "trickle_t \<Rightarrow> trickle_t" where
  "trickle_consistent_heard t = (if tr_c t < 255 then t\<lparr>tr_c := tr_c t + 1\<rparr> else t)"

definition trickle_running :: "trickle_t \<Rightarrow> trickle_params_t \<Rightarrow> bool" where
  "trickle_running t params \<longleftrightarrow> tr_e t < p_TimerExpirations params"

definition trickle_inconsistent_heard ::
    "rand \<Rightarrow> trickle_params_t \<Rightarrow> trickle_t \<Rightarrow> trickle_t" where
  "trickle_inconsistent_heard rnd params t =
     (if tr_I t \<noteq> p_Imin params \<or> \<not> trickle_running t params
      then trickle_reset_timer rnd params t else t)"

definition trickle_timer ::
    "rand \<Rightarrow> trickle_params_t \<Rightarrow> u16 \<Rightarrow> trickle_t \<Rightarrow> bool \<times> trickle_t" where
  "trickle_timer rnd params ticks t =
     (if \<not> trickle_running t params then (False, t)
      else
        let new_time = tr_now t + ticks;
            new_time = (if new_time < tr_now t then TRICKLE_TIME_MAX else new_time);
            transmit = (tr_now t < tr_t t \<and> new_time \<ge> tr_t t
                        \<and> (tr_c t < p_k params \<or> p_k params = 0));
            t = t\<lparr>tr_now := new_time\<rparr>
        in if new_time \<ge> tr_I t
           then
             let I = (if tr_I t \<le> TRICKLE_TIME_MAX div 2 then tr_I t * 2 else TRICKLE_TIME_MAX);
                 I = (if I > p_Imax params then p_Imax params else I);
                 t = t\<lparr>tr_I := I\<rparr>;
                 t = (if tr_e t < TRICKLE_EXPIRATIONS_INFINITE - 1
                      then t\<lparr>tr_e := tr_e t + 1\<rparr> else t)
             in (transmit, trickle_begin_interval rnd t)
           else (transmit, t))"

definition trickle_stop :: "trickle_t \<Rightarrow> trickle_t" where
  "trickle_stop t = t\<lparr>tr_e := TRICKLE_EXPIRATIONS_INFINITE\<rparr>"

section \<open>Frames\<close>

lemma trickle_begin_interval_frame [simp, frame_simps]:
  "tr_c (trickle_begin_interval rnd t) = 0"
  "tr_e (trickle_begin_interval rnd t) = tr_e t"
  "tr_I (trickle_begin_interval rnd t) = tr_I t"
  "tr_now (trickle_begin_interval rnd t) = 0"
  "tr_num_tx (trickle_begin_interval rnd t) = tr_num_tx t"
  by (simp_all add: trickle_begin_interval_def Let_def)

lemma trickle_begin_interval_t:
  "tr_t (trickle_begin_interval rnd t) =
     (if tr_I t > 2 then rnd (tr_I t div 2) (tr_I t - 1) else 1)"
  by (simp add: trickle_begin_interval_def Let_def)

section \<open>Well-formed timers\<close>

text \<open>
  A timer is well formed for its parameters when its interval lies between \<open>Imin\<close> and
  \<open>Imax\<close>, its transmission time in the second half of the interval, and the clock of the
  interval has not reached the interval's end.
\<close>

definition trickle_params_ok :: "trickle_params_t \<Rightarrow> bool" where
  "trickle_params_ok p \<longleftrightarrow> 0 < p_Imin p \<and> p_Imin p \<le> p_Imax p"

definition trickle_inv :: "trickle_params_t \<Rightarrow> trickle_t \<Rightarrow> bool" where
  "trickle_inv p t \<longleftrightarrow>
     p_Imin p \<le> tr_I t \<and> tr_I t \<le> p_Imax p \<and> tr_now t < tr_I t \<and>
     (if tr_I t > 2 then tr_I t div 2 \<le> tr_t t \<and> tr_t t < tr_I t else tr_t t = 1)"

lemma half_le_pred:
  fixes x :: u16
  assumes "2 < x"
  shows "x div 2 \<le> x - 1" and "x - 1 < x"
proof -
  have u: "unat (x - 1) = unat x - 1" "unat (x div 2) = unat x div 2" "2 < unat x"
    using assms by (simp_all add: unat_sub word_le_nat_alt word_less_nat_alt unat_div)
  then show "x div 2 \<le> x - 1" and "x - 1 < x"
    by (auto simp: word_le_nat_alt word_less_nat_alt)
qed

lemma trickle_begin_interval_inv:
  assumes "rand_ok rnd" and "trickle_params_ok p"
    and "p_Imin p \<le> tr_I t" and "tr_I t \<le> p_Imax p"
  shows "trickle_inv p (trickle_begin_interval rnd t)"
proof -
  have "0 < tr_I t" using assms(2,3) by (auto simp: trickle_params_ok_def)
  moreover have "tr_I t div 2 \<le> rnd (tr_I t div 2) (tr_I t - 1)
      \<and> rnd (tr_I t div 2) (tr_I t - 1) < tr_I t" if "2 < tr_I t"
    using rand_okD [OF assms(1) half_le_pred(1) [OF that]] half_le_pred(2) [OF that]
    by (meson le_less_trans)
  ultimately show ?thesis
    using assms(3,4) by (simp add: trickle_inv_def trickle_begin_interval_t)
qed

lemma trickle_start_inv [inv_intros]:
  assumes "rand_ok rndI" and "rand_ok rnd" and "trickle_params_ok p"
  shows "trickle_inv p (trickle_start rndI rnd p t)"
  unfolding trickle_start_def
  using rand_okD [OF assms(1), of "p_Imin p" "p_Imax p"] assms
  by (intro trickle_begin_interval_inv) (auto simp: trickle_params_ok_def)

lemma trickle_consistent_heard_inv [inv_intros]:
  "trickle_inv p t \<Longrightarrow> trickle_inv p (trickle_consistent_heard t)"
  by (simp add: trickle_inv_def trickle_consistent_heard_def)

lemma trickle_stop_inv [inv_intros]:
  "trickle_inv p t \<Longrightarrow> trickle_inv p (trickle_stop t)"
  by (simp add: trickle_inv_def trickle_stop_def)

lemma trickle_inconsistent_heard_inv [inv_intros]:
  assumes "rand_ok rnd" and "trickle_params_ok p" and "trickle_inv p t"
  shows "trickle_inv p (trickle_inconsistent_heard rnd p t)"
  using assms
  by (auto simp: trickle_inconsistent_heard_def trickle_reset_timer_def trickle_params_ok_def
      intro!: trickle_begin_interval_inv)

text \<open>The interval after the present one.\<close>

definition trickle_next_I :: "trickle_params_t \<Rightarrow> u16 \<Rightarrow> u16" where
  "trickle_next_I p I =
     (let I = (if I \<le> TRICKLE_TIME_MAX div 2 then I * 2 else TRICKLE_TIME_MAX)
      in if I > p_Imax p then p_Imax p else I)"

lemma unat_trickle_next_I:
  "unat (trickle_next_I p I) = min (unat (p_Imax p)) (2 * unat I)"
proof -
  have "unat (p_Imax p) \<le> 65535" using unat_u16_lt [of "p_Imax p"] by simp
  then show ?thesis
    unfolding trickle_next_I_def Let_def unat_min
    using unat_double_sat [of I] by simp
qed

lemma trickle_next_I_bounds:
  assumes "p_Imin p \<le> I" and "I \<le> p_Imax p"
  shows "p_Imin p \<le> trickle_next_I p I" and "trickle_next_I p I \<le> p_Imax p"
  using assms by (auto simp: word_le_nat_alt unat_trickle_next_I)

text \<open>\<open>trickle_timer\<close> with its two overflow checks folded into the words' natural values.\<close>

definition trickle_new_time :: "u16 \<Rightarrow> trickle_t \<Rightarrow> u16" where
  "trickle_new_time ticks t =
     (if tr_now t + ticks < tr_now t then TRICKLE_TIME_MAX else tr_now t + ticks)"

lemma unat_trickle_new_time:
  "unat (trickle_new_time ticks t) = min (unat (tr_now t) + unat ticks) 65535"
  unfolding trickle_new_time_def by (rule unat_add_sat)

lemma trickle_timer_cases:
  obtains (stopped) "\<not> trickle_running t p" "trickle_timer rnd p ticks t = (False, t)"
  | (inside) tx where "trickle_running t p" "trickle_new_time ticks t < tr_I t"
      "tx \<longleftrightarrow> tr_now t < tr_t t \<and> tr_t t \<le> trickle_new_time ticks t
              \<and> (tr_c t < p_k p \<or> p_k p = 0)"
      "trickle_timer rnd p ticks t = (tx, t\<lparr>tr_now := trickle_new_time ticks t\<rparr>)"
  | (expired) tx where "trickle_running t p" "tr_I t \<le> trickle_new_time ticks t"
      "tx \<longleftrightarrow> tr_now t < tr_t t \<and> tr_t t \<le> trickle_new_time ticks t
              \<and> (tr_c t < p_k p \<or> p_k p = 0)"
      "trickle_timer rnd p ticks t =
         (tx, trickle_begin_interval rnd
            (t\<lparr>tr_now := trickle_new_time ticks t,
               tr_I := trickle_next_I p (tr_I t),
               tr_e := (if tr_e t < 254 then tr_e t + 1 else tr_e t)\<rparr>))"
proof (cases "trickle_running t p")
  case False
  then show ?thesis by (intro stopped) (simp_all add: trickle_timer_def)
next
  case run: True
  show ?thesis
  proof (cases "tr_I t \<le> trickle_new_time ticks t")
    case True
    then show ?thesis
      by (intro expired [OF run True refl])
        (simp add: trickle_timer_def run trickle_new_time_def trickle_next_I_def Let_def)
  next
    case False
    then show ?thesis
      by (intro inside [OF run _ refl])
        (simp_all add: trickle_timer_def run trickle_new_time_def Let_def)
  qed
qed

lemma trickle_timer_inv [inv_intros]:
  assumes "rand_ok rnd" and "trickle_params_ok p" and "trickle_inv p t"
  shows "trickle_inv p (snd (trickle_timer rnd p ticks t))"
proof (cases rule: trickle_timer_cases [of t p rnd ticks])
  case stopped
  with assms(3) show ?thesis by simp
next
  case inside
  with assms(3) show ?thesis by (simp add: trickle_inv_def)
next
  case expired
  from assms(3) have "p_Imin p \<le> tr_I t" "tr_I t \<le> p_Imax p"
    by (simp_all add: trickle_inv_def)
  from trickle_next_I_bounds [OF this] show ?thesis
    unfolding expired(4) snd_conv
    by (intro trickle_begin_interval_inv assms(1,2)) simp_all
qed

section \<open>Reachable timers\<close>

text \<open>
  The states a timer can be in: any uninitialised structure that was started, and
  whatever the public operations make of it afterwards, in any order.
\<close>

inductive trickle_reach :: "trickle_params_t \<Rightarrow> trickle_t \<Rightarrow> bool" for p where
  start: "rand_ok rndI \<Longrightarrow> rand_ok rnd \<Longrightarrow> trickle_reach p (trickle_start rndI rnd p t)"
| timer: "trickle_reach p t \<Longrightarrow> rand_ok rnd \<Longrightarrow>
    trickle_reach p (snd (trickle_timer rnd p ticks t))"
| consistent: "trickle_reach p t \<Longrightarrow> trickle_reach p (trickle_consistent_heard t)"
| inconsistent: "trickle_reach p t \<Longrightarrow> rand_ok rnd \<Longrightarrow>
    trickle_reach p (trickle_inconsistent_heard rnd p t)"
| stop: "trickle_reach p t \<Longrightarrow> trickle_reach p (trickle_stop t)"

section \<open>How often a timer transmits\<close>

text \<open>
  The transmissions a running timer has left: one per interval that has not expired, less
  the present one when its transmission time has passed.
\<close>

definition trickle_budget :: "trickle_params_t \<Rightarrow> trickle_t \<Rightarrow> nat" where
  "trickle_budget p t =
     (if trickle_running t p
      then unat (p_TimerExpirations p) - unat (tr_e t) - (if tr_t t \<le> tr_now t then 1 else 0)
      else 0)"

lemma trickle_timer_e_step:
  assumes "trickle_running t p" and "p_TimerExpirations p < 255"
  shows "unat (if tr_e t < 254 then tr_e t + 1 else tr_e t) = Suc (unat (tr_e t))"
proof -
  have "unat (tr_e t) < unat (p_TimerExpirations p)" "unat (p_TimerExpirations p) < 255"
    using assms by (simp_all add: trickle_running_def word_less_nat_alt)
  then show ?thesis
    by (simp add: word_less_nat_alt unat_word_ariths)
qed

lemma trickle_timer_budget:
  assumes "trickle_inv p t" and "p_TimerExpirations p < 255"
    and "trickle_timer rnd p ticks t = (b, t')"
  shows "trickle_budget p t' + of_bool b \<le> trickle_budget p t"
proof (cases rule: trickle_timer_cases [of t p rnd ticks])
  case stopped
  with assms(3) show ?thesis by simp
next
  case (inside tx)
  then have eq: "b = tx" "t' = t\<lparr>tr_now := trickle_new_time ticks t\<rparr>"
    using assms(3) by simp_all
  have run: "unat (tr_e t) < unat (p_TimerExpirations p)"
    using inside(1) by (simp add: trickle_running_def word_less_nat_alt)
  have mono: "tr_now t \<le> trickle_new_time ticks t"
    using unat_u16_lt [of "tr_now t"] by (simp add: word_le_nat_alt unat_trickle_new_time)
  show ?thesis
    using inside(1,3) run mono eq by (auto simp: trickle_budget_def trickle_running_def)
next
  case (expired tx)
  define e' where "e' = (if tr_e t < 254 then tr_e t + 1 else tr_e t)"
  have e': "unat e' = Suc (unat (tr_e t))"
    unfolding e'_def by (rule trickle_timer_e_step [OF expired(1) assms(2)])
  have run: "unat (tr_e t) < unat (p_TimerExpirations p)"
    using expired(1) by (simp add: trickle_running_def word_less_nat_alt)
  have "b = tx" "tr_e t' = e'" "tr_now t' = 0"
    using expired(4) assms(3) by (auto simp: e'_def)
  then have "trickle_budget p t' \<le> unat (p_TimerExpirations p) - Suc (unat (tr_e t))"
    by (auto simp: trickle_budget_def e')
  moreover have "unat (p_TimerExpirations p) - Suc (unat (tr_e t)) + of_bool b \<le> trickle_budget p t"
    using expired(1,3) run \<open>b = tx\<close> by (auto simp: trickle_budget_def)
  ultimately show ?thesis by linarith
qed

section \<open>The timer as its users see it\<close>

text \<open>
  MPL and RPL drive a timer through the operations below and rely on the laws only: a
  well-formed timer stays well formed, a tick that asks for a transmission uses up one unit
  of a budget, and a stopped timer neither changes nor asks for a transmission.
\<close>

fun run_ticks :: "(rand \<Rightarrow> u16 \<Rightarrow> 't \<Rightarrow> bool \<times> 't) \<Rightarrow> (rand \<times> u16) list \<Rightarrow> 't \<Rightarrow> bool list \<times> 't"
  where
  "run_ticks tick [] t = ([], t)"
| "run_ticks tick ((r, n) # xs) t =
     (let (b, t') = tick r n t; (bs, t'') = run_ticks tick xs t' in (b # bs, t''))"

locale suppression_timer =
  fixes start :: "rand \<Rightarrow> rand \<Rightarrow> 'p \<Rightarrow> 't \<Rightarrow> 't"
    and tick :: "rand \<Rightarrow> 'p \<Rightarrow> u16 \<Rightarrow> 't \<Rightarrow> bool \<times> 't"
    and consistent :: "'t \<Rightarrow> 't"
    and inconsistent :: "rand \<Rightarrow> 'p \<Rightarrow> 't \<Rightarrow> 't"
    and stop :: "'t \<Rightarrow> 't"
    and running :: "'t \<Rightarrow> 'p \<Rightarrow> bool"
    and good :: "'p \<Rightarrow> bool"
    and finite_run :: "'p \<Rightarrow> bool"
    and inv :: "'p \<Rightarrow> 't \<Rightarrow> bool"
    and budget :: "'p \<Rightarrow> 't \<Rightarrow> nat"
  assumes start_inv: "rand_ok rI \<Longrightarrow> rand_ok r \<Longrightarrow> good p \<Longrightarrow> inv p (start rI r p t)"
    and tick_inv: "rand_ok r \<Longrightarrow> good p \<Longrightarrow> inv p t \<Longrightarrow> inv p (snd (tick r p n t))"
    and consistent_inv: "inv p t \<Longrightarrow> inv p (consistent t)"
    and inconsistent_inv: "rand_ok r \<Longrightarrow> good p \<Longrightarrow> inv p t \<Longrightarrow> inv p (inconsistent r p t)"
    and stop_inv: "inv p t \<Longrightarrow> inv p (stop t)"
    and stop_stops: "\<not> running (stop t) p"
    and tick_stopped: "\<not> running t p \<Longrightarrow> tick r p n t = (False, t)"
    and tick_budget: "inv p t \<Longrightarrow> finite_run p \<Longrightarrow> tick r p n t = (b, t') \<Longrightarrow>
          budget p t' + of_bool b \<le> budget p t"
begin

lemma run_inv:
  assumes "good p" and "\<forall>(r, n) \<in> set xs. rand_ok r" and "inv p t"
  shows "inv p (snd (run_ticks (\<lambda>r. tick r p) xs t))"
  using assms(2,3)
proof (induction xs arbitrary: t)
  case Nil
  then show ?case by simp
next
  case (Cons x xs)
  obtain r n where x: "x = (r, n)" by (cases x)
  with Cons.prems have "inv p (snd (tick r p n t))"
    by (auto intro: tick_inv assms(1))
  with Cons x show ?case by (simp add: case_prod_unfold Let_def)
qed

lemma run_budget:
  assumes "good p" and "finite_run p" and "\<forall>(r, n) \<in> set xs. rand_ok r" and "inv p t"
    and "run_ticks (\<lambda>r. tick r p) xs t = (bs, t')"
  shows "budget p t' + length (filter (\<lambda>b. b) bs) \<le> budget p t"
  using assms(3-5)
proof (induction xs arbitrary: t bs)
  case Nil
  then show ?case by simp
next
  case (Cons x xs)
  obtain r n where x: "x = (r, n)" by (cases x)
  obtain b u where bu: "tick r p n t = (b, u)" by fastforce
  obtain cs v where cs: "run_ticks (\<lambda>r. tick r p) xs u = (cs, v)" by fastforce
  from Cons.prems(3) bu cs have eq: "bs = b # cs" "t' = v" by (simp_all add: x)
  have "inv p u" using tick_inv [of r p t n] Cons.prems bu x assms(1) by simp
  with Cons.IH [OF _ this] Cons.prems(1) cs eq(2)
  have "budget p t' + length (filter (\<lambda>b. b) cs) \<le> budget p u" by simp
  moreover have "budget p u + of_bool b \<le> budget p t"
    using tick_budget [OF Cons.prems(2) assms(2) bu] .
  ultimately show ?case by (cases b) (simp_all add: eq)
qed

lemma run_stopped:
  "\<not> running t p \<Longrightarrow> run_ticks (\<lambda>r. tick r p) xs t = (replicate (length xs) False, t)"
  by (induction xs) (auto simp: tick_stopped)

end

interpretation tt: suppression_timer
  trickle_start trickle_timer trickle_consistent_heard trickle_inconsistent_heard
  trickle_stop trickle_running trickle_params_ok "\<lambda>p. p_TimerExpirations p < 255"
  trickle_inv trickle_budget
proof unfold_locales
  show "\<not> trickle_running (trickle_stop t) p" for t p
    using unat_u8_lt [of "p_TimerExpirations p"]
    by (simp add: trickle_running_def trickle_stop_def word_less_nat_alt)
  show "trickle_timer r p n t = (False, t)" if "\<not> trickle_running t p" for t p r n
    using that by (simp add: trickle_timer_def)
  show "trickle_budget p t' + of_bool b \<le> trickle_budget p t"
    if "trickle_inv p t" "p_TimerExpirations p < 255" "trickle_timer r p n t = (b, t')"
    for p t r n b t'
    using that by (rule trickle_timer_budget)
qed (auto intro: inv_intros)

section \<open>The timer of RFC 6206 on unbounded numbers\<close>

text \<open>
  The rules of the RFC without machine integers: the interval doubles up to \<open>Imax\<close>, the
  clock of the interval never overflows.
\<close>

record rfc6206 =
  r_c :: nat
  r_e :: nat
  r_I :: nat
  r_t :: nat
  r_now :: nat

definition rfc6206_begin :: "(nat \<Rightarrow> nat \<Rightarrow> nat) \<Rightarrow> rfc6206 \<Rightarrow> rfc6206" where
  "rfc6206_begin pick s =
     s\<lparr>r_c := 0, r_t := (if r_I s > 2 then pick (r_I s div 2) (r_I s - 1) else 1), r_now := 0\<rparr>"

definition rfc6206_timer ::
    "(nat \<Rightarrow> nat \<Rightarrow> nat) \<Rightarrow> nat \<Rightarrow> nat \<Rightarrow> nat \<Rightarrow> nat \<Rightarrow> rfc6206 \<Rightarrow> bool \<times> rfc6206" where
  "rfc6206_timer pick Imax k expirations ticks s =
     (if expirations \<le> r_e s then (False, s)
      else
        (r_now s < r_t s \<and> r_t s \<le> r_now s + ticks \<and> (r_c s < k \<or> k = 0),
         if r_I s \<le> r_now s + ticks
         then rfc6206_begin pick
                (s\<lparr>r_I := min Imax (2 * r_I s), r_e := (if r_e s < 254 then r_e s + 1 else r_e s)\<rparr>)
         else s\<lparr>r_now := r_now s + ticks\<rparr>))"

definition trickle_abs :: "trickle_t \<Rightarrow> rfc6206" where
  "trickle_abs t = \<lparr>r_c = unat (tr_c t), r_e = unat (tr_e t), r_I = unat (tr_I t),
                    r_t = unat (tr_t t), r_now = unat (tr_now t)\<rparr>"

definition rand_abs :: "rand \<Rightarrow> nat \<Rightarrow> nat \<Rightarrow> nat" where
  "rand_abs rnd a b = unat (rnd (word_of_nat a) (word_of_nat b))"

lemma unat_half: "unat ((x :: u16) div 2) = unat x div 2"
  by (simp add: unat_div)

lemma word_of_nat_half: "word_of_nat (unat (x :: u16) div 2) = x div 2"
  by (simp flip: unat_half)

lemma word_of_nat_pred:
  assumes "0 < (x :: u16)"
  shows "word_of_nat (unat x - Suc 0) = x - 1"
proof -
  have "unat (x - 1) = unat x - Suc 0"
    using assms by (simp add: unat_sub word_le_nat_alt word_less_nat_alt)
  then show ?thesis by (simp flip: \<open>unat (x - 1) = _\<close>)
qed

lemma trickle_begin_interval_abs:
  "trickle_abs (trickle_begin_interval rnd t) = rfc6206_begin (rand_abs rnd) (trickle_abs t)"
proof -
  have "unat (rnd (tr_I t div 2) (tr_I t - 1)) =
      rand_abs rnd (unat (tr_I t) div 2) (unat (tr_I t) - 1)" if "2 < tr_I t"
  proof -
    from that have "0 < tr_I t" by (auto simp: word_less_nat_alt)
    then show ?thesis by (simp add: rand_abs_def word_of_nat_half word_of_nat_pred)
  qed
  then show ?thesis
    by (simp add: trickle_abs_def rfc6206_begin_def trickle_begin_interval_t word_less_nat_alt)
qed

lemma new_time_le:
  assumes "x \<le> 65535"
  shows "x \<le> unat (trickle_new_time ticks t) \<longleftrightarrow> x \<le> unat (tr_now t) + unat ticks"
  using assms by (auto simp: unat_trickle_new_time)

lemma trickle_timer_abs:
  "trickle_abs (snd (trickle_timer rnd p ticks t)) =
     snd (rfc6206_timer (rand_abs rnd) (unat (p_Imax p)) (unat (p_k p))
            (unat (p_TimerExpirations p)) (unat ticks) (trickle_abs t))"
  "fst (trickle_timer rnd p ticks t) \<longleftrightarrow>
     fst (rfc6206_timer (rand_abs rnd) (unat (p_Imax p)) (unat (p_k p))
            (unat (p_TimerExpirations p)) (unat ticks) (trickle_abs t))"
proof -
  have bounds: "unat (tr_I t) \<le> 65535" "unat (tr_t t) \<le> 65535"
    using unat_u16_lt [of "tr_I t"] unat_u16_lt [of "tr_t t"] by simp_all
  have e: "unat (if tr_e t < 254 then tr_e t + 1 else tr_e t) =
      (if unat (tr_e t) < 254 then unat (tr_e t) + 1 else unat (tr_e t))"
    by (simp add: word_less_nat_alt unat_word_ariths)
  have "trickle_abs (snd (trickle_timer rnd p ticks t)) =
     snd (rfc6206_timer (rand_abs rnd) (unat (p_Imax p)) (unat (p_k p))
            (unat (p_TimerExpirations p)) (unat ticks) (trickle_abs t)) \<and>
     fst (trickle_timer rnd p ticks t) =
     fst (rfc6206_timer (rand_abs rnd) (unat (p_Imax p)) (unat (p_k p))
            (unat (p_TimerExpirations p)) (unat ticks) (trickle_abs t))"
  proof (cases rule: trickle_timer_cases [of t p rnd ticks])
    case stopped
    then show ?thesis
      by (simp add: rfc6206_timer_def trickle_abs_def trickle_running_def word_less_nat_alt)
  next
    case (inside tx)
    from inside(2) bounds(1) have "unat (tr_now t) + unat ticks < unat (tr_I t)"
      and "unat (trickle_new_time ticks t) = unat (tr_now t) + unat ticks"
      by (simp_all add: word_less_nat_alt unat_trickle_new_time)
    with inside(1,3) show ?thesis
      unfolding inside(4)
      by (simp add: rfc6206_timer_def trickle_abs_def trickle_running_def word_less_nat_alt
          word_le_nat_alt unat_eq_zero)
  next
    case (expired tx)
    from expired(1-3) show ?thesis
      unfolding expired(4) snd_conv fst_conv trickle_begin_interval_abs
      by (auto simp: rfc6206_timer_def trickle_abs_def trickle_running_def word_less_nat_alt
          word_le_nat_alt new_time_le bounds unat_eq_zero unat_trickle_next_I rfc6206_begin_def
          unat_word_ariths)
  qed
  then show "trickle_abs (snd (trickle_timer rnd p ticks t)) =
     snd (rfc6206_timer (rand_abs rnd) (unat (p_Imax p)) (unat (p_k p))
            (unat (p_TimerExpirations p)) (unat ticks) (trickle_abs t))"
    and "fst (trickle_timer rnd p ticks t) \<longleftrightarrow>
     fst (rfc6206_timer (rand_abs rnd) (unat (p_Imax p)) (unat (p_k p))
            (unat (p_TimerExpirations p)) (unat ticks) (trickle_abs t))"
    by simp_all
qed

section \<open>The longest time to a given expiration\<close>

lemma trickle_timer_max_loop_Suc:
  "trickle_timer_max_loop p (Suc n) I tot =
     trickle_timer_max_loop p n (trickle_next_I p I) (tot + ucast (trickle_next_I p I))"
  by (simp add: trickle_next_I_def Let_def)

lemma unat_ucast_u16_u32: "unat (ucast (x :: u16) :: u32) = unat x"
  using unat_u16_lt [of x] by (simp add: unsigned_ucast_eq take_bit_nat_eq_self)

lemma min_double: "min (M::nat) (min M x * 2 ^ k) = (if x \<le> M then min M (x * 2 ^ k) else M)"
proof -
  have "M \<le> M * 2 ^ k" by simp
  then show ?thesis by (auto simp: min_def not_le)
qed

text \<open>
  The loop sums the next \<open>n\<close> intervals, each the doubled previous one cut at \<open>Imax\<close>;
  the sum of at most 256 16-bit numbers fits the 32-bit accumulator.
\<close>

lemma trickle_timer_max_loop_sum:
  assumes "unat tot + n * 65535 < 4294967296"
  shows "unat (trickle_timer_max_loop p n I tot) =
    unat tot + (\<Sum>i = 1..n. min (unat (p_Imax p)) (unat I * 2 ^ i))"
  using assms
proof (induction n arbitrary: I tot)
  case 0
  then show ?case by simp
next
  case (Suc n)
  define J where "J = trickle_next_I p I"
  have J: "unat J = min (unat (p_Imax p)) (2 * unat I)"
    unfolding J_def by (rule unat_trickle_next_I)
  have "unat (tot + ucast J) = unat tot + unat J"
    using Suc.prems unat_u16_lt [of J] by (simp add: unat_word_ariths unat_ucast_u16_u32)
  moreover have "unat (tot + ucast J) + n * 65535 < 4294967296"
    using calculation Suc.prems unat_u16_lt [of J] by simp
  ultimately have "unat (trickle_timer_max_loop p (Suc n) I tot) =
      unat tot + unat J + (\<Sum>i = 1..n. min (unat (p_Imax p)) (unat J * 2 ^ i))"
    using Suc.IH [of "tot + ucast J" J]
    by (simp only: trickle_timer_max_loop_Suc J_def [symmetric])
  also have "(\<Sum>i = 1..n. min (unat (p_Imax p)) (unat J * 2 ^ i)) =
      (\<Sum>i = Suc 1..Suc n. min (unat (p_Imax p)) (unat I * 2 ^ i))"
    unfolding sum.shift_bounds_cl_Suc_ivl J
  proof (rule sum.cong [OF refl])
    fix i
    have "unat I * 2 ^ Suc i = 2 * unat I * 2 ^ i" "2 * unat I \<le> 2 * unat I * 2 ^ i"
      by simp_all
    then show "min (unat (p_Imax p)) (min (unat (p_Imax p)) (2 * unat I) * 2 ^ i) =
        min (unat (p_Imax p)) (unat I * 2 ^ Suc i)"
      unfolding min_double by (smt (verit) le_trans linorder_le_cases min_def)
  qed
  also have "unat tot + unat J + \<dots> =
      unat tot + (\<Sum>i = 1..Suc n. min (unat (p_Imax p)) (unat I * 2 ^ i))"
    by (subst sum.atLeast_Suc_atMost [of 1 "Suc n"]) (simp_all add: J mult.commute)
  finally show ?case .
qed

section \<open>Stopping\<close>

lemma trickle_timer_expires:
  assumes "trickle_inv p t" and "trickle_running t p" and "p_TimerExpirations p < 255"
    and "p_Imax p \<le> ticks"
  shows "unat (tr_e (snd (trickle_timer rnd p ticks t))) = Suc (unat (tr_e t))"
proof (cases rule: trickle_timer_cases [of t p rnd ticks])
  case stopped
  with assms(2) show ?thesis by simp
next
  case inside
  have "unat (tr_I t) \<le> unat ticks" "unat ticks \<le> 65535"
    using assms(1,4) unat_u16_lt [of ticks] by (auto simp: trickle_inv_def word_le_nat_alt)
  with inside(2) show ?thesis by (simp add: word_less_nat_alt unat_trickle_new_time)
next
  case expired
  then show ?thesis using trickle_timer_e_step [OF assms(2,3)] by simp
qed

lemma trickle_run_stops:
  assumes "trickle_params_ok p" and "p_TimerExpirations p < 255"
    and "\<forall>(r, n) \<in> set xs. rand_ok r \<and> p_Imax p \<le> n"
    and "trickle_inv p t" and "unat (p_TimerExpirations p) \<le> unat (tr_e t) + length xs"
  shows "\<not> trickle_running (snd (run_ticks (\<lambda>r. trickle_timer r p) xs t)) p"
  using assms(3-5)
proof (induction xs arbitrary: t)
  case Nil
  then show ?case by (simp add: trickle_running_def word_less_nat_alt)
next
  case (Cons x xs)
  obtain r n where x: "x = (r, n)" by (cases x)
  define u where "u = snd (trickle_timer r p n t)"
  show ?case
  proof (cases "trickle_running t p")
    case True
    have "unat (tr_e u) = Suc (unat (tr_e t))" "trickle_inv p u"
      using Cons.prems x assms(1,2) True
      by (auto simp: u_def intro!: trickle_timer_expires trickle_timer_inv)
    with Cons have "\<not> trickle_running (snd (run_ticks (\<lambda>r. trickle_timer r p) xs u)) p"
      by simp
    then show ?thesis by (simp add: x u_def case_prod_unfold Let_def)
  next
    case False
    then show ?thesis by (simp add: tt.run_stopped)
  qed
qed

section \<open>Properties\<close>

text \<open>
  C35: whatever sequence of public operations a timer goes through after it was started, its
  interval stays between \<open>Imin\<close> and \<open>Imax\<close>, its transmission time in the second half
  of the interval and its clock before the interval's end.
\<close>

theorem trickle_reach_inv:
  assumes "trickle_params_ok p" and "trickle_reach p t"
  shows "trickle_inv p t"
  using assms(2)
proof (induction rule: trickle_reach.induct)
  case (start rndI rnd t)
  then show ?case using assms(1) by (intro tt.start_inv)
next
  case (timer t rnd ticks)
  then show ?case using assms(1) by (intro tt.tick_inv)
next
  case (consistent t)
  then show ?case by (intro tt.consistent_inv)
next
  case (inconsistent t rnd)
  then show ?case using assms(1) by (intro tt.inconsistent_inv)
next
  case (stop t)
  then show ?case by (intro tt.stop_inv)
qed

definition trickle_params_example :: trickle_params_t where
  "trickle_params_example =
     \<lparr>p_Imin = 10, p_Imax = 40, p_k = 1, p_TimerExpirations = 3\<rparr>"

definition trickle_example :: trickle_t where
  "trickle_example =
     \<lparr>tr_c = 0, tr_e = 0, tr_I = 10, tr_t = 5, tr_now = 0, tr_num_tx = 0\<rparr>"

lemma trickle_params_example_ok: "trickle_params_ok trickle_params_example"
  by (simp add: trickle_params_ok_def trickle_params_example_def)

lemma trickle_start_example:
  "trickle_start (\<lambda>a b. a) (\<lambda>a b. a) trickle_params_example trickle_example = trickle_example"
  by (simp add: trickle_start_def trickle_begin_interval_def trickle_params_example_def
      trickle_example_def)

theorem trickle_reach_inv_witness:
  "trickle_inv trickle_params_example
     (snd (trickle_timer (\<lambda>a b. a) trickle_params_example 12 trickle_example))"
proof (rule trickle_reach_inv [OF trickle_params_example_ok])
  have "trickle_reach trickle_params_example trickle_example"
    using trickle_reach.start [OF rand_ok_low rand_ok_low, of trickle_params_example trickle_example]
    by (simp only: trickle_start_example)
  then show "trickle_reach trickle_params_example
     (snd (trickle_timer (\<lambda>a b. a) trickle_params_example 12 trickle_example))"
    by (intro trickle_reach.timer rand_ok_low)
qed

text \<open>
  C36: \<open>trickle_timer\<close> on 16-bit machine integers, with its two saturating overflow checks,
  computes exactly what the RFC 6206 rules compute on unbounded numbers: the same decision to
  transmit and the same next state, for every timer, parameter set and number of ticks.
\<close>

theorem trickle_timer_refines_rfc6206:
  "map_prod id trickle_abs (trickle_timer rnd p ticks t) =
     rfc6206_timer (rand_abs rnd) (unat (p_Imax p)) (unat (p_k p))
       (unat (p_TimerExpirations p)) (unat ticks) (trickle_abs t)"
  by (rule prod_eqI) (simp_all add: trickle_timer_abs)

text \<open>
  a timer with a finite expiration count \<open>TimerExpirations\<close> tells its user to transmit at
  most that many times after a start, however time is divided into ticks.
\<close>

lemma trickle_transmissions_bounded:
  assumes "trickle_params_ok p" and "p_TimerExpirations p < 255"
    and "rand_ok rndI" and "rand_ok rnd" and "\<forall>(r, n) \<in> set xs. rand_ok r"
  shows "length (filter (\<lambda>b. b)
      (fst (run_ticks (\<lambda>r. trickle_timer r p) xs (trickle_start rndI rnd p t))))
    \<le> unat (p_TimerExpirations p)"
proof -
  let ?s = "trickle_start rndI rnd p t"
  obtain bs u where run: "run_ticks (\<lambda>r. trickle_timer r p) xs ?s = (bs, u)" by fastforce
  have "trickle_budget p u + length (filter (\<lambda>b. b) bs) \<le> trickle_budget p ?s"
    using assms run by (intro tt.run_budget [where xs = xs and t = ?s]) (auto intro: tt.start_inv)
  moreover have "trickle_budget p ?s \<le> unat (p_TimerExpirations p)"
    by (simp add: trickle_budget_def)
  ultimately show ?thesis by (simp add: run)
qed

text \<open>
  a timer with a finite expiration count stops: once as many intervals as it counts have
  certainly passed (that many ticks of at least \<open>Imax\<close>), it is not running any more.
\<close>

lemma trickle_timer_stops:
  assumes "trickle_params_ok p" and "p_TimerExpirations p < 255"
    and "rand_ok rndI" and "rand_ok rnd" and "\<forall>(r, n) \<in> set xs. rand_ok r \<and> p_Imax p \<le> n"
    and "unat (p_TimerExpirations p) \<le> length xs"
  shows "\<not> trickle_running
    (snd (run_ticks (\<lambda>r. trickle_timer r p) xs (trickle_start rndI rnd p t))) p"
  using assms by (intro trickle_run_stops) (auto intro: tt.start_inv)

text \<open>
  \<open>trickle_timer_max\<close> is the exact sum of the interval lengths, each the doubled previous
  one cut at \<open>Imax\<close>, starting from \<open>Imin - 1\<close>; its 32-bit accumulator never wraps.
\<close>

lemma trickle_timer_max_sum:
  assumes "0 < p_Imin p"
  shows "unat (trickle_timer_max p n) =
    (unat (p_Imin p) - 1)
      + (\<Sum>i = 1..unat n. min (unat (p_Imax p)) ((unat (p_Imin p) - 1) * 2 ^ i))"
proof -
  define I where "I = p_Imin p - 1"
  have I: "unat I = unat (p_Imin p) - 1"
    using assms by (simp add: I_def unat_sub word_le_nat_alt word_less_nat_alt)
  have "unat (ucast I :: u32) + unat n * 65535 < 4294967296"
    using unat_u16_lt [of I] unat_u8_lt [of n] by (simp add: unat_ucast_u16_u32)
  from trickle_timer_max_loop_sum [OF this] show ?thesis
    by (simp add: trickle_timer_max_def Let_def I_def [symmetric] I unat_ucast_u16_u32)
qed

text \<open>
  Hearing an inconsistency puts a timer back to the shortest interval with no expirations
  counted, except that a timer already running at the shortest interval is left alone, so that
  repeated inconsistencies cannot postpone its transmission.
\<close>

lemma trickle_inconsistent_heard_spec:
  "trickle_inconsistent_heard rnd p t =
     (if tr_I t = p_Imin p \<and> trickle_running t p then t
      else t\<lparr>tr_c := 0, tr_e := 0, tr_I := p_Imin p, tr_now := 0,
             tr_t := (if 2 < p_Imin p then rnd (p_Imin p div 2) (p_Imin p - 1) else 1)\<rparr>)"
  by (simp add: trickle_inconsistent_heard_def trickle_reset_timer_def
      trickle_begin_interval_def Let_def)

end
