(* ===== verification/Red.thy ===== *)
theory Red
  imports Prelude
begin

text \<open>
  Random early detection (\<open>Service_Libs/random_early_detection\<close>): the exponentially weighted
  average of a queue length, scaled by 256, and the decision to drop a packet. A NULL pointer
  is \<open>None\<close>; the success of the allocation and the random draw are parameters.

  The theory shows that the 32-bit arithmetic never wraps in a structure made by
  \<open>random_early_detection_create\<close>, that the average moves between the old average and the new
  sample, and what the decision is in the three regions of the average.
\<close>

section \<open>Data\<close>

record red_config_t =
  weight :: u16
  threshold_min :: u16
  threshold_max :: u16
  drop_maX_P :: u8

record red_info_t =
  parameters :: red_config_t
  averageQ :: u32
  count :: u16

abbreviation RED_AVERAGE_WEIGHT_DISABLED :: u16 where
  "RED_AVERAGE_WEIGHT_DISABLED \<equiv> 256"

section \<open>Operations\<close>

definition random_early_detection_create ::
    "bool \<Rightarrow> u16 \<Rightarrow> u16 \<Rightarrow> u8 \<Rightarrow> u16 \<Rightarrow> red_info_t option" where
  "random_early_detection_create alloc_ok t_min t_max drop_max_p w =
     (if w = 0 \<or> w > 256 then None
      else if drop_max_p = 0 \<or> drop_max_p > 100 then None
      else if t_max \<le> t_min then None
      else if alloc_ok
      then Some \<lparr>parameters = \<lparr>weight = w, threshold_min = t_min, threshold_max = t_max,
                               drop_maX_P = drop_max_p\<rparr>,
                 averageQ = 0, count = 0\<rparr>
      else None)"

definition random_early_detection_free :: "red_info_t option \<Rightarrow> red_info_t option" where
  "random_early_detection_free info = None"

definition random_early_detetction_aq_calc ::
    "red_info_t option \<Rightarrow> u16 \<Rightarrow> u16 \<times> red_info_t option" where
  "random_early_detetction_aq_calc info sampleLen =
     (case info of
        None \<Rightarrow> (0, None)
      | Some r \<Rightarrow>
          if weight (parameters r) = RED_AVERAGE_WEIGHT_DISABLED \<or> averageQ r = 0
          then (sampleLen, Some (r\<lparr>averageQ := ucast sampleLen * 256\<rparr>))
          else
            let averageSum = ((256 - ucast (weight (parameters r))) * averageQ r) div 256;
                averageSum = averageSum + ucast (weight (parameters r)) * ucast sampleLen;
                averageSum = (if averageSum AND 1 \<noteq> 0 then averageSum + 1 else averageSum);
                r = r\<lparr>averageQ := averageSum\<rparr>
            in (ucast (averageQ r div 256), Some r))"

definition random_early_detetction_aq_read :: "red_info_t option \<Rightarrow> u16" where
  "random_early_detetction_aq_read info =
     (case info of None \<Rightarrow> 0 | Some r \<Rightarrow> ucast (averageQ r div 256))"

text \<open>\<open>rnd\<close> is \<open>randLIB_get_random_in_range\<close>; the scale \<open>PROB_SCALE_MAX\<close> is 51200.\<close>

definition random_early_detection_congestion_check ::
    "rand \<Rightarrow> red_info_t option \<Rightarrow> bool \<times> red_info_t option" where
  "random_early_detection_congestion_check rnd info =
     (case info of
        None \<Rightarrow> (False, None)
      | Some r \<Rightarrow>
          let sampleLen = ucast (averageQ r div 256) :: u16;
              P = parameters r
          in
          if sampleLen \<le> threshold_min P then (False, Some (r\<lparr>count := 0\<rparr>))
          else if sampleLen > threshold_max P then (True, Some (r\<lparr>count := 0\<rparr>))
          else
            let tempP = ucast (drop_maX_P P) * 512 * ucast (sampleLen - threshold_min P)
                          div ucast (threshold_max P - threshold_min P) :: u32;
                prob = ucast (count r) * tempP
            in
            if prob \<ge> 51200 then (True, Some (r\<lparr>count := 0\<rparr>))
            else
              let prob = (tempP * 51200) div (51200 - prob)
              in if prob > ucast (rnd 0 51199) then (True, Some (r\<lparr>count := 0\<rparr>))
                 else (False, Some (r\<lparr>count := count r + 1\<rparr>)))"

section \<open>Arithmetic without wrap-around\<close>

definition red_inv :: "red_info_t \<Rightarrow> bool" where
  "red_inv r \<longleftrightarrow>
     0 < weight (parameters r) \<and> weight (parameters r) \<le> 256 \<and>
     0 < drop_maX_P (parameters r) \<and> drop_maX_P (parameters r) \<le> 100 \<and>
     threshold_min (parameters r) < threshold_max (parameters r) \<and>
     unat (averageQ r) \<le> 65535 * 256 \<and> even (unat (averageQ r))"

lemma unat_ucast_16_32 [simp]: "unat (ucast (x :: u16) :: u32) = unat x"
  using unat_u16_lt [of x] by (simp add: unsigned_ucast_eq take_bit_nat_eq_self)

lemma unat_ucast_8_32 [simp]: "unat (ucast (x :: u8) :: u32) = unat x"
  using unat_u8_lt [of x] by (simp add: unsigned_ucast_eq take_bit_nat_eq_self)

lemma unat_ucast_32_16: "unat (x :: u32) < 65536 \<Longrightarrow> unat (ucast x :: u16) = unat x"
  by (simp add: unsigned_ucast_eq take_bit_nat_eq_self)

lemma unat_mult_small:
  fixes a b :: u32
  shows "unat a * unat b < 4294967296 \<Longrightarrow> unat (a * b) = unat a * unat b"
  by (simp add: unat_word_ariths)

lemma unat_add_small:
  fixes a b :: u32
  shows "unat a + unat b < 4294967296 \<Longrightarrow> unat (a + b) = unat a + unat b"
  by (simp add: unat_word_ariths)

lemma and_1_odd: "(x :: u32) AND 1 \<noteq> 0 \<longleftrightarrow> odd (unat x)"
  by (auto simp: and_one_eq unat_mod odd_iff_mod_2_eq_one simp flip: unat_eq_zero)

text \<open>The new scaled average, on natural numbers.\<close>

definition red_average :: "nat \<Rightarrow> nat \<Rightarrow> nat \<Rightarrow> nat" where
  "red_average w q s =
     (let a = (256 - w) * q div 256 + w * s in if odd a then a + 1 else a)"

lemma red_average_even: "even (red_average w q s)"
  by (simp add: red_average_def Let_def)

lemma red_average_raw_ge:
  fixes w q s :: nat
  assumes "w \<le> 256"
  shows "min q (256 * s) \<le> (256 - w) * q div 256 + w * s"
proof -
  define m where "m = min q (256 * s)"
  define X where "X = (256 - w) * q"
  define Y where "Y = w * (256 * s)"
  have "(256 - w) * m \<le> X" "w * m \<le> Y"
    unfolding X_def Y_def m_def by (intro mult_le_mono2; simp)+
  moreover have "(256 - w) * m + w * m = 256 * m"
    using assms by (simp flip: distrib_right)
  moreover have "Y = 256 * (w * s)" by (simp add: Y_def)
  ultimately show ?thesis unfolding m_def [symmetric] X_def [symmetric] by linarith
qed

lemma red_average_raw_le:
  fixes w q s :: nat
  assumes "w \<le> 256"
  shows "(256 - w) * q div 256 + w * s \<le> max q (256 * s)"
proof -
  define m where "m = max q (256 * s)"
  define X where "X = (256 - w) * q"
  define Y where "Y = w * (256 * s)"
  have "X \<le> (256 - w) * m" "Y \<le> w * m"
    unfolding X_def Y_def m_def by (intro mult_le_mono2; simp)+
  moreover have "(256 - w) * m + w * m = 256 * m"
    using assms by (simp flip: distrib_right)
  moreover have "Y = 256 * (w * s)" by (simp add: Y_def)
  ultimately show ?thesis unfolding m_def [symmetric] X_def [symmetric] by linarith
qed

text \<open>Rounding an odd sum up does not leave the range, since both its ends are even.\<close>

lemma red_average_between:
  assumes "w \<le> 256" and "even q"
  shows "min q (256 * s) \<le> red_average w q s" and "red_average w q s \<le> max q (256 * s)"
proof -
  define a where "a = (256 - w) * q div 256 + w * s"
  have a: "min q (256 * s) \<le> a" "a \<le> max q (256 * s)"
    unfolding a_def using red_average_raw_ge red_average_raw_le assms(1) by blast+
  have "even (max q (256 * s))" using assms(2) by (simp add: max_def)
  then have "a < max q (256 * s)" if "odd a"
    using a(2) that by (metis le_neq_implies_less)
  with a show "min q (256 * s) \<le> red_average w q s" "red_average w q s \<le> max q (256 * s)"
    unfolding red_average_def Let_def a_def [symmetric] by auto
qed

lemma red_average_word:
  fixes sampleLen :: u16
  assumes "red_inv r" and "s = unat sampleLen"
  defines "W \<equiv> ucast (weight (parameters r)) :: u32"
  defines "a \<equiv> ((256 - W) * averageQ r) div 256 + W * ucast sampleLen"
  shows "unat (if a AND 1 \<noteq> 0 then a + 1 else a) =
    red_average (unat (weight (parameters r))) (unat (averageQ r)) s"
proof -
  let ?w = "unat (weight (parameters r))" and ?q = "unat (averageQ r)"
  have w: "0 < ?w" "?w \<le> 256" and q: "?q \<le> 16776960" "even ?q"
    using assms(1) by (simp_all add: red_inv_def word_less_nat_alt word_le_nat_alt)
  have s: "s \<le> 65535" using assms(2) unat_u16_lt [of sampleLen] by simp
  have W: "unat W = ?w" by (simp add: W_def)
  have "unat (256 - W) = 256 - ?w"
    using w by (subst unat_sub) (simp_all add: word_le_nat_alt W)
  moreover have m: "(256 - ?w) * ?q \<le> 255 * 16776960"
    using w q(1) by (intro mult_le_mono) simp_all
  ultimately have 1: "unat ((256 - W) * averageQ r) = (256 - ?w) * ?q"
    by (subst unat_mult_small) simp_all
  have "?w * s \<le> 256 * 65535" using w s by (intro mult_le_mono)
  then have 2: "unat (W * ucast sampleLen) = ?w * s"
    using W assms(2) by (subst unat_mult_small) simp_all
  have a: "unat a = (256 - ?w) * ?q div 256 + ?w * s"
    using m \<open>?w * s \<le> 256 * 65535\<close> unfolding a_def
    by (subst unat_add_small) (simp_all add: 1 2 unat_div)
  have "unat a \<le> max ?q (256 * s)" unfolding a by (rule red_average_raw_le [OF w(2)])
  then have "unat (a + 1) = unat a + 1"
    using q s by (subst unat_add_small) simp_all
  then show ?thesis
    unfolding red_average_def Let_def and_1_odd a [symmetric] by simp
qed

lemma red_aq_calc_cases:
  assumes "red_inv r"
  obtains (fresh) "weight (parameters r) = 256 \<or> averageQ r = 0"
      "random_early_detetction_aq_calc (Some r) s =
         (s, Some (r\<lparr>averageQ := ucast s * 256\<rparr>))"
      "unat (ucast s * 256 :: u32) = 256 * unat s"
  | (average) q where "weight (parameters r) \<noteq> 256" "averageQ r \<noteq> 0"
      "random_early_detetction_aq_calc (Some r) s =
         (ucast (q div 256), Some (r\<lparr>averageQ := q\<rparr>))"
      "unat q = red_average (unat (weight (parameters r))) (unat (averageQ r)) (unat s)"
proof (cases "weight (parameters r) = 256 \<or> averageQ r = 0")
  case True
  have "unat (ucast s * 256 :: u32) = 256 * unat s"
    using unat_u16_lt [of s] by (subst unat_mult_small) simp_all
  with True show ?thesis
    by (intro fresh) (simp_all add: random_early_detetction_aq_calc_def)
next
  case False
  then show ?thesis
    by (intro average [OF _ _ _ red_average_word [OF assms refl]])
      (simp_all add: random_early_detetction_aq_calc_def Let_def)
qed

text \<open>The drop probability of a packet, scaled by 51200, before the count is taken into account.\<close>

definition red_tempP :: "red_config_t \<Rightarrow> nat \<Rightarrow> nat" where
  "red_tempP P len =
     unat (drop_maX_P P) * 512 * (len - unat (threshold_min P))
       div (unat (threshold_max P) - unat (threshold_min P))"

lemma red_tempP_le:
  assumes "unat (drop_maX_P P) \<le> 100" and "len \<le> unat (threshold_max P)"
  shows "red_tempP P len \<le> 51200"
proof -
  have "unat (drop_maX_P P) * 512 * (len - unat (threshold_min P))
      \<le> 51200 * (unat (threshold_max P) - unat (threshold_min P))"
    using assms by (intro mult_le_mono) simp_all
  then have "red_tempP P len \<le>
      51200 * (unat (threshold_max P) - unat (threshold_min P))
        div (unat (threshold_max P) - unat (threshold_min P))"
    unfolding red_tempP_def by (rule div_le_mono)
  also have "\<dots> \<le> 51200"
    by (cases "unat (threshold_max P) - unat (threshold_min P) = 0") simp_all
  finally show ?thesis .
qed

lemma red_tempP_word:
  fixes len :: u16
  assumes "unat (drop_maX_P P) \<le> 100" and "threshold_min P < len" and "len \<le> threshold_max P"
  shows "unat (ucast (drop_maX_P P) * 512 * ucast (len - threshold_min P)
      div ucast (threshold_max P - threshold_min P) :: u32) = red_tempP P (unat len)"
proof -
  have d: "unat (len - threshold_min P) = unat len - unat (threshold_min P)"
    "unat (threshold_max P - threshold_min P) = unat (threshold_max P) - unat (threshold_min P)"
    using assms(2,3) by (auto intro!: unat_sub)
  have 1: "unat (ucast (drop_maX_P P) * 512 :: u32) = unat (drop_maX_P P) * 512"
    using assms(1) by (subst unat_mult_small) simp_all
  have "unat (drop_maX_P P) * 512 * (unat len - unat (threshold_min P)) \<le> 51200 * 65535"
    using assms(1) unat_u16_lt [of len] by (intro mult_le_mono) simp_all
  then show ?thesis
    unfolding red_tempP_def unat_div by (subst unat_mult_small) (simp_all add: 1 d)
qed

text \<open>The decision on natural numbers: whether to drop, and the count afterwards.\<close>

definition red_decide :: "red_config_t \<Rightarrow> nat \<Rightarrow> nat \<Rightarrow> nat \<Rightarrow> bool \<times> nat" where
  "red_decide P len cnt draw =
     (if len \<le> unat (threshold_min P) then (False, 0)
      else if len > unat (threshold_max P) then (True, 0)
      else if cnt * red_tempP P len \<ge> 51200 then (True, 0)
      else if red_tempP P len * 51200 div (51200 - cnt * red_tempP P len) > draw then (True, 0)
      else (False, cnt + 1))"

lemma red_check_decide:
  assumes "red_inv r"
  shows "random_early_detection_congestion_check rnd (Some r) =
    (let (b, c) = red_decide (parameters r) (unat (averageQ r) div 256) (unat (count r))
                    (unat (rnd 0 51199))
     in (b, Some (r\<lparr>count := word_of_nat c\<rparr>)))"
proof -
  let ?P = "parameters r"
  define len where "len = (ucast (averageQ r div 256) :: u16)"
  have d: "unat (drop_maX_P ?P) \<le> 100" and q: "unat (averageQ r) \<le> 16776960"
    using assms by (simp_all add: red_inv_def word_le_nat_alt)
  have len: "unat len = unat (averageQ r) div 256"
    using q unfolding len_def by (subst unat_ucast_32_16) (simp_all add: unat_div)
  show ?thesis
  proof (cases "threshold_min ?P < len \<and> len \<le> threshold_max ?P")
    case False
    then show ?thesis
      by (auto simp: random_early_detection_congestion_check_def Let_def red_decide_def
          word_less_nat_alt word_le_nat_alt len simp flip: len_def)
  next
    case True
    define T where "T = (ucast (drop_maX_P ?P) * 512 * ucast (len - threshold_min ?P)
      div ucast (threshold_max ?P - threshold_min ?P) :: u32)"
    have T: "unat T = red_tempP ?P (unat len)"
      unfolding T_def using True by (intro red_tempP_word d) simp_all
    have T_le: "unat T \<le> 51200"
      unfolding T using True d by (intro red_tempP_le) (simp_all add: word_le_nat_alt)
    have "unat (count r) * unat T \<le> 65535 * 51200"
      using unat_u16_lt [of "count r"] T_le by (intro mult_le_mono) simp_all
    then have C: "unat (ucast (count r) * T) = unat (count r) * unat T"
      by (subst unat_mult_small) simp_all
    have T5: "unat (T * 51200) = unat T * 51200"
      using T_le by (subst unat_mult_small) simp_all
    have "unat (51200 - ucast (count r) * T) = 51200 - unat (count r) * unat T"
      if "\<not> 51200 \<le> ucast (count r) * T"
      using that by (subst unat_sub) (simp_all add: word_le_nat_alt C)
    with True show ?thesis
      unfolding random_early_detection_congestion_check_def red_decide_def len [symmetric]
        T [symmetric]
      by (simp add: Let_def word_less_nat_alt word_le_nat_alt C T5 unat_div
          flip: len_def T_def)
  qed
qed

section \<open>Properties\<close>

text \<open>
  in a structure made by \<open>random_early_detection_create\<close> the averaging step never wraps: the
  new scaled average lies between the old average and the new sample, the value returned is the
  average rounded down, and the structure stays well formed.
\<close>

lemma red_aq_calc_between:
  assumes "red_inv r" and "random_early_detetction_aq_calc (Some r) s = (v, Some r')"
  shows "red_inv r' \<and> unat v = unat (averageQ r') div 256 \<and>
    min (unat (averageQ r)) (256 * unat s) \<le> unat (averageQ r') \<and>
    unat (averageQ r') \<le> max (unat (averageQ r)) (256 * unat s)"
  using assms(1)
proof (cases rule: red_aq_calc_cases [where s = s])
  case fresh
  then have eq: "v = s" "r' = r\<lparr>averageQ := ucast s * 256\<rparr>" using assms(2) by simp_all
  with assms(1) fresh(3) unat_u16_lt [of s] show ?thesis by (simp add: red_inv_def)
next
  case (average q)
  then have eq: "v = ucast (q div 256)" "r' = r\<lparr>averageQ := q\<rparr>" using assms(2) by simp_all
  have inv: "unat (weight (parameters r)) \<le> 256" "even (unat (averageQ r))"
    "unat (averageQ r) \<le> 16776960"
    using assms(1) by (simp_all add: red_inv_def word_le_nat_alt)
  note bw = red_average_between [OF inv(1,2), of "unat s", folded average(4)]
  have q: "unat q \<le> 16776960"
    using bw(2) inv(3) unat_u16_lt [of s] by simp
  have "unat (ucast (q div 256) :: u16) = unat q div 256"
    using q by (subst unat_ucast_32_16) (simp_all add: unat_div)
  moreover have "even (unat q)" unfolding average(4) by (rule red_average_even)
  ultimately show ?thesis
    using assms(1) q bw by (simp add: eq red_inv_def)
qed

definition red_example :: red_info_t where
  "red_example = \<lparr>parameters = \<lparr>weight = 64, threshold_min = 32, threshold_max = 96,
     drop_maX_P = 10\<rparr>, averageQ = 16384, count = 2\<rparr>"

lemma red_example_inv: "red_inv red_example"
  by (simp add: red_inv_def red_example_def)

text \<open>
  \<open>random_early_detection_create\<close> succeeds exactly on a weight of 1 to 256, a drop
  probability of 1 to 100 and thresholds in order (given memory), and what it returns is well
  formed.
\<close>

lemma red_create_spec:
  "(\<exists>r. random_early_detection_create True tmin tmax d w = Some r \<and> red_inv r
        \<and> averageQ r = 0 \<and> count r = 0) \<longleftrightarrow>
     w \<in> {1..256} \<and> d \<in> {1..100} \<and> tmin < tmax"
  by (auto simp: random_early_detection_create_def red_inv_def not_le not_less word_gt_0
      word_le_nat_alt word_less_nat_alt unat_gt_0 Suc_le_eq split: if_splits)

text \<open>
  C37: the 32-bit computation of the drop decision is the computation on unbounded numbers: below
  the lower threshold the packet is accepted, above the upper one dropped, and in between dropped
  when \<open>P / (1 - count P)\<close> exceeds the draw, \<open>P\<close> being the linear ramp between the thresholds.
\<close>

theorem red_congestion_check_exact:
  assumes "red_inv r"
    and "red_decide (parameters r) (unat (averageQ r) div 256) (unat (count r))
           (unat (rnd 0 51199)) = (b, c)"
  shows "random_early_detection_congestion_check rnd (Some r) =
    (b, Some (r\<lparr>count := word_of_nat c\<rparr>))"
  using red_check_decide [OF assms(1), of rnd] assms(2) by simp

theorem red_congestion_check_exact_witness:
  "random_early_detection_congestion_check (\<lambda>a b. 3000) (Some red_example) =
     (False, Some (red_example\<lparr>count := 3\<rparr>))"
  using red_congestion_check_exact [OF red_example_inv, of "\<lambda>a b. 3000" False 3]
  by (simp add: red_decide_def red_tempP_def red_example_def)

text \<open>Consecutive decisions while the average does not change.\<close>

fun red_checks :: "rand list \<Rightarrow> red_info_t \<Rightarrow> bool list" where
  "red_checks [] r = []"
| "red_checks (rnd # rnds) r =
     (case random_early_detection_congestion_check rnd (Some r) of
        (b, Some r') \<Rightarrow> b # red_checks rnds r'
      | (b, None) \<Rightarrow> [b])"

lemma red_checks_accepted:
  assumes "red_inv r" and "rnds \<noteq> []" and "True \<notin> set (red_checks rnds r)"
    and "unat (threshold_min (parameters r)) < unat (averageQ r) div 256"
    and "0 < red_tempP (parameters r) (unat (averageQ r) div 256)"
  shows "unat (count r) + length rnds
    \<le> Suc (51200 div red_tempP (parameters r) (unat (averageQ r) div 256))"
  using assms
proof (induction rnds arbitrary: r)
  case Nil
  then show ?case by simp
next
  case (Cons rnd rnds)
  let ?T = "red_tempP (parameters r) (unat (averageQ r) div 256)"
  obtain b c where bc: "red_decide (parameters r) (unat (averageQ r) div 256) (unat (count r))
           (unat (rnd 0 51199)) = (b, c)" by fastforce
  note step = red_check_decide [OF Cons.prems(1), of rnd, unfolded bc, simplified]
  have "\<not> b" using Cons.prems(3) by (auto simp: step)
  with bc Cons.prems(4) have c: "c = unat (count r) + 1" "unat (count r) * ?T < 51200"
    by (auto simp: red_decide_def split: if_splits)
  then have lt: "unat (count r) \<le> 51200 div ?T"
    using Cons.prems(5) by (simp add: less_eq_div_iff_mult_less_eq)
  show ?case
  proof (cases "rnds = []")
    case True
    with lt show ?thesis by simp
  next
    case False
    have "unat (count r) \<le> 51200"
      using lt div_le_dividend [of 51200 ?T] by linarith
    then have cnt: "unat (word_of_nat c :: u16) = Suc (unat (count r))"
      by (simp add: c unat_word_ariths)
    have "red_inv (r\<lparr>count := word_of_nat c\<rparr>)"
      using Cons.prems(1) by (simp add: red_inv_def)
    from Cons.IH [OF this False] Cons.prems(3-5) cnt show ?thesis
      by (simp add: step)
  qed
qed

text \<open>
  while the average stays above the lower threshold with a drop probability that is not
  rounded to zero, packets are not accepted forever: among \<open>51200 / P + 2\<close> consecutive checks at
  least one decides to drop, whatever the random draws are.
\<close>

lemma red_drops_eventually:
  assumes "red_inv r"
    and "unat (threshold_min (parameters r)) < unat (averageQ r) div 256"
    and "0 < red_tempP (parameters r) (unat (averageQ r) div 256)"
    and "51200 div red_tempP (parameters r) (unat (averageQ r) div 256) + 2 \<le> length rnds"
  shows "True \<in> set (red_checks rnds r)"
proof (rule ccontr)
  assume "True \<notin> set (red_checks rnds r)"
  moreover have "rnds \<noteq> []" using assms(4) by auto
  ultimately show False
    using red_checks_accepted [OF assms(1) _ _ assms(2,3), of rnds] assms(4) by linarith
qed

end
