(* ===== verification/PanBlacklist.thy ===== *)
theory PanBlacklist
  imports Prelude
begin

text \<open>
  The PAN and PAN coordinator blacklists of \<open>Service_Libs/pan_blacklist/pan_blacklist.c\<close>:
  two lists of entries that age with time. The success of an allocation and the contents of
  uninitialised memory (\<open>fresh\<close>) are parameters.

  Both lists implement one abstract table, a map from keys to the seconds an entry has left;
  that a blacklisted PAN is filtered exactly until its timeout has passed is proved once, in
  the locale of that table.
\<close>

section \<open>Data\<close>

record pan_blaclist_entry_t =
  pan_id :: u16
  timeout_in_seconds :: u16

record pan_coordinator_blacklist_entry_t =
  coordinator_pan_address :: bytes
  c_timeout_in_seconds :: u16

type_synonym pan_blaclist_cache_s = "pan_blaclist_entry_t list"
type_synonym pan_coordinator_blaclist_cache_s = "pan_coordinator_blacklist_entry_t list"

section \<open>Operations\<close>

definition pan_blacklist_cache_init :: pan_blaclist_cache_s where
  "pan_blacklist_cache_init = []"

definition pan_coordinator_blacklist_cache_init :: pan_coordinator_blaclist_cache_s where
  "pan_coordinator_blacklist_cache_init = []"

definition pan_blacklist_entry_find :: "pan_blaclist_cache_s \<Rightarrow> u16 \<Rightarrow> nat option" where
  "pan_blacklist_entry_find l p = find_index (\<lambda>cur. pan_id cur = p) l"

definition pan_blacklist_entry_allocate ::
    "bool \<Rightarrow> pan_blaclist_entry_t \<Rightarrow> pan_blaclist_cache_s \<Rightarrow> nat option \<times> pan_blaclist_cache_s" where
  "pan_blacklist_entry_allocate alloc_ok fresh l =
     (if alloc_ok then (Some (length l), l @ [fresh]) else (None, l))"

definition pan_blacklist_pan_set ::
    "bool \<Rightarrow> pan_blaclist_entry_t \<Rightarrow> u16 \<Rightarrow> u16 \<Rightarrow> pan_blaclist_cache_s \<Rightarrow> pan_blaclist_cache_s" where
  "pan_blacklist_pan_set alloc_ok fresh panid timeout l =
     (let (entry, l) = (case pan_blacklist_entry_find l panid of
                          None \<Rightarrow> pan_blacklist_entry_allocate alloc_ok fresh l
                        | Some i \<Rightarrow> (Some i, l))
      in case entry of
           None \<Rightarrow> l
         | Some i \<Rightarrow> l[i := (l ! i)\<lparr>pan_id := panid, timeout_in_seconds := timeout\<rparr>])"

fun pan_blacklist_time_update :: "u16 \<Rightarrow> pan_blaclist_cache_s \<Rightarrow> pan_blaclist_cache_s" where
  "pan_blacklist_time_update s [] = []"
| "pan_blacklist_time_update s (cur # l) =
     (if timeout_in_seconds cur > s
      then cur\<lparr>timeout_in_seconds := timeout_in_seconds cur - s\<rparr> # pan_blacklist_time_update s l
      else pan_blacklist_time_update s l)"

definition pan_blacklist_filter :: "pan_blaclist_cache_s \<Rightarrow> u16 \<Rightarrow> bool" where
  "pan_blacklist_filter l panid \<longleftrightarrow> pan_blacklist_entry_find l panid \<noteq> None"

text \<open>The comparison of addresses is \<open>memcmp\<close> on their first ten bytes.\<close>

definition pan_cordinator_blacklist_entry_find ::
    "pan_coordinator_blaclist_cache_s \<Rightarrow> bytes \<Rightarrow> nat option" where
  "pan_cordinator_blacklist_entry_find l a =
     find_index (\<lambda>cur. take 10 (coordinator_pan_address cur) = take 10 a) l"

definition pan_coordinator_blacklist_entry_allocate ::
    "bool \<Rightarrow> pan_coordinator_blacklist_entry_t \<Rightarrow> pan_coordinator_blaclist_cache_s
      \<Rightarrow> nat option \<times> pan_coordinator_blaclist_cache_s" where
  "pan_coordinator_blacklist_entry_allocate alloc_ok fresh l =
     (if alloc_ok then (Some (length l), l @ [fresh]) else (None, l))"

definition pan_cordinator_blacklist_pan_set ::
    "bool \<Rightarrow> pan_coordinator_blacklist_entry_t \<Rightarrow> bytes \<Rightarrow> u16
      \<Rightarrow> pan_coordinator_blaclist_cache_s \<Rightarrow> pan_coordinator_blaclist_cache_s" where
  "pan_cordinator_blacklist_pan_set alloc_ok fresh a timeout l =
     (let (entry, l) = (case pan_cordinator_blacklist_entry_find l a of
                          None \<Rightarrow> pan_coordinator_blacklist_entry_allocate alloc_ok fresh l
                        | Some i \<Rightarrow> (Some i, l))
      in case entry of
           None \<Rightarrow> l
         | Some i \<Rightarrow> l[i := (l ! i)\<lparr>coordinator_pan_address := take 10 a,
                                      c_timeout_in_seconds := timeout\<rparr>])"

fun pan_coordinator_blacklist_time_update ::
    "u16 \<Rightarrow> pan_coordinator_blaclist_cache_s \<Rightarrow> pan_coordinator_blaclist_cache_s" where
  "pan_coordinator_blacklist_time_update s [] = []"
| "pan_coordinator_blacklist_time_update s (cur # l) =
     (if c_timeout_in_seconds cur > s
      then cur\<lparr>c_timeout_in_seconds := c_timeout_in_seconds cur - s\<rparr>
             # pan_coordinator_blacklist_time_update s l
      else pan_coordinator_blacklist_time_update s l)"

fun pan_coordinator_blacklist_free ::
    "pan_coordinator_blaclist_cache_s \<Rightarrow> pan_coordinator_blaclist_cache_s" where
  "pan_coordinator_blacklist_free [] = []"
| "pan_coordinator_blacklist_free (cur # l) = pan_coordinator_blacklist_free l"

definition pan_cordinator_blacklist_filter ::
    "pan_coordinator_blaclist_cache_s \<Rightarrow> bytes \<Rightarrow> bool" where
  "pan_cordinator_blacklist_filter l a \<longleftrightarrow> pan_cordinator_blacklist_entry_find l a \<noteq> None"

section \<open>The table both lists implement\<close>

locale aging_table =
  fixes lookup :: "'l \<Rightarrow> 'k \<Rightarrow> u16 option"
    and put :: "'k \<Rightarrow> u16 \<Rightarrow> 'l \<Rightarrow> 'l"
    and age :: "u16 \<Rightarrow> 'l \<Rightarrow> 'l"
    and same :: "'k \<Rightarrow> 'k \<Rightarrow> bool"
    and inv :: "'l \<Rightarrow> bool"
  assumes same_refl: "same k k"
    and inv_put: "inv l \<Longrightarrow> inv (put k v l)"
    and inv_age: "inv l \<Longrightarrow> inv (age s l)"
    and lookup_put: "inv l \<Longrightarrow> lookup (put k v l) j = (if same j k then Some v else lookup l j)"
    and lookup_age: "inv l \<Longrightarrow> lookup (age s l) k =
      (case lookup l k of None \<Rightarrow> None | Some v \<Rightarrow> if v > s then Some (v - s) else None)"
begin

lemma inv_fold_age: "inv l \<Longrightarrow> inv (fold age ss l)"
  by (induction ss arbitrary: l) (auto intro: inv_age)

lemma lookup_fold_age:
  assumes "inv l" and "lookup l k = Some v"
  shows "lookup (fold age ss l) k =
    (if ss = [] then Some v
     else if (\<Sum>s\<leftarrow>ss. unat s) < unat v then Some (v - word_of_nat (\<Sum>s\<leftarrow>ss. unat s)) else None)"
  using assms
proof (induction ss arbitrary: l v)
  case Nil
  then show ?case by simp
next
  case (Cons s ss)
  have gone: "inv l' \<Longrightarrow> lookup l' k = None \<Longrightarrow> lookup (fold age ss l') k = None" for l'
    by (induction ss arbitrary: l') (auto simp: lookup_age inv_age)
  show ?case
  proof (cases "v > s")
    case True
    with Cons.prems have "lookup (age s l) k = Some (v - s)" by (simp add: lookup_age)
    moreover have "unat (v - s) = unat v - unat s"
      using True by (intro unat_sub) simp
    moreover have "unat s < unat v" using True by (simp add: word_less_nat_alt)
    ultimately show ?thesis
      using Cons.IH [OF inv_age [OF Cons.prems(1)], of s "v - s"] by auto
  next
    case False
    with Cons.prems gone [of "age s l"] show ?thesis
      by (auto simp: lookup_age inv_age word_less_nat_alt)
  qed
qed

text \<open>An entry put in with timeout \<open>v\<close> is there until \<open>v\<close> seconds have been counted.\<close>

lemma present_until:
  assumes "inv l"
  shows "lookup (fold age ss (put k v l)) k \<noteq> None \<longleftrightarrow> ss = [] \<or> (\<Sum>s\<leftarrow>ss. unat s) < unat v"
proof -
  have "inv (put k v l)" "lookup (put k v l) k = Some v"
    using assms by (simp_all add: inv_put lookup_put same_refl)
  from lookup_fold_age [OF this] show ?thesis by auto
qed

end

section \<open>The PAN blacklist is such a table\<close>

definition pan_lookup :: "pan_blaclist_cache_s \<Rightarrow> u16 \<Rightarrow> u16 option" where
  "pan_lookup l p = map_of (map (\<lambda>e. (pan_id e, timeout_in_seconds e)) l) p"

definition pan_inv :: "pan_blaclist_cache_s \<Rightarrow> bool" where
  "pan_inv l \<longleftrightarrow> distinct (map pan_id l)"

lemma pan_filter_lookup: "pan_blacklist_filter l p \<longleftrightarrow> pan_lookup l p \<noteq> None"
  by (force simp: pan_blacklist_filter_def pan_blacklist_entry_find_def pan_lookup_def
      map_of_eq_None_iff)

lemma upsert_hit:
  assumes "find_index (\<lambda>e. key e = k) l = Some i" and "key e' = k" and "distinct (map key l)"
  shows "map_of (map (\<lambda>e. (key e, val e)) (l[i := e'])) =
      (map_of (map (\<lambda>e. (key e, val e)) l))(k \<mapsto> val e')"
    and "map key (l[i := e']) = map key l"
  using assms
proof (induction l arbitrary: i)
  case (Cons x l)
  {
    case 1
    then show ?case using Cons.IH(1) by (auto split: if_splits)
  next
    case 2
    then show ?case using Cons.IH(2) by (auto split: if_splits)
  }
qed simp_all

lemma upsert_miss:
  assumes "find_index (\<lambda>e. key e = k) l = None" and "key e' = k"
  shows "map_of (map (\<lambda>e. (key e, val e)) (l @ [e'])) =
      (map_of (map (\<lambda>e. (key e, val e)) l))(k \<mapsto> val e')"
    and "distinct (map key l) \<Longrightarrow> distinct (map key (l @ [e']))"
proof -
  have "k \<notin> key ` set l" using assms(1) by auto
  then show "map_of (map (\<lambda>e. (key e, val e)) (l @ [e'])) =
      (map_of (map (\<lambda>e. (key e, val e)) l))(k \<mapsto> val e')"
    and "distinct (map key l) \<Longrightarrow> distinct (map key (l @ [e']))"
    using assms(2) by (induction l) (auto simp: fun_eq_iff)
qed

lemma pan_set_cases:
  obtains (hit) i where "find_index (\<lambda>e. pan_id e = p) l = Some i"
      "pan_blacklist_pan_set True fresh p v l = l[i := (l ! i)\<lparr>pan_id := p, timeout_in_seconds := v\<rparr>]"
  | (miss) "find_index (\<lambda>e. pan_id e = p) l = None"
      "pan_blacklist_pan_set True fresh p v l = l @ [fresh\<lparr>pan_id := p, timeout_in_seconds := v\<rparr>]"
  by (cases "find_index (\<lambda>e. pan_id e = p) l")
    (auto simp: pan_blacklist_pan_set_def pan_blacklist_entry_find_def
      pan_blacklist_entry_allocate_def)

lemma pan_age_keys: "set (map pan_id (pan_blacklist_time_update s l)) \<subseteq> set (map pan_id l)"
  by (induction l) auto

lemma pan_age_distinct:
  "distinct (map pan_id l) \<Longrightarrow> distinct (map pan_id (pan_blacklist_time_update s l))"
proof (induction l)
  case (Cons e l)
  then show ?case using pan_age_keys [of s l] by (simp; blast)
qed simp

lemma pan_age_lookup:
  assumes "distinct (map pan_id l)"
  shows "pan_lookup (pan_blacklist_time_update s l) k =
    (case pan_lookup l k of None \<Rightarrow> None | Some v \<Rightarrow> if v > s then Some (v - s) else None)"
  using assms
proof (induction l)
  case Nil
  then show ?case by (simp add: pan_lookup_def)
next
  case (Cons e l)
  then have IH: "pan_lookup (pan_blacklist_time_update s l) k =
    (case pan_lookup l k of None \<Rightarrow> None | Some v \<Rightarrow> if v > s then Some (v - s) else None)"
    by simp
  have "pan_id e \<notin> pan_id ` set l" using Cons.prems by simp
  then have "pan_lookup l (pan_id e) = None"
    by (simp add: pan_lookup_def map_of_eq_None_iff image_image)
  with IH show ?case by (auto simp: pan_lookup_def)
qed

lemma pan_set_upsert:
  assumes "pan_inv l"
  shows "pan_inv (pan_blacklist_pan_set True fresh k v l)"
    and "pan_lookup (pan_blacklist_pan_set True fresh k v l) j =
      (if j = k then Some v else pan_lookup l j)"
proof -
  have d: "distinct (map pan_id l)" using assms by (simp add: pan_inv_def)
  have "pan_inv (pan_blacklist_pan_set True fresh k v l) \<and>
    pan_lookup (pan_blacklist_pan_set True fresh k v l) j = (if j = k then Some v else pan_lookup l j)"
  proof (cases rule: pan_set_cases [of k l fresh v])
    case (hit i)
    note up = upsert_hit [OF hit(1) _ d, where e' = "(l ! i)\<lparr>pan_id := k, timeout_in_seconds := v\<rparr>"]
    show ?thesis
      unfolding hit(2) pan_inv_def pan_lookup_def up(1) [simplified] up(2) [simplified]
      using d by simp
  next
    case miss
    note up = upsert_miss [OF miss(1), where e' = "fresh\<lparr>pan_id := k, timeout_in_seconds := v\<rparr>"]
    show ?thesis
      unfolding miss(2) pan_inv_def pan_lookup_def
      by (subst up(1)) (use up(2) d in simp_all)
  qed
  then show "pan_inv (pan_blacklist_pan_set True fresh k v l)"
    and "pan_lookup (pan_blacklist_pan_set True fresh k v l) j =
      (if j = k then Some v else pan_lookup l j)" by simp_all
qed

interpretation pan: aging_table pan_lookup "pan_blacklist_pan_set True fresh"
  pan_blacklist_time_update "(=)" pan_inv for fresh
proof unfold_locales
  show "(k :: u16) = k" for k by simp
  fix l k v j s
  assume l: "pan_inv l"
  then show "pan_inv (pan_blacklist_time_update s l)"
    by (simp add: pan_inv_def pan_age_distinct)
  show "pan_lookup (pan_blacklist_time_update s l) k =
    (case pan_lookup l k of None \<Rightarrow> None | Some v \<Rightarrow> if v > s then Some (v - s) else None)"
    using l by (intro pan_age_lookup) (simp add: pan_inv_def)
  show "pan_inv (pan_blacklist_pan_set True fresh k v l)"
    and "pan_lookup (pan_blacklist_pan_set True fresh k v l) j =
      (if j = k then Some v else pan_lookup l j)"
    using l by (rule pan_set_upsert)+
qed

section \<open>The PAN coordinator blacklist is such a table\<close>

abbreviation coord_key :: "pan_coordinator_blacklist_entry_t \<Rightarrow> bytes" where
  "coord_key e \<equiv> take 10 (coordinator_pan_address e)"

definition coord_lookup :: "pan_coordinator_blaclist_cache_s \<Rightarrow> bytes \<Rightarrow> u16 option" where
  "coord_lookup l a = map_of (map (\<lambda>e. (coord_key e, c_timeout_in_seconds e)) l) (take 10 a)"

definition coord_inv :: "pan_coordinator_blaclist_cache_s \<Rightarrow> bool" where
  "coord_inv l \<longleftrightarrow> distinct (map coord_key l)"

lemma coord_filter_lookup: "pan_cordinator_blacklist_filter l a \<longleftrightarrow> coord_lookup l a \<noteq> None"
  by (force simp: pan_cordinator_blacklist_filter_def pan_cordinator_blacklist_entry_find_def
      coord_lookup_def map_of_eq_None_iff)

lemma coord_set_cases:
  obtains (hit) i where "find_index (\<lambda>e. coord_key e = take 10 a) l = Some i"
      "pan_cordinator_blacklist_pan_set True fresh a v l =
         l[i := (l ! i)\<lparr>coordinator_pan_address := take 10 a, c_timeout_in_seconds := v\<rparr>]"
  | (miss) "find_index (\<lambda>e. coord_key e = take 10 a) l = None"
      "pan_cordinator_blacklist_pan_set True fresh a v l =
         l @ [fresh\<lparr>coordinator_pan_address := take 10 a, c_timeout_in_seconds := v\<rparr>]"
  by (cases "find_index (\<lambda>e. coord_key e = take 10 a) l")
    (auto simp: pan_cordinator_blacklist_pan_set_def pan_cordinator_blacklist_entry_find_def
      pan_coordinator_blacklist_entry_allocate_def)

lemma coord_age_keys:
  "set (map coord_key (pan_coordinator_blacklist_time_update s l)) \<subseteq> set (map coord_key l)"
  by (induction l) auto

lemma coord_age_distinct:
  "distinct (map coord_key l) \<Longrightarrow> distinct (map coord_key (pan_coordinator_blacklist_time_update s l))"
proof (induction l)
  case (Cons e l)
  then show ?case using coord_age_keys [of s l] by (simp; blast)
qed simp

lemma coord_age_lookup:
  assumes "distinct (map coord_key l)"
  shows "coord_lookup (pan_coordinator_blacklist_time_update s l) k =
    (case coord_lookup l k of None \<Rightarrow> None | Some v \<Rightarrow> if v > s then Some (v - s) else None)"
  using assms
proof (induction l)
  case Nil
  then show ?case by (simp add: coord_lookup_def)
next
  case (Cons e l)
  then have IH: "coord_lookup (pan_coordinator_blacklist_time_update s l) k =
    (case coord_lookup l k of None \<Rightarrow> None | Some v \<Rightarrow> if v > s then Some (v - s) else None)"
    by simp
  have "coord_key e \<notin> coord_key ` set l" using Cons.prems by simp
  then have "coord_lookup l (coord_key e) = None"
    by (simp add: coord_lookup_def map_of_eq_None_iff image_image)
  with IH show ?case by (auto simp: coord_lookup_def)
qed

lemma coord_set_upsert:
  assumes "coord_inv l"
  shows "coord_inv (pan_cordinator_blacklist_pan_set True fresh k v l)"
    and "coord_lookup (pan_cordinator_blacklist_pan_set True fresh k v l) j =
      (if take 10 j = take 10 k then Some v else coord_lookup l j)"
proof -
  have d: "distinct (map coord_key l)" using assms by (simp add: coord_inv_def)
  have "coord_inv (pan_cordinator_blacklist_pan_set True fresh k v l) \<and>
    coord_lookup (pan_cordinator_blacklist_pan_set True fresh k v l) j = (if take 10 j = take 10 k then Some v else coord_lookup l j)"
  proof (cases rule: coord_set_cases [of k l fresh v])
    case (hit i)
    note up = upsert_hit [OF hit(1) _ d, where e' = "(l ! i)\<lparr>coordinator_pan_address := take 10 k, c_timeout_in_seconds := v\<rparr>"]
    show ?thesis
      unfolding hit(2) coord_inv_def coord_lookup_def up(1) [simplified] up(2) [simplified]
      using d by simp
  next
    case miss
    note up = upsert_miss [OF miss(1), where e' = "fresh\<lparr>coordinator_pan_address := take 10 k, c_timeout_in_seconds := v\<rparr>"]
    show ?thesis
      unfolding miss(2) coord_inv_def coord_lookup_def
      by (subst up(1)) (use up(2) d in simp_all)
  qed
  then show "coord_inv (pan_cordinator_blacklist_pan_set True fresh k v l)"
    and "coord_lookup (pan_cordinator_blacklist_pan_set True fresh k v l) j =
      (if take 10 j = take 10 k then Some v else coord_lookup l j)" by simp_all
qed

interpretation coord: aging_table coord_lookup "pan_cordinator_blacklist_pan_set True fresh"
  pan_coordinator_blacklist_time_update "\<lambda>a b. take 10 a = take 10 b" coord_inv for fresh
proof unfold_locales
  show "take 10 (a :: bytes) = take 10 a" for a by simp
  fix l a v b s
  assume l: "coord_inv l"
  then show "coord_inv (pan_coordinator_blacklist_time_update s l)"
    by (simp add: coord_inv_def coord_age_distinct)
  show "coord_lookup (pan_coordinator_blacklist_time_update s l) a =
    (case coord_lookup l a of None \<Rightarrow> None | Some v \<Rightarrow> if v > s then Some (v - s) else None)"
    using l by (intro coord_age_lookup) (simp add: coord_inv_def)
  show "coord_inv (pan_cordinator_blacklist_pan_set True fresh a v l)"
    and "coord_lookup (pan_cordinator_blacklist_pan_set True fresh a v l) b =
      (if take 10 b = take 10 a then Some v else coord_lookup l b)"
    using l by (rule coord_set_upsert)+
qed

section \<open>Properties\<close>

text \<open>
  C38: a PAN that was blacklisted for \<open>v\<close> seconds is filtered exactly until the time updates
  add up to \<open>v\<close>, whatever else the list holds; a time update of the whole list never lets it
  return early or stay longer.
\<close>

theorem pan_blacklist_timeout:
  assumes "pan_inv l"
  shows "pan_blacklist_filter
      (fold pan_blacklist_time_update ss (pan_blacklist_pan_set True fresh p v l)) p \<longleftrightarrow>
    ss = [] \<or> (\<Sum>s\<leftarrow>ss. unat s) < unat v"
  using assms unfolding pan_filter_lookup by (rule pan.present_until)

theorem pan_blacklist_timeout_witness:
  "\<not> pan_blacklist_filter
      (fold pan_blacklist_time_update [200, 100]
        (pan_blacklist_pan_set True \<lparr>pan_id = 0, timeout_in_seconds = 0\<rparr> 7 300 [])) 7"
  by (subst pan_blacklist_timeout) (simp_all add: pan_inv_def)

text \<open>
  Blacklisting a PAN, again or for the first time, sets its timeout and changes no other
  entry; no PAN is ever listed twice.
\<close>

lemma pan_blacklist_set_lookup:
  assumes "pan_inv l"
  shows "pan_inv (pan_blacklist_pan_set True fresh p v l) \<and>
    pan_lookup (pan_blacklist_pan_set True fresh p v l) = (pan_lookup l)(p \<mapsto> v)"
  using pan.inv_put [OF assms] pan.lookup_put [OF assms] by (auto simp: fun_eq_iff)

text \<open>
  The same for PAN coordinators, which are told apart by the ten bytes of PAN id and
  address that \<open>memcmp\<close> compares.
\<close>

lemma pan_coordinator_blacklist_timeout:
  assumes "coord_inv l"
  shows "pan_cordinator_blacklist_filter
      (fold pan_coordinator_blacklist_time_update ss
        (pan_cordinator_blacklist_pan_set True fresh a v l)) a \<longleftrightarrow>
    ss = [] \<or> (\<Sum>s\<leftarrow>ss. unat s) < unat v"
  using assms unfolding coord_filter_lookup by (rule coord.present_until)

end
