(* ===== verification/SecProtKeys.thy ===== *)
theory SecProtKeys
  imports Prelude
begin

text \<open>
  The key storage of the security protocols, \<open>Security/protocols/sec_prot_keys.c\<close>: the
  pairwise keys of one supplicant (\<open>sec_prot_keys_t\<close>) and the four group keys of the network
  (\<open>sec_prot_gtk_keys_t\<close>) with their status, lifetime and install order. An \<open>index\<close>
  (\<open>uint8_t\<close>) is a natural number, an \<open>int8_t\<close> result an integer, a NULL pointer \<open>None\<close>.
  \<open>sec_keys->gtks\<close> points to the shared group keys: an operation that reads through it takes
  the group keys as an argument. SHA-256 (mbed TLS) and uninitialised memory are parameters.
\<close>

section \<open>Data\<close>

abbreviation GTK_NUM :: nat where "GTK_NUM \<equiv> 4"
abbreviation GTK_LEN :: nat where "GTK_LEN \<equiv> 16"
abbreviation GTK_HASH_LEN :: nat where "GTK_HASH_LEN \<equiv> 8"
abbreviation INS_GTK_HASH_LEN :: nat where "INS_GTK_HASH_LEN \<equiv> 2"
abbreviation PMK_LEN :: nat where "PMK_LEN \<equiv> 32"
abbreviation PTK_LEN :: nat where "PTK_LEN \<equiv> 48"
abbreviation GTK_EXPIRE_MISMATCH_TIME :: u32 where "GTK_EXPIRE_MISMATCH_TIME \<equiv> 60"
abbreviation PMK_KEY_REPLAY_CNT_LIMIT :: u64 where "PMK_KEY_REPLAY_CNT_LIMIT \<equiv> 60000"
abbreviation PMK_KEY_REPLAY_CNT_LIMIT_MASK :: u64 where "PMK_KEY_REPLAY_CNT_LIMIT_MASK \<equiv> 0xFFFF"

type_synonym u2 = "2 word"
type_synonym u4 = "4 word"

abbreviation GTK_STATUS_NEW :: u2 where "GTK_STATUS_NEW \<equiv> 0"
abbreviation GTK_STATUS_FRESH :: u2 where "GTK_STATUS_FRESH \<equiv> 1"
abbreviation GTK_STATUS_ACTIVE :: u2 where "GTK_STATUS_ACTIVE \<equiv> 2"
abbreviation GTK_STATUS_OLD :: u2 where "GTK_STATUS_OLD \<equiv> 3"
abbreviation GTK_INSTALL_ORDER_FIRST :: u2 where "GTK_INSTALL_ORDER_FIRST \<equiv> 0"
abbreviation GTK_INSTALL_ORDER_SECOND :: u2 where "GTK_INSTALL_ORDER_SECOND \<equiv> 1"

record gtk_key_t =
  key :: bytes
  expirytime :: u64
  lifetime :: u32
  status :: u2
  install_order :: u2
  is_set :: bool

record sec_prot_gtk_keys_t =
  gtk :: "gtk_key_t list"
  gtks_updated :: bool

record sec_prot_keys_t =
  pmk_key_replay_cnt :: u64
  pmk :: bytes
  ptk :: bytes
  ptk_eui_64 :: bytes
  ins_gtk_hash :: "bytes list"
  gtks_ptr :: nat
  certs_ptr :: nat
  pmk_lifetime :: u32
  ptk_lifetime :: u32
  gtkl :: u8
  gtk_set_index :: int
  ins_gtk_hash_set :: u4
  ins_gtk_4wh_hash_set :: u4
  pmk_set :: bool
  ptk_set :: bool
  pmk_key_replay_cnt_set :: bool
  updated :: bool
  ptk_eui_64_set :: bool
  pmk_mismatch :: bool
  ptk_mismatch :: bool

datatype gtk_mismatch_e = GTK_NO_MISMATCH | GTK_LIFETIME_MISMATCH | GTK_HASH_MISMATCH

text \<open>The values of the C enumeration order the mismatches by priority.\<close>

fun mismatch_value :: "gtk_mismatch_e \<Rightarrow> nat" where
  "mismatch_value GTK_NO_MISMATCH = 0"
| "mismatch_value GTK_LIFETIME_MISMATCH = 1"
| "mismatch_value GTK_HASH_MISMATCH = 2"

instantiation gtk_mismatch_e :: linorder
begin

definition less_eq_gtk_mismatch_e :: "gtk_mismatch_e \<Rightarrow> gtk_mismatch_e \<Rightarrow> bool" where
  "less_eq_gtk_mismatch_e a b \<longleftrightarrow> mismatch_value a \<le> mismatch_value b"

definition less_gtk_mismatch_e :: "gtk_mismatch_e \<Rightarrow> gtk_mismatch_e \<Rightarrow> bool" where
  "less_gtk_mismatch_e a b \<longleftrightarrow> mismatch_value a < mismatch_value b"

instance
proof
  fix a b :: gtk_mismatch_e
  show "a \<le> b \<Longrightarrow> b \<le> a \<Longrightarrow> a = b"
    by (cases a; cases b) (simp_all add: less_eq_gtk_mismatch_e_def)
qed (auto simp: less_eq_gtk_mismatch_e_def less_gtk_mismatch_e_def)

end

section \<open>Pairwise keys\<close>

definition sec_prot_keys_ptk_installed_gtk_hash_clear_all :: "sec_prot_keys_t \<Rightarrow> sec_prot_keys_t" where
  "sec_prot_keys_ptk_installed_gtk_hash_clear_all k =
     k\<lparr>ins_gtk_hash := replicate GTK_NUM (replicate INS_GTK_HASH_LEN 0),
       ins_gtk_hash_set := 0, ins_gtk_4wh_hash_set := 0\<rparr>"

text \<open>\<open>memset\<close> of the whole structure to zero bytes.\<close>

definition sec_prot_keys_zero :: sec_prot_keys_t where
  "sec_prot_keys_zero =
     \<lparr>pmk_key_replay_cnt = 0, pmk = replicate PMK_LEN 0, ptk = replicate PTK_LEN 0,
      ptk_eui_64 = replicate 8 0, ins_gtk_hash = replicate GTK_NUM (replicate INS_GTK_HASH_LEN 0),
      gtks_ptr = 0, certs_ptr = 0, pmk_lifetime = 0, ptk_lifetime = 0, gtkl = 0,
      gtk_set_index = 0, ins_gtk_hash_set = 0, ins_gtk_4wh_hash_set = 0, pmk_set = False,
      ptk_set = False, pmk_key_replay_cnt_set = False, updated = False, ptk_eui_64_set = False,
      pmk_mismatch = False, ptk_mismatch = False\<rparr>"

definition sec_prot_keys_init :: "sec_prot_keys_t \<Rightarrow> nat \<Rightarrow> nat \<Rightarrow> sec_prot_keys_t" where
  "sec_prot_keys_init k gtks certs =
     (let k = sec_prot_keys_zero;
          k = k\<lparr>pmk_lifetime := 0, ptk_lifetime := 0, pmk_key_replay_cnt := 0, gtks_ptr := gtks,
                certs_ptr := certs, gtkl := 0, gtk_set_index := -1, pmk_set := False,
                ptk_set := False, pmk_key_replay_cnt_set := False, updated := False,
                ptk_eui_64_set := False, pmk_mismatch := False, ptk_mismatch := False\<rparr>
      in sec_prot_keys_ptk_installed_gtk_hash_clear_all k)"

definition sec_prot_keys_create ::
    "sec_prot_keys_t option \<Rightarrow> nat \<Rightarrow> nat \<Rightarrow> sec_prot_keys_t option" where
  "sec_prot_keys_create mem gtks certs =
     (case mem of None \<Rightarrow> None | Some k \<Rightarrow> Some (sec_prot_keys_init k gtks certs))"

definition sec_prot_keys_pmk_write :: "sec_prot_keys_t \<Rightarrow> bytes \<Rightarrow> u32 \<Rightarrow> sec_prot_keys_t" where
  "sec_prot_keys_pmk_write k p life =
     k\<lparr>pmk := take PMK_LEN p, pmk_key_replay_cnt := 0, pmk_key_replay_cnt_set := False,
       pmk_lifetime := life, pmk_set := True, updated := True\<rparr>"

definition sec_prot_keys_pmk_delete :: "sec_prot_keys_t \<Rightarrow> sec_prot_keys_t" where
  "sec_prot_keys_pmk_delete k =
     (let k = (if pmk_key_replay_cnt k \<noteq> 0 \<or> pmk_key_replay_cnt_set k \<or> pmk_lifetime k \<noteq> 0
                  \<or> pmk_set k then k\<lparr>updated := True\<rparr> else k)
      in k\<lparr>pmk := replicate PMK_LEN 0, pmk_key_replay_cnt := 0, pmk_key_replay_cnt_set := False,
           pmk_lifetime := 0, pmk_set := False\<rparr>)"

definition sec_prot_keys_pmk_get :: "sec_prot_keys_t \<Rightarrow> bytes option" where
  "sec_prot_keys_pmk_get k = (if \<not> pmk_set k then None else Some (pmk k))"

definition sec_prot_keys_pmk_lifetime_get :: "sec_prot_keys_t \<Rightarrow> u32" where
  "sec_prot_keys_pmk_lifetime_get k = (if \<not> pmk_set k then 0 else pmk_lifetime k)"

definition sec_prot_keys_pmk_replay_cnt_get :: "sec_prot_keys_t \<Rightarrow> u64" where
  "sec_prot_keys_pmk_replay_cnt_get k = pmk_key_replay_cnt k"

definition sec_prot_keys_pmk_replay_cnt_set :: "sec_prot_keys_t \<Rightarrow> u64 \<Rightarrow> sec_prot_keys_t" where
  "sec_prot_keys_pmk_replay_cnt_set k counter =
     k\<lparr>pmk_key_replay_cnt_set := True, pmk_key_replay_cnt := counter\<rparr>"

definition sec_prot_keys_pmk_replay_cnt_increment :: "sec_prot_keys_t \<Rightarrow> bool \<times> sec_prot_keys_t" where
  "sec_prot_keys_pmk_replay_cnt_increment k =
     (if \<not> pmk_key_replay_cnt_set k then (True, k\<lparr>pmk_key_replay_cnt_set := True\<rparr>)
      else if (pmk_key_replay_cnt k AND PMK_KEY_REPLAY_CNT_LIMIT_MASK) > PMK_KEY_REPLAY_CNT_LIMIT
      then (False, k\<lparr>pmk_key_replay_cnt := pmk_key_replay_cnt k OR 0xFFFF\<rparr>)
      else (True, k\<lparr>pmk_key_replay_cnt := pmk_key_replay_cnt k + 1\<rparr>))"

definition sec_prot_keys_pmk_replay_cnt_compare :: "u64 \<Rightarrow> sec_prot_keys_t \<Rightarrow> bool" where
  "sec_prot_keys_pmk_replay_cnt_compare received_counter k =
     (if pmk_key_replay_cnt_set k \<and> received_counter > pmk_key_replay_cnt k then True
      else if \<not> pmk_key_replay_cnt_set k \<and> received_counter \<ge> pmk_key_replay_cnt k then True
      else False)"

definition sec_prot_keys_pmk_mismatch_set :: "sec_prot_keys_t \<Rightarrow> sec_prot_keys_t" where
  "sec_prot_keys_pmk_mismatch_set k = k\<lparr>pmk_mismatch := True\<rparr>"

definition sec_prot_keys_pmk_mismatch_reset :: "sec_prot_keys_t \<Rightarrow> sec_prot_keys_t" where
  "sec_prot_keys_pmk_mismatch_reset k = k\<lparr>pmk_mismatch := False\<rparr>"

definition sec_prot_keys_pmk_mismatch_is_set :: "sec_prot_keys_t \<Rightarrow> bool" where
  "sec_prot_keys_pmk_mismatch_is_set k = pmk_mismatch k"

definition sec_prot_keys_ptk_write :: "sec_prot_keys_t \<Rightarrow> bytes \<Rightarrow> u32 \<Rightarrow> sec_prot_keys_t" where
  "sec_prot_keys_ptk_write k p life =
     k\<lparr>ptk := take PTK_LEN p, ptk_lifetime := life, ptk_set := True, updated := True\<rparr>"

definition sec_prot_keys_ptk_delete :: "sec_prot_keys_t \<Rightarrow> sec_prot_keys_t" where
  "sec_prot_keys_ptk_delete k =
     (let k = (if ptk_lifetime k \<noteq> 0 \<or> ptk_set k then k\<lparr>updated := True\<rparr> else k)
      in k\<lparr>ptk := replicate PTK_LEN 0, ptk_lifetime := 0, ptk_set := False\<rparr>)"

definition sec_prot_keys_pmk_lifetime_decrement :: "sec_prot_keys_t \<Rightarrow> u8 \<Rightarrow> bool \<times> sec_prot_keys_t" where
  "sec_prot_keys_pmk_lifetime_decrement k seconds =
     (if \<not> pmk_set k then (False, k)
      else if pmk_lifetime k > ucast seconds
      then (False, k\<lparr>pmk_lifetime := pmk_lifetime k - ucast seconds\<rparr>)
      else if pmk_lifetime k > 0
      then (True, sec_prot_keys_pmk_delete (sec_prot_keys_ptk_delete (k\<lparr>pmk_lifetime := 0\<rparr>)))
      else (False, k))"

definition sec_prot_keys_ptk_get :: "sec_prot_keys_t \<Rightarrow> bytes option" where
  "sec_prot_keys_ptk_get k = (if \<not> ptk_set k then None else Some (ptk k))"

definition sec_prot_keys_ptk_lifetime_get :: "sec_prot_keys_t \<Rightarrow> u32" where
  "sec_prot_keys_ptk_lifetime_get k = (if \<not> ptk_set k then 0 else ptk_lifetime k)"

definition sec_prot_keys_ptk_mismatch_set :: "sec_prot_keys_t \<Rightarrow> sec_prot_keys_t" where
  "sec_prot_keys_ptk_mismatch_set k = k\<lparr>ptk_mismatch := True\<rparr>"

definition sec_prot_keys_ptk_mismatch_reset :: "sec_prot_keys_t \<Rightarrow> sec_prot_keys_t" where
  "sec_prot_keys_ptk_mismatch_reset k = k\<lparr>ptk_mismatch := False\<rparr>"

definition sec_prot_keys_ptk_mismatch_is_set :: "sec_prot_keys_t \<Rightarrow> bool" where
  "sec_prot_keys_ptk_mismatch_is_set k = ptk_mismatch k"

definition sec_prot_keys_ptk_eui_64_write :: "sec_prot_keys_t \<Rightarrow> bytes \<Rightarrow> sec_prot_keys_t" where
  "sec_prot_keys_ptk_eui_64_write k eui_64 =
     k\<lparr>ptk_eui_64 := take 8 eui_64, ptk_eui_64_set := True, updated := True\<rparr>"

definition sec_prot_keys_ptk_eui_64_get :: "sec_prot_keys_t \<Rightarrow> bytes option" where
  "sec_prot_keys_ptk_eui_64_get k = (if \<not> ptk_eui_64_set k then None else Some (ptk_eui_64 k))"

definition sec_prot_keys_ptk_eui_64_delete :: "sec_prot_keys_t \<Rightarrow> sec_prot_keys_t" where
  "sec_prot_keys_ptk_eui_64_delete k =
     (let k = (if ptk_eui_64_set k then k\<lparr>updated := True\<rparr> else k)
      in k\<lparr>ptk_eui_64 := replicate 8 0, ptk_eui_64_set := False\<rparr>)"

definition sec_prot_keys_ptk_lifetime_decrement :: "sec_prot_keys_t \<Rightarrow> u8 \<Rightarrow> bool \<times> sec_prot_keys_t" where
  "sec_prot_keys_ptk_lifetime_decrement k seconds =
     (if \<not> ptk_set k then (False, k)
      else if ptk_lifetime k > ucast seconds
      then (False, k\<lparr>ptk_lifetime := ptk_lifetime k - ucast seconds\<rparr>)
      else if ptk_lifetime k > 0
      then (True, (sec_prot_keys_ptk_delete k)\<lparr>ptk_lifetime := 0\<rparr>)
      else (False, k))"

definition sec_prot_keys_are_updated :: "sec_prot_keys_t \<Rightarrow> bool" where
  "sec_prot_keys_are_updated k = updated k"

definition sec_prot_keys_updated_reset :: "sec_prot_keys_t \<Rightarrow> sec_prot_keys_t" where
  "sec_prot_keys_updated_reset k = k\<lparr>updated := False\<rparr>"

section \<open>Properties of the pairwise keys\<close>

subsection \<open>Replay counters\<close>

text \<open>
  The supplicant's use of the counter (\<open>supp_fwh_sec_prot.c\<close>, \<open>supp_gkh_sec_prot.c\<close>): a message is
  accepted when its counter compares as new, and the counter is then stored.
\<close>

definition replay_receive :: "u64 \<Rightarrow> bool list \<times> sec_prot_keys_t \<Rightarrow> bool list \<times> sec_prot_keys_t" where
  "replay_receive c = (\<lambda>(verdicts, k).
     if sec_prot_keys_pmk_replay_cnt_compare c k
     then (verdicts @ [True], sec_prot_keys_pmk_replay_cnt_set k c)
     else (verdicts @ [False], k))"

definition replay_run :: "sec_prot_keys_t \<Rightarrow> u64 list \<Rightarrow> bool list" where
  "replay_run k cs = fst (fold replay_receive cs ([], k))"

definition replay_accepted :: "u64 list \<Rightarrow> bool list \<Rightarrow> u64 list" where
  "replay_accepted cs verdicts = map fst (filter snd (zip cs verdicts))"

lemma fold_replay_receive:
  "fold replay_receive cs (vs, k) =
     (vs @ fst (fold replay_receive cs ([], k)), snd (fold replay_receive cs ([], k)))"
proof (induction cs arbitrary: vs k)
  case Nil
  then show ?case by simp
next
  case (Cons c cs)
  let ?b = "sec_prot_keys_pmk_replay_cnt_compare c k"
  let ?k = "if ?b then sec_prot_keys_pmk_replay_cnt_set k c else k"
  have "replay_receive c (ws, k) = (ws @ [?b], ?k)" for ws
    by (simp add: replay_receive_def)
  then show ?case using Cons [of "vs @ [?b]" ?k] Cons [of "[?b]" ?k] by simp
qed

lemma replay_run_simps:
  "replay_run k [] = []"
  "replay_run k (c # cs) = sec_prot_keys_pmk_replay_cnt_compare c k #
     replay_run (if sec_prot_keys_pmk_replay_cnt_compare c k
                 then sec_prot_keys_pmk_replay_cnt_set k c else k) cs"
  by (simp_all add: replay_run_def replay_receive_def fold_replay_receive [of _ "[True]"]
      fold_replay_receive [of _ "[False]"])

lemma replay_accepted_sorted:
  "sorted_wrt (<) (replay_accepted cs (replay_run k cs)) \<and>
   (pmk_key_replay_cnt_set k \<longrightarrow>
     (\<forall>c \<in> set (replay_accepted cs (replay_run k cs)). pmk_key_replay_cnt k < c))"
proof (induction cs arbitrary: k)
  case Nil
  then show ?case by (simp add: replay_accepted_def)
next
  case (Cons c cs)
  show ?case
  proof (cases "sec_prot_keys_pmk_replay_cnt_compare c k")
    case True
    then show ?thesis
      using Cons [of "sec_prot_keys_pmk_replay_cnt_set k c"]
      by (auto simp: replay_run_simps replay_accepted_def sec_prot_keys_pmk_replay_cnt_set_def
          sec_prot_keys_pmk_replay_cnt_compare_def split: if_splits intro: less_trans)
  next
    case False
    then show ?thesis using Cons [of k] by (simp add: replay_run_simps replay_accepted_def)
  qed
qed



text \<open>The authenticator's counter after \<open>n\<close> increments of a new PMK.\<close>

definition replay_increments :: "nat \<Rightarrow> sec_prot_keys_t \<Rightarrow> sec_prot_keys_t" where
  "replay_increments n k = ((snd \<circ> sec_prot_keys_pmk_replay_cnt_increment) ^^ n) k"

lemma u64_low16:
  assumes "m < 65536"
  shows "unat (word_of_nat m :: u64) = m" and "(word_of_nat m :: u64) AND 0xFFFF = word_of_nat m"
    and "60000 < (word_of_nat m :: u64) \<longleftrightarrow> 60000 < m"
proof -
  show u: "unat (word_of_nat m :: u64) = m" using assms by (simp add: unat_of_nat)
  have "(word_of_nat m :: u64) AND 0xFFFF = take_bit 16 (word_of_nat m)"
    by (simp add: take_bit_eq_mask mask_eq_exp_minus_1)
  moreover have "unat (take_bit 16 (word_of_nat m :: u64)) = take_bit 16 (unat (word_of_nat m :: u64))"
    by (rule unsigned_take_bit_eq)
  ultimately show "(word_of_nat m :: u64) AND 0xFFFF = word_of_nat m"
    using assms by (simp add: word_unat_eq_iff u take_bit_nat_eq_self)
  show "60000 < (word_of_nat m :: u64) \<longleftrightarrow> 60000 < m" by (simp add: word_less_nat_alt u)
qed

lemma replay_increments_closed:
  assumes "\<not> pmk_key_replay_cnt_set k" and "pmk_key_replay_cnt k = 0"
  shows "pmk_key_replay_cnt_set (replay_increments n k) = (n \<noteq> 0) \<and>
    pmk_key_replay_cnt (replay_increments n k) =
      (if n \<le> 60002 then word_of_nat (n - 1) else 0xFFFF)"
proof (induction n)
  case 0
  then show ?case by (simp add: replay_increments_def assms)
next
  case (Suc n)
  have step: "replay_increments (Suc n) k = snd (sec_prot_keys_pmk_replay_cnt_increment (replay_increments n k))"
    by (simp add: replay_increments_def)
  consider "n = 0" | m where "n = Suc m" "m \<le> 60000" | "n = 60002" | "60002 < n"
    by (cases n) force+
  then show ?case
  proof cases
    case (2 m)
    with Suc u64_low16 [of m] show ?thesis
      unfolding step by (simp add: sec_prot_keys_pmk_replay_cnt_increment_def)
  qed (unfold step, use Suc in \<open>simp_all add: sec_prot_keys_pmk_replay_cnt_increment_def\<close>)
qed



subsection \<open>Lifetimes\<close>

definition pmk_pass :: "sec_prot_keys_t \<Rightarrow> u8 list \<Rightarrow> sec_prot_keys_t" where
  "pmk_pass k ss = fold (\<lambda>s k. snd (sec_prot_keys_pmk_lifetime_decrement k s)) ss k"

lemma u32_ucast_u8: "unat (ucast (x :: u8) :: u32) = unat x"
proof -
  have "unat x < 256" by (rule unat_u8_lt)
  then show ?thesis by (simp add: unsigned_ucast_eq take_bit_nat_eq_self)
qed

lemma pmk_pass_unset: "\<not> pmk_set k \<Longrightarrow> pmk_pass k ss = k"
  unfolding pmk_pass_def
  by (induction ss) (simp_all add: sec_prot_keys_pmk_lifetime_decrement_def)

lemma pmk_lifetime_step:
  fixes k :: sec_prot_keys_t
  assumes "pmk_set k" and "0 < pmk_lifetime k"
  shows "unat s < unat (pmk_lifetime k) \<Longrightarrow>
      snd (sec_prot_keys_pmk_lifetime_decrement k s) = k\<lparr>pmk_lifetime := pmk_lifetime k - ucast s\<rparr> \<and>
      unat (pmk_lifetime k - ucast s) = unat (pmk_lifetime k) - unat s"
    and "unat (pmk_lifetime k) \<le> unat s \<Longrightarrow>
      snd (sec_prot_keys_pmk_lifetime_decrement k s) =
        sec_prot_keys_pmk_delete (sec_prot_keys_ptk_delete (k\<lparr>pmk_lifetime := 0\<rparr>))"
  using assms
  by (simp_all add: sec_prot_keys_pmk_lifetime_decrement_def word_less_nat_alt u32_ucast_u8
      unat_diff_le word_le_nat_alt)

lemma pmk_pass_spec:
  fixes k :: sec_prot_keys_t
  assumes "pmk_set k" and "0 < pmk_lifetime k"
  shows "sum_list (map unat ss) < unat (pmk_lifetime k) \<Longrightarrow>
      pmk_pass k ss = k\<lparr>pmk_lifetime := word_of_nat (unat (pmk_lifetime k) - sum_list (map unat ss))\<rparr>"
    and "unat (pmk_lifetime k) \<le> sum_list (map unat ss) \<Longrightarrow>
      pmk_pass k ss = sec_prot_keys_pmk_delete (sec_prot_keys_ptk_delete (k\<lparr>pmk_lifetime := 0\<rparr>))"
  using assms
proof (induction ss arbitrary: k)
  case Nil
  { case 1 then show ?case by (simp add: pmk_pass_def) }
  { case 2 then show ?case by (simp add: unat_eq_0) }
next
  case (Cons s ss)
  have pass: "pmk_pass k (s # ss) = pmk_pass (snd (sec_prot_keys_pmk_lifetime_decrement k s)) ss" for k
    by (simp add: pmk_pass_def)
  { case 1
    let ?k = "k\<lparr>pmk_lifetime := pmk_lifetime k - ucast s\<rparr>"
    have lt: "unat s < unat (pmk_lifetime k)" using 1 by simp
    note S = pmk_lifetime_step(1) [OF 1(2,3) lt]
    have "pmk_set ?k" "0 < pmk_lifetime ?k" using 1 S lt by (simp_all add: word_less_nat_alt)
    from Cons.IH(1) [OF _ this] S 1 show ?case unfolding pass by simp }
  { case 2
    let ?k = "k\<lparr>pmk_lifetime := pmk_lifetime k - ucast s\<rparr>"
    show ?case
    proof (cases "unat s < unat (pmk_lifetime k)")
      case True
      note S = pmk_lifetime_step(1) [OF 2(2,3) True]
      have "pmk_set ?k" "0 < pmk_lifetime ?k" using 2 S True by (simp_all add: word_less_nat_alt)
      from Cons.IH(2) [OF _ this] S 2 show ?thesis unfolding pass by simp
    next
      case False
      with pmk_lifetime_step(2) [OF 2(2,3), of s]
      show ?thesis unfolding pass
        by (simp add: pmk_pass_unset sec_prot_keys_pmk_delete_def Let_def)
    qed }
qed

text \<open>
  The PMK lives exactly as long as its lifetime: while the elapsed seconds, in whatever
  portions they are counted, stay below it, only the remaining lifetime changes; as soon as they
  reach it, PMK and PTK are both unset and their bytes erased, and the keys are marked updated.
\<close>

lemma pmk_lifetime_expiry:
  assumes "pmk_set k" and "0 < pmk_lifetime k"
  shows "if sum_list (map unat ss) < unat (pmk_lifetime k)
    then pmk_pass k ss = k\<lparr>pmk_lifetime := word_of_nat (unat (pmk_lifetime k) - sum_list (map unat ss))\<rparr>
    else sec_prot_keys_pmk_get (pmk_pass k ss) = None \<and> sec_prot_keys_ptk_get (pmk_pass k ss) = None \<and>
      pmk (pmk_pass k ss) = replicate 32 0 \<and> ptk (pmk_pass k ss) = replicate 48 0 \<and>
      updated (pmk_pass k ss)"
  using pmk_pass_spec [OF assms, of ss] assms(1)
  by (simp add: sec_prot_keys_pmk_delete_def sec_prot_keys_ptk_delete_def Let_def
      sec_prot_keys_pmk_get_def sec_prot_keys_ptk_get_def)

end
