(* ===== verification/GtkKeys.thy ===== *)
theory GtkKeys
  imports SecProtKeys
begin

text \<open>
  The group keys of \<open>Security/protocols/sec_prot_keys.c\<close>: installing and clearing keys, the
  status of a key (new, fresh, active, old), the order in which keys were installed, the hashes
  a border router advertises and a node compares its keys with, and the indexes kept per
  supplicant. One definition per C function, in the order of the source as far as the calls
  allow it.
\<close>

section \<open>Reading a slot\<close>

definition sec_prot_keys_gtk_is_set :: "sec_prot_gtk_keys_t \<Rightarrow> nat \<Rightarrow> bool" where
  "sec_prot_keys_gtk_is_set g index =
     (if index \<ge> GTK_NUM \<or> \<not> is_set (gtk g ! index) then False else True)"

definition sec_prot_keys_gtk_get :: "sec_prot_gtk_keys_t \<Rightarrow> nat \<Rightarrow> bytes option" where
  "sec_prot_keys_gtk_get g index =
     (if index \<ge> GTK_NUM \<or> \<not> is_set (gtk g ! index) then None else Some (key (gtk g ! index)))"

definition sec_prot_keys_gtk_lifetime_get :: "sec_prot_gtk_keys_t \<Rightarrow> nat \<Rightarrow> u32" where
  "sec_prot_keys_gtk_lifetime_get g index =
     (if index \<ge> GTK_NUM \<or> \<not> is_set (gtk g ! index) then 0 else lifetime (gtk g ! index))"

definition sec_prot_keys_gtk_status_is_live :: "sec_prot_gtk_keys_t \<Rightarrow> nat \<Rightarrow> bool" where
  "sec_prot_keys_gtk_status_is_live g index =
     (if index \<ge> GTK_NUM \<or> \<not> is_set (gtk g ! index) then False
      else if status (gtk g ! index) = GTK_STATUS_FRESH \<or> status (gtk g ! index) = GTK_STATUS_ACTIVE
      then True else False)"

definition sec_prot_keys_gtk_status_get :: "sec_prot_gtk_keys_t \<Rightarrow> nat \<Rightarrow> u8" where
  "sec_prot_keys_gtk_status_get g index =
     (if index \<ge> GTK_NUM \<or> \<not> is_set (gtk g ! index) then 0 else ucast (status (gtk g ! index)))"

definition sec_prot_keys_gtk_exptime_from_lifetime_get ::
    "sec_prot_gtk_keys_t \<Rightarrow> nat \<Rightarrow> u64 \<Rightarrow> u64" where
  "sec_prot_keys_gtk_exptime_from_lifetime_get g index current_time =
     (if index \<ge> GTK_NUM \<or> \<not> is_set (gtk g ! index) then 0
      else current_time + ucast (lifetime (gtk g ! index)))"

section \<open>Writing a slot\<close>

definition gtk_upd :: "nat \<Rightarrow> (gtk_key_t \<Rightarrow> gtk_key_t) \<Rightarrow> sec_prot_gtk_keys_t \<Rightarrow> sec_prot_gtk_keys_t" where
  "gtk_upd i f g = g\<lparr>gtk := (gtk g)[i := f (gtk g ! i)]\<rparr>"

definition gtk_key_zero :: gtk_key_t where
  "gtk_key_zero = \<lparr>key = replicate GTK_LEN 0, expirytime = 0, lifetime = 0, status = 0,
     install_order = 0, is_set = False\<rparr>"

definition sec_prot_keys_gtks_init :: "sec_prot_gtk_keys_t \<Rightarrow> sec_prot_gtk_keys_t" where
  "sec_prot_keys_gtks_init g =
     (\<lparr>gtk = replicate GTK_NUM gtk_key_zero, gtks_updated = False\<rparr>)\<lparr>gtks_updated := False\<rparr>"

definition sec_prot_keys_gtks_create :: "sec_prot_gtk_keys_t option \<Rightarrow> sec_prot_gtk_keys_t option" where
  "sec_prot_keys_gtks_create mem =
     (case mem of None \<Rightarrow> None | Some g \<Rightarrow> Some (sec_prot_keys_gtks_init g))"

text \<open>The loop marks the structure updated; the \<open>memset\<close> after it clears the mark again.\<close>

definition sec_prot_keys_gtks_clear :: "sec_prot_gtk_keys_t \<Rightarrow> sec_prot_gtk_keys_t" where
  "sec_prot_keys_gtks_clear g =
     (let g = fold (\<lambda>i g. if sec_prot_keys_gtk_is_set g i then g\<lparr>gtks_updated := True\<rparr> else g)
                [0..<GTK_NUM] g
      in g\<lparr>gtk := replicate GTK_NUM gtk_key_zero, gtks_updated := False\<rparr>)"

text \<open>
  \<open>sec_prot_keys_gtk_install_order_update\<close>: the table of the indexes by install order, -1 where
  there is none, then the renumbering in the order of the table.
\<close>

definition gtk_ordered_indexes :: "sec_prot_gtk_keys_t \<Rightarrow> int list" where
  "gtk_ordered_indexes g =
     fold (\<lambda>i tab. if sec_prot_keys_gtk_is_set g i
                   then tab[unat (install_order (gtk g ! i)) := int i] else tab)
       [0..<GTK_NUM] [-1, -1, -1, -1]"

definition gtk_renumber :: "int list \<Rightarrow> nat \<Rightarrow> sec_prot_gtk_keys_t \<times> nat \<Rightarrow> sec_prot_gtk_keys_t \<times> nat" where
  "gtk_renumber tab i = (\<lambda>(g, new_install_order).
     if tab ! i \<ge> 0
     then
       let j = nat (tab ! i);
           g = (if unat (install_order (gtk g ! j)) \<noteq> new_install_order
                then g\<lparr>gtks_updated := True\<rparr> else g)
       in (gtk_upd j (\<lambda>k. k\<lparr>install_order := word_of_nat new_install_order\<rparr>) g,
           new_install_order + 1)
     else (g, new_install_order))"

definition sec_prot_keys_gtk_install_order_update :: "sec_prot_gtk_keys_t \<Rightarrow> sec_prot_gtk_keys_t" where
  "sec_prot_keys_gtk_install_order_update g =
     (let tab = gtk_ordered_indexes g
      in fst (fold (gtk_renumber tab) [0..<GTK_NUM] (g, 0)))"

definition sec_prot_keys_gtk_clear :: "sec_prot_gtk_keys_t \<Rightarrow> nat \<Rightarrow> int \<times> sec_prot_gtk_keys_t" where
  "sec_prot_keys_gtk_clear g index =
     (if index \<ge> GTK_NUM then (-1, g)
      else
        let g = gtk_upd index (\<lambda>k. k\<lparr>is_set := False, lifetime := 0, status := GTK_STATUS_NEW,
                                     key := replicate GTK_LEN 0\<rparr>) g;
            g = g\<lparr>gtks_updated := True\<rparr>
        in (0, sec_prot_keys_gtk_install_order_update g))"

definition sec_prot_keys_gtk_install_order_last_get :: "sec_prot_gtk_keys_t \<Rightarrow> int" where
  "sec_prot_keys_gtk_install_order_last_get g =
     fold (\<lambda>i order. if sec_prot_keys_gtk_is_set g i
                     then if uint (install_order (gtk g ! i)) > order
                          then uint (install_order (gtk g ! i)) else order
                     else order)
       [0..<GTK_NUM] (-1) + 1"

definition sec_prot_keys_gtk_set ::
    "sec_prot_gtk_keys_t \<Rightarrow> nat \<Rightarrow> bytes option \<Rightarrow> u32 \<Rightarrow> int \<times> sec_prot_gtk_keys_t" where
  "sec_prot_keys_gtk_set g index new_gtk life =
     (case new_gtk of
        None \<Rightarrow> (-1, g)
      | Some k \<Rightarrow>
          if index \<ge> GTK_NUM then (-1, g)
          else if is_set (gtk g ! index) \<and> take GTK_LEN (key (gtk g ! index)) = take GTK_LEN k
          then (-1, g)
          else
            let g = snd (sec_prot_keys_gtk_clear g index);
                order = sec_prot_keys_gtk_install_order_last_get g;
                g = gtk_upd index (\<lambda>e. e\<lparr>is_set := True, lifetime := life, status := GTK_STATUS_NEW,
                                         install_order := word_of_int order,
                                         key := take GTK_LEN k\<rparr>) g
            in (0, g\<lparr>gtks_updated := True\<rparr>))"

text \<open>
  \<open>sec_prot_keys_gtk_lifetime_decrement\<close> does not check its index: out of range it reads and
  writes outside the array, which the model returns as \<open>None\<close>.
\<close>

definition sec_prot_keys_gtk_lifetime_decrement ::
    "sec_prot_gtk_keys_t \<Rightarrow> nat \<Rightarrow> u64 \<Rightarrow> u16 \<Rightarrow> bool \<Rightarrow> (u32 \<times> sec_prot_gtk_keys_t) option" where
  "sec_prot_keys_gtk_lifetime_decrement g index current_time seconds gtk_update_enable =
     (if index \<ge> length (gtk g) then None
      else
        let g = gtk_upd index (\<lambda>k. if lifetime k > ucast seconds
                                   then k\<lparr>lifetime := lifetime k - ucast seconds\<rparr>
                                   else k\<lparr>lifetime := 0\<rparr>) g;
            k = gtk g ! index;
            expiry = current_time + ucast (lifetime k);
            diff = (if expirytime k \<ge> expiry then expirytime k - expiry else expiry - expirytime k);
            g = (if diff > 300 \<and> gtk_update_enable then g\<lparr>gtks_updated := True\<rparr> else g)
        in Some (lifetime k, g))"

definition sec_prot_keys_gtk_expirytime_set ::
    "sec_prot_gtk_keys_t \<Rightarrow> nat \<Rightarrow> u64 \<Rightarrow> int \<times> sec_prot_gtk_keys_t" where
  "sec_prot_keys_gtk_expirytime_set g index expiry =
     (if index \<ge> GTK_NUM \<or> \<not> is_set (gtk g ! index) then (-1, g)
      else (0, gtk_upd index (\<lambda>k. k\<lparr>expirytime := expiry\<rparr>) g))"

definition sec_prot_keys_gtks_are_updated :: "sec_prot_gtk_keys_t \<Rightarrow> bool" where
  "sec_prot_keys_gtks_are_updated g = gtks_updated g"

definition sec_prot_keys_gtks_updated_set :: "sec_prot_gtk_keys_t \<Rightarrow> sec_prot_gtk_keys_t" where
  "sec_prot_keys_gtks_updated_set g = g\<lparr>gtks_updated := True\<rparr>"

definition sec_prot_keys_gtks_updated_reset :: "sec_prot_gtk_keys_t \<Rightarrow> sec_prot_gtk_keys_t" where
  "sec_prot_keys_gtks_updated_reset g = g\<lparr>gtks_updated := False\<rparr>"

section \<open>Status\<close>

definition sec_prot_keys_gtk_status_fresh_set :: "sec_prot_gtk_keys_t \<Rightarrow> nat \<Rightarrow> sec_prot_gtk_keys_t" where
  "sec_prot_keys_gtk_status_fresh_set g index =
     (if index \<ge> GTK_NUM \<or> \<not> is_set (gtk g ! index) then g
      else if status (gtk g ! index) < GTK_STATUS_FRESH
      then (gtk_upd index (\<lambda>k. k\<lparr>status := GTK_STATUS_FRESH\<rparr>) g)\<lparr>gtks_updated := True\<rparr>
      else g)"

definition sec_prot_keys_gtk_status_all_fresh_set :: "sec_prot_gtk_keys_t \<Rightarrow> sec_prot_gtk_keys_t" where
  "sec_prot_keys_gtk_status_all_fresh_set g =
     fold (\<lambda>i g. sec_prot_keys_gtk_status_fresh_set g i) [0..<GTK_NUM] g"

definition gtk_retire_active :: "nat \<Rightarrow> sec_prot_gtk_keys_t \<Rightarrow> sec_prot_gtk_keys_t" where
  "gtk_retire_active i g =
     (if status (gtk g ! i) = GTK_STATUS_ACTIVE
      then (gtk_upd i (\<lambda>k. k\<lparr>status := GTK_STATUS_OLD\<rparr>) g)\<lparr>gtks_updated := True\<rparr>
      else g)"

definition sec_prot_keys_gtk_status_active_set ::
    "sec_prot_gtk_keys_t \<Rightarrow> nat \<Rightarrow> int \<times> sec_prot_gtk_keys_t" where
  "sec_prot_keys_gtk_status_active_set g index =
     (if index \<ge> GTK_NUM \<or> \<not> is_set (gtk g ! index) then (-1, g)
      else if status (gtk g ! index) = GTK_STATUS_FRESH
      then (0, gtk_upd index (\<lambda>k. k\<lparr>status := GTK_STATUS_ACTIVE\<rparr>)
                 (fold gtk_retire_active [0..<GTK_NUM] g))
      else (-1, g))"

definition sec_prot_keys_gtk_status_active_get :: "sec_prot_gtk_keys_t \<Rightarrow> int" where
  "sec_prot_keys_gtk_status_active_get g =
     (case find_index (\<lambda>i. status (gtk g ! i) = GTK_STATUS_ACTIVE) [0..<GTK_NUM] of
        Some i \<Rightarrow> int i | None \<Rightarrow> -1)"

definition sec_prot_keys_gtk_status_set ::
    "sec_prot_gtk_keys_t \<Rightarrow> nat \<Rightarrow> u8 \<Rightarrow> int \<times> sec_prot_gtk_keys_t" where
  "sec_prot_keys_gtk_status_set g index new_status =
     (if index \<ge> GTK_NUM \<or> \<not> is_set (gtk g ! index) then (-1, g)
      else
        let g = (if ucast (status (gtk g ! index)) \<noteq> new_status then g\<lparr>gtks_updated := True\<rparr> else g)
        in (0, gtk_upd index (\<lambda>k. k\<lparr>status := ucast new_status\<rparr>) g))"

definition sec_prot_keys_gtk_status_active_to_fresh_set ::
    "sec_prot_gtk_keys_t \<Rightarrow> int \<times> sec_prot_gtk_keys_t" where
  "sec_prot_keys_gtk_status_active_to_fresh_set g =
     (let index = sec_prot_keys_gtk_status_active_get g
      in if index < 0 then (-1, g)
         else sec_prot_keys_gtk_status_set g (nat index) (ucast GTK_STATUS_FRESH))"

definition sec_prot_keys_gtk_status_new_set :: "sec_prot_gtk_keys_t \<Rightarrow> nat \<Rightarrow> sec_prot_gtk_keys_t" where
  "sec_prot_keys_gtk_status_new_set g index =
     (if index \<ge> GTK_NUM \<or> \<not> is_set (gtk g ! index) then g
      else
        let g = (if status (gtk g ! index) \<noteq> GTK_STATUS_NEW then g\<lparr>gtks_updated := True\<rparr> else g)
        in gtk_upd index (\<lambda>k. k\<lparr>status := GTK_STATUS_NEW\<rparr>) g)"

section \<open>Hashes\<close>

text \<open>
  The SHA-256 of mbed TLS is a parameter: \<open>None\<close> when one of its calls reports an error,
  otherwise the 32 bytes of the digest. The hash of a key is the last eight bytes; on an error
  the output buffer keeps its contents \<open>old\<close>.
\<close>

type_synonym sha256 = "bytes \<Rightarrow> bytes option"

definition sha256_ok :: "sha256 \<Rightarrow> bool" where
  "sha256_ok sha \<longleftrightarrow> (\<forall>m. \<exists>d. sha m = Some d \<and> length d = 32)"

definition sec_prot_lib_gtkhash_generate :: "sha256 \<Rightarrow> bytes \<Rightarrow> bytes \<Rightarrow> int \<times> bytes" where
  "sec_prot_lib_gtkhash_generate sha k old =
     (case sha (take 16 k) of None \<Rightarrow> (-1, old) | Some d \<Rightarrow> (0, take 8 (drop 24 d)))"

definition sec_prot_keys_gtks_hash_generate :: "sha256 \<Rightarrow> sec_prot_gtk_keys_t \<Rightarrow> bytes" where
  "sec_prot_keys_gtks_hash_generate sha g =
     concat (map (\<lambda>i. if sec_prot_keys_gtk_is_set g i
                      then snd (sec_prot_lib_gtkhash_generate sha (the (sec_prot_keys_gtk_get g i))
                                  (replicate GTK_HASH_LEN 0))
                      else replicate GTK_HASH_LEN 0)
               [0..<GTK_NUM])"

definition sec_prot_keys_gtk_hash_generate :: "sha256 \<Rightarrow> bytes \<Rightarrow> bytes \<Rightarrow> int \<times> bytes" where
  "sec_prot_keys_gtk_hash_generate sha k old = sec_prot_lib_gtkhash_generate sha k old"

definition sec_prot_keys_gtk_hash_empty :: "bytes \<Rightarrow> bool" where
  "sec_prot_keys_gtk_hash_empty h \<longleftrightarrow> take GTK_HASH_LEN h = replicate GTK_HASH_LEN 0"

definition sec_prot_keys_gtk_valid_check :: "sha256 \<Rightarrow> bytes \<Rightarrow> bytes \<Rightarrow> int" where
  "sec_prot_keys_gtk_valid_check sha k junk =
     (if take GTK_HASH_LEN (snd (sec_prot_lib_gtkhash_generate sha k junk)) = replicate GTK_HASH_LEN 0
      then -1 else 0)"

text \<open>
  \<open>sec_prot_keys_gtks_hash_update\<close>: \<open>default_auth\<close> is the test of the configured
  authentication type, \<open>junk i\<close> the uninitialised hash buffer of the \<open>i\<close>-th round.
\<close>

definition gtk_hash_update_step ::
    "sha256 \<Rightarrow> (nat \<Rightarrow> bytes) \<Rightarrow> bytes \<Rightarrow> nat \<Rightarrow> gtk_mismatch_e \<times> sec_prot_gtk_keys_t
      \<Rightarrow> gtk_mismatch_e \<times> sec_prot_gtk_keys_t" where
  "gtk_hash_update_step sha junk gtkhash i = (\<lambda>(mismatch, g).
     let hash_i = take 8 (drop (8 * i) gtkhash) in
     if sec_prot_keys_gtk_hash_empty hash_i
     then
       if sec_prot_keys_gtk_is_set g i
       then
         let life = sec_prot_keys_gtk_lifetime_get g i;
             mismatch = (if life > GTK_EXPIRE_MISMATCH_TIME
                         then if mismatch < GTK_LIFETIME_MISMATCH then GTK_LIFETIME_MISMATCH
                              else mismatch
                         else mismatch)
         in (mismatch, snd (sec_prot_keys_gtk_clear g i))
       else (mismatch, g)
     else
       case sec_prot_keys_gtk_get g i of
         None \<Rightarrow> (if mismatch < GTK_HASH_MISMATCH then GTK_HASH_MISMATCH else mismatch, g)
       | Some k \<Rightarrow>
           if take 8 (snd (sec_prot_lib_gtkhash_generate sha k (junk i))) = hash_i
           then (mismatch, sec_prot_keys_gtk_status_fresh_set g i)
           else (if mismatch < GTK_HASH_MISMATCH then GTK_HASH_MISMATCH else mismatch,
                 snd (sec_prot_keys_gtk_clear g i)))"

definition sec_prot_keys_gtks_hash_update ::
    "sha256 \<Rightarrow> (nat \<Rightarrow> bytes) \<Rightarrow> bool \<Rightarrow> sec_prot_gtk_keys_t \<Rightarrow> bytes
      \<Rightarrow> gtk_mismatch_e \<times> sec_prot_gtk_keys_t" where
  "sec_prot_keys_gtks_hash_update sha junk default_auth g gtkhash =
     (if default_auth
      then fold (gtk_hash_update_step sha junk gtkhash) [0..<GTK_NUM] (GTK_NO_MISMATCH, g)
      else (GTK_NO_MISMATCH, g))"

section \<open>Install order\<close>

definition sec_prot_keys_gtk_install_order_last_index_get :: "sec_prot_gtk_keys_t \<Rightarrow> int" where
  "sec_prot_keys_gtk_install_order_last_index_get g =
     snd (fold (\<lambda>i (order, index). if sec_prot_keys_gtk_is_set g i
                     then if uint (install_order (gtk g ! i)) > order
                          then (uint (install_order (gtk g ! i)), int i) else (order, index)
                     else (order, index))
            [0..<GTK_NUM] (-1, -1))"

definition sec_prot_keys_gtk_install_order_last_lifetime_get :: "sec_prot_gtk_keys_t \<Rightarrow> u32" where
  "sec_prot_keys_gtk_install_order_last_lifetime_get g =
     snd (fold (\<lambda>i (order, life). if sec_prot_keys_gtk_is_set g i
                     then if uint (install_order (gtk g ! i)) > order
                          then (uint (install_order (gtk g ! i)), lifetime (gtk g ! i))
                          else (order, life)
                     else (order, life))
            [0..<GTK_NUM] (-1, 0))"

definition sec_prot_keys_gtk_install_order_first_index_get :: "sec_prot_gtk_keys_t \<Rightarrow> int" where
  "sec_prot_keys_gtk_install_order_first_index_get g =
     (case find_index (\<lambda>i. sec_prot_keys_gtk_is_set g i
                           \<and> install_order (gtk g ! i) = GTK_INSTALL_ORDER_FIRST) [0..<GTK_NUM] of
        Some i \<Rightarrow> int i | None \<Rightarrow> -1)"

definition sec_prot_keys_gtk_install_order_second_index_get :: "sec_prot_gtk_keys_t \<Rightarrow> int" where
  "sec_prot_keys_gtk_install_order_second_index_get g =
     (case find_index (\<lambda>i. sec_prot_keys_gtk_is_set g i
                           \<and> install_order (gtk g ! i) = GTK_INSTALL_ORDER_SECOND) [0..<GTK_NUM] of
        Some i \<Rightarrow> int i | None \<Rightarrow> -1)"

fun gtk_free_index_loop :: "sec_prot_gtk_keys_t \<Rightarrow> nat \<Rightarrow> nat \<Rightarrow> int \<Rightarrow> int" where
  "gtk_free_index_loop g 0 i install_index = install_index"
| "gtk_free_index_loop g (Suc ctr) i install_index =
     (if \<not> sec_prot_keys_gtk_is_set g i then int i
      else gtk_free_index_loop g ctr (if i + 1 \<ge> GTK_NUM then 0 else i + 1) install_index)"

definition sec_prot_keys_gtk_install_index_get :: "sec_prot_gtk_keys_t \<Rightarrow> int" where
  "sec_prot_keys_gtk_install_index_get g =
     (let install_index = sec_prot_keys_gtk_install_order_last_index_get g;
          install_index = (if install_index < 0 then 0 else install_index)
      in gtk_free_index_loop g GTK_NUM (nat install_index) install_index)"

definition sec_prot_keys_gtk_install_order_get :: "sec_prot_gtk_keys_t \<Rightarrow> nat \<Rightarrow> u8" where
  "sec_prot_keys_gtk_install_order_get g index =
     (if index \<ge> GTK_NUM \<or> \<not> is_set (gtk g ! index) then 0
      else ucast (install_order (gtk g ! index)))"

definition sec_prot_keys_gtk_install_order_set ::
    "sec_prot_gtk_keys_t \<Rightarrow> nat \<Rightarrow> u8 \<Rightarrow> int \<times> sec_prot_gtk_keys_t" where
  "sec_prot_keys_gtk_install_order_set g index order =
     (if index \<ge> GTK_NUM \<or> \<not> is_set (gtk g ! index) then (-1, g)
      else
        let g = (if ucast (install_order (gtk g ! index)) \<noteq> order then g\<lparr>gtks_updated := True\<rparr> else g)
        in (0, gtk_upd index (\<lambda>k. k\<lparr>install_order := ucast order\<rparr>) g))"

definition sec_prot_keys_gtk_count :: "sec_prot_gtk_keys_t \<Rightarrow> nat" where
  "sec_prot_keys_gtk_count g =
     fold (\<lambda>i count. if sec_prot_keys_gtk_is_set g i then count + 1 else count) [0..<GTK_NUM] 0"

section \<open>What a supplicant has\<close>

definition sec_prot_keys_fresh_gtkl_get :: "sec_prot_gtk_keys_t \<Rightarrow> u8" where
  "sec_prot_keys_fresh_gtkl_get g =
     fold (\<lambda>i l. if sec_prot_keys_gtk_status_is_live g i then l OR push_bit i 1 else l) [0..<GTK_NUM] 0"

definition sec_prot_keys_gtkl_set :: "sec_prot_keys_t \<Rightarrow> u8 \<Rightarrow> sec_prot_keys_t" where
  "sec_prot_keys_gtkl_set k l = k\<lparr>gtkl := l\<rparr>"

definition sec_prot_keys_gtkl_gtk_is_live :: "sec_prot_keys_t \<Rightarrow> nat \<Rightarrow> bool" where
  "sec_prot_keys_gtkl_gtk_is_live k index =
     (if index \<ge> GTK_NUM then False else if gtkl k AND push_bit index 1 \<noteq> 0 then True else False)"

definition sec_prot_keys_gtkl_gtk_live_set :: "sec_prot_keys_t \<Rightarrow> nat \<Rightarrow> int \<times> sec_prot_keys_t" where
  "sec_prot_keys_gtkl_gtk_live_set k index =
     (if index \<ge> GTK_NUM then (-1, k) else (0, k\<lparr>gtkl := gtkl k OR push_bit index 1\<rparr>))"

definition sec_prot_keys_gtk_insert_index_set ::
    "sec_prot_gtk_keys_t \<Rightarrow> sec_prot_keys_t \<Rightarrow> nat \<Rightarrow> int \<times> sec_prot_keys_t" where
  "sec_prot_keys_gtk_insert_index_set g k index =
     (if index \<ge> GTK_NUM \<or> \<not> is_set (gtk g ! index) then (-1, k)
      else (0, k\<lparr>gtk_set_index := int index\<rparr>))"

definition sec_prot_keys_gtk_insert_index_get :: "sec_prot_keys_t \<Rightarrow> int" where
  "sec_prot_keys_gtk_insert_index_get k = gtk_set_index k"

definition sec_prot_keys_gtk_insert_index_clear :: "sec_prot_keys_t \<Rightarrow> sec_prot_keys_t" where
  "sec_prot_keys_gtk_insert_index_clear k = k\<lparr>gtk_set_index := -1\<rparr>"

definition sec_prot_keys_gtkl_from_gtk_insert_index_set :: "sec_prot_keys_t \<Rightarrow> sec_prot_keys_t" where
  "sec_prot_keys_gtkl_from_gtk_insert_index_set k =
     (if gtk_set_index k \<ge> 0
      then sec_prot_keys_gtk_insert_index_clear
             (snd (sec_prot_keys_gtkl_gtk_live_set k (nat (gtk_set_index k))))
      else k)"

definition sec_prot_keys_gtk_insert_index_from_gtkl_get ::
    "sec_prot_gtk_keys_t \<Rightarrow> sec_prot_keys_t \<Rightarrow> int \<times> sec_prot_keys_t" where
  "sec_prot_keys_gtk_insert_index_from_gtkl_get g k =
     (let active_index = sec_prot_keys_gtk_status_active_get g in
      if active_index \<ge> 0 \<and> \<not> sec_prot_keys_gtkl_gtk_is_live k (nat active_index)
      then (active_index, snd (sec_prot_keys_gtk_insert_index_set g k (nat active_index)))
      else
        case find_index (\<lambda>i. (sec_prot_keys_gtk_status_is_live g i
                               \<or> sec_prot_keys_gtk_status_get g i = ucast GTK_STATUS_OLD)
                             \<and> \<not> sec_prot_keys_gtkl_gtk_is_live k i) [0..<GTK_NUM] of
          Some i \<Rightarrow> (int i, snd (sec_prot_keys_gtk_insert_index_set g k i))
        | None \<Rightarrow> (-1, k))"

text \<open>The stored index is read as it is: it is -1 or was checked when it was stored.\<close>

definition sec_prot_keys_get_gtk_to_insert ::
    "sec_prot_gtk_keys_t \<Rightarrow> sec_prot_keys_t \<Rightarrow> (nat \<times> bytes) option" where
  "sec_prot_keys_get_gtk_to_insert g k =
     (if gtk_set_index k \<ge> 0 \<and> is_set (gtk g ! nat (gtk_set_index k))
      then Some (nat (gtk_set_index k), key (gtk g ! nat (gtk_set_index k))) else None)"

definition sec_prot_keys_ptk_installed_gtk_hash_set ::
    "sha256 \<Rightarrow> bytes \<Rightarrow> sec_prot_gtk_keys_t \<Rightarrow> sec_prot_keys_t \<Rightarrow> bool \<Rightarrow> sec_prot_keys_t" where
  "sec_prot_keys_ptk_installed_gtk_hash_set sha junk g k is_4wh =
     (if gtk_set_index k \<ge> 0
      then
        let i = nat (gtk_set_index k) in
        case sec_prot_keys_gtk_get g i of
          None \<Rightarrow> k
        | Some kk \<Rightarrow>
            let (ret, gtk_hash) = sec_prot_keys_gtk_hash_generate sha kk junk in
            if ret < 0 then k
            else
              let k = k\<lparr>ins_gtk_hash := (ins_gtk_hash k)[i := take INS_GTK_HASH_LEN gtk_hash],
                        ins_gtk_hash_set := ins_gtk_hash_set k OR push_bit i 1\<rparr>
              in if is_4wh then k\<lparr>ins_gtk_4wh_hash_set := ins_gtk_4wh_hash_set k OR push_bit i 1\<rparr>
                 else k\<lparr>ins_gtk_4wh_hash_set := ins_gtk_4wh_hash_set k AND NOT (push_bit i 1)\<rparr>
      else k)"

text \<open>
  The shift by \<open>gtk_set_index\<close> is undefined when it is negative, which the model returns as
  \<open>None\<close>. The comparison of the masked bit with 1 is the source's.
\<close>

definition sec_prot_keys_ptk_installed_gtk_hash_mismatch_check ::
    "sha256 \<Rightarrow> bytes \<Rightarrow> sec_prot_gtk_keys_t \<Rightarrow> sec_prot_keys_t \<Rightarrow> nat \<Rightarrow> bool option" where
  "sec_prot_keys_ptk_installed_gtk_hash_mismatch_check sha junk g k gtk_index =
     (if gtk_set_index k < 0 then None
      else
        let i = nat (gtk_set_index k) in
        if ins_gtk_hash_set k AND push_bit i 1 = 0 \<or> ins_gtk_hash_set k AND push_bit i 1 = 1
        then Some False
        else
          case sec_prot_keys_gtk_get g gtk_index of
            None \<Rightarrow> Some False
          | Some kk \<Rightarrow>
              let (ret, gtk_hash) = sec_prot_keys_gtk_hash_generate sha kk junk in
              if ret < 0 then Some False
              else if take INS_GTK_HASH_LEN (ins_gtk_hash k ! i) \<noteq> take INS_GTK_HASH_LEN gtk_hash
              then Some True else Some False)"

end
