(* ===== verification/GtkStore.thy ===== *)
theory GtkStore
  imports GtkKeys
begin

text \<open>
  What the group key store guarantees: the install orders of the keys that are set are always
  the numbers \<open>0, 1, \<dots>\<close> without gaps, at most one key is active, and a slot that is not set
  holds no key material. The theory proves this for every state the operations can reach.
\<close>

section \<open>Slots and their order\<close>

definition gtk_slots :: "sec_prot_gtk_keys_t \<Rightarrow> nat set" where
  "gtk_slots g = {i. i < 4 \<and> is_set (gtk g ! i)}"

definition gtk_order :: "sec_prot_gtk_keys_t \<Rightarrow> nat \<Rightarrow> nat" where
  "gtk_order g i = unat (install_order (gtk g ! i))"

lemma gtk_slots_finite [simp]: "finite (gtk_slots g)"
  by (simp add: gtk_slots_def)

lemma gtk_slots_lt: "i \<in> gtk_slots g \<Longrightarrow> i < 4"
  by (simp add: gtk_slots_def)

lemma gtk_slots_iff: "sec_prot_keys_gtk_is_set g i \<longleftrightarrow> i \<in> gtk_slots g"
  by (auto simp: sec_prot_keys_gtk_is_set_def gtk_slots_def)

lemma gtk_order_lt: "gtk_order g i < 4"
  using unsigned_less [of "install_order (gtk g ! i)"] by (simp add: gtk_order_def)

lemma gtk_upd_simps [simp]:
  "length (gtk (gtk_upd i f g)) = length (gtk g)"
  "gtks_updated (gtk_upd i f g) = gtks_updated g"
  "gtk (gtk_upd i f g) = (gtk g)[i := f (gtk g ! i)]"
  "gtk_upd i f (g\<lparr>gtks_updated := b\<rparr>) = (gtk_upd i f g)\<lparr>gtks_updated := b\<rparr>"
  by (simp_all add: gtk_upd_def)

lemma gtk_upd_nth:
  "length (gtk g) = 4 \<Longrightarrow> j < 4 \<Longrightarrow>
     gtk (gtk_upd i f g) ! j = (if i = j then f (gtk g ! j) else gtk g ! j)"
  by simp

subsection \<open>The table of ordered indexes\<close>

lemma gtk_ordered_indexes_upto:
  fixes g :: sec_prot_gtk_keys_t
  assumes "n \<le> 4"
  defines "tab \<equiv> fold (\<lambda>i tab. if sec_prot_keys_gtk_is_set g i
      then tab[unat (install_order (gtk g ! i)) := int i] else tab) [0..<n] [-1, -1, -1, -1]"
  shows "length tab = 4 \<and> (\<forall>v < 4.
    (tab ! v = -1 \<and> (\<forall>i \<in> gtk_slots g. i < n \<longrightarrow> gtk_order g i \<noteq> v)) \<or>
    (\<exists>i \<in> gtk_slots g. i < n \<and> gtk_order g i = v \<and> tab ! v = int i))"
  using assms(1) unfolding tab_def
proof (induction n)
  case 0
  have "[-1, -1, -1, -1] ! v = (-1::int)" if "v < 4" for v :: nat
    using that by (simp add: numeral_eq_Suc less_Suc_eq_0_disj) auto
  then show ?case by simp
next
  case (Suc n)
  let ?f = "\<lambda>i tab. if sec_prot_keys_gtk_is_set g i
      then tab[unat (install_order (gtk g ! i)) := int i] else tab"
  define tab where "tab = fold ?f [0..<n] [-1, -1, -1, -1]"
  have IH: "length tab = 4" "\<And>v. v < 4 \<Longrightarrow>
    (tab ! v = -1 \<and> (\<forall>i \<in> gtk_slots g. i < n \<longrightarrow> gtk_order g i \<noteq> v)) \<or>
    (\<exists>i \<in> gtk_slots g. i < n \<and> gtk_order g i = v \<and> tab ! v = int i)"
    using Suc by (simp_all add: tab_def)
  have step: "fold ?f [0..<Suc n] [-1, -1, -1, -1] =
      (if n \<in> gtk_slots g then tab[gtk_order g n := int n] else tab)"
    by (simp add: tab_def gtk_slots_iff gtk_order_def)
  show ?case
  proof (cases "n \<in> gtk_slots g")
    case False
    with IH show ?thesis unfolding step
      by (simp add: less_Suc_eq) (metis less_Suc_eq)
  next
    case True
    show ?thesis unfolding step if_P [OF True]
    proof (intro conjI allI impI)
      show "length (tab[gtk_order g n := int n]) = 4" by (simp add: IH)
      fix v :: nat
      assume v: "v < 4"
      show "(tab[gtk_order g n := int n] ! v = -1 \<and>
          (\<forall>i\<in>gtk_slots g. i < Suc n \<longrightarrow> gtk_order g i \<noteq> v)) \<or>
        (\<exists>i\<in>gtk_slots g. i < Suc n \<and> gtk_order g i = v \<and> tab[gtk_order g n := int n] ! v = int i)"
      proof (cases "gtk_order g n = v")
        case eq: True
        with True IH(1) gtk_order_lt [of g n] show ?thesis by auto
      next
        case neq: False
        then have "tab[gtk_order g n := int n] ! v = tab ! v" by simp
        with IH(2) [OF v] neq show ?thesis by (auto simp: less_Suc_eq)
      qed
    qed
  qed
qed

lemmas gtk_ordered_indexes_table =
  gtk_ordered_indexes_upto [of 4, OF order_refl, folded gtk_ordered_indexes_def]

subsection \<open>Renumbering\<close>

definition gtk_rank :: "sec_prot_gtk_keys_t \<Rightarrow> nat \<Rightarrow> nat" where
  "gtk_rank g i = card {j \<in> gtk_slots g. gtk_order g j < gtk_order g i}"

lemma gtk_renumber_upto:
  fixes g :: sec_prot_gtk_keys_t
  assumes inj: "inj_on (gtk_order g) (gtk_slots g)" and len: "length (gtk g) = 4" and "m \<le> 4"
  defines "res \<equiv> fold (gtk_renumber (gtk_ordered_indexes g)) [0..<m] (g, 0)"
  shows "snd res = card {j \<in> gtk_slots g. gtk_order g j < m} \<and> length (gtk (fst res)) = 4 \<and>
    (\<forall>i < 4. gtk (fst res) ! i =
       (if i \<in> gtk_slots g \<and> gtk_order g i < m
        then (gtk g ! i)\<lparr>install_order := word_of_nat (gtk_rank g i)\<rparr> else gtk g ! i))"
  using assms(3) unfolding res_def
proof (induction m)
  case 0
  then show ?case by (simp add: len)
next
  case (Suc m)
  let ?tab = "gtk_ordered_indexes g"
  define h where "h = fst (fold (gtk_renumber ?tab) [0..<m] (g, 0))"
  define n where "n = card {j \<in> gtk_slots g. gtk_order g j < m}"
  have "m \<le> 4" using Suc.prems by simp
  note IH = Suc.IH [OF this]
  have res: "fold (gtk_renumber ?tab) [0..<m] (g, 0) = (h, n)"
    using conjunct1 [OF IH] by (intro prod_eqI) (simp_all only: h_def n_def fst_conv snd_conv)
  have lenh: "length (gtk h) = 4"
    unfolding h_def by (rule conjunct1 [OF conjunct2 [OF IH]])
  have h: "\<And>i. i < 4 \<Longrightarrow> gtk h ! i =
       (if i \<in> gtk_slots g \<and> gtk_order g i < m
        then (gtk g ! i)\<lparr>install_order := word_of_nat (gtk_rank g i)\<rparr> else gtk g ! i)"
    unfolding h_def using conjunct2 [OF conjunct2 [OF IH]] by blast
  have step: "fold (gtk_renumber ?tab) [0..<Suc m] (g, 0) = gtk_renumber ?tab m (h, n)"
    by (simp add: res)
  have "m < 4" using Suc.prems by simp
  with gtk_ordered_indexes_table [of g] consider
      (none) "?tab ! m = -1" "\<forall>i \<in> gtk_slots g. gtk_order g i \<noteq> m"
    | (some) i where "i \<in> gtk_slots g" "gtk_order g i = m" "?tab ! m = int i"
    using gtk_slots_lt by blast
  then show ?case
  proof cases
    case none
    then have "{j \<in> gtk_slots g. gtk_order g j < Suc m} = {j \<in> gtk_slots g. gtk_order g j < m}"
      by (auto simp: less_Suc_eq)
    with none h lenh show ?thesis
      unfolding step by (auto simp: gtk_renumber_def n_def less_Suc_eq)
  next
    case (some i)
    have i4: "i < 4" using some(1) by (rule gtk_slots_lt)
    have uniq: "j = i" if "j \<in> gtk_slots g" "gtk_order g j = m" for j
      using inj_onD [OF inj] that some by metis
    have "{j \<in> gtk_slots g. gtk_order g j < Suc m} =
        insert i {j \<in> gtk_slots g. gtk_order g j < m}"
      unfolding less_Suc_eq using some(1,2) uniq by blast
    then have card: "card {j \<in> gtk_slots g. gtk_order g j < Suc m} = Suc n"
      using some by (simp add: n_def)
    have rank: "gtk_rank g i = n" by (simp add: gtk_rank_def n_def some)
    have new: "gtk_renumber ?tab m (h, n) =
        (gtk_upd i (\<lambda>k. k\<lparr>install_order := word_of_nat n\<rparr>)
           (if unat (install_order (gtk h ! i)) \<noteq> n then h\<lparr>gtks_updated := True\<rparr> else h), Suc n)"
      by (simp add: gtk_renumber_def some(3) Let_def)
    have "gtk (fst (gtk_renumber ?tab m (h, n))) ! j =
       (if j \<in> gtk_slots g \<and> gtk_order g j < Suc m
        then (gtk g ! j)\<lparr>install_order := word_of_nat (gtk_rank g j)\<rparr> else gtk g ! j)"
      if "j < 4" for j
    proof (cases "j = i")
      case True
      then show ?thesis
        using i4 lenh h [OF i4] some(1,2) by (auto simp: new rank)
    next
      case False
      with uniq have "j \<in> gtk_slots g \<Longrightarrow> gtk_order g j \<noteq> m" by blast
      with False that h [OF that] show ?thesis by (auto simp: new less_Suc_eq)
    qed
    then show ?thesis unfolding step by (simp add: new card lenh)
  qed
qed

text \<open>
  The result of the renumbering: every key that is set gets its rank among the install orders,
  everything else stays.
\<close>

lemma gtk_install_order_update_nth:
  assumes "inj_on (gtk_order g) (gtk_slots g)" and "length (gtk g) = 4" and "i < 4"
  shows "gtk (sec_prot_keys_gtk_install_order_update g) ! i =
    (if i \<in> gtk_slots g then (gtk g ! i)\<lparr>install_order := word_of_nat (gtk_rank g i)\<rparr>
     else gtk g ! i)"
  using gtk_renumber_upto [OF assms(1,2), of 4] assms(3) gtk_order_lt [of g i]
  by (simp add: sec_prot_keys_gtk_install_order_update_def Let_def del: upt_rec_numeral)

lemma gtk_install_order_update_length:
  assumes "inj_on (gtk_order g) (gtk_slots g)" and "length (gtk g) = 4"
  shows "length (gtk (sec_prot_keys_gtk_install_order_update g)) = 4"
  using gtk_renumber_upto [OF assms, of 4]
  by (simp add: sec_prot_keys_gtk_install_order_update_def Let_def del: upt_rec_numeral)

lemma gtk_rank_lt_card: "i \<in> gtk_slots g \<Longrightarrow> gtk_rank g i < card (gtk_slots g)"
  unfolding gtk_rank_def by (rule psubset_card_mono) auto

lemma gtk_rank_mono:
  "a \<in> gtk_slots g \<Longrightarrow> gtk_order g a < gtk_order g b \<Longrightarrow> gtk_rank g a < gtk_rank g b"
  unfolding gtk_rank_def by (rule psubset_card_mono) auto

lemma gtk_rank_inj:
  assumes "inj_on (gtk_order g) (gtk_slots g)"
  shows "inj_on (gtk_rank g) (gtk_slots g)"
proof (rule inj_onI)
  fix i j
  assume i: "i \<in> gtk_slots g" and j: "j \<in> gtk_slots g" and eq: "gtk_rank g i = gtk_rank g j"
  have "gtk_order g i = gtk_order g j"
    using gtk_rank_mono [OF i, of j] gtk_rank_mono [OF j, of i] eq
    by (metis less_irrefl linorder_neqE_nat)
  with assms i j show "i = j" by (simp add: inj_on_eq_iff)
qed

lemma gtk_rank_image:
  assumes "inj_on (gtk_order g) (gtk_slots g)"
  shows "gtk_rank g ` gtk_slots g = {..<card (gtk_slots g)}"
proof (rule card_subset_eq)
  show "gtk_rank g ` gtk_slots g \<subseteq> {..<card (gtk_slots g)}"
    using gtk_rank_lt_card by auto
  show "card (gtk_rank g ` gtk_slots g) = card {..<card (gtk_slots g)}"
    using card_image [OF gtk_rank_inj [OF assms]] by simp
qed simp

lemma card_gtk_slots_le: "card (gtk_slots g) \<le> 4"
proof -
  have "gtk_slots g \<subseteq> {..<4}" by (auto simp: gtk_slots_def)
  from card_mono [OF _ this] show ?thesis by simp
qed

text \<open>The install orders in use are \<open>0, 1, \<dots>\<close> without gaps.\<close>

definition gtk_order_ok :: "sec_prot_gtk_keys_t \<Rightarrow> bool" where
  "gtk_order_ok g \<longleftrightarrow> gtk_order g ` gtk_slots g = {..<card (gtk_slots g)}"

lemma gtk_order_ok_inj: "gtk_order_ok g \<Longrightarrow> inj_on (gtk_order g) (gtk_slots g)"
  by (simp add: gtk_order_ok_def eq_card_imp_inj_on)

lemma gtk_install_order_update_ok:
  assumes "inj_on (gtk_order g) (gtk_slots g)" and "length (gtk g) = 4"
  defines "g' \<equiv> sec_prot_keys_gtk_install_order_update g"
  shows "gtk_slots g' = gtk_slots g" and "gtk_order_ok g'"
    and "\<And>i. i \<in> gtk_slots g \<Longrightarrow> gtk_order g' i = gtk_rank g i"
proof -
  have nth: "gtk g' ! i =
      (if i \<in> gtk_slots g then (gtk g ! i)\<lparr>install_order := word_of_nat (gtk_rank g i)\<rparr>
       else gtk g ! i)" if "i < 4" for i
    unfolding g'_def by (rule gtk_install_order_update_nth [OF assms(1,2) that])
  show slots: "gtk_slots g' = gtk_slots g"
    using nth by (auto simp: gtk_slots_def split: if_splits)
  show "gtk_order g' i = gtk_rank g i" if i: "i \<in> gtk_slots g" for i
  proof -
    have "gtk_rank g i < 4"
      using gtk_rank_lt_card [OF i] card_gtk_slots_le [of g] by linarith
    then show ?thesis
      using i nth [OF gtk_slots_lt [OF i]] by (simp add: gtk_order_def unat_of_nat)
  qed
  then have "gtk_order g' ` gtk_slots g = gtk_rank g ` gtk_slots g"
    by (rule image_cong [OF refl])
  then show "gtk_order_ok g'"
    by (simp add: gtk_order_ok_def slots gtk_rank_image [OF assms(1)])
qed

section \<open>The invariant of the store\<close>

definition gtk_inv :: "sec_prot_gtk_keys_t \<Rightarrow> bool" where
  "gtk_inv g \<longleftrightarrow> length (gtk g) = 4 \<and> gtk_order_ok g \<and>
     (\<forall>i < 4. \<forall>j < 4. status (gtk g ! i) = GTK_STATUS_ACTIVE \<longrightarrow>
        status (gtk g ! j) = GTK_STATUS_ACTIVE \<longrightarrow> i = j) \<and>
     (\<forall>i < 4. \<not> is_set (gtk g ! i) \<longrightarrow>
        status (gtk g ! i) = GTK_STATUS_NEW \<and> lifetime (gtk g ! i) = 0 \<and>
        key (gtk g ! i) = replicate GTK_LEN 0)"

lemma gtk_invI:
  assumes "length (gtk g) = 4" and "gtk_order_ok g"
    and "\<And>i j. i < 4 \<Longrightarrow> j < 4 \<Longrightarrow> status (gtk g ! i) = GTK_STATUS_ACTIVE \<Longrightarrow>
           status (gtk g ! j) = GTK_STATUS_ACTIVE \<Longrightarrow> i = j"
    and "\<And>i. i < 4 \<Longrightarrow> \<not> is_set (gtk g ! i) \<Longrightarrow>
           status (gtk g ! i) = GTK_STATUS_NEW \<and> lifetime (gtk g ! i) = 0 \<and>
           key (gtk g ! i) = replicate GTK_LEN 0"
  shows "gtk_inv g"
  unfolding gtk_inv_def using assms by blast

lemma gtk_invD:
  assumes "gtk_inv g"
  shows "length (gtk g) = 4" and "gtk_order_ok g"
    and "i < 4 \<Longrightarrow> j < 4 \<Longrightarrow> status (gtk g ! i) = GTK_STATUS_ACTIVE \<Longrightarrow>
           status (gtk g ! j) = GTK_STATUS_ACTIVE \<Longrightarrow> i = j"
    and "i < 4 \<Longrightarrow> \<not> is_set (gtk g ! i) \<Longrightarrow>
           status (gtk g ! i) = GTK_STATUS_NEW \<and> lifetime (gtk g ! i) = 0 \<and>
           key (gtk g ! i) = replicate GTK_LEN 0"
  using assms unfolding gtk_inv_def by blast+

lemma gtk_slots_updated [simp]: "gtk_slots (g\<lparr>gtks_updated := b\<rparr>) = gtk_slots g"
  by (simp add: gtk_slots_def)

lemma gtk_order_updated [simp]: "gtk_order (g\<lparr>gtks_updated := b\<rparr>) = gtk_order g"
  by (simp add: gtk_order_def fun_eq_iff)

lemma gtk_inv_updated [simp]: "gtk_inv (g\<lparr>gtks_updated := b\<rparr>) = gtk_inv g"
  by (simp add: gtk_inv_def gtk_order_ok_def)

text \<open>A change of one slot that leaves its place in the order alone.\<close>

lemma gtk_inv_upd:
  assumes inv: "gtk_inv g" and i: "i < 4"
    and "is_set (f (gtk g ! i)) = is_set (gtk g ! i)"
    and "install_order (f (gtk g ! i)) = install_order (gtk g ! i)"
    and active: "status (f (gtk g ! i)) = GTK_STATUS_ACTIVE \<Longrightarrow>
      \<forall>j < 4. j \<noteq> i \<longrightarrow> status (gtk g ! j) \<noteq> GTK_STATUS_ACTIVE"
    and unset: "\<not> is_set (gtk g ! i) \<Longrightarrow> status (f (gtk g ! i)) = GTK_STATUS_NEW \<and>
      lifetime (f (gtk g ! i)) = 0 \<and> key (f (gtk g ! i)) = replicate GTK_LEN 0"
  shows "gtk_inv (gtk_upd i f g)"
proof -
  note len = gtk_invD(1) [OF inv]
  note nth = gtk_upd_nth [OF len]
  have slots: "gtk_slots (gtk_upd i f g) = gtk_slots g"
    unfolding gtk_slots_def using len i assms(3) by (auto simp: nth_list_update split: if_splits)
  have order: "gtk_order (gtk_upd i f g) j = gtk_order g j" if "j < 4" for j
    unfolding gtk_order_def nth [OF that] using assms(4) by auto
  have "gtk_order (gtk_upd i f g) ` gtk_slots g = gtk_order g ` gtk_slots g"
    by (rule image_cong [OF refl]) (rule order [OF gtk_slots_lt])
  then have "gtk_order_ok (gtk_upd i f g)"
    using gtk_invD(2) [OF inv] by (simp add: gtk_order_ok_def slots)
  moreover have "j = k" if "j < 4" "k < 4" "status (gtk (gtk_upd i f g) ! j) = GTK_STATUS_ACTIVE"
    "status (gtk (gtk_upd i f g) ! k) = GTK_STATUS_ACTIVE" for j k
    using that(3,4) active gtk_invD(3) [OF inv that(1,2)] that(1,2)
    unfolding nth [OF that(1)] nth [OF that(2)] by (metis (full_types))
  ultimately show ?thesis
    using len i unset gtk_invD(4) [OF inv] assms(3)
    by (intro gtk_invI) (auto simp: nth_list_update split: if_splits)
qed

lemma gtk_inv_init: "gtk_inv (sec_prot_keys_gtks_init g)"
proof -
  have "gtk_slots (sec_prot_keys_gtks_init g) = {}"
    by (auto simp: gtk_slots_def sec_prot_keys_gtks_init_def gtk_key_zero_def)
  then show ?thesis
    by (intro gtk_invI)
      (simp_all add: gtk_order_ok_def sec_prot_keys_gtks_init_def gtk_key_zero_def)
qed

lemma gtks_clear_init: "sec_prot_keys_gtks_clear g = sec_prot_keys_gtks_init g"
  by (simp add: sec_prot_keys_gtks_clear_def sec_prot_keys_gtks_init_def Let_def)

subsection \<open>Clearing and installing\<close>

definition gtk_wiped :: "gtk_key_t \<Rightarrow> gtk_key_t" where
  "gtk_wiped k = k\<lparr>is_set := False, lifetime := 0, status := GTK_STATUS_NEW,
     key := replicate GTK_LEN 0\<rparr>"

lemma gtk_clear_unfold:
  "index < 4 \<Longrightarrow> sec_prot_keys_gtk_clear g index =
     (0, sec_prot_keys_gtk_install_order_update
           ((gtk_upd index gtk_wiped g)\<lparr>gtks_updated := True\<rparr>))"
  by (simp add: sec_prot_keys_gtk_clear_def gtk_wiped_def [abs_def] Let_def)

lemma gtk_wipe_slots:
  assumes "length (gtk g) = 4" and "index < 4"
  shows "gtk_slots (gtk_upd index gtk_wiped g) = gtk_slots g - {index}"
    and "i < 4 \<Longrightarrow> gtk_order (gtk_upd index gtk_wiped g) i = gtk_order g i"
  using assms
  by (auto simp: gtk_slots_def gtk_order_def gtk_wiped_def nth_list_update split: if_splits)

lemma gtk_clear_spec:
  assumes "gtk_order_ok g" and "length (gtk g) = 4" and "index < 4"
  defines "g' \<equiv> snd (sec_prot_keys_gtk_clear g index)"
  shows "length (gtk g') = 4" and "gtk_slots g' = gtk_slots g - {index}" and "gtk_order_ok g'"
    and "\<And>i. i < 4 \<Longrightarrow> \<exists>v. gtk g' ! i =
      (if i = index then gtk_wiped (gtk g ! i) else gtk g ! i)\<lparr>install_order := v\<rparr>"
    and "\<And>i j. i \<in> gtk_slots g' \<Longrightarrow> j \<in> gtk_slots g' \<Longrightarrow> gtk_order g i < gtk_order g j \<Longrightarrow>
      gtk_order g' i < gtk_order g' j"
proof -
  define h where "h = (gtk_upd index gtk_wiped g)\<lparr>gtks_updated := True\<rparr>"
  have g': "g' = sec_prot_keys_gtk_install_order_update h"
    unfolding g'_def h_def using assms(3) by (simp add: gtk_clear_unfold)
  have len: "length (gtk h) = 4" by (simp add: h_def assms(2))
  have slots: "gtk_slots h = gtk_slots g - {index}"
    using gtk_wipe_slots(1) [OF assms(2,3)] by (simp add: h_def)
  have order: "gtk_order h i = gtk_order g i" if "i < 4" for i
    using gtk_wipe_slots(2) [OF assms(2,3) that] by (simp add: h_def)
  have "inj_on (gtk_order g) (gtk_slots h)"
    unfolding slots using gtk_order_ok_inj [OF assms(1)] by (rule inj_on_subset) blast
  moreover have "inj_on (gtk_order h) (gtk_slots h) = inj_on (gtk_order g) (gtk_slots h)"
    by (rule inj_on_cong) (rule order [OF gtk_slots_lt])
  ultimately have inj: "inj_on (gtk_order h) (gtk_slots h)" by simp
  show "length (gtk g') = 4" unfolding g' by (rule gtk_install_order_update_length [OF inj len])
  note upd = gtk_install_order_update_ok [OF inj len, folded g']
  show "gtk_slots g' = gtk_slots g - {index}" "gtk_order_ok g'"
    using upd slots by simp_all
  show "gtk_order g' i < gtk_order g' j"
    if "i \<in> gtk_slots g'" "j \<in> gtk_slots g'" "gtk_order g i < gtk_order g j" for i j
    using that upd(1,3) gtk_rank_mono [of i h j] order [OF gtk_slots_lt] by metis
  fix i :: nat
  assume i: "i < 4"
  define X where "X = (if i = index then gtk_wiped (gtk g ! i) else gtk g ! i)"
  have X: "gtk h ! i = X"
    unfolding h_def X_def using gtk_upd_nth [OF assms(2) i, of index] by simp
  have "X = X\<lparr>install_order := install_order X\<rparr>" by simp
  then show "\<exists>v. gtk g' ! i = X\<lparr>install_order := v\<rparr>"
    unfolding g' gtk_install_order_update_nth [OF inj len i] X by metis
qed

lemma gtk_clear_inv:
  assumes "gtk_inv g"
  shows "gtk_inv (snd (sec_prot_keys_gtk_clear g index))"
proof (cases "index < 4")
  case False
  with assms show ?thesis by (simp add: sec_prot_keys_gtk_clear_def)
next
  case True
  note D = gtk_invD [OF assms]
  note spec = gtk_clear_spec [OF D(2,1) True]
  show ?thesis
  proof (rule gtk_invI)
    fix i j :: nat
    assume "i < 4" "j < 4"
      and "status (gtk (snd (sec_prot_keys_gtk_clear g index)) ! i) = GTK_STATUS_ACTIVE"
      and "status (gtk (snd (sec_prot_keys_gtk_clear g index)) ! j) = GTK_STATUS_ACTIVE"
    then have "status (gtk g ! i) = GTK_STATUS_ACTIVE" "status (gtk g ! j) = GTK_STATUS_ACTIVE"
      using spec(4) [of i] spec(4) [of j] by (auto simp: gtk_wiped_def split: if_splits)
    with D(3) \<open>i < 4\<close> \<open>j < 4\<close> show "i = j" by blast
  next
    fix i :: nat
    assume "i < 4" and "\<not> is_set (gtk (snd (sec_prot_keys_gtk_clear g index)) ! i)"
    then show "status (gtk (snd (sec_prot_keys_gtk_clear g index)) ! i) = GTK_STATUS_NEW \<and>
        lifetime (gtk (snd (sec_prot_keys_gtk_clear g index)) ! i) = 0 \<and>
        key (gtk (snd (sec_prot_keys_gtk_clear g index)) ! i) = replicate GTK_LEN 0"
      using spec(4) [of i] D(4) [of i] by (auto simp: gtk_wiped_def split: if_splits)
  qed (rule spec)+
qed

text \<open>The number of the next key to be installed is the number of keys that are set.\<close>

lemma gtk_last_order_upto:
  fixes g :: sec_prot_gtk_keys_t
  defines "step \<equiv> \<lambda>i order. if sec_prot_keys_gtk_is_set g i
      then if uint (install_order (gtk g ! i)) > order then uint (install_order (gtk g ! i)) else order
      else order"
  shows "(\<forall>i \<in> gtk_slots g. i < n \<longrightarrow> int (gtk_order g i) \<le> fold step [0..<n] (-1)) \<and>
    (fold step [0..<n] (-1) = -1 \<and> (\<forall>i \<in> gtk_slots g. \<not> i < n) \<or>
     (\<exists>i \<in> gtk_slots g. fold step [0..<n] (-1) = int (gtk_order g i)))"
proof (induction n)
  case 0
  then show ?case by simp
next
  case (Suc n)
  define r where "r = fold step [0..<n] (-1)"
  have "fold step [0..<Suc n] (-1) =
      (if n \<in> gtk_slots g then max r (int (gtk_order g n)) else r)"
    by (simp add: step_def gtk_slots_iff gtk_order_def r_def max_def)
  moreover have "(\<forall>i \<in> gtk_slots g. i < n \<longrightarrow> int (gtk_order g i) \<le> r) \<and>
    (r = -1 \<and> (\<forall>i \<in> gtk_slots g. \<not> i < n) \<or> (\<exists>i \<in> gtk_slots g. r = int (gtk_order g i)))"
    using Suc unfolding r_def .
  ultimately show ?case
    by (cases "n \<in> gtk_slots g") (auto simp: less_Suc_eq max_def)
qed

lemma gtk_install_order_last_get_card:
  assumes "gtk_order_ok g"
  shows "sec_prot_keys_gtk_install_order_last_get g = int (card (gtk_slots g))"
proof -
  define r where "r = sec_prot_keys_gtk_install_order_last_get g - 1"
  have r: "\<forall>i \<in> gtk_slots g. int (gtk_order g i) \<le> r"
    "r = -1 \<and> gtk_slots g = {} \<or> (\<exists>i \<in> gtk_slots g. r = int (gtk_order g i))"
    using gtk_last_order_upto [of g 4] gtk_slots_lt
    unfolding r_def sec_prot_keys_gtk_install_order_last_get_def by auto
  have im: "gtk_order g ` gtk_slots g = {..<card (gtk_slots g)}"
    using assms by (simp add: gtk_order_ok_def)
  have "r = int (card (gtk_slots g)) - 1"
  proof (cases "gtk_slots g = {}")
    case True
    with r(2) show ?thesis by simp
  next
    case False
    then have "0 < card (gtk_slots g)" by (simp add: card_gt_0_iff)
    then have "card (gtk_slots g) - 1 \<in> gtk_order g ` gtk_slots g" unfolding im by simp
    then obtain i where "i \<in> gtk_slots g" "gtk_order g i = card (gtk_slots g) - 1" by auto
    with r(1) \<open>0 < card (gtk_slots g)\<close> have "int (card (gtk_slots g)) - 1 \<le> r" by fastforce
    moreover obtain j where "j \<in> gtk_slots g" "r = int (gtk_order g j)" using r(2) False by auto
    moreover have "gtk_order g j < card (gtk_slots g)" using calculation(2) im by blast
    ultimately show ?thesis by linarith
  qed
  then show ?thesis by (simp add: r_def)
qed

lemma card_gtk_slots_lt:
  assumes "i < 4" and "i \<notin> gtk_slots g"
  shows "card (gtk_slots g) < 4"
proof -
  have "gtk_slots g \<subset> {..<4}" using assms by (auto simp: gtk_slots_def)
  from psubset_card_mono [OF _ this] show ?thesis by simp
qed

lemma gtk_set_cases:
  obtains (rejected) "sec_prot_keys_gtk_set g index k life = (-1, g)"
      "k = None \<or> index \<ge> 4 \<or>
       is_set (gtk g ! index) \<and> take GTK_LEN (key (gtk g ! index)) = take GTK_LEN (the k)"
  | (installed) kk g1 where "k = Some kk" "index < 4"
      "\<not> (is_set (gtk g ! index) \<and> take GTK_LEN (key (gtk g ! index)) = take GTK_LEN kk)"
      "g1 = snd (sec_prot_keys_gtk_clear g index)"
      "sec_prot_keys_gtk_set g index k life =
        (0, (gtk_upd index (\<lambda>e. e\<lparr>is_set := True, lifetime := life, status := GTK_STATUS_NEW,
               install_order := word_of_int (sec_prot_keys_gtk_install_order_last_get g1),
               key := take GTK_LEN kk\<rparr>) g1)\<lparr>gtks_updated := True\<rparr>)"
proof (cases "k = None \<or> index \<ge> 4 \<or>
    is_set (gtk g ! index) \<and> take GTK_LEN (key (gtk g ! index)) = take GTK_LEN (the k)")
  case True
  then show ?thesis
    by (intro rejected) (auto simp: sec_prot_keys_gtk_set_def split: option.split)
next
  case False
  then obtain kk where k: "k = Some kk" by auto
  show ?thesis
    by (rule installed [OF k _ _ refl])
      (use False in \<open>simp_all add: k sec_prot_keys_gtk_set_def Let_def not_le\<close>)
qed

lemma gtk_set_spec:
  assumes inv: "gtk_inv g" and "sec_prot_keys_gtk_set g index (Some kk) life = (0, g')"
  shows "index < 4" and "gtk_inv g'" and "gtk_slots g' = insert index (gtk_slots g)"
    and "gtk_order g' index = card (gtk_slots g - {index})"
    and "gtk g' ! index = (gtk g' ! index)\<lparr>is_set := True, lifetime := life,
           status := GTK_STATUS_NEW, key := take GTK_LEN kk\<rparr>"
    and "\<And>i. i < 4 \<Longrightarrow> i \<noteq> index \<Longrightarrow> \<exists>v. gtk g' ! i = (gtk g ! i)\<lparr>install_order := v\<rparr>"
    and "\<And>i j. i \<in> gtk_slots g - {index} \<Longrightarrow> j \<in> gtk_slots g - {index} \<Longrightarrow>
      gtk_order g i < gtk_order g j \<Longrightarrow> gtk_order g' i < gtk_order g' j"
proof -
  obtain g1 where idx: "index < 4" and g1: "g1 = snd (sec_prot_keys_gtk_clear g index)"
    and g': "g' = (gtk_upd index (\<lambda>e. e\<lparr>is_set := True, lifetime := life, status := GTK_STATUS_NEW,
               install_order := word_of_int (sec_prot_keys_gtk_install_order_last_get g1),
               key := take GTK_LEN kk\<rparr>) g1)\<lparr>gtks_updated := True\<rparr>"
    using assms(2) by (cases rule: gtk_set_cases [of g index "Some kk" life]) auto
  note D = gtk_invD [OF inv]
  note C = gtk_clear_spec [OF D(2,1) idx, folded g1]
  note D1 = gtk_invD [OF gtk_clear_inv [OF inv, of index, folded g1]]
  have out: "index \<notin> gtk_slots g1" using C(2) by simp
  have c4: "card (gtk_slots g1) < 4" by (rule card_gtk_slots_lt [OF idx out])
  have ord: "unat (word_of_int (sec_prot_keys_gtk_install_order_last_get g1) :: u2) =
      card (gtk_slots g1)"
    using c4 by (simp add: gtk_install_order_last_get_card [OF C(3)] unat_of_nat)
  have nth: "gtk g' ! i = (if index = i then (gtk g1 ! i)\<lparr>is_set := True, lifetime := life,
      status := GTK_STATUS_NEW,
      install_order := word_of_int (sec_prot_keys_gtk_install_order_last_get g1),
      key := take GTK_LEN kk\<rparr> else gtk g1 ! i)" if "i < 4" for i
    unfolding g' using that by (simp add: nth_list_update C(1))
  show slots: "gtk_slots g' = insert index (gtk_slots g)"
    using C(2) idx nth by (auto simp: gtk_slots_def)
  show order: "gtk_order g' index = card (gtk_slots g - {index})"
    unfolding gtk_order_def nth [OF idx] using ord by (simp add: C(2))
  show "gtk g' ! index = (gtk g' ! index)\<lparr>is_set := True, lifetime := life,
           status := GTK_STATUS_NEW, key := take GTK_LEN kk\<rparr>"
    unfolding nth [OF idx] by simp
  show "\<exists>v. gtk g' ! i = (gtk g ! i)\<lparr>install_order := v\<rparr>" if "i < 4" "i \<noteq> index" for i
    using C(4) [OF that(1)] nth [OF that(1)] that(2) by auto
  have same: "gtk_order g' i = gtk_order g1 i" if "i \<in> gtk_slots g1" for i
    using nth [OF gtk_slots_lt [OF that]] out that by (auto simp: gtk_order_def)
  show "gtk_order g' i < gtk_order g' j" if "i \<in> gtk_slots g - {index}"
    "j \<in> gtk_slots g - {index}" "gtk_order g i < gtk_order g j" for i j
    using that C(5) [of i j] same [of i] same [of j] C(2) by simp
  have "gtk_order g' ` gtk_slots g' = insert (card (gtk_slots g1)) (gtk_order g1 ` gtk_slots g1)"
  proof -
    have s: "gtk_slots g' = insert index (gtk_slots g1)" using slots C(2) by auto
    from same have "gtk_order g' ` gtk_slots g1 = gtk_order g1 ` gtk_slots g1"
      by (rule image_cong [OF refl])
    then show ?thesis unfolding s image_insert using order [folded C(2)] by simp
  qed
  also have "\<dots> = {..<Suc (card (gtk_slots g1))}"
    using C(3) by (auto simp: gtk_order_ok_def)
  also have "Suc (card (gtk_slots g1)) = card (gtk_slots g')"
  proof -
    have "gtk_slots g' = insert index (gtk_slots g1)" using slots C(2) by auto
    with out show ?thesis by simp
  qed
  finally have "gtk_order_ok g'" by (simp add: gtk_order_ok_def)
  then show "gtk_inv g'"
  proof (rule gtk_invI [rotated])
    show "length (gtk g') = 4" unfolding g' using C(1) by simp
  qed (use nth D1(3,4) in \<open>auto split: if_splits\<close>)
qed (use assms(2) in \<open>auto simp: sec_prot_keys_gtk_set_def split: if_splits\<close>)

lemma gtk_set_inv:
  assumes "gtk_inv g"
  shows "gtk_inv (snd (sec_prot_keys_gtk_set g index k life))"
proof (cases rule: gtk_set_cases [of g index k life])
  case rejected
  with assms show ?thesis by simp
next
  case (installed kk g1)
  then show ?thesis using gtk_set_spec(2) [OF assms] by (metis snd_conv)
qed

end
