(* ===== verification/GtkLife.thy ===== *)
theory GtkLife
  imports GtkStore
begin

text \<open>
  The life of the group keys: every operation keeps the invariant of the store, so every
  state a sequence of operations reaches has it; the install order as a queue of slots; which
  key is active; and the comparison with the hashes of the border router.
\<close>

section \<open>Status changes keep the invariant\<close>

lemma gtk_fresh_set_inv: "gtk_inv g \<Longrightarrow> gtk_inv (sec_prot_keys_gtk_status_fresh_set g i)"
  by (auto simp: sec_prot_keys_gtk_status_fresh_set_def not_le intro!: gtk_inv_upd)

lemma gtk_all_fresh_inv:
  assumes "gtk_inv g"
  shows "gtk_inv (sec_prot_keys_gtk_status_all_fresh_set g)"
  unfolding sec_prot_keys_gtk_status_all_fresh_set_def
  by (rule fold_invariant [where Q = "\<lambda>_. True"]) (auto intro: assms gtk_fresh_set_inv)

lemma gtk_new_set_inv: "gtk_inv g \<Longrightarrow> gtk_inv (sec_prot_keys_gtk_status_new_set g i)"
  by (auto simp: sec_prot_keys_gtk_status_new_set_def Let_def not_le intro!: gtk_inv_upd)

lemma gtk_status_set_inv:
  assumes "gtk_inv g" and "ucast s \<noteq> GTK_STATUS_ACTIVE"
  shows "gtk_inv (snd (sec_prot_keys_gtk_status_set g i s))"
  using assms by (auto simp: sec_prot_keys_gtk_status_set_def Let_def not_le intro!: gtk_inv_upd)

lemma gtk_active_to_fresh_inv:
  "gtk_inv g \<Longrightarrow> gtk_inv (snd (sec_prot_keys_gtk_status_active_to_fresh_set g))"
  by (simp add: sec_prot_keys_gtk_status_active_to_fresh_set_def Let_def gtk_status_set_inv)

lemma gtk_expirytime_inv: "gtk_inv g \<Longrightarrow> gtk_inv (snd (sec_prot_keys_gtk_expirytime_set g i t))"
  by (auto simp: sec_prot_keys_gtk_expirytime_set_def not_le dest: gtk_invD(3) intro!: gtk_inv_upd)

lemma gtk_lifetime_decrement_inv:
  assumes "gtk_inv g" and "sec_prot_keys_gtk_lifetime_decrement g i now s en = Some (life, g')"
  shows "gtk_inv g'"
proof -
  let ?f = "\<lambda>k. if lifetime k > ucast s then k\<lparr>lifetime := lifetime k - ucast s\<rparr>
                 else k\<lparr>lifetime := 0\<rparr>"
  note D = gtk_invD [OF assms(1)]
  have i: "i < 4" and g': "gtk_inv g' = gtk_inv (gtk_upd i ?f g)"
    using assms(2) D(1)
    by (auto simp: sec_prot_keys_gtk_lifetime_decrement_def Let_def split: if_splits)
  have "gtk_inv (gtk_upd i ?f g)"
    by (rule gtk_inv_upd [OF assms(1) i])
      (use D(3) [OF i] D(4) [OF i] in \<open>auto split: if_splits\<close>)
  then show ?thesis by (simp only: g')
qed

text \<open>Retiring: the active key becomes old, nothing else changes.\<close>

definition gtk_retired :: "gtk_key_t \<Rightarrow> gtk_key_t" where
  "gtk_retired k = (if status k = GTK_STATUS_ACTIVE then k\<lparr>status := GTK_STATUS_OLD\<rparr> else k)"

lemma gtk_retire_upto:
  assumes "length (gtk g) = 4" and "n \<le> 4"
  shows "length (gtk (fold gtk_retire_active [0..<n] g)) = 4 \<and>
    (\<forall>i < 4. gtk (fold gtk_retire_active [0..<n] g) ! i =
       (if i < n then gtk_retired (gtk g ! i) else gtk g ! i))"
  using assms(2)
proof (induction n)
  case 0
  then show ?case by (simp add: assms(1))
next
  case (Suc n)
  then show ?case
    by (auto simp: gtk_retire_active_def gtk_retired_def nth_list_update less_Suc_eq)
qed

lemma gtk_retire_active_inv:
  assumes "gtk_inv g" and "i < 4"
  shows "gtk_inv (gtk_retire_active i g)"
  using assms gtk_invD(4) [OF assms]
  by (auto simp: gtk_retire_active_def intro!: gtk_inv_upd)

lemma gtk_retire_all_inv: "gtk_inv g \<Longrightarrow> gtk_inv (fold gtk_retire_active [0..<4] g)"
  by (rule fold_invariant [where Q = "\<lambda>i. i < 4"]) (auto intro: gtk_retire_active_inv)

lemma gtk_active_set_cases:
  obtains (refused) "sec_prot_keys_gtk_status_active_set g index = (-1, g)"
      "index \<ge> 4 \<or> \<not> is_set (gtk g ! index) \<or> status (gtk g ! index) \<noteq> GTK_STATUS_FRESH"
  | (activated) "index < 4" "is_set (gtk g ! index)" "status (gtk g ! index) = GTK_STATUS_FRESH"
      "sec_prot_keys_gtk_status_active_set g index =
        (0, gtk_upd index (\<lambda>k. k\<lparr>status := GTK_STATUS_ACTIVE\<rparr>)
              (fold gtk_retire_active [0..<4] g))"
proof (cases "index \<ge> 4 \<or> \<not> is_set (gtk g ! index) \<or> status (gtk g ! index) \<noteq> GTK_STATUS_FRESH")
  case True
  then show ?thesis
    by (intro refused) (auto simp: sec_prot_keys_gtk_status_active_set_def)
next
  case False
  then show ?thesis
    by (intro activated)
      (auto simp: sec_prot_keys_gtk_status_active_set_def not_le simp del: upt_rec_numeral)
qed

lemma gtk_active_set_nth:
  assumes "gtk_inv g" and "sec_prot_keys_gtk_status_active_set g index = (0, g')" and "i < 4"
  shows "gtk g' ! i = (if i = index then (gtk g ! i)\<lparr>status := GTK_STATUS_ACTIVE\<rparr>
                       else gtk_retired (gtk g ! i))"
proof (cases rule: gtk_active_set_cases [of g index])
  case refused
  with assms(2) show ?thesis by simp
next
  case activated
  have R: "length (gtk (fold gtk_retire_active [0..<4] g)) = 4"
    "\<And>i. i < 4 \<Longrightarrow> gtk (fold gtk_retire_active [0..<4] g) ! i = gtk_retired (gtk g ! i)"
    using gtk_retire_upto [OF gtk_invD(1) [OF assms(1)] order_refl] by simp_all
  show ?thesis
    using assms(2,3) activated R
    by (auto simp: nth_list_update gtk_retired_def simp del: upt_rec_numeral)
qed

lemma gtk_active_set_inv: "gtk_inv g \<Longrightarrow> gtk_inv (snd (sec_prot_keys_gtk_status_active_set g i))"
proof (cases rule: gtk_active_set_cases [of g i])
  case activated
  assume g: "gtk_inv g"
  define h where "h = fold gtk_retire_active [0..<4] g"
  have h: "gtk_inv h" unfolding h_def by (rule gtk_retire_all_inv [OF g])
  have nth: "gtk h ! j = gtk_retired (gtk g ! j)" if "j < 4" for j
    using gtk_retire_upto [OF gtk_invD(1) [OF g] order_refl] that unfolding h_def by simp
  have "gtk_inv (gtk_upd i (\<lambda>k. k\<lparr>status := GTK_STATUS_ACTIVE\<rparr>) h)"
    by (rule gtk_inv_upd [OF h activated(1)])
      (use activated nth in \<open>auto simp: gtk_retired_def\<close>)
  then show ?thesis using activated(4) by (simp add: h_def)
qed simp

section \<open>Comparing with the advertised hashes\<close>

text \<open>A slot without its place in the install order.\<close>

definition gtk_content :: "gtk_key_t \<Rightarrow> gtk_key_t" where
  "gtk_content k = k\<lparr>install_order := 0\<rparr>"

lemma gtk_content_fields:
  assumes "gtk_content k = gtk_content k'"
  shows "key k = key k'" "expirytime k = expirytime k'" "lifetime k = lifetime k'"
    "status k = status k'" "is_set k = is_set k'"
  using assms by (cases k; cases k'; simp add: gtk_content_def)+

lemma gtk_content_wiped:
  "gtk_content k = gtk_content k' \<Longrightarrow> gtk_content (gtk_wiped k) = gtk_content (gtk_wiped k')"
  by (drule gtk_content_fields(2)) (simp add: gtk_content_def gtk_wiped_def)

lemma gtk_clear_content:
  assumes "gtk_inv g" and "index < 4" and "i < 4"
  shows "gtk_content (gtk (snd (sec_prot_keys_gtk_clear g index)) ! i) =
    gtk_content (if i = index then gtk_wiped (gtk g ! i) else gtk g ! i)"
  using gtk_clear_spec(4) [OF gtk_invD(2,1) [OF assms(1)] assms(2,3)]
  by (auto simp: gtk_content_def)

text \<open>
  What the hash \<open>h\<close> advertised for a slot means for the key \<open>k\<close> in it: the mismatch to
  report and the slot afterwards.
\<close>

definition gtk_verdict :: "sha256 \<Rightarrow> bytes \<Rightarrow> bytes \<Rightarrow> gtk_key_t \<Rightarrow> gtk_mismatch_e \<times> gtk_key_t" where
  "gtk_verdict sha junk h k =
     (if h = replicate 8 0
      then if is_set k
           then (if lifetime k > GTK_EXPIRE_MISMATCH_TIME then GTK_LIFETIME_MISMATCH
                 else GTK_NO_MISMATCH, gtk_wiped k)
           else (GTK_NO_MISMATCH, k)
      else if \<not> is_set k then (GTK_HASH_MISMATCH, k)
      else if take 8 (snd (sec_prot_lib_gtkhash_generate sha (key k) junk)) = h
      then (GTK_NO_MISMATCH, if status k < GTK_STATUS_FRESH then k\<lparr>status := GTK_STATUS_FRESH\<rparr> else k)
      else (GTK_HASH_MISMATCH, gtk_wiped k))"

lemma gtk_verdict_content:
  assumes "gtk_content k = gtk_content k'"
  shows "fst (gtk_verdict sha junk h k) = fst (gtk_verdict sha junk h k')"
    and "gtk_content (snd (gtk_verdict sha junk h k)) = gtk_content (snd (gtk_verdict sha junk h k'))"
  using assms gtk_content_fields [OF assms] gtk_content_wiped [OF assms]
  by (simp_all add: gtk_verdict_def) (simp add: gtk_content_def)

lemma max_mismatch:
  fixes m :: gtk_mismatch_e
  shows "max m GTK_NO_MISMATCH = m"
    and "max m GTK_HASH_MISMATCH = (if m < GTK_HASH_MISMATCH then GTK_HASH_MISMATCH else m)"
    and "max m GTK_LIFETIME_MISMATCH = (if m < GTK_LIFETIME_MISMATCH then GTK_LIFETIME_MISMATCH else m)"
  by (cases m; simp add: max_def less_eq_gtk_mismatch_e_def less_gtk_mismatch_e_def)+

lemma gtk_hash_update_step_spec:
  fixes sha :: sha256 and junk :: "nat \<Rightarrow> bytes" and gtkhash :: bytes and g :: sec_prot_gtk_keys_t
    and m :: gtk_mismatch_e
  assumes "gtk_inv g" and "i < 4" and "length gtkhash = 32"
  defines "v \<equiv> gtk_verdict sha (junk i) (take 8 (drop (8 * i) gtkhash)) (gtk g ! i)"
    and "r \<equiv> gtk_hash_update_step sha junk gtkhash i (m, g)"
  shows "fst r = max m (fst v)" and "gtk_inv (snd r)"
    and "\<And>j. j < 4 \<Longrightarrow> gtk_content (gtk (snd r) ! j) =
           gtk_content (if j = i then snd v else gtk g ! j)"
proof -
  let ?h = "take 8 (drop (8 * i) gtkhash)"
  have empty: "sec_prot_keys_gtk_hash_empty ?h \<longleftrightarrow> ?h = replicate 8 0"
    using assms(2,3) by (simp add: sec_prot_keys_gtk_hash_empty_def)
  note unfold = r_def v_def gtk_hash_update_step_def gtk_verdict_def empty Let_def
    sec_prot_keys_gtk_is_set_def sec_prot_keys_gtk_get_def sec_prot_keys_gtk_lifetime_get_def
  note len = gtk_invD(1) [OF assms(1)]
  show "fst r = max m (fst v)"
    using assms(2) by (simp add: unfold max_mismatch)
  show "gtk_inv (snd r)"
    using assms(1,2) by (auto simp: unfold gtk_clear_inv gtk_fresh_set_inv)
  fix j :: nat
  assume j: "j < 4"
  note clear = gtk_clear_content [OF assms(1,2) j]
  have fresh: "gtk (sec_prot_keys_gtk_status_fresh_set g i) ! j =
      (if j = i \<and> status (gtk g ! j) < GTK_STATUS_FRESH
       then (gtk g ! j)\<lparr>status := GTK_STATUS_FRESH\<rparr> else gtk g ! j)"
    if "is_set (gtk g ! i)"
    using assms(2) j len that
    by (auto simp: sec_prot_keys_gtk_status_fresh_set_def nth_list_update)
  show "gtk_content (gtk (snd r) ! j) = gtk_content (if j = i then snd v else gtk g ! j)"
    using assms(2) clear fresh by (auto simp: unfold)
qed

lemma gtks_hash_update_upto:
  fixes sha :: sha256 and junk :: "nat \<Rightarrow> bytes" and gtkhash :: bytes and g :: sec_prot_gtk_keys_t
  assumes "gtk_inv g" and "length gtkhash = 32" and "n \<le> 4"
  defines "v \<equiv> \<lambda>i. gtk_verdict sha (junk i) (take 8 (drop (8 * i) gtkhash)) (gtk g ! i)"
    and "r \<equiv> fold (gtk_hash_update_step sha junk gtkhash) [0..<n] (GTK_NO_MISMATCH, g)"
  shows "fst r = fold max (map (\<lambda>i. fst (v i)) [0..<n]) GTK_NO_MISMATCH \<and> gtk_inv (snd r) \<and>
    (\<forall>j < 4. gtk_content (gtk (snd r) ! j) = gtk_content (if j < n then snd (v j) else gtk g ! j))"
  using assms(3) unfolding r_def
proof (induction n)
  case 0
  then show ?case using assms(1) by simp
next
  case (Suc n)
  obtain m h where r: "fold (gtk_hash_update_step sha junk gtkhash) [0..<n] (GTK_NO_MISMATCH, g) = (m, h)"
    by (rule prod.exhaust)
  have IH: "m = fold max (map (\<lambda>i. fst (v i)) [0..<n]) GTK_NO_MISMATCH" "gtk_inv h"
    "\<And>j. j < 4 \<Longrightarrow> gtk_content (gtk h ! j) = gtk_content (if j < n then snd (v j) else gtk g ! j)"
    using Suc r by auto
  have n: "n < 4" using Suc.prems by simp
  define w where "w = gtk_verdict sha (junk n) (take 8 (drop (8 * n) gtkhash)) (gtk h ! n)"
  have w: "fst w = fst (v n)" "gtk_content (snd w) = gtk_content (snd (v n))"
    unfolding w_def v_def by (rule gtk_verdict_content, use IH(3) [OF n] in simp)+
  note S = gtk_hash_update_step_spec [OF IH(2) n assms(2), where m = m and sha = sha and junk = junk, folded w_def]
  show ?case
    using S(1,2) S(3) w IH(1,3) by (auto simp: r less_Suc_eq max.commute)
qed

end
