(* ===== verification/GtkRing.thy ===== *)
theory GtkRing
  imports GtkLife
begin

text \<open>
  The install order as a queue: an abstract key ring, the queue of the slots in use from the
  oldest key to the newest, and the interface through which clients reason about it. The
  renumbering of the C code implements it. The theory ends with the properties of the group
  key store.
\<close>

declare upt_rec_numeral [simp del]

section \<open>The queue of slots\<close>

definition gtk_seq :: "sec_prot_gtk_keys_t \<Rightarrow> nat list" where
  "gtk_seq g = sort_key (gtk_order g) (filter (\<lambda>i. is_set (gtk g ! i)) [0..<4])"

lemma set_gtk_seq [simp]: "set (gtk_seq g) = gtk_slots g"
  by (auto simp: gtk_seq_def gtk_slots_def)

lemma distinct_gtk_seq: "distinct (gtk_seq g)"
  by (simp add: gtk_seq_def)

lemma gtk_seq_sorted:
  assumes "inj_on (gtk_order g) (gtk_slots g)"
  shows "sorted_wrt (<) (map (gtk_order g) (gtk_seq g))"
  unfolding strict_sorted_iff
  using assms by (auto simp: gtk_seq_def distinct_map gtk_slots_def)

lemma gtk_seq_unique:
  assumes "inj_on (gtk_order g) (gtk_slots g)"
    and "sorted_wrt (<) (map (gtk_order g) xs)" and "set xs = gtk_slots g"
  shows "gtk_seq g = xs"
proof -
  have "map (gtk_order g) (gtk_seq g) = map (gtk_order g) xs"
    by (rule strict_sorted_equal [OF assms(2) gtk_seq_sorted [OF assms(1)]]) (simp add: assms(3))
  then show ?thesis
    by (rule map_inj_on) (simp add: assms(1,3))
qed

text \<open>The orders along the queue are the positions in it.\<close>

lemma gtk_seq_orders:
  assumes "gtk_order_ok g"
  shows "map (gtk_order g) (gtk_seq g) = [0..<card (gtk_slots g)]"
  by (rule strict_sorted_equal)
    (use assms in \<open>simp_all add: gtk_seq_sorted gtk_order_ok_inj gtk_order_ok_def atLeast0LessThan\<close>)

lemma length_gtk_seq: "length (gtk_seq g) = card (gtk_slots g)"
  using distinct_card [OF distinct_gtk_seq, of g] by simp

lemma gtk_seq_nth:
  assumes "gtk_order_ok g" and "v < length (gtk_seq g)"
  shows "gtk_order g (gtk_seq g ! v) = v" and "gtk_seq g ! v \<in> gtk_slots g"
  using arg_cong [OF gtk_seq_orders [OF assms(1)], of "\<lambda>xs. xs ! v"] assms(2)
    nth_mem [OF assms(2)]
  by (simp_all add: length_gtk_seq)

lemma gtk_seq_index:
  assumes "gtk_order_ok g" and "i \<in> gtk_slots g"
  shows "gtk_order g i < length (gtk_seq g)" and "gtk_seq g ! gtk_order g i = i"
proof -
  from assms(2) obtain v where v: "v < length (gtk_seq g)" "gtk_seq g ! v = i"
    by (metis in_set_conv_nth set_gtk_seq)
  with gtk_seq_nth [OF assms(1) v(1)]
  show "gtk_order g i < length (gtk_seq g)" "gtk_seq g ! gtk_order g i = i" by auto
qed

lemma sorted_wrt_filter_map:
  assumes "sorted_wrt (<) (map f xs)"
    and "\<And>a b. a \<in> set xs \<Longrightarrow> b \<in> set xs \<Longrightarrow> P a \<Longrightarrow> P b \<Longrightarrow> f a < f b \<Longrightarrow> h a < (h b :: nat)"
  shows "sorted_wrt (<) (map h (filter P xs))"
  using assms by (induction xs) auto

lemma gtk_clear_seq:
  assumes "gtk_inv g" and "index < 4"
  shows "gtk_seq (snd (sec_prot_keys_gtk_clear g index)) = filter (\<lambda>j. j \<noteq> index) (gtk_seq g)"
proof -
  note D = gtk_invD [OF assms(1)]
  note C = gtk_clear_spec [OF D(2,1) assms(2)]
  show ?thesis
  proof (rule gtk_seq_unique [OF gtk_order_ok_inj [OF C(3)]])
    show "sorted_wrt (<) (map (gtk_order (snd (sec_prot_keys_gtk_clear g index)))
        (filter (\<lambda>j. j \<noteq> index) (gtk_seq g)))"
      by (rule sorted_wrt_filter_map [OF gtk_seq_sorted [OF gtk_order_ok_inj [OF D(2)]]])
        (use C(2,5) in auto)
  qed (use C(2) in auto)
qed

lemma gtk_set_seq:
  assumes "gtk_inv g" and "sec_prot_keys_gtk_set g index (Some k) life = (0, g')"
  shows "gtk_seq g' = filter (\<lambda>j. j \<noteq> index) (gtk_seq g) @ [index]"
proof -
  note D = gtk_invD [OF assms(1)]
  note S = gtk_set_spec [OF assms]
  note D' = gtk_invD [OF S(2)]
  have inj: "inj_on (gtk_order g') (gtk_slots g')" by (rule gtk_order_ok_inj [OF D'(2)])
  have last: "gtk_order g' a < gtk_order g' index" if a: "a \<in> gtk_slots g" "a \<noteq> index" for a
  proof -
    have "gtk_order g' a \<in> {..<card (gtk_slots g')}"
      using D'(2) a(1) S(3) unfolding gtk_order_ok_def by blast
    moreover have "card (gtk_slots g') = Suc (card (gtk_slots g - {index}))"
      by (simp add: S(3) card.insert_remove)
    moreover have "gtk_order g' a \<noteq> gtk_order g' index"
      using inj_onD [OF inj, of a index] a S(3) by blast
    ultimately show ?thesis using S(4) by auto
  qed
  show ?thesis
  proof (rule gtk_seq_unique [OF inj])
    have "sorted_wrt (<) (map (gtk_order g') (filter (\<lambda>j. j \<noteq> index) (gtk_seq g)))"
      by (rule sorted_wrt_filter_map [OF gtk_seq_sorted [OF gtk_order_ok_inj [OF D(2)]]])
        (use S(7) in auto)
    then show "sorted_wrt (<) (map (gtk_order g') (filter (\<lambda>j. j \<noteq> index) (gtk_seq g) @ [index]))"
      using last by (auto simp: sorted_wrt_append)
  qed (use S(3) in auto)
qed

section \<open>The interface of a key ring\<close>

text \<open>
  A key ring of slots: installing a key moves its slot to the end of the queue, removing one
  takes its slot out of the queue. \<open>install\<close> and \<open>remove\<close> may refuse.
\<close>

primrec ring_installs :: "('s \<Rightarrow> nat \<Rightarrow> 'k \<Rightarrow> 's option) \<Rightarrow> (nat \<times> 'k) list \<Rightarrow> 's \<Rightarrow> 's option" where
  "ring_installs install [] s = Some s"
| "ring_installs install (ik # iks) s =
     (case install s (fst ik) (snd ik) of None \<Rightarrow> None | Some s' \<Rightarrow> ring_installs install iks s')"

locale key_ring =
  fixes ok :: "'s \<Rightarrow> bool" and ring :: "'s \<Rightarrow> nat list"
    and install :: "'s \<Rightarrow> nat \<Rightarrow> 'k \<Rightarrow> 's option" and remove :: "'s \<Rightarrow> nat \<Rightarrow> 's option"
  assumes ring_distinct: "ok s \<Longrightarrow> distinct (ring s)"
    and install_ok: "ok s \<Longrightarrow> install s i k = Some s' \<Longrightarrow> ok s'"
    and install_ring: "ok s \<Longrightarrow> install s i k = Some s' \<Longrightarrow>
          ring s' = filter (\<lambda>j. j \<noteq> i) (ring s) @ [i]"
    and remove_ok: "ok s \<Longrightarrow> remove s i = Some s' \<Longrightarrow> ok s'"
    and remove_ring: "ok s \<Longrightarrow> remove s i = Some s' \<Longrightarrow> ring s' = filter (\<lambda>j. j \<noteq> i) (ring s)"
begin

lemma installs_ok:
  assumes "ok s" and "ring_installs install iks s = Some s'"
  shows "ok s'"
  using assms by (induction iks arbitrary: s) (auto split: option.splits intro: install_ok)

lemma remdups_move:
  assumes "distinct xs"
  shows "remdups (filter (\<lambda>j. j \<noteq> i) xs @ i # ys) = remdups (xs @ i # ys)"
  using assms by (induction xs) auto

text \<open>After a run of installs the queue holds every slot at the place of its last install.\<close>

lemma installs_ring:
  assumes "ok s" and "ring_installs install iks s = Some s'"
  shows "ring s' = remdups (ring s @ map fst iks)"
  using assms
proof (induction iks arbitrary: s)
  case Nil
  then show ?case by (simp add: ring_distinct distinct_remdups_id)
next
  case (Cons ik iks)
  then obtain s1 where s1: "install s (fst ik) (snd ik) = Some s1"
    and r: "ring_installs install iks s1 = Some s'"
    by (auto split: option.splits)
  have "ring s' = remdups (ring s1 @ map fst iks)"
    by (rule Cons.IH [OF install_ok [OF Cons.prems(1) s1] r])
  then show ?case
    by (simp add: install_ring [OF Cons.prems(1) s1] remdups_move [OF ring_distinct [OF Cons.prems(1)]])
qed

lemma install_newest: "ok s \<Longrightarrow> install s i k = Some s' \<Longrightarrow> last (ring s') = i"
  by (simp add: install_ring)

lemma remove_gone: "ok s \<Longrightarrow> remove s i = Some s' \<Longrightarrow> i \<notin> set (ring s')"
  by (simp add: remove_ring)

end

definition gtk_install :: "sec_prot_gtk_keys_t \<Rightarrow> nat \<Rightarrow> bytes \<times> u32 \<Rightarrow> sec_prot_gtk_keys_t option" where
  "gtk_install g i kl =
     (let (ret, g') = sec_prot_keys_gtk_set g i (Some (fst kl)) (snd kl)
      in if ret = 0 then Some g' else None)"

definition gtk_remove :: "sec_prot_gtk_keys_t \<Rightarrow> nat \<Rightarrow> sec_prot_gtk_keys_t option" where
  "gtk_remove g i = (let (ret, g') = sec_prot_keys_gtk_clear g i in if ret = 0 then Some g' else None)"

lemma gtk_install_Some:
  "gtk_install g i kl = Some g' \<longleftrightarrow> sec_prot_keys_gtk_set g i (Some (fst kl)) (snd kl) = (0, g')"
  by (auto simp: gtk_install_def split: prod.splits if_splits)

lemma gtk_remove_Some:
  "gtk_remove g i = Some g' \<longleftrightarrow> i < 4 \<and> g' = snd (sec_prot_keys_gtk_clear g i)"
  by (auto simp: gtk_remove_def sec_prot_keys_gtk_clear_def Let_def)

interpretation gtkring: key_ring gtk_inv gtk_seq gtk_install gtk_remove
proof unfold_locales
  show "gtk_inv g \<Longrightarrow> distinct (gtk_seq g)" for g
    by (rule distinct_gtk_seq)
  show "gtk_inv g \<Longrightarrow> gtk_install g i k = Some g' \<Longrightarrow> gtk_inv g'" for g i k g'
    by (simp add: gtk_install_Some gtk_set_spec(2))
  show "gtk_inv g \<Longrightarrow> gtk_install g i k = Some g' \<Longrightarrow>
      gtk_seq g' = filter (\<lambda>j. j \<noteq> i) (gtk_seq g) @ [i]" for g i k g'
    by (simp add: gtk_install_Some gtk_set_seq)
  show "gtk_inv g \<Longrightarrow> gtk_remove g i = Some g' \<Longrightarrow> gtk_inv g'" for g i g'
    by (simp add: gtk_remove_Some gtk_clear_inv)
  show "gtk_inv g \<Longrightarrow> gtk_remove g i = Some g' \<Longrightarrow> gtk_seq g' = filter (\<lambda>j. j \<noteq> i) (gtk_seq g)" for g i g'
    by (simp add: gtk_remove_Some gtk_clear_seq)
qed

section \<open>Finding keys by their order\<close>

lemma find_index_upt:
  "find_index P [0..<n] = Some i \<longleftrightarrow> i < n \<and> P i \<and> (\<forall>j < i. \<not> P j)"
  by (auto simp: find_index_Some)

lemma gtk_nth_index_get:
  assumes "gtk_order_ok g" and v: "v < 4"
  shows "(case find_index (\<lambda>i. sec_prot_keys_gtk_is_set g i
      \<and> install_order (gtk g ! i) = word_of_nat v) [0..<4] of Some i \<Rightarrow> int i | None \<Rightarrow> -1) =
    (if v < length (gtk_seq g) then int (gtk_seq g ! v) else -1)"
proof -
  let ?P = "\<lambda>i. sec_prot_keys_gtk_is_set g i \<and> install_order (gtk g ! i) = word_of_nat v"
  have "unat (word_of_nat v :: u2) = v" using v by (simp add: unat_of_nat)
  then have "install_order (gtk g ! i) = word_of_nat v \<longleftrightarrow> gtk_order g i = v" for i
    unfolding gtk_order_def by (metis word_unat_eq_iff)
  then have P: "?P = (\<lambda>i. i \<in> gtk_slots g \<and> gtk_order g i = v)"
    unfolding gtk_slots_iff by (intro ext) blast
  have uniq: "gtk_seq g ! v = i \<and> v < length (gtk_seq g)"
    if "i \<in> gtk_slots g \<and> gtk_order g i = v" for i
    using gtk_seq_index [OF assms(1) conjunct1 [OF that]] unfolding conjunct2 [OF that] by simp
  show ?thesis
  proof (cases "v < length (gtk_seq g)")
    case True
    note S = gtk_seq_nth [OF assms(1) True]
    have "find_index ?P [0..<4] = Some (gtk_seq g ! v)"
      unfolding P find_index_upt
    proof (intro conjI allI impI)
      fix j
      assume "j < gtk_seq g ! v"
      then show "\<not> (j \<in> gtk_slots g \<and> gtk_order g j = v)" using uniq [of j] by linarith
    qed (simp_all add: S gtk_slots_lt [OF S(2)])
    then show ?thesis using True by (simp del: upt_rec_numeral)
  next
    case False
    then have "find_index ?P [0..<4] = None"
      unfolding P find_index_None using uniq by blast
    then show ?thesis using False by (simp del: upt_rec_numeral find_index_None)
  qed
qed

lemma gtk_first_index_get:
  assumes "gtk_order_ok g"
  shows "sec_prot_keys_gtk_install_order_first_index_get g =
    (if gtk_seq g = [] then -1 else int (hd (gtk_seq g)))"
  using gtk_nth_index_get [OF assms, of 0]
  by (simp add: sec_prot_keys_gtk_install_order_first_index_get_def hd_conv_nth del: upt_rec_numeral)

lemma gtk_last_index_upto:
  fixes g :: sec_prot_gtk_keys_t
  defines "step \<equiv> \<lambda>i (order, index). if sec_prot_keys_gtk_is_set g i
      then if uint (install_order (gtk g ! i)) > order then (uint (install_order (gtk g ! i)), int i)
           else (order, index)
      else (order, index)"
  shows "(\<forall>i \<in> gtk_slots g. i < n \<longrightarrow> int (gtk_order g i) \<le> fst (fold step [0..<n] (-1, -1))) \<and>
    (fold step [0..<n] (-1, -1) = (-1, -1) \<and> (\<forall>i \<in> gtk_slots g. \<not> i < n) \<or>
     (\<exists>i \<in> gtk_slots g. fold step [0..<n] (-1, -1) = (int (gtk_order g i), int i)))"
proof (induction n)
  case 0
  then show ?case by simp
next
  case (Suc n)
  define r where "r = fold step [0..<n] (-1, -1)"
  have step: "fold step [0..<Suc n] (-1, -1) =
      (if n \<in> gtk_slots g \<and> int (gtk_order g n) > fst r then (int (gtk_order g n), int n) else r)"
  proof -
    have "fold step [0..<Suc n] (-1, -1) = step n r" by (simp add: r_def)
    then show ?thesis by (cases r) (simp add: step_def gtk_slots_iff gtk_order_def)
  qed
  show ?case
    using Suc unfolding step r_def [symmetric] by (auto simp: less_Suc_eq)
qed

lemma gtk_last_index_get:
  assumes "gtk_order_ok g"
  shows "sec_prot_keys_gtk_install_order_last_index_get g =
    (if gtk_seq g = [] then -1 else int (last (gtk_seq g)))"
proof -
  let ?r = "sec_prot_keys_gtk_install_order_last_index_get g"
  have L: "gtk_slots g = {} \<and> ?r = -1 \<or>
      (\<exists>i \<in> gtk_slots g. ?r = int i \<and> (\<forall>j \<in> gtk_slots g. gtk_order g j \<le> gtk_order g i))"
  proof -
    define r where "r = fold (\<lambda>i (order, index). if sec_prot_keys_gtk_is_set g i
      then if uint (install_order (gtk g ! i)) > order then (uint (install_order (gtk g ! i)), int i)
           else (order, index)
      else (order, index)) [0..<4] (-1, -1)"
    have "?r = snd r"
      by (simp only: sec_prot_keys_gtk_install_order_last_index_get_def r_def)
    with gtk_last_index_upto [of g 4, folded r_def] gtk_slots_lt [of _ g] show ?thesis
      by (cases r) auto
  qed
  have ne: "gtk_seq g = [] \<longleftrightarrow> gtk_slots g = {}" by (metis set_empty set_gtk_seq)
  show ?thesis
  proof (cases "gtk_slots g = {}")
    case True
    with L ne show ?thesis by auto
  next
    case False
    with L obtain i where i: "i \<in> gtk_slots g" "?r = int i"
      "\<And>j. j \<in> gtk_slots g \<Longrightarrow> gtk_order g j \<le> gtk_order g i" by auto
    let ?n = "length (gtk_seq g) - 1"
    have n: "?n < length (gtk_seq g)" using False ne by (simp add: length_greater_0_conv)
    note S = gtk_seq_nth [OF assms n]
    have "gtk_order g i = ?n"
      using i(3) [OF S(2)] S(1) gtk_seq_index(1) [OF assms i(1)] by linarith
    with gtk_seq_index(2) [OF assms i(1)] have "i = last (gtk_seq g)"
      using False ne by (simp add: last_conv_nth)
    with i(2) False ne show ?thesis by simp
  qed
qed

lemma gtk_free_index_loop_free:
  assumes "i < 4" and "f < 4" and "\<not> sec_prot_keys_gtk_is_set g f"
  shows "\<exists>j < 4. gtk_free_index_loop g 4 i r = int j \<and> \<not> sec_prot_keys_gtk_is_set g j"
proof -
  have "i \<in> {0, 1, 2, 3}" "f \<in> {0, 1, 2, 3}" using assms(1,2) by auto
  with assms(3) show ?thesis by (auto simp: eval_nat_numeral)
qed

lemma gtk_free_index_loop_full:
  assumes "\<And>j. j < 4 \<Longrightarrow> sec_prot_keys_gtk_is_set g j" and "i < 4"
  shows "gtk_free_index_loop g n i r = r"
  using assms(2) by (induction n arbitrary: i) (use assms(1) in auto)

section \<open>Reachable stores\<close>

text \<open>
  The states the operations reach from an initialised store, in any order and with any
  arguments. \<open>sec_prot_keys_gtk_status_set\<close> and
  \<open>sec_prot_keys_gtk_install_order_set\<close> restore stored values without a check: the first is
  included for every status but active, the second is left out.
\<close>

inductive gtk_reach :: "sha256 \<Rightarrow> sec_prot_gtk_keys_t \<Rightarrow> bool" for sha where
  init: "gtk_reach sha (sec_prot_keys_gtks_init g)"
| clear_all: "gtk_reach sha g \<Longrightarrow> gtk_reach sha (sec_prot_keys_gtks_clear g)"
| set: "gtk_reach sha g \<Longrightarrow> gtk_reach sha (snd (sec_prot_keys_gtk_set g index k life))"
| clear: "gtk_reach sha g \<Longrightarrow> gtk_reach sha (snd (sec_prot_keys_gtk_clear g index))"
| lifetime: "gtk_reach sha g \<Longrightarrow>
    sec_prot_keys_gtk_lifetime_decrement g index now seconds enable = Some (life, g') \<Longrightarrow>
    gtk_reach sha g'"
| expirytime: "gtk_reach sha g \<Longrightarrow> gtk_reach sha (snd (sec_prot_keys_gtk_expirytime_set g index t))"
| updated_set: "gtk_reach sha g \<Longrightarrow> gtk_reach sha (sec_prot_keys_gtks_updated_set g)"
| updated_reset: "gtk_reach sha g \<Longrightarrow> gtk_reach sha (sec_prot_keys_gtks_updated_reset g)"
| fresh: "gtk_reach sha g \<Longrightarrow> gtk_reach sha (sec_prot_keys_gtk_status_fresh_set g index)"
| all_fresh: "gtk_reach sha g \<Longrightarrow> gtk_reach sha (sec_prot_keys_gtk_status_all_fresh_set g)"
| active: "gtk_reach sha g \<Longrightarrow> gtk_reach sha (snd (sec_prot_keys_gtk_status_active_set g index))"
| active_to_fresh: "gtk_reach sha g \<Longrightarrow>
    gtk_reach sha (snd (sec_prot_keys_gtk_status_active_to_fresh_set g))"
| new: "gtk_reach sha g \<Longrightarrow> gtk_reach sha (sec_prot_keys_gtk_status_new_set g index)"
| status: "gtk_reach sha g \<Longrightarrow> ucast s \<noteq> GTK_STATUS_ACTIVE \<Longrightarrow>
    gtk_reach sha (snd (sec_prot_keys_gtk_status_set g index s))"
| hash_update: "gtk_reach sha g \<Longrightarrow> length gtkhash = 32 \<Longrightarrow>
    gtk_reach sha (snd (sec_prot_keys_gtks_hash_update sha junk default_auth g gtkhash))"

lemma gtks_hash_update_inv:
  assumes "gtk_inv g" and "length gtkhash = 32"
  shows "gtk_inv (snd (sec_prot_keys_gtks_hash_update sha junk default_auth g gtkhash))"
  using gtks_hash_update_upto [OF assms order_refl, of sha junk] assms(1)
  by (simp add: sec_prot_keys_gtks_hash_update_def del: upt_rec_numeral)

lemma gtk_reach_gtk_inv: "gtk_reach sha g \<Longrightarrow> gtk_inv g"
  by (induction rule: gtk_reach.induct)
    (auto simp: gtks_clear_init gtk_inv_init gtk_set_inv gtk_clear_inv gtk_lifetime_decrement_inv
      gtk_expirytime_inv sec_prot_keys_gtks_updated_set_def sec_prot_keys_gtks_updated_reset_def
      gtk_fresh_set_inv gtk_all_fresh_inv gtk_active_set_inv gtk_active_to_fresh_inv gtk_new_set_inv
      gtk_status_set_inv gtks_hash_update_inv)

lemma unat_ucast_u2: "unat (ucast (x :: u2) :: u8) = unat x"
proof -
  have "unat x < 4" using unsigned_less [of x] by simp
  then show ?thesis by (simp add: unsigned_ucast_eq take_bit_nat_eq_self)
qed

lemma active_get_iff:
  assumes "gtk_inv g" and "i < 4"
  shows "status (gtk g ! i) = GTK_STATUS_ACTIVE \<longleftrightarrow> sec_prot_keys_gtk_status_active_get g = int i"
proof (cases "find_index (\<lambda>i. status (gtk g ! i) = GTK_STATUS_ACTIVE) [0..<4]")
  case None
  then show ?thesis
    using assms(2) None [unfolded find_index_None]
    unfolding sec_prot_keys_gtk_status_active_get_def None by auto
next
  case (Some j)
  then have "j < 4" "status (gtk g ! j) = GTK_STATUS_ACTIVE" by (simp_all only: find_index_upt)
  then show ?thesis
    using gtk_invD(3) [OF assms(1,2), of j]
    unfolding sec_prot_keys_gtk_status_active_get_def Some by auto
qed





text \<open>
  Activating a key: \<open>sec_prot_keys_gtk_status_active_set\<close> succeeds exactly for a fresh key;
  then that key is the active one, the key that was active before becomes old, and every other
  slot is left alone. When it fails it changes nothing.
\<close>

lemma gtk_active_set_spec:
  fixes index :: nat
  assumes "gtk_reach sha g"
  defines "r \<equiv> sec_prot_keys_gtk_status_active_set g index"
  shows "fst r = (if index < 4 \<and> is_set (gtk g ! index) \<and> status (gtk g ! index) = GTK_STATUS_FRESH
                  then 0 else -1) \<and>
    (fst r \<noteq> 0 \<longrightarrow> snd r = g) \<and>
    (fst r = 0 \<longrightarrow> sec_prot_keys_gtk_status_active_get (snd r) = int index) \<and>
    (\<forall>i. fst r = 0 \<longrightarrow> i < 4 \<longrightarrow> i \<noteq> index \<longrightarrow> gtk (snd r) ! i =
       (if status (gtk g ! i) = GTK_STATUS_ACTIVE then (gtk g ! i)\<lparr>status := GTK_STATUS_OLD\<rparr>
        else gtk g ! i))"
proof (intro conjI impI allI)
  note inv = gtk_reach_gtk_inv [OF assms(1)]
  have "fst r = (if index < 4 \<and> is_set (gtk g ! index) \<and> status (gtk g ! index) = GTK_STATUS_FRESH
      then 0 else -1) \<and> (fst r \<noteq> 0 \<longrightarrow> snd r = g)"
  proof (cases rule: gtk_active_set_cases [of g index])
    case refused
    then show ?thesis unfolding r_def refused(1) by auto
  next
    case activated
    show ?thesis unfolding r_def activated(4) fst_conv using activated(1-3) by simp
  qed
  then show ret: "fst r = (if index < 4 \<and> is_set (gtk g ! index) \<and> status (gtk g ! index) = GTK_STATUS_FRESH
      then 0 else -1)" and "fst r \<noteq> 0 \<Longrightarrow> snd r = g"
    by blast+
  assume "fst r = 0"
  then have r: "sec_prot_keys_gtk_status_active_set g index = (0, snd r)"
    unfolding r_def by (metis prod.collapse)
  have index: "index < 4" using \<open>fst r = 0\<close> ret by (simp split: if_splits)
  have "gtk_inv (snd r)" unfolding r_def by (rule gtk_active_set_inv [OF inv])
  then show "sec_prot_keys_gtk_status_active_get (snd r) = int index"
    using gtk_active_set_nth [OF inv r index] by (simp flip: active_get_iff [OF _ index])
  show "gtk (snd r) ! i = (if status (gtk g ! i) = GTK_STATUS_ACTIVE
      then (gtk g ! i)\<lparr>status := GTK_STATUS_OLD\<rparr> else gtk g ! i)" if "i < 4" "i \<noteq> index" for i
    using gtk_active_set_nth [OF inv r that(1)] that(2) by (simp add: gtk_retired_def)
qed

definition gtk_example :: sec_prot_gtk_keys_t where
  "gtk_example = sec_prot_keys_gtk_status_all_fresh_set
     (snd (sec_prot_keys_gtk_set (snd (sec_prot_keys_gtk_set
        (sec_prot_keys_gtks_init \<lparr>gtk = [], gtks_updated = True\<rparr>)
        0 (Some (replicate 16 5)) 100)) 2 (Some (replicate 16 6)) 200))"

lemma gtk_example_reach: "gtk_reach sha gtk_example"
  unfolding gtk_example_def by (rule gtk_reach.all_fresh gtk_reach.set gtk_reach.init)+

lemma gtks_hash_update_slots:
  assumes "gtk_inv g" and "length gtkhash = 32"
    and "sec_prot_keys_gtks_hash_update sha junk True g gtkhash = (mismatch, g')"
  shows "mismatch = Max ((\<lambda>i. fst (gtk_verdict sha (junk i) (take 8 (drop (8 * i) gtkhash)) (gtk g ! i)))
            ` {..<4})"
    and "\<forall>i < 4. gtk_content (gtk g' ! i) =
           gtk_content (snd (gtk_verdict sha (junk i) (take 8 (drop (8 * i) gtkhash)) (gtk g ! i)))"
proof -
  let ?v = "\<lambda>i. gtk_verdict sha (junk i) (take 8 (drop (8 * i) gtkhash)) (gtk g ! i)"
  note U = gtks_hash_update_upto [OF assms(1,2) order_refl, of sha junk]
  have r: "fold (gtk_hash_update_step sha junk gtkhash) [0..<4] (GTK_NO_MISMATCH, g) = (mismatch, g')"
    using assms(3) by (simp only: sec_prot_keys_gtks_hash_update_def if_True)
  show "\<forall>i < 4. gtk_content (gtk g' ! i) = gtk_content (snd (?v i))"
    using U unfolding r by simp
  have "mismatch = fold max (map (\<lambda>i. fst (?v i)) [0..<4]) GTK_NO_MISMATCH"
    using U unfolding r by (simp del: upt_rec_numeral)
  also have "\<dots> = Max (insert GTK_NO_MISMATCH ((\<lambda>i. fst (?v i)) ` {..<4}))"
    using Max.set_eq_fold [of GTK_NO_MISMATCH "map (\<lambda>i. fst (?v i)) [0..<4]"]
    by (simp add: atLeast0LessThan del: upt_rec_numeral)
  also have "\<dots> = Max ((\<lambda>i. fst (?v i)) ` {..<4})"
  proof -
    have "{..<4::nat} \<noteq> {}" by (auto simp: lessThan_empty_iff)
    then show ?thesis by (subst Max_insert) (auto simp: max.commute [of GTK_NO_MISMATCH] max_mismatch(1))
  qed
  finally show "mismatch = Max ((\<lambda>i. fst (?v i)) ` {..<4})" .
qed

text \<open>
  C21: A node compares its keys with the four hashes the border router advertises. The mismatch
  \<open>sec_prot_keys_gtks_hash_update\<close> reports is the most serious one of the four slots, and a slot
  is afterwards as its own hash demands: a key with another hash, or whose hash is empty, is
  wiped, a key whose hash matches is kept and fresh, an empty slot stays empty. The slots do not
  influence each other, apart from the install order.
\<close>

theorem gtks_hash_update_spec:
  assumes "gtk_reach sha' g" and "length gtkhash = 32"
    and "sec_prot_keys_gtks_hash_update sha junk True g gtkhash = (mismatch, g')"
  shows "mismatch = Max ((\<lambda>i. fst (gtk_verdict sha (junk i) (take 8 (drop (8 * i) gtkhash)) (gtk g ! i)))
       ` {..<4}) \<and>
    (\<forall>i < 4. gtk_content (gtk g' ! i) =
       gtk_content (snd (gtk_verdict sha (junk i) (take 8 (drop (8 * i) gtkhash)) (gtk g ! i))))"
  by (intro conjI gtks_hash_update_slots [OF gtk_reach_gtk_inv [OF assms(1)] assms(2,3)])

theorem gtks_hash_update_spec_witness:
  "fst (sec_prot_keys_gtks_hash_update (\<lambda>m. Some (replicate 32 7)) (\<lambda>_. []) True gtk_example
     (replicate 8 7 @ replicate 24 0)) = GTK_LIFETIME_MISMATCH"
proof -
  let ?r = "sec_prot_keys_gtks_hash_update (\<lambda>m. Some (replicate 32 7)) (\<lambda>_. []) True gtk_example
     (replicate 8 7 @ replicate 24 0)"
  let ?v = "\<lambda>i. gtk_verdict (\<lambda>m. Some (replicate 32 7)) []
     (take 8 (drop (8 * i) (replicate 8 7 @ replicate 24 0))) (gtk gtk_example ! i)"
  have set: "{..<4::nat} = {0, 1, 2, 3}" by auto
  have "fst (?v 0) = GTK_NO_MISMATCH" "fst (?v 1) = GTK_NO_MISMATCH"
    "fst (?v 2) = GTK_LIFETIME_MISMATCH" "fst (?v 3) = GTK_NO_MISMATCH"
    by code_simp+
  then have "Max ((\<lambda>i. fst (?v i)) ` {..<4}) = GTK_LIFETIME_MISMATCH"
    unfolding set by (simp add: max_mismatch less_eq_gtk_mismatch_e_def less_gtk_mismatch_e_def max_def)
  with gtks_hash_update_spec [OF gtk_example_reach [of "\<lambda>m. None"] _ prod.collapse [symmetric, of ?r]]
  show ?thesis by simp
qed

text \<open>The hash of a key, when the digest works.\<close>

definition gtk_hash :: "sha256 \<Rightarrow> bytes \<Rightarrow> bytes" where
  "gtk_hash sha k = take 8 (drop 24 (the (sha (take 16 k))))"

lemma gtkhash_generate_ok:
  assumes "sha256_ok sha"
  shows "sec_prot_lib_gtkhash_generate sha k old = (0, gtk_hash sha k)" and "length (gtk_hash sha k) = 8"
proof -
  obtain d where "sha (take 16 k) = Some d" "length d = 32"
    using assms unfolding sha256_ok_def by blast
  then show "sec_prot_lib_gtkhash_generate sha k old = (0, gtk_hash sha k)"
    and "length (gtk_hash sha k) = 8"
    by (simp_all add: sec_prot_lib_gtkhash_generate_def gtk_hash_def)
qed

lemma concat_slice:
  assumes "\<And>i. length (h i) = n" and "i < m"
  shows "take n (drop (n * i) (concat (map h [0..<m]))) = h i"
proof -
  have len: "length (concat (map h [0..<j])) = n * j" for j
    using assms(1) by (induction j) simp_all
  have split: "[0..<m] = [0..<i] @ i # [Suc i..<m]"
    using upt_add_eq_append [of 0 i "m - i"] upt_conv_Cons [of i m] assms(2) by simp
  show ?thesis
    unfolding split by (simp add: len assms(1))
qed

lemma hash_generate_concat:
  assumes "sha256_ok sha"
  shows "sec_prot_keys_gtks_hash_generate sha br = concat (map (\<lambda>i.
      case sec_prot_keys_gtk_get br i of None \<Rightarrow> replicate 8 0 | Some k \<Rightarrow> gtk_hash sha k) [0..<4])"
  unfolding sec_prot_keys_gtks_hash_generate_def
  by (intro arg_cong [where f = concat] map_cong refl)
    (simp add: gtkhash_generate_ok [OF assms] sec_prot_keys_gtk_is_set_def sec_prot_keys_gtk_get_def)

lemma hash_generate_slice:
  assumes "sha256_ok sha"
  shows "length (sec_prot_keys_gtks_hash_generate sha br) = 32"
    and "i < 4 \<Longrightarrow> take 8 (drop (8 * i) (sec_prot_keys_gtks_hash_generate sha br)) =
      (case sec_prot_keys_gtk_get br i of None \<Rightarrow> replicate 8 0 | Some k \<Rightarrow> gtk_hash sha k)"
proof -
  let ?h = "\<lambda>i. case sec_prot_keys_gtk_get br i of None \<Rightarrow> replicate 8 0 | Some k \<Rightarrow> gtk_hash sha k"
  have len: "length (?h i) = 8" for i
    by (simp add: gtkhash_generate_ok(2) [OF assms] split: option.split)
  show "i < 4 \<Longrightarrow> take 8 (drop (8 * i) (sec_prot_keys_gtks_hash_generate sha br)) = ?h i"
    unfolding hash_generate_concat [OF assms] by (rule concat_slice [where h = ?h, OF len])
  show "length (sec_prot_keys_gtks_hash_generate sha br) = 32"
    unfolding hash_generate_concat [OF assms] length_concat map_map comp_def len
    by (simp add: sum_list_triv)
qed

text \<open>A key whose hash is the advertised one is kept, and an empty slot with an empty hash too.\<close>

lemma gtk_verdict_match:
  fixes junk :: bytes
  assumes "sha256_ok sha" and "i < 4"
    and "\<And>k. sec_prot_keys_gtk_get g i = Some k \<Longrightarrow> gtk_hash sha k \<noteq> replicate 8 0"
  defines "v \<equiv> gtk_verdict sha junk (case sec_prot_keys_gtk_get g i of None \<Rightarrow> replicate 8 0
      | Some k \<Rightarrow> gtk_hash sha k) (gtk g ! i)"
  shows "fst v = GTK_NO_MISMATCH" and "is_set (snd v) = is_set (gtk g ! i)"
    and "key (snd v) = key (gtk g ! i)" and "is_set (snd v) \<Longrightarrow> status (snd v) \<noteq> GTK_STATUS_NEW"
proof -
  have fresh: "\<not> s < GTK_STATUS_FRESH \<Longrightarrow> s \<noteq> GTK_STATUS_NEW" for s :: u2 by auto
  have "fst v = GTK_NO_MISMATCH \<and> is_set (snd v) = is_set (gtk g ! i) \<and>
      key (snd v) = key (gtk g ! i) \<and> (is_set (snd v) \<longrightarrow> status (snd v) \<noteq> GTK_STATUS_NEW)"
  proof (cases "is_set (gtk g ! i)")
    case False
    with assms(2) show ?thesis by (simp add: v_def gtk_verdict_def sec_prot_keys_gtk_get_def)
  next
    case True
    with assms(2) have k: "sec_prot_keys_gtk_get g i = Some (key (gtk g ! i))"
      by (simp add: sec_prot_keys_gtk_get_def)
    show ?thesis
      using True assms(3) [OF k] fresh gtkhash_generate_ok [OF assms(1)]
      unfolding v_def k by (simp add: gtk_verdict_def)
  qed
  then show "fst v = GTK_NO_MISMATCH" and "is_set (snd v) = is_set (gtk g ! i)"
    and "key (snd v) = key (gtk g ! i)" and "is_set (snd v) \<Longrightarrow> status (snd v) \<noteq> GTK_STATUS_NEW"
    by blast+
qed

text \<open>
  C28: Round trip of the advertised hashes: a node whose keys are those of the border router
  finds no mismatch in the hashes the router generates, keeps every key, and holds no key that
  is still new, when the digest works and gives no key the empty hash.
\<close>

theorem gtks_hash_roundtrip:
  assumes "gtk_reach sha' g" and "sha256_ok sha"
    and "\<forall>i < 4. sec_prot_keys_gtk_get br i = sec_prot_keys_gtk_get g i"
    and "\<forall>i < 4. \<forall>k. sec_prot_keys_gtk_get br i = Some k \<longrightarrow> sec_prot_keys_gtk_valid_check sha k [] = 0"
    and "sec_prot_keys_gtks_hash_update sha junk True g (sec_prot_keys_gtks_hash_generate sha br) = (mismatch, g')"
  shows "mismatch = GTK_NO_MISMATCH \<and>
    (\<forall>i < 4. sec_prot_keys_gtk_get g' i = sec_prot_keys_gtk_get g i) \<and>
    (\<forall>i < 4. sec_prot_keys_gtk_is_set g' i \<longrightarrow> status (gtk g' ! i) \<noteq> GTK_STATUS_NEW)"
proof (intro conjI)
  let ?H = "sec_prot_keys_gtks_hash_generate sha br"
  note S = gtks_hash_update_slots [OF gtk_reach_gtk_inv [OF assms(1)]
      hash_generate_slice(1) [OF assms(2)] assms(5)]
  have slice: "take 8 (drop (8 * i) ?H) =
      (case sec_prot_keys_gtk_get g i of None \<Rightarrow> replicate 8 0 | Some k \<Rightarrow> gtk_hash sha k)"
    if "i < 4" for i
    using hash_generate_slice(2) [OF assms(2) that, of br] assms(3) that by simp
  have ne: "gtk_hash sha k \<noteq> replicate 8 0" if "i < 4" "sec_prot_keys_gtk_get g i = Some k" for i k
    using assms(3,4) that gtkhash_generate_ok [OF assms(2), of k]
    by (auto simp: sec_prot_keys_gtk_valid_check_def split: if_splits)
  note V = gtk_verdict_match [OF assms(2) _ ne]
  have v: "fst (gtk_verdict sha (junk i) (take 8 (drop (8 * i) ?H)) (gtk g ! i)) = GTK_NO_MISMATCH"
    if "i < 4" for i
    unfolding slice [OF that] by (rule V(1) [OF that that])
  have "(\<lambda>i. fst (gtk_verdict sha (junk i) (take 8 (drop (8 * i) ?H)) (gtk g ! i))) ` {..<4} =
      (\<lambda>i. GTK_NO_MISMATCH) ` {..<4::nat}"
    by (intro image_cong) (use v in auto)
  with S(1) show "mismatch = GTK_NO_MISMATCH" by (simp add: lessThan_empty_iff)
  have content: "is_set (gtk g' ! i) = is_set (gtk g ! i)" "key (gtk g' ! i) = key (gtk g ! i)"
    "is_set (gtk g' ! i) \<Longrightarrow> status (gtk g' ! i) \<noteq> GTK_STATUS_NEW" if i: "i < 4" for i
    using gtk_content_fields [OF S(2) [rule_format, OF i]] V(2-4) [OF i i]
    unfolding slice [OF i] by simp_all
  show "\<forall>i < 4. sec_prot_keys_gtk_get g' i = sec_prot_keys_gtk_get g i"
    using content by (simp add: sec_prot_keys_gtk_get_def)
  show "\<forall>i < 4. sec_prot_keys_gtk_is_set g' i \<longrightarrow> status (gtk g' ! i) \<noteq> GTK_STATUS_NEW"
    using content by (simp add: sec_prot_keys_gtk_is_set_def)
qed

theorem gtks_hash_roundtrip_witness:
  "fst (sec_prot_keys_gtks_hash_update (\<lambda>m. Some (replicate 32 7)) (\<lambda>_. []) True gtk_example
     (sec_prot_keys_gtks_hash_generate (\<lambda>m. Some (replicate 32 7)) gtk_example)) = GTK_NO_MISMATCH"
proof -
  let ?sha = "\<lambda>m :: bytes. Some (replicate 32 (7 :: u8))"
  have ok: "sha256_ok ?sha" by (simp add: sha256_ok_def)
  have valid: "sec_prot_keys_gtk_valid_check ?sha k [] = 0" for k
    by (simp add: sec_prot_keys_gtk_valid_check_def sec_prot_lib_gtkhash_generate_def)
  show ?thesis
    by (rule conjunct1 [OF gtks_hash_roundtrip [OF gtk_example_reach [of "\<lambda>m. None"] ok _ _ prod.collapse [symmetric]]])
      (simp_all add: valid)
qed

text \<open>
  Where the next key goes: \<open>sec_prot_keys_gtk_install_index_get\<close> returns a slot that is not
  set whenever there is one; when all four are set it returns the slot of the newest key.
\<close>

lemma gtk_install_index_get_spec:
  assumes "gtk_reach sha g"
  shows "((\<exists>i < 4. \<not> sec_prot_keys_gtk_is_set g i) \<longrightarrow>
      (\<exists>i < 4. sec_prot_keys_gtk_install_index_get g = int i \<and> \<not> sec_prot_keys_gtk_is_set g i)) \<and>
    ((\<forall>i < 4. sec_prot_keys_gtk_is_set g i) \<longrightarrow>
      sec_prot_keys_gtk_install_index_get g = int (last (gtk_seq g)))"
proof (rule conjI; rule impI)
  note ok = gtk_invD(2) [OF gtk_reach_gtk_inv [OF assms]]
  define s where "s = (let i = sec_prot_keys_gtk_install_order_last_index_get g in if i < 0 then 0 else i)"
  have get: "sec_prot_keys_gtk_install_index_get g = gtk_free_index_loop g 4 (nat s) s"
    by (simp add: sec_prot_keys_gtk_install_index_get_def s_def Let_def)
  have s: "s = (if gtk_seq g = [] then 0 else int (last (gtk_seq g)))"
    by (simp add: s_def gtk_last_index_get [OF ok])
  have "nat s < 4"
    using gtk_slots_lt [of "last (gtk_seq g)" g] last_in_set [of "gtk_seq g"] by (auto simp: s)
  then show "(\<exists>i < 4. \<not> sec_prot_keys_gtk_is_set g i) \<Longrightarrow>
      \<exists>i < 4. sec_prot_keys_gtk_install_index_get g = int i \<and> \<not> sec_prot_keys_gtk_is_set g i"
    unfolding get using gtk_free_index_loop_free by blast
  assume full: "\<forall>i < 4. sec_prot_keys_gtk_is_set g i"
  then have "gtk_seq g \<noteq> []"
    using gtk_slots_iff [of g 0] set_gtk_seq [of g] by (metis empty_iff list.set(1) zero_less_numeral)
  with gtk_free_index_loop_full [OF _ \<open>nat s < 4\<close>] full
  show "sec_prot_keys_gtk_install_index_get g = int (last (gtk_seq g))"
    unfolding get by (simp add: s)
qed

end
