(* ===== verification/MplData.thy ===== *)
theory MplData
  imports Trickle
begin

text \<open>
  Data of the Multicast Protocol for Low-Power and Lossy Networks (\<open>MPL/mpl.c\<close>): buffered
  messages, seeds, domains and the global state, with the operations on buffers and seeds.
  A domain, seed or message pointer is its position in the list that holds it; the handlers
  never hold a position across a change of the list before it. The tick counter
  \<open>eventOS_event_timer_ticks\<close> is read once per handler. An access outside a buffer and a loop
  that never ends are the result \<open>None\<close>.
\<close>

section \<open>External functions\<close>

text \<open>
  Functions of \<open>common_functions.h\<close> (not part of the sources), \<open>addr_is_assigned_to_interface\<close>
  of the interface layer, the configuration flag \<open>ti_wisun_config.mpl_low_latency\<close>, the
  draws of randLIB, indexed by the place where they are made, and what memory holds before a
  timer in it is first started.
\<close>

record mpl_env =
  common_read_16_bit :: "u8 \<Rightarrow> u8 \<Rightarrow> u16"
  common_serial_number_greater_8 :: "u8 \<Rightarrow> u8 \<Rightarrow> bool"
  bit_test :: "bytes \<Rightarrow> u8 \<Rightarrow> bool"
  bit_set :: "bytes \<Rightarrow> u8 \<Rightarrow> bytes"
  addr_is_assigned_to_interface :: "nat \<Rightarrow> bytes \<Rightarrow> bool"
  mpl_low_latency :: bool
  rnd :: "nat list \<Rightarrow> rand"
  heap_trickle :: trickle_t

section \<open>Constants and data\<close>

abbreviation IPV6_HDRLEN :: nat where "IPV6_HDRLEN \<equiv> 40"
abbreviation IPV6_HDROFF_PAYLOAD_LENGTH :: nat where "IPV6_HDROFF_PAYLOAD_LENGTH \<equiv> 4"
abbreviation IPV6_HDROFF_NH :: nat where "IPV6_HDROFF_NH \<equiv> 6"
abbreviation IPV6_HDROFF_HOP_LIMIT :: nat where "IPV6_HDROFF_HOP_LIMIT \<equiv> 7"
abbreviation MAX_BUFFERED_MESSAGES_SIZE :: nat where "MAX_BUFFERED_MESSAGES_SIZE \<equiv> 8192"
abbreviation MAX_BUFFERED_MESSAGE_LIFETIME :: u32 where "MAX_BUFFERED_MESSAGE_LIFETIME \<equiv> 600"
abbreviation MPL_OPT_S_MASK :: u8 where "MPL_OPT_S_MASK \<equiv> 0xC0"
abbreviation MPL_OPT_S_SHIFT :: nat where "MPL_OPT_S_SHIFT \<equiv> 6"
abbreviation MPL_OPT_M :: u8 where "MPL_OPT_M \<equiv> 0x20"
abbreviation MPL_OPT_V :: u8 where "MPL_OPT_V \<equiv> 0x10"
abbreviation MPL_SEED_IPV6_SRC :: u8 where "MPL_SEED_IPV6_SRC \<equiv> 0"
abbreviation MPL_SEED_16_BIT :: u8 where "MPL_SEED_16_BIT \<equiv> 1"
abbreviation MPL_SEED_64_BIT :: u8 where "MPL_SEED_64_BIT \<equiv> 2"
abbreviation MPL_SEED_128_BIT :: u8 where "MPL_SEED_128_BIT \<equiv> 3"

record mpl_buffered_message_t =
  msg_colour :: bool
  msg_timestamp :: u32
  msg_trickle :: trickle_t
  mpl_opt_data_offset :: nat
  transmit_done :: bool
  msg_bytes :: bytes

record mpl_seed_t =
  seed_colour :: bool
  seed_lifetime :: u16
  min_sequence :: u8
  id_len :: nat
  messages :: "mpl_buffered_message_t list"
  seed_id :: bytes

text \<open>The modes of \<open>multicast_mpl_seed_id_mode_e\<close>; the positive values are the lengths in bytes.\<close>

datatype multicast_mpl_seed_id_mode_e =
    MULTICAST_MPL_SEED_ID_DEFAULT
  | MULTICAST_MPL_SEED_ID_MAC_SHORT
  | MULTICAST_MPL_SEED_ID_MAC
  | MULTICAST_MPL_SEED_ID_IID_EUI64
  | MULTICAST_MPL_SEED_ID_IID_SLAAC
  | MULTICAST_MPL_SEED_ID_IPV6_SRC_FOR_DOMAIN
  | MULTICAST_MPL_SEED_ID_LEN nat

record mpl_domain =
  interface :: nat
  address :: bytes
  sequence :: u8
  dom_colour :: bool
  proactive_forwarding :: bool
  seed_set_entry_lifetime :: u16
  seeds :: "mpl_seed_t list"
  dom_trickle :: trickle_t
  data_trickle_params :: trickle_params_t
  control_trickle_params :: trickle_params_t
  seed_id_mode :: multicast_mpl_seed_id_mode_e
  dom_seed_id :: bytes

text \<open>What a handler asks of the rest of the stack.\<close>

datatype mpl_event =
    Timer_started
  | Multicast_tx nat bytes
  | Control_tx nat bytes "bytes option" bytes
  | Add_group nat bytes
  | Delete_group nat bytes
  | Mpl_seed nat bool
  | Exthdr_provider_set

record mpl_state =
  mpl_domains :: "mpl_domain list"
  mpl_total_buffered :: u16
  mpl_timer2_running :: bool
  mpl_initted :: bool
  mpl_events :: "mpl_event list"

definition mpl_emit :: "mpl_event \<Rightarrow> mpl_state \<Rightarrow> mpl_state" where
  "mpl_emit ev st = st\<lparr>mpl_events := mpl_events st @ [ev]\<rparr>"

definition mpl_upd_domain :: "nat \<Rightarrow> (mpl_domain \<Rightarrow> mpl_domain) \<Rightarrow> mpl_state \<Rightarrow> mpl_state" where
  "mpl_upd_domain d f st = st\<lparr>mpl_domains := (mpl_domains st)[d := f (mpl_domains st ! d)]\<rparr>"

definition mpl_upd_seed :: "nat \<Rightarrow> nat \<Rightarrow> (mpl_seed_t \<Rightarrow> mpl_seed_t) \<Rightarrow> mpl_state \<Rightarrow> mpl_state" where
  "mpl_upd_seed d s f = mpl_upd_domain d (\<lambda>domain. domain\<lparr>seeds := (seeds domain)[s := f (seeds domain ! s)]\<rparr>)"

definition mpl_seed_at :: "mpl_state \<Rightarrow> nat \<Rightarrow> nat \<Rightarrow> mpl_seed_t" where
  "mpl_seed_at st d s = seeds (mpl_domains st ! d) ! s"

text \<open>Removing the entry at a position from a list.\<close>

definition list_remove :: "nat \<Rightarrow> 'a list \<Rightarrow> 'a list" where
  "list_remove i xs = take i xs @ drop (Suc i) xs"

section \<open>Buffered messages\<close>

definition mpl_buffer_sequence :: "mpl_buffered_message_t \<Rightarrow> u8" where
  "mpl_buffer_sequence m = msg_bytes m ! (mpl_opt_data_offset m + 1)"

definition mpl_buffer_size :: "mpl_env \<Rightarrow> mpl_buffered_message_t \<Rightarrow> u16" where
  "mpl_buffer_size env m =
     40 + common_read_16_bit env (msg_bytes m ! IPV6_HDROFF_PAYLOAD_LENGTH)
            (msg_bytes m ! (IPV6_HDROFF_PAYLOAD_LENGTH + 1))"

definition mpl_buffer_lookup :: "mpl_seed_t \<Rightarrow> u8 \<Rightarrow> nat option" where
  "mpl_buffer_lookup seed sq = find_index (\<lambda>m. mpl_buffer_sequence m = sq) (messages seed)"

definition mpl_buffer_delete :: "mpl_env \<Rightarrow> nat \<Rightarrow> nat \<Rightarrow> nat \<Rightarrow> mpl_state \<Rightarrow> mpl_state" where
  "mpl_buffer_delete env d s i st =
     (let m = messages (mpl_seed_at st d s) ! i;
          st = st\<lparr>mpl_total_buffered := mpl_total_buffered st - mpl_buffer_size env m\<rparr>
      in mpl_upd_seed d s (\<lambda>seed. seed\<lparr>messages := list_remove i (messages seed)\<rparr>) st)"

definition mpl_schedule_timer2 :: "mpl_state \<Rightarrow> mpl_state" where
  "mpl_schedule_timer2 st =
     (if \<not> mpl_timer2_running st then mpl_emit Timer_started (st\<lparr>mpl_timer2_running := True\<rparr>) else st)"

definition mpl_upd_message ::
    "nat \<Rightarrow> nat \<Rightarrow> nat \<Rightarrow> (mpl_buffered_message_t \<Rightarrow> mpl_buffered_message_t) \<Rightarrow> mpl_state \<Rightarrow> mpl_state" where
  "mpl_upd_message d s i f =
     mpl_upd_seed d s (\<lambda>seed. seed\<lparr>messages := (messages seed)[i := f (messages seed ! i)]\<rparr>)"

definition mpl_buffer_inconsistent :: "mpl_env \<Rightarrow> nat \<Rightarrow> nat \<Rightarrow> nat \<Rightarrow> mpl_state \<Rightarrow> mpl_state" where
  "mpl_buffer_inconsistent env d s i st =
     mpl_schedule_timer2
       (mpl_upd_message d s i (\<lambda>m. m\<lparr>msg_trickle := trickle_inconsistent_heard (rnd env [d, s, i])
            (data_trickle_params (mpl_domains st ! d)) (msg_trickle m)\<rparr>) st)"

section \<open>Seeds\<close>

definition mpl_seed_lookup :: "mpl_domain \<Rightarrow> nat \<Rightarrow> bytes \<Rightarrow> nat option" where
  "mpl_seed_lookup domain len sid =
     find_index (\<lambda>seed. id_len seed = len \<and> take len (seed_id seed) = take len sid) (seeds domain)"

text \<open>\<open>ok\<close> is the success of the allocation; the new seed is the last one.\<close>

definition mpl_seed_create :: "bool \<Rightarrow> nat \<Rightarrow> nat \<Rightarrow> bytes \<Rightarrow> u8 \<Rightarrow> mpl_state \<Rightarrow> nat option \<times> mpl_state" where
  "mpl_seed_create ok d len sid sq st =
     (if \<not> ok then (None, st)
      else
        let domain = mpl_domains st ! d;
            seed = \<lparr>seed_colour = dom_colour domain, seed_lifetime = seed_set_entry_lifetime domain,
                     min_sequence = sq, id_len = len, messages = [], seed_id = take len sid\<rparr>
        in (Some (length (seeds domain)),
            mpl_upd_domain d (\<lambda>domain. domain\<lparr>seeds := seeds domain @ [seed]\<rparr>) st))"

text \<open>Deleting every message of a seed, then the seed.\<close>

definition mpl_seed_delete :: "mpl_env \<Rightarrow> nat \<Rightarrow> nat \<Rightarrow> mpl_state \<Rightarrow> mpl_state" where
  "mpl_seed_delete env d s st =
     (let st = fold (\<lambda>m st. mpl_buffer_delete env d s 0 st) (messages (mpl_seed_at st d s)) st
      in mpl_upd_domain d (\<lambda>domain. domain\<lparr>seeds := list_remove s (seeds domain)\<rparr>) st)"

text \<open>
  The loop of \<open>mpl_seed_advance_min_sequence\<close>: \<open>n\<close> messages are still to be looked at, the next
  one is at position \<open>i\<close>.
\<close>

fun mpl_advance_loop :: "mpl_env \<Rightarrow> nat \<Rightarrow> nat \<Rightarrow> u8 \<Rightarrow> nat \<Rightarrow> nat \<Rightarrow> mpl_state \<Rightarrow> mpl_state" where
  "mpl_advance_loop env d s sq 0 i st = st"
| "mpl_advance_loop env d s sq (Suc n) i st =
     (if common_serial_number_greater_8 env sq (mpl_buffer_sequence (messages (mpl_seed_at st d s) ! i))
      then mpl_advance_loop env d s sq n i (mpl_buffer_delete env d s i st)
      else mpl_advance_loop env d s sq n (Suc i) st)"

definition mpl_seed_advance_min_sequence :: "mpl_env \<Rightarrow> nat \<Rightarrow> nat \<Rightarrow> u8 \<Rightarrow> mpl_state \<Rightarrow> mpl_state" where
  "mpl_seed_advance_min_sequence env d s sq st =
     (let st = mpl_upd_seed d s (\<lambda>seed. seed\<lparr>min_sequence := sq\<rparr>) st
      in mpl_advance_loop env d s sq (length (messages (mpl_seed_at st d s))) 0 st)"

text \<open>
  \<open>mpl_free_space\<close>: the first message of every seed, in the order of the loops; the oldest one
  is replaced only by one that is strictly older.
\<close>

definition mpl_first_messages :: "mpl_state \<Rightarrow> (nat \<times> nat \<times> mpl_buffered_message_t) list" where
  "mpl_first_messages st =
     concat (map (\<lambda>d. concat (map (\<lambda>s.
       case messages (mpl_seed_at st d s) of [] \<Rightarrow> [] | m # ms \<Rightarrow> [(d, s, m)])
       [0..<length (seeds (mpl_domains st ! d))])) [0..<length (mpl_domains st)])"

definition mpl_older :: "u32 \<Rightarrow> nat \<times> nat \<times> mpl_buffered_message_t
    \<Rightarrow> (nat \<times> nat \<times> mpl_buffered_message_t) option \<Rightarrow> (nat \<times> nat \<times> mpl_buffered_message_t) option" where
  "mpl_older now c oldest =
     (case oldest of
        None \<Rightarrow> Some c
      | Some (d', s', m') \<Rightarrow>
          if now - msg_timestamp (snd (snd c)) > now - msg_timestamp m' then Some c else oldest)"

definition mpl_free_space :: "mpl_env \<Rightarrow> u32 \<Rightarrow> mpl_state \<Rightarrow> mpl_state" where
  "mpl_free_space env now st =
     (case fold (mpl_older now) (mpl_first_messages st) None of
        None \<Rightarrow> st
      | Some (d, s, m) \<Rightarrow>
          mpl_buffer_delete env d s 0
            (mpl_upd_seed d s (\<lambda>seed. seed\<lparr>min_sequence := mpl_buffer_sequence m + 1\<rparr>) st))"

partial_function (option) mpl_make_space :: "mpl_env \<Rightarrow> u32 \<Rightarrow> nat \<Rightarrow> mpl_state \<Rightarrow> mpl_state option" where
  "mpl_make_space env now ip_len st =
     (if unat (mpl_total_buffered st) + ip_len > MAX_BUFFERED_MESSAGES_SIZE
      then mpl_make_space env now ip_len (mpl_free_space env now st) else Some st)"

declare mpl_make_space.simps [code]

section \<open>Seed information of control messages\<close>

definition mpl_seed_bm_len :: "mpl_seed_t \<Rightarrow> u8" where
  "mpl_seed_bm_len seed =
     (if messages seed = [] then 0
      else (mpl_buffer_sequence (last (messages seed)) - min_sequence seed) div 8 + 1)"

definition mpl_seed_info_size :: "mpl_seed_t \<Rightarrow> bytes option \<Rightarrow> u16" where
  "mpl_seed_info_size seed src =
     (let len = (if id_len seed = 16 \<and> src \<noteq> None \<and> take 16 (the src) = take 16 (seed_id seed)
                 then 0 else id_len seed)
      in 2 + word_of_nat len + ucast (mpl_seed_bm_len seed))"

text \<open>
  \<open>mpl_write_seed_info\<close>: what is appended to the message, \<open>None\<close> when \<open>bit_set\<close> writes outside
  the bitmap. A seed id of another length writes two bytes and does not advance.
\<close>

definition mpl_write_bits :: "mpl_env \<Rightarrow> mpl_seed_t \<Rightarrow> bytes \<Rightarrow> bytes option" where
  "mpl_write_bits env seed bitmap =
     fold (\<lambda>m b. case b of None \<Rightarrow> None | Some bm \<Rightarrow>
              let i = mpl_buffer_sequence m - min_sequence seed
              in if unat i div 8 < length bm then Some (bit_set env bm i) else None)
       (messages seed) (Some bitmap)"

definition mpl_write_seed_info :: "mpl_env \<Rightarrow> mpl_seed_t \<Rightarrow> bytes option \<Rightarrow> bytes option" where
  "mpl_write_seed_info env seed src =
     (let bm_len = mpl_seed_bm_len seed;
          len = (if id_len seed = 16 \<and> src \<noteq> None \<and> take 16 (the src) = take 16 (seed_id seed)
                 then 0 else id_len seed);
          tp = (if len = 0 then Some MPL_SEED_IPV6_SRC else if len = 2 then Some MPL_SEED_16_BIT
                else if len = 8 then Some MPL_SEED_64_BIT else if len = 16 then Some MPL_SEED_128_BIT
                else None)
      in case tp of
           None \<Rightarrow> Some []
         | Some tp \<Rightarrow>
             map_option (\<lambda>bm. [min_sequence seed, push_bit 2 bm_len OR tp] @ take len (seed_id seed) @ bm)
               (mpl_write_bits env seed (replicate (unat bm_len) 0)))"

definition mpl_seed_id_len :: "u8 \<Rightarrow> nat" where
  "mpl_seed_id_len seed_id_type = [0, 2, 8, 16] ! unat seed_id_type"

definition mpl_seed_id_type :: "nat \<Rightarrow> u8" where
  "mpl_seed_id_type seed_id_len =
     (if seed_id_len = 2 then MPL_SEED_16_BIT else if seed_id_len = 8 then MPL_SEED_64_BIT
      else if seed_id_len = 16 then MPL_SEED_128_BIT else MPL_SEED_IPV6_SRC)"

end
