(* ===== verification/Mpl.thy ===== *)
theory Mpl
  imports MplData
begin

text \<open>
  The MPL forwarder of \<open>MPL/mpl.c\<close>: domains, the processing of data messages, the timers, the
  control messages and the hop-by-hop option. The configuration is that of the Wi-SUN router
  (\<open>INCLUDE_THREAD_CODE\<close> undefined, \<open>FEATURE_MPL_SKIP_DUPLICATE_TX\<close> and \<open>NO_IPV6_PMTUD\<close>
  defined); tracing is left out.
\<close>

section \<open>Interfaces and buffers\<close>

record protocol_interface_info_entry_t =
  if_id :: nat
  mpl_treat_realm_domains_as_one :: bool
  mpl_seed_id_mode :: multicast_mpl_seed_id_mode_e
  mpl_seed_id :: bytes
  mpl_proactive_forwarding :: bool
  mpl_seed_set_entry_lifetime :: u16
  mpl_data_trickle_params :: trickle_params_t
  mpl_control_trickle_params :: trickle_params_t
  if_mac :: bytes
  iid_eui64 :: bytes
  iid_slaac :: bytes
  ws_info :: bool

record buffer_t =
  buf_data :: bytes
  mpl_option_data_offset :: nat
  src_sa :: bytes
  src_addr_none :: bool
  dst_sa :: bytes
  buf_interface :: protocol_interface_info_entry_t
  multicast_loop :: bool
  dir_up :: bool
  ext_hbh_mpl :: bool
  ext_hbh_mpl_unfilled :: bool
  ll_security_bypass_rx :: bool
  opt_hop_limit :: u8
  opt_type :: u8

abbreviation IPV6_SCOPE_LINK_LOCAL :: u8 where "IPV6_SCOPE_LINK_LOCAL \<equiv> 2"
abbreviation IPV6_SCOPE_REALM_LOCAL :: u8 where "IPV6_SCOPE_REALM_LOCAL \<equiv> 3"

definition addr_is_ipv6_multicast :: "bytes \<Rightarrow> bool" where
  "addr_is_ipv6_multicast a \<longleftrightarrow> a ! 0 = 0xFF"

definition addr_ipv6_multicast_scope :: "bytes \<Rightarrow> u8" where
  "addr_ipv6_multicast_scope a = a ! 1 AND 0x0F"

definition addr_ipv6_equal :: "bytes \<Rightarrow> bytes \<Rightarrow> bool" where
  "addr_ipv6_equal a b \<longleftrightarrow> take 16 a = take 16 b"

definition ADDR_ALL_MPL_FORWARDERS :: bytes where
  "ADDR_ALL_MPL_FORWARDERS = [0xff, 0x03, 0, 0, 0, 0, 0, 0, 0, 0, 0, 0, 0, 0, 0, 0xfc]"

definition ll_scope :: "bytes \<Rightarrow> bytes" where
  "ll_scope a = (take 16 a)[1 := (a ! 1 AND 0xf0) OR IPV6_SCOPE_LINK_LOCAL]"

section \<open>Domains\<close>

definition mpl_init :: "mpl_state \<Rightarrow> mpl_state" where
  "mpl_init st =
     (if mpl_initted st then st
      else mpl_emit Exthdr_provider_set (st\<lparr>mpl_initted := True\<rparr>))"

definition mpl_domain_lookup :: "mpl_state \<Rightarrow> nat \<Rightarrow> bytes \<Rightarrow> nat option" where
  "mpl_domain_lookup st cur a =
     find_index (\<lambda>domain. interface domain = cur \<and> addr_ipv6_equal (address domain) a) (mpl_domains st)"

definition mpl_domain_lookup_with_realm_check ::
    "mpl_state \<Rightarrow> protocol_interface_info_entry_t \<Rightarrow> bytes \<Rightarrow> nat option" where
  "mpl_domain_lookup_with_realm_check st cur a =
     (if \<not> addr_is_ipv6_multicast a then None
      else
        let a = (if addr_ipv6_multicast_scope a = IPV6_SCOPE_REALM_LOCAL
                    \<and> mpl_treat_realm_domains_as_one cur
                 then ADDR_ALL_MPL_FORWARDERS else a)
        in mpl_domain_lookup st (if_id cur) a)"

definition mpl_domain_lookup_ignoring_scop :: "mpl_state \<Rightarrow> nat \<Rightarrow> bytes \<Rightarrow> nat option" where
  "mpl_domain_lookup_ignoring_scop st cur a =
     find_index (\<lambda>domain. interface domain = cur
         \<and> take 14 (drop 2 a) = take 14 (drop 2 (address domain))
         \<and> a ! 1 AND 0xf0 = address domain ! 1 AND 0xf0) (mpl_domains st)"

definition mpl_domain_count_on_interface :: "mpl_state \<Rightarrow> nat \<Rightarrow> nat" where
  "mpl_domain_count_on_interface st cur =
     fold (\<lambda>domain count. if interface domain = cur then count + 1 else count) (mpl_domains st) 0"

text \<open>
  \<open>mpl_domain_create\<close>. The arguments that may be NULL or a negative default are options.
  \<open>alloc\<close>, \<open>seq0\<close> and \<open>r\<close> are the allocation, the random sequence number and the place of the
  draws. The function calls itself for the all-forwarders domain: \<open>inner\<close> is the effect of that
  call. A call made there finds two domains on the interface and makes no further one, so that
  \<open>mpl_domain_create\<close> nests two of them.
\<close>

definition mpl_domain_create_body ::
    "(mpl_state \<Rightarrow> mpl_state) \<Rightarrow> mpl_env \<Rightarrow> bool \<Rightarrow> u8 \<Rightarrow> nat \<Rightarrow> protocol_interface_info_entry_t \<Rightarrow> bytes
      \<Rightarrow> bytes \<Rightarrow> multicast_mpl_seed_id_mode_e \<Rightarrow> bool option \<Rightarrow> u16 \<Rightarrow> trickle_params_t option
      \<Rightarrow> trickle_params_t option \<Rightarrow> mpl_state \<Rightarrow> nat option \<times> mpl_state" where
  "mpl_domain_create_body inner env alloc seq0 r cur addr sid mode proactive life dparams cparams st =
     (if \<not> addr_is_ipv6_multicast addr \<or> addr_ipv6_multicast_scope addr < IPV6_SCOPE_REALM_LOCAL
      then (None, st)
      else if addr_ipv6_multicast_scope addr = IPV6_SCOPE_REALM_LOCAL
        \<and> mpl_treat_realm_domains_as_one cur \<and> \<not> addr_ipv6_equal addr ADDR_ALL_MPL_FORWARDERS
      then (None, st)
      else
        let st = mpl_init st in
        if mpl_domain_lookup_ignoring_scop st (if_id cur) addr \<noteq> None then (None, st)
        else
          let sid = (if mode = MULTICAST_MPL_SEED_ID_DEFAULT then mpl_seed_id cur else sid);
              mode = (if mode = MULTICAST_MPL_SEED_ID_DEFAULT then mpl_seed_id_mode cur else mode);
              len = (case mode of MULTICAST_MPL_SEED_ID_LEN n \<Rightarrow> n | _ \<Rightarrow> 0)
          in if \<not> alloc then (None, st)
             else
               let cp = (case cparams of Some p \<Rightarrow> p | None \<Rightarrow> mpl_control_trickle_params cur);
                   domain = \<lparr>interface = if_id cur, address = take 16 addr, sequence = seq0,
                     dom_colour = False,
                     proactive_forwarding = (case proactive of Some b \<Rightarrow> b | None \<Rightarrow> mpl_proactive_forwarding cur),
                     seed_set_entry_lifetime = (if life \<noteq> 0 then life else mpl_seed_set_entry_lifetime cur),
                     seeds = [],
                     dom_trickle = trickle_stop (trickle_start (rnd env [r, 0]) (rnd env [r, 1]) cp
                                                   (heap_trickle env)),
                     data_trickle_params = (case dparams of Some p \<Rightarrow> p | None \<Rightarrow> mpl_data_trickle_params cur),
                     control_trickle_params = cp, seed_id_mode = mode, dom_seed_id = take len sid\<rparr>;
                   result = Some (length (mpl_domains st));
                   st = st\<lparr>mpl_domains := mpl_domains st @ [domain]\<rparr>;
                   st = mpl_emit (Add_group (if_id cur) addr) st;
                   st = (if p_TimerExpirations cp \<noteq> 0
                         then mpl_emit (Add_group (if_id cur) (ll_scope addr)) st else st)
               in if mpl_domain_count_on_interface st (if_id cur) = 1
                  then (result, mpl_emit (Mpl_seed (if_id cur) True) (inner st))
                  else (result, st))"

definition mpl_domain_create_all ::
    "(mpl_state \<Rightarrow> mpl_state) \<Rightarrow> mpl_env \<Rightarrow> bool \<Rightarrow> u8 \<Rightarrow> protocol_interface_info_entry_t \<Rightarrow> mpl_state
      \<Rightarrow> mpl_state" where
  "mpl_domain_create_all inner env alloc seq0 cur st =
     snd (mpl_domain_create_body inner env alloc seq0 0 cur ADDR_ALL_MPL_FORWARDERS []
            MULTICAST_MPL_SEED_ID_DEFAULT None 0 None None st)"

definition mpl_domain_create ::
    "mpl_env \<Rightarrow> bool \<times> bool \<Rightarrow> u8 \<times> u8 \<Rightarrow> protocol_interface_info_entry_t \<Rightarrow> bytes
      \<Rightarrow> bytes \<Rightarrow> multicast_mpl_seed_id_mode_e \<Rightarrow> bool option \<Rightarrow> u16 \<Rightarrow> trickle_params_t option
      \<Rightarrow> trickle_params_t option \<Rightarrow> mpl_state \<Rightarrow> nat option \<times> mpl_state" where
  "mpl_domain_create env alloc seq0 cur =
     mpl_domain_create_body (mpl_domain_create_all (\<lambda>st. st) env (snd alloc) (snd seq0) cur)
       env (fst alloc) (fst seq0) 1 cur"

text \<open>The loop over the seeds deletes each in turn, the next one then being the first.\<close>

definition mpl_delete_all_seeds :: "mpl_env \<Rightarrow> nat \<Rightarrow> mpl_state \<Rightarrow> mpl_state" where
  "mpl_delete_all_seeds env d st =
     fold (\<lambda>_ st. mpl_seed_delete env d 0 st) (seeds (mpl_domains st ! d)) st"

definition mpl_domain_delete :: "mpl_env \<Rightarrow> nat \<Rightarrow> bytes \<Rightarrow> mpl_state \<Rightarrow> bool \<times> mpl_state" where
  "mpl_domain_delete env cur addr st =
     (case mpl_domain_lookup st cur addr of
        None \<Rightarrow> (False, st)
      | Some d \<Rightarrow>
          let count = mpl_domain_count_on_interface st cur in
          if addr_ipv6_equal addr ADDR_ALL_MPL_FORWARDERS \<and> count \<noteq> 1 then (True, st)
          else
            let st = (if addr_ipv6_equal addr ADDR_ALL_MPL_FORWARDERS
                      then mpl_emit (Mpl_seed cur False) st else st);
                st = mpl_delete_all_seeds env d st;
                st = mpl_emit (Delete_group cur addr) st;
                domain = mpl_domains st ! d;
                st = (if p_TimerExpirations (control_trickle_params domain) \<noteq> 0
                      then mpl_emit (Delete_group cur (ll_scope (address domain))) st else st)
            in (True, st\<lparr>mpl_domains := list_remove d (mpl_domains st)\<rparr>))"

definition mpl_domain_change_timing :: "nat \<Rightarrow> trickle_params_t \<Rightarrow> u16 \<Rightarrow> mpl_state \<Rightarrow> mpl_state" where
  "mpl_domain_change_timing d params life =
     mpl_upd_domain d (\<lambda>domain. domain\<lparr>data_trickle_params := params, seed_set_entry_lifetime := life\<rparr>)"

definition mpl_domain_inconsistent :: "mpl_env \<Rightarrow> nat \<Rightarrow> mpl_state \<Rightarrow> mpl_state" where
  "mpl_domain_inconsistent env d st =
     mpl_schedule_timer2 (mpl_upd_domain d (\<lambda>domain. domain\<lparr>dom_trickle :=
        trickle_inconsistent_heard (rnd env [d]) (control_trickle_params domain) (dom_trickle domain)\<rparr>) st)"

definition mpl_control_reset_or_start :: "mpl_env \<Rightarrow> nat \<Rightarrow> mpl_state \<Rightarrow> mpl_state" where
  "mpl_control_reset_or_start env d st =
     mpl_schedule_timer2 (mpl_upd_domain d (\<lambda>domain. domain\<lparr>dom_trickle :=
        (if trickle_running (dom_trickle domain) (control_trickle_params domain)
         then trickle_inconsistent_heard (rnd env [d, 0]) (control_trickle_params domain) (dom_trickle domain)
         else trickle_start (rnd env [d, 0]) (rnd env [d, 1]) (control_trickle_params domain)
                (dom_trickle domain))\<rparr>) st)"

definition mpl_clear_realm_scope_seeds :: "mpl_env \<Rightarrow> nat \<Rightarrow> mpl_state \<Rightarrow> mpl_state" where
  "mpl_clear_realm_scope_seeds env cur st =
     fold (\<lambda>d st. if interface (mpl_domains st ! d) = cur
                     \<and> addr_ipv6_multicast_scope (address (mpl_domains st ! d)) \<le> IPV6_SCOPE_REALM_LOCAL
                  then mpl_delete_all_seeds env d st else st)
       [0..<length (mpl_domains st)] st"

section \<open>Data messages\<close>

text \<open>
  Where a new message goes: after the last message, seen from the end of the list, whose
  sequence number is smaller.
\<close>

definition mpl_insert_pos :: "mpl_env \<Rightarrow> u8 \<Rightarrow> mpl_buffered_message_t list \<Rightarrow> nat" where
  "mpl_insert_pos env sq ms =
     length (dropWhile (\<lambda>m. \<not> common_serial_number_greater_8 env sq (mpl_buffer_sequence m)) (rev ms))"

definition mpl_insert :: "nat \<Rightarrow> 'a \<Rightarrow> 'a list \<Rightarrow> 'a list" where
  "mpl_insert p x xs = take p xs @ [x] @ drop p xs"

text \<open>\<open>ok\<close> is the success of the allocation; the result is the position of the new message.\<close>

definition mpl_buffer_create ::
    "mpl_env \<Rightarrow> u32 \<Rightarrow> bool \<Rightarrow> buffer_t \<Rightarrow> nat \<Rightarrow> nat \<Rightarrow> u8 \<Rightarrow> u8 \<Rightarrow> mpl_state
      \<Rightarrow> (nat option \<times> mpl_state) option" where
  "mpl_buffer_create env now ok buf d s sq hop_limit st =
     (let ip_len = length (buf_data buf) in
      case mpl_make_space env now ip_len st of
        None \<Rightarrow> None
      | Some st \<Rightarrow>
          if common_serial_number_greater_8 env (min_sequence (mpl_seed_at st d s)) sq then Some (None, st)
          else if \<not> ok then Some (None, st)
          else
            let domain = mpl_domains st ! d;
                started = trickle_start (rnd env [d, s, 0]) (rnd env [d, s, 1])
                            (data_trickle_params domain) (heap_trickle env);
                m = \<lparr>msg_colour = seed_colour (mpl_seed_at st d s), msg_timestamp = now,
                     msg_trickle = (if proactive_forwarding domain then started else trickle_stop started),
                     mpl_opt_data_offset = mpl_option_data_offset buf, transmit_done = False,
                     msg_bytes = (buf_data buf)[IPV6_HDROFF_HOP_LIMIT := hop_limit]\<rparr>;
                st = (if proactive_forwarding domain then mpl_schedule_timer2 st else st);
                p = mpl_insert_pos env sq (messages (mpl_seed_at st d s));
                st = mpl_upd_seed d s (\<lambda>seed. seed\<lparr>messages := mpl_insert p m (messages seed)\<rparr>) st;
                st = st\<lparr>mpl_total_buffered := mpl_total_buffered st + word_of_nat ip_len\<rparr>
            in Some (Some p, mpl_control_reset_or_start env d st))"

text \<open>The M flag: the messages after \<open>sq\<close> have not reached the sender.\<close>

definition mpl_m_flag :: "mpl_env \<Rightarrow> nat \<Rightarrow> nat \<Rightarrow> u8 \<Rightarrow> mpl_state \<Rightarrow> mpl_state" where
  "mpl_m_flag env d s sq st =
     fold (\<lambda>i st. if common_serial_number_greater_8 env
                        (mpl_buffer_sequence (messages (mpl_seed_at st d s) ! i)) sq
                  then if \<not> mpl_low_latency env then mpl_buffer_inconsistent env d s i st else st
                  else st)
       [0..<length (messages (mpl_seed_at st d s))] st"

text \<open>
  \<open>mpl_forwarder_process_message\<close>: \<open>dptr\<close> is the domain argument, \<open>seed_ok\<close> and \<open>msg_ok\<close> the
  allocations of a seed and of a message.
\<close>

definition mpl_process_on_seed ::
    "mpl_env \<Rightarrow> u32 \<Rightarrow> bool \<Rightarrow> buffer_t \<Rightarrow> nat \<Rightarrow> nat \<Rightarrow> bool \<Rightarrow> mpl_state \<Rightarrow> (bool \<times> mpl_state) option" where
  "mpl_process_on_seed env now msg_ok buf d s seeding st =
     (let opt_data = drop (mpl_option_data_offset buf) (buf_data buf);
          sq = opt_data ! 1;
          st = (if opt_data ! 0 AND MPL_OPT_M \<noteq> 0 then mpl_m_flag env d s sq st else st)
      in if common_serial_number_greater_8 env (min_sequence (mpl_seed_at st d s)) sq then Some (False, st)
         else case mpl_buffer_lookup (mpl_seed_at st d s) sq of
           Some i \<Rightarrow>
             Some (False, mpl_upd_message d s i
                            (\<lambda>m. m\<lparr>msg_trickle := trickle_consistent_heard (msg_trickle m)\<rparr>) st)
         | None \<Rightarrow>
             let life = seed_set_entry_lifetime (mpl_domains st ! d);
                 st = mpl_upd_seed d s (\<lambda>seed. seed\<lparr>seed_lifetime := life\<rparr>) st;
                 hop_limit = buf_data buf ! IPV6_HDROFF_HOP_LIMIT;
                 hop_limit = (if \<not> seeding \<and> hop_limit \<noteq> 0 then hop_limit - 1 else hop_limit)
             in if p_TimerExpirations (data_trickle_params (mpl_domains st ! d)) = 0 \<or> hop_limit = 0
                then Some (True, mpl_seed_advance_min_sequence env d s (sq + 1) st)
                else case mpl_buffer_create env now msg_ok buf d s sq hop_limit st of
                  None \<Rightarrow> None
                | Some (None, st) \<Rightarrow> Some (True, st)
                | Some (Some i, st) \<Rightarrow>
                    Some (True, mpl_upd_message d s i (\<lambda>m. m\<lparr>transmit_done := \<not> dir_up buf\<rparr>) st))"

definition mpl_forwarder_process_message ::
    "mpl_env \<Rightarrow> u32 \<Rightarrow> bool \<Rightarrow> bool \<Rightarrow> buffer_t \<Rightarrow> nat option \<Rightarrow> bool \<Rightarrow> mpl_state
      \<Rightarrow> (bool \<times> mpl_state) option" where
  "mpl_forwarder_process_message env now seed_ok msg_ok buf dptr seeding st =
     (let opt_data = drop (mpl_option_data_offset buf) (buf_data buf);
          seed_id_type = drop_bit MPL_OPT_S_SHIFT (opt_data ! 0 AND MPL_OPT_S_MASK)
      in if \<not> seeding \<and> multicast_loop buf then Some (True, st)
         else case (case dptr of Some d \<Rightarrow> Some d
                    | None \<Rightarrow> mpl_domain_lookup_with_realm_check st (buf_interface buf) (dst_sa buf)) of
           None \<Rightarrow> Some (False, st)
         | Some d \<Rightarrow>
             let sid = (if seed_id_type = MPL_SEED_IPV6_SRC then src_sa buf else drop 2 opt_data);
                 len = (if seed_id_type = MPL_SEED_IPV6_SRC then 16 else mpl_seed_id_len seed_id_type)
             in case mpl_seed_lookup (mpl_domains st ! d) len sid of
                  Some s \<Rightarrow> mpl_process_on_seed env now msg_ok buf d s seeding st
                | None \<Rightarrow>
                    (case mpl_seed_create seed_ok d len sid (opt_data ! 1) st of
                       (None, st) \<Rightarrow> Some (False, st)
                     | (Some s, st) \<Rightarrow> mpl_process_on_seed env now msg_ok buf d s seeding st))"

end
