(* ===== verification/MplControl.thy ===== *)
theory MplControl
  imports Mpl
begin

text \<open>
  The timers of \<open>MPL/mpl.c\<close>, the control messages they send and those a node receives, and the
  hop-by-hop option of data messages.
\<close>

section \<open>Sending\<close>

text \<open>\<open>ok\<close> is the success of \<open>buffer_get\<close>.\<close>

definition mpl_buffer_transmit :: "mpl_env \<Rightarrow> bool \<Rightarrow> nat \<Rightarrow> mpl_buffered_message_t \<Rightarrow> bool \<Rightarrow> mpl_state \<Rightarrow> mpl_state" where
  "mpl_buffer_transmit env ok d m newest st =
     (let ip_len = unat (mpl_buffer_size env m) in
      if \<not> ok then st
      else
        let pkt = take ip_len (msg_bytes m);
            off = mpl_opt_data_offset m;
            pkt = (if newest then pkt[off := pkt ! off OR MPL_OPT_M]
                   else pkt[off := pkt ! off AND NOT MPL_OPT_M])
        in mpl_emit (Multicast_tx (interface (mpl_domains st ! d)) pkt) st)"

text \<open>
  \<open>mpl_send_control\<close>: the source is the first seed id that is an address of the interface; the
  space asked for is the sum of the sizes, a seed before the source is found being counted
  without it.
\<close>

definition mpl_control_source :: "mpl_env \<Rightarrow> mpl_domain \<Rightarrow> bytes option \<times> u16" where
  "mpl_control_source env domain =
     fold (\<lambda>seed (src, size).
             let src = (if src = None \<and> id_len seed = 16
                            \<and> addr_is_assigned_to_interface env (interface domain) (seed_id seed)
                        then Some (seed_id seed) else src)
             in (src, size + mpl_seed_info_size seed src))
       (seeds domain) (None, 0)"

definition mpl_control_payload :: "mpl_env \<Rightarrow> bytes option \<Rightarrow> mpl_domain \<Rightarrow> bytes option" where
  "mpl_control_payload env src domain =
     fold_opt (\<lambda>seed out. map_option (\<lambda>info. out @ info) (mpl_write_seed_info env seed src))
       (seeds domain) []"

definition mpl_send_control :: "mpl_env \<Rightarrow> bool \<Rightarrow> nat \<Rightarrow> mpl_state \<Rightarrow> mpl_state option" where
  "mpl_send_control env ok d st =
     (let domain = mpl_domains st ! d;
          (src, size) = mpl_control_source env domain
      in if \<not> ok then Some st
         else case mpl_control_payload env src domain of
           None \<Rightarrow> None
         | Some out \<Rightarrow>
             if length out > unat size then None
             else Some (mpl_emit (Control_tx (interface domain) (ll_scope (address domain)) src out) st))"

section \<open>Timers\<close>

text \<open>
  \<open>mpl_fast_timer2\<close>: one tick of every timer. \<open>bok\<close> tells for each transmission whether a
  buffer is available. The accumulated flag is \<open>need_timer\<close>.
\<close>

definition mpl_message_tick ::
    "mpl_env \<Rightarrow> (nat list \<Rightarrow> bool) \<Rightarrow> nat \<Rightarrow> nat \<Rightarrow> nat \<Rightarrow> bool \<times> mpl_state \<Rightarrow> bool \<times> mpl_state" where
  "mpl_message_tick env bok d s i = (\<lambda>(need, st).
     let params = data_trickle_params (mpl_domains st ! d);
         m = messages (mpl_seed_at st d s) ! i;
         (fire, t) = trickle_timer (rnd env [d, s, i]) params 1 (msg_trickle m);
         st = mpl_upd_message d s i (\<lambda>m. m\<lparr>msg_trickle := t\<rparr>) st;
         newest = (Suc i = length (messages (mpl_seed_at st d s)));
         st = (if fire \<and> \<not> transmit_done m
               then mpl_buffer_transmit env (bok [d, s, i]) d m newest st else st)
     in (need \<or> trickle_running t params, st))"

definition mpl_domain_tick ::
    "mpl_env \<Rightarrow> (nat list \<Rightarrow> bool) \<Rightarrow> nat \<Rightarrow> bool \<times> mpl_state \<Rightarrow> (bool \<times> mpl_state) option" where
  "mpl_domain_tick env bok d = (\<lambda>(need, st).
     let params = control_trickle_params (mpl_domains st ! d);
         (fire, t) = trickle_timer (rnd env [d]) params 1 (dom_trickle (mpl_domains st ! d));
         st = mpl_upd_domain d (\<lambda>domain. domain\<lparr>dom_trickle := t\<rparr>) st
     in case (if fire then mpl_send_control env (bok [d]) d st else Some st) of
          None \<Rightarrow> None
        | Some st \<Rightarrow>
            let (need, st) =
              fold (\<lambda>s ns. fold (mpl_message_tick env bok d s) [0..<length (messages (mpl_seed_at (snd ns) d s))] ns)
                [0..<length (seeds (mpl_domains st ! d))] (need, st)
            in Some (need \<or> trickle_running t params, st))"

definition mpl_fast_timer2 :: "mpl_env \<Rightarrow> (nat list \<Rightarrow> bool) \<Rightarrow> mpl_state \<Rightarrow> mpl_state option" where
  "mpl_fast_timer2 env bok st =
     (let st = st\<lparr>mpl_timer2_running := False\<rparr> in
      case fold_opt (mpl_domain_tick env bok) [0..<length (mpl_domains st)] (False, st) of
        None \<Rightarrow> None
      | Some (need_timer, st) \<Rightarrow> Some (if need_timer then mpl_schedule_timer2 st else st))"

text \<open>
  \<open>mpl_slow_timer\<close>: the first message of a seed is deleted as long as its timer is stopped and it
  is too old; \<open>n\<close> bounds the number of messages left. A seed whose lifetime has run out is
  deleted, the next one then having its position.
\<close>

fun mpl_slow_messages :: "mpl_env \<Rightarrow> u32 \<Rightarrow> u32 \<Rightarrow> nat \<Rightarrow> nat \<Rightarrow> nat \<Rightarrow> mpl_state \<Rightarrow> mpl_state" where
  "mpl_slow_messages env now limit d s 0 st = st"
| "mpl_slow_messages env now limit d s (Suc n) st =
     (let m = messages (mpl_seed_at st d s) ! 0 in
      if \<not> trickle_running (msg_trickle m) (data_trickle_params (mpl_domains st ! d))
         \<and> (now - msg_timestamp m) div 10 \<ge> limit
      then mpl_slow_messages env now limit d s n
             (mpl_buffer_delete env d s 0
                (mpl_upd_seed d s (\<lambda>seed. seed\<lparr>min_sequence := mpl_buffer_sequence m + 1\<rparr>) st))
      else st)"

fun mpl_slow_seeds :: "mpl_env \<Rightarrow> u32 \<Rightarrow> u16 \<Rightarrow> u32 \<Rightarrow> nat \<Rightarrow> nat \<Rightarrow> nat \<Rightarrow> mpl_state \<Rightarrow> mpl_state" where
  "mpl_slow_seeds env now seconds limit d 0 s st = st"
| "mpl_slow_seeds env now seconds limit d (Suc n) s st =
     (if seed_lifetime (mpl_seed_at st d s) > seconds
      then
        let st = mpl_upd_seed d s (\<lambda>seed. seed\<lparr>seed_lifetime := seed_lifetime seed - seconds\<rparr>) st;
            st = mpl_slow_messages env now limit d s (length (messages (mpl_seed_at st d s))) st
        in mpl_slow_seeds env now seconds limit d n (Suc s) st
      else mpl_slow_seeds env now seconds limit d n s (mpl_seed_delete env d s st))"

definition mpl_slow_timer :: "mpl_env \<Rightarrow> u32 \<Rightarrow> u16 \<Rightarrow> mpl_state \<Rightarrow> mpl_state" where
  "mpl_slow_timer env now seconds st =
     fold (\<lambda>d st.
       let limit = ucast (seed_set_entry_lifetime (mpl_domains st ! d)) * 10;
           limit = (if limit > MAX_BUFFERED_MESSAGE_LIFETIME then MAX_BUFFERED_MESSAGE_LIFETIME else limit)
       in mpl_slow_seeds env now seconds limit d (length (seeds (mpl_domains st ! d))) 0 st)
       [0..<length (mpl_domains st)] st"

section \<open>Receiving control messages\<close>

text \<open>
  The loop over the bitmap of one seed: the counter is an 8-bit integer, so that the test
  \<open>i / 8 < bm_len\<close> never fails when \<open>bm_len\<close> is 32 or more.
\<close>

partial_function (option) mpl_scan_bits ::
    "mpl_env \<Rightarrow> bool \<Rightarrow> u8 \<Rightarrow> bytes \<Rightarrow> u8 \<Rightarrow> u8 \<Rightarrow> bool \<times> mpl_seed_t \<Rightarrow> (bool \<times> mpl_seed_t) option" where
  "mpl_scan_bits env new_colour min_seqno ptr bm_len i ts =
     (if unat i div 8 < unat bm_len
      then mpl_scan_bits env new_colour min_seqno ptr bm_len (i + 1)
        (if bit_test env ptr i
         then case mpl_buffer_lookup (snd ts) (min_seqno + i) of
                Some j \<Rightarrow> (fst ts, (snd ts)\<lparr>messages := (messages (snd ts))
                              [j := (messages (snd ts) ! j)\<lparr>msg_colour := new_colour\<rparr>]\<rparr>)
              | None \<Rightarrow>
                  if common_serial_number_greater_8 env (min_seqno + i) (min_sequence (snd ts))
                  then (True, snd ts) else ts
         else ts)
      else Some ts)"

text \<open>The entry of one seed that is known here.\<close>

definition mpl_scan_seed ::
    "mpl_env \<Rightarrow> bool \<Rightarrow> u8 \<Rightarrow> u8 \<Rightarrow> bytes \<Rightarrow> bool \<Rightarrow> mpl_seed_t \<Rightarrow> (bool \<times> mpl_seed_t) option" where
  "mpl_scan_seed env new_colour min_seqno bm_len ptr they seed =
     (let seed = seed\<lparr>seed_colour := new_colour\<rparr>;
          seed = seed\<lparr>messages := map (\<lambda>m. if common_serial_number_greater_8 env min_seqno (mpl_buffer_sequence m)
                                          then m\<lparr>msg_colour := new_colour\<rparr> else m) (messages seed)\<rparr>
      in mpl_scan_bits env new_colour min_seqno ptr bm_len 0 (they, seed))"

text \<open>The loop over the entries of the message; it stops at the first malformed one.\<close>

function mpl_scan_control ::
    "mpl_env \<Rightarrow> bytes \<Rightarrow> bool \<Rightarrow> bytes \<Rightarrow> bool \<times> mpl_domain \<Rightarrow> (bool \<times> mpl_domain) option" where
  "mpl_scan_control env src new_colour ptr (they, domain) =
     (if length ptr = 0 then Some (they, domain)
      else if length ptr < 2 then Some (they, domain)
      else
        let min_seqno = ptr ! 0;
            bm_len = drop_bit 2 (ptr ! 1);
            seed_id_type = ptr ! 1 AND 3;
            len = mpl_seed_id_len seed_id_type;
            rest = drop 2 ptr
        in if bm_len > 32 \<or> length rest < len + unat bm_len then Some (they, domain)
           else
             let sid = (if seed_id_type = MPL_SEED_IPV6_SRC then src else rest);
                 id_length = (if seed_id_type = MPL_SEED_IPV6_SRC then 16 else len);
                 bits = (if seed_id_type = MPL_SEED_IPV6_SRC then rest else drop len rest)
             in case mpl_seed_lookup domain id_length sid of
                  None \<Rightarrow> mpl_scan_control env src new_colour (drop (unat bm_len) bits) (True, domain)
                | Some s \<Rightarrow>
                    (case mpl_scan_seed env new_colour min_seqno bm_len bits they (seeds domain ! s) of
                       None \<Rightarrow> None
                     | Some (they, seed) \<Rightarrow>
                         mpl_scan_control env src new_colour (drop (unat bm_len) bits)
                           (they, domain\<lparr>seeds := (seeds domain)[s := seed]\<rparr>)))"
  by pat_completeness auto

termination
  by (relation "measure (\<lambda>(env, src, c, ptr, td). length ptr)") (auto simp: Let_def)

declare mpl_scan_control.simps [simp del]

text \<open>Seeds and messages that were not mentioned; the flag is \<open>we_have_new_data\<close>.\<close>

definition mpl_unmentioned_message ::
    "mpl_env \<Rightarrow> bool \<Rightarrow> nat \<Rightarrow> nat \<Rightarrow> nat \<Rightarrow> bool \<times> mpl_state \<Rightarrow> bool \<times> mpl_state" where
  "mpl_unmentioned_message env new_colour d s i = (\<lambda>(we, st).
     if msg_colour (messages (mpl_seed_at st d s) ! i) \<noteq> new_colour
     then (True, mpl_buffer_inconsistent env d s i
                   (mpl_upd_message d s i (\<lambda>m. m\<lparr>msg_colour := new_colour\<rparr>) st))
     else (we, st))"

definition mpl_unmentioned_seed ::
    "mpl_env \<Rightarrow> bool \<Rightarrow> nat \<Rightarrow> nat \<Rightarrow> bool \<times> mpl_state \<Rightarrow> bool \<times> mpl_state" where
  "mpl_unmentioned_seed env new_colour d s = (\<lambda>(we, st).
     fold (mpl_unmentioned_message env new_colour d s) [0..<length (messages (mpl_seed_at st d s))]
       (if seed_colour (mpl_seed_at st d s) \<noteq> new_colour
        then (True, mpl_upd_seed d s (\<lambda>seed. seed\<lparr>seed_colour := new_colour\<rparr>) st)
        else (we, st)))"

definition mpl_control_handler ::
    "mpl_env \<Rightarrow> buffer_t \<Rightarrow> protocol_interface_info_entry_t \<Rightarrow> mpl_state \<Rightarrow> mpl_state option" where
  "mpl_control_handler env buf cur st =
     (if \<not> addr_is_ipv6_multicast (dst_sa buf)
         \<or> addr_ipv6_multicast_scope (dst_sa buf) \<noteq> IPV6_SCOPE_LINK_LOCAL \<or> opt_hop_limit buf \<noteq> 255
      then Some st
      else case mpl_domain_lookup_ignoring_scop st (if_id cur) (dst_sa buf) of
        None \<Rightarrow> Some st
      | Some d \<Rightarrow>
          let new_colour = (\<not> dom_colour (mpl_domains st ! d));
              domain = (mpl_domains st ! d)\<lparr>dom_colour := new_colour\<rparr>
          in case mpl_scan_control env (src_sa buf) new_colour (buf_data buf) (False, domain) of
               None \<Rightarrow> None
             | Some (they, domain) \<Rightarrow>
                 let st = mpl_upd_domain d (\<lambda>_. domain) st;
                     (we, st) = fold (mpl_unmentioned_seed env new_colour d) [0..<length (seeds domain)] (False, st)
                 in Some (if they \<or> we then mpl_domain_inconsistent env d st
                          else mpl_upd_domain d (\<lambda>domain. domain\<lparr>dom_trickle :=
                                 trickle_consistent_heard (dom_trickle domain)\<rparr>) st))"

section \<open>The hop-by-hop option\<close>

definition mpl_hbh_len_check :: "bytes \<Rightarrow> u8 \<Rightarrow> bool" where
  "mpl_hbh_len_check opt_data opt_data_len =
     (if opt_data_len < 2 then False
      else if opt_data ! 0 AND MPL_OPT_V \<noteq> 0 then True
      else
        let seed_id_type = drop_bit MPL_OPT_S_SHIFT (opt_data ! 0 AND MPL_OPT_S_MASK)
        in if unat opt_data_len < 2 + mpl_seed_id_len seed_id_type then False else True)"

text \<open>\<open>off\<close> is the position of the option data in the packet.\<close>

definition mpl_process_hbh ::
    "buffer_t \<Rightarrow> protocol_interface_info_entry_t \<Rightarrow> nat \<Rightarrow> mpl_state \<Rightarrow> bool \<times> buffer_t" where
  "mpl_process_hbh buf cur off st =
     (if ext_hbh_mpl buf \<or> ll_security_bypass_rx buf then (False, buf)
      else if buf_data buf ! off AND MPL_OPT_V \<noteq> 0 then (False, buf)
      else if mpl_domain_lookup_with_realm_check st cur (dst_sa buf) = None then (False, buf)
      else (True, buf\<lparr>ext_hbh_mpl := True, mpl_option_data_offset := off\<rparr>))"

abbreviation IPV6_OPTION_MPL :: u8 where "IPV6_OPTION_MPL \<equiv> 0x6D"
abbreviation IPV6_OPTION_PADN :: u8 where "IPV6_OPTION_PADN \<equiv> 1"
abbreviation IPV6_NH_HOP_BY_HOP :: u8 where "IPV6_NH_HOP_BY_HOP \<equiv> 0"

datatype ipv6_exthdr_stage_t = IPV6_EXTHDR_SIZE | IPV6_EXTHDR_INSERT | IPV6_EXTHDR_MODIFY

datatype exthdr_result = Exthdr_value int | Exthdr_tunnel

text \<open>
  The parameters of \<open>mpl_exthdr_provider\<close> that come from the interface: the short address
  (\<open>mac_helper_mac16_address_get\<close>), the source address selected for the domain
  (\<open>addr_select_source\<close>), and the success of \<open>buffer_headroom\<close>.
\<close>

record exthdr_env =
  mac16 :: u16
  common_write_16_bit :: "u16 \<Rightarrow> bytes"
  selected_source :: "bytes option"
  headroom_ok :: bool

definition mpl_select_seed_id :: "exthdr_env \<Rightarrow> mpl_domain \<Rightarrow> protocol_interface_info_entry_t \<Rightarrow> (bytes \<times> nat) option" where
  "mpl_select_seed_id xe domain cur =
     (case seed_id_mode domain of
        MULTICAST_MPL_SEED_ID_LEN n \<Rightarrow> Some (dom_seed_id domain, n)
      | MULTICAST_MPL_SEED_ID_MAC_SHORT \<Rightarrow>
          if mac16 xe < 0xfffe then Some (common_write_16_bit xe (mac16 xe), 2) else Some (if_mac cur, 8)
      | MULTICAST_MPL_SEED_ID_MAC \<Rightarrow> Some (if_mac cur, 8)
      | MULTICAST_MPL_SEED_ID_IID_EUI64 \<Rightarrow> Some (iid_eui64 cur, 8)
      | MULTICAST_MPL_SEED_ID_IID_SLAAC \<Rightarrow> Some (iid_slaac cur, 8)
      | _ \<Rightarrow> map_option (\<lambda>a. (a, 16)) (selected_source xe))"

definition mpl_exthdr :: "u8 \<Rightarrow> bytes \<Rightarrow> nat \<Rightarrow> bytes" where
  "mpl_exthdr next_header sid len =
     (let extlen = (6 + len + 7) div 8 * 8 in
      [next_header, word_of_nat (extlen div 8 - 1), IPV6_OPTION_MPL, 2 + word_of_nat len,
       push_bit MPL_OPT_S_SHIFT (mpl_seed_id_type len), 0] @ take len sid
      @ (if len \<noteq> 2 then [IPV6_OPTION_PADN, 0] else []))"

definition mpl_exthdr_modify ::
    "mpl_env \<Rightarrow> u32 \<Rightarrow> bool \<Rightarrow> bool \<Rightarrow> nat option \<Rightarrow> buffer_t \<Rightarrow> mpl_state
      \<Rightarrow> (buffer_t option \<times> exthdr_result option \<times> mpl_state) option" where
  "mpl_exthdr_modify env now seed_ok msg_ok dptr buf st =
     (case dptr of
        None \<Rightarrow> Some (Some (buf\<lparr>dst_sa := ADDR_ALL_MPL_FORWARDERS, src_addr_none := True\<rparr>),
                      Some Exthdr_tunnel, st)
      | Some d \<Rightarrow>
          if ext_hbh_mpl_unfilled buf
          then
            let iphdr = buf_data buf;
                ext = drop IPV6_HDRLEN iphdr
            in if iphdr ! IPV6_HDROFF_NH \<noteq> IPV6_NH_HOP_BY_HOP \<or> ext ! 2 \<noteq> IPV6_OPTION_MPL
               then Some (None, None, st)
               else
                 let sq = sequence (mpl_domains st ! d);
                     buf = buf\<lparr>buf_data := iphdr[IPV6_HDRLEN + 5 := sq], ext_hbh_mpl_unfilled := False,
                               mpl_option_data_offset := IPV6_HDRLEN + 4\<rparr>;
                     st = mpl_upd_domain d (\<lambda>domain. domain\<lparr>sequence := sequence domain + 1\<rparr>) st
                 in map_option (\<lambda>(r, st). (Some buf, Some (Exthdr_value 0), st))
                      (mpl_forwarder_process_message env now seed_ok msg_ok buf (Some d) True st)
          else Some (Some buf, Some (Exthdr_value 0), st))"

definition mpl_exthdr_provider ::
    "mpl_env \<Rightarrow> exthdr_env \<Rightarrow> u32 \<Rightarrow> bool \<Rightarrow> bool \<Rightarrow> buffer_t \<Rightarrow> ipv6_exthdr_stage_t \<Rightarrow> mpl_state
      \<Rightarrow> (buffer_t option \<times> exthdr_result option \<times> mpl_state) option" where
  "mpl_exthdr_provider env xe now seed_ok msg_ok buf stage st =
     (let dptr = mpl_domain_lookup_with_realm_check st (buf_interface buf) (dst_sa buf) in
      if stage = IPV6_EXTHDR_MODIFY then mpl_exthdr_modify env now seed_ok msg_ok dptr buf st
      else case dptr of
        None \<Rightarrow> Some (Some buf, Some (Exthdr_value 0), st)
      | Some d \<Rightarrow>
          case mpl_select_seed_id xe (mpl_domains st ! d) (buf_interface buf) of
            None \<Rightarrow> Some (None, None, st)
          | Some (sid, len) \<Rightarrow>
              let len = (if \<not> ws_info (buf_interface buf) \<and> len = 16 \<and> addr_ipv6_equal sid (src_sa buf)
                         then 0 else len)
              in case stage of
                   IPV6_EXTHDR_SIZE \<Rightarrow> Some (Some buf, Some (Exthdr_value (4 + int len)), st)
                 | IPV6_EXTHDR_INSERT \<Rightarrow>
                     if \<not> headroom_ok xe then Some (None, None, st)
                     else Some (Some (buf\<lparr>buf_data := mpl_exthdr (opt_type buf) sid len @ buf_data buf,
                                         opt_type := IPV6_NH_HOP_BY_HOP, ext_hbh_mpl := True,
                                         ext_hbh_mpl_unfilled := True\<rparr>),
                                Some (Exthdr_value 0), st)
                 | IPV6_EXTHDR_MODIFY \<Rightarrow> Some (None, None, st))"

end
