(* ===== verification/MplInv.thy ===== *)
theory MplInv
  imports MplControl
begin

text \<open>
  The accounting of buffered messages: \<open>mpl_total_buffered\<close> is the number of bytes of all
  buffered messages and never exceeds the limit, whatever the handlers do. With it the loop
  that makes space for a message ends, and the handlers return.
\<close>

declare upt_rec_numeral [simp del]

section \<open>Sizes\<close>

definition seed_sizes :: "mpl_env \<Rightarrow> mpl_seed_t \<Rightarrow> nat" where
  "seed_sizes env seed = sum_list (map (\<lambda>m. unat (mpl_buffer_size env m)) (messages seed))"

definition domain_sizes :: "mpl_env \<Rightarrow> mpl_domain \<Rightarrow> nat" where
  "domain_sizes env domain = sum_list (map (seed_sizes env) (seeds domain))"

definition mpl_sizes :: "mpl_env \<Rightarrow> mpl_state \<Rightarrow> nat" where
  "mpl_sizes env st = sum_list (map (domain_sizes env) (mpl_domains st))"

definition mpl_inv :: "mpl_env \<Rightarrow> mpl_state \<Rightarrow> bool" where
  "mpl_inv env st \<longleftrightarrow> unat (mpl_total_buffered st) = mpl_sizes env st \<and>
     mpl_sizes env st \<le> MAX_BUFFERED_MESSAGES_SIZE"

lemma sum_list_map_update:
  fixes f :: "'a \<Rightarrow> nat"
  assumes "i < length xs"
  shows "sum_list (map f (xs[i := y])) + f (xs ! i) = sum_list (map f xs) + f y"
  using assms
proof (induction xs arbitrary: i)
  case (Cons x xs)
  then show ?case by (cases i) force+
qed simp

lemma sum_list_map_remove:
  fixes f :: "'a \<Rightarrow> nat"
  assumes "i < length xs"
  shows "sum_list (map f (list_remove i xs)) + f (xs ! i) = sum_list (map f xs)"
proof -
  have "sum_list (map f (take i xs @ xs ! i # drop (Suc i) xs)) =
      sum_list (map f (list_remove i xs)) + f (xs ! i)"
    by (simp add: list_remove_def)
  with id_take_nth_drop [OF assms] show ?thesis by simp
qed

text \<open>Positions that exist.\<close>

definition mpl_seed_ptr :: "mpl_state \<Rightarrow> nat \<Rightarrow> nat \<Rightarrow> bool" where
  "mpl_seed_ptr st d s \<longleftrightarrow> d < length (mpl_domains st) \<and> s < length (seeds (mpl_domains st ! d))"

lemma mpl_sizes_upd_domain:
  assumes "d < length (mpl_domains st)"
  shows "mpl_sizes env (mpl_upd_domain d f st) + domain_sizes env (mpl_domains st ! d) =
    mpl_sizes env st + domain_sizes env (f (mpl_domains st ! d))"
  using sum_list_map_update [OF assms, of "domain_sizes env"]
  by (simp add: mpl_sizes_def mpl_upd_domain_def)

lemma mpl_sizes_upd_seed:
  assumes "mpl_seed_ptr st d s"
  shows "mpl_sizes env (mpl_upd_seed d s f st) + seed_sizes env (mpl_seed_at st d s) =
    mpl_sizes env st + seed_sizes env (f (mpl_seed_at st d s))"
  using mpl_sizes_upd_domain [of d st env
      "\<lambda>domain. domain\<lparr>seeds := (seeds domain)[s := f (seeds domain ! s)]\<rparr>"]
    sum_list_map_update [of s "seeds (mpl_domains st ! d)" "seed_sizes env"
      "f (seeds (mpl_domains st ! d) ! s)"] assms
  by (simp add: mpl_upd_seed_def mpl_seed_ptr_def mpl_seed_at_def domain_sizes_def)

text \<open>What the sizes depend on: the packets that are buffered, seed by seed.\<close>

definition mpl_packets :: "mpl_state \<Rightarrow> bytes list list list" where
  "mpl_packets st = map (\<lambda>domain. map (\<lambda>seed. map msg_bytes (messages seed)) (seeds domain)) (mpl_domains st)"

lemma mpl_sizes_packets: "mpl_sizes env st =
    sum_list (map (\<lambda>ss. sum_list (map (\<lambda>ms. sum_list (map (\<lambda>p.
      unat (40 + common_read_16_bit env (p ! 4) (p ! 5))) ms)) ss)) (mpl_packets st))"
  by (simp add: mpl_sizes_def domain_sizes_def [abs_def] seed_sizes_def [abs_def] mpl_packets_def
      mpl_buffer_size_def comp_def)

lemma mpl_inv_packets:
  assumes "mpl_packets st' = mpl_packets st" and "mpl_total_buffered st' = mpl_total_buffered st"
  shows "mpl_inv env st' = mpl_inv env st"
  by (simp add: mpl_inv_def mpl_sizes_packets assms)

section \<open>Frames\<close>

lemma mpl_emit_frame [simp]:
  "mpl_domains (mpl_emit ev st) = mpl_domains st"
  "mpl_total_buffered (mpl_emit ev st) = mpl_total_buffered st"
  "mpl_timer2_running (mpl_emit ev st) = mpl_timer2_running st"
  "mpl_initted (mpl_emit ev st) = mpl_initted st"
  by (simp_all add: mpl_emit_def)

lemma mpl_schedule_timer2_frame [simp]:
  "mpl_domains (mpl_schedule_timer2 st) = mpl_domains st"
  "mpl_total_buffered (mpl_schedule_timer2 st) = mpl_total_buffered st"
  "mpl_timer2_running (mpl_schedule_timer2 st)"
  by (simp_all add: mpl_schedule_timer2_def)

lemma mpl_upd_frame [simp]:
  "mpl_total_buffered (mpl_upd_domain d f st) = mpl_total_buffered st"
  "length (mpl_domains (mpl_upd_domain d f st)) = length (mpl_domains st)"
  "mpl_total_buffered (mpl_upd_seed d s g st) = mpl_total_buffered st"
  "length (mpl_domains (mpl_upd_seed d s g st)) = length (mpl_domains st)"
  "mpl_total_buffered (mpl_upd_message d s i h st) = mpl_total_buffered st"
  "length (mpl_domains (mpl_upd_message d s i h st)) = length (mpl_domains st)"
  by (simp_all add: mpl_upd_domain_def mpl_upd_seed_def mpl_upd_message_def)

lemma mpl_packets_emit [simp]: "mpl_packets (mpl_emit ev st) = mpl_packets st"
  and mpl_packets_schedule [simp]: "mpl_packets (mpl_schedule_timer2 st) = mpl_packets st"
  by (simp_all add: mpl_packets_def)

lemma map_update_same:
  assumes "f (g (xs ! i)) = f (xs ! i)"
  shows "map f (xs[i := g (xs ! i)]) = map f xs"
proof (cases "i < length xs")
  case True
  with assms show ?thesis by (simp add: map_update list_update_same_conv)
next
  case False
  then show ?thesis by (simp add: list_update_beyond)
qed

lemma mpl_packets_upd_domain:
  assumes "seeds (f (mpl_domains st ! d)) = seeds (mpl_domains st ! d)"
  shows "mpl_packets (mpl_upd_domain d f st) = mpl_packets st"
  unfolding mpl_packets_def mpl_upd_domain_def
  by simp (rule map_update_same, simp add: assms)

lemma mpl_packets_upd_seed:
  assumes "map msg_bytes (messages (f (mpl_seed_at st d s))) = map msg_bytes (messages (mpl_seed_at st d s))"
  shows "mpl_packets (mpl_upd_seed d s f st) = mpl_packets st"
  unfolding mpl_packets_def mpl_upd_seed_def mpl_upd_domain_def
  by simp (rule map_update_same, simp, rule map_update_same, rule assms [unfolded mpl_seed_at_def])

lemma mpl_packets_upd_message:
  assumes "\<And>m. msg_bytes (f m) = msg_bytes m"
  shows "mpl_packets (mpl_upd_message d s i f st) = mpl_packets st"
  unfolding mpl_upd_message_def
  by (rule mpl_packets_upd_seed) (simp, rule map_update_same, simp add: assms)

text \<open>Two states with the same packets have the same valid positions.\<close>

lemma mpl_packets_shape:
  assumes "mpl_packets st' = mpl_packets st"
  shows "length (mpl_domains st') = length (mpl_domains st)"
    and "d < length (mpl_domains st) \<Longrightarrow>
      length (seeds (mpl_domains st' ! d)) = length (seeds (mpl_domains st ! d))"
    and "mpl_seed_ptr st' d s = mpl_seed_ptr st d s"
    and "mpl_seed_ptr st d s \<Longrightarrow>
      map msg_bytes (messages (mpl_seed_at st' d s)) = map msg_bytes (messages (mpl_seed_at st d s))"
proof -
  show len: "length (mpl_domains st') = length (mpl_domains st)"
    using assms [unfolded mpl_packets_def, THEN map_eq_imp_length_eq] .
  have nth: "map (\<lambda>seed. map msg_bytes (messages seed)) (seeds (mpl_domains st' ! d)) =
      map (\<lambda>seed. map msg_bytes (messages seed)) (seeds (mpl_domains st ! d))"
    if "d < length (mpl_domains st)" for d
    using arg_cong [OF assms, of "\<lambda>x. x ! d"] that len by (simp add: mpl_packets_def)
  then show lens: "d < length (mpl_domains st) \<Longrightarrow>
      length (seeds (mpl_domains st' ! d)) = length (seeds (mpl_domains st ! d))"
    using map_eq_imp_length_eq by blast
  then show "mpl_seed_ptr st' d s = mpl_seed_ptr st d s"
    by (auto simp: mpl_seed_ptr_def len)
  assume "mpl_seed_ptr st d s"
  then show "map msg_bytes (messages (mpl_seed_at st' d s)) = map msg_bytes (messages (mpl_seed_at st d s))"
    using arg_cong [OF nth [of d], of "\<lambda>x. x ! s"] lens
    by (simp add: mpl_seed_ptr_def mpl_seed_at_def)
qed

lemma mpl_seed_at_upd_seed:
  assumes "mpl_seed_ptr st d s"
  shows "mpl_seed_at (mpl_upd_seed d s f st) d' s' =
    (if d' = d \<and> s' = s then f (mpl_seed_at st d s) else mpl_seed_at st d' s')"
  using assms
  by (auto simp: mpl_seed_at_def mpl_upd_seed_def mpl_upd_domain_def mpl_seed_ptr_def nth_list_update)

lemma mpl_seed_ptr_upd_seed [simp]:
  "mpl_seed_ptr (mpl_upd_seed d s f st) d' s' = mpl_seed_ptr st d' s'"
  by (cases "d < length (mpl_domains st)")
    (auto simp: mpl_upd_seed_def mpl_upd_domain_def mpl_seed_ptr_def nth_list_update list_update_beyond)

section \<open>Deleting\<close>

lemma mpl_buffer_delete_facts:
  assumes "mpl_seed_ptr st d s"
  shows "mpl_seed_at (mpl_buffer_delete env d s i st) d s =
      (mpl_seed_at st d s)\<lparr>messages := list_remove i (messages (mpl_seed_at st d s))\<rparr>"
    and "mpl_seed_ptr (mpl_buffer_delete env d s i st) d' s' = mpl_seed_ptr st d' s'"
    and "mpl_sizes env (mpl_buffer_delete env d s i st) + seed_sizes env (mpl_seed_at st d s) =
      mpl_sizes env st + sum_list (map (\<lambda>m. unat (mpl_buffer_size env m))
        (list_remove i (messages (mpl_seed_at st d s))))"
proof -
  let ?st = "st\<lparr>mpl_total_buffered := mpl_total_buffered st -
      mpl_buffer_size env (messages (mpl_seed_at st d s) ! i)\<rparr>"
  have p: "mpl_seed_ptr ?st d s" using assms by (simp add: mpl_seed_ptr_def)
  have same: "mpl_seed_at ?st = mpl_seed_at st" "mpl_sizes env ?st = mpl_sizes env st"
    "mpl_seed_ptr ?st = mpl_seed_ptr st"
    by (simp_all add: mpl_seed_at_def mpl_sizes_def mpl_seed_ptr_def fun_eq_iff)
  show "mpl_seed_at (mpl_buffer_delete env d s i st) d s =
      (mpl_seed_at st d s)\<lparr>messages := list_remove i (messages (mpl_seed_at st d s))\<rparr>"
    by (simp add: mpl_buffer_delete_def Let_def mpl_seed_at_upd_seed [OF p] same)
  show "mpl_seed_ptr (mpl_buffer_delete env d s i st) d' s' = mpl_seed_ptr st d' s'"
    by (simp add: mpl_buffer_delete_def Let_def same)
  show "mpl_sizes env (mpl_buffer_delete env d s i st) + seed_sizes env (mpl_seed_at st d s) =
      mpl_sizes env st + sum_list (map (\<lambda>m. unat (mpl_buffer_size env m))
        (list_remove i (messages (mpl_seed_at st d s))))"
    using mpl_sizes_upd_seed [OF p, of env "\<lambda>seed. seed\<lparr>messages := list_remove i (messages seed)\<rparr>"]
    by (simp add: mpl_buffer_delete_def Let_def same seed_sizes_def)
qed

lemma mpl_buffer_delete_inv:
  assumes "mpl_inv env st" and "mpl_seed_ptr st d s" and "i < length (messages (mpl_seed_at st d s))"
  shows "mpl_inv env (mpl_buffer_delete env d s i st)"
    and "mpl_sizes env (mpl_buffer_delete env d s i st) =
      mpl_sizes env st - unat (mpl_buffer_size env (messages (mpl_seed_at st d s) ! i))"
    and "unat (mpl_buffer_size env (messages (mpl_seed_at st d s) ! i)) \<le> mpl_sizes env st"
proof -
  let ?m = "messages (mpl_seed_at st d s) ! i"
  have eq: "mpl_sizes env (mpl_buffer_delete env d s i st) + unat (mpl_buffer_size env ?m) = mpl_sizes env st"
    using mpl_buffer_delete_facts(3) [OF assms(2), of env i]
      sum_list_map_remove [OF assms(3), of "\<lambda>m. unat (mpl_buffer_size env m)"]
    by (simp add: seed_sizes_def)
  then show "mpl_sizes env (mpl_buffer_delete env d s i st) = mpl_sizes env st - unat (mpl_buffer_size env ?m)"
    and le: "unat (mpl_buffer_size env ?m) \<le> mpl_sizes env st" by simp_all
  have "mpl_buffer_size env ?m \<le> mpl_total_buffered st"
    using le assms(1) by (simp add: mpl_inv_def word_le_nat_alt)
  then have "unat (mpl_total_buffered (mpl_buffer_delete env d s i st)) =
      unat (mpl_total_buffered st) - unat (mpl_buffer_size env ?m)"
    by (simp add: mpl_buffer_delete_def Let_def unat_diff_le)
  with eq assms(1) show "mpl_inv env (mpl_buffer_delete env d s i st)"
    by (simp add: mpl_inv_def)
qed

lemma list_remove_length: "i < length xs \<Longrightarrow> length (list_remove i xs) = length xs - 1"
  by (simp add: list_remove_def min_def)

lemma list_remove_0 [simp]: "list_remove 0 (x # xs) = xs"
  by (simp add: list_remove_def)

text \<open>What deleting messages and moving \<open>MinSequence\<close> leaves alone.\<close>

definition mpl_skeleton :: "mpl_state \<Rightarrow> (nat \<times> bytes \<times> trickle_params_t \<times> (nat \<times> bytes) list) list" where
  "mpl_skeleton st = map (\<lambda>domain. (interface domain, address domain, data_trickle_params domain,
     map (\<lambda>seed. (id_len seed, seed_id seed)) (seeds domain))) (mpl_domains st)"

lemma mpl_skeleton_upd_domain:
  assumes "interface (f (mpl_domains st ! d)) = interface (mpl_domains st ! d)"
    and "address (f (mpl_domains st ! d)) = address (mpl_domains st ! d)"
    and "data_trickle_params (f (mpl_domains st ! d)) = data_trickle_params (mpl_domains st ! d)"
    and "map (\<lambda>seed. (id_len seed, seed_id seed)) (seeds (f (mpl_domains st ! d))) =
      map (\<lambda>seed. (id_len seed, seed_id seed)) (seeds (mpl_domains st ! d))"
  shows "mpl_skeleton (mpl_upd_domain d f st) = mpl_skeleton st"
  unfolding mpl_skeleton_def mpl_upd_domain_def
  by simp (rule map_update_same, simp add: assms)

lemma mpl_skeleton_upd_seed:
  assumes "\<And>seed. id_len (f seed) = id_len seed" and "\<And>seed. seed_id (f seed) = seed_id seed"
  shows "mpl_skeleton (mpl_upd_seed d s f st) = mpl_skeleton st"
  unfolding mpl_upd_seed_def
  by (rule mpl_skeleton_upd_domain) (simp_all, rule map_update_same, simp add: assms)

lemma mpl_skeleton_upd_message [simp]: "mpl_skeleton (mpl_upd_message d s i f st) = mpl_skeleton st"
  unfolding mpl_upd_message_def by (rule mpl_skeleton_upd_seed) simp_all

lemma mpl_skeleton_simps [simp]:
  "mpl_skeleton (mpl_emit ev st) = mpl_skeleton st"
  "mpl_skeleton (mpl_schedule_timer2 st) = mpl_skeleton st"
  "mpl_skeleton (st\<lparr>mpl_total_buffered := t\<rparr>) = mpl_skeleton st"
  "mpl_skeleton (st\<lparr>mpl_timer2_running := b\<rparr>) = mpl_skeleton st"
  by (simp_all add: mpl_skeleton_def)

lemma mpl_skeleton_delete [simp]: "mpl_skeleton (mpl_buffer_delete env d s i st) = mpl_skeleton st"
  unfolding mpl_buffer_delete_def Let_def by (subst mpl_skeleton_upd_seed) simp_all

lemma mpl_skeleton_shape:
  assumes "mpl_skeleton st' = mpl_skeleton st"
  shows "length (mpl_domains st') = length (mpl_domains st)"
    and "mpl_seed_ptr st' d s = mpl_seed_ptr st d s"
    and "d < length (mpl_domains st) \<Longrightarrow>
      interface (mpl_domains st' ! d) = interface (mpl_domains st ! d) \<and>
      address (mpl_domains st' ! d) = address (mpl_domains st ! d) \<and>
      data_trickle_params (mpl_domains st' ! d) = data_trickle_params (mpl_domains st ! d) \<and>
      map (\<lambda>seed. (id_len seed, seed_id seed)) (seeds (mpl_domains st' ! d)) =
      map (\<lambda>seed. (id_len seed, seed_id seed)) (seeds (mpl_domains st ! d))"
proof -
  show len: "length (mpl_domains st') = length (mpl_domains st)"
    using assms [unfolded mpl_skeleton_def, THEN map_eq_imp_length_eq] .
  show nth: "interface (mpl_domains st' ! d) = interface (mpl_domains st ! d) \<and>
      address (mpl_domains st' ! d) = address (mpl_domains st ! d) \<and>
      data_trickle_params (mpl_domains st' ! d) = data_trickle_params (mpl_domains st ! d) \<and>
      map (\<lambda>seed. (id_len seed, seed_id seed)) (seeds (mpl_domains st' ! d)) =
      map (\<lambda>seed. (id_len seed, seed_id seed)) (seeds (mpl_domains st ! d))"
    if "d < length (mpl_domains st)" for d
    using arg_cong [OF assms, of "\<lambda>x. x ! d"] that len by (simp add: mpl_skeleton_def)
  have "length (seeds (mpl_domains st' ! d)) = length (seeds (mpl_domains st ! d))"
    if "d < length (mpl_domains st)"
    using nth [OF that] map_eq_imp_length_eq by blast
  then show "mpl_seed_ptr st' d s = mpl_seed_ptr st d s"
    by (auto simp: mpl_seed_ptr_def len)
qed

subsection \<open>Freeing space\<close>

definition mpl_count :: "mpl_state \<Rightarrow> nat" where
  "mpl_count st = sum_list (map (\<lambda>domain. sum_list (map (\<lambda>seed. length (messages seed)) (seeds domain)))
     (mpl_domains st))"

lemma mpl_count_delete:
  assumes "mpl_seed_ptr st d s" and "i < length (messages (mpl_seed_at st d s))"
  shows "Suc (mpl_count (mpl_buffer_delete env d s i st)) = mpl_count st"
proof -
  let ?f = "\<lambda>domain. sum_list (map (\<lambda>seed. length (messages seed)) (seeds domain))"
  let ?dom = "mpl_domains st ! d" and ?seed = "mpl_seed_at st d s"
  let ?new = "?dom\<lparr>seeds := (seeds ?dom)[s := ?seed\<lparr>messages := list_remove i (messages ?seed)\<rparr>]\<rparr>"
  have d: "d < length (mpl_domains st)" and s: "s < length (seeds ?dom)"
    using assms(1) by (simp_all add: mpl_seed_ptr_def)
  have "?f ?new + length (messages ?seed) = ?f ?dom + length (list_remove i (messages ?seed))"
    using sum_list_map_update [OF s, of "\<lambda>seed. length (messages seed)"] by (simp add: mpl_seed_at_def)
  then have "Suc (?f ?new) = ?f ?dom"
    using assms(2) by (simp add: list_remove_length)
  moreover have "mpl_count (mpl_buffer_delete env d s i st) + ?f ?dom = mpl_count st + ?f ?new"
    using sum_list_map_update [OF d, of ?f ?new]
    by (simp add: mpl_count_def mpl_buffer_delete_def mpl_upd_seed_def mpl_upd_domain_def
        mpl_seed_at_def Let_def)
  ultimately show ?thesis by linarith
qed

lemma mpl_first_messages_mem:
  "(d, s, m) \<in> set (mpl_first_messages st) \<longleftrightarrow>
     mpl_seed_ptr st d s \<and> (\<exists>ms. messages (mpl_seed_at st d s) = m # ms)"
  by (auto simp: mpl_first_messages_def mpl_seed_ptr_def split: list.splits dest: sym)

lemma mpl_older_facts:
  "mpl_older now x prev \<noteq> None"
  "mpl_older now x prev = Some c \<Longrightarrow> c = x \<or> prev = Some c"
  by (cases x; auto simp: mpl_older_def split: option.splits prod.splits if_splits)+

lemma fold_mpl_older:
  "fold (mpl_older now) xs prev = None \<longleftrightarrow> xs = [] \<and> prev = None"
  "fold (mpl_older now) xs prev = Some c \<Longrightarrow> c \<in> set xs \<or> prev = Some c"
proof (induction xs arbitrary: prev)
  case (Cons x xs)
  { case 1 show ?case using Cons.IH(1) mpl_older_facts(1) [of now x prev] by simp }
  { case 2 with Cons.IH(2) [of "mpl_older now x prev"] mpl_older_facts(2) [of now x prev c]
    show ?case by auto }
qed simp_all

lemma mpl_free_space_cases:
  obtains (empty) "mpl_free_space env now st = st" "mpl_count st = 0"
  | (freed) d s m ms where "mpl_seed_ptr st d s" "messages (mpl_seed_at st d s) = m # ms"
      "mpl_free_space env now st = mpl_buffer_delete env d s 0
         (mpl_upd_seed d s (\<lambda>seed. seed\<lparr>min_sequence := mpl_buffer_sequence m + 1\<rparr>) st)"
proof (cases "fold (mpl_older now) (mpl_first_messages st) None")
  case None
  then have "mpl_first_messages st = []" using fold_mpl_older(1) by blast
  then have "messages seed = []" if "domain \<in> set (mpl_domains st)" "seed \<in> set (seeds domain)"
    for domain seed
  proof -
    from that obtain d s where ds: "d < length (mpl_domains st)" "mpl_domains st ! d = domain"
      "s < length (seeds domain)" "seeds domain ! s = seed"
      by (metis in_set_conv_nth)
    show ?thesis
    proof (cases "messages seed")
      case (Cons m ms)
      with ds have "(d, s, m) \<in> set (mpl_first_messages st)"
        by (simp add: mpl_first_messages_mem mpl_seed_ptr_def mpl_seed_at_def)
      with \<open>mpl_first_messages st = []\<close> show ?thesis by simp
    qed
  qed
  then have "mpl_count st = 0" by (auto simp: mpl_count_def)
  moreover have "mpl_free_space env now st = st" by (simp add: mpl_free_space_def None)
  ultimately show ?thesis using empty by blast
next
  case (Some c)
  obtain d s m where c: "c = (d, s, m)" by (cases c)
  from fold_mpl_older(2) [OF Some] have "(d, s, m) \<in> set (mpl_first_messages st)" by (simp add: c)
  then obtain ms where "mpl_seed_ptr st d s" "messages (mpl_seed_at st d s) = m # ms"
    by (auto simp: mpl_first_messages_mem)
  with freed show ?thesis by (simp add: mpl_free_space_def Some c)
qed

lemma mpl_upd_min_facts:
  fixes f :: "mpl_seed_t \<Rightarrow> mpl_seed_t"
  assumes "mpl_inv env st" and "\<And>seed. messages (f seed) = messages seed"
  shows "mpl_inv env (mpl_upd_seed d s f st)" and "mpl_count (mpl_upd_seed d s f st) = mpl_count st"
proof -
  have p: "mpl_packets (mpl_upd_seed d s f st) = mpl_packets st"
    by (rule mpl_packets_upd_seed) (simp add: assms(2))
  show "mpl_inv env (mpl_upd_seed d s f st)"
    using mpl_inv_packets [OF p] assms(1) by simp
  have "mpl_count st = sum_list (map (\<lambda>ss. sum_list (map length ss)) (mpl_packets st))" for st
    by (simp add: mpl_count_def mpl_packets_def comp_def)
  then show "mpl_count (mpl_upd_seed d s f st) = mpl_count st" by (simp add: p)
qed

lemma mpl_free_space_spec:
  assumes "mpl_inv env st"
  shows "mpl_inv env (mpl_free_space env now st)" and "mpl_skeleton (mpl_free_space env now st) = mpl_skeleton st"
    and "mpl_count st \<noteq> 0 \<Longrightarrow> mpl_count (mpl_free_space env now st) < mpl_count st"
proof -
  have "mpl_inv env (mpl_free_space env now st) \<and> mpl_skeleton (mpl_free_space env now st) = mpl_skeleton st \<and>
      (mpl_count st \<noteq> 0 \<longrightarrow> mpl_count (mpl_free_space env now st) < mpl_count st)"
  proof (cases rule: mpl_free_space_cases [of env now st])
    case empty
    with assms show ?thesis by simp
  next
    case (freed d s m ms)
    let ?f = "\<lambda>seed. seed\<lparr>min_sequence := mpl_buffer_sequence m + 1\<rparr>"
    let ?st = "mpl_upd_seed d s ?f st"
    have U: "mpl_inv env ?st" "mpl_count ?st = mpl_count st"
      by (rule mpl_upd_min_facts [OF assms]; simp)+
    have p: "mpl_seed_ptr ?st d s" using freed(1) by simp
    have i: "0 < length (messages (mpl_seed_at ?st d s))"
      by (simp add: mpl_seed_at_upd_seed [OF freed(1)] freed(2))
    show ?thesis
      using mpl_buffer_delete_inv(1) [OF U(1) p i] mpl_count_delete [OF p i, of env] U(2)
      by (simp add: freed(3) mpl_skeleton_upd_seed)
  qed
  then show "mpl_inv env (mpl_free_space env now st)"
    and "mpl_skeleton (mpl_free_space env now st) = mpl_skeleton st"
    and "mpl_count st \<noteq> 0 \<Longrightarrow> mpl_count (mpl_free_space env now st) < mpl_count st"
    by blast+
qed

lemma mpl_sizes_no_messages:
  assumes "mpl_count st = 0"
  shows "mpl_sizes env st = 0"
  using assms by (auto simp: mpl_count_def mpl_sizes_def domain_sizes_def seed_sizes_def)

text \<open>The loop ends when the packet fits into the limit at all.\<close>

lemma mpl_make_space_returns:
  assumes "mpl_inv env st" and "n \<le> 8192"
  shows "\<exists>st'. mpl_make_space env now n st = Some st' \<and> mpl_inv env st' \<and>
    mpl_skeleton st' = mpl_skeleton st \<and> mpl_sizes env st' + n \<le> 8192"
  using assms(1)
proof (induction "mpl_count st" arbitrary: st rule: less_induct)
  case less
  have total: "unat (mpl_total_buffered st) = mpl_sizes env st"
    using less.prems by (simp add: mpl_inv_def)
  show ?case
  proof (cases "unat (mpl_total_buffered st) + n > 8192")
    case False
    then show ?thesis
      using less.prems total by (simp add: mpl_make_space.simps [of env now n st])
  next
    case True
    then have "mpl_sizes env st \<noteq> 0" using assms(2) total by linarith
    then have ne: "mpl_count st \<noteq> 0" using mpl_sizes_no_messages [of st env] by auto
    note F = mpl_free_space_spec [OF less.prems, of now]
    from less.hyps [OF F(3) [OF ne] F(1)] F(2) True show ?thesis
      by (simp add: mpl_make_space.simps [of env now n st])
  qed
qed

lemma mpl_make_space_bound:
  "mpl_make_space env now n st = Some st' \<Longrightarrow> unat (mpl_total_buffered st') + n \<le> 8192"
  by (rule mpl_make_space.raw_induct
      [where P = "\<lambda>env now n st st'. unat (mpl_total_buffered st') + n \<le> 8192"])
    (auto split: if_splits)

end
