(* ===== verification/MplReach.thy ===== *)
theory MplReach
  imports MplInv
begin

text \<open>
  Every handler of the MPL forwarder keeps the accounting invariant, and every handler
  returns on the packets the IP layer delivers.
\<close>

section \<open>Deleting seeds\<close>

lemma mpl_delete_all_messages:
  assumes "mpl_inv env st" and "mpl_seed_ptr st d s" and "messages (mpl_seed_at st d s) = ms"
  defines "st' \<equiv> fold (\<lambda>m st. mpl_buffer_delete env d s 0 st) ms st"
  shows "mpl_inv env st'" and "mpl_skeleton st' = mpl_skeleton st" and "messages (mpl_seed_at st' d s) = []"
proof -
  have "mpl_inv env (fold (\<lambda>m st. mpl_buffer_delete env d s 0 st) ms st) \<and>
      mpl_skeleton (fold (\<lambda>m st. mpl_buffer_delete env d s 0 st) ms st) = mpl_skeleton st \<and>
      messages (mpl_seed_at (fold (\<lambda>m st. mpl_buffer_delete env d s 0 st) ms st) d s) = []"
    using assms(1-3)
  proof (induction ms arbitrary: st)
    case (Cons m ms)
    let ?st = "mpl_buffer_delete env d s 0 st"
    note F = mpl_buffer_delete_facts [OF Cons.prems(2), of env 0]
    have i: "0 < length (messages (mpl_seed_at st d s))" using Cons.prems(3) by simp
    have "mpl_inv env ?st" by (rule mpl_buffer_delete_inv [OF Cons.prems(1,2) i])
    moreover have "mpl_seed_ptr ?st d s" using F(2) Cons.prems(2) by simp
    moreover have "messages (mpl_seed_at ?st d s) = ms" using F(1) Cons.prems(3) by simp
    ultimately show ?case using Cons.IH [of ?st] by simp
  qed simp
  then show "mpl_inv env st'" and "mpl_skeleton st' = mpl_skeleton st"
    and "messages (mpl_seed_at st' d s) = []"
    unfolding st'_def by blast+
qed

lemma mpl_seed_delete_spec:
  assumes "mpl_inv env st" and "mpl_seed_ptr st d s"
  shows "mpl_inv env (mpl_seed_delete env d s st)"
    and "length (mpl_domains (mpl_seed_delete env d s st)) = length (mpl_domains st)"
    and "length (seeds (mpl_domains (mpl_seed_delete env d s st) ! d)) = length (seeds (mpl_domains st ! d)) - 1"
    and "map (\<lambda>seed. (id_len seed, seed_id seed)) (seeds (mpl_domains (mpl_seed_delete env d s st) ! d)) =
      list_remove s (map (\<lambda>seed. (id_len seed, seed_id seed)) (seeds (mpl_domains st ! d)))"
proof -
  define st1 where "st1 = fold (\<lambda>m st. mpl_buffer_delete env d s 0 st) (messages (mpl_seed_at st d s)) st"
  note D = mpl_delete_all_messages [OF assms refl, folded st1_def]
  note S = mpl_skeleton_shape [OF D(2)]
  have p: "mpl_seed_ptr st1 d s" using S(2) assms(2) by simp
  then have d: "d < length (mpl_domains st1)" and s: "s < length (seeds (mpl_domains st1 ! d))"
    by (simp_all add: mpl_seed_ptr_def)
  have "seed_sizes env (seeds (mpl_domains st1 ! d) ! s) = 0"
    using D(3) by (simp add: seed_sizes_def mpl_seed_at_def)
  then have "domain_sizes env ((mpl_domains st1 ! d)\<lparr>seeds := list_remove s (seeds (mpl_domains st1 ! d))\<rparr>) =
      domain_sizes env (mpl_domains st1 ! d)"
    using sum_list_map_remove [OF s, of "seed_sizes env"] by (simp add: domain_sizes_def)
  then have sizes: "mpl_sizes env (mpl_seed_delete env d s st) = mpl_sizes env st1"
    using mpl_sizes_upd_domain [OF d, of env "\<lambda>domain. domain\<lparr>seeds := list_remove s (seeds domain)\<rparr>"]
    by (simp add: mpl_seed_delete_def Let_def st1_def)
  have eq: "mpl_seed_delete env d s st =
      mpl_upd_domain d (\<lambda>domain. domain\<lparr>seeds := list_remove s (seeds domain)\<rparr>) st1"
    by (simp add: mpl_seed_delete_def Let_def st1_def)
  show "mpl_inv env (mpl_seed_delete env d s st)"
    using D(1) sizes by (simp add: mpl_inv_def eq)
  show "length (mpl_domains (mpl_seed_delete env d s st)) = length (mpl_domains st)"
    using S(1) by (simp add: eq)
  have d': "d < length (mpl_domains st)" using assms(2) by (simp add: mpl_seed_ptr_def)
  have ids: "map (\<lambda>seed. (id_len seed, seed_id seed)) (seeds (mpl_domains st1 ! d)) =
      map (\<lambda>seed. (id_len seed, seed_id seed)) (seeds (mpl_domains st ! d))"
    using S(3) [OF d'] by blast
  have new: "seeds (mpl_domains (mpl_seed_delete env d s st) ! d) = list_remove s (seeds (mpl_domains st1 ! d))"
    using d by (simp add: eq mpl_upd_domain_def)
  show "length (seeds (mpl_domains (mpl_seed_delete env d s st) ! d)) = length (seeds (mpl_domains st ! d)) - 1"
    using arg_cong [OF ids, of length] s by (simp add: new list_remove_length)
  show "map (\<lambda>seed. (id_len seed, seed_id seed)) (seeds (mpl_domains (mpl_seed_delete env d s st) ! d)) =
      list_remove s (map (\<lambda>seed. (id_len seed, seed_id seed)) (seeds (mpl_domains st ! d)))"
    unfolding new ids [symmetric] by (simp add: list_remove_def take_map drop_map)
qed

lemma mpl_delete_all_seeds_spec:
  assumes "mpl_inv env st" and "d < length (mpl_domains st)"
  shows "mpl_inv env (mpl_delete_all_seeds env d st)"
    and "length (mpl_domains (mpl_delete_all_seeds env d st)) = length (mpl_domains st)"
    and "seeds (mpl_domains (mpl_delete_all_seeds env d st) ! d) = []"
proof -
  have "mpl_inv env (fold (\<lambda>_ st. mpl_seed_delete env d 0 st) xs st) \<and>
      length (mpl_domains (fold (\<lambda>_ st. mpl_seed_delete env d 0 st) xs st)) = length (mpl_domains st) \<and>
      seeds (mpl_domains (fold (\<lambda>_ st. mpl_seed_delete env d 0 st) xs st) ! d) = []"
    if "length xs = length (seeds (mpl_domains st ! d))" for xs :: "mpl_seed_t list"
    using that assms
  proof (induction xs arbitrary: st)
    case (Cons x xs)
    have p: "mpl_seed_ptr st d 0" using Cons.prems by (auto simp: mpl_seed_ptr_def)
    note S = mpl_seed_delete_spec [OF Cons.prems(2) p]
    show ?case using Cons.IH [of "mpl_seed_delete env d 0 st"] S(1-3) Cons.prems by simp
  qed simp
  then show "mpl_inv env (mpl_delete_all_seeds env d st)"
    and "length (mpl_domains (mpl_delete_all_seeds env d st)) = length (mpl_domains st)"
    and "seeds (mpl_domains (mpl_delete_all_seeds env d st) ! d) = []"
    unfolding mpl_delete_all_seeds_def by blast+
qed

section \<open>Data messages\<close>

lemma mpl_advance_loop_spec:
  assumes "mpl_inv env st" and "mpl_seed_ptr st d s"
    and "length (messages (mpl_seed_at st d s)) = i + n"
  shows "mpl_inv env (mpl_advance_loop env d s sq n i st) \<and>
    mpl_skeleton (mpl_advance_loop env d s sq n i st) = mpl_skeleton st \<and>
    min_sequence (mpl_seed_at (mpl_advance_loop env d s sq n i st) d s) = min_sequence (mpl_seed_at st d s)"
  using assms
proof (induction n arbitrary: i st)
  case (Suc n)
  let ?st = "mpl_buffer_delete env d s i st"
  have i: "i < length (messages (mpl_seed_at st d s))" using Suc.prems(3) by simp
  note F = mpl_buffer_delete_facts [OF Suc.prems(2), of env i]
  have "mpl_inv env ?st" by (rule mpl_buffer_delete_inv [OF Suc.prems(1,2) i])
  moreover have "mpl_seed_ptr ?st d s" using F(2) Suc.prems(2) by simp
  moreover have "length (messages (mpl_seed_at ?st d s)) = i + n"
    using F(1) Suc.prems(3) by (simp add: list_remove_length [OF i])
  ultimately show ?case
    using Suc.IH [of ?st i] Suc.IH [of st "Suc i"] Suc.prems F(1) by simp
qed simp

lemma mpl_advance_spec:
  assumes "mpl_inv env st" and "mpl_seed_ptr st d s"
  shows "mpl_inv env (mpl_seed_advance_min_sequence env d s sq st)"
    and "mpl_skeleton (mpl_seed_advance_min_sequence env d s sq st) = mpl_skeleton st"
    and "min_sequence (mpl_seed_at (mpl_seed_advance_min_sequence env d s sq st) d s) = sq"
proof -
  let ?st = "mpl_upd_seed d s (\<lambda>seed. seed\<lparr>min_sequence := sq\<rparr>) st"
  have "mpl_inv env ?st" by (rule mpl_upd_min_facts [OF assms(1)]) simp
  moreover have "mpl_seed_ptr ?st d s" using assms(2) by simp
  moreover have "mpl_skeleton ?st = mpl_skeleton st" by (rule mpl_skeleton_upd_seed) simp_all
  moreover have "min_sequence (mpl_seed_at ?st d s) = sq"
    by (simp add: mpl_seed_at_upd_seed [OF assms(2)])
  ultimately show "mpl_inv env (mpl_seed_advance_min_sequence env d s sq st)"
    and "mpl_skeleton (mpl_seed_advance_min_sequence env d s sq st) = mpl_skeleton st"
    and "min_sequence (mpl_seed_at (mpl_seed_advance_min_sequence env d s sq st) d s) = sq"
    using mpl_advance_loop_spec [of env ?st d s 0 "length (messages (mpl_seed_at ?st d s))" sq]
    by (simp_all add: mpl_seed_advance_min_sequence_def Let_def)
qed

lemma mpl_control_reset_frame [simp]:
  "mpl_packets (mpl_control_reset_or_start env d st) = mpl_packets st"
  "mpl_skeleton (mpl_control_reset_or_start env d st) = mpl_skeleton st"
  "mpl_total_buffered (mpl_control_reset_or_start env d st) = mpl_total_buffered st"
  by (simp_all add: mpl_control_reset_or_start_def mpl_packets_upd_domain mpl_skeleton_upd_domain)

text \<open>
  The packets the IP layer delivers: the buffer is as long as the IP header says
  (\<open>mpl_buffer_create\<close> relies on it), and not longer than the limit.
\<close>

definition mpl_packet_ok :: "mpl_env \<Rightarrow> buffer_t \<Rightarrow> bool" where
  "mpl_packet_ok env buf \<longleftrightarrow> length (buf_data buf) \<le> MAX_BUFFERED_MESSAGES_SIZE \<and>
     length (buf_data buf) = unat (40 + common_read_16_bit env (buf_data buf ! 4) (buf_data buf ! 5))"

lemma mpl_insert_sum:
  fixes f :: "'a \<Rightarrow> nat"
  shows "sum_list (map f (mpl_insert p x xs)) = sum_list (map f xs) + f x"
proof -
  have "sum_list (map f xs) = sum_list (map f (take p xs)) + sum_list (map f (drop p xs))"
    by (metis append_take_drop_id map_append sum_list_append)
  then show ?thesis by (simp add: mpl_insert_def)
qed

lemma mpl_seed_at_schedule [simp]: "mpl_seed_at (mpl_schedule_timer2 st) = mpl_seed_at st"
  by (simp add: mpl_seed_at_def fun_eq_iff)

lemma mpl_seed_at_account [simp]: "mpl_seed_at (st\<lparr>mpl_total_buffered := t\<rparr>) = mpl_seed_at st"
  by (simp add: mpl_seed_at_def fun_eq_iff)

text \<open>The three ways \<open>mpl_buffer_create\<close> can go.\<close>

lemma mpl_buffer_create_cases:
  obtains (loop) "mpl_make_space env now (length (buf_data buf)) st = None"
      "mpl_buffer_create env now ok buf d s sq hop st = None"
  | (refused) st1 where "mpl_make_space env now (length (buf_data buf)) st = Some st1"
      "common_serial_number_greater_8 env (min_sequence (mpl_seed_at st1 d s)) sq \<or> \<not> ok"
      "mpl_buffer_create env now ok buf d s sq hop st = Some (None, st1)"
  | (created) st1 st2 m p where "mpl_make_space env now (length (buf_data buf)) st = Some st1"
      "\<not> common_serial_number_greater_8 env (min_sequence (mpl_seed_at st1 d s)) sq" "ok"
      "st2 = (if proactive_forwarding (mpl_domains st1 ! d) then mpl_schedule_timer2 st1 else st1)"
      "msg_bytes m = (buf_data buf)[7 := hop]" "mpl_opt_data_offset m = mpl_option_data_offset buf"
      "p = mpl_insert_pos env sq (messages (mpl_seed_at st1 d s))"
      "mpl_buffer_create env now ok buf d s sq hop st = Some (Some p, mpl_control_reset_or_start env d
         ((mpl_upd_seed d s (\<lambda>seed. seed\<lparr>messages := mpl_insert p m (messages seed)\<rparr>) st2)
           \<lparr>mpl_total_buffered := mpl_total_buffered st1 + word_of_nat (length (buf_data buf))\<rparr>))"
proof (cases "mpl_make_space env now (length (buf_data buf)) st")
  case None
  then show ?thesis by (intro loop) (simp_all add: mpl_buffer_create_def Let_def)
next
  case (Some st1)
  let ?seed = "mpl_seed_at st1 d s" and ?domain = "mpl_domains st1 ! d"
  show ?thesis
  proof (cases "common_serial_number_greater_8 env (min_sequence ?seed) sq \<or> \<not> ok")
    case True
    then show ?thesis
      by (intro refused [OF Some]) (auto simp: mpl_buffer_create_def Let_def Some)
  next
    case False
    let ?started = "trickle_start (rnd env [d, s, 0]) (rnd env [d, s, 1])
        (data_trickle_params ?domain) (heap_trickle env)"
    show ?thesis
      by (rule created [OF Some _ _ refl, where m = "\<lparr>msg_colour = seed_colour ?seed, msg_timestamp = now,
            msg_trickle = (if proactive_forwarding ?domain then ?started else trickle_stop ?started),
            mpl_opt_data_offset = mpl_option_data_offset buf, transmit_done = False,
            msg_bytes = (buf_data buf)[7 := hop]\<rparr>"])
        (use False in \<open>cases "proactive_forwarding ?domain";
           simp add: mpl_buffer_create_def Let_def Some\<close>)+
  qed
qed

lemma mpl_buffer_create_returns:
  assumes "mpl_inv env st" and "mpl_seed_ptr st d s" and "mpl_packet_ok env buf"
  shows "\<exists>r st'. mpl_buffer_create env now ok buf d s sq hop st = Some (r, st') \<and> mpl_inv env st' \<and>
    mpl_skeleton st' = mpl_skeleton st"
proof -
  let ?n = "length (buf_data buf)"
  obtain st0 where st0: "mpl_make_space env now ?n st = Some st0" "mpl_inv env st0"
    "mpl_skeleton st0 = mpl_skeleton st" "mpl_sizes env st0 + ?n \<le> 8192"
    using mpl_make_space_returns [OF assms(1), of ?n now] assms(3) by (auto simp: mpl_packet_ok_def)
  show ?thesis
  proof (cases rule: mpl_buffer_create_cases [of env now buf st ok d s sq hop])
    case loop
    with st0(1) show ?thesis by simp
  next
    case (refused st1)
    with st0 show ?thesis by simp
  next
    case (created st1 st2 m p)
    have st1: "st1 = st0" using created(1) st0(1) by simp
    define st3 where "st3 = mpl_upd_seed d s (\<lambda>seed. seed\<lparr>messages := mpl_insert p m (messages seed)\<rparr>) st2"
    let ?st4 = "st3\<lparr>mpl_total_buffered := mpl_total_buffered st1 + word_of_nat ?n\<rparr>"
    have same: "mpl_domains st2 = mpl_domains st0" "mpl_skeleton st2 = mpl_skeleton st0"
      by (simp_all add: created(4) st1)
    then have sizes2: "mpl_sizes env st2 = mpl_sizes env st0" by (simp add: mpl_sizes_def)
    have ptr: "mpl_seed_ptr st2 d s"
      using mpl_skeleton_shape(2) [of st2 st] same(2) st0(3) assms(2) by simp
    have size_m: "unat (mpl_buffer_size env m) = ?n"
      using assms(3) by (simp add: mpl_buffer_size_def created(5) mpl_packet_ok_def)
    have "mpl_sizes env st3 = mpl_sizes env st0 + ?n"
      using mpl_sizes_upd_seed [OF ptr, of env "\<lambda>seed. seed\<lparr>messages := mpl_insert p m (messages seed)\<rparr>"]
      by (simp add: st3_def seed_sizes_def mpl_insert_sum size_m sizes2)
    moreover have "unat (mpl_total_buffered st0 + word_of_nat ?n) = mpl_sizes env st0 + ?n"
      using st0(2,4) by (simp add: mpl_inv_def unat_word_ariths unat_of_nat)
    ultimately have "mpl_inv env ?st4"
      using st0(4) by (simp add: mpl_inv_def st1 mpl_sizes_def)
    moreover have "mpl_skeleton ?st4 = mpl_skeleton st"
      using same(2) st0(3) by (simp add: st3_def mpl_skeleton_upd_seed)
    ultimately show ?thesis
      unfolding created(8) st3_def [symmetric]
      using mpl_inv_packets [of "mpl_control_reset_or_start env d ?st4" ?st4 env] by simp
  qed
qed

text \<open>Steps that touch neither the buffered packets nor their account.\<close>

definition mpl_quiet :: "mpl_state \<Rightarrow> mpl_state \<Rightarrow> bool" where
  "mpl_quiet st st' \<longleftrightarrow> mpl_packets st' = mpl_packets st \<and> mpl_skeleton st' = mpl_skeleton st \<and>
     mpl_total_buffered st' = mpl_total_buffered st"

lemma mpl_quiet_refl [simp, intro]: "mpl_quiet st st"
  by (simp add: mpl_quiet_def)

lemma mpl_quiet_trans [trans]: "mpl_quiet st st' \<Longrightarrow> mpl_quiet st' st'' \<Longrightarrow> mpl_quiet st st''"
  by (simp add: mpl_quiet_def)

lemma mpl_quiet_inv: "mpl_quiet st st' \<Longrightarrow> mpl_inv env st \<Longrightarrow> mpl_inv env st'"
  using mpl_inv_packets [of st' st env] by (simp add: mpl_quiet_def)

lemma mpl_quiet_ptr: "mpl_quiet st st' \<Longrightarrow> mpl_seed_ptr st' d s = mpl_seed_ptr st d s"
  using mpl_skeleton_shape(2) [of st' st d s] by (simp add: mpl_quiet_def)

lemma mpl_quiet_length: "mpl_quiet st st' \<Longrightarrow> length (mpl_domains st') = length (mpl_domains st)"
  using mpl_skeleton_shape(1) [of st' st] by (simp add: mpl_quiet_def)

lemma mpl_quiet_fold:
  assumes "\<And>x st. x \<in> set xs \<Longrightarrow> mpl_quiet st (f x st)"
  shows "mpl_quiet st (fold f xs st)"
  by (rule fold_invariant [where Q = "\<lambda>x. x \<in> set xs"])
    (auto intro: mpl_quiet_trans assms)

lemma mpl_quiet_fold_pair:
  assumes "\<And>x bs. x \<in> set xs \<Longrightarrow> mpl_quiet (snd bs) (snd (f x bs))"
  shows "mpl_quiet (snd bs) (snd (fold f xs bs))"
  by (rule fold_invariant [where Q = "\<lambda>x. x \<in> set xs" and P = "\<lambda>r. mpl_quiet (snd bs) (snd r)"])
    (auto intro: mpl_quiet_trans assms)

lemma mpl_quiet_upd_domain:
  assumes "\<And>domain. seeds (f domain) = seeds domain" and "\<And>domain. interface (f domain) = interface domain"
    and "\<And>domain. address (f domain) = address domain"
    and "\<And>domain. data_trickle_params (f domain) = data_trickle_params domain"
  shows "mpl_quiet st (mpl_upd_domain d f st)"
  by (simp add: mpl_quiet_def mpl_packets_upd_domain mpl_skeleton_upd_domain assms)

lemma mpl_quiet_upd_seed:
  assumes "\<And>seed. messages (f seed) = messages seed" and "\<And>seed. id_len (f seed) = id_len seed"
    and "\<And>seed. seed_id (f seed) = seed_id seed"
  shows "mpl_quiet st (mpl_upd_seed d s f st)"
  by (simp add: mpl_quiet_def mpl_packets_upd_seed mpl_skeleton_upd_seed assms)

lemma mpl_quiet_upd_message:
  assumes "\<And>m. msg_bytes (f m) = msg_bytes m"
  shows "mpl_quiet st (mpl_upd_message d s i f st)"
  by (simp add: mpl_quiet_def mpl_packets_upd_message assms)

lemma mpl_quiet_simps [simp]:
  "mpl_quiet st (mpl_emit ev st') = mpl_quiet st st'"
  "mpl_quiet st (mpl_schedule_timer2 st') = mpl_quiet st st'"
  "mpl_quiet st (st'\<lparr>mpl_timer2_running := b\<rparr>) = mpl_quiet st st'"
  by (simp_all add: mpl_quiet_def mpl_packets_def)

lemma mpl_quiet_inconsistent: "mpl_quiet st (mpl_buffer_inconsistent env d s i st)"
  by (simp add: mpl_buffer_inconsistent_def mpl_quiet_upd_message)

lemma mpl_quiet_m_flag: "mpl_quiet st (mpl_m_flag env d s sq st)"
  unfolding mpl_m_flag_def by (rule mpl_quiet_fold) (auto intro: mpl_quiet_inconsistent)

lemma mpl_process_on_seed_eq:
  assumes "opt = drop (mpl_option_data_offset buf) (buf_data buf)"
    and "st1 = (if opt ! 0 AND MPL_OPT_M \<noteq> 0 then mpl_m_flag env d s (opt ! 1) st else st)"
    and "st2 = mpl_upd_seed d s
      (\<lambda>seed. seed\<lparr>seed_lifetime := seed_set_entry_lifetime (mpl_domains st1 ! d)\<rparr>) st1"
    and "hop = (if \<not> seeding \<and> buf_data buf ! 7 \<noteq> 0 then buf_data buf ! 7 - 1 else buf_data buf ! 7)"
  shows "mpl_process_on_seed env now ok buf d s seeding st =
      (if common_serial_number_greater_8 env (min_sequence (mpl_seed_at st1 d s)) (opt ! 1) then Some (False, st1)
       else case mpl_buffer_lookup (mpl_seed_at st1 d s) (opt ! 1) of
         Some i \<Rightarrow> Some (False, mpl_upd_message d s i
                     (\<lambda>m. m\<lparr>msg_trickle := trickle_consistent_heard (msg_trickle m)\<rparr>) st1)
       | None \<Rightarrow>
           if p_TimerExpirations (data_trickle_params (mpl_domains st2 ! d)) = 0 \<or> hop = 0
           then Some (True, mpl_seed_advance_min_sequence env d s (opt ! 1 + 1) st2)
           else case mpl_buffer_create env now ok buf d s (opt ! 1) hop st2 of
             None \<Rightarrow> None
           | Some (None, st) \<Rightarrow> Some (True, st)
           | Some (Some i, st) \<Rightarrow> Some (True, mpl_upd_message d s i (\<lambda>m. m\<lparr>transmit_done := \<not> dir_up buf\<rparr>) st))"
  unfolding mpl_process_on_seed_def Let_def assms by (rule refl)

lemma mpl_process_on_seed_returns:
  assumes "mpl_inv env st" and "mpl_seed_ptr st d s" and "mpl_packet_ok env buf"
  shows "\<exists>r st'. mpl_process_on_seed env now ok buf d s seeding st = Some (r, st') \<and> mpl_inv env st' \<and>
    mpl_skeleton st' = mpl_skeleton st"
proof -
  define opt where "opt = drop (mpl_option_data_offset buf) (buf_data buf)"
  define st1 where "st1 = (if opt ! 0 AND MPL_OPT_M \<noteq> 0 then mpl_m_flag env d s (opt ! 1) st else st)"
  have q1: "mpl_quiet st st1" by (simp add: st1_def mpl_quiet_m_flag)
  define st2 where "st2 = mpl_upd_seed d s
      (\<lambda>seed. seed\<lparr>seed_lifetime := seed_set_entry_lifetime (mpl_domains st1 ! d)\<rparr>) st1"
  have "mpl_quiet st1 st2" unfolding st2_def by (rule mpl_quiet_upd_seed) simp_all
  with q1 have q2: "mpl_quiet st st2" by (rule mpl_quiet_trans)
  have inv1: "mpl_inv env st1" and inv2: "mpl_inv env st2"
    using mpl_quiet_inv [OF _ assms(1)] q1 q2 by blast+
  have ptr2: "mpl_seed_ptr st2 d s" using mpl_quiet_ptr [OF q2] assms(2) by simp
  have sk: "mpl_skeleton st1 = mpl_skeleton st" "mpl_skeleton st2 = mpl_skeleton st"
    using q1 q2 by (simp_all add: mpl_quiet_def)
  define hop where "hop = (if \<not> seeding \<and> buf_data buf ! 7 \<noteq> 0 then buf_data buf ! 7 - 1 else buf_data buf ! 7)"
  note eq = mpl_process_on_seed_eq [OF opt_def st1_def st2_def hop_def, of now ok]
  have heard_inv: "mpl_inv env (mpl_upd_message d s i
      (\<lambda>m. m\<lparr>msg_trickle := trickle_consistent_heard (msg_trickle m)\<rparr>) st1)" for i
    by (rule mpl_quiet_inv [OF mpl_quiet_upd_message inv1]) simp
  obtain r st3 where create: "mpl_buffer_create env now ok buf d s (opt ! 1) hop st2 = Some (r, st3)"
    "mpl_inv env st3" "mpl_skeleton st3 = mpl_skeleton st2"
    using mpl_buffer_create_returns [OF inv2 ptr2 assms(3)] by blast
  have done_inv: "mpl_inv env (mpl_upd_message d s i (\<lambda>m. m\<lparr>transmit_done := b\<rparr>) st3)" for i b
    by (rule mpl_quiet_inv [OF mpl_quiet_upd_message create(2)]) simp
  show ?thesis
    unfolding eq using inv1 sk heard_inv mpl_advance_spec(1,2) [OF inv2 ptr2, of "opt ! 1 + 1"] create done_inv
    by (auto split: option.split)
qed

lemma mpl_seed_create_inv:
  assumes "mpl_inv env st" and "d < length (mpl_domains st)"
    and "mpl_seed_create ok d len sid sq st = (r, st')"
  shows "mpl_inv env st'" and "\<And>s. r = Some s \<Longrightarrow> mpl_seed_ptr st' d s"
    and "length (mpl_domains st') = length (mpl_domains st)"
proof -
  let ?new = "\<lparr>seed_colour = dom_colour (mpl_domains st ! d),
      seed_lifetime = seed_set_entry_lifetime (mpl_domains st ! d),
      min_sequence = sq, id_len = len, messages = [], seed_id = take len sid\<rparr>"
  let ?f = "\<lambda>domain. domain\<lparr>seeds := seeds domain @ [?new]\<rparr>"
  have eq: "(r, st') = (if ok then (Some (length (seeds (mpl_domains st ! d))), mpl_upd_domain d ?f st)
      else (None, st))"
    using assms(3) by (cases ok) (simp_all add: mpl_seed_create_def Let_def)
  have "mpl_sizes env (mpl_upd_domain d ?f st) = mpl_sizes env st"
    using mpl_sizes_upd_domain [OF assms(2), of env ?f] by (simp add: domain_sizes_def seed_sizes_def)
  with eq assms(1,2) show "mpl_inv env st'" and "\<And>s. r = Some s \<Longrightarrow> mpl_seed_ptr st' d s"
    and "length (mpl_domains st') = length (mpl_domains st)"
    by (auto simp: mpl_inv_def mpl_seed_ptr_def mpl_upd_domain_def split: if_splits)
qed

lemma mpl_domain_lookup_realm_lt:
  "mpl_domain_lookup_with_realm_check st cur a = Some d \<Longrightarrow> d < length (mpl_domains st)"
  by (auto simp: mpl_domain_lookup_with_realm_check_def mpl_domain_lookup_def Let_def
      split: if_splits dest: find_index_SomeD(1))

text \<open>The sequence number and the seed id of a packet.\<close>

abbreviation buf_sequence :: "buffer_t \<Rightarrow> u8" where
  "buf_sequence buf \<equiv> drop (mpl_option_data_offset buf) (buf_data buf) ! 1"

definition packet_seed_type :: "buffer_t \<Rightarrow> u8" where
  "packet_seed_type buf =
     drop_bit MPL_OPT_S_SHIFT (drop (mpl_option_data_offset buf) (buf_data buf) ! 0 AND MPL_OPT_S_MASK)"

definition packet_seed_id :: "buffer_t \<Rightarrow> bytes" where
  "packet_seed_id buf = (if packet_seed_type buf = MPL_SEED_IPV6_SRC then src_sa buf
     else drop 2 (drop (mpl_option_data_offset buf) (buf_data buf)))"

definition packet_seed_len :: "buffer_t \<Rightarrow> nat" where
  "packet_seed_len buf =
     (if packet_seed_type buf = MPL_SEED_IPV6_SRC then 16 else mpl_seed_id_len (packet_seed_type buf))"

lemma mpl_forwarder_eq:
  assumes "seeding \<or> \<not> multicast_loop buf"
    and "(case dptr of Some d \<Rightarrow> Some d
      | None \<Rightarrow> mpl_domain_lookup_with_realm_check st (buf_interface buf) (dst_sa buf)) = Some d"
  shows "mpl_forwarder_process_message env now seed_ok msg_ok buf dptr seeding st =
      (case mpl_seed_lookup (mpl_domains st ! d) (packet_seed_len buf) (packet_seed_id buf) of
         Some s \<Rightarrow> mpl_process_on_seed env now msg_ok buf d s seeding st
       | None \<Rightarrow> (case mpl_seed_create seed_ok d (packet_seed_len buf) (packet_seed_id buf) (buf_sequence buf) st of
           (None, st) \<Rightarrow> Some (False, st)
         | (Some s, st) \<Rightarrow> mpl_process_on_seed env now msg_ok buf d s seeding st))"
proof -
  have c: "(\<not> seeding \<and> multicast_loop buf) = False" using assms(1) by blast
  show ?thesis
    unfolding mpl_forwarder_process_message_def Let_def c if_False assms(2) option.case
      packet_seed_id_def packet_seed_len_def packet_seed_type_def by (rule refl)
qed

lemma mpl_forwarder_returns:
  assumes "mpl_inv env st" and "mpl_packet_ok env buf" and "\<And>d. dptr = Some d \<Longrightarrow> d < length (mpl_domains st)"
  shows "\<exists>r st'. mpl_forwarder_process_message env now seed_ok msg_ok buf dptr seeding st = Some (r, st') \<and>
    mpl_inv env st'"
proof -
  let ?dom = "case dptr of Some d \<Rightarrow> Some d
      | None \<Rightarrow> mpl_domain_lookup_with_realm_check st (buf_interface buf) (dst_sa buf)"
  show ?thesis
  proof (cases "(\<not> seeding \<and> multicast_loop buf) \<or> ?dom = None")
    case True
    then show ?thesis using assms(1) by (auto simp: mpl_forwarder_process_message_def Let_def)
  next
    case False
    then obtain d where d: "?dom = Some d" by blast
    have lt: "d < length (mpl_domains st)"
      using d assms(3) mpl_domain_lookup_realm_lt by (auto split: option.splits)
    have "seeding \<or> \<not> multicast_loop buf" using False by blast
    note eq = mpl_forwarder_eq [OF this d, of env now seed_ok msg_ok]
    show ?thesis
    proof (cases "mpl_seed_lookup (mpl_domains st ! d) (packet_seed_len buf) (packet_seed_id buf)")
      case (Some s)
      then have "mpl_seed_ptr st d s"
        using lt find_index_SomeD(1) by (fastforce simp: mpl_seed_lookup_def mpl_seed_ptr_def)
      from mpl_process_on_seed_returns [OF assms(1) this assms(2)] Some show ?thesis
        unfolding eq by simp blast
    next
      case None
      obtain r st1 where c: "mpl_seed_create seed_ok d (packet_seed_len buf) (packet_seed_id buf) (buf_sequence buf) st = (r, st1)"
        by (rule prod.exhaust)
      note C = mpl_seed_create_inv [OF assms(1) lt c]
      show ?thesis
      proof (cases r)
        case None
        with \<open>mpl_seed_lookup (mpl_domains st ! d) (packet_seed_len buf) (packet_seed_id buf) = None\<close> c C(1) show ?thesis
          unfolding eq by auto
      next
        case (Some s)
        obtain b st2 where "mpl_process_on_seed env now msg_ok buf d s seeding st1 = Some (b, st2)"
          "mpl_inv env st2"
          using mpl_process_on_seed_returns [OF C(1) C(2) [OF Some] assms(2)] by blast
        with None c Some show ?thesis unfolding eq by simp
      qed
    qed
  qed
qed

end
