(* ===== verification/MplHandlers.thy ===== *)
theory MplHandlers
  imports MplReach
begin

text \<open>
  The remaining handlers of the MPL forwarder keep the accounting invariant: the timers, the
  control messages, the domains. The states they reach from the initial one, and the
  properties of the forwarder's buffers.
\<close>

section \<open>The slow timer\<close>

lemma mpl_slow_messages_spec:
  assumes "mpl_inv env st" and "mpl_seed_ptr st d s" and "length (messages (mpl_seed_at st d s)) = n"
  shows "mpl_inv env (mpl_slow_messages env now limit d s n st) \<and>
    mpl_skeleton (mpl_slow_messages env now limit d s n st) = mpl_skeleton st"
  using assms
proof (induction n arbitrary: st)
  case (Suc n)
  let ?m = "messages (mpl_seed_at st d s) ! 0"
  let ?f = "\<lambda>seed. seed\<lparr>min_sequence := mpl_buffer_sequence ?m + 1\<rparr>"
  let ?st = "mpl_upd_seed d s ?f st"
  let ?st' = "mpl_buffer_delete env d s 0 ?st"
  have inv: "mpl_inv env ?st" by (rule mpl_upd_min_facts [OF Suc.prems(1)]) simp
  have ptr: "mpl_seed_ptr ?st d s" using Suc.prems(2) by simp
  have msgs: "messages (mpl_seed_at ?st d s) = messages (mpl_seed_at st d s)"
    by (simp add: mpl_seed_at_upd_seed [OF Suc.prems(2)])
  have i: "0 < length (messages (mpl_seed_at ?st d s))" using msgs Suc.prems(3) by simp
  note F = mpl_buffer_delete_facts [OF ptr, of env 0]
  have "mpl_inv env ?st'" by (rule mpl_buffer_delete_inv [OF inv ptr i])
  moreover have "mpl_seed_ptr ?st' d s" using F(2) ptr by simp
  moreover have "length (messages (mpl_seed_at ?st' d s)) = n"
    using F(1) msgs Suc.prems(3) by (simp add: list_remove_length)
  moreover have "mpl_skeleton ?st' = mpl_skeleton st" by (simp add: mpl_skeleton_upd_seed)
  ultimately show ?case
    using Suc.IH [of ?st'] Suc.prems(1) by (simp add: Let_def)
qed simp

lemma mpl_slow_seeds_inv:
  assumes "mpl_inv env st" and "d < length (mpl_domains st)"
    and "length (seeds (mpl_domains st ! d)) = s + n"
  shows "mpl_inv env (mpl_slow_seeds env now seconds limit d n s st) \<and>
    length (mpl_domains (mpl_slow_seeds env now seconds limit d n s st)) = length (mpl_domains st)"
  using assms
proof (induction n arbitrary: s st)
  case (Suc n)
  have ptr: "mpl_seed_ptr st d s" using Suc.prems by (simp add: mpl_seed_ptr_def)
  show ?case
  proof (cases "seed_lifetime (mpl_seed_at st d s) > seconds")
    case True
    define st1 where "st1 = mpl_upd_seed d s
        (\<lambda>seed. seed\<lparr>seed_lifetime := seed_lifetime seed - seconds\<rparr>) st"
    define st2 where "st2 = mpl_slow_messages env now limit d s (length (messages (mpl_seed_at st1 d s))) st1"
    have q: "mpl_quiet st st1" unfolding st1_def by (rule mpl_quiet_upd_seed) simp_all
    have "mpl_inv env st1" by (rule mpl_quiet_inv [OF q Suc.prems(1)])
    moreover have "mpl_seed_ptr st1 d s" using mpl_quiet_ptr [OF q] ptr by simp
    ultimately have S: "mpl_inv env st2" "mpl_skeleton st2 = mpl_skeleton st1"
      using mpl_slow_messages_spec by (auto simp: st2_def)
    have sk: "mpl_skeleton st2 = mpl_skeleton st" using S(2) q by (simp add: mpl_quiet_def)
    note shape = mpl_skeleton_shape [OF sk]
    have "length (seeds (mpl_domains st2 ! d)) = Suc s + n"
      using shape(3) [OF Suc.prems(2)] Suc.prems(3) map_eq_imp_length_eq by fastforce
    from Suc.IH [OF S(1) _ this] shape(1) Suc.prems(2) True show ?thesis
      by (simp add: Let_def st1_def [symmetric] st2_def [symmetric])
  next
    case False
    note D = mpl_seed_delete_spec [OF Suc.prems(1) ptr]
    from Suc.IH [OF D(1), of s] D(2,3) Suc.prems False show ?thesis by simp
  qed
qed simp

lemma mpl_slow_timer_inv:
  assumes "mpl_inv env st"
  shows "mpl_inv env (mpl_slow_timer env now seconds st)"
proof -
  let ?P = "\<lambda>st'. mpl_inv env st' \<and> length (mpl_domains st') = length (mpl_domains st)"
  have "?P (mpl_slow_timer env now seconds st)"
    unfolding mpl_slow_timer_def
    by (rule fold_invariant [where Q = "\<lambda>d. d < length (mpl_domains st)" and P = ?P])
      (use assms mpl_slow_seeds_inv in \<open>simp_all add: Let_def\<close>)
  then show ?thesis by blast
qed

section \<open>Timers and control messages\<close>

lemma mpl_quiet_transmit: "mpl_quiet st (mpl_buffer_transmit env ok d m newest st)"
  by (simp add: mpl_buffer_transmit_def Let_def)

lemma mpl_quiet_send_control: "mpl_send_control env ok d st = Some st' \<Longrightarrow> mpl_quiet st st'"
  by (auto simp: mpl_send_control_def Let_def split: prod.splits if_splits option.splits)

lemma mpl_quiet_message_tick: "mpl_quiet (snd ns) (snd (mpl_message_tick env bok d s i ns))"
proof -
  obtain need st where ns: "ns = (need, st)" by (cases ns)
  let ?m = "messages (mpl_seed_at st d s) ! i"
  obtain fire t where ft: "trickle_timer (rnd env [d, s, i]) (data_trickle_params (mpl_domains st ! d)) 1
      (msg_trickle ?m) = (fire, t)" by (rule prod.exhaust)
  have "mpl_quiet st (mpl_upd_message d s i (\<lambda>m. m\<lparr>msg_trickle := t\<rparr>) st)"
    by (rule mpl_quiet_upd_message) simp
  then show ?thesis
    using mpl_quiet_trans [OF _ mpl_quiet_transmit]
    by (simp add: ns mpl_message_tick_def ft Let_def)
qed

lemma mpl_quiet_domain_tick:
  assumes "mpl_domain_tick env bok d ns = Some ns'"
  shows "mpl_quiet (snd ns) (snd ns')"
proof -
  obtain need st where ns: "ns = (need, st)" by (cases ns)
  obtain fire t where ft: "trickle_timer (rnd env [d]) (control_trickle_params (mpl_domains st ! d)) 1
      (dom_trickle (mpl_domains st ! d)) = (fire, t)" by (rule prod.exhaust)
  let ?st1 = "mpl_upd_domain d (\<lambda>domain. domain\<lparr>dom_trickle := t\<rparr>) st"
  have q1: "mpl_quiet st ?st1" by (rule mpl_quiet_upd_domain) simp_all
  from assms obtain st2 where st2: "(if fire then mpl_send_control env (bok [d]) d ?st1 else Some ?st1) = Some st2"
    and ns': "snd ns' = snd (fold (\<lambda>s ns. fold (mpl_message_tick env bok d s)
        [0..<length (messages (mpl_seed_at (snd ns) d s))] ns)
      [0..<length (seeds (mpl_domains st2 ! d))] (need, st2))"
    by (auto simp: ns mpl_domain_tick_def ft Let_def split: option.splits prod.splits)
  have "mpl_quiet ?st1 st2" using st2 mpl_quiet_send_control by (auto split: if_splits)
  moreover have "mpl_quiet (snd (need, st2)) (snd ns')"
    unfolding ns' by (intro mpl_quiet_fold_pair mpl_quiet_message_tick)
  ultimately show ?thesis using q1 by (auto simp: ns intro: mpl_quiet_trans)
qed

lemma mpl_quiet_fast_timer:
  assumes "mpl_fast_timer2 env bok st = Some st'"
  shows "mpl_quiet st st'"
proof -
  let ?st = "st\<lparr>mpl_timer2_running := False\<rparr>"
  from assms obtain need st1 where
    f: "fold_opt (mpl_domain_tick env bok) [0..<length (mpl_domains st)] (False, ?st) = Some (need, st1)"
    and st': "st' = (if need then mpl_schedule_timer2 st1 else st1)"
    by (auto simp: mpl_fast_timer2_def Let_def split: option.splits)
  have "mpl_quiet st (snd (need, st1))"
    by (rule fold_opt_Some_invariant [where P = "\<lambda>ns. mpl_quiet st (snd ns)", OF _ _ f])
      (auto intro: mpl_quiet_trans dest: mpl_quiet_domain_tick)
  then show ?thesis by (simp add: st')
qed

text \<open>The scan of a control message changes colours only.\<close>

definition same_packets :: "mpl_seed_t \<Rightarrow> mpl_seed_t \<Rightarrow> bool" where
  "same_packets seed seed' \<longleftrightarrow> id_len seed' = id_len seed \<and> seed_id seed' = seed_id seed \<and>
     map msg_bytes (messages seed') = map msg_bytes (messages seed)"

lemma mpl_scan_bits_same:
  assumes "mpl_scan_bits env c sq ptr bm i ts = Some ts'"
  shows "same_packets (snd ts) (snd ts')"
proof (rule mpl_scan_bits.raw_induct
    [where P = "\<lambda>env c sq ptr bm i ts ts'. same_packets (snd ts) (snd ts')", OF _ assms], goal_cases)
  case (1 f env c sq ptr bm i ts ts')
  let ?ts = "if bit_test env ptr i
      then case mpl_buffer_lookup (snd ts) (sq + i) of
             Some j \<Rightarrow> (fst ts, (snd ts)\<lparr>messages := (messages (snd ts))
                           [j := (messages (snd ts) ! j)\<lparr>msg_colour := c\<rparr>]\<rparr>)
           | None \<Rightarrow> if common_serial_number_greater_8 env (sq + i) (min_sequence (snd ts))
                     then (True, snd ts) else ts
      else ts"
  have step: "same_packets (snd ts) (snd ?ts)"
    using map_update_same [of msg_bytes "\<lambda>m. m\<lparr>msg_colour := c\<rparr>"]
    by (auto simp: same_packets_def split: option.split)
  show ?case
  proof (cases "unat i div 8 < unat bm")
    case True
    with 1(2) have "f env c sq ptr bm (i + 1) ?ts = Some ts'" by (simp only: if_True)
    from 1(1) [OF this] step show ?thesis by (simp add: same_packets_def)
  next
    case False
    with 1(2) show ?thesis by (simp add: same_packets_def)
  qed
qed

lemma mpl_scan_seed_same:
  assumes "mpl_scan_seed env c sq bm ptr they seed = Some (they', seed')"
  shows "same_packets seed seed'"
  using mpl_scan_bits_same [OF assms [unfolded mpl_scan_seed_def Let_def]]
  by (simp add: same_packets_def comp_def if_distrib [where f = msg_bytes] cong: if_cong)

definition same_domain :: "mpl_domain \<Rightarrow> mpl_domain \<Rightarrow> bool" where
  "same_domain domain domain' \<longleftrightarrow> interface domain' = interface domain \<and> address domain' = address domain \<and>
     data_trickle_params domain' = data_trickle_params domain \<and>
     control_trickle_params domain' = control_trickle_params domain \<and>
     map (\<lambda>seed. map msg_bytes (messages seed)) (seeds domain') =
     map (\<lambda>seed. map msg_bytes (messages seed)) (seeds domain) \<and>
     map (\<lambda>seed. (id_len seed, seed_id seed)) (seeds domain') =
     map (\<lambda>seed. (id_len seed, seed_id seed)) (seeds domain)"

lemma same_domain_refl [simp]: "same_domain domain domain"
  by (simp add: same_domain_def)

lemma same_domain_trans:
  "same_domain a b \<Longrightarrow> same_domain b c \<Longrightarrow> same_domain a c"
  by (simp add: same_domain_def)

lemma same_domain_seed:
  assumes "same_packets (seeds domain ! s) seed"
  shows "same_domain domain (domain\<lparr>seeds := (seeds domain)[s := seed]\<rparr>)"
  using assms map_update_same [of "\<lambda>seed. map msg_bytes (messages seed)" "\<lambda>_. seed" "seeds domain" s]
    map_update_same [of "\<lambda>seed. (id_len seed, seed_id seed)" "\<lambda>_. seed" "seeds domain" s]
  by (simp add: same_domain_def same_packets_def)

lemma mpl_scan_control_same:
  "mpl_scan_control env src c ptr td = Some (they', domain') \<Longrightarrow> same_domain (snd td) domain'"
proof (induction env src c ptr td rule: mpl_scan_control.induct)
  case (1 env src c ptr they domain)
  let ?bm = "drop_bit 2 (ptr ! 1)"
  let ?tp = "ptr ! 1 AND 3"
  let ?len = "mpl_seed_id_len ?tp"
  let ?rest = "drop 2 ptr"
  let ?sid = "if ?tp = MPL_SEED_IPV6_SRC then src else ?rest"
  let ?idl = "if ?tp = MPL_SEED_IPV6_SRC then 16 else ?len"
  let ?bits = "if ?tp = MPL_SEED_IPV6_SRC then ?rest else drop ?len ?rest"
  show ?case
  proof (cases "length ptr = 0 \<or> length ptr < 2 \<or> ?bm > 32 \<or> length ?rest < ?len + unat ?bm")
    case True
    with "1.prems" show ?thesis
      by (auto simp: mpl_scan_control.simps [of env src c ptr they domain] Let_def split: if_splits)
  next
    case False
    then have n: "\<not> length ptr = 0" "\<not> length ptr < 2" "\<not> (?bm > 32 \<or> length ?rest < ?len + unat ?bm)"
      by auto
    note eqn = mpl_scan_control.simps [of env src c ptr they domain, unfolded Let_def if_not_P [OF n(1)]
        if_not_P [OF n(2)] if_not_P [OF n(3)]]
    show ?thesis
    proof (cases "mpl_seed_lookup domain ?idl ?sid")
      case None
      have "mpl_scan_control env src c (drop (unat ?bm) ?bits) (True, domain) = Some (they', domain')"
        using "1.prems" eqn [unfolded None option.case] by simp
      from "1.IH"(1) [OF n(1,2) refl refl refl refl refl n(3) refl refl refl None this]
      show ?thesis by simp
    next
      case (Some s)
      have eq: "(case mpl_scan_seed env c (ptr ! 0) ?bm ?bits they (seeds domain ! s) of
            None \<Rightarrow> None
          | Some (they, seed) \<Rightarrow> mpl_scan_control env src c (drop (unat ?bm) ?bits)
              (they, domain\<lparr>seeds := (seeds domain)[s := seed]\<rparr>)) = Some (they', domain')"
        using "1.prems" eqn [unfolded Some option.case] by (simp only:)
      then obtain they1 seed1 where sc: "mpl_scan_seed env c (ptr ! 0) ?bm ?bits they (seeds domain ! s) =
          Some (they1, seed1)"
        and rest: "mpl_scan_control env src c (drop (unat ?bm) ?bits)
            (they1, domain\<lparr>seeds := (seeds domain)[s := seed1]\<rparr>) = Some (they', domain')"
        by (auto split: option.splits)
      from "1.IH"(2) [OF n(1,2) refl refl refl refl refl n(3) refl refl refl Some sc refl rest]
      show ?thesis
        using same_domain_trans [OF same_domain_seed [OF mpl_scan_seed_same [OF sc]]] by simp
    qed
  qed
qed

lemma mpl_quiet_same_domain:
  assumes "same_domain (mpl_domains st ! d) domain'"
  shows "mpl_quiet st (mpl_upd_domain d (\<lambda>_. domain') st)"
proof -
  have "mpl_packets (mpl_upd_domain d (\<lambda>_. domain') st) = mpl_packets st"
    unfolding mpl_packets_def mpl_upd_domain_def
    using assms by simp (rule map_update_same, simp add: same_domain_def)
  moreover have "mpl_skeleton (mpl_upd_domain d (\<lambda>_. domain') st) = mpl_skeleton st"
    by (rule mpl_skeleton_upd_domain) (use assms in \<open>simp_all add: same_domain_def\<close>)
  ultimately show ?thesis by (simp add: mpl_quiet_def)
qed

lemma mpl_quiet_unmentioned: "mpl_quiet (snd ws) (snd (mpl_unmentioned_seed env c d s ws))"
proof -
  obtain we st where ws: "ws = (we, st)" by (cases ws)
  define ws1 where "ws1 = (if seed_colour (mpl_seed_at st d s) \<noteq> c
      then (True, mpl_upd_seed d s (\<lambda>seed. seed\<lparr>seed_colour := c\<rparr>) st) else (we, st))"
  have "mpl_quiet st (snd ws1)"
    unfolding ws1_def by (auto intro!: mpl_quiet_upd_seed)
  moreover have "mpl_quiet (snd ws1)
      (snd (fold (mpl_unmentioned_message env c d s) [0..<length (messages (mpl_seed_at st d s))] ws1))"
  proof (rule mpl_quiet_fold_pair)
    fix i and bs :: "bool \<times> mpl_state"
    have "mpl_quiet (snd bs) (mpl_upd_message d s i (\<lambda>m. m\<lparr>msg_colour := c\<rparr>) (snd bs))"
      by (rule mpl_quiet_upd_message) simp
    from mpl_quiet_trans [OF this mpl_quiet_inconsistent]
    show "mpl_quiet (snd bs) (snd (mpl_unmentioned_message env c d s i bs))"
      by (cases bs) (simp add: mpl_unmentioned_message_def)
  qed
  moreover have "mpl_unmentioned_seed env c d s ws =
      fold (mpl_unmentioned_message env c d s) [0..<length (messages (mpl_seed_at st d s))] ws1"
    by (simp only: ws ws1_def mpl_unmentioned_seed_def prod.case)
  ultimately show ?thesis by (auto simp: ws intro: mpl_quiet_trans)
qed

lemma mpl_quiet_control_handler:
  assumes "mpl_control_handler env buf cur st = Some st'"
  shows "mpl_quiet st st'"
proof (cases "mpl_control_handler env buf cur st = Some st")
  case True
  with assms show ?thesis by simp
next
  case False
  with assms obtain d they domain we st2 where
    scan: "mpl_scan_control env (src_sa buf) (\<not> dom_colour (mpl_domains st ! d)) (buf_data buf)
      (False, (mpl_domains st ! d)\<lparr>dom_colour := \<not> dom_colour (mpl_domains st ! d)\<rparr>) = Some (they, domain)"
    and fold: "fold (mpl_unmentioned_seed env (\<not> dom_colour (mpl_domains st ! d)) d) [0..<length (seeds domain)]
      (False, mpl_upd_domain d (\<lambda>_. domain) st) = (we, st2)"
    and st': "st' = (if they \<or> we then mpl_domain_inconsistent env d st2
        else mpl_upd_domain d (\<lambda>domain. domain\<lparr>dom_trickle := trickle_consistent_heard (dom_trickle domain)\<rparr>) st2)"
    by (auto simp: mpl_control_handler_def Let_def split: if_splits option.splits prod.splits)
  have "same_domain (mpl_domains st ! d) domain"
    using mpl_scan_control_same [OF scan] by (simp add: same_domain_def)
  then have "mpl_quiet st (mpl_upd_domain d (\<lambda>_. domain) st)" by (rule mpl_quiet_same_domain)
  moreover have "mpl_quiet (snd (False, mpl_upd_domain d (\<lambda>_. domain) st)) (snd (we, st2))"
    unfolding fold [symmetric] by (intro mpl_quiet_fold_pair mpl_quiet_unmentioned)
  ultimately have "mpl_quiet st st2" by (auto intro: mpl_quiet_trans)
  moreover have "mpl_quiet st2 st'"
    unfolding st' by (auto simp: mpl_domain_inconsistent_def intro: mpl_quiet_upd_domain)
  ultimately show ?thesis by (rule mpl_quiet_trans)
qed

section \<open>Domains\<close>

lemma mpl_inv_domains:
  assumes "mpl_inv env st" and "mpl_sizes env st' = mpl_sizes env st"
    and "mpl_total_buffered st' = mpl_total_buffered st"
  shows "mpl_inv env st'"
  using assms by (simp add: mpl_inv_def)

lemma mpl_init_frame [simp]:
  "mpl_domains (mpl_init st) = mpl_domains st" "mpl_total_buffered (mpl_init st) = mpl_total_buffered st"
  by (simp_all add: mpl_init_def)

lemma mpl_inv_emit [simp]: "mpl_inv env (mpl_emit ev st) = mpl_inv env st"
  by (simp add: mpl_inv_def mpl_sizes_def)

lemma mpl_inv_init [simp]: "mpl_inv env (mpl_init st) = mpl_inv env st"
  by (simp add: mpl_inv_def mpl_sizes_def)

lemma mpl_inv_add_domain:
  assumes "mpl_inv env st" and "seeds domain = []"
  shows "mpl_inv env ((mpl_init st)\<lparr>mpl_domains := mpl_domains st @ [domain]\<rparr>)"
  using assms by (simp add: mpl_inv_def mpl_sizes_def domain_sizes_def)

lemma mpl_domain_create_body_inv:
  assumes "mpl_inv env st" and "\<And>st. mpl_inv env st \<Longrightarrow> mpl_inv env (inner st)"
  shows "mpl_inv env (snd (mpl_domain_create_body inner env alloc seq0 r cur addr sid mode proactive life dp cp st))"
  using assms by (simp add: mpl_domain_create_body_def Let_def mpl_inv_add_domain)

lemma mpl_domain_create_inv:
  assumes "mpl_inv env st"
  shows "mpl_inv env (snd (mpl_domain_create env alloc seq0 cur addr sid mode proactive life dp cp st))"
  unfolding mpl_domain_create_def
  by (rule mpl_domain_create_body_inv [OF assms])
    (simp add: mpl_domain_create_all_def mpl_domain_create_body_inv)

text \<open>
  The function nests two calls of its body where the source is recursive: a third one would
  never be made, because the second call, when it adds a domain, counts two on the interface.
\<close>

lemma mpl_domain_count_length:
  "mpl_domain_count_on_interface st cur = length (filter (\<lambda>domain. interface domain = cur) (mpl_domains st))"
proof -
  have "fold (\<lambda>domain count. if interface domain = cur then count + 1 else count) ds n =
      n + length (filter (\<lambda>domain. interface domain = cur) ds)" for ds :: "mpl_domain list" and n :: nat
    by (induction ds arbitrary: n) simp_all
  then show ?thesis by (simp add: mpl_domain_count_on_interface_def)
qed

lemma mpl_domain_create_recursive:
  assumes "\<exists>domain \<in> set (mpl_domains st). interface domain = if_id cur"
  shows "mpl_domain_create_body inner env alloc seq0 r cur addr sid mode proactive life dp cp st =
    mpl_domain_create_body inner' env alloc seq0 r cur addr sid mode proactive life dp cp st"
proof -
  have "filter (\<lambda>domain. interface domain = if_id cur) (mpl_domains st) \<noteq> []"
    using assms by (auto simp: filter_empty_conv)
  then show ?thesis
    by (simp add: mpl_domain_create_body_def Let_def mpl_domain_count_length)
qed

lemma mpl_domain_delete_inv:
  assumes "mpl_inv env st"
  shows "mpl_inv env (snd (mpl_domain_delete env cur addr st))"
proof (cases "mpl_domain_lookup st cur addr")
  case None
  with assms show ?thesis by (simp add: mpl_domain_delete_def)
next
  case (Some d)
  then have d: "d < length (mpl_domains st)"
    using find_index_SomeD(1) by (fastforce simp: mpl_domain_lookup_def)
  have remove: "mpl_inv env (st'\<lparr>mpl_domains := list_remove d (mpl_domains st')\<rparr>)"
    if "mpl_inv env st'" "d < length (mpl_domains st')" "seeds (mpl_domains st' ! d) = []" for st'
    using that sum_list_map_remove [OF that(2), of "domain_sizes env"]
    by (simp add: mpl_inv_def mpl_sizes_def domain_sizes_def)
  have all: "mpl_inv env (mpl_delete_all_seeds env d st') \<and> d < length (mpl_domains (mpl_delete_all_seeds env d st'))
      \<and> seeds (mpl_domains (mpl_delete_all_seeds env d st') ! d) = []"
    if "mpl_inv env st'" "mpl_domains st' = mpl_domains st" for st'
    using mpl_delete_all_seeds_spec [of env st' d] that d by simp
  show ?thesis
    using assms Some all [of st] all [of "mpl_emit (Mpl_seed cur False) st"]
    by (simp add: mpl_domain_delete_def Let_def remove)
qed

lemma mpl_clear_realm_inv:
  assumes "mpl_inv env st"
  shows "mpl_inv env (mpl_clear_realm_scope_seeds env cur st)"
proof -
  let ?P = "\<lambda>st'. mpl_inv env st' \<and> length (mpl_domains st') = length (mpl_domains st)"
  have "?P (mpl_clear_realm_scope_seeds env cur st)"
    unfolding mpl_clear_realm_scope_seeds_def
    by (rule fold_invariant [where Q = "\<lambda>d. d < length (mpl_domains st)" and P = ?P])
      (use assms mpl_delete_all_seeds_spec in \<open>auto\<close>)
  then show ?thesis by blast
qed

lemma mpl_change_timing_inv: "mpl_inv env st \<Longrightarrow> mpl_inv env (mpl_domain_change_timing d p life st)"
  using mpl_inv_packets [OF mpl_packets_upd_domain, of _ st d env]
  by (simp add: mpl_domain_change_timing_def)

lemma mpl_exthdr_provider_inv:
  assumes "mpl_inv env st" and "mpl_packet_ok env buf"
    and "mpl_exthdr_provider env xe now seed_ok msg_ok buf stage st = Some (b, res, st')"
  shows "mpl_inv env st'"
proof (cases "st' = st")
  case True
  with assms(1) show ?thesis by simp
next
  case False
  let ?d = "mpl_domain_lookup_with_realm_check st (buf_interface buf) (dst_sa buf)"
  from False assms(3) have "stage = IPV6_EXTHDR_MODIFY"
    by (auto simp: mpl_exthdr_provider_def Let_def split: if_splits option.splits prod.splits
        ipv6_exthdr_stage_t.splits)
  with assms(3) have m: "mpl_exthdr_modify env now seed_ok msg_ok ?d buf st = Some (b, res, st')"
    by (simp add: mpl_exthdr_provider_def Let_def)
  with False obtain d where d: "?d = Some d"
    by (cases ?d) (auto simp: mpl_exthdr_modify_def)
  let ?sq = "sequence (mpl_domains st ! d)"
  let ?buf = "buf\<lparr>buf_data := (buf_data buf)[45 := ?sq], ext_hbh_mpl_unfilled := False,
      mpl_option_data_offset := 44\<rparr>"
  let ?st = "mpl_upd_domain d (\<lambda>domain. domain\<lparr>sequence := sequence domain + 1\<rparr>) st"
  obtain r where f: "mpl_forwarder_process_message env now seed_ok msg_ok ?buf (Some d) True ?st = Some (r, st')"
    using m False unfolding d by (auto simp: mpl_exthdr_modify_def Let_def split: if_splits)
  have "mpl_quiet st ?st" by (rule mpl_quiet_upd_domain) simp_all
  from mpl_quiet_inv [OF this assms(1)] have "mpl_inv env ?st" .
  moreover have "mpl_packet_ok env ?buf" using assms(2) by (simp add: mpl_packet_ok_def)
  moreover have "d < length (mpl_domains ?st)" using mpl_domain_lookup_realm_lt [OF d] by simp
  ultimately show ?thesis
    using mpl_forwarder_returns [of env ?st ?buf "Some d" now seed_ok msg_ok True] f by auto
qed

section \<open>Reachable states\<close>

definition mpl_state_init :: mpl_state where
  "mpl_state_init = \<lparr>mpl_domains = [], mpl_total_buffered = 0, mpl_timer2_running = False,
     mpl_initted = False, mpl_events = []\<rparr>"

inductive mpl_reach :: "mpl_env \<Rightarrow> mpl_state \<Rightarrow> bool" for env where
  init: "mpl_reach env mpl_state_init"
| create: "mpl_reach env st \<Longrightarrow>
    mpl_reach env (snd (mpl_domain_create env alloc seq0 cur addr sid mode proactive life dp cp st))"
| delete: "mpl_reach env st \<Longrightarrow> mpl_reach env (snd (mpl_domain_delete env i addr st))"
| change_timing: "mpl_reach env st \<Longrightarrow> mpl_reach env (mpl_domain_change_timing d p life st)"
| clear_realm: "mpl_reach env st \<Longrightarrow> mpl_reach env (mpl_clear_realm_scope_seeds env i st)"
| receive: "mpl_reach env st \<Longrightarrow> mpl_packet_ok env buf \<Longrightarrow>
    mpl_forwarder_process_message env now seed_ok msg_ok buf None seeding st = Some (r, st') \<Longrightarrow>
    mpl_reach env st'"
| send: "mpl_reach env st \<Longrightarrow> mpl_packet_ok env buf \<Longrightarrow>
    mpl_exthdr_provider env xe now seed_ok msg_ok buf stage st = Some (b, res, st') \<Longrightarrow>
    mpl_reach env st'"
| control: "mpl_reach env st \<Longrightarrow> mpl_control_handler env buf cur st = Some st' \<Longrightarrow> mpl_reach env st'"
| slow: "mpl_reach env st \<Longrightarrow> mpl_reach env (mpl_slow_timer env now seconds st)"
| fast: "mpl_reach env st \<Longrightarrow> mpl_fast_timer2 env bok st = Some st' \<Longrightarrow> mpl_reach env st'"

lemma mpl_reach_mpl_inv: "mpl_reach env st \<Longrightarrow> mpl_inv env st"
proof (induction rule: mpl_reach.induct)
  case init
  then show ?case by (simp add: mpl_inv_def mpl_sizes_def mpl_state_init_def)
next
  case (receive st buf now seed_ok msg_ok seeding r st')
  then show ?case
    using mpl_forwarder_returns [of env st buf None now seed_ok msg_ok seeding] by auto
next
  case (send st buf xe now seed_ok msg_ok stage b res st')
  then show ?case using mpl_exthdr_provider_inv by blast
next
  case (control st buf cur st')
  then show ?case using mpl_quiet_inv [OF mpl_quiet_control_handler] by blast
next
  case (fast st bok st')
  then show ?case using mpl_quiet_inv [OF mpl_quiet_fast_timer] by blast
qed (simp_all add: mpl_domain_create_inv mpl_domain_delete_inv mpl_change_timing_inv mpl_clear_realm_inv
    mpl_slow_timer_inv)

end
