(* ===== verification/MplForward.thy ===== *)
theory MplForward
  imports MplHandlers
begin

text \<open>
  What the forwarder promises of its buffers: they stay within their limit in every reachable
  state, the loop that frees space ends, and the handlers of data messages return.
\<close>

section \<open>The contract of the external functions\<close>

text \<open>
  \<open>common_read_16_bit\<close> reads a big-endian number, \<open>common_serial_number_greater_8\<close> is the
  comparison of RFC 1982 on 8-bit serial numbers, and \<open>bit_set\<close> and \<open>bit_test\<close> write and read
  one bit of an array.
\<close>

definition read16_ok :: "mpl_env \<Rightarrow> bool" where
  "read16_ok env \<longleftrightarrow> (\<forall>a b. common_read_16_bit env a b = word_of_nat (256 * unat a + unat b))"

definition serial_ok :: "mpl_env \<Rightarrow> bool" where
  "serial_ok env \<longleftrightarrow> (\<forall>a b. common_serial_number_greater_8 env a b \<longleftrightarrow> 0 < unat (a - b) \<and> unat (a - b) < 128)"

definition bits_ok :: "mpl_env \<Rightarrow> bool" where
  "bits_ok env \<longleftrightarrow>
     (\<forall>n i. unat i div 8 < n \<longrightarrow> \<not> bit_test env (replicate n 0) i) \<and>
     (\<forall>bm i. length (bit_set env bm i) = length bm) \<and>
     (\<forall>bm i j. unat i div 8 < length bm \<longrightarrow> unat j div 8 < length bm \<longrightarrow>
        bit_test env (bit_set env bm i) j = (i = j \<or> bit_test env bm j))"

text \<open>An instance, bits counted from the most significant one of the first byte.\<close>

definition mpl_env_example :: mpl_env where
  "mpl_env_example = \<lparr>
     common_read_16_bit = (\<lambda>a b. word_of_nat (256 * unat a + unat b)),
     common_serial_number_greater_8 = (\<lambda>a b. 0 < unat (a - b) \<and> unat (a - b) < 128),
     bit_test = (\<lambda>bm i. bit (bm ! (unat i div 8)) (7 - unat i mod 8)),
     bit_set = (\<lambda>bm i. bm[unat i div 8 := bm ! (unat i div 8) OR push_bit (7 - unat i mod 8) 1]),
     addr_is_assigned_to_interface = (\<lambda>_ _. False), mpl_low_latency = False,
     rnd = (\<lambda>_ a b. a),
     heap_trickle = \<lparr>tr_c = 0, tr_e = 0, tr_I = 0, tr_t = 0, tr_now = 0, tr_num_tx = 0\<rparr>\<rparr>"

lemma mpl_env_example_ok: "read16_ok mpl_env_example" "serial_ok mpl_env_example"
  by (simp_all add: read16_ok_def serial_ok_def mpl_env_example_def)

lemma mpl_env_example_bits: "bits_ok mpl_env_example"
proof -
  have ij: "i = j \<longleftrightarrow> unat i div 8 = unat j div 8 \<and> 7 - unat i mod 8 = 7 - unat j mod 8" for i j :: u8
  proof
    assume a: "unat i div 8 = unat j div 8 \<and> 7 - unat i mod 8 = 7 - unat j mod 8"
    have "unat i mod 8 < 8" "unat j mod 8 < 8" by simp_all
    with a have "unat i mod 8 = unat j mod 8" by linarith
    with a have "unat i = unat j" by (metis mult_div_mod_eq)
    then show "i = j" by (simp add: word_unat_eq_iff)
  qed simp
  show ?thesis
    unfolding bits_ok_def mpl_env_example_def mpl_env.select_convs
  proof (intro conjI allI impI)
    fix bm :: bytes and i j :: u8
    assume i: "unat i div 8 < length bm" and j: "unat j div 8 < length bm"
    show "bit (bm[unat i div 8 := bm ! (unat i div 8) OR push_bit (7 - unat i mod 8) 1] ! (unat j div 8))
        (7 - unat j mod 8) = (i = j \<or> bit (bm ! (unat j div 8)) (7 - unat j mod 8))"
      using i j by (auto simp: nth_list_update bit_or_iff bit_push_bit_iff bit_1_iff bit_exp_iff possible_bit_def ij)
  qed simp_all
qed

section \<open>Buffers\<close>

text \<open>
  C2: Whatever the handlers do, \<open>mpl_total_buffered\<close> is the number of bytes of all messages
  buffered for all seeds of all domains, and it never exceeds \<open>MAX_BUFFERED_MESSAGES_SIZE\<close>.
\<close>

theorem mpl_buffer_accounting:
  assumes "mpl_reach env st"
  shows "unat (mpl_total_buffered st) =
      (\<Sum>domain \<leftarrow> mpl_domains st. \<Sum>seed \<leftarrow> seeds domain. \<Sum>m \<leftarrow> messages seed. unat (mpl_buffer_size env m)) \<and>
    unat (mpl_total_buffered st) \<le> MAX_BUFFERED_MESSAGES_SIZE"
  using mpl_reach_mpl_inv [OF assms]
  by (simp add: mpl_inv_def mpl_sizes_def domain_sizes_def [abs_def] seed_sizes_def [abs_def])

definition mpl_if_example :: protocol_interface_info_entry_t where
  "mpl_if_example = \<lparr>if_id = 1, mpl_treat_realm_domains_as_one = True,
     mpl_seed_id_mode = MULTICAST_MPL_SEED_ID_IPV6_SRC_FOR_DOMAIN, mpl_seed_id = [],
     mpl_proactive_forwarding = True, mpl_seed_set_entry_lifetime = 1800,
     mpl_data_trickle_params = \<lparr>p_Imin = 11, p_Imax = 11, p_k = 1, p_TimerExpirations = 3\<rparr>,
     mpl_control_trickle_params = \<lparr>p_Imin = 11, p_Imax = 6000, p_k = 1, p_TimerExpirations = 10\<rparr>,
     if_mac = replicate 8 1, iid_eui64 = replicate 8 2, iid_slaac = replicate 8 3, ws_info = True\<rparr>"

text \<open>A packet of 48 bytes to all forwarders with an 8-byte hop-by-hop header, sequence number 5.\<close>

definition mpl_buf_example :: buffer_t where
  "mpl_buf_example = \<lparr>
     buf_data = [0x60, 0, 0, 0, 0, 8, 0, 64] @ replicate 16 1 @ ADDR_ALL_MPL_FORWARDERS @
                [59, 0, 0x6D, 2, 0, 5, 1, 0],
     mpl_option_data_offset = 44, src_sa = replicate 16 1, src_addr_none = False,
     dst_sa = ADDR_ALL_MPL_FORWARDERS, buf_interface = mpl_if_example, multicast_loop = False,
     dir_up = True, ext_hbh_mpl = True, ext_hbh_mpl_unfilled = False, ll_security_bypass_rx = False,
     opt_hop_limit = 64, opt_type = 0\<rparr>"

definition mpl_st_example :: mpl_state where
  "mpl_st_example = snd (mpl_domain_create mpl_env_example (True, True) (0, 0) mpl_if_example
     ADDR_ALL_MPL_FORWARDERS [] MULTICAST_MPL_SEED_ID_DEFAULT None 0 None None mpl_state_init)"

lemma mpl_st_example_reach: "mpl_reach mpl_env_example mpl_st_example"
  unfolding mpl_st_example_def by (rule mpl_reach.create [OF mpl_reach.init])

lemma mpl_buf_example_ok: "mpl_packet_ok mpl_env_example mpl_buf_example"
  by (simp add: mpl_packet_ok_def mpl_buf_example_def mpl_env_example_def ADDR_ALL_MPL_FORWARDERS_def)

theorem mpl_buffer_accounting_witness:
  "unat (mpl_total_buffered (snd (the (mpl_forwarder_process_message mpl_env_example 0 True True
     mpl_buf_example None False mpl_st_example)))) \<le> MAX_BUFFERED_MESSAGES_SIZE"
proof -
  obtain r st' where f: "mpl_forwarder_process_message mpl_env_example 0 True True mpl_buf_example
      None False mpl_st_example = Some (r, st')"
    using mpl_forwarder_returns [OF mpl_reach_mpl_inv [OF mpl_st_example_reach] mpl_buf_example_ok] by blast
  from mpl_buffer_accounting [OF mpl_reach.receive [OF mpl_st_example_reach mpl_buf_example_ok f]]
  show ?thesis by (simp add: f)
qed

text \<open>
  The loop of \<open>mpl_buffer_create\<close> that frees space for a packet of \<open>n\<close> bytes ends exactly
  when the packet is not longer than the limit. For a longer one it never ends: it frees every
  message and goes on.
\<close>

lemma mpl_make_space_terminates:
  assumes "mpl_reach env st"
  shows "mpl_make_space env now n st \<noteq> None \<longleftrightarrow> n \<le> MAX_BUFFERED_MESSAGES_SIZE"
proof
  assume "mpl_make_space env now n st \<noteq> None"
  then obtain st' where "mpl_make_space env now n st = Some st'" by blast
  from mpl_make_space_bound [OF this] show "n \<le> MAX_BUFFERED_MESSAGES_SIZE" by simp
next
  assume "n \<le> MAX_BUFFERED_MESSAGES_SIZE"
  from mpl_make_space_returns [OF mpl_reach_mpl_inv [OF assms] this, of now]
  show "mpl_make_space env now n st \<noteq> None" by auto
qed

text \<open>
  C15: \<open>mpl_forwarder_process_message\<close> returns on every packet that is as long as its IP header
  says and fits into the limit, in every reachable state and whatever the allocations do.
\<close>

theorem mpl_forwarder_total:
  assumes "mpl_reach env st" and "mpl_packet_ok env buf"
  shows "\<exists>r st'. mpl_forwarder_process_message env now seed_ok msg_ok buf None seeding st = Some (r, st')"
  using mpl_forwarder_returns [OF mpl_reach_mpl_inv [OF assms(1)] assms(2), of None now seed_ok msg_ok seeding]
  by auto

theorem mpl_forwarder_total_witness:
  "\<exists>r st'. mpl_forwarder_process_message mpl_env_example 7 False True mpl_buf_example None True mpl_st_example =
     Some (r, st')"
  by (rule mpl_forwarder_total [OF mpl_st_example_reach mpl_buf_example_ok])

section \<open>A message is accepted once\<close>

text \<open>What decides about a message: \<open>MinSequence\<close> and the sequence numbers that are buffered.\<close>

definition seed_view :: "mpl_seed_t \<Rightarrow> u8 \<times> u8 list" where
  "seed_view seed = (min_sequence seed, map mpl_buffer_sequence (messages seed))"

lemma seed_view_upd_message:
  assumes "mpl_seed_ptr st d s" and "\<And>m. msg_bytes (f m) = msg_bytes m"
    and "\<And>m. mpl_opt_data_offset (f m) = mpl_opt_data_offset m"
  shows "seed_view (mpl_seed_at (mpl_upd_message d s i f st) d s) = seed_view (mpl_seed_at st d s)"
  unfolding mpl_upd_message_def mpl_seed_at_upd_seed [OF assms(1)] seed_view_def
  by simp (rule map_update_same, simp add: mpl_buffer_sequence_def assms(2,3))

lemma seed_view_m_flag:
  assumes "mpl_seed_ptr st d s"
  shows "seed_view (mpl_seed_at (mpl_m_flag env d s sq st) d s) = seed_view (mpl_seed_at st d s)"
proof -
  let ?P = "\<lambda>st'. mpl_quiet st st' \<and> seed_view (mpl_seed_at st' d s) = seed_view (mpl_seed_at st d s)"
  have step: "?P (mpl_buffer_inconsistent env d s i st')" if "?P st'" for i st'
  proof -
    have "mpl_seed_ptr st' d s" using mpl_quiet_ptr that assms by blast
    then show ?thesis
      using that mpl_quiet_trans [OF _ mpl_quiet_inconsistent]
      by (auto simp: mpl_buffer_inconsistent_def seed_view_upd_message)
  qed
  have "?P (mpl_m_flag env d s sq st)"
    unfolding mpl_m_flag_def
    by (rule fold_invariant [where Q = "\<lambda>_. True" and P = ?P]) (use step in auto)
  then show ?thesis by blast
qed

definition seed_knows :: "mpl_env \<Rightarrow> mpl_seed_t \<Rightarrow> u8 \<Rightarrow> bool" where
  "seed_knows env seed sq \<longleftrightarrow> common_serial_number_greater_8 env (min_sequence seed) sq \<or>
     sq \<in> mpl_buffer_sequence ` set (messages seed)"

lemma seed_knows_view:
  "seed_view seed = seed_view seed' \<Longrightarrow> seed_knows env seed sq = seed_knows env seed' sq"
  unfolding seed_knows_def seed_view_def prod.inject by (metis image_set)

lemma mpl_on_seed_rejects:
  assumes "mpl_seed_ptr st d s" and "seed_knows env (mpl_seed_at st d s) (buf_sequence buf)"
  shows "\<exists>st'. mpl_process_on_seed env now ok buf d s seeding st = Some (False, st')"
proof -
  define st1 where "st1 = (if drop (mpl_option_data_offset buf) (buf_data buf) ! 0 AND MPL_OPT_M \<noteq> 0
      then mpl_m_flag env d s (buf_sequence buf) st else st)"
  have "seed_view (mpl_seed_at st1 d s) = seed_view (mpl_seed_at st d s)"
    by (simp add: st1_def seed_view_m_flag [OF assms(1)])
  with assms(2) have k: "seed_knows env (mpl_seed_at st1 d s) (buf_sequence buf)"
    using seed_knows_view by blast
  have "mpl_buffer_lookup (mpl_seed_at st1 d s) (buf_sequence buf) \<noteq> None"
    if "\<not> common_serial_number_greater_8 env (min_sequence (mpl_seed_at st1 d s)) (buf_sequence buf)"
    using k that unfolding seed_knows_def mpl_buffer_lookup_def by auto
  then show ?thesis
    unfolding mpl_process_on_seed_eq [OF refl st1_def refl refl]
    by (cases "common_serial_number_greater_8 env (min_sequence (mpl_seed_at st1 d s)) (buf_sequence buf)") auto
qed

text \<open>A packet whose MPL option lies behind the IPv6 header.\<close>

definition mpl_option_ok :: "buffer_t \<Rightarrow> bool" where
  "mpl_option_ok buf \<longleftrightarrow> IPV6_HDRLEN \<le> mpl_option_data_offset buf \<and>
     mpl_option_data_offset buf + 1 < length (buf_data buf)"

lemma mpl_seed_at_reset [simp]: "mpl_seed_at (mpl_control_reset_or_start env d st) d' s' = mpl_seed_at st d' s'"
proof -
  have "seeds (mpl_domains (mpl_control_reset_or_start env d st) ! d') = seeds (mpl_domains st ! d')"
    by (cases "d < length (mpl_domains st)"; cases "d' = d")
      (auto simp: mpl_control_reset_or_start_def mpl_upd_domain_def list_update_beyond)
  then show ?thesis by (simp add: mpl_seed_at_def)
qed

lemma mpl_buffer_create_remembers:
  assumes "mpl_inv env st" and "mpl_seed_ptr st d s" and "mpl_packet_ok env buf" and "mpl_option_ok buf"
    and "mpl_buffer_create env now True buf d s (buf_sequence buf) hop st = Some (r, st')"
  shows "seed_knows env (mpl_seed_at st' d s) (buf_sequence buf)"
proof (cases rule: mpl_buffer_create_cases [of env now buf st True d s "buf_sequence buf" hop])
  case loop
  with assms(5) show ?thesis by simp
next
  case (refused st1)
  with assms(5) show ?thesis by (simp add: seed_knows_def)
next
  case (created st1 st2 m p)
  have "mpl_skeleton st1 = mpl_skeleton st"
    using mpl_make_space_returns [OF assms(1), of "length (buf_data buf)" now] assms(3) created(1)
    by (auto simp: mpl_packet_ok_def)
  then have ptr: "mpl_seed_ptr st2 d s"
    using mpl_skeleton_shape(2) [of st1 st d s] assms(2) by (simp add: created(4) mpl_seed_ptr_def)
  have st': "mpl_seed_at st' d s =
      (mpl_seed_at st2 d s)\<lparr>messages := mpl_insert p m (messages (mpl_seed_at st2 d s))\<rparr>"
    using assms(5) mpl_seed_at_upd_seed [OF ptr] unfolding created(8) by auto
  have "m \<in> set (messages (mpl_seed_at st' d s))" by (simp add: st' mpl_insert_def)
  moreover have "mpl_buffer_sequence m = buf_sequence buf"
    using assms(4) by (simp add: mpl_buffer_sequence_def created(5,6) mpl_option_ok_def)
  ultimately show ?thesis by (force simp: seed_knows_def)
qed

end
