(* ===== verification/MplOnce.thy ===== *)
theory MplOnce
  imports MplForward
begin

text \<open>
  A message is accepted once: after \<open>mpl_forwarder_process_message\<close> has accepted a packet, the
  same packet is rejected as a duplicate.
\<close>

section \<open>The seed remembers\<close>

lemma mpl_on_seed_remembers:
  assumes "mpl_inv env st" and "mpl_seed_ptr st d s" and "mpl_packet_ok env buf" and "mpl_option_ok buf"
    and "serial_ok env"
    and "mpl_process_on_seed env now True buf d s seeding st = Some (True, st')"
  shows "seed_knows env (mpl_seed_at st' d s) (buf_sequence buf)"
proof -
  define opt where "opt = drop (mpl_option_data_offset buf) (buf_data buf)"
  define st1 where "st1 = (if opt ! 0 AND MPL_OPT_M \<noteq> 0 then mpl_m_flag env d s (opt ! 1) st else st)"
  define st2 where "st2 = mpl_upd_seed d s
      (\<lambda>seed. seed\<lparr>seed_lifetime := seed_set_entry_lifetime (mpl_domains st1 ! d)\<rparr>) st1"
  define hop where "hop = (if \<not> seeding \<and> buf_data buf ! 7 \<noteq> 0 then buf_data buf ! 7 - 1 else buf_data buf ! 7)"
  note eq = mpl_process_on_seed_eq [OF opt_def st1_def st2_def hop_def, of now True]
  have "mpl_quiet st st1" by (simp add: st1_def mpl_quiet_m_flag)
  also have "mpl_quiet st1 st2" unfolding st2_def by (rule mpl_quiet_upd_seed) simp_all
  finally have q: "mpl_quiet st st2" .
  have inv: "mpl_inv env st2" by (rule mpl_quiet_inv [OF q assms(1)])
  have ptr: "mpl_seed_ptr st2 d s" using mpl_quiet_ptr [OF q] assms(2) by simp
  consider (advance) "st' = mpl_seed_advance_min_sequence env d s (opt ! 1 + 1) st2"
    | (none) "mpl_buffer_create env now True buf d s (opt ! 1) hop st2 = Some (None, st')"
    | (some) i st3 where "mpl_buffer_create env now True buf d s (opt ! 1) hop st2 = Some (Some i, st3)"
        "st' = mpl_upd_message d s i (\<lambda>m. m\<lparr>transmit_done := \<not> dir_up buf\<rparr>) st3"
    using assms(6) unfolding eq by (auto split: if_splits option.splits)
  then show ?thesis
  proof cases
    case advance
    then have "min_sequence (mpl_seed_at st' d s) = buf_sequence buf + 1"
      using mpl_advance_spec(3) [OF inv ptr] by (simp add: opt_def)
    then show ?thesis using assms(5) by (simp add: seed_knows_def serial_ok_def)
  next
    case none
    then show ?thesis
      using mpl_buffer_create_remembers [OF inv ptr assms(3,4)] by (simp add: opt_def)
  next
    case some
    have "mpl_skeleton st3 = mpl_skeleton st2"
      using mpl_buffer_create_returns [OF inv ptr assms(3), of now True "opt ! 1" hop] some(1) by auto
    then have "mpl_seed_ptr st3 d s" using mpl_skeleton_shape(2) ptr by blast
    then have "seed_view (mpl_seed_at st' d s) = seed_view (mpl_seed_at st3 d s)"
      unfolding some(2) by (rule seed_view_upd_message) simp_all
    then show ?thesis
      using mpl_buffer_create_remembers [OF inv ptr assms(3,4) some(1) [unfolded opt_def]]
        seed_knows_view by blast
  qed
qed

section \<open>The seed is found again\<close>

lemma find_index_map: "find_index P (map f xs) = find_index (P \<circ> f) xs"
  by (induction xs) auto

lemma find_index_cong_map:
  assumes "map f xs = map f ys" and "\<And>x. P x = Q (f x)"
  shows "find_index P xs = find_index P ys"
proof -
  have "P = Q \<circ> f" using assms(2) by (simp add: fun_eq_iff)
  then show ?thesis using assms(1) find_index_map [of Q f] by metis
qed

lemma find_index_append:
  "find_index P (xs @ ys) =
     (case find_index P xs of Some i \<Rightarrow> Some i | None \<Rightarrow> map_option ((+) (length xs)) (find_index P ys))"
proof (induction xs)
  case Nil
  have "(+) (0::nat) = id" by auto
  then show ?case by (simp add: option.map_id0)
next
  case (Cons x xs)
  have "Suc \<circ> (+) (length xs) = (+) (length (x # xs))" by auto
  with Cons show ?case by (simp add: option.map_comp option.case_distrib [of "map_option Suc"] del: find_index_None split: option.split)
qed

lemma mpl_skeleton_seed_lookup:
  assumes "mpl_skeleton st' = mpl_skeleton st" and "d < length (mpl_domains st)"
  shows "mpl_seed_lookup (mpl_domains st' ! d) len sid = mpl_seed_lookup (mpl_domains st ! d) len sid"
  unfolding mpl_seed_lookup_def
  by (rule find_index_cong_map [where f = "\<lambda>seed. (id_len seed, seed_id seed)"
        and Q = "\<lambda>(l, i). l = len \<and> take len i = take len sid"])
    (use mpl_skeleton_shape(3) [OF assms] in auto)

definition domain_keys :: "mpl_state \<Rightarrow> (nat \<times> bytes) list" where
  "domain_keys st = map (\<lambda>domain. (interface domain, address domain)) (mpl_domains st)"

lemma mpl_skeleton_domain_keys: "mpl_skeleton st' = mpl_skeleton st \<Longrightarrow> domain_keys st' = domain_keys st"
  using mpl_skeleton_shape(1,3) [of st' st] by (simp add: domain_keys_def list_eq_iff_nth_eq)

lemma domain_keys_lookup:
  assumes "domain_keys st' = domain_keys st"
  shows "mpl_domain_lookup_with_realm_check st' cur a = mpl_domain_lookup_with_realm_check st cur a"
proof -
  have "mpl_domain_lookup st' i a = mpl_domain_lookup st i a" for i a
    unfolding mpl_domain_lookup_def
    by (rule find_index_cong_map [where f = "\<lambda>domain. (interface domain, address domain)"
          and Q = "\<lambda>(j, b). j = i \<and> addr_ipv6_equal b a"])
      (use assms in \<open>auto simp: domain_keys_def\<close>)
  then show ?thesis by (simp add: mpl_domain_lookup_with_realm_check_def)
qed

lemma mpl_seed_create_found:
  assumes "d < length (mpl_domains st)" and "mpl_seed_lookup (mpl_domains st ! d) len sid = None"
    and "mpl_seed_create ok d len sid sq st = (Some s, st')"
  shows "mpl_seed_lookup (mpl_domains st' ! d) len sid = Some s" and "domain_keys st' = domain_keys st"
proof -
  from assms(2) have none: "find_index (\<lambda>seed. id_len seed = len \<and> take len (seed_id seed) = take len sid)
      (seeds (mpl_domains st ! d)) = None"
    by (simp only: mpl_seed_lookup_def)
  show "mpl_seed_lookup (mpl_domains st' ! d) len sid = Some s"
    using assms(1,3) none
    by (auto simp: mpl_seed_create_def mpl_seed_lookup_def mpl_upd_domain_def Let_def find_index_append
        simp del: find_index_None split: if_splits)
  show "domain_keys st' = domain_keys st"
    using assms(1,3)
    by (auto simp: mpl_seed_create_def mpl_upd_domain_def Let_def domain_keys_def list_eq_iff_nth_eq
        nth_list_update split: if_splits)
qed

text \<open>An accepted packet has a domain and a seed, which knows it afterwards.\<close>

lemma mpl_forwarder_accepted:
  assumes "mpl_inv env st" and "mpl_packet_ok env buf" and "mpl_option_ok buf" and "serial_ok env"
    and "seeding \<or> \<not> multicast_loop buf"
    and "mpl_forwarder_process_message env now seed_ok True buf None seeding st = Some (True, st')"
  obtains d s where "mpl_domain_lookup_with_realm_check st' (buf_interface buf) (dst_sa buf) = Some d"
    and "mpl_seed_lookup (mpl_domains st' ! d) (packet_seed_len buf) (packet_seed_id buf) = Some s"
    and "mpl_seed_ptr st' d s" and "seed_knows env (mpl_seed_at st' d s) (buf_sequence buf)"
proof -
  let ?len = "packet_seed_len buf" and ?sid = "packet_seed_id buf"
  obtain d where d: "mpl_domain_lookup_with_realm_check st (buf_interface buf) (dst_sa buf) = Some d"
    using assms(5,6) by (auto simp: mpl_forwarder_process_message_def Let_def split: if_splits option.splits)
  have lt: "d < length (mpl_domains st)" by (rule mpl_domain_lookup_realm_lt [OF d])
  note eq = mpl_forwarder_eq [OF assms(5), where dptr = None and st = st and d = d, simplified option.case, OF d]
  obtain s st1 where st1: "mpl_process_on_seed env now True buf d s seeding st1 = Some (True, st')"
    "mpl_inv env st1" "mpl_seed_ptr st1 d s" "domain_keys st1 = domain_keys st"
    "mpl_seed_lookup (mpl_domains st1 ! d) ?len ?sid = Some s"
  proof (cases "mpl_seed_lookup (mpl_domains st ! d) ?len ?sid")
    case (Some s)
    then have "mpl_seed_ptr st d s"
      using lt find_index_SomeD(1) by (fastforce simp: mpl_seed_lookup_def mpl_seed_ptr_def)
    with Some that [of s st] assms(1,6) show ?thesis unfolding eq by simp
  next
    case None
    then obtain s st1 where c: "mpl_seed_create seed_ok d ?len ?sid (buf_sequence buf) st = (Some s, st1)"
      "mpl_process_on_seed env now True buf d s seeding st1 = Some (True, st')"
      using assms(6) unfolding eq by (auto split: prod.splits option.splits)
    from that [OF c(2)] mpl_seed_create_inv [OF assms(1) lt c(1)] mpl_seed_create_found [OF lt None c(1)]
    show ?thesis by blast
  qed
  have sk: "mpl_skeleton st' = mpl_skeleton st1"
    using mpl_process_on_seed_returns [OF st1(2,3) assms(2), of now True seeding] st1(1) by auto
  have lt1: "d < length (mpl_domains st1)" using st1(3) by (simp add: mpl_seed_ptr_def)
  show ?thesis
  proof (rule that)
    show "mpl_domain_lookup_with_realm_check st' (buf_interface buf) (dst_sa buf) = Some d"
      using domain_keys_lookup [of st' st] mpl_skeleton_domain_keys [OF sk] st1(4) d by simp
    show "mpl_seed_lookup (mpl_domains st' ! d) ?len ?sid = Some s"
      using mpl_skeleton_seed_lookup [OF sk lt1] st1(5) by simp
    show "mpl_seed_ptr st' d s" using mpl_skeleton_shape(2) [OF sk] st1(3) by simp
    show "seed_knows env (mpl_seed_at st' d s) (buf_sequence buf)"
      by (rule mpl_on_seed_remembers [OF st1(2,3) assms(2-4) st1(1)])
  qed
qed



end
