(* ===== verification/MplWire.thy ===== *)
theory MplWire
  imports MplOnce
begin

text \<open>
  What the forwarder keeps and sends: the loop over a received bitmap, the order of the buffered
  messages, the seed information of control messages and the hop-by-hop header.
\<close>

section \<open>The bitmap of a received control message\<close>

lemma mpl_scan_bits_ends:
  assumes "unat bm_len < 32" and "unat i \<le> 8 * unat bm_len"
  shows "mpl_scan_bits env c sq ptr bm_len i ts \<noteq> None"
  using assms(2)
proof (induction "8 * unat bm_len - unat i" arbitrary: i ts)
  case 0
  then have "\<not> unat i div 8 < unat bm_len" by linarith
  then show ?case unfolding mpl_scan_bits.simps [of env c sq ptr bm_len i] by (simp only: if_False) simp
next
  case (Suc n)
  show ?case
  proof (cases "unat i div 8 < unat bm_len")
    case True
    then have "unat i < 8 * unat bm_len" by linarith
    moreover have "unat (i + 1) = unat i + 1"
      using \<open>unat i < 8 * unat bm_len\<close> assms(1) by (simp add: unat_word_ariths)
    ultimately have "n = 8 * unat bm_len - unat (i + 1)" "unat (i + 1) \<le> 8 * unat bm_len"
      using Suc.hyps(2) by linarith+
    note IH = Suc.hyps(1) [OF this]
    show ?thesis unfolding mpl_scan_bits.simps [of env c sq ptr bm_len i] if_P [OF True] by (rule IH)
  next
    case False
    then show ?thesis unfolding mpl_scan_bits.simps [of env c sq ptr bm_len i] by (simp only: if_False) simp
  qed
qed

lemma mpl_scan_bits_bound:
  assumes "mpl_scan_bits env c sq ptr bm_len i ts = Some ts'"
  shows "unat bm_len < 32"
proof (rule mpl_scan_bits.raw_induct
    [where P = "\<lambda>env c sq ptr bm i ts ts'. unat bm < 32", OF _ assms], goal_cases)
  case (1 f env c sq ptr bm i ts ts')
  show ?case
  proof (cases "unat i div 8 < unat bm")
    case True
    with 1(2) have "f env c sq ptr bm (i + 1)
        (if bit_test env ptr i
         then case mpl_buffer_lookup (snd ts) (sq + i) of
                Some j \<Rightarrow> (fst ts, (snd ts)\<lparr>messages := (messages (snd ts))
                              [j := (messages (snd ts) ! j)\<lparr>msg_colour := c\<rparr>]\<rparr>)
              | None \<Rightarrow> if common_serial_number_greater_8 env (sq + i) (min_sequence (snd ts))
                        then (True, snd ts) else ts
         else ts) = Some ts'"
      by (simp only: if_True)
    from 1(1) [OF this] show ?thesis .
  next
    case False
    moreover have "unat i < 256" using unsigned_less [of i] by simp
    ultimately show ?thesis by linarith
  qed
qed

text \<open>
  The loop over the bitmap of a seed entry ends exactly when the bitmap has fewer than 32
  bytes: the bound check of the handler lets 32 through, and the 8-bit loop counter then never
  leaves the bitmap.
\<close>

lemma mpl_scan_bits_terminates:
  "mpl_scan_bits env new_colour min_seqno ptr bm_len 0 ts \<noteq> None \<longleftrightarrow> unat bm_len < 32"
proof
  assume "mpl_scan_bits env new_colour min_seqno ptr bm_len 0 ts \<noteq> None"
  then obtain ts' where "mpl_scan_bits env new_colour min_seqno ptr bm_len 0 ts = Some ts'" by blast
  then show "unat bm_len < 32" by (rule mpl_scan_bits_bound)
qed (rule mpl_scan_bits_ends, simp_all)

section \<open>The order of buffered messages\<close>

definition seed_offset :: "mpl_seed_t \<Rightarrow> u8 \<Rightarrow> nat" where
  "seed_offset seed sq = unat (sq - min_sequence seed)"

text \<open>The messages of a seed are in the order of their sequence numbers, within the serial window.\<close>

definition seed_ordered :: "mpl_seed_t \<Rightarrow> bool" where
  "seed_ordered seed \<longleftrightarrow>
     sorted_wrt (<) (map (\<lambda>m. seed_offset seed (mpl_buffer_sequence m)) (messages seed)) \<and>
     (\<forall>m \<in> set (messages seed). seed_offset seed (mpl_buffer_sequence m) < 128)"

lemma serial_window:
  assumes "serial_ok env" and "seed_offset seed a < 128" and "seed_offset seed b < 128"
  shows "common_serial_number_greater_8 env a b \<longleftrightarrow> seed_offset seed b < seed_offset seed a"
proof -
  define x y where "x = a - min_sequence seed" and "y = b - min_sequence seed"
  have xy: "a - b = x - y" by (simp add: x_def y_def)
  have lt: "unat x < 128" "unat y < 128" using assms(2,3) by (simp_all add: seed_offset_def x_def y_def)
  have "unat (x - y) = (if unat y \<le> unat x then unat x - unat y else unat x + 256 - unat y)"
    by (simp add: unat_sub_if')
  then have "0 < unat (a - b) \<and> unat (a - b) < 128 \<longleftrightarrow> unat y < unat x" unfolding xy using lt by auto
  then show ?thesis
    using assms(1) unfolding serial_ok_def seed_offset_def x_def [symmetric] y_def [symmetric] by blast
qed

lemma dropWhile_rev_position:
  fixes P :: "'a \<Rightarrow> bool" and xs :: "'a list"
  defines "p \<equiv> length (dropWhile (\<lambda>x. \<not> P x) (rev xs))"
  shows "x \<in> set (drop p xs) \<Longrightarrow> \<not> P x" and "p \<noteq> 0 \<Longrightarrow> P (xs ! (p - 1))" and "p \<le> length xs"
proof -
  let ?lo = "rev (dropWhile (\<lambda>x. \<not> P x) (rev xs))" and ?hi = "rev (takeWhile (\<lambda>x. \<not> P x) (rev xs))"
  have split: "xs = ?lo @ ?hi" by (metis rev_append rev_rev_ident takeWhile_dropWhile_id)
  have p: "p = length ?lo" by (simp add: p_def)
  have "drop p xs = ?hi" using split p by (metis append_eq_conv_conj)
  then show "x \<in> set (drop p xs) \<Longrightarrow> \<not> P x" using set_takeWhileD by fastforce
  show "P (xs ! (p - 1))" if "p \<noteq> 0"
  proof -
    have ne: "dropWhile (\<lambda>x. \<not> P x) (rev xs) \<noteq> []" using that by (simp add: p_def)
    have "xs ! (p - 1) = ?lo ! (p - 1)" using split p that by (metis diff_less nth_append_left zero_less_one neq0_conv)
    also have "\<dots> = last ?lo" using ne p by (simp add: last_conv_nth)
    finally show ?thesis using ne hd_dropWhile [OF ne] by (simp add: last_rev)
  qed
  show "p \<le> length xs" using length_dropWhile_le [of _ "rev xs"] by (simp add: p_def)
qed

text \<open>
  A message that is not buffered yet and whose sequence number lies in the window of the
  seed is inserted at its place: the list stays ordered by sequence number.
\<close>

lemma mpl_insert_ordered:
  assumes "serial_ok env" and "seed_ordered seed" and "mpl_buffer_lookup seed (mpl_buffer_sequence m) = None"
    and "seed_offset seed (mpl_buffer_sequence m) < 128"
  shows "seed_ordered (seed\<lparr>messages :=
    mpl_insert (mpl_insert_pos env (mpl_buffer_sequence m) (messages seed)) m (messages seed)\<rparr>)"
proof -
  let ?ms = "messages seed" and ?off = "\<lambda>m. seed_offset seed (mpl_buffer_sequence m)"
  let ?P = "\<lambda>x. common_serial_number_greater_8 env (mpl_buffer_sequence m) (mpl_buffer_sequence x)"
  define p where "p = mpl_insert_pos env (mpl_buffer_sequence m) ?ms"
  note D = dropWhile_rev_position [where P = ?P and xs = ?ms, folded mpl_insert_pos_def, folded p_def]
  have P: "?P x \<longleftrightarrow> ?off x < ?off m" if "x \<in> set ?ms" for x
    using serial_window [OF assms(1,4)] assms(2) that by (simp add: seed_ordered_def)
  have ne: "?off x \<noteq> ?off m" if "x \<in> set ?ms" for x
    using assms(3) that by (auto simp: mpl_buffer_lookup_def seed_offset_def word_unat_eq_iff [symmetric])
  have srt: "sorted_wrt (<) (map ?off (take p ?ms)) \<and> sorted_wrt (<) (map ?off (drop p ?ms)) \<and>
      (\<forall>a \<in> set (map ?off (take p ?ms)). \<forall>b \<in> set (map ?off (drop p ?ms)). a < b)"
    using assms(2) sorted_wrt_append [of "(<)" "map ?off (take p ?ms)" "map ?off (drop p ?ms)"]
    unfolding seed_ordered_def map_append [symmetric] append_take_drop_id by blast
  have hi: "?off m < ?off x" if "x \<in> set (drop p ?ms)" for x
    using D(1) [OF that] P ne in_set_dropD [OF that] by (metis linorder_neqE_nat)
  have lo: "?off x < ?off m" if "x \<in> set (take p ?ms)" for x
  proof -
    from that obtain i where i: "i < p" "x = ?ms ! i" using D(3) by (auto simp: in_set_conv_nth)
    then have p0: "p \<noteq> 0" "p - 1 < length ?ms" using D(3) by linarith+
    have last: "?off (?ms ! (p - 1)) < ?off m" using D(2) [OF p0(1)] P p0(2) by simp
    show ?thesis
    proof (cases "i = p - 1")
      case False
      then have "?off x < ?off (?ms ! (p - 1))"
        using assms(2) i p0(2) sorted_wrt_nth_less [of "(<)" "map ?off ?ms" i "p - 1"]
        by (simp add: seed_ordered_def)
      with last show ?thesis by linarith
    qed (use last i in simp)
  qed
  have "sorted_wrt (<) (map ?off (mpl_insert p m ?ms))"
    using srt lo hi by (auto simp: mpl_insert_def sorted_wrt_append)
  moreover have "\<forall>x \<in> set (mpl_insert p m ?ms). ?off x < 128"
    using assms(2,4) by (auto simp: mpl_insert_def seed_ordered_def dest: in_set_takeD in_set_dropD)
  ultimately show ?thesis by (simp add: seed_ordered_def seed_offset_def p_def)
qed

text \<open>A message of a seed with one byte of option data that is its sequence number.\<close>

definition msg_example :: "u8 \<Rightarrow> mpl_buffered_message_t" where
  "msg_example sq = \<lparr>msg_colour = False, msg_timestamp = 0, msg_trickle = heap_trickle mpl_env_example,
     mpl_opt_data_offset = 0, transmit_done = False, msg_bytes = [0, sq]\<rparr>"

definition seed_example :: mpl_seed_t where
  "seed_example = \<lparr>seed_colour = False, seed_lifetime = 9, min_sequence = 250, id_len = 2,
     messages = [msg_example 251, msg_example 3], seed_id = [7, 8]\<rparr>"

lemma seed_example_ordered: "seed_ordered seed_example"
  by (simp add: seed_ordered_def seed_example_def msg_example_def seed_offset_def mpl_buffer_sequence_def)

section \<open>Seed information\<close>

lemma mpl_write_bits_spec:
  assumes "bits_ok env" and "\<forall>m \<in> set ms. seed_offset seed (mpl_buffer_sequence m) div 8 < length bm"
    and step: "\<And>m bm. step m (Some bm) = (let i = mpl_buffer_sequence m - min_sequence seed
              in if unat i div 8 < length bm then Some (bit_set env bm i) else None)"
  shows "\<exists>bm'. fold step ms (Some bm) = Some bm' \<and>
    length bm' = length bm \<and>
    (\<forall>j. unat j div 8 < length bm \<longrightarrow> bit_test env bm' j =
      (bit_test env bm j \<or> (\<exists>m \<in> set ms. mpl_buffer_sequence m - min_sequence seed = j)))"
  using assms(2)
proof (induction ms arbitrary: bm)
  case (Cons m ms)
  let ?i = "mpl_buffer_sequence m - min_sequence seed"
  have B: "length (bit_set env bm ?i) = length bm"
    "\<And>j. unat j div 8 < length bm \<Longrightarrow> bit_test env (bit_set env bm ?i) j = (?i = j \<or> bit_test env bm j)"
    using assms(1) Cons.prems by (auto simp: bits_ok_def seed_offset_def)
  have "\<forall>m \<in> set ms. seed_offset seed (mpl_buffer_sequence m) div 8 < length (bit_set env bm ?i)"
    using Cons.prems B(1) by simp
  from Cons.IH [OF this] B Cons.prems show ?case
    by (auto simp: step Let_def seed_offset_def)
qed simp

lemma mpl_seed_bm_len_ordered:
  assumes "seed_ordered seed"
  shows "unat (mpl_seed_bm_len seed) =
      (if messages seed = [] then 0
       else seed_offset seed (mpl_buffer_sequence (last (messages seed))) div 8 + 1)"
    and "mpl_seed_bm_len seed \<le> 16"
    and "m \<in> set (messages seed) \<Longrightarrow>
      seed_offset seed (mpl_buffer_sequence m) div 8 < unat (mpl_seed_bm_len seed)"
proof -
  let ?off = "\<lambda>m. seed_offset seed (mpl_buffer_sequence m)"
  have last: "?off (last (messages seed)) < 128" if "messages seed \<noteq> []"
    using assms that by (simp add: seed_ordered_def)
  then have len: "unat (mpl_seed_bm_len seed) = (if messages seed = [] then 0
       else ?off (last (messages seed)) div 8 + 1)"
    by (auto simp: mpl_seed_bm_len_def seed_offset_def unat_word_ariths unat_div)
  then show "unat (mpl_seed_bm_len seed) = (if messages seed = [] then 0
       else ?off (last (messages seed)) div 8 + 1)" .
  show "mpl_seed_bm_len seed \<le> 16"
    using len last by (simp add: word_le_nat_alt split: if_splits)
  assume m: "m \<in> set (messages seed)"
  then obtain i where i: "i < length (messages seed)" "m = messages seed ! i" by (auto simp: in_set_conv_nth)
  have "?off m \<le> ?off (last (messages seed))"
  proof (cases "i = length (messages seed) - 1")
    case True
    then show ?thesis using i last_conv_nth [of "messages seed"] by fastforce
  next
    case False
    have "?off m < ?off (messages seed ! (length (messages seed) - 1))"
      using sorted_wrt_nth_less [of "(<)" "map ?off (messages seed)" i "length (messages seed) - 1"]
        assms i False by (simp add: seed_ordered_def)
    moreover have "messages seed \<noteq> []" using m by auto
    ultimately show ?thesis by (simp add: last_conv_nth)
  qed
  then show "?off m div 8 < unat (mpl_seed_bm_len seed)"
    unfolding len using m by (auto simp: less_Suc_eq_le div_le_mono)
qed

lemma seed_info_byte:
  fixes b t :: u8
  assumes "b \<le> 16" and "t \<in> {0, 1, 2, 3}"
  shows "drop_bit 2 (push_bit 2 b OR t) = b" and "(push_bit 2 b OR t) AND 3 = t"
proof -
  have "unat b \<in> set [0..<17]" using assms(1) by (simp add: word_le_nat_alt)
  moreover have "b = word_of_nat (unat b)" by simp
  ultimately have "b \<in> word_of_nat ` set [0..<17]" by (rule rev_image_eqI)
  then have "b \<in> {0, 1, 2, 3, 4, 5, 6, 7, 8, 9, 10, 11, 12, 13, 14, 15, 16}" by (simp add: upt_conv_Cons)
  then show "drop_bit 2 (push_bit 2 b OR t) = b" and "(push_bit 2 b OR t) AND 3 = t"
    using assms(2) by (elim insertE emptyE; simp)+
qed

text \<open>The id a seed is announced with: none when it is the source of the control message.\<close>

definition announced_len :: "mpl_seed_t \<Rightarrow> bytes option \<Rightarrow> nat" where
  "announced_len seed src =
     (if id_len seed = 16 \<and> src \<noteq> None \<and> take 16 (the src) = take 16 (seed_id seed) then 0 else id_len seed)"



section \<open>The hop-by-hop header\<close>

text \<open>
  The hop-by-hop header a seeding node inserts is well formed and carries the seed id: it
  has the length its second byte says, a multiple of 8, the option passes
  \<open>mpl_hbh_len_check\<close> in the receiver, and the forwarder reads back the sequence number that was
  filled in, the length and the bytes of the seed id (or falls back to the source address).
\<close>

lemma mpl_exthdr_roundtrip:
  assumes "len \<in> {0, 2, 8, 16}" and "len \<le> length sid" and "length ip = IPV6_HDRLEN"
    and "buf_data buf = ip @ (mpl_exthdr nh sid len)[5 := sq] @ payload"
    and "mpl_option_data_offset buf = IPV6_HDRLEN + 4"
  shows "length (mpl_exthdr nh sid len) = 8 * (unat (mpl_exthdr nh sid len ! 1) + 1) \<and>
    mpl_hbh_len_check (drop 4 (mpl_exthdr nh sid len)) (mpl_exthdr nh sid len ! 3) \<and>
    buf_sequence buf = sq \<and>
    (if len = 0 then packet_seed_len buf = 16 \<and> packet_seed_id buf = src_sa buf
     else packet_seed_len buf = len \<and> take len (packet_seed_id buf) = take len sid)"
proof -
  have "drop (mpl_option_data_offset buf) (buf_data buf) =
      [push_bit 6 (mpl_seed_id_type len), sq] @ take len sid @
      (if len \<noteq> 2 then [IPV6_OPTION_PADN, 0] else []) @ payload"
    using assms(3) upd_conv_take_nth_drop [of 5 "mpl_exthdr nh sid len" sq]
    by (simp add: assms(4,5) mpl_exthdr_def Let_def)
  with assms(1,2) show ?thesis
    by (elim insertE emptyE; simp add: mpl_exthdr_def Let_def mpl_seed_id_type_def mpl_hbh_len_check_def
        mpl_seed_id_len_def packet_seed_len_def packet_seed_id_def packet_seed_type_def)
qed

end
