(* ===== verification/MacNeighborTable.thy ===== *)
theory MacNeighborTable
  imports Prelude
begin

text \<open>
  The table of MAC neighbours of \<open>Service_Libs/mac_neighbor_table\<close>. An entry never moves in the
  buffer of the table and its \<open>index\<close> is its position there, so that the index stands for the
  pointer to the entry; the two lists hold the entries in the order of the links. The callbacks
  of the owner are parameters: \<open>nud\<close> is the answer of \<open>user_nud_notify_cb\<close>, the calls of
  \<open>user_remove_notify_cb\<close> are logged. Neither changes the table. Topology traces are left out.
\<close>

section \<open>Data\<close>

abbreviation ACTIVE_NUD_PROCESS_MAX :: u8 where "ACTIVE_NUD_PROCESS_MAX \<equiv> 3"
abbreviation NORMAL_NEIGHBOUR :: "2 word" where "NORMAL_NEIGHBOUR \<equiv> 0"
abbreviation PRIORITY_PARENT_NEIGHBOUR :: "2 word" where "PRIORITY_PARENT_NEIGHBOUR \<equiv> 3"
abbreviation NEIGHBOR_CLASS_LINK_DEFAULT_LIFETIME :: u32 where "NEIGHBOR_CLASS_LINK_DEFAULT_LIFETIME \<equiv> 240"

record mac_neighbor_table_entry_t =
  index :: u8
  mac64 :: bytes
  mac16 :: u16
  lifetime :: u32
  link_lifetime :: u32
  rx_on_idle :: bool
  ffd_device :: bool
  advertisment :: bool
  connected_device :: bool
  trusted_device :: bool
  nud_active :: bool
  link_role :: "2 word"

record mac_neighbor_table_t =
  neighbour_list :: "mac_neighbor_table_entry_t list"
  free_list :: "mac_neighbor_table_entry_t list"
  nud_threshold :: u32
  list_total_size :: u8
  active_nud_process :: u8
  neighbour_list_size :: u8
  has_remove_cb :: bool
  has_nud_cb :: bool
  removed_log :: "mac_neighbor_table_entry_t list"

text \<open>An entry after \<open>memset\<close> and the assignment of its index.\<close>

definition neighbor_zero :: "u8 \<Rightarrow> mac_neighbor_table_entry_t" where
  "neighbor_zero i = \<lparr>index = i, mac64 = replicate 8 0, mac16 = 0, lifetime = 0, link_lifetime = 0,
     rx_on_idle = False, ffd_device = False, advertisment = False, connected_device = False,
     trusted_device = False, nud_active = False, link_role = 0\<rparr>"

text \<open>Access through a pointer.\<close>

definition neighbor_upd ::
    "u8 \<Rightarrow> (mac_neighbor_table_entry_t \<Rightarrow> mac_neighbor_table_entry_t) \<Rightarrow> mac_neighbor_table_t
      \<Rightarrow> mac_neighbor_table_t" where
  "neighbor_upd i f tbl =
     tbl\<lparr>neighbour_list := map (\<lambda>e. if index e = i then f e else e) (neighbour_list tbl),
         free_list := map (\<lambda>e. if index e = i then f e else e) (free_list tbl)\<rparr>"

section \<open>Operations\<close>

text \<open>\<open>ok\<close> is the success of the allocation.\<close>

definition mac_neighbor_table_create :: "bool \<Rightarrow> u8 \<Rightarrow> bool \<Rightarrow> bool \<Rightarrow> mac_neighbor_table_t option" where
  "mac_neighbor_table_create ok table_size remove_cb nud_cb =
     (if \<not> ok then None
      else Some \<lparr>neighbour_list = [], free_list = map (\<lambda>i. neighbor_zero (word_of_nat i)) [0..<unat table_size],
             nud_threshold = 0, list_total_size = table_size, active_nud_process = 0,
             neighbour_list_size = 0, has_remove_cb = remove_cb, has_nud_cb = nud_cb, removed_log = []\<rparr>)"

definition neighbor_table_class_remove_entry :: "u8 \<Rightarrow> mac_neighbor_table_t \<Rightarrow> mac_neighbor_table_t" where
  "neighbor_table_class_remove_entry i tbl =
     (case find (\<lambda>e. index e = i) (neighbour_list tbl) of
        None \<Rightarrow> tbl
      | Some entry \<Rightarrow>
          let tbl = tbl\<lparr>neighbour_list := filter (\<lambda>e. index e \<noteq> i) (neighbour_list tbl),
                        neighbour_list_size := neighbour_list_size tbl - 1\<rparr>;
              tbl = (if nud_active entry then tbl\<lparr>active_nud_process := active_nud_process tbl - 1\<rparr> else tbl);
              entry = entry\<lparr>nud_active := False\<rparr>;
              tbl = (if has_remove_cb tbl then tbl\<lparr>removed_log := removed_log tbl @ [entry]\<rparr> else tbl)
          in tbl\<lparr>free_list := free_list tbl @ [neighbor_zero (index entry)]\<rparr>)"

definition mac_neighbor_table_neighbor_list_clean :: "mac_neighbor_table_t \<Rightarrow> mac_neighbor_table_t" where
  "mac_neighbor_table_neighbor_list_clean tbl =
     fold neighbor_table_class_remove_entry (map index (neighbour_list tbl)) tbl"

text \<open>\<open>mac_neighbor_table_delete\<close> cleans the lists before the memory is released.\<close>

definition mac_neighbor_table_delete :: "mac_neighbor_table_t \<Rightarrow> mac_neighbor_table_t" where
  "mac_neighbor_table_delete tbl = mac_neighbor_table_neighbor_list_clean tbl"

definition neighbor_timeout_step ::
    "(mac_neighbor_table_entry_t \<Rightarrow> bool) \<Rightarrow> u32 \<Rightarrow> u8 \<Rightarrow> mac_neighbor_table_t \<Rightarrow> mac_neighbor_table_t" where
  "neighbor_timeout_step nud time_update i tbl =
     (case find (\<lambda>e. index e = i) (neighbour_list tbl) of
        None \<Rightarrow> tbl
      | Some cur \<Rightarrow>
          if lifetime cur > time_update
          then
            if lifetime cur = 0xffffffff \<and> link_lifetime cur = 0xffffffff then tbl
            else
              let cur = cur\<lparr>lifetime := lifetime cur - time_update\<rparr>;
                  tbl = neighbor_upd i (\<lambda>_. cur) tbl
              in if \<not> has_nud_cb tbl \<or> active_nud_process tbl > ACTIVE_NUD_PROCESS_MAX \<or> nud_active cur
                    \<or> \<not> rx_on_idle cur
                 then tbl
                 else if nud cur
                 then neighbor_upd i (\<lambda>_. cur\<lparr>nud_active := True\<rparr>)
                        (tbl\<lparr>active_nud_process := active_nud_process tbl + 1\<rparr>)
                 else tbl
          else neighbor_table_class_remove_entry i tbl)"

definition mac_neighbor_table_neighbor_timeout_update ::
    "(mac_neighbor_table_entry_t \<Rightarrow> bool) \<Rightarrow> u32 \<Rightarrow> mac_neighbor_table_t \<Rightarrow> mac_neighbor_table_t" where
  "mac_neighbor_table_neighbor_timeout_update nud time_update tbl =
     fold (neighbor_timeout_step nud time_update) (map index (neighbour_list tbl)) tbl"

definition mac_neighbor_table_entry_allocate ::
    "mac_neighbor_table_t \<Rightarrow> bytes \<Rightarrow> u8 option \<times> mac_neighbor_table_t" where
  "mac_neighbor_table_entry_allocate tbl mac =
     (case free_list tbl of
        [] \<Rightarrow> (None, tbl)
      | entry # rest \<Rightarrow>
          (Some (index entry),
           tbl\<lparr>free_list := rest,
               neighbour_list := neighbour_list tbl @
                 [entry\<lparr>mac64 := take 8 mac, mac16 := 0xffff, rx_on_idle := True, ffd_device := True,
                        nud_active := False, advertisment := False, connected_device := False,
                        trusted_device := False, lifetime := NEIGHBOR_CLASS_LINK_DEFAULT_LIFETIME,
                        link_lifetime := NEIGHBOR_CLASS_LINK_DEFAULT_LIFETIME,
                        link_role := NORMAL_NEIGHBOUR\<rparr>],
               neighbour_list_size := neighbour_list_size tbl + 1\<rparr>))"

definition neighbor_table_class_entry_validate :: "mac_neighbor_table_t \<Rightarrow> u8 \<Rightarrow> u8 option" where
  "neighbor_table_class_entry_validate tbl i =
     map_option index (find (\<lambda>cur. index cur = i) (neighbour_list tbl))"

definition mac_neighbor_table_neighbor_remove :: "u8 \<Rightarrow> mac_neighbor_table_t \<Rightarrow> mac_neighbor_table_t" where
  "mac_neighbor_table_neighbor_remove i tbl =
     (case neighbor_table_class_entry_validate tbl i of
        Some entry \<Rightarrow> neighbor_table_class_remove_entry entry tbl
      | None \<Rightarrow> tbl)"

definition mac_neighbor_table_neighbor_refresh :: "u8 \<Rightarrow> u32 \<Rightarrow> mac_neighbor_table_t \<Rightarrow> mac_neighbor_table_t" where
  "mac_neighbor_table_neighbor_refresh i life_time tbl =
     (let was = (\<exists>e \<in> set (neighbour_list tbl @ free_list tbl). index e = i \<and> nud_active e);
          tbl = neighbor_upd i (\<lambda>e. e\<lparr>lifetime := life_time, link_lifetime := life_time, nud_active := False\<rparr>) tbl
      in if was then tbl\<lparr>active_nud_process := active_nud_process tbl - 1\<rparr> else tbl)"

definition mac_neighbor_table_neighbor_connected :: "u8 \<Rightarrow> mac_neighbor_table_t \<Rightarrow> mac_neighbor_table_t" where
  "mac_neighbor_table_neighbor_connected i = neighbor_upd i (\<lambda>e. e\<lparr>connected_device := True\<rparr>)"

definition mac_neighbor_table_trusted_neighbor ::
    "u8 \<Rightarrow> bool \<Rightarrow> mac_neighbor_table_t \<Rightarrow> mac_neighbor_table_t" where
  "mac_neighbor_table_trusted_neighbor i trusted =
     neighbor_upd i (\<lambda>e.
       let e = (if \<not> trusted_device e \<and> trusted then e\<lparr>lifetime := link_lifetime e\<rparr> else e)
       in e\<lparr>trusted_device := trusted\<rparr>)"

section \<open>Lookup\<close>

datatype addrtype_t = ADDR_802_15_4_SHORT | ADDR_802_15_4_LONG | ADDR_OTHER

text \<open>\<open>read16\<close> stands for \<open>common_read_16_bit\<close>.\<close>

definition mac_neighbor_table_address_discover ::
    "(u8 \<Rightarrow> u8 \<Rightarrow> u16) \<Rightarrow> mac_neighbor_table_t \<Rightarrow> bytes \<Rightarrow> addrtype_t \<Rightarrow> u8 option" where
  "mac_neighbor_table_address_discover read16 tbl address address_type =
     (case address_type of
        ADDR_OTHER \<Rightarrow> None
      | ADDR_802_15_4_SHORT \<Rightarrow>
          map_option index (find (\<lambda>cur. mac16 cur \<noteq> 0xffff \<and> mac16 cur = read16 (address ! 0) (address ! 1))
            (neighbour_list tbl))
      | ADDR_802_15_4_LONG \<Rightarrow>
          map_option index (find (\<lambda>cur. take 8 (mac64 cur) = take 8 address) (neighbour_list tbl)))"

definition mac_neighbor_table_attribute_discover :: "mac_neighbor_table_t \<Rightarrow> u8 \<Rightarrow> u8 option" where
  "mac_neighbor_table_attribute_discover tbl i =
     map_option index (find (\<lambda>cur. index cur = i) (neighbour_list tbl))"

text \<open>The result, and what is written to \<open>new_entry_allocated\<close>.\<close>

definition mac_neighbor_entry_get_by_mac64 ::
    "(u8 \<Rightarrow> u8 \<Rightarrow> u16) \<Rightarrow> mac_neighbor_table_t \<Rightarrow> bytes \<Rightarrow> bool
      \<Rightarrow> (u8 option \<times> bool) \<times> mac_neighbor_table_t" where
  "mac_neighbor_entry_get_by_mac64 read16 tbl mac allocateNew =
     (let entry = mac_neighbor_table_address_discover read16 tbl mac ADDR_802_15_4_LONG in
      if entry \<noteq> None \<or> \<not> allocateNew then ((entry, False), tbl)
      else case mac_neighbor_table_entry_allocate tbl mac of (e, tbl) \<Rightarrow> ((e, True), tbl))"

definition ADDR_LINK_LOCAL_PREFIX :: bytes where
  "ADDR_LINK_LOCAL_PREFIX = [0xfe, 0x80, 0, 0, 0, 0, 0, 0]"

definition ADDR_SHORT_ADR_SUFFIC :: bytes where
  "ADDR_SHORT_ADR_SUFFIC = [0, 0, 0, 0xff, 0xfe, 0]"

text \<open>The flag is left alone, \<open>None\<close>, when the address is not a link-local one of a MAC64.\<close>

definition mac_neighbor_entry_get_by_ll64 ::
    "(u8 \<Rightarrow> u8 \<Rightarrow> u16) \<Rightarrow> mac_neighbor_table_t \<Rightarrow> bytes \<Rightarrow> bool
      \<Rightarrow> (u8 option \<times> bool option) \<times> mac_neighbor_table_t" where
  "mac_neighbor_entry_get_by_ll64 read16 tbl ipv6Address allocateNew =
     (if take 8 ipv6Address \<noteq> ADDR_LINK_LOCAL_PREFIX then ((None, None), tbl)
      else if take 6 (drop 8 ipv6Address) = ADDR_SHORT_ADR_SUFFIC then ((None, None), tbl)
      else
        let temporary_mac64 = take 8 (drop 8 ipv6Address);
            temporary_mac64 = temporary_mac64[0 := temporary_mac64 ! 0 XOR 2];
            r = mac_neighbor_entry_get_by_mac64 read16 tbl temporary_mac64 allocateNew
        in ((fst (fst r), Some (snd (fst r))), snd r))"

definition mac_neighbor_entry_get_priority :: "mac_neighbor_table_t \<Rightarrow> u8 option" where
  "mac_neighbor_entry_get_priority tbl =
     map_option index (find (\<lambda>entry. link_role entry = PRIORITY_PARENT_NEIGHBOUR) (neighbour_list tbl))"

end
