(* ===== verification/AddressTable.thy ===== *)
theory AddressTable
  imports Prelude
begin

text \<open>
  The interface of a table that hands out one entry per address: a lookup by address and an
  allocation that may fail. The neighbour table implements it.
\<close>

definition get_or_alloc ::
    "('t \<Rightarrow> 'k \<Rightarrow> 'i option) \<Rightarrow> ('t \<Rightarrow> 'k \<Rightarrow> 'i option \<times> 't) \<Rightarrow> 't \<Rightarrow> 'k \<Rightarrow> 'i option \<times> 't" where
  "get_or_alloc look alloc t k = (case look t k of Some i \<Rightarrow> (Some i, t) | None \<Rightarrow> alloc t k)"

locale address_table =
  fixes inv :: "'t \<Rightarrow> bool" and valid :: "'k \<Rightarrow> bool"
    and look :: "'t \<Rightarrow> 'k \<Rightarrow> 'i option" and alloc :: "'t \<Rightarrow> 'k \<Rightarrow> 'i option \<times> 't"
  assumes alloc_inv: "inv t \<Longrightarrow> look t k = None \<Longrightarrow> inv (snd (alloc t k))"
    and alloc_Some: "inv t \<Longrightarrow> valid k \<Longrightarrow> valid k' \<Longrightarrow> look t k = None \<Longrightarrow> alloc t k = (Some i, t') \<Longrightarrow>
      look t' k' = (if k' = k then Some i else look t k')"
    and alloc_None: "alloc t k = (None, t') \<Longrightarrow> t' = t"
begin

abbreviation get :: "'t \<Rightarrow> 'k \<Rightarrow> 'i option \<times> 't" where
  "get \<equiv> get_or_alloc look alloc"

lemma get_inv: "inv t \<Longrightarrow> inv (snd (get t k))"
  by (auto simp: get_or_alloc_def alloc_inv split: option.split)

lemma get_found:
  assumes "inv t" and "valid k" and "get t k = (Some i, t')"
  shows "look t' k = Some i"
  using assms alloc_Some [OF assms(1,2,2)] by (auto simp: get_or_alloc_def split: option.splits)

lemma get_keeps:
  assumes "inv t" and "valid k" and "valid k'" and "look t k = Some i"
  shows "look (snd (get t k')) k = Some i"
proof (cases "look t k'")
  case None
  obtain r t' where a: "alloc t k' = (r, t')" by (rule prod.exhaust)
  then show ?thesis
    using assms None alloc_Some [OF assms(1,3,2) None] alloc_None
    by (cases r) (auto simp: get_or_alloc_def)
qed (simp add: get_or_alloc_def assms(4))

text \<open>An entry that was handed out stays the entry of its address.\<close>

lemma get_all_keeps:
  assumes "inv t" and "valid k" and "\<forall>k' \<in> set ks. valid k'" and "look t k = Some i"
  shows "inv (fold (\<lambda>k t. snd (get t k)) ks t) \<and> look (fold (\<lambda>k t. snd (get t k)) ks t) k = Some i"
  using assms(1,3,4)
proof (induction ks arbitrary: t)
  case (Cons k' ks)
  then show ?case using get_inv [of t k'] get_keeps [OF Cons.prems(1) assms(2)] by simp
qed simp

end

end
