(* ===== verification/MacNeighborInv.thy ===== *)
theory MacNeighborInv
  imports MacNeighborTable AddressTable "HOL-Library.Multiset"
begin

text \<open>
  The lists of the neighbour table share out the entries of the buffer, the counters are exact,
  the timeout removes exactly the neighbours that were silent for too long, and the table is an
  instance of the interface of tables that hand out one entry per address.
\<close>

section \<open>The invariant\<close>

definition neighbor_inv :: "mac_neighbor_table_t \<Rightarrow> bool" where
  "neighbor_inv tbl \<longleftrightarrow>
     mset (map index (neighbour_list tbl)) + mset (map index (free_list tbl)) =
       mset (map word_of_nat [0..<unat (list_total_size tbl)]) \<and>
     unat (neighbour_list_size tbl) = length (neighbour_list tbl) \<and>
     unat (active_nud_process tbl) = length (filter nud_active (neighbour_list tbl)) \<and>
     active_nud_process tbl \<le> ACTIVE_NUD_PROCESS_MAX + 1 \<and>
     (\<forall>e \<in> set (free_list tbl). e = neighbor_zero (index e))"

lemma distinct_word_of_nat: "n \<le> 256 \<Longrightarrow> distinct (map (word_of_nat :: nat \<Rightarrow> u8) [0..<n])"
proof -
  assume n: "n \<le> 256"
  have "inj_on (word_of_nat :: nat \<Rightarrow> u8) {0..<n}"
  proof (rule inj_onI)
    fix x y assume xy: "x \<in> {0..<n}" "y \<in> {0..<n}" "(word_of_nat x :: u8) = word_of_nat y"
    have "unat (word_of_nat x :: u8) = x" "unat (word_of_nat y :: u8) = y"
      using xy(1,2) n by (simp_all add: unat_of_nat)
    with xy(3) show "x = y" by metis
  qed
  then show ?thesis by (simp add: distinct_map)
qed

lemma neighbor_inv_lists:
  assumes "neighbor_inv tbl"
  shows "distinct (map index (neighbour_list tbl))" and "distinct (map index (free_list tbl))"
    and "index ` set (neighbour_list tbl) \<inter> index ` set (free_list tbl) = {}"
    and "length (neighbour_list tbl) + length (free_list tbl) = unat (list_total_size tbl)"
proof -
  have m: "mset (map index (neighbour_list tbl) @ map index (free_list tbl)) =
      mset (map word_of_nat [0..<unat (list_total_size tbl)])"
    using assms by (simp add: neighbor_inv_def)
  have "distinct (map (word_of_nat :: nat \<Rightarrow> u8) [0..<unat (list_total_size tbl)])"
    by (rule distinct_word_of_nat) (use unat_u8_lt [of "list_total_size tbl"] in simp)
  then have "distinct (map index (neighbour_list tbl) @ map index (free_list tbl))"
    using mset_eq_imp_distinct_iff [OF m] by blast
  then show "distinct (map index (neighbour_list tbl))" "distinct (map index (free_list tbl))"
    "index ` set (neighbour_list tbl) \<inter> index ` set (free_list tbl) = {}"
    by simp_all
  show "length (neighbour_list tbl) + length (free_list tbl) = unat (list_total_size tbl)"
    using mset_eq_length [OF m] by simp
qed

lemma find_index_split:
  assumes "distinct (map index xs)" and "find (\<lambda>e. index e = i) xs = Some e"
  obtains ys zs where "xs = ys @ e # zs" and "index e = i" and "i \<notin> index ` set ys" and "i \<notin> index ` set zs"
proof -
  have e: "e \<in> set xs" "index e = i" using assms(2) by (auto simp: find_Some_iff)
  from split_list [OF e(1)] obtain ys zs where "xs = ys @ e # zs" by blast
  with that [of ys zs] assms(1) e(2) show ?thesis by auto
qed

lemma filter_index_out: "i \<notin> index ` set xs \<Longrightarrow> filter (\<lambda>e. index e \<noteq> i) xs = xs"
  by (auto simp: filter_id_conv)

lemma map_index_out: "i \<notin> index ` set xs \<Longrightarrow> map (\<lambda>e. if index e = i then f e else e) xs = xs"
  by (rule map_idI) auto

lemmas neighbor_out = filter_index_out map_index_out

text \<open>An entry of the neighbour list, with what is before and after it.\<close>

lemma neighbor_inv_split:
  assumes "neighbor_inv tbl" and "neighbour_list tbl = ys @ e # zs"
  shows "index e \<notin> index ` set ys" and "index e \<notin> index ` set zs" and "index e \<notin> index ` set (free_list tbl)"
    and "find (\<lambda>c. index c = index e) (neighbour_list tbl) = Some e"
proof -
  show out: "index e \<notin> index ` set ys" "index e \<notin> index ` set zs" "index e \<notin> index ` set (free_list tbl)"
    using neighbor_inv_lists(1,3) [OF assms(1)] assms(2) by auto
  have "\<forall>c \<in> set ys. index c \<noteq> index e" using out(1) by (metis image_eqI)
  then have "find (\<lambda>c. index c = index e) (ys @ e # zs) = Some e" by (induction ys) auto
  then show "find (\<lambda>c. index c = index e) (neighbour_list tbl) = Some e"
    by (simp add: assms(2))
qed

lemma neighbor_upd_split:
  assumes "neighbor_inv tbl" and "neighbour_list tbl = ys @ e # zs"
  shows "neighbour_list (neighbor_upd (index e) f tbl) = ys @ f e # zs"
    and "free_list (neighbor_upd (index e) f tbl) = free_list tbl"
  using neighbor_inv_split(1-3) [OF assms] by (simp_all add: neighbor_upd_def assms(2) neighbor_out)

lemma neighbor_upd_frame [simp]:
  "list_total_size (neighbor_upd i f tbl) = list_total_size tbl"
  "active_nud_process (neighbor_upd i f tbl) = active_nud_process tbl"
  "neighbour_list_size (neighbor_upd i f tbl) = neighbour_list_size tbl"
  "has_remove_cb (neighbor_upd i f tbl) = has_remove_cb tbl"
  "has_nud_cb (neighbor_upd i f tbl) = has_nud_cb tbl"
  "removed_log (neighbor_upd i f tbl) = removed_log tbl"
  by (simp_all add: neighbor_upd_def)

text \<open>What removing an entry does.\<close>

lemma neighbor_remove_split:
  assumes "neighbor_inv tbl" and "neighbour_list tbl = ys @ e # zs"
  defines "tbl' \<equiv> neighbor_table_class_remove_entry (index e) tbl"
  shows "neighbour_list tbl' = ys @ zs" and "free_list tbl' = free_list tbl @ [neighbor_zero (index e)]"
    and "removed_log tbl' = removed_log tbl @ (if has_remove_cb tbl then [e\<lparr>nud_active := False\<rparr>] else [])"
    and "list_total_size tbl' = list_total_size tbl" and "neighbour_list_size tbl' = neighbour_list_size tbl - 1"
    and "active_nud_process tbl' = active_nud_process tbl - (if nud_active e then 1 else 0)"
    and "has_remove_cb tbl' = has_remove_cb tbl" and "has_nud_cb tbl' = has_nud_cb tbl"
proof -
  note N = neighbor_inv_split [OF assms(1,2)]
  have f: "filter (\<lambda>c. index c \<noteq> index e) (neighbour_list tbl) = ys @ zs"
    using N(1,2) by (simp add: assms(2) neighbor_out)
  show "neighbour_list tbl' = ys @ zs" "free_list tbl' = free_list tbl @ [neighbor_zero (index e)]"
    "removed_log tbl' = removed_log tbl @ (if has_remove_cb tbl then [e\<lparr>nud_active := False\<rparr>] else [])"
    "list_total_size tbl' = list_total_size tbl" "neighbour_list_size tbl' = neighbour_list_size tbl - 1"
    "active_nud_process tbl' = active_nud_process tbl - (if nud_active e then 1 else 0)"
    "has_remove_cb tbl' = has_remove_cb tbl" "has_nud_cb tbl' = has_nud_cb tbl"
    by (simp_all add: tbl'_def neighbor_table_class_remove_entry_def N(4) f Let_def)
qed

lemma unat_minus_1: "x \<noteq> 0 \<Longrightarrow> unat (x - 1 :: u8) = unat x - 1"
  by (simp add: unat_minus_one)

lemma neighbor_remove_inv:
  assumes "neighbor_inv tbl"
  shows "neighbor_inv (neighbor_table_class_remove_entry i tbl)"
proof (cases "find (\<lambda>e. index e = i) (neighbour_list tbl)")
  case None
  then show ?thesis using assms by (simp add: neighbor_table_class_remove_entry_def)
next
  case (Some e)
  from find_index_split [OF neighbor_inv_lists(1) [OF assms] Some]
  obtain ys zs where s: "neighbour_list tbl = ys @ e # zs" "index e = i" by metis
  note R = neighbor_remove_split [OF assms s(1), unfolded s(2)]
  have "neighbour_list_size tbl \<noteq> 0" using assms by (auto simp: neighbor_inv_def s(1))
  then have size: "unat (neighbour_list_size tbl - 1) = length (ys @ zs)"
    using assms by (simp add: neighbor_inv_def s(1) unat_minus_1)
  have active: "unat (active_nud_process tbl - (if nud_active e then 1 else 0)) =
      length (filter nud_active (ys @ zs)) \<and>
      active_nud_process tbl - (if nud_active e then 1 else 0) \<le> active_nud_process tbl"
  proof (cases "nud_active e")
    case True
    then have "active_nud_process tbl \<noteq> 0" using assms by (auto simp: neighbor_inv_def s(1))
    then show ?thesis
      using assms True by (simp add: neighbor_inv_def s(1) unat_minus_1 word_le_nat_alt)
  qed (use assms in \<open>simp add: neighbor_inv_def s(1)\<close>)
  show ?thesis
    unfolding neighbor_inv_def R
  proof (intro conjI)
    show "mset (map index (ys @ zs)) + mset (map index (free_list tbl @ [neighbor_zero i])) =
        mset (map word_of_nat [0..<unat (list_total_size tbl)])"
      using assms by (simp add: neighbor_inv_def s neighbor_zero_def)
    show "active_nud_process tbl - (if nud_active e then 1 else 0) \<le> ACTIVE_NUD_PROCESS_MAX + 1"
      using assms active unfolding neighbor_inv_def by (meson order_trans)
    show "\<forall>e \<in> set (free_list tbl @ [neighbor_zero i]). e = neighbor_zero (index e)"
      using assms by (simp add: neighbor_inv_def neighbor_zero_def)
  qed (use size active in blast)+
qed

text \<open>An update of an entry that keeps its index and its NUD flag keeps the invariant.\<close>

lemma neighbor_upd_inv:
  assumes "neighbor_inv tbl" and "neighbour_list tbl = ys @ e # zs"
    and "index (f e) = index e" and "nud_active (f e) = nud_active e"
  shows "neighbor_inv (neighbor_upd (index e) f tbl)"
  using assms(1) neighbor_upd_split [OF assms(1,2), of f] by (simp add: neighbor_inv_def assms(2-4))

lemma neighbor_allocate_cases:
  obtains (full) "free_list tbl = []" "mac_neighbor_table_entry_allocate tbl mac = (None, tbl)"
  | (entry) e rest new where "free_list tbl = e # rest" "index new = index e" "mac64 new = take 8 mac"
      "\<not> nud_active new"
      "mac_neighbor_table_entry_allocate tbl mac = (Some (index e), tbl\<lparr>free_list := rest,
         neighbour_list := neighbour_list tbl @ [new], neighbour_list_size := neighbour_list_size tbl + 1\<rparr>)"
proof (cases "free_list tbl")
  case Nil
  then show ?thesis by (intro full) (simp_all add: mac_neighbor_table_entry_allocate_def)
next
  case (Cons e rest)
  show ?thesis
    by (rule entry [OF Cons _ _ _, where new = "e\<lparr>mac64 := take 8 mac, mac16 := 0xffff, rx_on_idle := True,
          ffd_device := True, nud_active := False, advertisment := False, connected_device := False,
          trusted_device := False, lifetime := 240, link_lifetime := 240, link_role := 0\<rparr>"])
      (simp_all add: mac_neighbor_table_entry_allocate_def Cons)
qed

lemma neighbor_allocate_inv:
  assumes "neighbor_inv tbl" and "mac_neighbor_table_entry_allocate tbl mac = (r, tbl')"
  shows "neighbor_inv tbl'"
proof (cases rule: neighbor_allocate_cases [of tbl mac])
  case full
  with assms show ?thesis by simp
next
  case (entry e rest new)
  have "length (neighbour_list tbl) < 255"
    using neighbor_inv_lists(4) [OF assms(1)] unat_u8_lt [of "list_total_size tbl"] by (simp add: entry(1))
  then have "unat (neighbour_list_size tbl + 1) = length (neighbour_list tbl) + 1"
    using assms(1) by (simp add: neighbor_inv_def unat_word_ariths)
  with assms entry show ?thesis by (auto simp: neighbor_inv_def)
qed

section \<open>The timeout\<close>

text \<open>An entry without its NUD flag, and an entry that has aged.\<close>

definition neighbor_key :: "mac_neighbor_table_entry_t \<Rightarrow> mac_neighbor_table_entry_t" where
  "neighbor_key e = e\<lparr>nud_active := False\<rparr>"

definition neighbor_age :: "u32 \<Rightarrow> mac_neighbor_table_entry_t \<Rightarrow> mac_neighbor_table_entry_t" where
  "neighbor_age t e =
     (if lifetime e = 0xffffffff \<and> link_lifetime e = 0xffffffff then e else e\<lparr>lifetime := lifetime e - t\<rparr>)"

lemma neighbor_key_simps [simp]:
  "index (neighbor_key e) = index e" "neighbor_key (e\<lparr>nud_active := b\<rparr>) = neighbor_key e"
  "neighbor_key (neighbor_key e) = neighbor_key e"
  by (simp_all add: neighbor_key_def)

lemma neighbor_key_index: "neighbor_key e = neighbor_key e' \<Longrightarrow> index e = index e'"
  by (metis neighbor_key_simps(1))

lemma neighbor_timeout_step_split:
  fixes nud :: "mac_neighbor_table_entry_t \<Rightarrow> bool" and t :: u32 and tbl :: mac_neighbor_table_t
  assumes "neighbor_inv tbl" and "neighbour_list tbl = ys @ e # zs"
  defines "tbl' \<equiv> neighbor_timeout_step nud t (index e) tbl"
  shows "neighbor_inv tbl' \<and> has_remove_cb tbl' = has_remove_cb tbl \<and>
    (if lifetime e > t
     then removed_log tbl' = removed_log tbl \<and>
       (\<exists>e'. neighbour_list tbl' = ys @ e' # zs \<and> neighbor_key e' = neighbor_key (neighbor_age t e))
     else neighbour_list tbl' = ys @ zs \<and>
       removed_log tbl' = removed_log tbl @ (if has_remove_cb tbl then [neighbor_key e] else []))"
proof -
  note N = neighbor_inv_split [OF assms(1,2)]
  consider (dead) "\<not> lifetime e > t"
    | (forever) "lifetime e > t" "lifetime e = 0xffffffff \<and> link_lifetime e = 0xffffffff"
    | (alive) "lifetime e > t" "\<not> (lifetime e = 0xffffffff \<and> link_lifetime e = 0xffffffff)"
    by blast
  then show ?thesis
  proof cases
    case dead
    then have eq: "tbl' = neighbor_table_class_remove_entry (index e) tbl"
      by (simp add: tbl'_def neighbor_timeout_step_def N(4))
    show ?thesis
      using neighbor_remove_split(1,3,7) [OF assms(1,2)] neighbor_remove_inv [OF assms(1)] dead
      by (simp add: eq neighbor_key_def)
  next
    case forever
    then have "tbl' = tbl" by (simp add: tbl'_def neighbor_timeout_step_def N(4))
    with forever assms(1,2) show ?thesis by (auto simp: neighbor_age_def)
  next
    case alive
    define e1 where "e1 = e\<lparr>lifetime := lifetime e - t\<rparr>"
    define tbl1 where "tbl1 = neighbor_upd (index e) (\<lambda>_. e1) tbl"
    have nl1: "neighbour_list tbl1 = ys @ e1 # zs"
      unfolding tbl1_def by (rule neighbor_upd_split [OF assms(1,2)])
    have inv1: "neighbor_inv tbl1"
      unfolding tbl1_def by (rule neighbor_upd_inv [OF assms(1,2)]) (simp_all add: e1_def)
    have key: "neighbor_key e1 = neighbor_key (neighbor_age t e)" using alive(2) by (auto simp: e1_def neighbor_age_def)
    have eq: "tbl' = (if \<not> has_nud_cb tbl1 \<or> active_nud_process tbl1 > 3 \<or> nud_active e1 \<or> \<not> rx_on_idle e1 then tbl1
        else if nud e1 then neighbor_upd (index e1) (\<lambda>_. e1\<lparr>nud_active := True\<rparr>)
               (tbl1\<lparr>active_nud_process := active_nud_process tbl1 + 1\<rparr>) else tbl1)"
      unfolding tbl'_def neighbor_timeout_step_def N(4)
      using alive by (auto simp: Let_def tbl1_def e1_def)
    show ?thesis
    proof (cases "tbl' = tbl1")
      case True
      then show ?thesis using inv1 nl1 key alive(1) by (auto simp: tbl1_def)
    next
      case False
      then have nud: "active_nud_process tbl1 \<le> 3" "\<not> nud_active e1"
        "tbl' = neighbor_upd (index e1) (\<lambda>_. e1\<lparr>nud_active := True\<rparr>)
               (tbl1\<lparr>active_nud_process := active_nud_process tbl1 + 1\<rparr>)"
        using eq by (auto split: if_splits)
      note N1 = neighbor_inv_split(1-3) [OF inv1 nl1]
      have nl2: "neighbour_list tbl' = ys @ e1\<lparr>nud_active := True\<rparr> # zs" "free_list tbl' = free_list tbl1"
        using N1 by (simp_all add: nud(3) neighbor_upd_def nl1 neighbor_out)
      have act: "unat (active_nud_process tbl1 + 1) = unat (active_nud_process tbl1) + 1"
        "active_nud_process tbl1 + 1 \<le> 4"
        using nud(1) by (simp_all add: unat_word_ariths word_le_nat_alt)
      have "neighbor_inv tbl'"
        using inv1 act nud(2) nl1 unfolding neighbor_inv_def nl2 by (simp add: nud(3))
      then show ?thesis using nl2 key alive(1) by (simp add: nud(3) tbl1_def)
    qed
  qed
qed

lemma neighbor_timeout_fold:
  assumes "neighbor_inv tbl" and "neighbour_list tbl = ys @ zs"
  shows "neighbor_inv (fold (neighbor_timeout_step nud t) (map index zs) tbl) \<and>
    map neighbor_key (neighbour_list (fold (neighbor_timeout_step nud t) (map index zs) tbl)) =
      map neighbor_key ys @ map (\<lambda>e. neighbor_key (neighbor_age t e)) (filter (\<lambda>e. lifetime e > t) zs) \<and>
    removed_log (fold (neighbor_timeout_step nud t) (map index zs) tbl) = removed_log tbl @
      (if has_remove_cb tbl then map neighbor_key (filter (\<lambda>e. \<not> lifetime e > t) zs) else [])"
  using assms
proof (induction zs arbitrary: ys tbl)
  case Nil
  then show ?case by simp
next
  case (Cons e zs)
  let ?tbl = "neighbor_timeout_step nud t (index e) tbl"
  note S = neighbor_timeout_step_split [OF Cons.prems, of nud t]
  show ?case
  proof (cases "lifetime e > t")
    case True
    with S obtain e' where e': "neighbour_list ?tbl = (ys @ [e']) @ zs"
      "neighbor_key e' = neighbor_key (neighbor_age t e)" "removed_log ?tbl = removed_log tbl"
      "has_remove_cb ?tbl = has_remove_cb tbl" "neighbor_inv ?tbl" by auto
    from Cons.IH [OF e'(5,1)] e' True show ?thesis by simp
  next
    case False
    with S have r: "neighbour_list ?tbl = ys @ zs" "neighbor_inv ?tbl" "has_remove_cb ?tbl = has_remove_cb tbl"
      "removed_log ?tbl = removed_log tbl @ (if has_remove_cb tbl then [neighbor_key e] else [])" by auto
    from Cons.IH [OF r(2,1)] r(3,4) False show ?thesis by simp
  qed
qed

lemma neighbor_clean_fold:
  assumes "neighbor_inv tbl"
  shows "neighbor_inv (fold neighbor_table_class_remove_entry is tbl)"
  using assms by (induction "is" arbitrary: tbl) (simp_all add: neighbor_remove_inv)

section \<open>Reachable tables\<close>

text \<open>
  The operations of a node on its table. Operations on an entry are called with an entry of the
  neighbour list; \<open>other\<close> is any change the owner makes to fields of an entry that the table
  does not use for its own bookkeeping (the short address, the role, the lifetimes, ...).
\<close>

inductive neighbor_reach :: "mac_neighbor_table_t \<Rightarrow> bool" where
  create: "mac_neighbor_table_create True n remove_cb nud_cb = Some tbl \<Longrightarrow> neighbor_reach tbl"
| clean: "neighbor_reach tbl \<Longrightarrow> neighbor_reach (mac_neighbor_table_neighbor_list_clean tbl)"
| timeout: "neighbor_reach tbl \<Longrightarrow> neighbor_reach (mac_neighbor_table_neighbor_timeout_update nud t tbl)"
| allocate: "neighbor_reach tbl \<Longrightarrow> neighbor_reach (snd (mac_neighbor_table_entry_allocate tbl mac))"
| get_by_mac64: "neighbor_reach tbl \<Longrightarrow> neighbor_reach (snd (mac_neighbor_entry_get_by_mac64 read16 tbl mac new))"
| get_by_ll64: "neighbor_reach tbl \<Longrightarrow> neighbor_reach (snd (mac_neighbor_entry_get_by_ll64 read16 tbl a new))"
| remove: "neighbor_reach tbl \<Longrightarrow> neighbor_reach (mac_neighbor_table_neighbor_remove i tbl)"
| refresh: "neighbor_reach tbl \<Longrightarrow> i \<in> index ` set (neighbour_list tbl) \<Longrightarrow>
    neighbor_reach (mac_neighbor_table_neighbor_refresh i life tbl)"
| connected: "neighbor_reach tbl \<Longrightarrow> i \<in> index ` set (neighbour_list tbl) \<Longrightarrow>
    neighbor_reach (mac_neighbor_table_neighbor_connected i tbl)"
| trusted: "neighbor_reach tbl \<Longrightarrow> i \<in> index ` set (neighbour_list tbl) \<Longrightarrow>
    neighbor_reach (mac_neighbor_table_trusted_neighbor i b tbl)"
| other: "neighbor_reach tbl \<Longrightarrow> i \<in> index ` set (neighbour_list tbl) \<Longrightarrow>
    (\<And>e. index (f e) = index e) \<Longrightarrow> (\<And>e. nud_active (f e) = nud_active e) \<Longrightarrow> neighbor_reach (neighbor_upd i f tbl)"

lemma neighbor_create_inv:
  "mac_neighbor_table_create True n remove_cb nud_cb = Some tbl \<Longrightarrow> neighbor_inv tbl"
proof -
  have idx: "index (neighbor_zero i) = i" for i by (simp add: neighbor_zero_def)
  assume "mac_neighbor_table_create True n remove_cb nud_cb = Some tbl"
  then show ?thesis
    by (auto simp: mac_neighbor_table_create_def neighbor_inv_def idx multiset.map_comp comp_def)
qed

lemma neighbor_get_mac64_inv:
  "neighbor_inv tbl \<Longrightarrow> neighbor_inv (snd (mac_neighbor_entry_get_by_mac64 read16 tbl mac new))"
  by (auto simp: mac_neighbor_entry_get_by_mac64_def Let_def split: prod.split intro: neighbor_allocate_inv)

lemma neighbor_get_ll64_inv:
  "neighbor_inv tbl \<Longrightarrow> neighbor_inv (snd (mac_neighbor_entry_get_by_ll64 read16 tbl a new))"
  by (simp add: mac_neighbor_entry_get_by_ll64_def Let_def neighbor_get_mac64_inv)

lemma neighbor_upd_member_inv:
  assumes "neighbor_inv tbl" and "i \<in> index ` set (neighbour_list tbl)"
    and "\<And>e. index (f e) = index e" and "\<And>e. nud_active (f e) = nud_active e"
  shows "neighbor_inv (neighbor_upd i f tbl)"
proof -
  from assms(2) obtain e where e: "e \<in> set (neighbour_list tbl)" "i = index e" by blast
  from split_list [OF e(1)] obtain ys zs where "neighbour_list tbl = ys @ e # zs" by blast
  from neighbor_upd_inv [OF assms(1) this, of f] show ?thesis by (simp add: assms(3,4) e(2))
qed

lemma neighbor_refresh_inv:
  assumes "neighbor_inv tbl" and "i \<in> index ` set (neighbour_list tbl)"
  shows "neighbor_inv (mac_neighbor_table_neighbor_refresh i life tbl)"
proof -
  from assms(2) obtain e where e: "e \<in> set (neighbour_list tbl)" "index e = i" by blast
  from split_list [OF e(1)] obtain ys zs where s: "neighbour_list tbl = ys @ e # zs" by blast
  note N = neighbor_inv_split [OF assms(1) s, unfolded e(2)]
  let ?f = "\<lambda>e. e\<lparr>lifetime := life, link_lifetime := life, nud_active := False\<rparr>"
  note U = neighbor_upd_split [OF assms(1) s, of ?f, unfolded e(2)]
  have was: "(\<exists>c \<in> set (neighbour_list tbl @ free_list tbl). index c = i \<and> nud_active c) = nud_active e"
    using N(1-3) e(2) unfolding s by (auto simp: image_iff)
  have pos: "active_nud_process tbl \<noteq> 0" if "nud_active e"
    using assms(1) that by (auto simp: neighbor_inv_def s)
  have eq: "mac_neighbor_table_neighbor_refresh i life tbl = (if nud_active e
      then (neighbor_upd i ?f tbl)\<lparr>active_nud_process := active_nud_process tbl - 1\<rparr> else neighbor_upd i ?f tbl)"
    unfolding mac_neighbor_table_neighbor_refresh_def Let_def was by simp
  show ?thesis
  proof (cases "nud_active e")
    case True
    have "active_nud_process tbl - 1 \<le> 4"
      using assms(1) pos [OF True] unat_minus_1 [of "active_nud_process tbl"]
      by (simp add: neighbor_inv_def word_le_nat_alt del: length_filter_le) linarith
    then show ?thesis
      using assms(1) U True unat_minus_1 [OF pos [OF True]] by (simp add: eq neighbor_inv_def s)
  next
    case False
    then show ?thesis using assms(1) U by (simp add: eq neighbor_inv_def s)
  qed
qed

lemma neighbor_reach_neighbor_inv: "neighbor_reach tbl \<Longrightarrow> neighbor_inv tbl"
proof (induction rule: neighbor_reach.induct)
  case (create n remove_cb nud_cb tbl)
  then show ?case by (rule neighbor_create_inv)
next
  case (clean tbl)
  then show ?case by (simp add: mac_neighbor_table_neighbor_list_clean_def neighbor_clean_fold)
next
  case (timeout tbl nud t)
  then show ?case
    using neighbor_timeout_fold [of tbl "[]" "neighbour_list tbl" nud t]
    by (simp add: mac_neighbor_table_neighbor_timeout_update_def)
next
  case (allocate tbl mac)
  then show ?case using neighbor_allocate_inv by (metis prod.collapse)
next
  case (remove tbl i)
  then show ?case
    by (auto simp: mac_neighbor_table_neighbor_remove_def neighbor_remove_inv split: option.split)
next
  case (connected tbl i)
  then show ?case
    unfolding mac_neighbor_table_neighbor_connected_def by (intro neighbor_upd_member_inv) simp_all
next
  case (trusted tbl i b)
  then show ?case
    unfolding mac_neighbor_table_trusted_neighbor_def
    by (intro neighbor_upd_member_inv) (simp_all add: Let_def)
next
  case (other tbl i f)
  then show ?case by (intro neighbor_upd_member_inv)
qed (simp_all add: neighbor_get_mac64_inv neighbor_get_ll64_inv neighbor_refresh_inv)

text \<open>
  C13: Whatever a node does with its neighbour table, every entry of the buffer is in exactly one
  of the two lists, \<open>neighbour_list_size\<close> and \<open>active_nud_process\<close> are exact, at most
  four NUD processes are active, and free entries are clear.
\<close>

theorem neighbor_table_inv:
  assumes "neighbor_reach tbl"
  shows "distinct (map index (neighbour_list tbl @ free_list tbl)) \<and>
    set (map index (neighbour_list tbl @ free_list tbl)) = word_of_nat ` {0..<unat (list_total_size tbl)} \<and>
    unat (neighbour_list_size tbl) = length (neighbour_list tbl) \<and>
    unat (active_nud_process tbl) = length (filter nud_active (neighbour_list tbl)) \<and>
    active_nud_process tbl \<le> 4 \<and> (\<forall>e \<in> set (free_list tbl). e = neighbor_zero (index e))"
proof -
  note inv = neighbor_reach_neighbor_inv [OF assms]
  have "set_mset (mset (map index (neighbour_list tbl @ free_list tbl))) =
      set_mset (mset (map word_of_nat [0..<unat (list_total_size tbl)]))"
    using inv by (simp add: neighbor_inv_def)
  then have "set (map index (neighbour_list tbl @ free_list tbl)) = word_of_nat ` {0..<unat (list_total_size tbl)}"
    by simp
  with inv neighbor_inv_lists(1-3) [OF inv] show ?thesis by (simp add: neighbor_inv_def)
qed

text \<open>
  The timeout removes exactly the neighbours whose lifetime does not exceed the elapsed time,
  reporting each to the owner, in order; the others keep their place and their data, their
  lifetime reduced by the elapsed time unless it is infinite.
\<close>

lemma neighbor_timeout_spec:
  fixes nud :: "mac_neighbor_table_entry_t \<Rightarrow> bool" and t :: u32 and tbl :: mac_neighbor_table_t
  assumes "neighbor_reach tbl"
  defines "tbl' \<equiv> mac_neighbor_table_neighbor_timeout_update nud t tbl"
  shows "map neighbor_key (neighbour_list tbl') =
      map (\<lambda>e. neighbor_key (neighbor_age t e)) (filter (\<lambda>e. lifetime e > t) (neighbour_list tbl)) \<and>
    removed_log tbl' = removed_log tbl @
      (if has_remove_cb tbl then map neighbor_key (filter (\<lambda>e. \<not> lifetime e > t) (neighbour_list tbl)) else [])"
  using neighbor_timeout_fold [OF neighbor_reach_neighbor_inv [OF assms(1)], of "[]" "neighbour_list tbl" nud t]
  by (simp add: tbl'_def mac_neighbor_table_neighbor_timeout_update_def)

section \<open>One entry per address\<close>

abbreviation neighbor_discover :: "(u8 \<Rightarrow> u8 \<Rightarrow> u16) \<Rightarrow> mac_neighbor_table_t \<Rightarrow> bytes \<Rightarrow> u8 option" where
  "neighbor_discover read16 tbl mac \<equiv> mac_neighbor_table_address_discover read16 tbl mac ADDR_802_15_4_LONG"

lemma find_append_None: "find P xs = None \<Longrightarrow> find P (xs @ ys) = find P ys"
  by (induction xs) (auto split: if_splits)

lemma find_append_Some: "find P xs = Some x \<Longrightarrow> find P (xs @ ys) = Some x"
  by (induction xs) (auto split: if_splits)

interpretation neighbours: address_table neighbor_inv "\<lambda>mac. length mac = 8" "neighbor_discover read16"
  mac_neighbor_table_entry_allocate for read16
proof
  fix t k
  show "neighbor_inv (snd (mac_neighbor_table_entry_allocate t k))" if "neighbor_inv t"
    using neighbor_allocate_inv [OF that] by (metis prod.collapse)
next
  fix t k k' i t'
  assume a: "length (k :: bytes) = 8" "length (k' :: bytes) = 8" "neighbor_discover read16 t k = None"
    "mac_neighbor_table_entry_allocate t k = (Some i, t')"
  from a(4) obtain new where new: "index new = i" "mac64 new = take 8 k"
    "neighbour_list t' = neighbour_list t @ [new]"
    by (cases rule: neighbor_allocate_cases [of t k]) auto
  show "neighbor_discover read16 t' k' = (if k' = k then Some i else neighbor_discover read16 t k')"
  proof (cases "find (\<lambda>cur. take 8 (mac64 cur) = take 8 k') (neighbour_list t)")
    case None
    with a(1,2) new show ?thesis
      by (simp add: mac_neighbor_table_address_discover_def find_append_None)
  next
    case (Some e)
    with a have "k' \<noteq> k" by (auto simp: mac_neighbor_table_address_discover_def)
    with Some show ?thesis
      by (simp add: mac_neighbor_table_address_discover_def new(3) find_append_Some)
  qed
next
  fix t k t'
  show "t' = t" if "mac_neighbor_table_entry_allocate t k = (None, t')"
    using that by (cases rule: neighbor_allocate_cases [of t k]) auto
qed

lemma neighbor_get_by_mac64_get:
  "mac_neighbor_entry_get_by_mac64 read16 tbl mac True =
     ((fst (get_or_alloc (neighbor_discover read16) mac_neighbor_table_entry_allocate tbl mac),
       neighbor_discover read16 tbl mac = None),
      snd (get_or_alloc (neighbor_discover read16) mac_neighbor_table_entry_allocate tbl mac))"
  by (cases "neighbor_discover read16 tbl mac")
    (simp_all add: mac_neighbor_entry_get_by_mac64_def get_or_alloc_def Let_def split: prod.split)

text \<open>
  A neighbour keeps its entry: once \<open>mac_neighbor_entry_get_by_mac64\<close> has handed out an entry
  for an address, it returns the same entry again, however many entries for other addresses were
  asked for in between.
\<close>

lemma neighbor_get_stable:
  fixes read16 :: "u8 \<Rightarrow> u8 \<Rightarrow> u16" and macs :: "bytes list" and tbl' :: mac_neighbor_table_t
  assumes "neighbor_reach tbl" and "length mac = 8" and "\<forall>m \<in> set macs. length m = 8"
    and "mac_neighbor_entry_get_by_mac64 read16 tbl mac True = ((Some i, new), tbl')"
  defines "tbl'' \<equiv> fold (\<lambda>m t. snd (mac_neighbor_entry_get_by_mac64 read16 t m True)) macs tbl'"
  shows "mac_neighbor_entry_get_by_mac64 read16 tbl'' mac allocateNew = ((Some i, False), tbl'')"
proof -
  note inv = neighbor_reach_neighbor_inv [OF assms(1)]
  have get: "get_or_alloc (neighbor_discover read16) mac_neighbor_table_entry_allocate tbl mac = (Some i, tbl')"
    using assms(4) by (simp add: neighbor_get_by_mac64_get prod_eq_iff)
  have "neighbor_discover read16 tbl'' mac = Some i"
    using neighbours.get_all_keeps [OF _ assms(2,3), of tbl' read16 i]
      neighbours.get_found [OF inv assms(2) get] neighbours.get_inv [OF inv, of read16 mac] get
    by (simp add: tbl''_def neighbor_get_by_mac64_get)
  then show ?thesis by (simp add: mac_neighbor_entry_get_by_mac64_def Let_def)
qed

section \<open>Witnesses\<close>

text \<open>A table of two entries with one neighbour.\<close>

definition neighbor_tbl_example :: mac_neighbor_table_t where
  "neighbor_tbl_example = snd (mac_neighbor_table_entry_allocate
     (the (mac_neighbor_table_create True 2 True True)) [1, 2, 3, 4, 5, 6, 7, 8])"

lemma neighbor_tbl_example_reach: "neighbor_reach neighbor_tbl_example"
  unfolding neighbor_tbl_example_def
  by (rule neighbor_reach.allocate, rule neighbor_reach.create [of 2 True True])
    (simp add: mac_neighbor_table_create_def)

lemmas neighbor_example_simps = neighbor_tbl_example_def mac_neighbor_table_create_def
  mac_neighbor_table_entry_allocate_def neighbor_zero_def upt_rec

theorem neighbor_table_inv_witness:
  "unat (neighbour_list_size (mac_neighbor_table_neighbor_timeout_update (\<lambda>_. True) 10 neighbor_tbl_example)) =
     length (neighbour_list (mac_neighbor_table_neighbor_timeout_update (\<lambda>_. True) 10 neighbor_tbl_example))"
  using neighbor_table_inv [OF neighbor_reach.timeout [OF neighbor_tbl_example_reach, of "\<lambda>_. True" 10]] by blast

end
