(* ===== verification/Etx.thy ===== *)
theory Etx
  imports MacNeighborTable
begin

text \<open>
  The expected transmission count of the links to the neighbours, \<open>Service_Libs/etx/etx.c\<close>, with
  the integer square root of \<open>Service_Libs/utils/isqrt.c\<close>. The static structure \<open>etx_info\<close> is
  the state; the two tables it owns are lists that may be absent, indexed by the index of the
  neighbour in the MAC neighbour table. An access outside a table and a call through a callback
  pointer that is not set raise the flag \<open>etx_fault\<close>. The calls of the callbacks are logged.
  The conversion of the signal level by the radio driver (\<open>dev_driver->extension\<close>) is a parameter,
  as are the allocations.
\<close>

section \<open>Integer square root\<close>

function isqrt_place :: "u32 \<Rightarrow> u32 \<Rightarrow> u32" where
  "isqrt_place remainder place = (if place > remainder then isqrt_place remainder (drop_bit 2 place) else place)"
  by pat_completeness auto

termination
  by (relation "measure (\<lambda>(remainder, place). unat place)")
    (auto simp: word_less_nat_alt drop_bit_eq_div unat_div intro!: div_less_dividend)

function isqrt_loop :: "u32 \<Rightarrow> u32 \<Rightarrow> u32 \<Rightarrow> u32" where
  "isqrt_loop root remainder place =
     (if place \<noteq> 0
      then
        let (root, remainder) =
          (if remainder \<ge> root + place then (root + push_bit 1 place, remainder - root - place)
           else (root, remainder))
        in isqrt_loop (drop_bit 1 root) remainder (drop_bit 2 place)
      else root)"
  by pat_completeness auto

termination
  by (relation "measure (\<lambda>(root, remainder, place). unat place)")
    (auto simp: drop_bit_eq_div unat_div unat_gt_0 intro!: div_less_dividend)

declare isqrt_place.simps [simp del] isqrt_loop.simps [simp del]

definition isqrt32 :: "u32 \<Rightarrow> u32" where
  "isqrt32 n = isqrt_loop 0 n (isqrt_place n 0x40000000)"

section \<open>Data\<close>

abbreviation ETX_MOVING_AVERAGE_FRACTION :: nat where "ETX_MOVING_AVERAGE_FRACTION \<equiv> 3"

record etx_storage_t =
  etx :: u16
  stored_diff_etx :: u16
  remote_incoming_idr :: u8
  accumulated_failures :: "5 word"
  tmp_etx :: bool
  linkIdr :: "4 word"
  etx_samples :: "3 word"
  drop_bad_count :: "2 word"

record etx_sample_storage_t =
  attempts_count :: u16
  etx_timer :: u8
  received_acks :: u8
  transition_count :: u8

datatype etx_event =
    Etx_change "8 word" u16 u16 u8 bytes
  | Etx_accum "8 word" "5 word" u8

record ext_info_t =
  callback_ptr :: bool
  accum_cb_ptr :: bool
  etx_storage_list :: "etx_storage_t list option"
  etx_cache_storage_list :: "etx_sample_storage_t list option"
  max_update_etx :: u32
  max_etx :: u32
  hysteresis :: u16
  init_etx_sample_count :: u16
  accum_threshold :: u8
  etx_min_sampling_time :: u8
  ext_storage_list_size :: u8
  min_attempts_count :: u8
  drop_bad_max :: u8
  bad_link_level :: u8
  cache_sample_requested :: bool
  etx_interface_id :: "8 word"
  etx_fault :: bool
  etx_events :: "etx_event list"

definition etx_info_init :: ext_info_t where
  "etx_info_init = \<lparr>callback_ptr = False, accum_cb_ptr = False, etx_storage_list = None,
     etx_cache_storage_list = None, max_update_etx = 0, max_etx = 0xffff, hysteresis = 0,
     init_etx_sample_count = 1, accum_threshold = 0, etx_min_sampling_time = 0,
     ext_storage_list_size = 0, min_attempts_count = 0, drop_bad_max = 0, bad_link_level = 0,
     cache_sample_requested = False, etx_interface_id = -1, etx_fault = False, etx_events = []\<rparr>"

definition etx_storage_zero :: etx_storage_t where
  "etx_storage_zero = \<lparr>etx = 0, stored_diff_etx = 0, remote_incoming_idr = 0, accumulated_failures = 0,
     tmp_etx = False, linkIdr = 0, etx_samples = 0, drop_bad_count = 0\<rparr>"

definition etx_sample_zero :: etx_sample_storage_t where
  "etx_sample_zero = \<lparr>attempts_count = 0, etx_timer = 0, received_acks = 0, transition_count = 0\<rparr>"

text \<open>Reading and writing an entry of a table.\<close>

definition etx_entry :: "ext_info_t \<Rightarrow> u8 \<Rightarrow> etx_storage_t" where
  "etx_entry st i =
     (case etx_storage_list st of
        Some xs \<Rightarrow> if unat i < length xs then xs ! unat i else etx_storage_zero
      | None \<Rightarrow> etx_storage_zero)"

definition etx_upd :: "u8 \<Rightarrow> (etx_storage_t \<Rightarrow> etx_storage_t) \<Rightarrow> ext_info_t \<Rightarrow> ext_info_t" where
  "etx_upd i f st =
     (case etx_storage_list st of
        Some xs \<Rightarrow> if unat i < length xs then st\<lparr>etx_storage_list := Some (xs[unat i := f (xs ! unat i)])\<rparr>
                   else st\<lparr>etx_fault := True\<rparr>
      | None \<Rightarrow> st\<lparr>etx_fault := True\<rparr>)"

definition etx_cache :: "ext_info_t \<Rightarrow> u8 \<Rightarrow> etx_sample_storage_t" where
  "etx_cache st i =
     (case etx_cache_storage_list st of
        Some xs \<Rightarrow> if unat i < length xs then xs ! unat i else etx_sample_zero
      | None \<Rightarrow> etx_sample_zero)"

definition etx_cache_upd :: "u8 \<Rightarrow> (etx_sample_storage_t \<Rightarrow> etx_sample_storage_t) \<Rightarrow> ext_info_t \<Rightarrow> ext_info_t" where
  "etx_cache_upd i f st =
     (case etx_cache_storage_list st of
        Some xs \<Rightarrow> if unat i < length xs
                   then st\<lparr>etx_cache_storage_list := Some (xs[unat i := f (xs ! unat i)])\<rparr>
                   else st\<lparr>etx_fault := True\<rparr>
      | None \<Rightarrow> st\<lparr>etx_fault := True\<rparr>)"

definition etx_storage_entry_get :: "ext_info_t \<Rightarrow> 8 word \<Rightarrow> u8 \<Rightarrow> bool" where
  "etx_storage_entry_get st if_id i \<longleftrightarrow>
     \<not> (etx_interface_id st \<noteq> if_id \<or> etx_storage_list st = None \<or> i \<ge> ext_storage_list_size st)"

section \<open>Calculation\<close>

definition etx_current_calc :: "u16 \<Rightarrow> 5 word \<Rightarrow> u16" where
  "etx_current_calc v failures =
     (if failures = 0 then v
      else
        let current_etx = (ucast v :: u32) + push_bit (12 - ETX_MOVING_AVERAGE_FRACTION) (ucast failures)
        in if current_etx > 0xffff then 0xffff else ucast current_etx)"

text \<open>The comparison of the current value with the one reported last.\<close>

definition etx_change_needed :: "ext_info_t \<Rightarrow> u16 \<Rightarrow> u16 \<Rightarrow> bool" where
  "etx_change_needed st current_etx stored =
     (if current_etx > stored
      then current_etx - stored \<ge> hysteresis st
           \<or> ((ucast current_etx :: u32) = max_etx st \<and> (ucast stored :: u32) \<noteq> max_etx st)
      else if current_etx < stored then stored - current_etx \<ge> hysteresis st
      else False)"

definition etx_value_change_callback_needed_check :: "u8 \<Rightarrow> bytes \<Rightarrow> ext_info_t \<Rightarrow> ext_info_t" where
  "etx_value_change_callback_needed_check i mac st =
     (if hysteresis st = 0 then st
      else
        let entry = etx_entry st i;
            current_etx = etx_current_calc (etx entry) (accumulated_failures entry);
            stored = stored_diff_etx entry
        in if etx_change_needed st current_etx stored
           then
             let st = (if callback_ptr st
                       then st\<lparr>etx_events := etx_events st @
                              [Etx_change (etx_interface_id st) (drop_bit 4 stored) (drop_bit 4 current_etx) i mac]\<rparr>
                       else st\<lparr>etx_fault := True\<rparr>)
             in etx_upd i (\<lambda>e. e\<lparr>stored_diff_etx := current_etx\<rparr>) st
           else st)"

definition etx_accum_failures_callback_needed_check :: "u8 \<Rightarrow> ext_info_t \<Rightarrow> ext_info_t" where
  "etx_accum_failures_callback_needed_check i st =
     (if accum_threshold st = 0 then st
      else if unat (accumulated_failures (etx_entry st i)) < unat (accum_threshold st) then st
      else if accum_cb_ptr st
      then st\<lparr>etx_events := etx_events st @ [Etx_accum (etx_interface_id st) (accumulated_failures (etx_entry st i)) i]\<rparr>
      else st\<lparr>etx_fault := True\<rparr>)"

definition etx_cache_entry_init :: "u8 \<Rightarrow> ext_info_t \<Rightarrow> ext_info_t" where
  "etx_cache_entry_init i st =
     (if \<not> cache_sample_requested st then st
      else etx_cache_upd i (\<lambda>s. s\<lparr>attempts_count := 0, transition_count := 0,
             etx_timer := etx_min_sampling_time st, received_acks := 0\<rparr>) st)"

text \<open>The new value of \<open>etx_calculation\<close>.\<close>

definition etx_new_value :: "ext_info_t \<Rightarrow> etx_storage_t \<Rightarrow> u16 \<Rightarrow> u8 \<Rightarrow> u32" where
  "etx_new_value st entry attempts acks_rx =
     (let v = push_bit (12 - ETX_MOVING_AVERAGE_FRACTION) (ucast attempts :: u32);
          v = (if acks_rx \<noteq> 0 then v div ucast acks_rx else 0xffff);
          v = (if max_update_etx st \<noteq> 0 \<and> v > max_update_etx st then max_update_etx st else v);
          v = (if cache_sample_requested st \<and> unat (etx_samples entry) \<le> unat (init_etx_sample_count st)
               then push_bit 3 v
               else v + (ucast (etx entry) - ucast (drop_bit ETX_MOVING_AVERAGE_FRACTION (etx entry))))
      in if v > max_etx st then max_etx st else v)"

definition etx_calculation :: "u16 \<Rightarrow> u8 \<Rightarrow> u8 \<Rightarrow> bytes \<Rightarrow> ext_info_t \<Rightarrow> ext_info_t" where
  "etx_calculation attempts acks_rx i mac st =
     (let init = init_etx_sample_count st;
          st = (if hysteresis st \<noteq> 0 \<and> stored_diff_etx (etx_entry st i) = 0
                   \<and> unat (etx_samples (etx_entry st i)) \<ge> unat init
                then etx_upd i (\<lambda>e. e\<lparr>stored_diff_etx := etx e\<rparr>) st else st);
          v = etx_new_value st (etx_entry st i) attempts acks_rx;
          st = etx_upd i (\<lambda>e. e\<lparr>tmp_etx := False, etx := ucast v, drop_bad_count := 0\<rparr>) st
      in if unat (etx_samples (etx_entry st i)) \<ge> unat init
         then etx_value_change_callback_needed_check i mac (etx_cache_entry_init i st)
         else st)"

section \<open>Samples\<close>

definition etx_timer_step :: "u16 \<Rightarrow> etx_sample_storage_t \<Rightarrow> etx_sample_storage_t" where
  "etx_timer_step time_update s =
     (if etx_timer s \<noteq> 0 \<and> time_update \<noteq> 0
      then if time_update \<ge> ucast (etx_timer s) then s\<lparr>etx_timer := 0\<rparr>
           else s\<lparr>etx_timer := etx_timer s - ucast time_update\<rparr>
      else s)"

definition etx_update_possible :: "u8 \<Rightarrow> u16 \<Rightarrow> ext_info_t \<Rightarrow> bool \<times> ext_info_t" where
  "etx_update_possible i time_update st =
     (let st = etx_cache_upd i (etx_timer_step time_update) st;
          s = etx_cache st i;
          entry = etx_entry st i
      in (if unat (etx_samples entry) = unat (init_etx_sample_count st) \<and> time_update = 0 then True
          else if unat (etx_samples entry) > unat (init_etx_sample_count st)
          then if etx_timer s = 0 \<or> attempts_count s = 0xffff \<or> received_acks s = 0xff
               then if transition_count s \<ge> min_attempts_count st then True
                    else transition_count s \<noteq> received_acks s
               else False
          else False, st))"

definition etx_cache_sample_update :: "u8 \<Rightarrow> u8 \<Rightarrow> bool \<Rightarrow> ext_info_t \<Rightarrow> ext_info_t" where
  "etx_cache_sample_update i attempts ack_rx =
     etx_cache_upd i (\<lambda>s. s\<lparr>attempts_count := attempts_count s + ucast attempts,
       transition_count := transition_count s + 1,
       received_acks := (if ack_rx then received_acks s + 1 else received_acks s)\<rparr>)"

definition etx_drop_bad_sample :: "u8 \<Rightarrow> u8 \<Rightarrow> bool \<Rightarrow> ext_info_t \<Rightarrow> bool \<times> ext_info_t" where
  "etx_drop_bad_sample i attempts success st =
     (if bad_link_level st = 0 \<or> \<not> success then (False, st)
      else if attempts < bad_link_level st then (False, st)
      else if unat (drop_bad_count (etx_entry st i)) < unat (drop_bad_max st)
      then (True, etx_upd i (\<lambda>e. e\<lparr>drop_bad_count := drop_bad_count e + 1\<rparr>) st)
      else (False, st))"

text \<open>The cached and the direct way of \<open>etx_transm_attempts_update\<close>.\<close>

definition etx_transm_cached :: "u8 \<Rightarrow> bool \<Rightarrow> u8 \<Rightarrow> bytes \<Rightarrow> ext_info_t \<Rightarrow> ext_info_t" where
  "etx_transm_cached attempts success i mac st =
     (let st = etx_cache_sample_update i attempts success st;
          st = etx_upd i (\<lambda>e. e\<lparr>accumulated_failures := 0\<rparr>) st;
          (possible, st) = etx_update_possible i 0 st
      in if \<not> possible then st
         else etx_calculation (attempts_count (etx_cache st i)) (received_acks (etx_cache st i)) i mac st)"

definition etx_transm_direct :: "u8 \<Rightarrow> bool \<Rightarrow> u8 \<Rightarrow> bytes \<Rightarrow> ext_info_t \<Rightarrow> ext_info_t" where
  "etx_transm_direct attempts success i mac st =
     (let failures = accumulated_failures (etx_entry st i);
          room = (unat failures + unat attempts < 32);
          st = (if \<not> success \<and> room
                then etx_upd i (\<lambda>e. e\<lparr>accumulated_failures := accumulated_failures e + ucast attempts\<rparr>) st else st);
          success = (success \<or> \<not> room);
          st = (if success then etx_upd i (\<lambda>e. e\<lparr>accumulated_failures := 0\<rparr>) st
                else etx_accum_failures_callback_needed_check i st)
      in if etx (etx_entry st i) \<noteq> 0 \<and> success
         then etx_calculation (ucast attempts + ucast failures) 1 i mac st else st)"

definition etx_transm_attempts_update ::
    "8 word \<Rightarrow> u8 \<Rightarrow> bool \<Rightarrow> u8 \<Rightarrow> bytes \<Rightarrow> ext_info_t \<Rightarrow> ext_info_t" where
  "etx_transm_attempts_update if_id attempts success i mac st =
     (if \<not> etx_storage_entry_get st if_id i then st
      else
        let (dropped, st) =
          (if unat (etx_samples (etx_entry st i)) < 7
           then case etx_drop_bad_sample i attempts success st of
                  (True, st) \<Rightarrow> (True, st)
                | (False, st) \<Rightarrow> (False, etx_upd i (\<lambda>e. e\<lparr>etx_samples := etx_samples e + 1\<rparr>) st)
           else (False, st))
        in if dropped then st
           else if cache_sample_requested st then etx_transm_cached attempts success i mac st
           else etx_transm_direct attempts success i mac st)"

definition etx_remote_incoming_idr_update :: "8 word \<Rightarrow> u8 \<Rightarrow> u8 \<Rightarrow> bytes \<Rightarrow> ext_info_t \<Rightarrow> ext_info_t" where
  "etx_remote_incoming_idr_update if_id idr i mac st =
     (if \<not> etx_storage_entry_get st if_id i then st
      else
        let entry = etx_entry st i;
            st = (if etx entry \<noteq> 0
                  then
                    let st = (if hysteresis st \<noteq> 0 \<and> stored_diff_etx entry = 0
                              then etx_upd i (\<lambda>e. e\<lparr>stored_diff_etx := etx e\<rparr>) st else st);
                        remote_ext = push_bit 2 ((ucast idr :: u32) * ucast idr);
                        v = (ucast (etx entry) :: u32) - ucast (drop_bit ETX_MOVING_AVERAGE_FRACTION (etx entry));
                        v = v + drop_bit ETX_MOVING_AVERAGE_FRACTION remote_ext;
                        st = etx_upd i (\<lambda>e. e\<lparr>etx := (if v > 0xffff then 0xffff else ucast v)\<rparr>) st
                    in etx_value_change_callback_needed_check i mac st
                  else st)
        in etx_upd i (\<lambda>e. e\<lparr>remote_incoming_idr := idr\<rparr>) st)"

section \<open>Reading\<close>

text \<open>What \<open>etx_read\<close> uses of the interface.\<close>

record etx_interface =
  etx_read_override :: "(addrtype_t \<Rightarrow> bytes \<Rightarrow> u16) option"
  nwk_is_ipv6 :: bool
  mac_neighbor_info :: mac_neighbor_table_t

definition etx_read ::
    "(u8 \<Rightarrow> u8 \<Rightarrow> u16) \<Rightarrow> ext_info_t \<Rightarrow> 8 word \<Rightarrow> etx_interface option \<Rightarrow> addrtype_t \<Rightarrow> bytes option \<Rightarrow> u16" where
  "etx_read read16 st if_id iface addr_type addr_ptr =
     (case (addr_ptr, iface) of
        (Some addr, Some cur) \<Rightarrow>
          (case etx_read_override cur of
             Some f \<Rightarrow> f addr_type addr
           | None \<Rightarrow>
               if nwk_is_ipv6 cur then 1
               else case mac_neighbor_table_address_discover read16 (mac_neighbor_info cur) (drop 2 addr) addr_type of
                      None \<Rightarrow> 0xffff
                    | Some i \<Rightarrow>
                        if \<not> etx_storage_entry_get st if_id i then 0xffff
                        else drop_bit 4 (etx_current_calc (etx (etx_entry st i)) (accumulated_failures (etx_entry st i))))
      | _ \<Rightarrow> 0)"

definition etx_local_incoming_idr_read :: "ext_info_t \<Rightarrow> 8 word \<Rightarrow> u8 \<Rightarrow> u16" where
  "etx_local_incoming_idr_read st if_id i =
     (if etx_storage_entry_get st if_id i
      then ucast (drop_bit 6 (isqrt32 (push_bit 16 (ucast
             (etx_current_calc (etx (etx_entry st i)) (accumulated_failures (etx_entry st i)))))))
      else 0)"

definition etx_local_etx_read :: "ext_info_t \<Rightarrow> 8 word \<Rightarrow> u8 \<Rightarrow> u16" where
  "etx_local_etx_read st if_id i =
     (if \<not> etx_storage_entry_get st if_id i then 0
      else if cache_sample_requested st
              \<and> unat (etx_samples (etx_entry st i)) < unat (init_etx_sample_count st)
      then if received_acks (etx_cache st i) = 0 \<and> attempts_count (etx_cache st i) \<noteq> 0
           then ucast (max_etx st) else 0xffff
      else drop_bit 4 (etx_current_calc (etx (etx_entry st i)) (accumulated_failures (etx_entry st i))))"

text \<open>\<open>drv\<close> is the conversion by the driver, when there is one and it succeeds.\<close>

definition etx_dbm_lqi_calc :: "(u8 \<Rightarrow> 8 word \<Rightarrow> u16 option) \<Rightarrow> u8 \<Rightarrow> 8 word \<Rightarrow> u16" where
  "etx_dbm_lqi_calc drv lqi dbm =
     (case drv lqi dbm of
        Some v \<Rightarrow> push_bit 4 v
      | None \<Rightarrow> drop_bit 1 (word_of_int ((- sint dbm) * (256 - uint lqi))) + 4096)"

definition etx_lqi_dbm_update ::
    "(u8 \<Rightarrow> 8 word \<Rightarrow> u16 option) \<Rightarrow> 8 word \<Rightarrow> u8 \<Rightarrow> 8 word \<Rightarrow> u8 \<Rightarrow> bytes \<Rightarrow> ext_info_t \<Rightarrow> u16 \<times> ext_info_t" where
  "etx_lqi_dbm_update drv if_id lqi dbm i mac st =
     (let (idr, v, st) =
        (if etx_storage_entry_get st if_id i
         then
           let (v, st) =
             (if etx (etx_entry st i) = 0
              then
                let v = etx_dbm_lqi_calc drv lqi dbm;
                    st = etx_upd i (\<lambda>e. e\<lparr>etx := v, stored_diff_etx := v, tmp_etx := True\<rparr>) st;
                    st = (if callback_ptr st
                          then st\<lparr>etx_events := etx_events st @
                                 [Etx_change (etx_interface_id st) 0 (drop_bit 4 v) i mac]\<rparr>
                          else st)
                in (ucast v :: u32, st)
              else (0, st));
               entry = etx_entry st i
           in if remote_incoming_idr entry \<noteq> 0 \<and> tmp_etx entry
              then
                let idr = drop_bit 2 (isqrt32 (push_bit 16 (ucast (etx entry))));
                    v = idr * push_bit 7 (ucast (remote_incoming_idr entry));
                    st = etx_upd i (\<lambda>e. e\<lparr>tmp_etx := False, etx := ucast (drop_bit 12 v)\<rparr>) st
                in (drop_bit 4 idr, v, etx_value_change_callback_needed_check i mac st)
              else (0, v, st)
         else (0, 0, st));
          idr = (if idr = 0
                 then
                   let v = (if v = 0 then ucast (etx_dbm_lqi_calc drv lqi dbm) else v)
                   in drop_bit 6 (isqrt32 (push_bit 16 v))
                 else idr)
      in (ucast idr, st))"

section \<open>Configuration\<close>

definition etx_value_change_callback_register :: "bool \<Rightarrow> 8 word \<Rightarrow> u16 \<Rightarrow> bool \<Rightarrow> ext_info_t \<Rightarrow> u8 \<times> ext_info_t" where
  "etx_value_change_callback_register is_6lowpan if_id hyst cb st =
     (if is_6lowpan \<and> hyst \<noteq> 0 \<and> cb
      then (1, st\<lparr>hysteresis := push_bit 4 hyst, callback_ptr := True, etx_interface_id := if_id\<rparr>)
      else (0, st))"

definition etx_accum_failures_callback_register :: "bool \<Rightarrow> 8 word \<Rightarrow> u8 \<Rightarrow> bool \<Rightarrow> ext_info_t \<Rightarrow> u8 \<times> ext_info_t" where
  "etx_accum_failures_callback_register is_6lowpan if_id threshold cb st =
     (if is_6lowpan \<and> threshold \<noteq> 0 \<and> cb
      then (1, st\<lparr>etx_interface_id := if_id, accum_threshold := threshold, accum_cb_ptr := True\<rparr>)
      else (0, st))"

definition etx_storage_list_allocate :: "bool \<Rightarrow> 8 word \<Rightarrow> u8 \<Rightarrow> ext_info_t \<Rightarrow> bool \<times> ext_info_t" where
  "etx_storage_list_allocate ok if_id storage_size st =
     (if storage_size = 0
      then (True, st\<lparr>etx_cache_storage_list := None, cache_sample_requested := False,
                     etx_storage_list := None, ext_storage_list_size := 0\<rparr>)
      else if ext_storage_list_size st = storage_size then (True, st)
      else
        let st = st\<lparr>cache_sample_requested := False, ext_storage_list_size := 0\<rparr>
        in if \<not> ok then (False, st\<lparr>etx_storage_list := None, ext_storage_list_size := 0\<rparr>)
           else (True, st\<lparr>ext_storage_list_size := storage_size, etx_interface_id := if_id,
                          etx_storage_list := Some (replicate (unat storage_size) etx_storage_zero)\<rparr>))"

definition etx_cached_etx_parameter_set :: "bool \<Rightarrow> u8 \<Rightarrow> u8 \<Rightarrow> u8 \<Rightarrow> ext_info_t \<Rightarrow> bool \<times> ext_info_t" where
  "etx_cached_etx_parameter_set ok min_wait_time min_attempts init_count st =
     (if ext_storage_list_size st = 0 then (False, st)
      else
        let set_params = (\<lambda>st. (True, st\<lparr>min_attempts_count := min_attempts,
              etx_min_sampling_time := min_wait_time, init_etx_sample_count := ucast init_count\<rparr>))
        in if min_wait_time \<noteq> 0 \<or> min_attempts \<noteq> 0
           then if init_count = 0 then (False, st)
                else if etx_cache_storage_list st = None
                then if \<not> ok then (False, st)
                     else set_params (st\<lparr>cache_sample_requested := True, etx_cache_storage_list :=
                            Some (replicate (unat (ext_storage_list_size st)) etx_sample_zero)\<rparr>)
                else set_params st
           else set_params (st\<lparr>cache_sample_requested := False, etx_cache_storage_list := None\<rparr>))"

definition etx_allow_drop_for_poor_measurements :: "u8 \<Rightarrow> u8 \<Rightarrow> ext_info_t \<Rightarrow> bool \<times> ext_info_t" where
  "etx_allow_drop_for_poor_measurements level drops st =
     (if ext_storage_list_size st = 0 then (False, st)
      else if level = 0 then (True, st\<lparr>bad_link_level := 0, drop_bad_max := 0\<rparr>)
      else if level < 2 then (False, st)
      else if drops = 0 \<or> drops > 3 then (False, st)
      else (True, st\<lparr>bad_link_level := level, drop_bad_max := drops\<rparr>))"

definition etx_max_update_set :: "u16 \<Rightarrow> ext_info_t \<Rightarrow> ext_info_t" where
  "etx_max_update_set v st =
     (if v \<noteq> 0 then st\<lparr>max_update_etx := push_bit (12 - ETX_MOVING_AVERAGE_FRACTION) (ucast (v div 128))\<rparr>
      else st\<lparr>max_update_etx := 0\<rparr>)"

definition etx_max_set :: "u16 \<Rightarrow> ext_info_t \<Rightarrow> ext_info_t" where
  "etx_max_set v st =
     (if v \<noteq> 0 then st\<lparr>max_etx := push_bit 12 (ucast (v div 128))\<rparr> else st\<lparr>max_etx := 0xffff\<rparr>)"

section \<open>Removal and timer\<close>

definition etx_neighbor_remove :: "8 word \<Rightarrow> u8 \<Rightarrow> bytes \<Rightarrow> ext_info_t \<Rightarrow> ext_info_t" where
  "etx_neighbor_remove if_id i mac st =
     (if etx_storage_entry_get st if_id i \<and> callback_ptr st
      then
        let entry = etx_entry st i;
            stored = drop_bit 4 (stored_diff_etx entry);
            stored = (if stored = 0 then 0xffff else stored);
            st = (if etx entry \<noteq> 0
                  then st\<lparr>etx_events := etx_events st @ [Etx_change (etx_interface_id st) stored 0xffff i mac]\<rparr>
                  else st);
            st = (if cache_sample_requested st then etx_cache_upd i (\<lambda>_. etx_sample_zero) st else st)
        in etx_upd i (\<lambda>_. etx_storage_zero) st
      else st)"

text \<open>\<open>neighbours\<close> is the neighbour list of the interface, when it has a neighbour table.\<close>

definition etx_cache_step :: "8 word \<Rightarrow> u16 \<Rightarrow> mac_neighbor_table_entry_t \<Rightarrow> ext_info_t \<Rightarrow> ext_info_t" where
  "etx_cache_step if_id seconds neighbour st =
     (let i = index neighbour in
      if \<not> etx_storage_entry_get st if_id i \<or> tmp_etx (etx_entry st i) then st
      else
        let (possible, st) = etx_update_possible i seconds st
        in if possible
           then etx_calculation (attempts_count (etx_cache st i)) (received_acks (etx_cache st i)) i (mac64 neighbour) st
           else st)"

definition etx_cache_timer :: "8 word \<Rightarrow> mac_neighbor_table_t option \<Rightarrow> u16 \<Rightarrow> ext_info_t \<Rightarrow> ext_info_t" where
  "etx_cache_timer if_id table seconds st =
     (if \<not> cache_sample_requested st then st
      else case table of
        None \<Rightarrow> st
      | Some tbl \<Rightarrow> fold (etx_cache_step if_id seconds) (neighbour_list tbl) st)"

end
