(* ===== verification/EtxProps.thy ===== *)
theory EtxProps
  imports Etx
begin

text \<open>
  The integer square root is exact, the module never leaves its tables and never calls through a
  null pointer, the moving average on 32 bits is the one on natural numbers, and a value change
  is reported whenever it reaches the hysteresis.
\<close>

section \<open>Integer square root\<close>

text \<open>
  \<open>R\<close> is the part of the root that is known, a multiple of \<open>2 * q\<close> where \<open>place = q * q\<close>.
\<close>

definition isqrt_state :: "nat \<Rightarrow> nat \<Rightarrow> nat \<Rightarrow> u32 \<Rightarrow> u32 \<Rightarrow> bool" where
  "isqrt_state n q R root remainder \<longleftrightarrow> unat root = R * q \<and> unat remainder + R * R = n \<and>
     n < (R + q) * (R + q) \<and> R + q \<le> 65536"

lemma isqrt_step:
  assumes "isqrt_state n (2 * q) R root remainder" and "unat place = q * q" and "0 < q"
  defines "rr \<equiv> (if remainder \<ge> root + place then (root + push_bit 1 place, remainder - root - place)
       else (root, remainder))"
  shows "\<exists>R'. isqrt_state n q R' (drop_bit 1 (fst rr)) (snd rr)"
proof -
  have root: "unat root = 2 * (R * q)" and rem: "unat remainder + R * R = n"
    and n: "n < (R + 2 * q) * (R + 2 * q)" and le: "R + 2 * q \<le> 65536"
    using assms(1) by (simp_all add: isqrt_state_def algebra_simps)
  have "(R + 2 * q) * (2 * q) \<le> 65536 * 65536" using le by (intro mult_le_mono) simp_all
  then have big: "2 * (R * q) + 4 * (q * q) \<le> 4294967296" by (simp add: algebra_simps)
  have pos: "0 < q * q" using assms(3) by simp
  have lt: "2 * (R * q) + q * q < 4294967296" "2 * (q * q) < 4294967296"
    "2 * (R * q) + 2 * (q * q) < 4294967296"
    using big pos by linarith+
  have sum: "unat (root + place) = 2 * (R * q) + q * q"
    using lt(1) by (simp add: unat_word_ariths root assms(2))
  have "unat (push_bit 1 place) = 2 * (q * q)"
    using lt(2) by (simp add: push_bit_eq_mult unat_word_ariths assms(2))
  then have dbl: "unat (root + push_bit 1 place) = 2 * (R * q + q * q)"
    using lt(3) by (simp add: unat_word_ariths root)
  show ?thesis
  proof (cases "remainder \<ge> root + place")
    case True
    then have ge: "2 * (R * q) + q * q \<le> unat remainder" using sum by (simp add: word_le_nat_alt)
    have "unat (remainder - (root + place)) = unat remainder - (2 * (R * q) + q * q)"
      unfolding sum [symmetric] by (rule unat_diff_le [OF True])
    then have rem': "unat (remainder - root - place) = unat remainder - (2 * (R * q) + q * q)"
      by (simp only: diff_diff_eq)
    have half: "unat (drop_bit 1 (root + push_bit 1 place)) = (R + q) * q"
    proof -
      have "unat (drop_bit 1 (root + push_bit 1 place)) = unat (root + push_bit 1 place) div 2"
        by (simp add: drop_bit_eq_div unat_div)
      also have "\<dots> = R * q + q * q" unfolding dbl by (rule nonzero_mult_div_cancel_left) simp
      finally show ?thesis by (simp add: algebra_simps)
    qed
    have "unat (remainder - root - place) + (R + q) * (R + q) = n"
      using rem' ge rem by (simp add: algebra_simps)
    then have "isqrt_state n q (R + q) (drop_bit 1 (fst rr)) (snd rr)"
      unfolding isqrt_state_def rr_def if_P [OF True] fst_conv snd_conv half using n le by (simp add: algebra_simps)
    then show ?thesis by blast
  next
    case False
    then have "unat remainder < 2 * (R * q) + q * q" using sum by (simp add: word_le_nat_alt)
    then have "n < (R + q) * (R + q)" using rem by (simp add: algebra_simps)
    then have "isqrt_state n q R (drop_bit 1 (fst rr)) (snd rr)"
      using False root rem le by (simp add: rr_def isqrt_state_def drop_bit_eq_div unat_div)
    then show ?thesis by blast
  qed
qed

lemma isqrt_loop_correct:
  assumes "isqrt_state n (2 * 2 ^ k) R root remainder" and "unat place = 2 ^ k * 2 ^ k"
  shows "(unat (isqrt_loop root remainder place))\<^sup>2 \<le> n \<and> n < (unat (isqrt_loop root remainder place) + 1)\<^sup>2"
  using assms
proof (induction k arbitrary: root remainder place R)
  case 0
  let ?rr = "if remainder \<ge> root + place then (root + push_bit 1 place, remainder - root - place)
       else (root, remainder)"
  have ne: "place \<noteq> 0" using 0(2) by auto
  have "place = 1" using 0(2) by (simp add: word_unat_eq_iff)
  then have zero: "drop_bit 2 place = 0" by simp
  obtain R' where R': "isqrt_state n 1 R' (drop_bit 1 (fst ?rr)) (snd ?rr)"
    using isqrt_step [of n 1 R root remainder place] 0 by auto
  have "isqrt_loop root remainder place = drop_bit 1 (fst ?rr)"
    using ne zero by (simp add: isqrt_loop.simps [of root remainder place] isqrt_loop.simps [of _ _ 0] split: prod.split)
  with R' show ?case by (simp add: isqrt_state_def power2_eq_square)
next
  case (Suc k)
  let ?rr = "if remainder \<ge> root + place then (root + push_bit 1 place, remainder - root - place)
       else (root, remainder)"
  have ne: "place \<noteq> 0" using Suc.prems(2) by auto
  have place: "unat (drop_bit 2 place) = 2 ^ k * 2 ^ k"
    using Suc.prems(2) by (simp add: drop_bit_eq_div unat_div)
  obtain R' where R': "isqrt_state n (2 * 2 ^ k) R' (drop_bit 1 (fst ?rr)) (snd ?rr)"
    using isqrt_step [of n "2 ^ Suc k" R root remainder place] Suc.prems by auto
  have "isqrt_loop root remainder place = isqrt_loop (drop_bit 1 (fst ?rr)) (snd ?rr) (drop_bit 2 place)"
    using ne by (simp add: isqrt_loop.simps [of root remainder place] split: prod.split)
  with Suc.IH [OF R' place] show ?case by simp
qed

lemma isqrt_place_power:
  assumes "unat place = 2 ^ k * 2 ^ k" and "unat n < (2 * 2 ^ k) * (2 * 2 ^ k)" and "n \<noteq> 0"
  shows "\<exists>j \<le> k. unat (isqrt_place n place) = 2 ^ j * 2 ^ j \<and> unat n < (2 * 2 ^ j) * (2 * 2 ^ j)"
  using assms(1,2)
proof (induction k arbitrary: place)
  case 0
  then have "\<not> n < place" using assms(3) by (simp add: word_less_nat_alt unat_gt_0)
  then show ?case using 0 by (simp add: isqrt_place.simps [of n place])
next
  case (Suc k)
  show ?case
  proof (cases "n < place")
    case True
    then have "unat n < (2 * 2 ^ k) * (2 * 2 ^ k)" using Suc.prems(1) by (simp add: word_less_nat_alt)
    moreover have "unat (drop_bit 2 place) = 2 ^ k * 2 ^ k"
      using Suc.prems(1) by (simp add: drop_bit_eq_div unat_div)
    ultimately obtain j where "j \<le> k" "unat (isqrt_place n (drop_bit 2 place)) = 2 ^ j * 2 ^ j"
      "unat n < (2 * 2 ^ j) * (2 * 2 ^ j)"
      using Suc.IH by blast
    with True show ?thesis by (intro exI [of _ j]) (simp add: isqrt_place.simps [of n place])
  next
    case False
    with Suc.prems show ?thesis by (intro exI [of _ "Suc k"]) (simp add: isqrt_place.simps [of n place])
  qed
qed

text \<open>\<open>isqrt32\<close> is the integer square root, rounded down, of every 32-bit number.\<close>

lemma isqrt32_correct: "(unat (isqrt32 n))\<^sup>2 \<le> unat n \<and> unat n < (unat (isqrt32 n) + 1)\<^sup>2"
proof (cases "n = 0")
  case True
  have "isqrt_place 0 0x40000000 = 0" by code_simp
  with True show ?thesis by (simp add: isqrt32_def isqrt_loop.simps [of 0 0 0])
next
  case False
  have "unat n < 4294967296" using unsigned_less [of n] by simp
  then obtain j where j: "j \<le> 15" "unat (isqrt_place n 0x40000000) = 2 ^ j * 2 ^ j"
    "unat n < (2 * 2 ^ j) * (2 * 2 ^ j)"
    using isqrt_place_power [of "0x40000000" 15 n] False by auto
  have "(2 :: nat) * 2 ^ j \<le> 2 * 2 ^ 15" using j(1) by (intro mult_le_mono power_increasing) simp_all
  then have "isqrt_state (unat n) (2 * 2 ^ j) 0 0 n" using j(3) by (simp add: isqrt_state_def)
  from isqrt_loop_correct [OF this j(2)] show ?thesis by (simp add: isqrt32_def)
qed

section \<open>Safety\<close>

text \<open>The part of the state that decides whether an access or a call is safe.\<close>

definition etx_cfg :: "ext_info_t \<Rightarrow> (nat option \<times> nat option \<times> u8 \<times> bool) \<times> u16 \<times> bool \<times> u8 \<times> bool \<times> bool" where
  "etx_cfg st = ((map_option length (etx_storage_list st), map_option length (etx_cache_storage_list st),
     ext_storage_list_size st, cache_sample_requested st),
     hysteresis st, callback_ptr st, accum_threshold st, accum_cb_ptr st, etx_fault st)"

definition etx_inv :: "ext_info_t \<Rightarrow> bool" where
  "etx_inv st \<longleftrightarrow> \<not> etx_fault st \<and>
     map_option length (etx_storage_list st) =
       (if ext_storage_list_size st = 0 then None else Some (unat (ext_storage_list_size st))) \<and>
     (cache_sample_requested st \<longrightarrow> ext_storage_list_size st \<noteq> 0 \<and>
       map_option length (etx_cache_storage_list st) = Some (unat (ext_storage_list_size st))) \<and>
     (hysteresis st \<noteq> 0 \<longrightarrow> callback_ptr st) \<and> (accum_threshold st \<noteq> 0 \<longrightarrow> accum_cb_ptr st)"

lemma etx_cfg_inv: "etx_cfg st' = etx_cfg st \<Longrightarrow> etx_inv st' = etx_inv st"
  by (simp add: etx_cfg_def etx_inv_def)

text \<open>An index that is inside the tables.\<close>

definition etx_at :: "ext_info_t \<Rightarrow> u8 \<Rightarrow> bool" where
  "etx_at st i \<longleftrightarrow> etx_inv st \<and> i < ext_storage_list_size st"

lemma etx_cfg_at: "etx_cfg st' = etx_cfg st \<Longrightarrow> etx_at st' i = etx_at st i"
  using etx_cfg_inv [of st' st] by (simp add: etx_at_def etx_cfg_def)

lemma etx_cfg_fields:
  assumes "etx_cfg st' = etx_cfg st"
  shows "cache_sample_requested st' = cache_sample_requested st" and "hysteresis st' = hysteresis st"
    and "ext_storage_list_size st' = ext_storage_list_size st" and "callback_ptr st' = callback_ptr st"
  using assms by (simp_all add: etx_cfg_def)

lemma etx_entry_get_at: "etx_inv st \<Longrightarrow> etx_storage_entry_get st if_id i \<Longrightarrow> etx_at st i"
  by (auto simp: etx_storage_entry_get_def etx_at_def)

lemma etx_upd_cfg: "etx_at st i \<Longrightarrow> etx_cfg (etx_upd i f st) = etx_cfg st"
  by (auto simp: etx_at_def etx_inv_def etx_upd_def etx_cfg_def word_less_nat_alt split: option.split if_splits)

lemma etx_cache_upd_cfg:
  "etx_at st i \<Longrightarrow> cache_sample_requested st \<Longrightarrow> etx_cfg (etx_cache_upd i f st) = etx_cfg st"
  by (auto simp: etx_at_def etx_inv_def etx_cache_upd_def etx_cfg_def word_less_nat_alt split: option.split)

lemma etx_events_cfg [simp]: "etx_cfg (st\<lparr>etx_events := evs\<rparr>) = etx_cfg st"
  by (simp add: etx_cfg_def)

lemma etx_check_cfg: "etx_at st i \<Longrightarrow> etx_cfg (etx_value_change_callback_needed_check i mac st) = etx_cfg st"
  using etx_upd_cfg [of "st\<lparr>etx_events := evs\<rparr>" i for evs] etx_cfg_at [of "st\<lparr>etx_events := evs\<rparr>" st i for evs]
  by (auto simp: etx_value_change_callback_needed_check_def Let_def) (simp add: etx_at_def etx_inv_def)

lemma etx_accum_cfg: "etx_at st i \<Longrightarrow> etx_cfg (etx_accum_failures_callback_needed_check i st) = etx_cfg st"
  by (auto simp: etx_accum_failures_callback_needed_check_def etx_at_def etx_inv_def)

lemma etx_cache_init_cfg: "etx_at st i \<Longrightarrow> etx_cfg (etx_cache_entry_init i st) = etx_cfg st"
  by (simp add: etx_cache_entry_init_def etx_cache_upd_cfg)

lemma etx_calculation_cfg:
  assumes "etx_at st i"
  shows "etx_cfg (etx_calculation attempts acks i mac st) = etx_cfg st"
proof -
  define st1 where "st1 = (if hysteresis st \<noteq> 0 \<and> stored_diff_etx (etx_entry st i) = 0
      \<and> unat (etx_samples (etx_entry st i)) \<ge> unat (init_etx_sample_count st)
      then etx_upd i (\<lambda>e. e\<lparr>stored_diff_etx := etx e\<rparr>) st else st)"
  define st2 where "st2 = etx_upd i (\<lambda>e. e\<lparr>tmp_etx := False,
      etx := ucast (etx_new_value st1 (etx_entry st1 i) attempts acks), drop_bad_count := 0\<rparr>) st1"
  have c1: "etx_cfg st1 = etx_cfg st" using etx_upd_cfg [OF assms] by (simp add: st1_def)
  then have a1: "etx_at st1 i" using etx_cfg_at assms by blast
  have c2: "etx_cfg st2 = etx_cfg st" unfolding st2_def using etx_upd_cfg [OF a1] c1 by simp
  then have a2: "etx_at st2 i" using etx_cfg_at assms by blast
  have c3: "etx_cfg (etx_cache_entry_init i st2) = etx_cfg st" using etx_cache_init_cfg [OF a2] c2 by simp
  then have "etx_at (etx_cache_entry_init i st2) i" using etx_cfg_at assms by blast
  from etx_check_cfg [OF this, of mac] c2 c3 show ?thesis
    unfolding etx_calculation_def Let_def st1_def [symmetric] st2_def [symmetric] by simp
qed

lemma etx_update_possible_cfg:
  "etx_at st i \<Longrightarrow> cache_sample_requested st \<Longrightarrow> etx_cfg (snd (etx_update_possible i t st)) = etx_cfg st"
  by (simp add: etx_update_possible_def Let_def etx_cache_upd_cfg)

lemma etx_transm_cached_cfg:
  assumes "etx_at st i" and "cache_sample_requested st"
  shows "etx_cfg (etx_transm_cached attempts success i mac st) = etx_cfg st"
proof -
  define st1 where "st1 = etx_cache_sample_update i attempts success st"
  define st2 where "st2 = etx_upd i (\<lambda>e. e\<lparr>accumulated_failures := 0\<rparr>) st1"
  define st3 where "st3 = snd (etx_update_possible i 0 st2)"
  have c1: "etx_cfg st1 = etx_cfg st" by (simp add: st1_def etx_cache_sample_update_def etx_cache_upd_cfg assms)
  then have "etx_at st1 i" using etx_cfg_at assms(1) by blast
  then have c2: "etx_cfg st2 = etx_cfg st" using etx_upd_cfg c1 by (simp add: st2_def)
  then have "etx_at st2 i" "cache_sample_requested st2" using etx_cfg_at etx_cfg_fields(1) assms by blast+
  then have c3: "etx_cfg st3 = etx_cfg st" using etx_update_possible_cfg c2 by (simp add: st3_def)
  then have a3: "etx_at st3 i" using etx_cfg_at assms(1) by blast
  from etx_calculation_cfg [OF a3] c3 show ?thesis
    unfolding etx_transm_cached_def Let_def st1_def [symmetric] st2_def [symmetric]
    by (cases "etx_update_possible i 0 st2") (simp add: st3_def)
qed

lemma etx_transm_direct_cfg:
  assumes "etx_at st i"
  shows "etx_cfg (etx_transm_direct attempts success i mac st) = etx_cfg st"
proof -
  define room where "room = (unat (accumulated_failures (etx_entry st i)) + unat attempts < 32)"
  define st1 where "st1 = (if \<not> success \<and> room
      then etx_upd i (\<lambda>e. e\<lparr>accumulated_failures := accumulated_failures e + ucast attempts\<rparr>) st else st)"
  define st2 where "st2 = (if success \<or> \<not> room then etx_upd i (\<lambda>e. e\<lparr>accumulated_failures := 0\<rparr>) st1
      else etx_accum_failures_callback_needed_check i st1)"
  have c1: "etx_cfg st1 = etx_cfg st" by (simp add: st1_def etx_upd_cfg assms)
  then have a1: "etx_at st1 i" using etx_cfg_at assms by blast
  have c2: "etx_cfg st2 = etx_cfg st" using etx_upd_cfg [OF a1] etx_accum_cfg [OF a1] c1 by (simp add: st2_def)
  then have "etx_at st2 i" using etx_cfg_at assms by blast
  from etx_calculation_cfg [OF this] c2 show ?thesis
    unfolding etx_transm_direct_def Let_def room_def [symmetric] st1_def [symmetric] st2_def [symmetric] by simp
qed

lemma etx_transm_update_cfg:
  assumes "etx_inv st"
  shows "etx_cfg (etx_transm_attempts_update if_id attempts success i mac st) = etx_cfg st"
proof (cases "etx_storage_entry_get st if_id i")
  case True
  have a: "etx_at st i" by (rule etx_entry_get_at [OF assms True])
  have drop: "etx_cfg (snd (etx_drop_bad_sample i attempts success st)) = etx_cfg st"
    by (simp add: etx_drop_bad_sample_def etx_upd_cfg [OF a])
  have step: "etx_cfg (if cache_sample_requested st' then etx_transm_cached attempts success i mac st'
      else etx_transm_direct attempts success i mac st') = etx_cfg st" if "etx_cfg st' = etx_cfg st" for st'
    using etx_transm_cached_cfg etx_transm_direct_cfg etx_cfg_at [OF that] a that by simp
  obtain b st1 where d: "etx_drop_bad_sample i attempts success st = (b, st1)" by (rule prod.exhaust)
  have "etx_cfg (etx_upd i f st1) = etx_cfg st" for f
    using drop d etx_upd_cfg etx_cfg_at [of st1 st] a by simp
  with True step drop d show ?thesis
    by (cases b) (simp_all add: etx_transm_attempts_update_def)
qed (simp add: etx_transm_attempts_update_def)

lemma etx_remote_cfg:
  assumes "etx_inv st"
  shows "etx_cfg (etx_remote_incoming_idr_update if_id idr i mac st) = etx_cfg st"
proof (cases "etx_storage_entry_get st if_id i")
  case True
  have a: "etx_at st i" by (rule etx_entry_get_at [OF assms True])
  have step: "etx_cfg (etx_upd i f st') = etx_cfg st" if "etx_cfg st' = etx_cfg st" for f st'
    using etx_upd_cfg etx_cfg_at [OF that] a that by simp
  have check: "etx_cfg (etx_value_change_callback_needed_check i mac st') = etx_cfg st"
    if "etx_cfg st' = etx_cfg st" for st'
    using etx_check_cfg etx_cfg_at [OF that] a that by simp
  show ?thesis
    using True by (simp add: etx_remote_incoming_idr_update_def Let_def step check)
qed (simp add: etx_remote_incoming_idr_update_def)

lemma etx_lqi_cfg:
  assumes "etx_inv st"
  shows "etx_cfg (snd (etx_lqi_dbm_update drv if_id lqi dbm i mac st)) = etx_cfg st"
proof (cases "etx_storage_entry_get st if_id i")
  case True
  have a: "etx_at st i" by (rule etx_entry_get_at [OF assms True])
  have step: "etx_cfg (etx_upd i f st') = etx_cfg st" if "etx_cfg st' = etx_cfg st" for f st'
    using etx_upd_cfg etx_cfg_at [OF that] a that by simp
  have check: "etx_cfg (etx_value_change_callback_needed_check i mac st') = etx_cfg st"
    if "etx_cfg st' = etx_cfg st" for st'
    using etx_check_cfg etx_cfg_at [OF that] a that by simp
  show ?thesis
    using True by (simp add: etx_lqi_dbm_update_def Let_def step check)
qed (simp add: etx_lqi_dbm_update_def Let_def)

lemma etx_remove_cfg:
  assumes "etx_inv st"
  shows "etx_cfg (etx_neighbor_remove if_id i mac st) = etx_cfg st"
proof (cases "etx_storage_entry_get st if_id i \<and> callback_ptr st")
  case True
  have a: "etx_at st i" using etx_entry_get_at [OF assms] True by blast
  have step: "etx_cfg (etx_upd i f st') = etx_cfg st" if "etx_cfg st' = etx_cfg st" for f st'
    using etx_upd_cfg etx_cfg_at [OF that] a that by simp
  have cache: "etx_cfg (etx_cache_upd i f st') = etx_cfg st"
    if "etx_cfg st' = etx_cfg st" "cache_sample_requested st'" for f st'
    using etx_cache_upd_cfg etx_cfg_at [OF that(1)] a that by simp
  show ?thesis
    using True by (simp add: etx_neighbor_remove_def Let_def step cache)
qed (auto simp: etx_neighbor_remove_def)

lemma etx_timer_cfg:
  assumes "etx_inv st" and "cache_sample_requested st"
  shows "etx_cfg (fold (etx_cache_step if_id seconds) ns st) = etx_cfg st"
  using assms
proof (induction ns arbitrary: st)
  case (Cons e ns)
  have step: "etx_cfg (etx_cache_step if_id seconds e st) = etx_cfg st"
  proof (cases "\<not> etx_storage_entry_get st if_id (index e) \<or> tmp_etx (etx_entry st (index e))")
    case False
    obtain b st1 where u: "etx_update_possible (index e) seconds st = (b, st1)" by (rule prod.exhaust)
    have a: "etx_at st (index e)" using etx_entry_get_at [OF Cons.prems(1)] False by blast
    have c: "etx_cfg st1 = etx_cfg st" using etx_update_possible_cfg [OF a Cons.prems(2), of seconds] u by simp
    then have "etx_at st1 (index e)" using etx_cfg_at a by blast
    from etx_calculation_cfg [OF this] c False u show ?thesis by (simp add: etx_cache_step_def Let_def)
  qed (auto simp: etx_cache_step_def Let_def)
  then show ?case
    using Cons.IH [of "etx_cache_step if_id seconds e st"] etx_cfg_inv [OF step] etx_cfg_fields(1) [OF step] Cons.prems
    by simp
qed simp

section \<open>Reachable states\<close>

inductive etx_reach :: "ext_info_t \<Rightarrow> bool" where
  init: "etx_reach etx_info_init"
| change_cb: "etx_reach st \<Longrightarrow> etx_reach (snd (etx_value_change_callback_register is6 if_id hyst cb st))"
| accum_cb: "etx_reach st \<Longrightarrow> etx_reach (snd (etx_accum_failures_callback_register is6 if_id threshold cb st))"
| allocate: "etx_reach st \<Longrightarrow> etx_reach (snd (etx_storage_list_allocate ok if_id n st))"
| cached: "etx_reach st \<Longrightarrow> etx_reach (snd (etx_cached_etx_parameter_set ok wait attempts count st))"
| drop: "etx_reach st \<Longrightarrow> etx_reach (snd (etx_allow_drop_for_poor_measurements level drops st))"
| max_update: "etx_reach st \<Longrightarrow> etx_reach (etx_max_update_set v st)"
| max_value: "etx_reach st \<Longrightarrow> etx_reach (etx_max_set v st)"
| transm: "etx_reach st \<Longrightarrow> etx_reach (etx_transm_attempts_update if_id attempts success i mac st)"
| remote: "etx_reach st \<Longrightarrow> etx_reach (etx_remote_incoming_idr_update if_id idr i mac st)"
| lqi: "etx_reach st \<Longrightarrow> etx_reach (snd (etx_lqi_dbm_update drv if_id lqi dbm i mac st))"
| remove: "etx_reach st \<Longrightarrow> etx_reach (etx_neighbor_remove if_id i mac st)"
| timer: "etx_reach st \<Longrightarrow> etx_reach (etx_cache_timer if_id table seconds st)"

lemma etx_reach_etx_inv: "etx_reach st \<Longrightarrow> etx_inv st"
proof (induction rule: etx_reach.induct)
  case init
  then show ?case by (simp add: etx_inv_def etx_info_init_def)
next
  case (change_cb st is6 if_id hyst cb)
  then show ?case by (auto simp: etx_inv_def etx_value_change_callback_register_def)
next
  case (accum_cb st is6 if_id threshold cb)
  then show ?case by (auto simp: etx_inv_def etx_accum_failures_callback_register_def)
next
  case (allocate st ok if_id n)
  then show ?case by (auto simp: etx_inv_def etx_storage_list_allocate_def Let_def)
next
  case (cached st ok wait attempts count)
  then show ?case by (auto simp: etx_inv_def etx_cached_etx_parameter_set_def Let_def)
next
  case (drop st level drops)
  then show ?case by (auto simp: etx_inv_def etx_allow_drop_for_poor_measurements_def)
next
  case (max_update st v)
  have "etx_cfg (etx_max_update_set v st) = etx_cfg st" by (simp add: etx_cfg_def etx_max_update_set_def)
  from etx_cfg_inv [OF this] max_update show ?case by simp
next
  case (max_value st v)
  have "etx_cfg (etx_max_set v st) = etx_cfg st" by (simp add: etx_cfg_def etx_max_set_def)
  from etx_cfg_inv [OF this] max_value show ?case by simp
next
  case (timer st if_id table seconds)
  then show ?case
    using etx_cfg_inv [OF etx_timer_cfg] by (auto simp: etx_cache_timer_def split: option.split)
qed (simp_all add: etx_cfg_inv [OF etx_transm_update_cfg] etx_cfg_inv [OF etx_remote_cfg]
    etx_cfg_inv [OF etx_lqi_cfg] etx_cfg_inv [OF etx_remove_cfg])

text \<open>
  C7: The ETX module is memory safe: whatever operations it goes through, with whatever results
  of the allocations, it never accesses an entry outside its two tables and never calls a
  callback that is not set.
\<close>

theorem etx_memory_safe:
  assumes "etx_reach st"
  shows "\<not> etx_fault st \<and>
    (\<forall>if_id i. etx_storage_entry_get st if_id i \<longrightarrow>
      (\<exists>xs. etx_storage_list st = Some xs \<and> unat i < length xs) \<and>
      (cache_sample_requested st \<longrightarrow> (\<exists>ys. etx_cache_storage_list st = Some ys \<and> unat i < length ys)))"
proof -
  have inv: "etx_inv st" by (rule etx_reach_etx_inv [OF assms])
  show ?thesis
    using inv etx_entry_get_at [OF inv]
    by (auto simp: etx_inv_def etx_at_def word_less_nat_alt split: if_splits)
qed

section \<open>The moving average\<close>

definition etx_average :: "nat \<Rightarrow> nat \<Rightarrow> bool \<Rightarrow> nat \<Rightarrow> nat \<Rightarrow> nat \<Rightarrow> nat" where
  "etx_average max_update max_value first old attempts acks =
     (let sample = (if acks = 0 then 65535 else attempts * 512 div acks);
          sample = (if max_update = 0 then sample else min max_update sample)
      in min max_value (if first then 8 * sample else sample + (old - old div 8)))"

lemma unat_ucast_u16 [simp]: "unat (ucast (x :: u16) :: u32) = unat x"
  using unat_u16_lt [of x] by (simp add: unsigned_ucast_eq take_bit_nat_eq_self)

lemma unat_ucast_u8 [simp]: "unat (ucast (x :: u8) :: u32) = unat x"
  using unat_u8_lt [of x] by (simp add: unsigned_ucast_eq take_bit_nat_eq_self)

lemma etx_sample_value:
  fixes attempts :: u16 and acks :: u8
  defines "v \<equiv> (if acks \<noteq> 0 then push_bit 9 (ucast attempts :: u32) div ucast acks else 0xffff)"
  shows "unat v = (if unat acks = 0 then 65535 else unat attempts * 512 div unat acks)" and "unat v < 33554432"
proof -
  have p: "unat (push_bit 9 (ucast attempts :: u32)) = unat attempts * 512"
    using unat_u16_lt [of attempts] by (simp add: push_bit_eq_mult unat_word_ariths)
  show v: "unat v = (if unat acks = 0 then 65535 else unat attempts * 512 div unat acks)"
    by (auto simp: v_def unat_div p word_unat_eq_iff)
  have "unat attempts * 512 div unat acks \<le> unat attempts * 512" by (rule div_le_dividend)
  moreover have "unat attempts * 512 < 33554432" using unat_u16_lt [of attempts] by simp
  ultimately have "unat attempts * 512 div unat acks < 33554432" by (rule le_less_trans)
  then show "unat v < 33554432" unfolding v by simp
qed

text \<open>
  The new value of \<open>etx_calculation\<close>, computed on 32 bits, is the moving average on natural
  numbers: an eighth of the attempts per acknowledgement (in 12-bit fractions, limited by the
  maximal update) plus seven eighths of the old value, or the sample itself for the first
  values of a cached link, limited by the maximal value. No intermediate result wraps around.
\<close>

lemma etx_new_value_average:
  "unat (etx_new_value st entry attempts acks) =
     etx_average (unat (max_update_etx st)) (unat (max_etx st))
       (cache_sample_requested st \<and> unat (etx_samples entry) \<le> unat (init_etx_sample_count st))
       (unat (etx entry)) (unat attempts) (unat acks)"
proof -
  define v where "v = (if acks \<noteq> 0 then push_bit 9 (ucast attempts :: u32) div ucast acks else 0xffff)"
  note V = etx_sample_value [of acks attempts, folded v_def]
  define w where "w = (if max_update_etx st \<noteq> 0 \<and> v > max_update_etx st then max_update_etx st else v)"
  have w: "unat w = (if unat (max_update_etx st) = 0 then unat v else min (unat (max_update_etx st)) (unat v))"
    by (auto simp: w_def word_less_nat_alt word_unat_eq_iff)
  then have w_lt: "unat w < 33554432" using V(2) by (auto simp: min_def)
  have "ucast (drop_bit 3 (etx entry)) \<le> (ucast (etx entry) :: u32)"
    by (simp add: word_le_nat_alt drop_bit_eq_div unat_div)
  then have old: "unat ((ucast (etx entry) :: u32) - ucast (drop_bit 3 (etx entry))) =
      unat (etx entry) - unat (etx entry) div 8"
    by (simp add: unat_diff_le drop_bit_eq_div unat_div)
  define u where "u = (if cache_sample_requested st \<and> unat (etx_samples entry) \<le> unat (init_etx_sample_count st)
      then push_bit 3 w else w + (ucast (etx entry) - ucast (drop_bit 3 (etx entry))))"
  have u: "unat u = (if cache_sample_requested st \<and> unat (etx_samples entry) \<le> unat (init_etx_sample_count st)
      then 8 * unat w else unat w + (unat (etx entry) - unat (etx entry) div 8))"
    using w_lt unat_u16_lt [of "etx entry"] by (simp add: u_def push_bit_eq_mult unat_word_ariths old)
  have eq: "etx_new_value st entry attempts acks = (if u > max_etx st then max_etx st else u)"
  proof -
    have nine: "(12 :: nat) - 3 = 9" by simp
    show ?thesis unfolding etx_new_value_def Let_def nine u_def w_def v_def by (rule refl)
  qed
  show ?thesis
    unfolding eq etx_average_def Let_def using u by (simp add: w V(1) word_less_nat_alt min_def)
qed

section \<open>Reports\<close>

text \<open>
  A value change is reported exactly when the current value differs from the last reported
  one by the hysteresis or reaches the maximum; afterwards the stored value, which is what was
  reported last, differs from the current one by less than the hysteresis.
\<close>

lemma etx_change_reported:
  fixes st :: ext_info_t and i :: u8 and mac :: bytes
  assumes "etx_reach st" and "etx_storage_entry_get st if_id i" and "hysteresis st \<noteq> 0"
  defines "st' \<equiv> etx_value_change_callback_needed_check i mac st"
    and "current \<equiv> etx_current_calc (etx (etx_entry st i)) (accumulated_failures (etx_entry st i))"
    and "stored \<equiv> stored_diff_etx (etx_entry st i)"
  shows "etx_events st' = etx_events st @ (if etx_change_needed st current stored
      then [Etx_change (etx_interface_id st) (drop_bit 4 stored) (drop_bit 4 current) i mac] else []) \<and>
    etx_entry st' i = (etx_entry st i)\<lparr>stored_diff_etx :=
      (if etx_change_needed st current stored then current else stored)\<rparr> \<and>
    \<bar>uint current - uint (stored_diff_etx (etx_entry st' i))\<bar> < uint (hysteresis st)"
proof -
  have inv: "etx_inv st" by (rule etx_reach_etx_inv [OF assms(1)])
  have cb: "callback_ptr st" using inv assms(3) by (simp add: etx_inv_def)
  obtain xs where xs: "etx_storage_list st = Some xs" "unat i < length xs"
    using etx_entry_get_at [OF inv assms(2)]
    by (auto simp: etx_inv_def etx_at_def word_less_nat_alt split: if_splits)
  have st': "st' = (if etx_change_needed st current stored
      then etx_upd i (\<lambda>e. e\<lparr>stored_diff_etx := current\<rparr>) (st\<lparr>etx_events := etx_events st @
        [Etx_change (etx_interface_id st) (drop_bit 4 stored) (drop_bit 4 current) i mac]\<rparr>) else st)"
    using assms(3) cb by (simp add: st'_def etx_value_change_callback_needed_check_def Let_def current_def stored_def)
  have hy: "0 < uint (hysteresis st)" using assms(3) by (simp add: word_neq_0_conv word_less_def)
  have small: "\<bar>uint current - uint stored\<bar> < uint (hysteresis st)" if "\<not> etx_change_needed st current stored"
  proof (cases "current > stored")
    case True
    with that have "current - stored < hysteresis st" by (simp add: etx_change_needed_def not_le)
    with True show ?thesis by (simp add: word_less_def uint_minus_simple_alt [THEN iffD1] word_le_def)
  next
    case False
    with that hy show ?thesis
      by (cases "current < stored")
        (simp_all add: etx_change_needed_def not_le word_less_def uint_minus_simple_alt [THEN iffD1] word_le_def)
  qed
  show ?thesis
    using xs small hy by (simp add: st' etx_upd_def etx_entry_def stored_def)
qed

text \<open>
  When the storage is resized while cached sampling is on, the sample table stays allocated and
  sampling goes off; setting the parameters again succeeds without turning it on.
\<close>

lemma etx_resize_disables_cache:
  fixes if_id :: "8 word" and n :: u8 and st :: ext_info_t
  assumes "etx_cache_storage_list st \<noteq> None" and "n \<noteq> 0" and "n \<noteq> ext_storage_list_size st"
    and "min_wait_time \<noteq> 0" and "init_count \<noteq> 0"
  defines "st' \<equiv> snd (etx_storage_list_allocate True if_id n st)"
  shows "fst (etx_cached_etx_parameter_set ok min_wait_time attempts init_count st')"
    and "\<not> cache_sample_requested (snd (etx_cached_etx_parameter_set ok min_wait_time attempts init_count st'))"
  using assms(1-5) by (auto simp: st'_def etx_storage_list_allocate_def etx_cached_etx_parameter_set_def Let_def)

section \<open>Witnesses\<close>

text \<open>Two links, hysteresis 0.5, the second link measured by its signal level.\<close>

definition etx_st_example :: ext_info_t where
  "etx_st_example = snd (etx_lqi_dbm_update (\<lambda>_ _. None) 1 0 (-90) 1 (replicate 8 7)
     (snd (etx_value_change_callback_register True 1 128 True
       (snd (etx_storage_list_allocate True 1 2 etx_info_init)))))"

lemma etx_st_example_reach: "etx_reach etx_st_example"
  unfolding etx_st_example_def
  by (rule etx_reach.lqi, rule etx_reach.change_cb, rule etx_reach.allocate, rule etx_reach.init)

theorem etx_memory_safe_witness:
  "\<not> etx_fault (etx_transm_attempts_update 1 4 True 1 (replicate 8 7) etx_st_example)"
  using etx_memory_safe [OF etx_reach.transm [OF etx_st_example_reach, of 1 4 True 1 "replicate 8 7"]] by blast

end
