(* ===== verification/ChannelPlan.thy ===== *)
theory ChannelPlan
  imports Prelude
begin

text \<open>
  Channel plans of \<open>6LoWPAN/ws/ws_common.c\<close>: how many channels a regulatory domain has, which of
  them may be used, and the data rates of the PHY modes. The numbers behind the names of the
  domains, spacings, modes and OFDM options are defined outside of the repository, so that the
  names are constructors here, with one more for every other value.

  A channel mask is an array of eight 32-bit words; an access behind its end has the result \<open>None\<close>.
\<close>

declare upt_rec_numeral [simp del]

section \<open>Data\<close>

datatype reg_domain_e =
    REG_DOMAIN_KR | REG_DOMAIN_EU | REG_DOMAIN_IN | REG_DOMAIN_NA | REG_DOMAIN_JP | REG_DOMAIN_WW
  | REG_DOMAIN_BZ | REG_DOMAIN_OTHER

datatype channel_spacing_e =
    CHANNEL_SPACING_100 | CHANNEL_SPACING_200 | CHANNEL_SPACING_250 | CHANNEL_SPACING_400
  | CHANNEL_SPACING_600 | CHANNEL_SPACING_800 | CHANNEL_SPACING_1200 | CHANNEL_SPACING_OTHER

datatype operating_mode_e =
    OPERATING_MODE_1a | OPERATING_MODE_1b | OPERATING_MODE_2a | OPERATING_MODE_2b | OPERATING_MODE_3
  | OPERATING_MODE_4a | OPERATING_MODE_4b | OPERATING_MODE_5 | OPERATING_MODE_OTHER

datatype ofdm_option_e = OFDM_OPTION_1 | OFDM_OPTION_2 | OFDM_OPTION_3 | OFDM_OPTION_4

datatype ofdm_mcs_e = OFDM_MCS_2 | OFDM_MCS_3 | OFDM_MCS_4 | OFDM_MCS_5 | OFDM_MCS_6

datatype phy_modulation_index_e = MODULATION_INDEX_0_5 | MODULATION_INDEX_1_0

record ws_hopping_schedule_t =
  fhss_uc_dwell_interval :: u8
  fhss_bc_dwell_interval :: u8
  regulatory_domain :: reg_domain_e
  operating_class :: u8
  operating_mode :: operating_mode_e
  phy_mode_id :: u8
  channel_plan_id :: u8
  channel_plan :: u8
  uc_channel_function :: u8
  bc_channel_function :: u8
  channel_spacing :: channel_spacing_e
  number_of_channels :: u8
  clock_drift :: u8
  timing_accurancy :: u8
  uc_fixed_channel :: u16
  bc_fixed_channel :: u16
  fhss_bsi :: u16
  fhss_broadcast_interval :: u32
  ch0_freq :: u32

section \<open>Channel masks\<close>

definition ws_disable_channels_in_range :: "u16 \<Rightarrow> u16 \<Rightarrow> u16 \<Rightarrow> u32 list \<Rightarrow> u32 list option" where
  "ws_disable_channels_in_range n range_start range_stop =
     fold_opt (\<lambda>i chm.
       if i \<ge> unat range_start \<and> i \<le> unat range_stop
       then if i div 32 < length chm
            then Some (chm[i div 32 := chm ! (i div 32) AND NOT (push_bit (i mod 32) 1)]) else None
       else Some chm) [0..<unat n]"

text \<open>The ranges of the calls of \<open>ws_disable_channels_in_range\<close>, in their order.\<close>

definition ws_disabled_ranges :: "reg_domain_e \<Rightarrow> u8 \<Rightarrow> u8 \<Rightarrow> (u16 \<times> u16) list" where
  "ws_disabled_ranges rd op_class plan_id =
     (if rd = REG_DOMAIN_NA
      then if plan_id = 1 then [(1, 7)] else if plan_id = 5 then [(5, 7)] else []
      else []) @
     (if rd = REG_DOMAIN_BZ
      then if plan_id = 255
           then if op_class = 1 then [(26, 64)] else if op_class = 2 then [(12, 32)]
                else if op_class = 3 then [(7, 21)] else []
           else if plan_id = 1 then [(1, 7), (64, 64), (72, 103), (106, 111)]
           else if plan_id = 2 then [(24, 24), (32, 47), (52, 55)]
           else if plan_id = 5 then [(5, 10), (19, 23)]
           else []
      else [])"

definition ws_generate_channel_list ::
    "u16 \<Rightarrow> reg_domain_e \<Rightarrow> u8 \<Rightarrow> u8 \<Rightarrow> u32 list \<Rightarrow> u32 list option" where
  "ws_generate_channel_list n rd op_class plan_id chm =
     (let chm = fold (\<lambda>i chm. chm[i := 0]) [0..<8] chm in
      case fold_opt (\<lambda>i chm.
             if i div 32 < length chm
             then Some (chm[i div 32 := chm ! (i div 32) OR push_bit (i mod 32) 1]) else None)
           [0..<unat n] chm of
        None \<Rightarrow> None
      | Some chm \<Rightarrow>
          fold_opt (\<lambda>(a, b) chm. ws_disable_channels_in_range n a b chm)
            (ws_disabled_ranges rd op_class plan_id) chm)"

definition ws_active_channel_count :: "u32 list \<Rightarrow> u16 \<Rightarrow> u16 option" where
  "ws_active_channel_count chm n =
     fold_opt (\<lambda>i count.
       if i div 32 < length chm
       then Some (if chm ! (i div 32) AND push_bit (i mod 32) 1 \<noteq> 0 then count + 1 else count) else None)
       [0..<unat n] 0"

section \<open>Tables\<close>

definition ws_decode_channel_spacing :: "channel_spacing_e \<Rightarrow> u32" where
  "ws_decode_channel_spacing spacing =
     (if CHANNEL_SPACING_100 = spacing then 100000
      else if CHANNEL_SPACING_200 = spacing then 200000
      else if CHANNEL_SPACING_250 = spacing then 250000
      else if CHANNEL_SPACING_400 = spacing then 400000
      else if CHANNEL_SPACING_600 = spacing then 600000
      else if CHANNEL_SPACING_800 = spacing then 800000
      else if CHANNEL_SPACING_1200 = spacing then 1200000
      else 0)"

definition ws_get_datarate_using_operating_mode :: "operating_mode_e \<Rightarrow> u32" where
  "ws_get_datarate_using_operating_mode mode =
     (if mode = OPERATING_MODE_1a \<or> mode = OPERATING_MODE_1b then 50000
      else if mode = OPERATING_MODE_2a \<or> mode = OPERATING_MODE_2b then 100000
      else if mode = OPERATING_MODE_3 then 150000
      else if mode = OPERATING_MODE_4a \<or> mode = OPERATING_MODE_4b then 200000
      else if mode = OPERATING_MODE_5 then 300000
      else 0)"

definition ws_get_datarate_using_phy_mode_id :: "u8 \<Rightarrow> u32" where
  "ws_get_datarate_using_phy_mode_id m =
     (if m = 84 then 150000
      else if m = 85 then 200000
      else if m = 68 \<or> m = 86 then 300000
      else if m = 34 \<or> m = 51 \<or> m = 69 then 400000
      else if m = 52 \<or> m = 70 then 600000
      else if m = 35 \<or> m = 53 then 800000
      else if m = 36 \<or> m = 54 then 1200000
      else if m = 37 then 1600000
      else if m = 38 then 2400000
      else 0)"

text \<open>\<open>None\<close> is the result 0.\<close>

definition ws_get_ofdm_option_using_phy_mode_id :: "u8 \<Rightarrow> ofdm_option_e option" where
  "ws_get_ofdm_option_using_phy_mode_id m =
     (if m \<ge> 34 \<and> m \<le> 38 then Some OFDM_OPTION_1
      else if m \<ge> 51 \<and> m \<le> 54 then Some OFDM_OPTION_2
      else if m \<ge> 68 \<and> m \<le> 70 then Some OFDM_OPTION_3
      else if m \<ge> 84 \<and> m \<le> 86 then Some OFDM_OPTION_4
      else None)"

definition ws_get_ofdm_mcs_using_phy_mode_id :: "u8 \<Rightarrow> ofdm_mcs_e option" where
  "ws_get_ofdm_mcs_using_phy_mode_id m =
     (if m = 34 then Some OFDM_MCS_2
      else if m = 35 \<or> m = 51 then Some OFDM_MCS_3
      else if m = 36 \<or> m = 52 \<or> m = 68 \<or> m = 84 then Some OFDM_MCS_4
      else if m = 37 \<or> m = 53 \<or> m = 69 \<or> m = 85 then Some OFDM_MCS_5
      else if m = 38 \<or> m = 54 \<or> m = 70 \<or> m = 86 then Some OFDM_MCS_6
      else None)"

definition ws_get_modulation_index_using_operating_mode :: "operating_mode_e \<Rightarrow> phy_modulation_index_e" where
  "ws_get_modulation_index_using_operating_mode mode =
     (if mode = OPERATING_MODE_1b \<or> mode = OPERATING_MODE_2b \<or> mode = OPERATING_MODE_4b
      then MODULATION_INDEX_1_0 else MODULATION_INDEX_0_5)"

definition ofdm_phy_mode :: "u8 \<Rightarrow> bool" where
  "ofdm_phy_mode m \<longleftrightarrow> (m \<ge> 34 \<and> m \<le> 38) \<or> (m \<ge> 51 \<and> m \<le> 54) \<or> (m \<ge> 68 \<and> m \<le> 70) \<or> (m \<ge> 84 \<and> m \<le> 86)"

definition ws_common_datarate_get_from_phy_mode :: "u8 \<Rightarrow> operating_mode_e \<Rightarrow> u32" where
  "ws_common_datarate_get_from_phy_mode m mode =
     (if ofdm_phy_mode m then ws_get_datarate_using_phy_mode_id m
      else ws_get_datarate_using_operating_mode mode)"

definition ws_common_datarate_get :: "ws_hopping_schedule_t \<Rightarrow> u32" where
  "ws_common_datarate_get sched = ws_common_datarate_get_from_phy_mode (phy_mode_id sched) (operating_mode sched)"

definition ws_common_usable_application_datarate_get :: "ws_hopping_schedule_t \<Rightarrow> u32" where
  "ws_common_usable_application_datarate_get sched =
     70 * ws_common_datarate_get_from_phy_mode (phy_mode_id sched) (operating_mode sched) div 100"

definition ws_common_channel_number_calc :: "reg_domain_e \<Rightarrow> u8 \<Rightarrow> u8 \<Rightarrow> u16" where
  "ws_common_channel_number_calc rd op_class plan_id =
     (case rd of
        REG_DOMAIN_KR \<Rightarrow> if op_class = 1 then 32 else if op_class = 2 then 16 else 0
      | REG_DOMAIN_EU \<Rightarrow> if op_class = 1 then 69 else if op_class = 2 then 35
                        else if op_class = 3 then 55 else if op_class = 4 then 27 else 0
      | REG_DOMAIN_IN \<Rightarrow> if op_class = 1 then 19 else if op_class = 2 then 10 else 0
      | REG_DOMAIN_NA \<Rightarrow>
          if plan_id = 255
          then if op_class = 1 then 129 else if op_class = 2 then 64 else if op_class = 3 then 42 else 0
          else if plan_id = 1 then 136 else if plan_id = 2 then 64 else if plan_id = 5 then 24 else 0
      | REG_DOMAIN_JP \<Rightarrow> if op_class = 1 then 38 else if op_class = 2 then 18 else if op_class = 3 then 12 else 0
      | REG_DOMAIN_BZ \<Rightarrow>
          if plan_id = 255
          then if op_class = 1 then 129 else if op_class = 2 then 64 else if op_class = 3 then 42 else 0
          else if plan_id = 1 then 136 else if plan_id = 2 then 64 else if plan_id = 5 then 24 else 0
      | REG_DOMAIN_WW \<Rightarrow> if op_class = 1 then 416 else if op_class = 2 then 207 else 0
      | REG_DOMAIN_OTHER \<Rightarrow> 0)"

section \<open>Configuration of the regulatory domain\<close>

definition ws_phy_mode_valid :: "u8 \<Rightarrow> bool" where
  "ws_phy_mode_valid m =
     (if m \<noteq> 255
      then
        if drop_bit 4 m > 5 then False
        else if drop_bit 4 m \<ge> 2 \<and> m AND 0x0f > 6 then False
        else if m = 0 \<or> (m > 8 \<and> m < 17) \<or> m > 24
        then if ofdm_phy_mode m
             then \<not> (ws_get_datarate_using_phy_mode_id m = 0 \<or> ws_get_ofdm_option_using_phy_mode_id m = None
                     \<or> ws_get_ofdm_mcs_using_phy_mode_id m = None)
             else False
        else True
      else True)"

text \<open>Frequency of the first channel and spacing; \<open>None\<close> when the class or the plan is unknown.\<close>

definition ws_channel_base :: "reg_domain_e \<Rightarrow> u8 \<Rightarrow> u8 \<Rightarrow> (u32 \<times> channel_spacing_e) option" where
  "ws_channel_base rd op_class plan_id =
     (case rd of
        REG_DOMAIN_KR \<Rightarrow>
          if op_class = 1 then Some (9171, CHANNEL_SPACING_200)
          else if op_class = 2 then Some (9173, CHANNEL_SPACING_400) else None
      | REG_DOMAIN_EU \<Rightarrow>
          if op_class = 1 then Some (8631, CHANNEL_SPACING_100)
          else if op_class = 2 then Some (8631, CHANNEL_SPACING_200)
          else if op_class = 3 then Some (8701, CHANNEL_SPACING_100)
          else if op_class = 4 then Some (8702, CHANNEL_SPACING_200) else None
      | REG_DOMAIN_IN \<Rightarrow>
          if op_class = 1 then Some (8651, CHANNEL_SPACING_100)
          else if op_class = 2 then Some (8651, CHANNEL_SPACING_200) else None
      | REG_DOMAIN_NA \<Rightarrow>
          if plan_id = 255
          then if op_class = 1 then Some (9022, CHANNEL_SPACING_200)
               else if op_class = 2 then Some (9024, CHANNEL_SPACING_400)
               else if op_class = 3 then Some (9026, CHANNEL_SPACING_600) else None
          else if plan_id = 1 then Some (9022, CHANNEL_SPACING_200)
          else if plan_id = 2 then Some (9024, CHANNEL_SPACING_400)
          else if plan_id = 5 then Some (9032, CHANNEL_SPACING_1200) else None
      | REG_DOMAIN_BZ \<Rightarrow>
          if plan_id = 255
          then if op_class = 1 then Some (9022, CHANNEL_SPACING_200)
               else if op_class = 2 then Some (9024, CHANNEL_SPACING_400)
               else if op_class = 3 then Some (9026, CHANNEL_SPACING_600) else None
          else if plan_id = 1 then Some (9022, CHANNEL_SPACING_200)
          else if plan_id = 2 then Some (9024, CHANNEL_SPACING_400)
          else if plan_id = 5 then Some (9032, CHANNEL_SPACING_1200) else None
      | REG_DOMAIN_JP \<Rightarrow>
          if op_class = 1 then Some (9206, CHANNEL_SPACING_200)
          else if op_class = 2 then Some (9209, CHANNEL_SPACING_400)
          else if op_class = 3 then Some (9208, CHANNEL_SPACING_600) else None
      | REG_DOMAIN_WW \<Rightarrow>
          if op_class = 1 then Some (24002, CHANNEL_SPACING_200)
          else if op_class = 2 then Some (24004, CHANNEL_SPACING_400) else None
      | REG_DOMAIN_OTHER \<Rightarrow> None)"

definition ws_common_regulatory_domain_config :: "ws_hopping_schedule_t \<Rightarrow> int \<times> ws_hopping_schedule_t" where
  "ws_common_regulatory_domain_config sched =
     (if ws_common_datarate_get_from_phy_mode (phy_mode_id sched) (operating_mode sched) = 0 then (-1, sched)
      else if \<not> ws_phy_mode_valid (phy_mode_id sched) then (-1, sched)
      else
        let sched = sched\<lparr>channel_plan := 0\<rparr> in
        case ws_channel_base (regulatory_domain sched) (operating_class sched) (channel_plan_id sched) of
          None \<Rightarrow> (-1, sched)
        | Some (freq, spacing) \<Rightarrow>
            let n = ucast (ws_common_channel_number_calc (regulatory_domain sched) (operating_class sched)
                      (channel_plan_id sched));
                sched = sched\<lparr>ch0_freq := freq, channel_spacing := spacing, number_of_channels := n\<rparr>
            in if n = 0 then (-1, sched) else (0, sched))"

section \<open>What the masks contain\<close>

definition channel_on :: "u32 list \<Rightarrow> nat \<Rightarrow> bool" where
  "channel_on chm i \<longleftrightarrow> i div 32 < length chm \<and> bit (chm ! (i div 32)) (i mod 32)"

lemma channel_on_update:
  assumes "i div 32 < length chm" and "\<And>b. b < 32 \<Longrightarrow> bit w b = (if b = i mod 32 then v else bit (chm ! (i div 32)) b)"
  shows "channel_on (chm[i div 32 := w]) j = (if j = i then v else channel_on chm j)"
proof -
  have ij: "j = i \<longleftrightarrow> j div 32 = i div 32 \<and> j mod 32 = i mod 32" by (metis div_mult_mod_eq)
  have "j mod 32 < 32" by simp
  with assms show ?thesis by (auto simp: channel_on_def nth_list_update ij)
qed

lemma bit_u32_exp: "bit (2 ^ k :: u32) b = (b < 32 \<and> k = b)"
  by (auto simp: bit_exp_iff possible_bit_def)

lemma channel_on_set:
  assumes "i div 32 < length chm"
  shows "channel_on (chm[i div 32 := chm ! (i div 32) OR push_bit (i mod 32) 1]) j = (j = i \<or> channel_on chm j)"
  using channel_on_update [OF assms, of "chm ! (i div 32) OR push_bit (i mod 32) 1" True j]
  by (auto simp: bit_or_iff bit_u32_exp)

lemma channel_on_clear:
  assumes "i div 32 < length chm"
  shows "channel_on (chm[i div 32 := chm ! (i div 32) AND NOT (push_bit (i mod 32) 1)]) j = (j \<noteq> i \<and> channel_on chm j)"
  using channel_on_update [OF assms, of "chm ! (i div 32) AND NOT (push_bit (i mod 32) 1)" False j]
  by (auto simp: bit_and_iff bit_not_iff bit_u32_exp)

lemma channel_test: "(w AND push_bit b 1 \<noteq> (0 :: u32)) = bit w b" if "b < 32"
  using that by (simp add: and_exp_eq_0_iff_not_bit)

lemma upt_split_at: "k < n \<Longrightarrow> [0..<n] = [0..<k] @ k # [Suc k..<n]"
  using upt_add_eq_append [of 0 k "n - k"] by (simp add: upt_conv_Cons)

text \<open>The loops over the channels.\<close>

lemma channels_enable:
  assumes "k \<le> 32 * length chm"
  shows "\<exists>m. fold_opt (\<lambda>i chm. if i div 32 < length chm
             then Some (chm[i div 32 := chm ! (i div 32) OR push_bit (i mod 32) 1]) else None) [0..<k] chm = Some m \<and>
    length m = length chm \<and> (\<forall>j. channel_on m j = (j < k \<or> channel_on chm j))"
  using assms
proof (induction k)
  case (Suc k)
  then obtain m where m: "fold_opt (\<lambda>i chm. if i div 32 < length chm
             then Some (chm[i div 32 := chm ! (i div 32) OR push_bit (i mod 32) 1]) else None) [0..<k] chm = Some m"
    "length m = length chm" "\<And>j. channel_on m j = (j < k \<or> channel_on chm j)"
    by auto
  have "k div 32 < length m" using Suc.prems m(2) by linarith
  then have "fold_opt (\<lambda>i chm. if i div 32 < length chm
             then Some (chm[i div 32 := chm ! (i div 32) OR push_bit (i mod 32) 1]) else None) [0..<Suc k] chm =
      Some (m[k div 32 := m ! (k div 32) OR push_bit (k mod 32) 1])" (is "_ = Some ?m'")
    using m(1) by (simp add: fold_opt_append)
  moreover have "length ?m' = length chm" using m(2) by simp
  moreover have "\<forall>j. channel_on ?m' j = (j < Suc k \<or> channel_on chm j)"
    unfolding channel_on_set [OF \<open>k div 32 < length m\<close>] m(3) by (auto simp: less_Suc_eq)
  ultimately show ?case by blast
qed simp

lemma channels_disable:
  assumes "unat n \<le> 32 * length chm"
  shows "\<exists>m. ws_disable_channels_in_range n a b chm = Some m \<and> length m = length chm \<and>
    (\<forall>j. channel_on m j = (channel_on chm j \<and> \<not> (j < unat n \<and> unat a \<le> j \<and> j \<le> unat b)))"
proof -
  have "\<exists>m. fold_opt (\<lambda>i chm.
       if i \<ge> unat a \<and> i \<le> unat b
       then if i div 32 < length chm
            then Some (chm[i div 32 := chm ! (i div 32) AND NOT (push_bit (i mod 32) 1)]) else None
       else Some chm) [0..<k] chm = Some m \<and> length m = length chm \<and>
    (\<forall>j. channel_on m j = (channel_on chm j \<and> \<not> (j < k \<and> unat a \<le> j \<and> j \<le> unat b)))"
    if "k \<le> 32 * length chm" for k
    using that
  proof (induction k)
    case (Suc k)
    then obtain m where m: "fold_opt (\<lambda>i chm.
       if i \<ge> unat a \<and> i \<le> unat b
       then if i div 32 < length chm
            then Some (chm[i div 32 := chm ! (i div 32) AND NOT (push_bit (i mod 32) 1)]) else None
       else Some chm) [0..<k] chm = Some m" "length m = length chm"
      "\<And>j. channel_on m j = (channel_on chm j \<and> \<not> (j < k \<and> unat a \<le> j \<and> j \<le> unat b))"
      by auto
    have "k div 32 < length m" using Suc.prems m(2) by linarith
    then show ?case using m channel_on_clear [of k m] by (auto simp: fold_opt_append less_Suc_eq)
  qed simp
  with assms show ?thesis unfolding ws_disable_channels_in_range_def by blast
qed

lemma channels_disable_all:
  assumes "unat n \<le> 32 * length chm"
  shows "\<exists>m. fold_opt (\<lambda>(a, b) chm. ws_disable_channels_in_range n a b chm) rs chm = Some m \<and>
    length m = length chm \<and>
    (\<forall>j. channel_on m j = (channel_on chm j \<and> \<not> (j < unat n \<and> (\<exists>(a, b) \<in> set rs. unat a \<le> j \<and> j \<le> unat b))))"
  using assms
proof (induction rs arbitrary: chm)
  case (Cons r rs)
  obtain a b where r: "r = (a, b)" by (rule prod.exhaust)
  from channels_disable [OF Cons.prems] obtain m where m: "ws_disable_channels_in_range n a b chm = Some m"
    "length m = length chm" "\<And>j. channel_on m j = (channel_on chm j \<and> \<not> (j < unat n \<and> unat a \<le> j \<and> j \<le> unat b))"
    by blast
  from Cons.IH [of m] Cons.prems m show ?case by (auto simp: r)
qed simp

lemma channels_count:
  assumes "unat n \<le> 32 * length chm"
  shows "ws_active_channel_count chm n = Some (word_of_nat (card {j. j < unat n \<and> channel_on chm j}))"
proof -
  have "fold_opt (\<lambda>i count. if i div 32 < length chm
       then Some (if chm ! (i div 32) AND push_bit (i mod 32) 1 \<noteq> 0 then count + 1 else count) else None)
       [0..<k] (0 :: u16) = Some (word_of_nat (card {j. j < k \<and> channel_on chm j}))"
    if "k \<le> 32 * length chm" for k
    using that
  proof (induction k)
    case (Suc k)
    have "k div 32 < length chm" using Suc.prems by linarith
    then have on: "channel_on chm k = (chm ! (k div 32) AND push_bit (k mod 32) 1 \<noteq> 0)"
      using channel_test [of "k mod 32" "chm ! (k div 32)"] by (simp add: channel_on_def)
    have "{j. j < Suc k \<and> channel_on chm j} =
        (if channel_on chm k then insert k {j. j < k \<and> channel_on chm j} else {j. j < k \<and> channel_on chm j})"
      by (auto simp: less_Suc_eq)
    with Suc on \<open>k div 32 < length chm\<close> show ?case by (simp add: fold_opt_append)
  qed simp
  with assms show ?thesis unfolding ws_active_channel_count_def by blast
qed

text \<open>
  The channel list of a domain with at most 256 channels has exactly its channels without
  those the regulations of the domain disable, and \<open>ws_active_channel_count\<close> counts them. For more
  channels the function writes behind the end of the mask.
\<close>

lemma ws_generate_channel_list_spec:
  assumes "length chm = 8"
  shows "if unat n \<le> 256
    then \<exists>m. ws_generate_channel_list n rd op_class plan_id chm = Some m \<and> length m = 8 \<and>
      (\<forall>j. channel_on m j \<longleftrightarrow> j < unat n \<and>
        \<not> (\<exists>(a, b) \<in> set (ws_disabled_ranges rd op_class plan_id). unat a \<le> j \<and> j \<le> unat b)) \<and>
      ws_active_channel_count m n = Some (word_of_nat (card {j. channel_on m j}))
    else ws_generate_channel_list n rd op_class plan_id chm = None"
proof -
  let ?zero = "fold (\<lambda>i chm. chm[i := 0]) [0..<8] chm"
  let ?dis = "\<lambda>j. \<exists>(a, b) \<in> set (ws_disabled_ranges rd op_class plan_id). unat a \<le> j \<and> j \<le> unat b"
  let ?on = "\<lambda>i (chm :: u32 list). if i div 32 < length chm
      then Some (chm[i div 32 := chm ! (i div 32) OR push_bit (i mod 32) 1]) else None"
  have zero: "?zero = replicate 8 0"
    using assms by (simp add: upt_rec list_eq_iff_nth_eq nth_list_update)
  have off: "\<not> channel_on (replicate 8 0) j" for j by (simp add: channel_on_def)
  show ?thesis
  proof (cases "unat n \<le> 256")
    case True
    from channels_enable [of "unat n" "replicate 8 0"] True off
    obtain m1 where m1: "fold_opt ?on [0..<unat n] (replicate 8 0) = Some m1" "length m1 = 8"
      "\<And>j. channel_on m1 j = (j < unat n)" by auto
    have "unat n \<le> 32 * length m1" using True m1(2) by simp
    from channels_disable_all [OF this, of "ws_disabled_ranges rd op_class plan_id"]
    obtain m where m: "fold_opt (\<lambda>(a, b) chm. ws_disable_channels_in_range n a b chm)
        (ws_disabled_ranges rd op_class plan_id) m1 = Some m" "length m = length m1"
      "\<forall>j. channel_on m j = (channel_on m1 j \<and> \<not> (j < unat n \<and> ?dis j))"
      by blast
    have on: "channel_on m j \<longleftrightarrow> j < unat n \<and> \<not> ?dis j" for j
      using m(3) [rule_format, of j] m1(3) [of j] by argo
    have gen: "ws_generate_channel_list n rd op_class plan_id chm = Some m"
      unfolding ws_generate_channel_list_def Let_def zero by (simp add: m1(1) m(1))
    have "{j. j < unat n \<and> channel_on m j} = {j. channel_on m j}" using on by blast
    then have cnt: "ws_active_channel_count m n = Some (word_of_nat (card {j. channel_on m j}))"
      using channels_count [of n m] True m(2) m1(2) by simp
    show ?thesis
      unfolding if_P [OF True] by (intro exI [of _ m] conjI allI gen cnt on) (simp add: m(2) m1(2))
  next
    case False
    then have "[0..<unat n] = [0..<256] @ 256 # [Suc 256..<unat n]" by (intro upt_split_at) simp
    moreover obtain m1 where "fold_opt ?on [0..<256] (replicate 8 0) = Some m1" "length m1 = 8"
      using channels_enable [of 256 "replicate 8 0"] by auto
    ultimately have "fold_opt ?on [0..<unat n] (replicate 8 0) = None"
      by (simp only: fold_opt_append option.case fold_opt.simps) simp
    with False show ?thesis unfolding ws_generate_channel_list_def Let_def zero by simp
  qed
qed

end
