(* ===== verification/WsNeighbor.thy ===== *)
theory WsNeighbor
  imports ChannelPlan
begin

text \<open>
  What a Wi-SUN node knows of its neighbours, \<open>6LoWPAN/ws/ws_neighbor_class.c\<close>: hopping schedules
  with their channel lists, signal levels and the candidate parents. The entries are indexed like
  those of the MAC neighbour table. The timing structures (\<open>fhss_ws_neighbor_timing_info_t\<close>) are
  declared outside of the repository; the records have the fields this code uses. The reads of
  multi-byte numbers are parameters. The trace of the clock drift
  (\<open>ws_neighbor_calculate_ufsi_drift\<close>) is left out. \<open>None\<close> is an access outside an array.
\<close>

section \<open>Data\<close>

abbreviation RSL_UNITITIALIZED :: u16 where "RSL_UNITITIALIZED \<equiv> 0x7fff"
abbreviation WS_RSL_SCALING :: nat where "WS_RSL_SCALING \<equiv> 3"
abbreviation CAND_PARENT_THRESHOLD :: int where "CAND_PARENT_THRESHOLD \<equiv> 10"
abbreviation CAND_PARENT_HYSTERISIS :: int where "CAND_PARENT_HYSTERISIS \<equiv> 3"
abbreviation WS_EXC_CHAN_CTRL_NONE :: "2 word" where "WS_EXC_CHAN_CTRL_NONE \<equiv> 0"
abbreviation WS_EXC_CHAN_CTRL_RANGE :: "2 word" where "WS_EXC_CHAN_CTRL_RANGE \<equiv> 1"
abbreviation WS_EXC_CHAN_CTRL_BITMASK :: "2 word" where "WS_EXC_CHAN_CTRL_BITMASK \<equiv> 2"

datatype ws_channel_functions_e = WS_FIXED_CHANNEL | WS_TR51CF | WS_DH1CF | WS_VENDOR_DEF_CF

record ws_channel_mask_t =
  channel_mask :: "u32 list"
  channel_count :: u16

record uc_timing_info_t =
  utt_rx_timestamp :: u32
  uc_ufsi :: u32
  unicast_channel_function :: ws_channel_functions_e
  uc_fixed :: u16
  unicast_number_of_channels :: u16
  unicast_dwell_interval :: u8

record bc_timing_info_t =
  bt_rx_timestamp :: u32
  broadcast_slot :: u16
  broadcast_interval_offset :: u32
  broadcast_channel_function :: ws_channel_functions_e
  bc_fixed :: u16
  broadcast_dwell_interval :: u8
  broadcast_interval :: u32
  broadcast_schedule_id :: u16

record ws_neighbor_class_entry_t =
  uc_timing_info :: uc_timing_info_t
  bc_timing_info :: bc_timing_info_t
  uc_channel_list :: ws_channel_mask_t
  rsl_in :: u16
  rsl_out :: u16
  routing_cost :: u16
  last_DSN :: u8
  candidate_parent :: bool
  broadcast_timing_info_stored :: bool
  broadcast_shedule_info_stored :: bool
  synch_done :: bool
  unicast_data_rx :: bool

text \<open>\<open>WS_FIXED_CHANNEL\<close> is the channel function 0 an entry has after \<open>memset\<close>.\<close>

definition ws_neighbor_zero :: ws_neighbor_class_entry_t where
  "ws_neighbor_zero = \<lparr>
     uc_timing_info = \<lparr>utt_rx_timestamp = 0, uc_ufsi = 0, unicast_channel_function = WS_FIXED_CHANNEL,
       uc_fixed = 0, unicast_number_of_channels = 0, unicast_dwell_interval = 0\<rparr>,
     bc_timing_info = \<lparr>bt_rx_timestamp = 0, broadcast_slot = 0, broadcast_interval_offset = 0,
       broadcast_channel_function = WS_FIXED_CHANNEL, bc_fixed = 0, broadcast_dwell_interval = 0,
       broadcast_interval = 0, broadcast_schedule_id = 0\<rparr>,
     uc_channel_list = \<lparr>channel_mask = replicate 8 0, channel_count = 0\<rparr>,
     rsl_in = RSL_UNITITIALIZED, rsl_out = RSL_UNITITIALIZED, routing_cost = 0, last_DSN = 0,
     candidate_parent = False, broadcast_timing_info_stored = False,
     broadcast_shedule_info_stored = False, synch_done = False, unicast_data_rx = False\<rparr>"

record ws_neighbor_class_t =
  neigh_info_list :: "ws_neighbor_class_entry_t list option"
  list_size :: u8

text \<open>
  Information elements. The members of a union are separate fields; which one is valid is told
  by the field the code looks at before it reads one.
\<close>

record ws_utt_ie_t =
  message_type :: u8
  ufsi :: u32

record ws_bt_ie_t =
  bt_slot_number :: u16
  bt_interval_offset :: u32

record ws_us_ie_t =
  us_dwell_interval :: u8
  us_channel_plan :: "3 word"
  us_channel_function :: ws_channel_functions_e
  us_excluded_channel_ctrl :: "2 word"
  plan_zero_regulator_domain :: reg_domain_e
  plan_zero_operation_class :: u8
  plan_one_number_of_channel :: u16
  us_fixed_channel :: u16
  number_of_range :: u8
  range_bytes :: bytes
  mask_len_inline :: u8
  mask_bytes :: bytes

record ws_bs_ie_t =
  bs_broadcast_interval :: u32
  bs_schedule_identifier :: u16
  bs_dwell_interval :: u8
  bs_channel_function :: ws_channel_functions_e
  bs_fixed_channel :: u16

section \<open>The table\<close>

text \<open>\<open>ok\<close> is the success of the allocation.\<close>

definition ws_neighbor_class_alloc :: "bool \<Rightarrow> u8 \<Rightarrow> ws_neighbor_class_t \<Rightarrow> bool \<times> ws_neighbor_class_t" where
  "ws_neighbor_class_alloc ok n cls =
     (if \<not> ok then (False, cls\<lparr>neigh_info_list := None\<rparr>)
      else (True, cls\<lparr>neigh_info_list := Some (replicate (unat n) ws_neighbor_zero), list_size := n\<rparr>))"

definition ws_neighbor_class_dealloc :: "ws_neighbor_class_t \<Rightarrow> ws_neighbor_class_t" where
  "ws_neighbor_class_dealloc cls = cls\<lparr>neigh_info_list := None, list_size := 0\<rparr>"

definition ws_neighbor_class_entry_get :: "ws_neighbor_class_t \<Rightarrow> u8 \<Rightarrow> ws_neighbor_class_entry_t option" where
  "ws_neighbor_class_entry_get cls i =
     (case neigh_info_list cls of
        None \<Rightarrow> None
      | Some xs \<Rightarrow> if i \<ge> list_size cls then None else Some (xs ! unat i))"

definition ws_neighbor_class_entry_index_get :: "ws_neighbor_class_t \<Rightarrow> nat \<Rightarrow> u8" where
  "ws_neighbor_class_entry_index_get cls pos =
     (if neigh_info_list cls = None then 0xff else word_of_nat pos)"

definition ws_neighbor_class_entry_remove :: "u8 \<Rightarrow> ws_neighbor_class_t \<Rightarrow> ws_neighbor_class_t" where
  "ws_neighbor_class_entry_remove i cls =
     (case ws_neighbor_class_entry_get cls i of
        None \<Rightarrow> cls
      | Some e \<Rightarrow> cls\<lparr>neigh_info_list := map_option (\<lambda>xs. xs[unat i := ws_neighbor_zero]) (neigh_info_list cls)\<rparr>)"

section \<open>Hopping schedules\<close>

definition ws_neighbor_class_neighbor_unicast_time_info_update ::
    "ws_utt_ie_t \<Rightarrow> u32 \<Rightarrow> ws_neighbor_class_entry_t \<Rightarrow> ws_neighbor_class_entry_t" where
  "ws_neighbor_class_neighbor_unicast_time_info_update ws_utt timestamp e =
     e\<lparr>uc_timing_info := (uc_timing_info e)\<lparr>utt_rx_timestamp := timestamp, uc_ufsi := ufsi ws_utt\<rparr>\<rparr>"

text \<open>Taking one channel out of a list.\<close>

definition ws_cut_channel :: "nat \<Rightarrow> ws_channel_mask_t \<Rightarrow> ws_channel_mask_t" where
  "ws_cut_channel c info =
     (if channel_mask info ! (c div 32) AND push_bit (c mod 32) 1 \<noteq> 0
      then info\<lparr>channel_mask := (channel_mask info)[c div 32 := channel_mask info ! (c div 32) XOR push_bit (c mod 32) 1],
                channel_count := channel_count info - 1\<rparr>
      else info)"

text \<open>The loop over the channels for one range.\<close>

fun ws_exclude_range :: "u16 \<Rightarrow> u16 \<Rightarrow> nat list \<Rightarrow> ws_channel_mask_t \<Rightarrow> ws_channel_mask_t option" where
  "ws_exclude_range range_start range_stop [] info = Some info"
| "ws_exclude_range range_start range_stop (c # cs) info =
     (if c \<ge> unat range_start \<and> c \<le> unat range_stop
      then if c div 32 < length (channel_mask info)
           then ws_exclude_range range_start range_stop cs (ws_cut_channel c info) else None
      else if c > unat range_stop then Some info
      else ws_exclude_range range_start range_stop cs info)"

text \<open>\<open>read16\<close> is \<open>common_read_16_bit_inverse\<close>.\<close>

definition ws_neighbour_excluded_mask_by_range ::
    "(u8 \<Rightarrow> u8 \<Rightarrow> u16) \<Rightarrow> u8 \<Rightarrow> bytes \<Rightarrow> u16 \<Rightarrow> ws_channel_mask_t \<Rightarrow> ws_channel_mask_t option" where
  "ws_neighbour_excluded_mask_by_range read16 ranges bs n =
     fold_opt (\<lambda>r info.
       if 4 * r + 3 < length bs
       then ws_exclude_range (read16 (bs ! (4 * r)) (bs ! (4 * r + 1))) (read16 (bs ! (4 * r + 2)) (bs ! (4 * r + 3)))
              [0..<unat n] info
       else None) [0..<unat ranges]"

definition ws_reserve_order_32_bit :: "u32 \<Rightarrow> u32" where
  "ws_reserve_order_32_bit v =
     fold (\<lambda>i ret_val. if v AND push_bit i 1 \<noteq> 0 then ret_val OR push_bit (31 - i) 1 else ret_val) [0..<32] 0"

text \<open>
  The bytes of the mask that belong to word \<open>k\<close>: all four when \<open>left\<close>, the number of bits of the
  mask that are left, says so, and otherwise the rest; \<open>read32\<close> is \<open>common_read_32_bit\<close>.
\<close>

definition ws_mask_word :: "(u8 \<Rightarrow> u8 \<Rightarrow> u8 \<Rightarrow> u8 \<Rightarrow> u32) \<Rightarrow> bytes \<Rightarrow> nat \<Rightarrow> nat \<Rightarrow> u32" where
  "ws_mask_word read32 bs k left =
     (if left \<ge> 32 then read32 (bs ! (4 * k)) (bs ! (4 * k + 1)) (bs ! (4 * k + 2)) (bs ! (4 * k + 3))
      else fold (\<lambda>i v. v OR push_bit (24 - 8 * i) (ucast (bs ! (4 * k + i)))) [0..<left div 8] 0)"

fun ws_exclude_words ::
    "(u8 \<Rightarrow> u8 \<Rightarrow> u8 \<Rightarrow> u8 \<Rightarrow> u32) \<Rightarrow> bytes \<Rightarrow> nat list \<Rightarrow> nat \<Rightarrow> ws_channel_mask_t
      \<Rightarrow> ws_channel_mask_t option" where
  "ws_exclude_words read32 bs [] left info = Some info"
| "ws_exclude_words read32 bs (k # ks) left info =
     (if k \<ge> length (channel_mask info) \<or> 4 * k + min 32 left div 8 > length bs then None
      else
        let word = ws_reserve_order_32_bit (ws_mask_word read32 bs k left);
            left = (if left \<ge> 32 then left - 32 else 0);
            info = fold (\<lambda>i info. if word AND push_bit i 1 \<noteq> 0 then ws_cut_channel (32 * k + i) info else info)
                     [0..<32] info
        in if left = 0 then Some info else ws_exclude_words read32 bs ks left info)"

definition ws_neighbour_excluded_mask_by_mask ::
    "(u8 \<Rightarrow> u8 \<Rightarrow> u8 \<Rightarrow> u8 \<Rightarrow> u32) \<Rightarrow> u8 \<Rightarrow> bytes \<Rightarrow> u16 \<Rightarrow> ws_channel_mask_t \<Rightarrow> ws_channel_mask_t option" where
  "ws_neighbour_excluded_mask_by_mask read32 len bs n info =
     (if len = 0 then Some info
      else ws_exclude_words read32 bs [0..<(unat n + 31) div 32] (unat len * 8) info)"

definition ws_us_channel_number :: "ws_us_ie_t \<Rightarrow> ws_hopping_schedule_t \<Rightarrow> u16 \<Rightarrow> u16" where
  "ws_us_channel_number ws_us own old =
     (if us_channel_plan ws_us = 0
      then ws_common_channel_number_calc (plan_zero_regulator_domain ws_us) (plan_zero_operation_class ws_us)
             (channel_plan_id own)
      else if us_channel_plan ws_us = 1 then plan_one_number_of_channel ws_us
      else old)"

definition ws_generated_channels ::
    "u16 \<Rightarrow> ws_hopping_schedule_t \<Rightarrow> ws_channel_mask_t \<Rightarrow> ws_channel_mask_t option" where
  "ws_generated_channels n own info =
     (case ws_generate_channel_list n (regulatory_domain own) (operating_class own) (channel_plan_id own)
             (channel_mask info) of
        None \<Rightarrow> None
      | Some m \<Rightarrow>
          map_option (\<lambda>count. info\<lparr>channel_mask := m, channel_count := count\<rparr>) (ws_active_channel_count m n))"

definition ws_neighbor_class_neighbor_unicast_schedule_set ::
    "(u8 \<Rightarrow> u8 \<Rightarrow> u16) \<Rightarrow> (u8 \<Rightarrow> u8 \<Rightarrow> u8 \<Rightarrow> u8 \<Rightarrow> u32) \<Rightarrow> ws_us_ie_t \<Rightarrow> ws_hopping_schedule_t
      \<Rightarrow> ws_neighbor_class_entry_t \<Rightarrow> ws_neighbor_class_entry_t option" where
  "ws_neighbor_class_neighbor_unicast_schedule_set read16 read32 ws_us own e =
     (let uc = (uc_timing_info e)\<lparr>unicast_channel_function := us_channel_function ws_us\<rparr>;
          finish = (\<lambda>uc info. e\<lparr>uc_timing_info := uc\<lparr>unicast_dwell_interval := us_dwell_interval ws_us\<rparr>,
                                 uc_channel_list := info\<rparr>)
      in if us_channel_function ws_us = WS_FIXED_CHANNEL
         then Some (finish (uc\<lparr>uc_fixed := us_fixed_channel ws_us, unicast_number_of_channels := 1\<rparr>)
                      (uc_channel_list e))
         else
           let n = ws_us_channel_number ws_us own (unicast_number_of_channels uc);
               uc = uc\<lparr>unicast_number_of_channels := n\<rparr>;
               info = uc_channel_list e
           in map_option (finish uc)
                (if us_excluded_channel_ctrl ws_us = WS_EXC_CHAN_CTRL_RANGE
                 then case ws_generated_channels n own info of
                        None \<Rightarrow> None
                      | Some info \<Rightarrow>
                          ws_neighbour_excluded_mask_by_range read16 (number_of_range ws_us) (range_bytes ws_us) n info
                 else if us_excluded_channel_ctrl ws_us = WS_EXC_CHAN_CTRL_BITMASK
                 then case ws_generated_channels n own info of
                        None \<Rightarrow> None
                      | Some info \<Rightarrow>
                          ws_neighbour_excluded_mask_by_mask read32 (mask_len_inline ws_us) (mask_bytes ws_us) n info
                 else if us_excluded_channel_ctrl ws_us = WS_EXC_CHAN_CTRL_NONE
                 then if n \<noteq> channel_count info then ws_generated_channels n own info else Some info
                 else Some info))"

definition ws_neighbor_class_neighbor_broadcast_time_info_update ::
    "ws_bt_ie_t \<Rightarrow> u32 \<Rightarrow> ws_neighbor_class_entry_t \<Rightarrow> ws_neighbor_class_entry_t" where
  "ws_neighbor_class_neighbor_broadcast_time_info_update ws_bt timestamp e =
     e\<lparr>broadcast_timing_info_stored := True,
       bc_timing_info := (bc_timing_info e)\<lparr>bt_rx_timestamp := timestamp, broadcast_slot := bt_slot_number ws_bt,
         broadcast_interval_offset := bt_interval_offset ws_bt\<rparr>\<rparr>"

definition ws_neighbor_class_neighbor_broadcast_schedule_set ::
    "ws_bs_ie_t \<Rightarrow> ws_neighbor_class_entry_t \<Rightarrow> ws_neighbor_class_entry_t" where
  "ws_neighbor_class_neighbor_broadcast_schedule_set ws_bs e =
     (let bc = (bc_timing_info e)\<lparr>broadcast_channel_function := bs_channel_function ws_bs\<rparr>;
          bc = (if bs_channel_function ws_bs = WS_FIXED_CHANNEL then bc\<lparr>bc_fixed := bs_fixed_channel ws_bs\<rparr> else bc)
      in e\<lparr>broadcast_shedule_info_stored := True,
           bc_timing_info := bc\<lparr>broadcast_dwell_interval := bs_dwell_interval ws_bs,
             broadcast_interval := bs_broadcast_interval ws_bs,
             broadcast_schedule_id := bs_schedule_identifier ws_bs\<rparr>\<rparr>)"

section \<open>Signal levels\<close>

definition ws_neighbor_class_rsl_from_dbm_calculate :: "8 word \<Rightarrow> u8" where
  "ws_neighbor_class_rsl_from_dbm_calculate dbm = word_of_int (sint dbm + 174)"

text \<open>\<open>min_sens\<close> is the global \<open>DEVICE_MIN_SENS\<close>; the result is its new value.\<close>

definition ws_neighbor_class_rf_sensitivity_calculate :: "u8 \<Rightarrow> 8 word \<Rightarrow> u8 \<Rightarrow> u8" where
  "ws_neighbor_class_rf_sensitivity_calculate dev_min_sens_config dbm min_sens =
     (if dev_min_sens_config \<noteq> 0 then min_sens
      else
        let rsl_heard = ws_neighbor_class_rsl_from_dbm_calculate dbm
        in if min_sens > rsl_heard then rsl_heard else min_sens)"

definition ws_neighbor_class_parent_set_analyze :: "u8 \<Rightarrow> ws_neighbor_class_entry_t \<Rightarrow> ws_neighbor_class_entry_t" where
  "ws_neighbor_class_parent_set_analyze min_sens e =
     (if rsl_in e = RSL_UNITITIALIZED \<or> rsl_out e = RSL_UNITITIALIZED then e\<lparr>candidate_parent := False\<rparr>
      else
        let low = uint min_sens + CAND_PARENT_THRESHOLD - CAND_PARENT_HYSTERISIS;
            high = uint min_sens + CAND_PARENT_THRESHOLD + CAND_PARENT_HYSTERISIS;
            e = (if uint (drop_bit WS_RSL_SCALING (rsl_in e)) < low \<and> uint (drop_bit WS_RSL_SCALING (rsl_out e)) < low
                 then e\<lparr>candidate_parent := False\<rparr> else e)
        in if uint (drop_bit WS_RSL_SCALING (rsl_in e)) > high \<and> uint (drop_bit WS_RSL_SCALING (rsl_out e)) > high
           then e\<lparr>candidate_parent := True\<rparr> else e)"

definition rsl_average :: "u8 \<Rightarrow> u16 \<Rightarrow> u16" where
  "rsl_average rsl old =
     (let v = (if old = RSL_UNITITIALIZED then push_bit WS_RSL_SCALING (ucast rsl) else old)
      in v + ucast rsl - drop_bit WS_RSL_SCALING v)"

definition ws_neighbor_class_rsl_in_calculate :: "u8 \<Rightarrow> 8 word \<Rightarrow> ws_neighbor_class_entry_t \<Rightarrow> ws_neighbor_class_entry_t" where
  "ws_neighbor_class_rsl_in_calculate min_sens dbm e =
     ws_neighbor_class_parent_set_analyze min_sens
       (e\<lparr>rsl_in := rsl_average (ws_neighbor_class_rsl_from_dbm_calculate dbm) (rsl_in e)\<rparr>)"

definition ws_neighbor_class_rsl_out_calculate :: "u8 \<Rightarrow> u8 \<Rightarrow> ws_neighbor_class_entry_t \<Rightarrow> ws_neighbor_class_entry_t" where
  "ws_neighbor_class_rsl_out_calculate min_sens rsl_reported e =
     ws_neighbor_class_parent_set_analyze min_sens (e\<lparr>rsl_out := rsl_average rsl_reported (rsl_out e)\<rparr>)"

definition ws_neighbor_class_neighbor_duplicate_packet_check ::
    "u8 \<Rightarrow> u32 \<Rightarrow> ws_neighbor_class_entry_t \<Rightarrow> bool \<times> ws_neighbor_class_entry_t" where
  "ws_neighbor_class_neighbor_duplicate_packet_check mac_dsn rx_timestamp e =
     (if last_DSN e \<noteq> mac_dsn then (True, e\<lparr>last_DSN := mac_dsn\<rparr>)
      else if \<not> unicast_data_rx e then (True, e)
      else if (rx_timestamp - utt_rx_timestamp (uc_timing_info e)) div 1000000 < 5 then (False, e)
      else (True, e))"

end
