(* ===== verification/WsChannels.thy ===== *)
theory WsChannels
  imports WsNeighbor
begin

text \<open>
  The channel list of a neighbour is what its schedule announces: the channels of the plan without
  those the regulations and the schedule exclude, whichever way they are announced, with their
  exact number. The averages of the signal levels stay between the samples.
\<close>

section \<open>Taking channels out of a list\<close>

definition chans :: "ws_channel_mask_t \<Rightarrow> nat set" where
  "chans info = {j. channel_on (channel_mask info) j}"

definition chans_ok :: "ws_channel_mask_t \<Rightarrow> bool" where
  "chans_ok info \<longleftrightarrow> length (channel_mask info) = 8 \<and> channel_count info = word_of_nat (card (chans info))"

lemma chans_subset: "length (channel_mask info) = 8 \<Longrightarrow> chans info \<subseteq> {..<256}"
  by (auto simp: chans_def channel_on_def)

lemma channel_on_toggle:
  assumes "i div 32 < length m" and "bit (m ! (i div 32)) (i mod 32)"
  shows "channel_on (m[i div 32 := m ! (i div 32) XOR push_bit (i mod 32) 1]) j = (j \<noteq> i \<and> channel_on m j)"
  using channel_on_update [OF assms(1), of "m ! (i div 32) XOR push_bit (i mod 32) 1" False j] assms(2)
  by (auto simp: bit_xor_iff bit_u32_exp)

lemma ws_cut_channel_ok:
  assumes "chans_ok info" and "c < 256"
  shows "chans_ok (ws_cut_channel c info)" and "chans (ws_cut_channel c info) = chans info - {c}"
proof -
  have len: "length (channel_mask info) = 8" using assms(1) by (simp add: chans_ok_def)
  have c: "c div 32 < length (channel_mask info)" using assms(2) len by linarith
  have on: "c \<in> chans info \<longleftrightarrow> channel_mask info ! (c div 32) AND push_bit (c mod 32) 1 \<noteq> 0"
    using c channel_test [of "c mod 32"] by (simp add: chans_def channel_on_def)
  have fin: "finite (chans info)" using chans_subset [OF len] finite_subset by blast
  have both: "chans_ok (ws_cut_channel c info) \<and> chans (ws_cut_channel c info) = chans info - {c}"
  proof (cases "c \<in> chans info")
    case True
    let ?m = "(channel_mask info)[c div 32 := channel_mask info ! (c div 32) XOR push_bit (c mod 32) 1]"
    have cut: "ws_cut_channel c info = info\<lparr>channel_mask := ?m, channel_count := channel_count info - 1\<rparr>"
      using True on by (simp add: ws_cut_channel_def)
    have "bit (channel_mask info ! (c div 32)) (c mod 32)" using True by (simp add: chans_def channel_on_def)
    then have set: "chans (ws_cut_channel c info) = chans info - {c}"
      using channel_on_toggle [OF c] by (auto simp: cut chans_def)
    have "card (chans info) = Suc (card (chans info - {c}))"
      using card_Suc_Diff1 [OF fin True] by (rule sym)
    then have "channel_count info - 1 = word_of_nat (card (chans info - {c}))"
      using assms(1) by (simp add: chans_ok_def)
    with set len show ?thesis by (simp add: chans_ok_def) (simp add: cut)
  next
    case False
    then show ?thesis using assms(1) on by (simp add: ws_cut_channel_def)
  qed
  then show "chans_ok (ws_cut_channel c info)" "chans (ws_cut_channel c info) = chans info - {c}" by blast+
qed

lemma interval_first:
  fixes k n :: nat
  assumes "k < n"
  shows "{c. k \<le> c \<and> c < n \<and> A c} = (if A k then {k} else {}) \<union> {c. Suc k \<le> c \<and> c < n \<and> A c}"
proof -
  have "k \<le> c \<longleftrightarrow> c = k \<or> Suc k \<le> c" for c by auto
  then show ?thesis using assms by auto
qed

lemma ws_exclude_range_ok:
  assumes "chans_ok info" and "n \<le> 256"
  shows "\<exists>info'. ws_exclude_range a b [k..<n] info = Some info' \<and> chans_ok info' \<and>
    chans info' = chans info - {c. k \<le> c \<and> c < n \<and> unat a \<le> c \<and> c \<le> unat b}"
  using assms(1)
proof (induction "n - k" arbitrary: k info)
  case 0
  then have e: "[k..<n] = []" "{c. k \<le> c \<and> c < n \<and> unat a \<le> c \<and> c \<le> unat b} = {}" by auto
  show ?case
    by (intro exI [of _ info]) (simp only: e ws_exclude_range.simps(1) Diff_empty simp_thms 0(2))
next
  case (Suc d)
  then have "k < n" by simp
  then have kn: "[k..<n] = k # [Suc k..<n]" by (rule upt_conv_Cons)
  have d: "d = n - Suc k" using Suc.hyps(2) by simp
  consider (cut) "unat a \<le> k \<and> k \<le> unat b" | (stop) "k > unat b" | (skip) "k < unat a" "k \<le> unat b" by linarith
  then show ?case
  proof cases
    case cut
    note C = ws_cut_channel_ok [OF Suc.prems, of k]
    have k: "k < 256" "k div 32 < length (channel_mask info)"
      using \<open>k < n\<close> assms(2) Suc.prems by (auto simp: chans_ok_def)
    from Suc.hyps(1) [OF d C(1) [OF k(1)]]
    obtain info' where i: "ws_exclude_range a b [Suc k..<n] (ws_cut_channel k info) = Some info'" "chans_ok info'"
      "chans info' = chans info - {k} - {c. Suc k \<le> c \<and> c < n \<and> unat a \<le> c \<and> c \<le> unat b}"
      unfolding C(2) [OF k(1)] by blast
    have "chans info' = chans info - {c. k \<le> c \<and> c < n \<and> unat a \<le> c \<and> c \<le> unat b}"
      unfolding i(3) interval_first [OF \<open>k < n\<close>] if_P [OF cut] by blast
    with i(1,2) cut k(2) show ?thesis by (simp add: kn)
  next
    case stop
    then have none: "{c. k \<le> c \<and> c < n \<and> unat a \<le> c \<and> c \<le> unat b} = {}" by auto
    show ?thesis unfolding none kn using stop Suc.prems by simp
  next
    case skip
    from Suc.hyps(1) [OF d Suc.prems]
    obtain info' where i: "ws_exclude_range a b [Suc k..<n] info = Some info'" "chans_ok info'"
      "chans info' = chans info - {c. Suc k \<le> c \<and> c < n \<and> unat a \<le> c \<and> c \<le> unat b}"
      by blast
    have "chans info' = chans info - {c. k \<le> c \<and> c < n \<and> unat a \<le> c \<and> c \<le> unat b}"
      unfolding i(3) interval_first [OF \<open>k < n\<close>] using skip by simp
    with i(1,2) skip show ?thesis by (simp add: kn)
  qed
qed

text \<open>The ranges as the bytes of the information element announce them.\<close>

definition range_excludes :: "(u8 \<Rightarrow> u8 \<Rightarrow> u16) \<Rightarrow> nat \<Rightarrow> bytes \<Rightarrow> nat \<Rightarrow> bool" where
  "range_excludes read16 ranges bs c \<longleftrightarrow>
     (\<exists>r < ranges. unat (read16 (bs ! (4 * r)) (bs ! (4 * r + 1))) \<le> c \<and> c \<le> unat (read16 (bs ! (4 * r + 2)) (bs ! (4 * r + 3))))"

lemma ws_exclude_ranges_ok:
  assumes "chans_ok info" and "unat n \<le> 256" and "length bs \<ge> 4 * unat ranges"
  shows "\<exists>info'. ws_neighbour_excluded_mask_by_range read16 ranges bs n info = Some info' \<and> chans_ok info' \<and>
    chans info' = chans info - {c. c < unat n \<and> range_excludes read16 (unat ranges) bs c}"
proof -
  let ?f = "\<lambda>r info. if 4 * r + 3 < length bs
       then ws_exclude_range (read16 (bs ! (4 * r)) (bs ! (4 * r + 1))) (read16 (bs ! (4 * r + 2)) (bs ! (4 * r + 3)))
              [0..<unat n] info else None"
  have "\<exists>info'. fold_opt ?f [0..<k] info = Some info' \<and> chans_ok info' \<and>
      chans info' = chans info - {c. c < unat n \<and> range_excludes read16 k bs c}" if "4 * k \<le> length bs" for k
    using that
  proof (induction k)
    case 0
    then show ?case using assms(1) by (simp add: range_excludes_def)
  next
    case (Suc k)
    then obtain info' where i: "fold_opt ?f [0..<k] info = Some info'" "chans_ok info'"
      "chans info' = chans info - {c. c < unat n \<and> range_excludes read16 k bs c}" by auto
    from ws_exclude_range_ok [OF i(2) assms(2), of "read16 (bs ! (4 * k)) (bs ! (4 * k + 1))"
        "read16 (bs ! (4 * k + 2)) (bs ! (4 * k + 3))" 0]
    obtain info'' where i'': "?f k info' = Some info''" "chans_ok info''"
      "chans info'' = chans info' - {c. c < unat n \<and> unat (read16 (bs ! (4 * k)) (bs ! (4 * k + 1))) \<le> c \<and>
         c \<le> unat (read16 (bs ! (4 * k + 2)) (bs ! (4 * k + 3)))}"
      using Suc.prems by auto
    have "chans info'' = chans info - {c. c < unat n \<and> range_excludes read16 (Suc k) bs c}"
      unfolding i''(3) i(3) by (auto simp: range_excludes_def less_Suc_eq)
    moreover have "fold_opt ?f [0..<Suc k] info = Some info''"
      using i(1) i''(1) by (simp only: upt_Suc_append [OF le0] fold_opt_append option.case fold_opt.simps)
    ultimately show ?case using i''(2) by blast
  qed
  then show ?thesis using assms(3) unfolding ws_neighbour_excluded_mask_by_range_def by blast
qed

section \<open>Bit masks\<close>

text \<open>\<open>common_read_32_bit\<close> reads a big-endian number.\<close>

definition read32_ok :: "(u8 \<Rightarrow> u8 \<Rightarrow> u8 \<Rightarrow> u8 \<Rightarrow> u32) \<Rightarrow> bool" where
  "read32_ok read32 \<longleftrightarrow> (\<forall>a b c d. read32 a b c d =
     push_bit 24 (ucast a) OR push_bit 16 (ucast b) OR push_bit 8 (ucast c) OR ucast d)"

lemma ws_reserve_order_bit: "i < 32 \<Longrightarrow> bit (ws_reserve_order_32_bit v) i = bit v (31 - i)"
proof -
  assume i: "i < 32"
  have "bit (fold (\<lambda>i ret_val. if v AND push_bit i 1 \<noteq> 0 then ret_val OR push_bit (31 - i) 1 else ret_val)
      [0..<k] (0 :: u32)) i = (31 - i < k \<and> bit v (31 - i))" if "k \<le> 32" for k
    using that
  proof (induction k)
    case (Suc k)
    have "(31 - k = i) = (k = 31 - i)" using Suc.prems i by linarith
    with Suc i channel_test [of k v] show ?case
      by (auto simp: bit_or_iff bit_u32_exp less_Suc_eq)
  qed simp
  from this [of 32] have "bit (ws_reserve_order_32_bit v) i = (31 - i < 32 \<and> bit v (31 - i))"
    unfolding ws_reserve_order_32_bit_def by simp
  moreover have "31 - i < 32" by simp
  ultimately show ?thesis by blast
qed

lemma bit_push_byte: "bit (push_bit s (ucast (b :: u8)) :: u32) p \<longleftrightarrow> p < 32 \<and> s \<le> p \<and> p < s + 8 \<and> bit b (p - s)"
  using bit_imp_le_length [of b "p - s"] by (auto simp: bit_push_bit_iff bit_ucast_iff)

lemma ws_mask_word_fold:
  assumes "m \<le> 4" and "p < 32"
  shows "bit (fold (\<lambda>i v. v OR push_bit (24 - 8 * i) (ucast (bs ! (4 * k + i) :: u8))) [0..<m] (0 :: u32)) p \<longleftrightarrow>
    3 - p div 8 < m \<and> bit (bs ! (4 * k + (3 - p div 8))) (p mod 8)"
  using assms(1)
proof (induction m)
  case (Suc m)
  define q r where "q = p div 8" and "r = p mod 8"
  have p: "p = 8 * q + r" "r < 8" "q \<le> 3" using assms(2) by (simp_all add: q_def r_def)
  have at: "24 - 8 * m \<le> p \<and> p < 24 - 8 * m + 8 \<longleftrightarrow> m = 3 - q" using Suc.prems p by linarith
  have "p - (24 - 8 * m) = r" if "m = 3 - q" using that Suc.prems p by linarith
  then have byte: "bit (push_bit (24 - 8 * m) (ucast (bs ! (4 * k + m))) :: u32) p \<longleftrightarrow>
      m = 3 - q \<and> bit (bs ! (4 * k + (3 - q))) r"
    using at assms(2) by (auto simp: bit_push_byte)
  have "3 - q < Suc m \<longleftrightarrow> 3 - q < m \<or> m = 3 - q" by auto
  with Suc byte show ?case
    unfolding q_def [symmetric] r_def [symmetric] by (auto simp: bit_or_iff)
qed simp

text \<open>Bit \<open>i\<close> of a word of the mask, counted from the most significant one of its first byte.\<close>

lemma ws_mask_word_bit:
  assumes "read32_ok read32" and "8 dvd left" and "i < 32"
  shows "(ws_reserve_order_32_bit (ws_mask_word read32 bs k left) AND push_bit i 1 \<noteq> 0) =
    (i < left \<and> bit (bs ! (4 * k + i div 8)) (7 - i mod 8))"
proof -
  define m where "m = min 4 (left div 8)"
  have word: "ws_mask_word read32 bs k left =
      fold (\<lambda>i v. v OR push_bit (24 - 8 * i) (ucast (bs ! (4 * k + i)))) [0..<m] 0"
  proof (cases "left \<ge> 32")
    case True
    then have "m = 4" by (simp add: m_def)
    moreover have "[0..<4] = [0, 1, 2, 3 :: nat]" by (simp add: upt_rec)
    ultimately show ?thesis
      using True assms(1) by (simp add: ws_mask_word_def read32_ok_def or.assoc)
  next
    case False
    then have "m = left div 8" by (simp add: m_def min_def)
    with False show ?thesis by (simp add: ws_mask_word_def)
  qed
  define x y where "x = 7 - i mod 8" and "y = 3 - i div 8"
  have "i = 8 * (i div 8) + i mod 8" "i mod 8 < 8" "i div 8 < 4" using assms(3) by simp_all
  then have xy: "31 - i = 8 * y + x" "x < 8" "3 - y = i div 8" unfolding x_def y_def by linarith+
  have "3 - (31 - i) div 8 = i div 8" "(31 - i) mod 8 = 7 - i mod 8"
    unfolding xy(1) x_def [symmetric] using xy(2,3) by simp_all
  moreover have "i div 8 < m \<longleftrightarrow> i < left" using assms(2,3) by (auto simp: m_def elim!: dvdE)
  ultimately show ?thesis
    using ws_mask_word_fold [of m "31 - i" bs k] ws_reserve_order_bit [OF assms(3)] channel_test [OF assms(3)]
    by (simp add: word m_def)
qed

lemma ws_cut_bits_ok:
  fixes P :: "nat \<Rightarrow> bool" and info :: ws_channel_mask_t and k m :: nat
  assumes "chans_ok info" and "k < 8" and "m \<le> 32"
  defines "info' \<equiv> fold (\<lambda>i info. if P i then ws_cut_channel (32 * k + i) info else info) [0..<m] info"
  shows "chans_ok info' \<and> chans info' = chans info - {32 * k + i |i. i < m \<and> P i}"
  unfolding info'_def using assms(3)
proof (induction m)
  case 0
  then show ?case using assms(1) by simp
next
  case (Suc m)
  let ?i = "fold (\<lambda>i info. if P i then ws_cut_channel (32 * k + i) info else info) [0..<m] info"
  have i: "chans_ok ?i" "chans ?i = chans info - {32 * k + i |i. i < m \<and> P i}" using Suc by auto
  have "32 * k + m < 256" using assms(2) Suc.prems by linarith
  note C = ws_cut_channel_ok [OF i(1) this]
  have "{32 * k + i |i. i < Suc m \<and> P i} = {32 * k + i |i. i < m \<and> P i} \<union> (if P m then {32 * k + m} else {})"
    by (auto simp: less_Suc_eq)
  with i C show ?case by (auto simp: upt_Suc_append)
qed

definition mask_excludes :: "bytes \<Rightarrow> nat \<Rightarrow> bool" where
  "mask_excludes bs c \<longleftrightarrow> c < 8 * length bs \<and> bit (bs ! (c div 8)) (7 - c mod 8)"

lemma ws_exclude_words_ok:
  assumes "read32_ok read32" and "chans_ok info" and "8 dvd left" and "K \<le> 8" and "k \<le> K"
    and "length bs = 4 * k + left div 8" and "0 < left"
  shows "\<exists>info'. ws_exclude_words read32 bs [k..<K] left info = Some info' \<and> chans_ok info' \<and>
    chans info' = chans info - {c. 32 * k \<le> c \<and> c < 32 * K \<and> mask_excludes bs c}"
  using assms(2,3,5-7)
proof (induction "K - k" arbitrary: k left info)
  case 0
  then have e: "[k..<K] = []" "{c. 32 * k \<le> c \<and> c < 32 * K \<and> mask_excludes bs c} = {}" by auto
  show ?case
    by (intro exI [of _ info]) (simp only: e ws_exclude_words.simps(1) Diff_empty simp_thms 0(2))
next
  case (Suc d)
  then have "k < K" by simp
  then have kK: "[k..<K] = k # [Suc k..<K]" by (rule upt_conv_Cons)
  let ?P = "\<lambda>i. ws_reserve_order_32_bit (ws_mask_word read32 bs k left) AND push_bit i 1 \<noteq> 0"
  define info1 where "info1 = fold (\<lambda>i info. if ?P i then ws_cut_channel (32 * k + i) info else info) [0..<32] info"
  have "k < 8" using \<open>k < K\<close> assms(4) by simp
  from ws_cut_bits_ok [OF Suc.prems(1) this, of 32 ?P, folded info1_def]
  have I: "chans_ok info1" "chans info1 = chans info - {32 * k + i |i. i < 32 \<and> ?P i}" by simp_all
  have len: "\<not> (k \<ge> length (channel_mask info) \<or> 4 * k + min 32 left div 8 > length bs)"
    using \<open>k < 8\<close> Suc.prems(1,4) by (auto simp: chans_ok_def min_def)
  have left8: "8 * (left div 8) = left" using Suc.prems(2) by simp
  have "{32 * k + i |i. i < 32 \<and> ?P i} = {c. 32 * k \<le> c \<and> c < 32 * Suc k \<and> mask_excludes bs c}"
  proof (rule set_eqI)
    fix c
    have split: "c = 32 * k + i \<Longrightarrow> c div 8 = 4 * k + i div 8 \<and> c mod 8 = i mod 8" for i
    proof -
      have "32 * k + i = i + 8 * (4 * k)" by simp
      then show "c = 32 * k + i \<Longrightarrow> c div 8 = 4 * k + i div 8 \<and> c mod 8 = i mod 8"
        by (simp only: div_mult_self2 mod_mult_self2 add.commute)
    qed
    show "c \<in> {32 * k + i |i. i < 32 \<and> ?P i} \<longleftrightarrow> c \<in> {c. 32 * k \<le> c \<and> c < 32 * Suc k \<and> mask_excludes bs c}"
    proof (cases "32 * k \<le> c \<and> c < 32 * Suc k")
      case True
      then obtain i where i: "c = 32 * k + i" "i < 32" by (metis le_Suc_ex mult_Suc_right nat_add_left_cancel_less add.commute)
      have "i < left \<longleftrightarrow> c < 8 * length bs" using i(1) Suc.prems(4) left8 by linarith
      with i split [OF i(1)] ws_mask_word_bit [OF assms(1) Suc.prems(2) i(2), of bs k] True show ?thesis
        by (auto simp: mask_excludes_def)
    qed auto
  qed
  then have I2: "chans info1 = chans info - {c. 32 * k \<le> c \<and> c < 32 * Suc k \<and> mask_excludes bs c}"
    using I(2) by simp
  have step: "ws_exclude_words read32 bs [k..<K] left info =
      (if (if left \<ge> 32 then left - 32 else 0) = 0 then Some info1
       else ws_exclude_words read32 bs [Suc k..<K] (if left \<ge> 32 then left - 32 else 0) info1)"
    unfolding kK ws_exclude_words.simps if_not_P [OF len] Let_def info1_def by (rule refl)
  show ?case
  proof (cases "left \<le> 32")
    case True
    have "length bs \<le> 4 * Suc k" using True Suc.prems(4) by simp
    then have "mask_excludes bs c \<Longrightarrow> c < 32 * Suc k" for c by (auto simp: mask_excludes_def)
    moreover have "32 * Suc k \<le> 32 * K" using \<open>k < K\<close> by simp
    ultimately have "{c. 32 * k \<le> c \<and> c < 32 * Suc k \<and> mask_excludes bs c} =
        {c. 32 * k \<le> c \<and> c < 32 * K \<and> mask_excludes bs c}" by (auto intro: less_le_trans)
    with I(1) I2 True step show ?thesis by auto
  next
    case False
    have "d = K - Suc k" "8 dvd left - 32" "Suc k \<le> K" "length bs = 4 * Suc k + (left - 32) div 8" "0 < left - 32"
      using False Suc.hyps(2) Suc.prems(2,4) \<open>k < K\<close> by (auto elim!: dvdE)
    from Suc.hyps(1) [OF this(1) I(1) this(2-5)]
    obtain info' where i: "ws_exclude_words read32 bs [Suc k..<K] (left - 32) info1 = Some info'" "chans_ok info'"
      "chans info' = chans info1 - {c. 32 * Suc k \<le> c \<and> c < 32 * K \<and> mask_excludes bs c}" by blast
    have "32 * k \<le> c \<and> c < 32 * K \<longleftrightarrow> (32 * k \<le> c \<and> c < 32 * Suc k) \<or> (32 * Suc k \<le> c \<and> c < 32 * K)" for c
      using \<open>k < K\<close> by auto
    then have "chans info' = chans info - {c. 32 * k \<le> c \<and> c < 32 * K \<and> mask_excludes bs c}"
      unfolding i(3) I2 by blast
    with i(1,2) step False show ?thesis by auto
  qed
qed

lemma ws_exclude_mask_ok:
  assumes "read32_ok read32" and "chans_ok info" and "unat n \<le> 256" and "length bs = unat len"
    and "chans info \<subseteq> {..<unat n}"
  shows "\<exists>info'. ws_neighbour_excluded_mask_by_mask read32 len bs n info = Some info' \<and> chans_ok info' \<and>
    chans info' = chans info - {c. mask_excludes bs c}"
proof (cases "len = 0")
  case True
  then have "{c. mask_excludes bs c} = {}" using assms(4) by (simp add: mask_excludes_def)
  with True assms(2) show ?thesis by (simp add: ws_neighbour_excluded_mask_by_mask_def)
next
  case False
  let ?K = "(unat n + 31) div 32"
  have "0 < unat len * 8" using False by (simp add: unat_gt_0)
  moreover have "?K \<le> 8" using assms(3) by linarith
  ultimately obtain info' where i: "ws_exclude_words read32 bs [0..<?K] (unat len * 8) info = Some info'" "chans_ok info'"
    "chans info' = chans info - {c. 32 * 0 \<le> c \<and> c < 32 * ?K \<and> mask_excludes bs c}"
    using ws_exclude_words_ok [OF assms(1,2), of "unat len * 8" ?K 0 bs] assms(4) by auto
  have "c < 32 * ?K" if "c \<in> chans info" for c using that assms(5) by (auto dest!: subsetD)
  then have "chans info' = chans info - {c. mask_excludes bs c}" unfolding i(3) by auto
  with i(1,2) False show ?thesis by (simp add: ws_neighbour_excluded_mask_by_mask_def)
qed

section \<open>The schedule of a neighbour\<close>

definition plan_disables :: "ws_hopping_schedule_t \<Rightarrow> nat \<Rightarrow> bool" where
  "plan_disables own c \<longleftrightarrow> (\<exists>(a, b) \<in> set (ws_disabled_ranges (regulatory_domain own) (operating_class own)
     (channel_plan_id own)). unat a \<le> c \<and> c \<le> unat b)"

lemma ws_generated_channels_ok:
  assumes "length (channel_mask info) = 8" and "unat n \<le> 256"
  shows "\<exists>info'. ws_generated_channels n own info = Some info' \<and> chans_ok info' \<and>
    chans info' = {c. c < unat n \<and> \<not> plan_disables own c}"
proof -
  from ws_generate_channel_list_spec [OF assms(1), of n "regulatory_domain own" "operating_class own" "channel_plan_id own"]
  obtain m where m: "ws_generate_channel_list n (regulatory_domain own) (operating_class own) (channel_plan_id own)
      (channel_mask info) = Some m" "length m = 8" "\<And>c. channel_on m c \<longleftrightarrow> c < unat n \<and> \<not> plan_disables own c"
    "ws_active_channel_count m n = Some (word_of_nat (card {c. channel_on m c}))"
    unfolding if_P [OF assms(2)] plan_disables_def by blast
  define info' where "info' = info\<lparr>channel_mask := m, channel_count := word_of_nat (card {c. channel_on m c})\<rparr>"
  have "ws_generated_channels n own info = Some info'" by (simp add: ws_generated_channels_def m(1,4) info'_def)
  moreover have "chans info' = {c. channel_on m c}" by (simp add: chans_def info'_def)
  moreover from this have "chans_ok info'" by (simp add: chans_ok_def m(2)) (simp add: info'_def m(2))
  ultimately show ?thesis using m(3) by auto
qed

text \<open>The channels a unicast schedule excludes.\<close>

definition us_excludes :: "(u8 \<Rightarrow> u8 \<Rightarrow> u16) \<Rightarrow> ws_us_ie_t \<Rightarrow> nat \<Rightarrow> bool" where
  "us_excludes read16 ws_us c \<longleftrightarrow>
     (if us_excluded_channel_ctrl ws_us = WS_EXC_CHAN_CTRL_RANGE
      then range_excludes read16 (unat (number_of_range ws_us)) (range_bytes ws_us) c
      else us_excluded_channel_ctrl ws_us = WS_EXC_CHAN_CTRL_BITMASK \<and> mask_excludes (mask_bytes ws_us) c)"

lemma ws_excluded_ok:
  assumes "read32_ok read32" and "chans_ok info" and "unat n \<le> 256" and "chans info \<subseteq> {..<unat n}"
    and "4 * unat (number_of_range ws_us) \<le> length (range_bytes ws_us)"
    and "length (mask_bytes ws_us) = unat (mask_len_inline ws_us)"
    and "us_excluded_channel_ctrl ws_us \<in> {WS_EXC_CHAN_CTRL_RANGE, WS_EXC_CHAN_CTRL_BITMASK}"
  shows "\<exists>info'. (if us_excluded_channel_ctrl ws_us = WS_EXC_CHAN_CTRL_RANGE
      then ws_neighbour_excluded_mask_by_range read16 (number_of_range ws_us) (range_bytes ws_us) n info
      else ws_neighbour_excluded_mask_by_mask read32 (mask_len_inline ws_us) (mask_bytes ws_us) n info) = Some info' \<and>
    chans_ok info' \<and> chans info' = chans info - {c. us_excludes read16 ws_us c}"
proof (cases "us_excluded_channel_ctrl ws_us = WS_EXC_CHAN_CTRL_RANGE")
  case True
  from ws_exclude_ranges_ok [OF assms(2,3,5), of read16]
  obtain info' where i: "ws_neighbour_excluded_mask_by_range read16 (number_of_range ws_us) (range_bytes ws_us) n info =
      Some info'" "chans_ok info'"
    "chans info' = chans info - {c. c < unat n \<and> range_excludes read16 (unat (number_of_range ws_us)) (range_bytes ws_us) c}"
    by blast
  have "chans info' = chans info - {c. us_excludes read16 ws_us c}"
    unfolding i(3) us_excludes_def if_P [OF True] using assms(4) by blast
  with i(1,2) True show ?thesis by simp
next
  case False
  then have c: "us_excluded_channel_ctrl ws_us = WS_EXC_CHAN_CTRL_BITMASK" using assms(7) by simp
  then have "us_excludes read16 ws_us = mask_excludes (mask_bytes ws_us)" by (simp add: us_excludes_def fun_eq_iff)
  with ws_exclude_mask_ok [OF assms(1-3,6,4)] c show ?thesis by simp
qed


definition ws_us_example :: ws_us_ie_t where
  "ws_us_example = \<lparr>us_dwell_interval = 100, us_channel_plan = 1, us_channel_function = WS_DH1CF,
     us_excluded_channel_ctrl = WS_EXC_CHAN_CTRL_BITMASK, plan_zero_regulator_domain = REG_DOMAIN_EU,
     plan_zero_operation_class = 1, plan_one_number_of_channel = 10, us_fixed_channel = 0,
     number_of_range = 0, range_bytes = [], mask_len_inline = 2, mask_bytes = [0x20, 0x40]\<rparr>"

definition own_example :: ws_hopping_schedule_t where
  "own_example = \<lparr>fhss_uc_dwell_interval = 15, fhss_bc_dwell_interval = 100, regulatory_domain = REG_DOMAIN_NA,
     operating_class = 1, operating_mode = OPERATING_MODE_1b, phy_mode_id = 255, channel_plan_id = 5,
     channel_plan = 0, uc_channel_function = 2, bc_channel_function = 2, channel_spacing = CHANNEL_SPACING_200,
     number_of_channels = 24, clock_drift = 255, timing_accurancy = 1, uc_fixed_channel = 0, bc_fixed_channel = 0,
     fhss_bsi = 0, fhss_broadcast_interval = 1000, ch0_freq = 9032\<rparr>"

definition read32_example :: "u8 \<Rightarrow> u8 \<Rightarrow> u8 \<Rightarrow> u8 \<Rightarrow> u32" where
  "read32_example a b c d = push_bit 24 (ucast a) OR push_bit 16 (ucast b) OR push_bit 8 (ucast c) OR ucast d"


section \<open>Signal levels\<close>

lemma unat_ucast_u8_u16: "unat (ucast (x :: u8) :: u16) = unat x"
  using unat_u8_lt [of x] by (simp add: unsigned_ucast_eq take_bit_nat_eq_self)

lemma rsl_step:
  assumes "8 * lo \<le> unat v" and "unat v \<le> 8 * hi" and "lo \<le> unat r" and "unat r \<le> hi" and "hi \<le> 255"
  shows "8 * lo \<le> unat (v + ucast (r :: u8) - drop_bit 3 v :: u16)" and "unat (v + ucast r - drop_bit 3 v :: u16) \<le> 8 * hi"
proof -
  have d: "unat (drop_bit 3 v) = unat v div 8" by (simp add: drop_bit_eq_div unat_div)
  have s: "unat (v + ucast r) = unat v + unat r"
    using assms(2,4,5) by (simp add: unat_word_ariths unat_ucast_u8_u16)
  have "unat (drop_bit 3 v) \<le> unat (v + ucast r)" unfolding d s by linarith
  then have "unat (v + ucast r - drop_bit 3 v) = unat v + unat r - unat v div 8"
    using unat_diff_le [of "drop_bit 3 v" "v + ucast r"] d s by (simp add: word_le_nat_alt)
  then show "8 * lo \<le> unat (v + ucast (r :: u8) - drop_bit 3 v :: u16)" "unat (v + ucast r - drop_bit 3 v :: u16) \<le> 8 * hi"
    using assms by linarith+
qed

lemma rsl_average_range:
  assumes "old = RSL_UNITITIALIZED \<or> 8 * lo \<le> unat old \<and> unat old \<le> 8 * hi"
    and "lo \<le> unat r" and "unat r \<le> hi" and "hi \<le> 255"
  shows "8 * lo \<le> unat (rsl_average r old) \<and> unat (rsl_average r old) \<le> 8 * hi"
proof -
  define v where "v = (if old = RSL_UNITITIALIZED then push_bit 3 (ucast r) else old)"
  have "unat (push_bit 3 (ucast r) :: u16) = 8 * unat r"
    using unat_u8_lt [of r] by (simp add: push_bit_eq_mult unat_word_ariths unat_ucast_u8_u16)
  then have "8 * lo \<le> unat v" "unat v \<le> 8 * hi" using assms by (auto simp: v_def)
  from rsl_step [OF this assms(2-4)] show ?thesis by (simp add: rsl_average_def Let_def v_def)
qed

lemma rsl_samples_range:
  assumes "rs \<noteq> []" and "\<forall>r \<in> set rs. lo \<le> unat r \<and> unat r \<le> hi" and "hi \<le> 255"
    and "old = RSL_UNITITIALIZED \<or> 8 * lo \<le> unat old \<and> unat old \<le> 8 * hi"
  shows "8 * lo \<le> unat (fold rsl_average rs old) \<and> unat (fold rsl_average rs old) \<le> 8 * hi"
  using assms
proof (induction rs arbitrary: old)
  case (Cons r rs)
  have r: "8 * lo \<le> unat (rsl_average r old) \<and> unat (rsl_average r old) \<le> 8 * hi"
    by (rule rsl_average_range) (use Cons.prems in simp_all)
  then show ?case
    using Cons.IH [of "rsl_average r old"] Cons.prems(2,3) by (cases "rs = []") simp_all
qed simp

lemma rsl_in_fold:
  "rsl_in (fold (ws_neighbor_class_rsl_in_calculate sens) dbms e) =
     fold rsl_average (map ws_neighbor_class_rsl_from_dbm_calculate dbms) (rsl_in e)"
proof (induction dbms arbitrary: e)
  case (Cons d dbms)
  have "rsl_in (ws_neighbor_class_rsl_in_calculate sens d e) =
      rsl_average (ws_neighbor_class_rsl_from_dbm_calculate d) (rsl_in e)"
    by (simp add: ws_neighbor_class_rsl_in_calculate_def ws_neighbor_class_parent_set_analyze_def Let_def)
  with Cons show ?case by simp
qed simp

lemma rsl_from_dbm: "sint d \<le> 81 \<Longrightarrow> int (unat (ws_neighbor_class_rsl_from_dbm_calculate d)) = sint d + 174"
  using sint_greater_eq [of d]
  by (simp only: ws_neighbor_class_rsl_from_dbm_calculate_def uint_nat [symmetric] uint_word_of_int)
    (simp add: mod_pos_pos_trivial)

text \<open>
  The average of the signal level heard from a neighbour, in dBm, lies between the weakest and
  the strongest level heard (up to 81 dBm, where the level leaves 8 bits), and it is never taken
  for an unset one.
\<close>

lemma rsl_in_between:
  fixes dbms :: "8 word list" and e :: ws_neighbor_class_entry_t and sens :: u8
  assumes "rsl_in e = RSL_UNITITIALIZED" and "dbms \<noteq> []"
    and "\<forall>d \<in> set dbms. weakest \<le> sint d \<and> sint d \<le> strongest" and "-128 \<le> weakest" and "strongest \<le> 81"
  defines "e' \<equiv> fold (ws_neighbor_class_rsl_in_calculate sens) dbms e"
  shows "weakest \<le> uint (drop_bit WS_RSL_SCALING (rsl_in e')) - 174 \<and>
    uint (drop_bit WS_RSL_SCALING (rsl_in e')) - 174 \<le> strongest \<and> rsl_in e' \<noteq> RSL_UNITITIALIZED"
proof -
  let ?lo = "nat (weakest + 174)" and ?hi = "nat (strongest + 174)"
  let ?rs = "map ws_neighbor_class_rsl_from_dbm_calculate dbms"
  have "?lo \<le> unat (ws_neighbor_class_rsl_from_dbm_calculate d) \<and>
      unat (ws_neighbor_class_rsl_from_dbm_calculate d) \<le> ?hi" if "d \<in> set dbms" for d
    using assms(3) [rule_format, OF that] assms(5) rsl_from_dbm [of d] by linarith
  then have "\<forall>r \<in> set ?rs. ?lo \<le> unat r \<and> unat r \<le> ?hi" by simp
  moreover have "?hi \<le> 255" "?rs \<noteq> []" using assms(2,5) by simp_all
  ultimately have b: "8 * ?lo \<le> unat (rsl_in e')" "unat (rsl_in e') \<le> 8 * ?hi"
    using rsl_samples_range [of ?rs ?lo ?hi RSL_UNITITIALIZED] unfolding e'_def rsl_in_fold assms(1) by simp_all
  have "uint (drop_bit WS_RSL_SCALING (rsl_in e')) = int (unat (rsl_in e') div 8)"
    by (simp add: drop_bit_eq_div uint_div zdiv_int)
  moreover have "?lo \<le> unat (rsl_in e') div 8" "unat (rsl_in e') div 8 \<le> ?hi" using b by linarith+
  moreover have "unat (rsl_in e') \<noteq> 32767" using b(2) assms(5) by linarith
  moreover have "0 \<le> weakest + 174" "0 \<le> strongest + 174" using assms(2-4) by (cases dbms; simp)+
  ultimately show ?thesis by auto
qed

end
