(* ===== verification/WsNode.thy ===== *)
theory WsNode
  imports Etx WsNeighbor
begin

text \<open>
  How a Wi-SUN node keeps its neighbours: the functions of \<open>6LoWPAN/ws/ws_bootstrap.c\<close> and
  \<open>6LoWPAN/ws/ws_common.c\<close> that tie together the MAC neighbour table, the ETX module, the Wi-SUN
  neighbour class, the device table of the MAC and the neighbour unreachability detection (NUD).

  The answers of other modules (registered children, RPL parents, random numbers, the clock of the
  MAC, whether a message could be built) are the fields of \<open>ws_env\<close>. Calls of other modules that
  only have effects there are logged in \<open>ws_calls\<close>. The index of a neighbour stands for the pointer
  to its entry, as in the table.
\<close>

section \<open>Data\<close>

abbreviation WS_NEIGHBOR_LINK_TIMEOUT :: u32 where "WS_NEIGHBOR_LINK_TIMEOUT \<equiv> 2200"
abbreviation WS_NEIGHBOUR_TEMPORARY_NEIGH_MAX_LIFETIME :: u32 where "WS_NEIGHBOUR_TEMPORARY_NEIGH_MAX_LIFETIME \<equiv> 240"
abbreviation WS_NEIGHBOUR_TEMPORARY_ENTRY_LIFETIME :: u32 where "WS_NEIGHBOUR_TEMPORARY_ENTRY_LIFETIME \<equiv> 5"
abbreviation WS_NEIGHBOUR_DHCP_ENTRY_LIFETIME :: u32 where "WS_NEIGHBOUR_DHCP_ENTRY_LIFETIME \<equiv> 60"
abbreviation WS_NEIGHBOR_NUD_TIMEOUT :: u32 where "WS_NEIGHBOR_NUD_TIMEOUT \<equiv> 1100"
abbreviation WS_NUD_RANDOM_SAMPLE_LENGTH :: u16 where "WS_NUD_RANDOM_SAMPLE_LENGTH \<equiv> 550"
abbreviation WS_NUD_RANDOM_COMPARE :: u16 where "WS_NUD_RANDOM_COMPARE \<equiv> 5"
abbreviation WS_NEIGHBOR_ETX_SAMPLE_MAX :: nat where "WS_NEIGHBOR_ETX_SAMPLE_MAX \<equiv> 3"
abbreviation WS_NUD_RETRY_LIMIT :: nat where "WS_NUD_RETRY_LIMIT \<equiv> 2"
abbreviation WS_NUD_RETRY_INTERVAL :: u16 where "WS_NUD_RETRY_INTERVAL \<equiv> 5001"

abbreviation WS_ETX_MIN_SAMPLE_COUNT :: u8 where "WS_ETX_MIN_SAMPLE_COUNT \<equiv> 4"
abbreviation WS_ETX_MAX_UPDATE :: u16 where "WS_ETX_MAX_UPDATE \<equiv> 1024"
abbreviation WS_ETX_MAX :: u16 where "WS_ETX_MAX \<equiv> 1024"
abbreviation WS_ETX_MIN_WAIT_TIME :: u8 where "WS_ETX_MIN_WAIT_TIME \<equiv> 60"
abbreviation WS_ETX_BAD_INIT_LINK_LEVEL :: u8 where "WS_ETX_BAD_INIT_LINK_LEVEL \<equiv> 3"
abbreviation WS_ETX_MAX_BAD_LINK_DROP :: u8 where "WS_ETX_MAX_BAD_LINK_DROP \<equiv> 2"

datatype ws_stats_type_e =
  STATS_WS_NEIGHBOUR_ADD | STATS_WS_NEIGHBOUR_REMOVE | STATS_WS_CHILD_ADD | STATS_WS_CHILD_REMOVE

datatype aro_status = ARO_SUCCESS | ARO_FULL | ARO_TOPOLOGICALLY_INCORRECT

datatype ws_call =
    Neigh_remove_free_tx_tables u8
  | Poll_mode_decrement
  | Release_short_link_address u16
  | Release_long_link_address bytes
  | Stats_update ws_stats_type_e
  | Send_ns bytes "bytes option"

text \<open>\<open>slot\<close> is the place of the entry in the array \<open>nud_table_entrys\<close>.\<close>

record ws_nud_table_entry_t =
  slot :: nat
  neighbor_info :: "u8 option"
  timer :: u16
  retry_count :: "2 word"
  wait_response :: bool
  nud_process :: bool

record ws_node =
  node_id :: "8 word"
  nbr_table :: mac_neighbor_table_t
  nbr_etx :: ext_info_t
  neighbor_storage :: ws_neighbor_class_t
  device_table :: "u8 \<Rightarrow> (bytes \<times> u16) option"
  active_nud :: "ws_nud_table_entry_t list"
  free_nud_entries :: "ws_nud_table_entry_t list"
  eapol_tx_index :: u8
  ws_calls :: "ws_call list"

record ws_env =
  rx_off_idle :: bool
  has_registered_by_eui64 :: "bytes \<Rightarrow> bool"
  is_dodag_parent :: "bytes \<Rightarrow> bool"
  is_dodag_parent_candidate :: "bytes \<Rightarrow> bool"
  probe_parent_candidate :: "bytes \<Rightarrow> bool"
  small_network :: bool
  rapid_join :: bool
  bootstrap_done :: bool
  border_router :: bool
  has_selected_parent :: bool
  temporary_lifetime :: u32
  temp_link_min_timeout :: u32
  max_child_count_override :: u16
  mac_timestamp :: u32
  probe_source :: "bytes option"
  ns_built :: "u8 \<Rightarrow> bool"
  rand_switch :: "u8 \<Rightarrow> u16 \<Rightarrow> u16 \<Rightarrow> u16"
  rand_timer :: "nat \<Rightarrow> u16 \<Rightarrow> u16 \<Rightarrow> u16"
  read_16_bit :: "u8 \<Rightarrow> u8 \<Rightarrow> u16"

text \<open>The entry behind a pointer.\<close>

definition nbr_at :: "ws_node \<Rightarrow> u8 \<Rightarrow> mac_neighbor_table_entry_t" where
  "nbr_at s i =
     (case find (\<lambda>e. index e = i) (neighbour_list (nbr_table s) @ free_list (nbr_table s)) of
        Some e \<Rightarrow> e
      | None \<Rightarrow> neighbor_zero i)"

definition nbr_modify ::
    "u8 \<Rightarrow> (mac_neighbor_table_entry_t \<Rightarrow> mac_neighbor_table_entry_t) \<Rightarrow> ws_node \<Rightarrow> ws_node" where
  "nbr_modify i f s = s\<lparr>nbr_table := neighbor_upd i f (nbr_table s)\<rparr>"

definition log_call :: "ws_call \<Rightarrow> ws_node \<Rightarrow> ws_node" where
  "log_call c s = s\<lparr>ws_calls := ws_calls s @ [c]\<rparr>"

definition ws_bootsrap_create_ll_address :: "bytes \<Rightarrow> bytes" where
  "ws_bootsrap_create_ll_address mac =
     (let ll_address = ADDR_LINK_LOCAL_PREFIX @ take 8 mac in ll_address[8 := ll_address ! 8 XOR 2])"

definition mac_helper_devicetable_set :: "u8 \<Rightarrow> bytes \<Rightarrow> u16 \<Rightarrow> ws_node \<Rightarrow> ws_node" where
  "mac_helper_devicetable_set i mac short s = s\<lparr>device_table := (device_table s)(i := Some (mac, short))\<rparr>"

definition mac_helper_devicetable_remove :: "u8 \<Rightarrow> ws_node \<Rightarrow> ws_node" where
  "mac_helper_devicetable_remove i s = s\<lparr>device_table := (device_table s)(i := None)\<rparr>"

section \<open>Neighbour unreachability detection\<close>

definition ws_nud_table_reset :: "ws_node \<Rightarrow> ws_node" where
  "ws_nud_table_reset s =
     s\<lparr>active_nud := [], free_nud_entries :=
       map (\<lambda>k. case find (\<lambda>n. slot n = k) (active_nud s @ free_nud_entries s) of
             Some n \<Rightarrow> n
           | None \<Rightarrow> \<lparr>slot = k, neighbor_info = None, timer = 0, retry_count = 0, wait_response = False,
                       nud_process = False\<rparr>)
         [0..<unat ACTIVE_NUD_PROCESS_MAX]\<rparr>"

text \<open>The result is whether there was a free entry; the entry is then the last active one.\<close>

definition ws_nud_entry_get_free :: "ws_env \<Rightarrow> ws_node \<Rightarrow> bool \<times> ws_node" where
  "ws_nud_entry_get_free env s =
     (case free_nud_entries s of
        [] \<Rightarrow> (False, s)
      | entry # rest \<Rightarrow>
          let t = (if rapid_join env
                   then if bootstrap_done env then rand_timer env (slot entry) 500 1000
                        else rand_timer env (slot entry) 50 100
                   else rand_timer env (slot entry) 1 900);
              entry = entry\<lparr>wait_response := False, retry_count := 0, nud_process := False, timer := t,
                            neighbor_info := None\<rparr>
          in (True, s\<lparr>free_nud_entries := rest, active_nud := active_nud s @ [entry]\<rparr>))"

definition ws_nud_entry_discover :: "ws_node \<Rightarrow> u8 \<Rightarrow> ws_nud_table_entry_t option" where
  "ws_nud_entry_discover s i = find (\<lambda>entry. neighbor_info entry = Some i) (active_nud s)"

definition nud_move_to_free :: "ws_nud_table_entry_t \<Rightarrow> ws_node \<Rightarrow> ws_node" where
  "nud_move_to_free entry s =
     s\<lparr>active_nud := filter (\<lambda>n. slot n \<noteq> slot entry) (active_nud s),
       free_nud_entries := free_nud_entries s @ [entry]\<rparr>"

definition ws_nud_entry_remove_active :: "u8 \<Rightarrow> ws_node \<Rightarrow> ws_node" where
  "ws_nud_entry_remove_active i s =
     (case ws_nud_entry_discover s i of
        None \<Rightarrow> s
      | Some entry \<Rightarrow>
          let s = nud_move_to_free entry s;
              s = (if nud_active (nbr_at s i)
                   then s\<lparr>nbr_table := mac_neighbor_table_neighbor_refresh i (link_lifetime (nbr_at s i)) (nbr_table s)\<rparr>
                   else s)
          in s\<lparr>nbr_table := mac_neighbor_table_neighbor_connected i (nbr_table s)\<rparr>)"

definition ws_nud_state_clean :: "ws_nud_table_entry_t \<Rightarrow> ws_node \<Rightarrow> ws_node" where
  "ws_nud_state_clean entry s =
     (let s = nud_move_to_free entry s in
      case neighbor_info entry of
        None \<Rightarrow> s
      | Some i \<Rightarrow>
          if nud_active (nbr_at s i)
          then
            let s = nbr_modify i (\<lambda>e. e\<lparr>nud_active := False\<rparr>) s
            in s\<lparr>nbr_table := (nbr_table s)\<lparr>active_nud_process := active_nud_process (nbr_table s) - 1\<rparr>\<rparr>
          else s)"

definition ws_nud_entry_remove :: "u8 \<Rightarrow> ws_node \<Rightarrow> ws_node" where
  "ws_nud_entry_remove i s =
     (case ws_nud_entry_discover s i of
        Some nud_entry \<Rightarrow> ws_nud_state_clean nud_entry s
      | None \<Rightarrow> s)"

section \<open>Removal of a neighbour\<close>

definition ws_bootstrap_neighbor_delete :: "mac_neighbor_table_entry_t \<Rightarrow> ws_node \<Rightarrow> ws_node" where
  "ws_bootstrap_neighbor_delete entry s =
     (let s = mac_helper_devicetable_remove (index entry) s;
          s = s\<lparr>nbr_etx := etx_neighbor_remove (node_id s) (index entry) (mac64 entry) (nbr_etx s)\<rparr>
      in s\<lparr>neighbor_storage := ws_neighbor_class_entry_remove (index entry) (neighbor_storage s)\<rparr>)"

definition ws_neighbor_entry_remove_notify :: "ws_env \<Rightarrow> mac_neighbor_table_entry_t \<Rightarrow> ws_node \<Rightarrow> ws_node" where
  "ws_neighbor_entry_remove_notify env entry s =
     (let s = log_call (Neigh_remove_free_tx_tables (index entry)) s;
          s = (if rx_off_idle env then log_call Poll_mode_decrement s else s);
          s = (if has_registered_by_eui64 env (mac64 entry) then log_call (Stats_update STATS_WS_CHILD_REMOVE) s else s);
          s = (if ffd_device entry
               then log_call (Release_long_link_address (mac64 entry)) (log_call (Release_short_link_address (mac16 entry)) s)
               else s);
          s = ws_nud_entry_remove (index entry) s;
          s = ws_bootstrap_neighbor_delete entry s
      in log_call (Stats_update STATS_WS_NEIGHBOUR_REMOVE) s)"

text \<open>
  An operation of the neighbour table, with the callback for every entry it removed. The table has
  taken the entry out of its list and cleared its NUD flag when it calls the callback, which does
  not look at the rest of the table.
\<close>

definition ws_table_op ::
    "ws_env \<Rightarrow> (mac_neighbor_table_t \<Rightarrow> mac_neighbor_table_t) \<Rightarrow> ws_node \<Rightarrow> ws_node" where
  "ws_table_op env f s =
     (let tbl = f (nbr_table s) in
      fold (ws_neighbor_entry_remove_notify env) (drop (length (removed_log (nbr_table s))) (removed_log tbl))
        (s\<lparr>nbr_table := tbl\<rparr>))"

definition ws_bootstrap_neighbor_remove :: "ws_env \<Rightarrow> bytes \<Rightarrow> ws_node \<Rightarrow> ws_node" where
  "ws_bootstrap_neighbor_remove env ll_address s =
     (case fst (fst (mac_neighbor_entry_get_by_ll64 (read_16_bit env) (nbr_table s) ll_address False)) of
        Some i \<Rightarrow> ws_table_op env (mac_neighbor_table_neighbor_remove i) s
      | None \<Rightarrow> s)"

section \<open>Adding a neighbour\<close>

definition ws_discover :: "ws_env \<Rightarrow> ws_node \<Rightarrow> bytes \<Rightarrow> u8 option" where
  "ws_discover env s mac =
     mac_neighbor_table_address_discover (read_16_bit env) (nbr_table s) mac ADDR_802_15_4_LONG"

definition ws_bootstrap_mac_neighbor_allocate :: "ws_env \<Rightarrow> bytes \<Rightarrow> ws_node \<Rightarrow> u8 option \<times> ws_node" where
  "ws_bootstrap_mac_neighbor_allocate env mac s =
     (case mac_neighbor_table_entry_allocate (nbr_table s) mac of
        (None, tbl) \<Rightarrow> (None, s\<lparr>nbr_table := tbl\<rparr>)
      | (Some i, tbl) \<Rightarrow>
          let s = nbr_modify i (\<lambda>e. e\<lparr>lifetime := temporary_lifetime env, link_lifetime := temporary_lifetime env\<rparr>)
                    (s\<lparr>nbr_table := tbl\<rparr>)
          in (Some i, mac_helper_devicetable_set i (mac64 (nbr_at s i)) (mac16 (nbr_at s i)) s))"

definition ws_bootstrap_mac_neighbor_add :: "ws_env \<Rightarrow> bytes \<Rightarrow> ws_node \<Rightarrow> u8 option \<times> ws_node" where
  "ws_bootstrap_mac_neighbor_add env mac s =
     (case ws_discover env s mac of
        Some i \<Rightarrow> (Some i, s)
      | None \<Rightarrow> ws_bootstrap_mac_neighbor_allocate env mac s)"

definition ws_bootstrap_neighbor_set_stable :: "ws_env \<Rightarrow> bytes \<Rightarrow> ws_node \<Rightarrow> ws_node" where
  "ws_bootstrap_neighbor_set_stable env mac s =
     (case ws_discover env s mac of
        Some i \<Rightarrow>
          if link_lifetime (nbr_at s i) \<noteq> WS_NEIGHBOR_LINK_TIMEOUT
          then nbr_modify i (\<lambda>e. e\<lparr>lifetime := WS_NEIGHBOR_LINK_TIMEOUT, link_lifetime := WS_NEIGHBOR_LINK_TIMEOUT\<rparr>) s
          else s
      | None \<Rightarrow> s)"

definition ws_bootstrap_mac_neighbor_short_time_set :: "ws_env \<Rightarrow> bytes \<Rightarrow> u32 \<Rightarrow> ws_node \<Rightarrow> ws_node" where
  "ws_bootstrap_mac_neighbor_short_time_set env mac valid_time s =
     (case ws_discover env s mac of
        Some i \<Rightarrow>
          if link_lifetime (nbr_at s i) \<le> valid_time
          then nbr_modify i (\<lambda>e. e\<lparr>lifetime := valid_time, link_lifetime := valid_time\<rparr>) s
          else s
      | None \<Rightarrow> s)"

definition ws_bootstrap_dhcp_neighbour_update_cb :: "ws_env \<Rightarrow> bytes \<Rightarrow> ws_node \<Rightarrow> ws_node" where
  "ws_bootstrap_dhcp_neighbour_update_cb env ll_addr s =
     (if take 8 ll_addr \<noteq> ADDR_LINK_LOCAL_PREFIX then s
      else
        let mac = take 8 (drop 8 ll_addr)
        in ws_bootstrap_mac_neighbor_short_time_set env (mac[0 := mac ! 0 XOR 2]) WS_NEIGHBOUR_DHCP_ENTRY_LIFETIME s)"

definition ws_common_negative_aro_mark :: "ws_env \<Rightarrow> bytes \<Rightarrow> ws_node \<Rightarrow> bool \<times> ws_node" where
  "ws_common_negative_aro_mark env eui64 s =
     (if ws_discover env s eui64 = None then (False, s)
      else (True, ws_bootstrap_mac_neighbor_short_time_set env eui64 WS_NEIGHBOUR_TEMPORARY_NEIGH_MAX_LIFETIME s))"

definition ws_bootstrap_add_locallink :: "ws_env \<Rightarrow> bytes \<Rightarrow> ws_node \<Rightarrow> ws_node" where
  "ws_bootstrap_add_locallink env mac s =
     (case ws_bootstrap_mac_neighbor_add env mac s of
        (Some i, s) \<Rightarrow> nbr_modify i (\<lambda>e. e\<lparr>connected_device := True\<rparr>) s
      | (None, s) \<Rightarrow> s)"

section \<open>The entry for EAPOL transmissions\<close>

definition ws_bootstap_eapol_neigh_entry_allocate :: "ws_env \<Rightarrow> ws_node \<Rightarrow> ws_node" where
  "ws_bootstap_eapol_neigh_entry_allocate env s =
     (case ws_bootstrap_mac_neighbor_add env (replicate 8 0) s of
        (None, s) \<Rightarrow> s
      | (Some i, s) \<Rightarrow>
          let s = nbr_modify i (\<lambda>e. e\<lparr>lifetime := 0xffffffff, link_lifetime := 0xffffffff\<rparr>) s
          in if ws_neighbor_class_entry_get (neighbor_storage s) i = None then s
             else s\<lparr>eapol_tx_index := i\<rparr>)"

text \<open>The result is whether an entry of the neighbour class is returned.\<close>

definition ws_bootstrap_eapol_tx_temporary_set :: "ws_env \<Rightarrow> bytes \<Rightarrow> ws_node \<Rightarrow> bool \<times> ws_node" where
  "ws_bootstrap_eapol_tx_temporary_set env mac s =
     (case mac_neighbor_table_attribute_discover (nbr_table s) (eapol_tx_index s) of
        None \<Rightarrow> (False, s)
      | Some i \<Rightarrow>
          let s = nbr_modify i (\<lambda>e. e\<lparr>mac64 := take 8 mac\<rparr>) s;
              s = mac_helper_devicetable_set (eapol_tx_index s) (take 8 mac) 0xffff s
          in (ws_neighbor_class_entry_get (neighbor_storage s) i \<noteq> None, s))"

definition ws_bootstrap_eapol_tx_temporary_clear :: "ws_node \<Rightarrow> ws_node" where
  "ws_bootstrap_eapol_tx_temporary_clear s =
     (case mac_neighbor_table_attribute_discover (nbr_table s) (eapol_tx_index s) of
        None \<Rightarrow> s
      | Some i \<Rightarrow>
          mac_helper_devicetable_remove (eapol_tx_index s)
            (nbr_modify i (\<lambda>e. e\<lparr>mac64 := replicate 8 0xff\<rparr>) s))"

definition ws_bootstrap_neighbor_list_clean :: "ws_env \<Rightarrow> ws_node \<Rightarrow> ws_node" where
  "ws_bootstrap_neighbor_list_clean env s =
     ws_bootstap_eapol_neigh_entry_allocate env (ws_table_op env mac_neighbor_table_neighbor_list_clean s)"

section \<open>Making room for a neighbour\<close>

definition ws_time_from_last_unicast_traffic :: "u32 \<Rightarrow> ws_neighbor_class_entry_t \<Rightarrow> u32" where
  "ws_time_from_last_unicast_traffic current_time_stamp e =
     (current_time_stamp - utt_rx_timestamp (uc_timing_info e)) div 1000000"

definition ws_common_temporary_entry_size :: "u8 \<Rightarrow> u8" where
  "ws_common_temporary_entry_size mac_table_size =
     (if mac_table_size \<ge> 128 then 25 else if mac_table_size \<ge> 64 then 15 else 10)"

text \<open>Every neighbour has an entry in the neighbour class; see the invariant of the node.\<close>

definition ws_unicast_age :: "ws_env \<Rightarrow> ws_node \<Rightarrow> mac_neighbor_table_entry_t \<Rightarrow> u32" where
  "ws_unicast_age env s cur =
     ws_time_from_last_unicast_traffic (mac_timestamp env)
       (case ws_neighbor_class_entry_get (neighbor_storage s) (index cur) of
          Some e \<Rightarrow> e
        | None \<Rightarrow> ws_neighbor_zero)"

definition ws_clean_candidate ::
    "ws_env \<Rightarrow> ws_node \<Rightarrow> u32 \<Rightarrow> mac_neighbor_table_entry_t \<Rightarrow> mac_neighbor_table_entry_t option
      \<Rightarrow> mac_neighbor_table_entry_t option" where
  "ws_clean_candidate env s min_timeout cur best =
     (if index cur = eapol_tx_index s then best
      else if link_role cur = PRIORITY_PARENT_NEIGHBOUR then best
      else if nud_active cur then best
      else if (case best of Some b \<Rightarrow> lifetime b < lifetime cur | None \<Rightarrow> False) then best
      else if link_lifetime cur > WS_NEIGHBOUR_TEMPORARY_ENTRY_LIFETIME
              \<and> link_lifetime cur \<le> WS_NEIGHBOUR_TEMPORARY_NEIGH_MAX_LIFETIME then best
      else if trusted_device cur \<and> has_registered_by_eui64 env (mac64 cur) then best
      else if trusted_device cur \<and> is_dodag_parent env (ws_bootsrap_create_ll_address (mac64 cur)) then best
      else if ws_unicast_age env s cur \<ge> min_timeout
      then case best of
             None \<Rightarrow> Some cur
           | Some b \<Rightarrow> if ws_unicast_age env s b < ws_unicast_age env s cur then Some cur else best
      else best)"

definition ws_bootstrap_neighbor_table_clean :: "ws_env \<Rightarrow> ws_node \<Rightarrow> ws_node" where
  "ws_bootstrap_neighbor_table_clean env s =
     (let tbl = nbr_table s in
      if int (unat (neighbour_list_size tbl)) \<le>
           int (unat (list_total_size tbl)) - int (unat (ws_common_temporary_entry_size (list_total_size tbl)))
      then s
      else
        let min_timeout = (if neighbour_list_size tbl = list_total_size tbl then 1 else temp_link_min_timeout env)
        in case fold (ws_clean_candidate env s min_timeout) (neighbour_list tbl) None of
             Some e \<Rightarrow> ws_table_op env (mac_neighbor_table_neighbor_remove (index e)) s
           | None \<Rightarrow> s)"

text \<open>The result and the index of the neighbour in the request.\<close>

definition ws_bootstrap_neighbor_info_request ::
    "ws_env \<Rightarrow> bytes \<Rightarrow> bool \<Rightarrow> ws_node \<Rightarrow> (bool \<times> u8 option) \<times> ws_node" where
  "ws_bootstrap_neighbor_info_request env mac request_new s =
     (case ws_discover env s mac of
        Some i \<Rightarrow> ((ws_neighbor_class_entry_get (neighbor_storage s) i \<noteq> None, Some i), s)
      | None \<Rightarrow>
          if \<not> request_new then ((False, None), s)
          else
            case ws_bootstrap_mac_neighbor_add env mac (ws_bootstrap_neighbor_table_clean env s) of
              (None, s) \<Rightarrow> ((False, None), s)
            | (Some i, s) \<Rightarrow>
                if ws_neighbor_class_entry_get (neighbor_storage s) i = None
                then ((False, Some i), ws_table_op env (mac_neighbor_table_neighbor_remove i) s)
                else ((True, Some i), log_call (Stats_update STATS_WS_NEIGHBOUR_ADD) s))"

section \<open>Children\<close>

definition ws_common_neighbour_address_reg_link_update :: "ws_env \<Rightarrow> bytes \<Rightarrow> u32 \<Rightarrow> ws_node \<Rightarrow> ws_node" where
  "ws_common_neighbour_address_reg_link_update env eui64 life s =
     (let life = (if life > WS_NEIGHBOR_LINK_TIMEOUT then WS_NEIGHBOR_LINK_TIMEOUT else life) in
      case fst (fst (mac_neighbor_entry_get_by_mac64 (read_16_bit env) (nbr_table s) eui64 False)) of
        None \<Rightarrow> s
      | Some i \<Rightarrow>
          nbr_modify i (\<lambda>e.
            let e = (if link_lifetime e < life then e\<lparr>link_lifetime := WS_NEIGHBOR_LINK_TIMEOUT\<rparr> else e)
            in e\<lparr>lifetime := link_lifetime e\<rparr>) s)"

definition ws_common_allow_child_registration :: "ws_env \<Rightarrow> bytes \<Rightarrow> u16 \<Rightarrow> ws_node \<Rightarrow> aro_status \<times> ws_node" where
  "ws_common_allow_child_registration env eui64 aro_timeout s =
     (let total_size = list_total_size (nbr_table s);
          max_child_count = total_size - ws_common_temporary_entry_size total_size
      in if aro_timeout = 0 then (ARO_SUCCESS, s)
         else
           let life = ucast aro_timeout * 60 + 1;
               max_child_count = (if max_child_count_override env \<noteq> 0xffff then ucast (max_child_count_override env)
                                  else max_child_count)
           in if has_registered_by_eui64 env eui64
              then (ARO_SUCCESS, ws_common_neighbour_address_reg_link_update env eui64 life s)
              else if \<not> border_router env \<and> \<not> has_selected_parent env then (ARO_TOPOLOGICALLY_INCORRECT, s)
              else
                let child_count = fold (\<lambda>cur n. if has_registered_by_eui64 env (mac64 cur) then n + 1 else n)
                                    (neighbour_list (nbr_table s)) (0 :: u8)
                in if child_count \<ge> max_child_count then (ARO_FULL, s)
                   else (ARO_SUCCESS, log_call (Stats_update STATS_WS_CHILD_ADD)
                          (ws_common_neighbour_address_reg_link_update env eui64 life s)))"

section \<open>Timers\<close>

definition ws_probe_init_time_get :: "ws_env \<Rightarrow> u32" where
  "ws_probe_init_time_get env = (if small_network env then 4 else 8)"

text \<open>
  Whether to start a process for a neighbour: \<open>None\<close> or whether it is a NUD process and not a probe.
  \<open>WS_NEIGHBOR_NUD_TIMEOUT * 1.8\<close> and \<open>WS_NEIGHBOR_NUD_TIMEOUT * 1.5\<close> are 1980 and 1650.
\<close>

definition ws_nud_wanted :: "ws_env \<Rightarrow> mac_neighbor_table_entry_t \<Rightarrow> nat \<Rightarrow> bool option" where
  "ws_nud_wanted env entry samples =
     (let time_from_start = link_lifetime entry - lifetime entry;
          ll_address = ws_bootsrap_create_ll_address (mac64 entry)
      in if time_from_start > WS_NEIGHBOR_NUD_TIMEOUT
         then
           let child = has_registered_by_eui64 env (mac64 entry) in
           if \<not> child \<and> \<not> is_dodag_parent_candidate env ll_address then None
           else if child \<and> time_from_start < 1980 then None
           else if time_from_start > 1650
                   \<or> rand_switch env (index entry) 0 (WS_NUD_RANDOM_SAMPLE_LENGTH - 1) < WS_NUD_RANDOM_COMPARE
           then Some True else None
         else if samples < WS_NEIGHBOR_ETX_SAMPLE_MAX
         then
           if \<not> probe_parent_candidate env ll_address then None
           else
             let probe_period = push_bit samples (ws_probe_init_time_get env);
                 time_block = push_bit samples 1
             in if time_from_start \<ge> probe_period
                   \<or> time_from_start > time_block
                     \<and> rand_switch env (index entry) 0 (ucast (probe_period - 1)) < 2
                then Some False else None
         else None)"

definition ws_neighbor_entry_nud_notify :: "ws_env \<Rightarrow> mac_neighbor_table_entry_t \<Rightarrow> ws_node \<Rightarrow> bool \<times> ws_node" where
  "ws_neighbor_entry_nud_notify env entry s =
     (if \<not> trusted_device entry \<or> ws_neighbor_class_entry_get (neighbor_storage s) (index entry) = None
         \<or> \<not> etx_storage_entry_get (nbr_etx s) (node_id s) (index entry)
         \<or> link_lifetime entry \<le> WS_NEIGHBOUR_TEMPORARY_NEIGH_MAX_LIFETIME
      then (False, s)
      else
        case ws_nud_wanted env entry (unat (etx_samples (etx_entry (nbr_etx s) (index entry)))) of
          None \<Rightarrow> (False, s)
        | Some nud_proces \<Rightarrow>
            case ws_nud_entry_get_free env s of
              (False, s) \<Rightarrow> (False, s)
            | (True, s) \<Rightarrow>
                (True, s\<lparr>active_nud := butlast (active_nud s) @
                   [(last (active_nud s))\<lparr>neighbor_info := Some (index entry), nud_process := nud_proces\<rparr>]\<rparr>))"

text \<open>
  One entry of the pass over the neighbours: the callback is asked when the table would call it,
  and the table goes on with its answer.
\<close>

definition ws_nud_asked :: "u32 \<Rightarrow> u8 \<Rightarrow> mac_neighbor_table_t \<Rightarrow> mac_neighbor_table_entry_t option" where
  "ws_nud_asked time_update i tbl =
     (case find (\<lambda>e. index e = i) (neighbour_list tbl) of
        None \<Rightarrow> None
      | Some cur \<Rightarrow>
          if lifetime cur > time_update \<and> \<not> (lifetime cur = 0xffffffff \<and> link_lifetime cur = 0xffffffff)
             \<and> has_nud_cb tbl \<and> \<not> active_nud_process tbl > ACTIVE_NUD_PROCESS_MAX \<and> \<not> nud_active cur \<and> rx_on_idle cur
          then Some (cur\<lparr>lifetime := lifetime cur - time_update\<rparr>) else None)"

definition ws_timeout_step :: "ws_env \<Rightarrow> u32 \<Rightarrow> u8 \<Rightarrow> ws_node \<Rightarrow> ws_node" where
  "ws_timeout_step env time_update i s =
     (let (answer, s) =
        (case ws_nud_asked time_update i (nbr_table s) of
           None \<Rightarrow> (False, s)
         | Some cur \<Rightarrow> ws_neighbor_entry_nud_notify env cur s)
      in ws_table_op env (neighbor_timeout_step (\<lambda>_. answer) time_update i) s)"

definition ws_neighbor_timeout_update :: "ws_env \<Rightarrow> u32 \<Rightarrow> ws_node \<Rightarrow> ws_node" where
  "ws_neighbor_timeout_update env time_update s =
     fold (ws_timeout_step env time_update) (map index (neighbour_list (nbr_table s))) s"

text \<open>The neighbour solicitation is logged when it could be built.\<close>

definition ws_nud_message_build :: "ws_env \<Rightarrow> u8 \<Rightarrow> bool \<Rightarrow> ws_node \<Rightarrow> bool \<times> ws_node" where
  "ws_nud_message_build env i nud s =
     (let ll_target = ws_bootsrap_create_ll_address (mac64 (nbr_at s i));
          src_address = (if nud then None else probe_source env)
      in if ns_built env i then (True, log_call (Send_ns ll_target src_address) s) else (False, s))"

definition nud_set :: "ws_nud_table_entry_t \<Rightarrow> ws_node \<Rightarrow> ws_node" where
  "nud_set entry s = s\<lparr>active_nud := map (\<lambda>n. if slot n = slot entry then entry else n) (active_nud s)\<rparr>"

definition ws_nud_expired :: "ws_env \<Rightarrow> ws_nud_table_entry_t \<Rightarrow> ws_node \<Rightarrow> ws_node" where
  "ws_nud_expired env entry s =
     (case neighbor_info entry of
        None \<Rightarrow> s
      | Some i \<Rightarrow>
          if wait_response entry
          then
            if nud_process entry
            then
              if unat (retry_count entry) < WS_NUD_RETRY_LIMIT
              then nud_set (entry\<lparr>timer := rand_timer env (slot entry) 1 900, wait_response := False\<rparr>) s
              else ws_table_op env (mac_neighbor_table_neighbor_remove i) (ws_nud_state_clean entry s)
            else ws_nud_state_clean entry s
          else
            case ws_nud_message_build env i (nud_process entry) s of
              (False, s) \<Rightarrow>
                if nud_process entry \<and> unat (retry_count entry) < WS_NUD_RETRY_LIMIT
                then nud_set (entry\<lparr>timer := rand_timer env (slot entry) 1 900, wait_response := False\<rparr>) s
                else ws_nud_state_clean (entry\<lparr>wait_response := False\<rparr>) s
            | (True, s) \<Rightarrow>
                nud_set (entry\<lparr>wait_response := True, retry_count := retry_count entry + 1,
                               timer := WS_NUD_RETRY_INTERVAL\<rparr>) s)"

definition ws_nud_timer_step :: "ws_env \<Rightarrow> u16 \<Rightarrow> nat \<Rightarrow> ws_node \<Rightarrow> ws_node" where
  "ws_nud_timer_step env ms k s =
     (case find (\<lambda>n. slot n = k) (active_nud s) of
        None \<Rightarrow> s
      | Some entry \<Rightarrow>
          if timer entry \<le> ms then ws_nud_expired env entry s
          else nud_set (entry\<lparr>timer := timer entry - ms\<rparr>) s)"

definition ws_nud_active_timer :: "ws_env \<Rightarrow> u16 \<Rightarrow> ws_node \<Rightarrow> ws_node" where
  "ws_nud_active_timer env ticks s =
     (let ms = (if ticks > 655 then 0xffff else if ticks = 0 then 1 else ticks * 100)
      in fold (ws_nud_timer_step env ms) (map slot (active_nud s)) s)"

definition ws_common_neighbor_update :: "ws_env \<Rightarrow> bytes \<Rightarrow> ws_node \<Rightarrow> ws_node" where
  "ws_common_neighbor_update env ll_address s =
     (case fst (fst (mac_neighbor_entry_get_by_ll64 (read_16_bit env) (nbr_table s) ll_address False)) of
        Some i \<Rightarrow> ws_nud_entry_remove_active i s
      | None \<Rightarrow> s)"

section \<open>Reading\<close>

definition ws_etx_read :: "ws_env \<Rightarrow> addrtype_t \<Rightarrow> bytes option \<Rightarrow> ws_node \<Rightarrow> u16" where
  "ws_etx_read env addr_type addr_ptr s =
     (case addr_ptr of
        None \<Rightarrow> 0
      | Some addr \<Rightarrow>
          case mac_neighbor_table_address_discover (read_16_bit env) (nbr_table s) (drop 2 addr) addr_type of
            None \<Rightarrow> 0xffff
          | Some i \<Rightarrow>
              if ws_neighbor_class_entry_get (neighbor_storage s) i = None
                 \<or> \<not> etx_storage_entry_get (nbr_etx s) (node_id s) i
              then 0xffff
              else
                let v = etx_local_etx_read (nbr_etx s) (node_id s) i
                in if v = 0xffff \<and> has_registered_by_eui64 env (mac64 (nbr_at s i)) then 0x100 else v)"

definition ws_get_neighbor_info :: "ws_env \<Rightarrow> bytes \<Rightarrow> ws_node \<Rightarrow> ws_neighbor_class_entry_t option" where
  "ws_get_neighbor_info env eui64 s =
     (case ws_discover env s eui64 of
        None \<Rightarrow> None
      | Some i \<Rightarrow> ws_neighbor_class_entry_get (neighbor_storage s) i)"

section \<open>Start of the node\<close>

text \<open>
  The tables \<open>ws_bootstrap_init\<close> sets up when every allocation succeeds, with the callback that
  RPL registers at the ETX module.
\<close>

definition ws_node_start :: "ws_env \<Rightarrow> 8 word \<Rightarrow> u8 \<Rightarrow> u16 \<Rightarrow> ws_node" where
  "ws_node_start env if_id n hyst =
     (let st = snd (etx_storage_list_allocate True if_id n etx_info_init);
          st = snd (etx_cached_etx_parameter_set True WS_ETX_MIN_WAIT_TIME WS_ETX_MIN_SAMPLE_COUNT
                 (if rapid_join env then 1 else 3) st);
          st = snd (etx_allow_drop_for_poor_measurements WS_ETX_BAD_INIT_LINK_LEVEL WS_ETX_MAX_BAD_LINK_DROP st);
          st = etx_max_set WS_ETX_MAX (etx_max_update_set WS_ETX_MAX_UPDATE st);
          st = snd (etx_value_change_callback_register True if_id hyst True st)
      in \<lparr>node_id = if_id, nbr_table = the (mac_neighbor_table_create True n True True), nbr_etx = st,
          neighbor_storage = snd (ws_neighbor_class_alloc True n \<lparr>neigh_info_list = None, list_size = 0\<rparr>),
          device_table = (\<lambda>_. None), active_nud = [], free_nud_entries = [], eapol_tx_index = 0, ws_calls = []\<rparr>)"

end
