(* ===== verification/WsNodeInv.thy ===== *)
theory WsNodeInv
  imports WsNode MacNeighborInv EtxProps
begin

text \<open>
  The tables of a Wi-SUN node stay consistent: what the ETX module, the neighbour class and the
  device table of the MAC hold for an index belongs to the neighbour that has the index now, and
  every running unreachability detection belongs to a neighbour of the table.
\<close>

section \<open>The ETX module touches one entry\<close>

text \<open>What the module keeps of the other neighbours.\<close>

definition etx_others :: "u8 \<Rightarrow> ext_info_t \<Rightarrow> (u8 \<Rightarrow> (etx_storage_t \<times> etx_sample_storage_t) option) \<times> 8 word" where
  "etx_others i st = ((\<lambda>j. if j = i then None else Some (etx_entry st j, etx_cache st j)), etx_interface_id st)"

lemma etx_others_eqD:
  assumes "etx_others i st' = etx_others i st" and "j \<noteq> i"
  shows "etx_entry st' j = etx_entry st j" and "etx_cache st' j = etx_cache st j"
    and "etx_interface_id st' = etx_interface_id st"
proof -
  have "fst (etx_others i st') j = fst (etx_others i st) j" using assms(1) by simp
  then show "etx_entry st' j = etx_entry st j" "etx_cache st' j = etx_cache st j"
    using assms(2) by (simp_all add: etx_others_def)
  show "etx_interface_id st' = etx_interface_id st" using assms(1) by (simp add: etx_others_def)
qed

lemma etx_others_id: "etx_others i st' = etx_others i st \<Longrightarrow> etx_interface_id st' = etx_interface_id st"
  by (simp add: etx_others_def)

lemma nth_update_other: "i \<noteq> j \<Longrightarrow> xs[unat (i :: u8) := x] ! unat j = xs ! unat j"
  by (metis nth_list_update_neq unsigned_word_eqI)

lemma etx_others_upd [simp]: "etx_others i (etx_upd i f st) = etx_others i st"
  by (auto simp: etx_others_def etx_upd_def etx_entry_def etx_cache_def fun_eq_iff nth_update_other split: option.split)

lemma etx_others_cache_upd [simp]: "etx_others i (etx_cache_upd i f st) = etx_others i st"
  by (auto simp: etx_others_def etx_cache_upd_def etx_entry_def etx_cache_def fun_eq_iff nth_update_other split: option.split)

lemma etx_others_log [simp]:
  "etx_others i (st\<lparr>etx_events := evs\<rparr>) = etx_others i st" "etx_others i (st\<lparr>etx_fault := b\<rparr>) = etx_others i st"
  by (simp_all add: etx_others_def etx_entry_def etx_cache_def cong: if_cong)

lemma etx_others_check [simp]: "etx_others i (etx_value_change_callback_needed_check i mac st) = etx_others i st"
  by (simp add: etx_value_change_callback_needed_check_def Let_def)

lemma etx_others_accum [simp]: "etx_others i (etx_accum_failures_callback_needed_check i st) = etx_others i st"
  by (simp add: etx_accum_failures_callback_needed_check_def)

lemma etx_others_init [simp]: "etx_others i (etx_cache_entry_init i st) = etx_others i st"
  by (simp add: etx_cache_entry_init_def)

lemma etx_others_calculation [simp]: "etx_others i (etx_calculation attempts acks i mac st) = etx_others i st"
  by (simp add: etx_calculation_def Let_def)

lemma etx_others_possible: "etx_update_possible i t st = (b, st') \<Longrightarrow> etx_others i st' = etx_others i st"
  by (auto simp: etx_update_possible_def Let_def)

lemma etx_others_cached [simp]: "etx_others i (etx_transm_cached attempts success i mac st) = etx_others i st"
  using etx_others_possible [of i 0]
  by (auto simp: etx_transm_cached_def Let_def etx_cache_sample_update_def split: prod.split)

lemma etx_others_direct [simp]: "etx_others i (etx_transm_direct attempts success i mac st) = etx_others i st"
  by (simp add: etx_transm_direct_def Let_def)

lemma etx_others_transm: "etx_others i (etx_transm_attempts_update if_id attempts success i mac st) = etx_others i st"
proof -
  have "etx_others i (snd (etx_drop_bad_sample i attempts success st)) = etx_others i st"
    by (simp add: etx_drop_bad_sample_def)
  then show ?thesis
    by (auto simp: etx_transm_attempts_update_def split: prod.split bool.split)
qed

lemma etx_others_remove: "etx_others i (etx_neighbor_remove if_id i mac st) = etx_others i st"
  by (simp add: etx_neighbor_remove_def Let_def)

lemma etx_others_step: "etx_others (index e) (etx_cache_step if_id seconds e st) = etx_others (index e) st"
  using etx_others_possible [of "index e" seconds st] by (auto simp: etx_cache_step_def Let_def split: prod.split)

lemma etx_entry_upd_same: "etx_at st i \<Longrightarrow> etx_entry (etx_upd i f st) i = f (etx_entry st i)"
  by (auto simp: etx_at_def etx_inv_def etx_entry_def etx_upd_def word_less_nat_alt split: option.splits if_splits)

lemma etx_cache_upd_same:
  "etx_at st i \<Longrightarrow> cache_sample_requested st \<Longrightarrow> etx_cache (etx_cache_upd i f st) i = f (etx_cache st i)"
  by (auto simp: etx_at_def etx_inv_def etx_cache_def etx_cache_upd_def word_less_nat_alt split: option.splits if_splits)

lemma etx_cache_of_upd [simp]: "etx_cache (etx_upd i f st) j = etx_cache st j"
  by (auto simp: etx_cache_def etx_upd_def split: option.split)

text \<open>A removed neighbour leaves no statistics behind.\<close>

lemma etx_remove_clears:
  fixes mac :: bytes
  assumes "etx_inv st" and "etx_storage_entry_get st if_id i" and "callback_ptr st"
  defines "st' \<equiv> etx_neighbor_remove if_id i mac st"
  shows "etx_entry st' i = etx_storage_zero" and "cache_sample_requested st \<Longrightarrow> etx_cache st' i = etx_sample_zero"
proof -
  define st1 where "st1 = (if etx (etx_entry st i) \<noteq> 0 then st\<lparr>etx_events := etx_events st @ [Etx_change (etx_interface_id st)
      (let stored = drop_bit 4 (stored_diff_etx (etx_entry st i)) in if stored = 0 then 0xffff else stored) 0xffff i mac]\<rparr> else st)"
  define st2 where "st2 = (if cache_sample_requested st1 then etx_cache_upd i (\<lambda>_. etx_sample_zero) st1 else st1)"
  have eq: "st' = etx_upd i (\<lambda>_. etx_storage_zero) st2"
    using assms(2,3) by (simp add: st'_def etx_neighbor_remove_def Let_def st1_def st2_def)
  have a1: "etx_at st1 i" "etx_cfg st1 = etx_cfg st"
    using etx_entry_get_at [OF assms(1,2)] etx_cfg_at [of st1 st i] by (simp_all add: st1_def)
  then have c2: "etx_cfg st2 = etx_cfg st" using etx_cache_upd_cfg by (simp add: st2_def)
  then have "etx_at st2 i" using etx_cfg_at a1 by metis
  then show "etx_entry st' i = etx_storage_zero" by (simp add: eq etx_entry_upd_same)
  assume "cache_sample_requested st"
  then have "cache_sample_requested st1" using etx_cfg_fields(1) a1(2) by blast
  then show "etx_cache st' i = etx_sample_zero" by (simp add: eq st2_def etx_cache_upd_same [OF a1(1)])
qed

section \<open>The invariant\<close>

abbreviation nbrs :: "mac_neighbor_table_t \<Rightarrow> u8 set" where
  "nbrs tbl \<equiv> index ` set (neighbour_list tbl)"

text \<open>Nothing is kept for an index.\<close>

definition forgotten :: "ws_node \<Rightarrow> u8 \<Rightarrow> bool" where
  "forgotten s i \<longleftrightarrow>
     etx_entry (nbr_etx s) i = etx_storage_zero \<and>
     (cache_sample_requested (nbr_etx s) \<longrightarrow> etx_cache (nbr_etx s) i = etx_sample_zero) \<and>
     (\<forall>e. ws_neighbor_class_entry_get (neighbor_storage s) i = Some e \<longrightarrow> e = ws_neighbor_zero) \<and>
     device_table s i = None"

definition tables_ok :: "ws_node \<Rightarrow> bool" where
  "tables_ok s \<longleftrightarrow>
     neighbor_inv (nbr_table s) \<and> has_remove_cb (nbr_table s) \<and>
     etx_inv (nbr_etx s) \<and> callback_ptr (nbr_etx s) \<and> etx_interface_id (nbr_etx s) = node_id s \<and>
     ext_storage_list_size (nbr_etx s) = list_total_size (nbr_table s) \<and>
     list_size (neighbor_storage s) = list_total_size (nbr_table s) \<and>
     map_option length (neigh_info_list (neighbor_storage s)) = Some (unat (list_total_size (nbr_table s)))"

text \<open>The processes; \<open>nud_on\<close> are the neighbours whose flag is set.\<close>

definition nud_on :: "mac_neighbor_table_t \<Rightarrow> u8 set" where
  "nud_on tbl = index ` set (filter nud_active (neighbour_list tbl))"

definition nud_ok :: "u8 set \<Rightarrow> ws_node \<Rightarrow> bool" where
  "nud_ok P s \<longleftrightarrow>
     distinct (map slot (active_nud s @ free_nud_entries s)) \<and>
     (\<forall>n \<in> set (active_nud s @ free_nud_entries s). slot n < 3) \<and>
     distinct (map neighbor_info (active_nud s)) \<and>
     (\<forall>n \<in> set (active_nud s). neighbor_info n \<in> Some ` (nud_on (nbr_table s) \<union> P))"

text \<open>
  The invariant up to the neighbours \<open>P\<close> that were taken out of the table but whose removal is
  not yet completed.
\<close>

definition node_inv :: "u8 set \<Rightarrow> ws_node \<Rightarrow> bool" where
  "node_inv P s \<longleftrightarrow>
     tables_ok s \<and> nud_ok P s \<and> (\<forall>i. i \<notin> nbrs (nbr_table s) \<longrightarrow> i \<notin> P \<longrightarrow> forgotten s i)"

lemma nud_on_nbrs: "nud_on tbl \<subseteq> nbrs tbl"
  by (auto simp: nud_on_def)

lemma node_inv_mono: "node_inv P s \<Longrightarrow> P \<subseteq> Q \<Longrightarrow> node_inv Q s"
  by (fastforce simp: node_inv_def nud_ok_def)

lemma nbrs_bound:
  assumes "neighbor_inv tbl" and "i \<in> nbrs tbl"
  shows "i < list_total_size tbl"
proof -
  have "i \<in># mset (map word_of_nat [0..<unat (list_total_size tbl)])"
    using assms unfolding neighbor_inv_def by (metis image_set in_multiset_in_set union_iff)
  then obtain k where "k < unat (list_total_size tbl)" "i = word_of_nat k" by auto
  then show ?thesis using unat_u8_lt [of "list_total_size tbl"] by (simp add: word_less_nat_alt unat_of_nat)
qed

text \<open>Every neighbour has its entry in the ETX module and in the neighbour class.\<close>

lemma neighbour_entries:
  assumes "tables_ok s" and "i \<in> nbrs (nbr_table s)"
  shows "etx_storage_entry_get (nbr_etx s) (node_id s) i" and "ws_neighbor_class_entry_get (neighbor_storage s) i \<noteq> None"
proof -
  have i: "i < list_total_size (nbr_table s)" by (rule nbrs_bound) (use assms in \<open>simp_all add: tables_ok_def\<close>)
  then show "ws_neighbor_class_entry_get (neighbor_storage s) i \<noteq> None"
    using assms(1) by (auto simp: tables_ok_def ws_neighbor_class_entry_get_def)
  from i have "list_total_size (nbr_table s) \<noteq> 0" by auto
  then show "etx_storage_entry_get (nbr_etx s) (node_id s) i"
    using assms(1) i by (auto simp: tables_ok_def etx_storage_entry_get_def etx_inv_def)
qed

section \<open>Changes of the neighbour table\<close>

text \<open>What an operation may do to the table when the removal of \<open>P\<close> is completed afterwards.\<close>

definition table_step :: "u8 set \<Rightarrow> mac_neighbor_table_t \<Rightarrow> mac_neighbor_table_t \<Rightarrow> bool" where
  "table_step P tbl tbl' \<longleftrightarrow>
     neighbor_inv tbl' \<and> has_remove_cb tbl' = has_remove_cb tbl \<and> list_total_size tbl' = list_total_size tbl \<and>
     nbrs tbl \<subseteq> nbrs tbl' \<union> P \<and> nud_on tbl \<subseteq> nud_on tbl' \<union> P"

lemma table_step_refl: "neighbor_inv tbl \<Longrightarrow> table_step {} tbl tbl"
  by (simp add: table_step_def)

lemma table_step_trans: "table_step P tbl tbl1 \<Longrightarrow> table_step Q tbl1 tbl2 \<Longrightarrow> table_step (P \<union> Q) tbl tbl2"
  by (auto simp: table_step_def)

lemma node_inv_table:
  assumes "node_inv P s" and "table_step Q (nbr_table s) tbl'"
  shows "node_inv (P \<union> Q) (s\<lparr>nbr_table := tbl'\<rparr>)"
proof -
  have "tables_ok (s\<lparr>nbr_table := tbl'\<rparr>)"
    using assms by (simp add: node_inv_def tables_ok_def table_step_def)
  moreover have "Some ` (nud_on (nbr_table s) \<union> P) \<subseteq> Some ` (nud_on tbl' \<union> (P \<union> Q))"
    using assms(2) by (intro image_mono) (auto simp: table_step_def)
  then have "nud_ok (P \<union> Q) (s\<lparr>nbr_table := tbl'\<rparr>)"
    using assms(1) by (auto simp: node_inv_def nud_ok_def simp del: image_Un)
  moreover have "forgotten (s\<lparr>nbr_table := tbl'\<rparr>) i" if "i \<notin> nbrs tbl'" "i \<notin> P \<union> Q" for i
  proof -
    have "i \<notin> nbrs (nbr_table s)" "i \<notin> P" using assms(2) that by (auto simp: table_step_def)
    with assms(1) have "forgotten s i" by (simp add: node_inv_def)
    then show ?thesis by (simp add: forgotten_def)
  qed
  ultimately show ?thesis by (simp add: node_inv_def)
qed

lemma nud_on_alt: "nud_on tbl = {i. (i, True) \<in> set (map (\<lambda>e. (index e, nud_active e)) (neighbour_list tbl))}"
  by (auto simp: nud_on_def)

lemma nbrs_alt: "nbrs tbl = fst ` set (map (\<lambda>e. (index e, nud_active e)) (neighbour_list tbl))"
  by (simp add: image_image)

lemma table_step_upd:
  assumes "neighbor_inv tbl" and "i \<in> nbrs tbl" and "\<And>e. index (f e) = index e" and "\<And>e. nud_active (f e) = nud_active e"
  shows "table_step {} tbl (neighbor_upd i f tbl)"
proof -
  have m: "map (\<lambda>e. (index e, nud_active e)) (neighbour_list (neighbor_upd i f tbl)) =
      map (\<lambda>e. (index e, nud_active e)) (neighbour_list tbl)"
    by (simp add: neighbor_upd_def assms(3,4))
  have "nud_on (neighbor_upd i f tbl) = nud_on tbl" "nbrs (neighbor_upd i f tbl) = nbrs tbl"
    unfolding nud_on_alt nbrs_alt m by simp_all
  then show ?thesis
    using neighbor_upd_member_inv [OF assms] by (simp add: table_step_def)
qed

lemma table_step_remove:
  assumes "neighbor_inv tbl" and "i \<in> nbrs tbl"
  defines "tbl' \<equiv> neighbor_table_class_remove_entry i tbl"
  shows "table_step {i} tbl tbl'" and "i \<notin> nbrs tbl'" and "nbrs tbl' \<subseteq> nbrs tbl"
    and "has_remove_cb tbl \<Longrightarrow> \<exists>e. index e = i \<and> removed_log tbl' = removed_log tbl @ [e]"
proof -
  from assms(2) obtain e where e: "e \<in> set (neighbour_list tbl)" "index e = i" by blast
  from split_list [OF e(1)] obtain ys zs where s: "neighbour_list tbl = ys @ e # zs" by blast
  note R = neighbor_remove_split [OF assms(1) s, unfolded e(2), folded tbl'_def]
  note N = neighbor_inv_split(1,2) [OF assms(1) s]
  show "table_step {i} tbl tbl'"
    using neighbor_remove_inv [OF assms(1), of i] e(2) by (auto simp: table_step_def tbl'_def R [unfolded tbl'_def] s nud_on_def)
  show "i \<notin> nbrs tbl'" "nbrs tbl' \<subseteq> nbrs tbl" using N e(2) by (auto simp: R(1) s)
  show "\<exists>e. index e = i \<and> removed_log tbl' = removed_log tbl @ [e]" if "has_remove_cb tbl"
    using that e(2) R(3) by auto
qed

text \<open>Clearing the flag of a neighbour, with the counter.\<close>

lemma nud_off:
  assumes "neighbor_inv tbl" and "i \<in> nud_on tbl" and "\<And>e. index (f e) = index e" and "\<And>e. \<not> nud_active (f e)"
  defines "tbl' \<equiv> (neighbor_upd i f tbl)\<lparr>active_nud_process := active_nud_process tbl - 1\<rparr>"
  shows "neighbor_inv tbl'" and "nbrs tbl' = nbrs tbl" and "nud_on tbl' = nud_on tbl - {i}"
    and "has_remove_cb tbl' = has_remove_cb tbl" and "list_total_size tbl' = list_total_size tbl"
proof -
  from assms(2) obtain e where e: "e \<in> set (neighbour_list tbl)" "index e = i" "nud_active e" by (auto simp: nud_on_def)
  from split_list [OF e(1)] obtain ys zs where s: "neighbour_list tbl = ys @ e # zs" by blast
  note N = neighbor_inv_split [OF assms(1) s, unfolded e(2)]
  have nl: "neighbour_list tbl' = ys @ f e # zs" "free_list tbl' = free_list tbl"
    using neighbor_upd_split [OF assms(1) s, of f, unfolded e(2)] by (simp_all add: tbl'_def)
  have "active_nud_process tbl \<noteq> 0" using assms(1) e(3) by (auto simp: neighbor_inv_def s)
  then have c: "unat (active_nud_process tbl - 1) = unat (active_nud_process tbl) - 1" by (rule unat_minus_1)
  then have "active_nud_process tbl - 1 \<le> active_nud_process tbl" by (simp add: word_le_nat_alt)
  then have "active_nud_process tbl - 1 \<le> 4" using assms(1) unfolding neighbor_inv_def by (simp add: order_trans)
  moreover have "unat (active_nud_process tbl) = length (filter nud_active ys) + 1 + length (filter nud_active zs)"
    using assms(1) e(3) by (simp add: neighbor_inv_def s)
  ultimately show "neighbor_inv tbl'"
    using assms(1,3,4) c unfolding neighbor_inv_def nl by (simp add: tbl'_def s)
  show "nbrs tbl' = nbrs tbl" using assms(3) by (simp add: nl s)
  have "i \<notin> index ` set (filter nud_active (ys @ zs))" using N(1,2) by auto
  then show "nud_on tbl' = nud_on tbl - {i}" using assms(4) e(2,3) by (simp add: nud_on_def nl s image_Un)
  show "has_remove_cb tbl' = has_remove_cb tbl" "list_total_size tbl' = list_total_size tbl"
    by (simp_all add: tbl'_def)
qed

section \<open>Ending a process\<close>

lemma nbr_at_nud:
  assumes "neighbor_inv (nbr_table s)"
  shows "nud_active (nbr_at s i) \<longleftrightarrow> i \<in> nud_on (nbr_table s)"
proof (cases "i \<in> nbrs (nbr_table s)")
  case True
  then obtain e where e: "e \<in> set (neighbour_list (nbr_table s))" "index e = i" by blast
  from split_list [OF e(1)] obtain ys zs where s: "neighbour_list (nbr_table s) = ys @ e # zs" by blast
  note N = neighbor_inv_split [OF assms s, unfolded e(2)]
  have "nbr_at s i = e" using find_append_Some [OF N(4)] by (simp add: nbr_at_def)
  moreover have "i \<in> nud_on (nbr_table s) \<longleftrightarrow> nud_active e"
    using N(1,2) e(2) by (auto simp: nud_on_def s image_iff)
  ultimately show ?thesis by simp
next
  case False
  then have f: "find (\<lambda>e. index e = i) (neighbour_list (nbr_table s)) = None" by (auto simp: find_None_iff)
  have "\<not> nud_active e" if "e \<in> set (free_list (nbr_table s))" for e
  proof -
    have "e = neighbor_zero (index e)" using assms that by (simp add: neighbor_inv_def)
    then have "nud_active e = nud_active (neighbor_zero (index e))" by (rule arg_cong)
    then show ?thesis by (simp add: neighbor_zero_def)
  qed
  then have "\<not> nud_active (nbr_at s i)"
    by (auto simp: nbr_at_def find_append_None [OF f] neighbor_zero_def find_Some_iff split: option.split)
  with False nud_on_nbrs [of "nbr_table s"] show ?thesis by blast
qed

lemma filter_slot_out: "k \<notin> slot ` set ns \<Longrightarrow> filter (\<lambda>m. slot m \<noteq> k) ns = ns"
  by (auto simp: filter_id_conv)

lemma nud_move:
  assumes "nud_ok P s" and "n0 \<in> set (active_nud s)" and "slot n = slot n0" and "neighbor_info n = neighbor_info n0"
  shows "nud_ok P (nud_move_to_free n s)" and "neighbor_info n \<notin> neighbor_info ` set (active_nud (nud_move_to_free n s))"
proof -
  from split_list [OF assms(2)] obtain ys zs where a: "active_nud s = ys @ n0 # zs" by blast
  have d: "slot n0 \<notin> slot ` set ys" "slot n0 \<notin> slot ` set zs" "neighbor_info n0 \<notin> neighbor_info ` set (ys @ zs)"
    using assms(1) by (auto simp: nud_ok_def a)
  have "filter (\<lambda>m. slot m \<noteq> slot n) (active_nud s) = ys @ zs"
    using d(1,2) by (simp add: a assms(3) filter_slot_out)
  then have m: "active_nud (nud_move_to_free n s) = ys @ zs"
    "free_nud_entries (nud_move_to_free n s) = free_nud_entries s @ [n]" "nbr_table (nud_move_to_free n s) = nbr_table s"
    by (simp_all add: nud_move_to_free_def)
  show "nud_ok P (nud_move_to_free n s)"
    using assms(1,3) unfolding nud_ok_def m by (auto simp: a)
  show "neighbor_info n \<notin> neighbor_info ` set (active_nud (nud_move_to_free n s))" using d(3) by (simp add: m assms(4))
qed

text \<open>The parts of the node that a process does not touch.\<close>

definition node_rest :: "ws_node \<Rightarrow> 8 word \<times> ext_info_t \<times> ws_neighbor_class_t \<times> (u8 \<Rightarrow> (bytes \<times> u16) option)" where
  "node_rest s = (node_id s, nbr_etx s, neighbor_storage s, device_table s)"

lemma node_rest_forgotten: "node_rest s' = node_rest s \<Longrightarrow> forgotten s' = forgotten s"
  by (simp add: node_rest_def forgotten_def fun_eq_iff)

lemma node_rest_tables:
  "node_rest s' = node_rest s \<Longrightarrow> neighbor_inv (nbr_table s') \<Longrightarrow>
   has_remove_cb (nbr_table s') = has_remove_cb (nbr_table s) \<Longrightarrow>
   list_total_size (nbr_table s') = list_total_size (nbr_table s) \<Longrightarrow> tables_ok s \<Longrightarrow> tables_ok s'"
  by (simp add: node_rest_def tables_ok_def)

lemma nud_ok_other:
  assumes "nud_ok P s1" and "Some i \<notin> neighbor_info ` set (active_nud s1)" and "nud_on tbl = nud_on (nbr_table s1) - {i}"
  shows "nud_ok (P - {i}) (s1\<lparr>nbr_table := tbl\<rparr>)"
proof -
  have "neighbor_info n \<in> Some ` (nud_on tbl \<union> (P - {i}))" if "n \<in> set (active_nud s1)" for n
  proof -
    have "neighbor_info n \<noteq> Some i" using assms(2) that by (metis image_eqI)
    moreover have "neighbor_info n \<in> Some ` (nud_on (nbr_table s1) \<union> P)" using assms(1) that by (simp add: nud_ok_def)
    ultimately show ?thesis unfolding assms(3) by blast
  qed
  then show ?thesis using assms(1) by (simp add: nud_ok_def)
qed

lemma nud_state_clean_inv:
  assumes "node_inv P s" and "n0 \<in> set (active_nud s)" and "slot n = slot n0" and "neighbor_info n = neighbor_info n0"
    and "neighbor_info n = Some i"
  defines "s' \<equiv> ws_nud_state_clean n s"
  shows "tables_ok s'" and "nud_ok (P - {i}) s'" and "nbrs (nbr_table s') = nbrs (nbr_table s)"
    and "node_rest s' = node_rest s"
proof -
  have inv: "neighbor_inv (nbr_table s)" "tables_ok s" using assms(1) by (simp_all add: node_inv_def tables_ok_def)
  define s1 where "s1 = nud_move_to_free n s"
  have t1: "nbr_table s1 = nbr_table s" "node_rest s1 = node_rest s"
    by (simp_all add: s1_def nud_move_to_free_def node_rest_def)
  have m: "nud_ok P s1" "Some i \<notin> neighbor_info ` set (active_nud s1)"
    using nud_move [of P s n0 n] assms(1-5) by (simp_all add: node_inv_def s1_def)
  define tbl where "tbl = (if i \<in> nud_on (nbr_table s)
      then (neighbor_upd i (\<lambda>e. e\<lparr>nud_active := False\<rparr>) (nbr_table s))\<lparr>active_nud_process := active_nud_process (nbr_table s) - 1\<rparr>
      else nbr_table s)"
  note off = nud_off [OF inv(1), of i "\<lambda>e. e\<lparr>nud_active := False\<rparr>"]
  have tbl: "neighbor_inv tbl" "nbrs tbl = nbrs (nbr_table s)" "nud_on tbl = nud_on (nbr_table s) - {i}"
    "has_remove_cb tbl = has_remove_cb (nbr_table s)" "list_total_size tbl = list_total_size (nbr_table s)"
    using off inv(1) by (auto simp: tbl_def)
  have eq: "s' = s1\<lparr>nbr_table := tbl\<rparr>"
    using nbr_at_nud [of s1 i] inv(1) assms(5)
    by (simp add: s'_def ws_nud_state_clean_def s1_def [symmetric] t1 Let_def nbr_modify_def tbl_def)
  show "nbrs (nbr_table s') = nbrs (nbr_table s)" by (simp add: eq tbl(2))
  show rest: "node_rest s' = node_rest s" using t1(2) by (simp add: eq node_rest_def)
  show "tables_ok s'" by (rule node_rest_tables [OF rest _ _ _ inv(2)]) (simp_all add: eq tbl)
  show "nud_ok (P - {i}) s'"
    unfolding eq by (rule nud_ok_other [OF m]) (simp add: t1 tbl)
qed

section \<open>Completing a removal\<close>

lemma log_call_simps [simp]:
  "nbr_table (log_call c s) = nbr_table s" "active_nud (log_call c s) = active_nud s"
  "free_nud_entries (log_call c s) = free_nud_entries s" "node_rest (log_call c s) = node_rest s"
  "tables_ok (log_call c s) = tables_ok s" "nud_ok P (log_call c s) = nud_ok P s" "forgotten (log_call c s) = forgotten s"
  by (simp_all add: log_call_def node_rest_def tables_ok_def nud_ok_def forgotten_def fun_eq_iff)

lemma node_inv_log [simp]: "node_inv P (log_call c s) = node_inv P s"
  by (simp add: node_inv_def)

lemma class_entry_remove:
  assumes "map_option length (neigh_info_list cls) = Some (unat (list_size cls))"
  shows "ws_neighbor_class_entry_get (ws_neighbor_class_entry_remove i cls) j =
      (if j = i \<and> i < list_size cls then Some ws_neighbor_zero else ws_neighbor_class_entry_get cls j)"
    and "list_size (ws_neighbor_class_entry_remove i cls) = list_size cls"
    and "map_option length (neigh_info_list (ws_neighbor_class_entry_remove i cls)) = map_option length (neigh_info_list cls)"
  using assms
  by (auto simp: ws_neighbor_class_entry_remove_def ws_neighbor_class_entry_get_def word_less_nat_alt word_le_nat_alt
      nth_update_other split: option.splits)

lemma etx_out_of_range:
  assumes "etx_inv st" and "\<not> i < ext_storage_list_size st"
  shows "etx_entry st i = etx_storage_zero" and "cache_sample_requested st \<Longrightarrow> etx_cache st i = etx_sample_zero"
  using assms by (auto simp: etx_inv_def etx_entry_def etx_cache_def word_less_nat_alt split: option.split if_splits)

lemma neighbor_delete_inv:
  fixes e :: mac_neighbor_table_entry_t
  assumes "tables_ok s"
  defines "s' \<equiv> ws_bootstrap_neighbor_delete e s"
  shows "tables_ok s'" and "forgotten s' (index e)" and "j \<noteq> index e \<Longrightarrow> forgotten s j \<Longrightarrow> forgotten s' j"
proof -
  let ?i = "index e" and ?st = "etx_neighbor_remove (node_id s) (index e) (mac64 e) (nbr_etx s)"
  let ?cls = "ws_neighbor_class_entry_remove (index e) (neighbor_storage s)"
  have f: "nbr_etx s' = ?st" "neighbor_storage s' = ?cls" "device_table s' = (device_table s)(?i := None)"
    "nbr_table s' = nbr_table s" "node_id s' = node_id s"
    by (simp_all add: s'_def ws_bootstrap_neighbor_delete_def mac_helper_devicetable_remove_def Let_def)
  have inv: "etx_inv (nbr_etx s)" "callback_ptr (nbr_etx s)" using assms(1) by (simp_all add: tables_ok_def)
  note cfg = etx_remove_cfg [OF inv(1), of "node_id s" ?i "mac64 e"]
  note C = class_entry_remove [of "neighbor_storage s" ?i]
  have len: "map_option length (neigh_info_list (neighbor_storage s)) = Some (unat (list_size (neighbor_storage s)))"
    using assms(1) by (simp add: tables_ok_def)
  show "tables_ok s'"
    using assms(1) C(2,3) [OF len] etx_cfg_inv [OF cfg] etx_cfg_fields(3,4) [OF cfg] etx_others_id [OF etx_others_remove]
    by (simp add: tables_ok_def f)
  show "forgotten s' ?i"
  proof (cases "?i < list_total_size (nbr_table s)")
    case True
    then have "list_total_size (nbr_table s) \<noteq> 0" by auto
    with True have "etx_storage_entry_get (nbr_etx s) (node_id s) ?i"
      using assms(1) by (auto simp: tables_ok_def etx_storage_entry_get_def etx_inv_def)
    from etx_remove_clears [OF inv(1) this inv(2)] show ?thesis
      using C(1) [OF len] assms(1) True etx_cfg_fields(1) [OF cfg] by (simp add: forgotten_def f tables_ok_def)
  next
    case False
    then have "ws_neighbor_class_entry_get (neighbor_storage s) ?i = None"
      using assms(1) by (auto simp: tables_ok_def ws_neighbor_class_entry_get_def split: option.split)
    moreover have "\<not> ?i < ext_storage_list_size ?st"
      using False assms(1) etx_cfg_fields(3) [OF cfg] by (simp add: tables_ok_def)
    ultimately show ?thesis
      using etx_out_of_range [of ?st ?i] etx_cfg_inv [OF cfg] inv(1) C(1) [OF len] False assms(1)
      by (simp add: forgotten_def f tables_ok_def)
  qed
  show "forgotten s' j" if "j \<noteq> ?i" "forgotten s j"
    using that etx_others_eqD [OF etx_others_remove that(1)] etx_cfg_fields(1) [OF cfg] C(1) [OF len]
    by (simp add: forgotten_def f)
qed

lemma nud_entry_remove_gone:
  assumes "node_inv P s" and "i \<notin> nbrs (nbr_table s)"
  defines "s' \<equiv> ws_nud_entry_remove i s"
  shows "tables_ok s'" and "nud_ok (P - {i}) s'" and "nbrs (nbr_table s') = nbrs (nbr_table s)" and "node_rest s' = node_rest s"
proof -
  have off: "nud_on (nbr_table s) - {i} = nud_on (nbr_table s)" using assms(2) nud_on_nbrs by blast
  have "tables_ok s' \<and> nud_ok (P - {i}) s' \<and> nbrs (nbr_table s') = nbrs (nbr_table s) \<and> node_rest s' = node_rest s"
  proof (cases "ws_nud_entry_discover s i")
    case None
    then have "Some i \<notin> neighbor_info ` set (active_nud s)" by (force simp: ws_nud_entry_discover_def find_None_iff)
    from nud_ok_other [of P s i "nbr_table s", OF _ this] None show ?thesis
      using assms(1) by (simp add: s'_def ws_nud_entry_remove_def node_inv_def off)
  next
    case (Some n)
    then have "n \<in> set (active_nud s)" "neighbor_info n = Some i"
      by (auto simp: ws_nud_entry_discover_def find_Some_iff)
    from nud_state_clean_inv [OF assms(1) this(1) refl refl this(2)] Some show ?thesis
      by (simp add: s'_def ws_nud_entry_remove_def)
  qed
  then show "tables_ok s'" "nud_ok (P - {i}) s'" "nbrs (nbr_table s') = nbrs (nbr_table s)" "node_rest s' = node_rest s"
    by simp_all
qed

lemma neighbor_delete_frame [simp]:
  "nbr_table (ws_bootstrap_neighbor_delete e s) = nbr_table s"
  "nud_ok P (ws_bootstrap_neighbor_delete e s) = nud_ok P s"
  by (simp_all add: ws_bootstrap_neighbor_delete_def mac_helper_devicetable_remove_def Let_def nud_ok_def)

lemma remove_notify_inv:
  fixes env :: ws_env
  assumes "node_inv P s" and "index e \<notin> nbrs (nbr_table s)"
  defines "s' \<equiv> ws_neighbor_entry_remove_notify env e s"
  shows "node_inv (P - {index e}) s'" and "nbrs (nbr_table s') = nbrs (nbr_table s)"
proof -
  obtain s0 where s0: "node_inv P s0" "nbr_table s0 = nbr_table s" "s' = log_call (Stats_update STATS_WS_NEIGHBOUR_REMOVE)
      (ws_bootstrap_neighbor_delete e (ws_nud_entry_remove (index e) s0))"
    by (rule that [OF _ _ meta_eq_to_obj_eq [OF s'_def [unfolded ws_neighbor_entry_remove_notify_def Let_def]]]) (simp_all add: assms(1))
  let ?s1 = "ws_nud_entry_remove (index e) s0"
  note R = nud_entry_remove_gone [OF s0(1), of "index e"]
  note D = neighbor_delete_inv [OF R(1), where e = e]
  have "forgotten (ws_bootstrap_neighbor_delete e ?s1) j" if "j \<notin> nbrs (nbr_table s0)" "j \<notin> P - {index e}" for j
  proof (cases "j = index e")
    case False
    then have "forgotten s0 j" using s0(1) that by (simp add: node_inv_def)
    then have "forgotten ?s1 j" using node_rest_forgotten [OF R(4)] assms(2) s0(2) by simp
    with D(3) False show ?thesis using assms(2) s0(2) by simp
  qed (use D(2) assms(2) s0(2) in simp)
  then show "node_inv (P - {index e}) s'"
    using R D assms(2) s0 by (simp add: node_inv_def)
  show "nbrs (nbr_table s') = nbrs (nbr_table s)" using R(3) s0 assms(2) by simp
qed

lemma remove_notify_fold:
  assumes "node_inv P s" and "\<forall>e \<in> set es. index e \<notin> nbrs (nbr_table s)"
  shows "node_inv (P - index ` set es) (fold (ws_neighbor_entry_remove_notify env) es s)"
  using assms
proof (induction es arbitrary: P s)
  case (Cons e es)
  note R = remove_notify_inv [OF Cons.prems(1), of e env]
  have "P - index ` set (e # es) = P - {index e} - index ` set es" by auto
  with Cons.IH [OF R(1)] R(2) Cons.prems(2) show ?case by simp
qed simp

text \<open>An operation of the table that reports what it removes keeps the invariant.\<close>

lemma table_op_inv:
  assumes "node_inv {} s" and "table_step (index ` set es) (nbr_table s) (f (nbr_table s))"
    and "removed_log (f (nbr_table s)) = removed_log (nbr_table s) @ es"
    and "index ` set es \<inter> nbrs (f (nbr_table s)) = {}"
  shows "node_inv {} (ws_table_op env f s)"
proof -
  have "node_inv (index ` set es) (s\<lparr>nbr_table := f (nbr_table s)\<rparr>)"
    using node_inv_table [OF assms(1,2)] by simp
  from remove_notify_fold [OF this, of es env] assms(3,4) show ?thesis
    by (auto simp: ws_table_op_def Let_def)
qed

section \<open>Operations on the tables\<close>

lemma node_inv_neighbor: "node_inv P s \<Longrightarrow> neighbor_inv (nbr_table s)"
  by (simp add: node_inv_def tables_ok_def)

lemma find_index_nbrs: "map_option index (find Q (neighbour_list tbl)) = Some i \<Longrightarrow> i \<in> nbrs tbl"
  by (auto simp: find_Some_iff)

lemma ws_discover_nbrs: "ws_discover env s mac = Some i \<Longrightarrow> i \<in> nbrs (nbr_table s)"
  unfolding ws_discover_def mac_neighbor_table_address_discover_def by (simp only: addrtype_t.case find_index_nbrs)

lemma get_mac64_nbrs:
  "fst (fst (mac_neighbor_entry_get_by_mac64 read16 tbl mac False)) = Some i \<Longrightarrow> i \<in> nbrs tbl"
  unfolding mac_neighbor_entry_get_by_mac64_def mac_neighbor_table_address_discover_def Let_def
  by (simp only: addrtype_t.case find_index_nbrs simp_thms if_True fst_conv)

lemma get_ll64_nbrs:
  assumes "fst (fst (mac_neighbor_entry_get_by_ll64 read16 tbl a False)) = Some i"
  shows "i \<in> nbrs tbl"
  using assms get_mac64_nbrs by (fastforce simp: mac_neighbor_entry_get_by_ll64_def Let_def split: if_splits)

lemma attribute_discover_nbrs: "mac_neighbor_table_attribute_discover tbl i = Some j \<Longrightarrow> j = i \<and> i \<in> nbrs tbl"
  by (auto simp: mac_neighbor_table_attribute_discover_def find_Some_iff)

lemma nbr_modify_inv [inv_intros]:
  assumes "node_inv P s" and "i \<in> nbrs (nbr_table s)" and "\<And>e. index (f e) = index e" and "\<And>e. nud_active (f e) = nud_active e"
  shows "node_inv P (nbr_modify i f s)"
  using node_inv_table [OF assms(1) table_step_upd [OF node_inv_neighbor [OF assms(1)] assms(2-4)]]
  by (simp add: nbr_modify_def)

lemma device_set_inv: "node_inv P s \<Longrightarrow> i \<in> nbrs (nbr_table s) \<Longrightarrow> node_inv P (mac_helper_devicetable_set i mac short s)"
  by (auto simp: node_inv_def mac_helper_devicetable_set_def tables_ok_def nud_ok_def forgotten_def)

lemma device_remove_inv: "node_inv P s \<Longrightarrow> node_inv P (mac_helper_devicetable_remove i s)"
  by (auto simp: node_inv_def mac_helper_devicetable_remove_def tables_ok_def nud_ok_def forgotten_def)

lemma device_frame [simp]:
  "nbr_table (mac_helper_devicetable_set i mac short s) = nbr_table s"
  "nbr_table (mac_helper_devicetable_remove i s) = nbr_table s"
  by (simp_all add: mac_helper_devicetable_set_def mac_helper_devicetable_remove_def)

lemma nbr_modify_nbrs:
  assumes "\<And>e. index (f e) = index e"
  shows "nbrs (nbr_table (nbr_modify i f s)) = nbrs (nbr_table s)"
proof -
  have "map index (neighbour_list (nbr_table (nbr_modify i f s))) = map index (neighbour_list (nbr_table s))"
    by (simp add: nbr_modify_def neighbor_upd_def assms)
  then show ?thesis by (metis list.set_map)
qed

lemma op_remove_entry_inv:
  assumes "node_inv {} s" and "i \<in> nbrs (nbr_table s)"
    and eq: "f (nbr_table s) = neighbor_table_class_remove_entry i (nbr_table s)"
  shows "node_inv {} (ws_table_op env f s)"
proof -
  note R = table_step_remove [OF node_inv_neighbor [OF assms(1)] assms(2)]
  from R(4) assms(1) obtain e where "index e = i"
    "removed_log (neighbor_table_class_remove_entry i (nbr_table s)) = removed_log (nbr_table s) @ [e]"
    by (auto simp: node_inv_def tables_ok_def)
  then show ?thesis
    using R(1,2) by (intro table_op_inv [OF assms(1), where es = "[e]"]) (simp_all add: eq)
qed

lemma op_same_inv:
  assumes "node_inv {} s" and "f (nbr_table s) = nbr_table s"
  shows "node_inv {} (ws_table_op env f s)"
  using assms by (simp add: ws_table_op_def Let_def)

lemma find_nbr_None: "i \<notin> nbrs tbl \<Longrightarrow> find (\<lambda>e. index e = i) (neighbour_list tbl) = None"
  by (auto simp: find_None_iff)

lemma op_remove_inv [inv_intros]:
  assumes "node_inv {} s"
  shows "node_inv {} (ws_table_op env (mac_neighbor_table_neighbor_remove i) s)"
proof (cases "find (\<lambda>e. index e = i) (neighbour_list (nbr_table s))")
  case None
  with assms show ?thesis
    by (intro op_same_inv) (simp_all add: mac_neighbor_table_neighbor_remove_def neighbor_table_class_entry_validate_def)
next
  case (Some e)
  then have "index e = i" "i \<in> nbrs (nbr_table s)" by (auto simp: find_Some_iff)
  with assms Some show ?thesis
    by (intro op_remove_entry_inv)
      (simp_all add: mac_neighbor_table_neighbor_remove_def neighbor_table_class_entry_validate_def)
qed

lemma remove_entries_step:
  assumes "neighbor_inv tbl" and "distinct is" and "set is \<subseteq> nbrs tbl" and "has_remove_cb tbl"
  shows "\<exists>es. index ` set es = set is \<and> table_step (set is) tbl (fold neighbor_table_class_remove_entry is tbl) \<and>
    removed_log (fold neighbor_table_class_remove_entry is tbl) = removed_log tbl @ es \<and>
    set is \<inter> nbrs (fold neighbor_table_class_remove_entry is tbl) = {} \<and>
    nbrs (fold neighbor_table_class_remove_entry is tbl) \<subseteq> nbrs tbl"
  using assms
proof (induction "is" arbitrary: tbl)
  case Nil
  then show ?case by (auto intro: exI [of _ "[]"] simp: table_step_refl)
next
  case (Cons i "is")
  let ?tbl = "neighbor_table_class_remove_entry i tbl"
  have i: "i \<in> nbrs tbl" using Cons.prems(3) by simp
  note R = table_step_remove [OF Cons.prems(1) i]
  obtain e where e: "index e = i" "removed_log ?tbl = removed_log tbl @ [e]" using R(4) Cons.prems(4) by blast
  have "nbrs tbl \<subseteq> nbrs ?tbl \<union> {i}" using R(1) unfolding table_step_def by blast
  then have "set is \<subseteq> nbrs ?tbl" using Cons.prems(2,3) unfolding distinct.simps list.set by blast
  moreover have "neighbor_inv ?tbl" "has_remove_cb ?tbl" using R(1) Cons.prems(4) by (simp_all add: table_step_def)
  ultimately obtain es where es: "index ` set es = set is"
    "table_step (set is) ?tbl (fold neighbor_table_class_remove_entry is ?tbl)"
    "removed_log (fold neighbor_table_class_remove_entry is ?tbl) = removed_log ?tbl @ es"
    "set is \<inter> nbrs (fold neighbor_table_class_remove_entry is ?tbl) = {}"
    "nbrs (fold neighbor_table_class_remove_entry is ?tbl) \<subseteq> nbrs ?tbl"
    using Cons.IH [of ?tbl] Cons.prems(2) by auto
  have "table_step (set (i # is)) tbl (fold neighbor_table_class_remove_entry is ?tbl)"
    using table_step_trans [OF R(1) es(2)] by simp
  moreover have "nbrs (fold neighbor_table_class_remove_entry is ?tbl) \<subseteq> nbrs tbl" using es(5) R(3) by (rule subset_trans)
  ultimately show ?case
    using es(1,3-5) e R(2) by (intro exI [of _ "e # es"] conjI) (simp_all, blast)
qed

lemma op_clean_inv:
  assumes "node_inv {} s"
  shows "node_inv {} (ws_table_op env mac_neighbor_table_neighbor_list_clean s)"
proof -
  note inv = node_inv_neighbor [OF assms]
  have cb: "has_remove_cb (nbr_table s)" using assms by (simp add: node_inv_def tables_ok_def)
  from remove_entries_step [OF inv neighbor_inv_lists(1) [OF inv] _ cb]
  obtain es where es: "index ` set es = nbrs (nbr_table s)"
    "table_step (nbrs (nbr_table s)) (nbr_table s) (mac_neighbor_table_neighbor_list_clean (nbr_table s))"
    "removed_log (mac_neighbor_table_neighbor_list_clean (nbr_table s)) = removed_log (nbr_table s) @ es"
    "nbrs (nbr_table s) \<inter> nbrs (mac_neighbor_table_neighbor_list_clean (nbr_table s)) = {}"
    by (auto simp: mac_neighbor_table_neighbor_list_clean_def)
  show ?thesis by (rule table_op_inv [OF assms, where es = es]) (use es in simp_all)
qed

section \<open>Adding neighbours\<close>

lemma neighbor_allocate_step:
  assumes "neighbor_inv tbl" and "mac_neighbor_table_entry_allocate tbl mac = (r, tbl')"
  shows "table_step {} tbl tbl'" and "r = Some i \<Longrightarrow> i \<in> nbrs tbl'" and "removed_log tbl' = removed_log tbl"
proof -
  note inv = neighbor_allocate_inv [OF assms]
  show "table_step {} tbl tbl'"
    by (cases rule: neighbor_allocate_cases [of tbl mac]) (use assms inv in \<open>auto simp: table_step_def nud_on_def\<close>)
  show "r = Some i \<Longrightarrow> i \<in> nbrs tbl'"
    by (cases rule: neighbor_allocate_cases [of tbl mac]) (use assms in \<open>auto\<close>)
  show "removed_log tbl' = removed_log tbl"
    by (cases rule: neighbor_allocate_cases [of tbl mac]) (use assms in \<open>auto\<close>)
qed

lemma mac_neighbor_add_inv:
  assumes "node_inv {} s" and "ws_bootstrap_mac_neighbor_add env mac s = (r, s')"
  shows "node_inv {} s'" and "r = Some i \<Longrightarrow> i \<in> nbrs (nbr_table s')"
proof -
  have "node_inv {} s' \<and> (\<forall>i. r = Some i \<longrightarrow> i \<in> nbrs (nbr_table s'))"
  proof (cases "ws_discover env s mac")
    case (Some i)
    then show ?thesis using assms ws_discover_nbrs by (auto simp: ws_bootstrap_mac_neighbor_add_def)
  next
    case None
    obtain r0 tbl where a: "mac_neighbor_table_entry_allocate (nbr_table s) mac = (r0, tbl)" by (rule prod.exhaust)
    note A = neighbor_allocate_step [OF node_inv_neighbor [OF assms(1)] a]
    have inv: "node_inv {} (s\<lparr>nbr_table := tbl\<rparr>)" using node_inv_table [OF assms(1) A(1)] by simp
    show ?thesis
    proof (cases r0)
      case None
      then show ?thesis
        using inv assms(2) \<open>ws_discover env s mac = None\<close> a
        by (auto simp: ws_bootstrap_mac_neighbor_add_def ws_bootstrap_mac_neighbor_allocate_def)
    next
      case (Some i)
      let ?s1 = "nbr_modify i (\<lambda>e. e\<lparr>lifetime := temporary_lifetime env, link_lifetime := temporary_lifetime env\<rparr>)
          (s\<lparr>nbr_table := tbl\<rparr>)"
      have i: "i \<in> nbrs (nbr_table ?s1)" using A(2) Some by (subst nbr_modify_nbrs) simp_all
      have "node_inv {} ?s1" by (rule nbr_modify_inv [OF inv]) (use A(2) Some in simp_all)
      from device_set_inv [OF this i] i show ?thesis
        using assms(2) \<open>ws_discover env s mac = None\<close> a Some
        by (auto simp: ws_bootstrap_mac_neighbor_add_def ws_bootstrap_mac_neighbor_allocate_def Let_def)
    qed
  qed
  then show "node_inv {} s'" "r = Some i \<Longrightarrow> i \<in> nbrs (nbr_table s')" by simp_all
qed

end
