(* ===== verification/WsNodeReach.thy ===== *)
theory WsNodeReach
  imports WsNodeInv
begin

text \<open>
  Every operation of a Wi-SUN node on its neighbours keeps the invariant of the node; the states
  a node reaches from its start.
\<close>

section \<open>Operations\<close>

lemma neighbor_remove_inv_node [inv_intros]: "node_inv {} s \<Longrightarrow> node_inv {} (ws_bootstrap_neighbor_remove env a s)"
  by (auto simp: ws_bootstrap_neighbor_remove_def intro: op_remove_inv split: option.split)

lemma set_stable_inv [inv_intros]: "node_inv {} s \<Longrightarrow> node_inv {} (ws_bootstrap_neighbor_set_stable env mac s)"
  by (auto simp: ws_bootstrap_neighbor_set_stable_def intro!: nbr_modify_inv dest: ws_discover_nbrs split: option.split)

lemma short_time_inv [inv_intros]:
  "node_inv {} s \<Longrightarrow> node_inv {} (ws_bootstrap_mac_neighbor_short_time_set env mac t s)"
  by (auto simp: ws_bootstrap_mac_neighbor_short_time_set_def intro!: nbr_modify_inv dest: ws_discover_nbrs
      split: option.split)

lemma dhcp_update_inv [inv_intros]: "node_inv {} s \<Longrightarrow> node_inv {} (ws_bootstrap_dhcp_neighbour_update_cb env a s)"
  by (simp add: ws_bootstrap_dhcp_neighbour_update_cb_def Let_def short_time_inv)

lemma negative_aro_inv [inv_intros]: "node_inv {} s \<Longrightarrow> node_inv {} (snd (ws_common_negative_aro_mark env eui s))"
  by (simp add: ws_common_negative_aro_mark_def short_time_inv)

lemma locallink_inv [inv_intros]: "node_inv {} s \<Longrightarrow> node_inv {} (ws_bootstrap_add_locallink env mac s)"
  by (auto simp: ws_bootstrap_add_locallink_def mac_neighbor_add_inv intro!: nbr_modify_inv split: prod.split option.split)

lemma eapol_allocate_inv: "node_inv {} s \<Longrightarrow> node_inv {} (ws_bootstap_eapol_neigh_entry_allocate env s)"
proof -
  have eapol: "node_inv {} s \<Longrightarrow> node_inv {} (s\<lparr>eapol_tx_index := i\<rparr>)" for s i
    by (simp add: node_inv_def tables_ok_def nud_ok_def forgotten_def)
  show "node_inv {} s \<Longrightarrow> ?thesis"
    by (auto simp: ws_bootstap_eapol_neigh_entry_allocate_def Let_def mac_neighbor_add_inv
        intro!: nbr_modify_inv eapol split: prod.split option.split)
qed

lemma list_clean_inv [inv_intros]: "node_inv {} s \<Longrightarrow> node_inv {} (ws_bootstrap_neighbor_list_clean env s)"
  by (simp add: ws_bootstrap_neighbor_list_clean_def eapol_allocate_inv op_clean_inv)

lemma eapol_set_inv [inv_intros]: "node_inv {} s \<Longrightarrow> node_inv {} (snd (ws_bootstrap_eapol_tx_temporary_set env mac s))"
proof (cases "mac_neighbor_table_attribute_discover (nbr_table s) (eapol_tx_index s)")
  case (Some i)
  assume inv: "node_inv {} s"
  have i: "i = eapol_tx_index s" "i \<in> nbrs (nbr_table s)" using attribute_discover_nbrs [OF Some] by simp_all
  let ?s = "nbr_modify i (\<lambda>e. e\<lparr>mac64 := take 8 mac\<rparr>) s"
  have "node_inv {} ?s" by (rule nbr_modify_inv [OF inv i(2)]) simp_all
  moreover have "i \<in> nbrs (nbr_table ?s)" using i(2) by (subst nbr_modify_nbrs) simp_all
  moreover have "eapol_tx_index ?s = i" by (simp add: nbr_modify_def i(1))
  ultimately show ?thesis
    using Some by (simp add: ws_bootstrap_eapol_tx_temporary_set_def Let_def device_set_inv)
qed (simp add: ws_bootstrap_eapol_tx_temporary_set_def)

lemma eapol_clear_inv [inv_intros]: "node_inv {} s \<Longrightarrow> node_inv {} (ws_bootstrap_eapol_tx_temporary_clear s)"
  by (auto simp: ws_bootstrap_eapol_tx_temporary_clear_def intro!: device_remove_inv nbr_modify_inv
      dest!: attribute_discover_nbrs split: option.split)

lemma table_clean_inv: "node_inv {} s \<Longrightarrow> node_inv {} (ws_bootstrap_neighbor_table_clean env s)"
  by (auto simp: ws_bootstrap_neighbor_table_clean_def Let_def intro: op_remove_inv split: option.split)

lemma info_request_inv [inv_intros]:
  assumes "node_inv {} s"
  shows "node_inv {} (snd (ws_bootstrap_neighbor_info_request env mac new s))"
proof (cases "ws_discover env s mac = None \<and> new")
  case True
  obtain r s1 where a: "ws_bootstrap_mac_neighbor_add env mac (ws_bootstrap_neighbor_table_clean env s) = (r, s1)"
    by (rule prod.exhaust)
  note inv = mac_neighbor_add_inv(1) [OF table_clean_inv [OF assms] a]
  from True a show ?thesis
    by (cases r) (simp_all add: ws_bootstrap_neighbor_info_request_def inv op_remove_inv)
next
  case False
  with assms show ?thesis by (auto simp: ws_bootstrap_neighbor_info_request_def split: option.split)
qed

lemma reg_link_update_inv:
  "node_inv {} s \<Longrightarrow> node_inv {} (ws_common_neighbour_address_reg_link_update env eui life s)"
  by (auto simp: ws_common_neighbour_address_reg_link_update_def Let_def intro!: nbr_modify_inv dest: get_mac64_nbrs
      split: option.split if_splits)

lemma child_registration_inv [inv_intros]:
  "node_inv {} s \<Longrightarrow> node_inv {} (snd (ws_common_allow_child_registration env eui t s))"
  by (simp add: ws_common_allow_child_registration_def Let_def reg_link_update_inv)

lemma trusted_inv [inv_intros]:
  assumes "node_inv {} s" and "i \<in> nbrs (nbr_table s)"
  shows "node_inv {} (s\<lparr>nbr_table := mac_neighbor_table_trusted_neighbor i b (nbr_table s)\<rparr>)"
  using nbr_modify_inv [OF assms, of "\<lambda>e. (let e = (if \<not> trusted_device e \<and> b then e\<lparr>lifetime := link_lifetime e\<rparr> else e)
       in e\<lparr>trusted_device := b\<rparr>)"]
  by (simp add: mac_neighbor_table_trusted_neighbor_def nbr_modify_def Let_def)

section \<open>Statistics and hopping information of a neighbour\<close>

lemma etx_change_inv:
  assumes "node_inv {} s" and "etx_cfg st = etx_cfg (nbr_etx s)" and "etx_others i st = etx_others i (nbr_etx s)"
    and "i \<in> nbrs (nbr_table s)"
  shows "node_inv {} (s\<lparr>nbr_etx := st\<rparr>)"
proof -
  have "tables_ok (s\<lparr>nbr_etx := st\<rparr>)"
    using assms(1) etx_cfg_inv [OF assms(2)] etx_cfg_fields [OF assms(2)] etx_others_id [OF assms(3)]
    by (simp add: node_inv_def tables_ok_def)
  moreover have "nud_ok {} (s\<lparr>nbr_etx := st\<rparr>)" using assms(1) by (simp add: node_inv_def nud_ok_def)
  moreover have "forgotten (s\<lparr>nbr_etx := st\<rparr>) j" if "j \<notin> nbrs (nbr_table s)" for j
  proof -
    have "j \<noteq> i" "forgotten s j" using that assms(1,4) by (auto simp: node_inv_def)
    with etx_others_eqD [OF assms(3)] etx_cfg_fields(1) [OF assms(2)] show ?thesis by (simp add: forgotten_def)
  qed
  ultimately show ?thesis by (simp add: node_inv_def)
qed

lemma node_etx_inv: "node_inv P s \<Longrightarrow> etx_inv (nbr_etx s)"
  by (simp add: node_inv_def tables_ok_def)

lemma etx_transm_inv [inv_intros]:
  assumes "node_inv {} s" and "i \<in> nbrs (nbr_table s)"
  shows "node_inv {} (s\<lparr>nbr_etx := etx_transm_attempts_update (node_id s) attempts success i mac (nbr_etx s)\<rparr>)"
  by (rule etx_change_inv [OF assms(1) etx_transm_update_cfg [OF node_etx_inv [OF assms(1)]] etx_others_transm assms(2)])

lemma etx_cache_fold_inv:
  assumes "node_inv {} s" and "set es \<subseteq> set (neighbour_list (nbr_table s))" and "cache_sample_requested (nbr_etx s)"
  shows "node_inv {} (s\<lparr>nbr_etx := fold (etx_cache_step (node_id s) seconds) es (nbr_etx s)\<rparr>)"
  using assms
proof (induction es arbitrary: s)
  case (Cons e es)
  let ?st = "etx_cache_step (node_id s) seconds e (nbr_etx s)"
  have cfg: "etx_cfg ?st = etx_cfg (nbr_etx s)"
    using etx_timer_cfg [OF node_etx_inv [OF Cons.prems(1)] Cons.prems(3), of "node_id s" seconds "[e]"] by simp
  have "node_inv {} (s\<lparr>nbr_etx := ?st\<rparr>)"
    by (rule etx_change_inv [OF Cons.prems(1) cfg etx_others_step]) (use Cons.prems(2) in simp)
  from Cons.IH [OF this] Cons.prems(2,3) etx_cfg_fields(1) [OF cfg] show ?case by simp
qed simp

lemma etx_cache_timer_inv [inv_intros]:
  "node_inv {} s \<Longrightarrow> node_inv {} (s\<lparr>nbr_etx := etx_cache_timer (node_id s) (Some (nbr_table s)) seconds (nbr_etx s)\<rparr>)"
  using etx_cache_fold_inv [of s "neighbour_list (nbr_table s)" seconds] by (auto simp: etx_cache_timer_def)

text \<open>The entry of a neighbour in the neighbour class is changed through the pointer to it.\<close>

definition ws_entry_write :: "u8 \<Rightarrow> ws_neighbor_class_entry_t \<Rightarrow> ws_neighbor_class_t \<Rightarrow> ws_neighbor_class_t" where
  "ws_entry_write i e cls = cls\<lparr>neigh_info_list := map_option (\<lambda>xs. xs[unat i := e]) (neigh_info_list cls)\<rparr>"

lemma entry_write_other: "j \<noteq> i \<Longrightarrow> ws_neighbor_class_entry_get (ws_entry_write i e cls) j = ws_neighbor_class_entry_get cls j"
  by (auto simp: ws_entry_write_def ws_neighbor_class_entry_get_def nth_update_other split: option.split)

lemma entry_write_size [simp]:
  "list_size (ws_entry_write i e cls) = list_size cls"
  "map_option length (neigh_info_list (ws_entry_write i e cls)) = map_option length (neigh_info_list cls)"
  by (simp_all add: ws_entry_write_def option.map_comp comp_def)

lemma entry_write_inv [inv_intros]:
  assumes "node_inv {} s" and "i \<in> nbrs (nbr_table s)"
  shows "node_inv {} (s\<lparr>neighbor_storage := ws_entry_write i e (neighbor_storage s)\<rparr>)"
proof -
  have "forgotten (s\<lparr>neighbor_storage := ws_entry_write i e (neighbor_storage s)\<rparr>) j"
    if "j \<notin> nbrs (nbr_table s)" for j
  proof -
    have "j \<noteq> i" "forgotten s j" using that assms by (auto simp: node_inv_def)
    then show ?thesis by (simp add: forgotten_def entry_write_other)
  qed
  then show ?thesis using assms(1) by (simp add: node_inv_def tables_ok_def nud_ok_def)
qed

section \<open>Unreachability detection\<close>

lemma nud_reset_inv [inv_intros]:
  assumes "node_inv {} s"
  shows "node_inv {} (ws_nud_table_reset s)"
proof -
  define g where "g k = (case find (\<lambda>n. slot n = k) (active_nud s @ free_nud_entries s) of
      Some n \<Rightarrow> n
    | None \<Rightarrow> \<lparr>slot = k, neighbor_info = None, timer = 0, retry_count = 0, wait_response = False, nud_process = False\<rparr>)" for k
  have g: "slot (g k) = k" for k by (auto simp: g_def find_Some_iff split: option.split)
  have eq: "ws_nud_table_reset s = s\<lparr>active_nud := [], free_nud_entries := map g [0..<3]\<rparr>"
    by (simp add: ws_nud_table_reset_def g_def)
  show ?thesis
    using assms unfolding eq by (auto simp: node_inv_def tables_ok_def nud_ok_def forgotten_def g comp_def)
qed

lemma nud_set_inv:
  assumes "node_inv P s" and "n0 \<in> set (active_nud s)" and "slot n = slot n0" and "neighbor_info n = neighbor_info n0"
  shows "node_inv P (nud_set n s)"
proof -
  have same: "neighbor_info (if slot m = slot n then n else m) = neighbor_info m" if "m \<in> set (active_nud s)" for m
  proof -
    have "distinct (map slot (active_nud s))" using assms(1) by (simp add: node_inv_def nud_ok_def)
    then have "m = n0" if "slot m = slot n"
      using that \<open>m \<in> set (active_nud s)\<close> assms(2,3) by (metis distinct_map inj_onD)
    then show ?thesis using assms(4) by auto
  qed
  let ?f = "\<lambda>m. if slot m = slot n then n else m"
  have info: "map neighbor_info (map ?f (active_nud s)) = map neighbor_info (active_nud s)" using same by simp
  have slots: "map slot (map ?f (active_nud s)) = map slot (active_nud s)" by simp
  have "nud_ok P (nud_set n s)"
    unfolding nud_ok_def
  proof (intro conjI)
    show "distinct (map slot (active_nud (nud_set n s) @ free_nud_entries (nud_set n s)))"
      using assms(1) slots by (simp add: node_inv_def nud_ok_def nud_set_def del: map_map)
    show "distinct (map neighbor_info (active_nud (nud_set n s)))"
      using assms(1) info by (simp add: node_inv_def nud_ok_def nud_set_def del: map_map)
    show "\<forall>m \<in> set (active_nud (nud_set n s)). neighbor_info m \<in> Some ` (nud_on (nbr_table (nud_set n s)) \<union> P)"
    proof
      fix m assume "m \<in> set (active_nud (nud_set n s))"
      then obtain m0 where m0: "m0 \<in> set (active_nud s)" "m = ?f m0" unfolding nud_set_def by auto
      then have "neighbor_info m = neighbor_info m0" using same [OF m0(1)] by simp
      with m0(1) assms(1) show "neighbor_info m \<in> Some ` (nud_on (nbr_table (nud_set n s)) \<union> P)"
        by (simp add: node_inv_def nud_ok_def nud_set_def)
    qed
    show "\<forall>m \<in> set (active_nud (nud_set n s) @ free_nud_entries (nud_set n s)). slot m < 3"
      using assms(1-3) by (auto simp: node_inv_def nud_ok_def nud_set_def)
  qed
  then show ?thesis using assms(1) by (simp add: node_inv_def nud_set_def tables_ok_def forgotten_def)
qed

lemma nud_state_clean_node_inv:
  assumes "node_inv {} s" and "n0 \<in> set (active_nud s)" and "slot n = slot n0" and "neighbor_info n = neighbor_info n0"
  shows "node_inv {} (ws_nud_state_clean n s)"
proof -
  obtain i where "neighbor_info n = Some i" using assms by (auto simp: node_inv_def nud_ok_def)
  note C = nud_state_clean_inv [OF assms this]
  show ?thesis
    using assms(1) C node_rest_forgotten [OF C(4)] by (simp add: node_inv_def)
qed

lemma nud_expired_inv:
  assumes "node_inv {} s" and "n \<in> set (active_nud s)"
  shows "node_inv {} (ws_nud_expired env n s)"
proof -
  obtain i where i: "neighbor_info n = Some i" using assms by (auto simp: node_inv_def nud_ok_def)
  note set_inv = nud_set_inv [OF assms] and clean = nud_state_clean_node_inv [OF assms]
  have log: "nud_set m (log_call c s) = log_call c (nud_set m s)" for m c by (simp add: nud_set_def log_call_def)
  show ?thesis
    by (auto simp: ws_nud_expired_def i ws_nud_message_build_def Let_def log intro!: set_inv clean op_remove_inv)
qed

lemma nud_timer_inv [inv_intros]: "node_inv {} s \<Longrightarrow> node_inv {} (ws_nud_active_timer env ticks s)"
proof -
  have step: "node_inv {} (ws_nud_timer_step env ms k s)" if "node_inv {} s" for ms k s
  proof (cases "find (\<lambda>n. slot n = k) (active_nud s)")
    case (Some n)
    then have "n \<in> set (active_nud s)" by (auto simp: find_Some_iff)
    with that Some show ?thesis
      using nud_expired_inv [OF that] nud_set_inv [OF that, of n "n\<lparr>timer := timer n - ms\<rparr>"]
      by (simp add: ws_nud_timer_step_def)
  qed (use that in \<open>simp add: ws_nud_timer_step_def\<close>)
  have "node_inv {} s \<Longrightarrow> node_inv {} (fold (ws_nud_timer_step env ms) ks s)" for ms ks s
    by (induction ks arbitrary: s) (simp_all add: step)
  then show "node_inv {} s \<Longrightarrow> ?thesis" by (simp add: ws_nud_active_timer_def Let_def)
qed

lemma nud_remove_active_inv [inv_intros]:
  assumes "node_inv {} s"
  shows "node_inv {} (ws_nud_entry_remove_active i s)"
proof (cases "ws_nud_entry_discover s i")
  case (Some n)
  then have n: "n \<in> set (active_nud s)" "neighbor_info n = Some i"
    by (auto simp: ws_nud_entry_discover_def find_Some_iff)
  note inv = node_inv_neighbor [OF assms]
  have on: "i \<in> nud_on (nbr_table s)" using assms n by (auto simp: node_inv_def nud_ok_def)
  then have nbr: "i \<in> nbrs (nbr_table s)" using nud_on_nbrs by blast
  define s1 where "s1 = nud_move_to_free n s"
  have t1: "nbr_table s1 = nbr_table s" "node_rest s1 = node_rest s"
    by (simp_all add: s1_def nud_move_to_free_def node_rest_def)
  have m: "nud_ok {} s1" "Some i \<notin> neighbor_info ` set (active_nud s1)"
    using nud_move [of "{}" s n n] assms n by (simp_all add: node_inv_def s1_def)
  have act: "nud_active (nbr_at s1 i)" using nbr_at_nud [of s1 i] inv on by (simp add: t1)
  define life where "life = link_lifetime (nbr_at s1 i)"
  let ?f = "\<lambda>e. e\<lparr>lifetime := life, link_lifetime := life, nud_active := False\<rparr>"
  define tbl where "tbl = (neighbor_upd i ?f (nbr_table s))\<lparr>active_nud_process := active_nud_process (nbr_table s) - 1\<rparr>"
  have "\<exists>e \<in> set (neighbour_list (nbr_table s) @ free_list (nbr_table s)). index e = i \<and> nud_active e"
    using on by (auto simp: nud_on_def)
  then have r: "mac_neighbor_table_neighbor_refresh i life (nbr_table s) = tbl"
    unfolding mac_neighbor_table_neighbor_refresh_def Let_def tbl_def by simp
  note off = nud_off [OF inv on, of ?f, folded tbl_def]
  have "nud_ok {} (s1\<lparr>nbr_table := tbl\<rparr>)" using nud_ok_other [OF m, of tbl] off(3) by (simp add: t1)
  moreover have rest: "node_rest (s1\<lparr>nbr_table := tbl\<rparr>) = node_rest s" using t1(2) by (simp add: node_rest_def)
  then have "tables_ok (s1\<lparr>nbr_table := tbl\<rparr>)"
    by (rule node_rest_tables) (use assms off in \<open>simp_all add: node_inv_def\<close>)
  ultimately have inv2: "node_inv {} (s1\<lparr>nbr_table := tbl\<rparr>)"
    using assms node_rest_forgotten [OF rest] off(2) by (simp add: node_inv_def)
  have "node_inv {} (nbr_modify i (\<lambda>e. e\<lparr>connected_device := True\<rparr>) (s1\<lparr>nbr_table := tbl\<rparr>))"
    by (rule nbr_modify_inv [OF inv2]) (use off(2) nbr in simp_all)
  then show ?thesis
    using Some act
    by (simp add: ws_nud_entry_remove_active_def s1_def [symmetric] Let_def t1 r life_def [symmetric]
        nbr_modify_def mac_neighbor_table_neighbor_connected_def)
qed (use assms in \<open>simp add: ws_nud_entry_remove_active_def\<close>)

lemma neighbor_update_inv [inv_intros]: "node_inv {} s \<Longrightarrow> node_inv {} (ws_common_neighbor_update env a s)"
  by (auto simp: ws_common_neighbor_update_def intro: nud_remove_active_inv split: option.split)

section \<open>The timeout\<close>

lemma timeout_alive:
  fixes b :: bool
  assumes "neighbor_inv tbl" and "neighbour_list tbl = ys @ e # zs" and "lifetime e > t"
  defines "tbl' \<equiv> neighbor_timeout_step (\<lambda>_. b) t (index e) tbl"
  shows "table_step {} tbl tbl'" and "removed_log tbl' = removed_log tbl"
    and "b \<Longrightarrow> ws_nud_asked t (index e) tbl \<noteq> None \<Longrightarrow> index e \<in> nud_on tbl'"
proof -
  note N = neighbor_inv_split [OF assms(1,2)]
  from neighbor_timeout_step_split [OF assms(1,2), of "\<lambda>_. b" t] assms(3)
  obtain e' where S: "neighbor_inv tbl'" "has_remove_cb tbl' = has_remove_cb tbl" "removed_log tbl' = removed_log tbl"
    "neighbour_list tbl' = ys @ e' # zs" "neighbor_key e' = neighbor_key (neighbor_age t e)"
    by (auto simp: tbl'_def)
  have idx: "index e' = index e" using neighbor_key_index [OF S(5)] by (simp add: neighbor_age_def)
  have total_size: "list_total_size tbl' = list_total_size tbl"
    unfolding tbl'_def neighbor_timeout_step_def N(4) by (simp add: Let_def assms(3) linorder_not_less [symmetric])
  have upd: "neighbour_list (neighbor_upd (index e) f tbl) = ys @ f e # zs" for f
    by (rule neighbor_upd_split(1) [OF assms(1,2)])
  have upd2: "neighbour_list (neighbor_upd (index e) (\<lambda>_. c') (tbl1\<lparr>active_nud_process := k\<rparr>)) = ys @ c' # zs"
    if "neighbour_list tbl1 = ys @ c # zs" "index c = index e" for c c' tbl1 k
    using N(1,2) that by (simp add: neighbor_upd_def map_index_out)
  have "nud_active e' \<longleftrightarrow> nud_active e \<or> (b \<and> ws_nud_asked t (index e) tbl \<noteq> None)"
    using S(4) assms(3) unfolding tbl'_def neighbor_timeout_step_def ws_nud_asked_def N(4)
    by (auto simp: Let_def upd upd2 [OF upd] assms(2) split: if_splits)
  then show "table_step {} tbl tbl'" "b \<Longrightarrow> ws_nud_asked t (index e) tbl \<noteq> None \<Longrightarrow> index e \<in> nud_on tbl'"
    using S(1,2) total_size idx by (auto simp: table_step_def nud_on_def S(4) assms(2))
  show "removed_log tbl' = removed_log tbl" by (rule S(3))
qed

lemma nud_notify_cases:
  assumes "ws_neighbor_entry_nud_notify env cur s = (b, s1)"
  obtains (no) "\<not> b" "s1 = s"
  | (started) n k rest where "b" "free_nud_entries s = k # rest" "slot n = slot k" "neighbor_info n = Some (index cur)"
      "s1 = s\<lparr>free_nud_entries := rest, active_nud := active_nud s @ [n]\<rparr>"
proof (cases "b")
  case False
  then have "s1 = s"
    using assms
    by (auto simp: ws_neighbor_entry_nud_notify_def ws_nud_entry_get_free_def Let_def split: if_splits option.splits list.splits)
  with no False show ?thesis by blast
next
  case True
  then obtain p where "ws_nud_wanted env cur (unat (etx_samples (etx_entry (nbr_etx s) (index cur)))) = Some p"
    using assms by (auto simp: ws_neighbor_entry_nud_notify_def split: if_splits option.splits)
  moreover obtain k rest where "free_nud_entries s = k # rest"
    using assms True calculation
    by (auto simp: ws_neighbor_entry_nud_notify_def ws_nud_entry_get_free_def split: if_splits list.splits)
  ultimately show ?thesis
    using assms True
    by (intro started [of k rest "last (active_nud s1)"])
      (auto simp: ws_neighbor_entry_nud_notify_def ws_nud_entry_get_free_def Let_def split: if_splits)
qed

lemma nud_started_inv:
  assumes "node_inv {} s" and "free_nud_entries s = k # rest" and "slot n = slot k" and "neighbor_info n = Some i"
    and "i \<notin> nud_on (nbr_table s)"
  shows "node_inv {i} (s\<lparr>free_nud_entries := rest, active_nud := active_nud s @ [n]\<rparr>)"
proof -
  have "Some i \<notin> neighbor_info ` set (active_nud s)" using assms(1,5) by (auto simp: node_inv_def nud_ok_def)
  then have "nud_ok {i} (s\<lparr>free_nud_entries := rest, active_nud := active_nud s @ [n]\<rparr>)"
    using assms(1-4) by (auto simp: node_inv_def nud_ok_def)
  then show ?thesis using assms(1) by (simp add: node_inv_def tables_ok_def forgotten_def)
qed

lemma node_inv_settled: "node_inv {i} s \<Longrightarrow> i \<in> nud_on (nbr_table s) \<Longrightarrow> node_inv {} s"
  using nud_on_nbrs [of "nbr_table s"] by (auto simp: node_inv_def nud_ok_def insert_absorb)

lemma timeout_step_inv:
  assumes "node_inv {} s"
  shows "node_inv {} (ws_timeout_step env t i s)"
proof (cases "i \<in> nbrs (nbr_table s)")
  case False
  then have "ws_nud_asked t i (nbr_table s) = None" "neighbor_timeout_step (\<lambda>_. b) t i (nbr_table s) = nbr_table s" for b
    by (simp_all add: ws_nud_asked_def neighbor_timeout_step_def find_nbr_None)
  then show ?thesis using op_same_inv [OF assms] by (simp add: ws_timeout_step_def)
next
  case True
  note inv = node_inv_neighbor [OF assms]
  from True obtain e where e: "e \<in> set (neighbour_list (nbr_table s))" "index e = i" by blast
  from split_list [OF e(1)] obtain ys zs where l: "neighbour_list (nbr_table s) = ys @ e # zs" by blast
  note N = neighbor_inv_split [OF inv l, unfolded e(2)]
  show ?thesis
  proof (cases "lifetime e > t")
    case False
    then have "ws_nud_asked t i (nbr_table s) = None"
      "neighbor_timeout_step (\<lambda>_. False) t i (nbr_table s) = neighbor_table_class_remove_entry i (nbr_table s)"
      by (simp_all add: ws_nud_asked_def neighbor_timeout_step_def N(4))
    then show ?thesis using op_remove_entry_inv [OF assms True] by (simp add: ws_timeout_step_def)
  next
    case alive: True
    note A = timeout_alive [OF inv l alive, unfolded e(2)]
    have still: "node_inv {} (ws_table_op env (neighbor_timeout_step (\<lambda>_. b) t i) s)" for b
      using A(1,2) by (intro table_op_inv [OF assms, where es = "[]"]) simp_all
    show ?thesis
    proof (cases "ws_nud_asked t i (nbr_table s)")
      case None
      then show ?thesis using still by (simp add: ws_timeout_step_def)
    next
      case (Some cur)
      then have cur: "index cur = i" "\<not> nud_active e"
        using e(2) by (auto simp: ws_nud_asked_def N(4) split: if_splits)
      then have off: "i \<notin> nud_on (nbr_table s)" using N(1,2) e(2) by (auto simp: nud_on_def l image_iff)
      obtain b s1 where n: "ws_neighbor_entry_nud_notify env cur s = (b, s1)" by (rule prod.exhaust)
      then show ?thesis
      proof (cases rule: nud_notify_cases)
        case no
        then show ?thesis using still n Some by (simp add: ws_timeout_step_def)
      next
        case (started m k rest)
        let ?f = "neighbor_timeout_step (\<lambda>_. True) t i"
        have inv1: "node_inv {i} s1" using nud_started_inv [OF assms started(2,3) _ off] started(4,5) cur(1) by simp
        have t1: "nbr_table s1 = nbr_table s" by (simp add: started(5))
        have "node_inv {i} (s1\<lparr>nbr_table := ?f (nbr_table s1)\<rparr>)"
          using node_inv_table [OF inv1, of "{}" "?f (nbr_table s1)"] A(1) by (simp add: t1)
        then have "node_inv {} (s1\<lparr>nbr_table := ?f (nbr_table s1)\<rparr>)"
          using A(3) Some by (intro node_inv_settled) (simp_all add: t1)
        then show ?thesis
          using A(2) n Some started(1) by (simp add: ws_timeout_step_def ws_table_op_def t1 Let_def)
      qed
    qed
  qed
qed

lemma timeout_update_inv [inv_intros]: "node_inv {} s \<Longrightarrow> node_inv {} (ws_neighbor_timeout_update env t s)"
proof -
  have "node_inv {} s \<Longrightarrow> node_inv {} (fold (ws_timeout_step env t) is s)" for "is" s
    by (induction "is" arbitrary: s) (simp_all add: timeout_step_inv)
  then show "node_inv {} s \<Longrightarrow> ?thesis" by (simp add: ws_neighbor_timeout_update_def)
qed

section \<open>Reachable nodes\<close>

inductive ws_reach :: "ws_node \<Rightarrow> bool" where
  start: "n \<noteq> 0 \<Longrightarrow> hyst \<noteq> 0 \<Longrightarrow> ws_reach (ws_node_start env if_id n hyst)"
| neighbor_remove: "ws_reach s \<Longrightarrow> ws_reach (ws_bootstrap_neighbor_remove env a s)"
| neighbor_request: "ws_reach s \<Longrightarrow> ws_reach (snd (ws_bootstrap_neighbor_info_request env mac new s))"
| set_stable: "ws_reach s \<Longrightarrow> ws_reach (ws_bootstrap_neighbor_set_stable env mac s)"
| short_time: "ws_reach s \<Longrightarrow> ws_reach (ws_bootstrap_mac_neighbor_short_time_set env mac t s)"
| dhcp: "ws_reach s \<Longrightarrow> ws_reach (ws_bootstrap_dhcp_neighbour_update_cb env a s)"
| negative_aro: "ws_reach s \<Longrightarrow> ws_reach (snd (ws_common_negative_aro_mark env eui s))"
| locallink: "ws_reach s \<Longrightarrow> ws_reach (ws_bootstrap_add_locallink env mac s)"
| list_clean: "ws_reach s \<Longrightarrow> ws_reach (ws_bootstrap_neighbor_list_clean env s)"
| eapol_set: "ws_reach s \<Longrightarrow> ws_reach (snd (ws_bootstrap_eapol_tx_temporary_set env mac s))"
| eapol_clear: "ws_reach s \<Longrightarrow> ws_reach (ws_bootstrap_eapol_tx_temporary_clear s)"
| child: "ws_reach s \<Longrightarrow> ws_reach (snd (ws_common_allow_child_registration env eui t s))"
| trusted: "ws_reach s \<Longrightarrow> i \<in> nbrs (nbr_table s) \<Longrightarrow>
    ws_reach (s\<lparr>nbr_table := mac_neighbor_table_trusted_neighbor i b (nbr_table s)\<rparr>)"
| modify: "ws_reach s \<Longrightarrow> i \<in> nbrs (nbr_table s) \<Longrightarrow> (\<And>e. index (f e) = index e) \<Longrightarrow>
    (\<And>e. nud_active (f e) = nud_active e) \<Longrightarrow> ws_reach (nbr_modify i f s)"
| etx_transm: "ws_reach s \<Longrightarrow> i \<in> nbrs (nbr_table s) \<Longrightarrow>
    ws_reach (s\<lparr>nbr_etx := etx_transm_attempts_update (node_id s) attempts success i mac (nbr_etx s)\<rparr>)"
| etx_timer: "ws_reach s \<Longrightarrow>
    ws_reach (s\<lparr>nbr_etx := etx_cache_timer (node_id s) (Some (nbr_table s)) seconds (nbr_etx s)\<rparr>)"
| entry_write: "ws_reach s \<Longrightarrow> i \<in> nbrs (nbr_table s) \<Longrightarrow>
    ws_reach (s\<lparr>neighbor_storage := ws_entry_write i e (neighbor_storage s)\<rparr>)"
| nud_reset: "ws_reach s \<Longrightarrow> ws_reach (ws_nud_table_reset s)"
| nud_timer: "ws_reach s \<Longrightarrow> ws_reach (ws_nud_active_timer env ticks s)"
| nud_answer: "ws_reach s \<Longrightarrow> ws_reach (ws_common_neighbor_update env a s)"
| timeout: "ws_reach s \<Longrightarrow> ws_reach (ws_neighbor_timeout_update env t s)"

lemma etx_zero_entries:
  "etx_storage_list st = Some (replicate k etx_storage_zero) \<Longrightarrow> etx_entry st i = etx_storage_zero"
  "etx_cache_storage_list st = Some (replicate k etx_sample_zero) \<Longrightarrow> etx_cache st i = etx_sample_zero"
  by (simp_all add: etx_entry_def etx_cache_def)

lemma node_start_inv:
  assumes "n \<noteq> 0" and "hyst \<noteq> 0"
  shows "node_inv {} (ws_node_start env if_id n hyst)"
proof -
  let ?s = "ws_node_start env if_id n hyst" and ?st = "nbr_etx (ws_node_start env if_id n hyst)"
  have reach: "etx_reach ?st"
    unfolding ws_node_start_def Let_def by (simp split del: if_split) (intro etx_reach.intros)
  have tbl: "nbr_table ?s = the (mac_neighbor_table_create True n True True)" "node_id ?s = if_id"
    "device_table ?s = (\<lambda>_. None)" "active_nud ?s = []" "free_nud_entries ?s = []"
    "neighbor_storage ?s = \<lparr>neigh_info_list = Some (replicate (unat n) ws_neighbor_zero), list_size = n\<rparr>"
    by (simp_all add: ws_node_start_def Let_def ws_neighbor_class_alloc_def)
  have etx: "etx_interface_id ?st = if_id" "callback_ptr ?st" "ext_storage_list_size ?st = n"
    "etx_storage_list ?st = Some (replicate (unat n) etx_storage_zero)"
    "etx_cache_storage_list ?st = Some (replicate (unat n) etx_sample_zero)"
    using assms by (simp_all add: ws_node_start_def Let_def etx_value_change_callback_register_def etx_max_set_def
        etx_max_update_set_def etx_allow_drop_for_poor_measurements_def etx_cached_etx_parameter_set_def
        etx_storage_list_allocate_def etx_info_init_def)
  obtain t where t: "mac_neighbor_table_create True n True True = Some t" "list_total_size t = n" "has_remove_cb t"
    by (simp add: mac_neighbor_table_create_def)
  have cls: "ws_neighbor_class_entry_get (neighbor_storage ?s) i = Some e \<Longrightarrow> e = ws_neighbor_zero" for i e
    by (auto simp: tbl ws_neighbor_class_entry_get_def word_less_nat_alt word_le_nat_alt split: if_splits)
  have "tables_ok ?s"
    using neighbor_create_inv [OF t(1)] t etx(1-3) etx_reach_etx_inv [OF reach] by (simp add: tables_ok_def tbl)
  moreover have "forgotten ?s i" for i
    using cls etx_zero_entries(1) [OF etx(4)] etx_zero_entries(2) [OF etx(5)] by (auto simp: forgotten_def tbl)
  ultimately show ?thesis by (simp add: node_inv_def nud_ok_def tbl)
qed

lemma ws_reach_inv: "ws_reach s \<Longrightarrow> node_inv {} s"
  by (induction rule: ws_reach.induct) (assumption | rule node_start_inv inv_intros)+

end
