(* ===== verification/WsNodeProps.thy ===== *)
theory WsNodeProps
  imports WsNodeReach
begin

text \<open>
  The consistency of the tables of a Wi-SUN node in all its reachable states, and what its
  functions do with the neighbours: which neighbour may be dropped for a
  new one, when a new one is accepted, and how long an unreachable neighbour is kept.
\<close>

section \<open>Consistency\<close>

lemma nud_active_bound:
  assumes "nud_ok P s"
  shows "length (active_nud s) \<le> 3"
proof -
  have d: "distinct (map slot (active_nud s))" "slot ` set (active_nud s) \<subseteq> {..<3}" using assms by (auto simp: nud_ok_def)
  have "length (active_nud s) = card (set (map slot (active_nud s)))" using distinct_card [OF d(1)] by simp
  also have "\<dots> \<le> card {..<3 :: nat}" using d(2) by (intro card_mono) simp_all
  finally show ?thesis by simp
qed


section \<open>Dropping a neighbour\<close>

definition evictable :: "ws_env \<Rightarrow> ws_node \<Rightarrow> u32 \<Rightarrow> mac_neighbor_table_entry_t \<Rightarrow> bool" where
  "evictable env s min_timeout e \<longleftrightarrow>
     index e \<noteq> eapol_tx_index s \<and> link_role e \<noteq> PRIORITY_PARENT_NEIGHBOUR \<and> \<not> nud_active e \<and>
     \<not> (WS_NEIGHBOUR_TEMPORARY_ENTRY_LIFETIME < link_lifetime e
        \<and> link_lifetime e \<le> WS_NEIGHBOUR_TEMPORARY_NEIGH_MAX_LIFETIME) \<and>
     \<not> (trusted_device e \<and> (has_registered_by_eui64 env (mac64 e)
        \<or> is_dodag_parent env (ws_bootsrap_create_ll_address (mac64 e)))) \<and>
     min_timeout \<le> ws_unicast_age env s e"

lemma candidate_cases:
  "ws_clean_candidate env s t e best = best \<or> ws_clean_candidate env s t e best = Some e \<and> evictable env s t e"
  by (auto simp: ws_clean_candidate_def evictable_def split: option.split)

lemma candidate_found: "best \<noteq> None \<or> evictable env s t e \<Longrightarrow> ws_clean_candidate env s t e best \<noteq> None"
  by (auto simp: ws_clean_candidate_def evictable_def split: option.split)

lemma candidate_fold:
  "fold (ws_clean_candidate env s t) es best = best \<or>
   (\<exists>e \<in> set es. fold (ws_clean_candidate env s t) es best = Some e \<and> evictable env s t e)"
proof (induction es arbitrary: best)
  case (Cons e es)
  then show ?case using candidate_cases [of env s t e best] by (fastforce simp: Cons)
qed simp

lemma candidate_fold_found:
  "best \<noteq> None \<or> (\<exists>e \<in> set es. evictable env s t e) \<Longrightarrow> fold (ws_clean_candidate env s t) es best \<noteq> None"
proof (induction es arbitrary: best)
  case (Cons e es)
  then show ?case using candidate_found [of best env s t e] by (metis fold_simps(2) set_ConsD)
qed simp

lemma nud_entry_remove_table:
  assumes "neighbor_inv (nbr_table s)" and "i \<notin> nbrs (nbr_table s)"
  shows "nbr_table (ws_nud_entry_remove i s) = nbr_table s"
proof -
  have "i \<notin> nud_on (nbr_table s)" using assms(2) nud_on_nbrs by blast
  then have "\<not> nud_active (nbr_at s' i)" if "nbr_table s' = nbr_table s" for s'
    using nbr_at_nud [of s' i] assms(1) that by simp
  then show ?thesis
    by (auto simp: ws_nud_entry_remove_def ws_nud_state_clean_def Let_def nud_move_to_free_def ws_nud_entry_discover_def
        find_Some_iff split: option.split)
qed

lemma remove_notify_table:
  assumes "neighbor_inv (nbr_table s)" and "index e \<notin> nbrs (nbr_table s)"
  shows "nbr_table (ws_neighbor_entry_remove_notify env e s) = nbr_table s"
  using assms nud_entry_remove_table by (simp add: ws_neighbor_entry_remove_notify_def Let_def)

lemma op_remove_table:
  assumes "node_inv {} s" and "i \<in> nbrs (nbr_table s)"
  shows "nbr_table (ws_table_op env (mac_neighbor_table_neighbor_remove i) s) =
    neighbor_table_class_remove_entry i (nbr_table s)"
proof -
  note inv = node_inv_neighbor [OF assms(1)]
  from assms(2) obtain e where e: "e \<in> set (neighbour_list (nbr_table s))" "index e = i" by blast
  from split_list [OF e(1)] obtain ys zs where l: "neighbour_list (nbr_table s) = ys @ e # zs" by blast
  note N = neighbor_inv_split(4) [OF inv l, unfolded e(2)]
  have eq: "mac_neighbor_table_neighbor_remove i (nbr_table s) = neighbor_table_class_remove_entry i (nbr_table s)"
    using e(2) by (simp add: mac_neighbor_table_neighbor_remove_def neighbor_table_class_entry_validate_def N)
  note R = table_step_remove [OF inv assms(2)]
  obtain c where c: "index c = i" "removed_log (neighbor_table_class_remove_entry i (nbr_table s)) = removed_log (nbr_table s) @ [c]"
    using R(4) assms(1) by (auto simp: node_inv_def tables_ok_def)
  have "neighbor_inv (neighbor_table_class_remove_entry i (nbr_table s))" using R(1) by (simp add: table_step_def)
  with R(2) show ?thesis
    by (simp add: ws_table_op_def Let_def eq c remove_notify_table)
qed

lemma remove_entry_list:
  assumes "neighbor_inv tbl" and "e \<in> set (neighbour_list tbl)"
  shows "neighbour_list (neighbor_table_class_remove_entry (index e) tbl) = filter (\<lambda>c. index c \<noteq> index e) (neighbour_list tbl)"
    and "free_list (neighbor_table_class_remove_entry (index e) tbl) = free_list tbl @ [neighbor_zero (index e)]"
proof -
  from split_list [OF assms(2)] obtain ys zs where l: "neighbour_list tbl = ys @ e # zs" by blast
  note N = neighbor_inv_split(1,2) [OF assms(1) l]
  show "neighbour_list (neighbor_table_class_remove_entry (index e) tbl) = filter (\<lambda>c. index c \<noteq> index e) (neighbour_list tbl)"
    "free_list (neighbor_table_class_remove_entry (index e) tbl) = free_list tbl @ [neighbor_zero (index e)]"
    using neighbor_remove_split(1,2) [OF assms(1) l] N by (simp_all add: l filter_index_out)
qed

text \<open>The least age of a neighbour that may be dropped.\<close>

definition clean_min_timeout :: "ws_env \<Rightarrow> ws_node \<Rightarrow> u32" where
  "clean_min_timeout env s =
     (if neighbour_list_size (nbr_table s) = list_total_size (nbr_table s) then 1 else temp_link_min_timeout env)"

lemma table_clean_cases:
  assumes "node_inv {} s"
  obtains (same) "ws_bootstrap_neighbor_table_clean env s = s"
      "length (neighbour_list (nbr_table s)) < unat (list_total_size (nbr_table s))
        \<or> (\<forall>e \<in> set (neighbour_list (nbr_table s)). \<not> evictable env s 1 e)"
  | (drop) e where "e \<in> set (neighbour_list (nbr_table s))" "evictable env s (clean_min_timeout env s) e"
      "unat (list_total_size (nbr_table s)) <
        length (neighbour_list (nbr_table s)) + unat (ws_common_temporary_entry_size (list_total_size (nbr_table s)))"
      "nbr_table (ws_bootstrap_neighbor_table_clean env s) = neighbor_table_class_remove_entry (index e) (nbr_table s)"
proof -
  note inv = node_inv_neighbor [OF assms]
  let ?tbl = "nbr_table s" and ?r = "fold (ws_clean_candidate env s (clean_min_timeout env s)) (neighbour_list (nbr_table s)) None"
  have n: "unat (neighbour_list_size ?tbl) = length (neighbour_list ?tbl)" using inv by (simp add: neighbor_inv_def)
  have temp: "0 < unat (ws_common_temporary_entry_size (list_total_size ?tbl))"
    by (simp add: ws_common_temporary_entry_size_def)
  have le: "length (neighbour_list ?tbl) \<le> unat (list_total_size ?tbl)" using neighbor_inv_lists(4) [OF inv] by simp
  show ?thesis
  proof (cases "int (unat (neighbour_list_size ?tbl)) \<le>
      int (unat (list_total_size ?tbl)) - int (unat (ws_common_temporary_entry_size (list_total_size ?tbl)))")
    case True
    then have "length (neighbour_list ?tbl) < unat (list_total_size ?tbl)" using temp unfolding n by linarith
    with True show ?thesis by (intro same) (simp_all add: ws_bootstrap_neighbor_table_clean_def Let_def)
  next
    case few: False
    show ?thesis
    proof (cases ?r)
      case None
      have "clean_min_timeout env s = 1" if "\<not> length (neighbour_list ?tbl) < unat (list_total_size ?tbl)"
      proof -
        have "unat (neighbour_list_size ?tbl) = unat (list_total_size ?tbl)" using le that n by simp
        then show ?thesis by (simp add: clean_min_timeout_def word_unat_eq_iff)
      qed
      then have "length (neighbour_list ?tbl) < unat (list_total_size ?tbl)
          \<or> (\<forall>e \<in> set (neighbour_list ?tbl). \<not> evictable env s 1 e)"
        using None candidate_fold_found [of None "neighbour_list ?tbl" env s "clean_min_timeout env s"] by metis
      with few None show ?thesis
        by (intro same) (simp_all add: ws_bootstrap_neighbor_table_clean_def Let_def clean_min_timeout_def)
    next
      case (Some e)
      then have e: "e \<in> set (neighbour_list ?tbl)" "evictable env s (clean_min_timeout env s) e"
        using candidate_fold [of env s "clean_min_timeout env s" "neighbour_list ?tbl" None] by auto
      have "ws_bootstrap_neighbor_table_clean env s = ws_table_op env (mac_neighbor_table_neighbor_remove (index e)) s"
        using few Some by (simp add: ws_bootstrap_neighbor_table_clean_def Let_def clean_min_timeout_def)
      moreover have "unat (list_total_size ?tbl) <
          length (neighbour_list ?tbl) + unat (ws_common_temporary_entry_size (list_total_size ?tbl))"
        using few unfolding n by linarith
      ultimately show ?thesis
        using op_remove_table [OF assms, of "index e" env] e(1) by (intro drop [OF e]) simp_all
    qed
  qed
qed

text \<open>
  Making room for a new neighbour drops at most one, and only when fewer entries than the
  reserve are free. The one dropped is neither the entry for EAPOL transmissions nor the primary
  parent, nor a neighbour under unreachability detection or with a configured temporary lifetime,
  nor a registered child, nor a RPL parent, and it was silent for long enough.
\<close>

lemma ws_clean_spares:
  assumes "ws_reach s"
  shows "nbr_table (ws_bootstrap_neighbor_table_clean env s) = nbr_table s \<or>
    (\<exists>e \<in> set (neighbour_list (nbr_table s)). evictable env s (clean_min_timeout env s) e \<and>
      unat (list_total_size (nbr_table s)) <
        length (neighbour_list (nbr_table s)) + unat (ws_common_temporary_entry_size (list_total_size (nbr_table s))) \<and>
      neighbour_list (nbr_table (ws_bootstrap_neighbor_table_clean env s)) =
        filter (\<lambda>c. index c \<noteq> index e) (neighbour_list (nbr_table s)))"
proof -
  note inv = ws_reach_inv [OF assms]
  show ?thesis
  proof (cases rule: table_clean_cases [OF inv, of env])
    case (2 e)
    then show ?thesis using remove_entry_list(1) [OF node_inv_neighbor [OF inv], of e] by auto
  qed simp
qed

section \<open>Accepting a neighbour\<close>

lemma discover_cong:
  assumes "map (\<lambda>e. (index e, take 8 (mac64 e))) (neighbour_list (nbr_table s')) =
    map (\<lambda>e. (index e, take 8 (mac64 e))) (neighbour_list (nbr_table s))"
  shows "ws_discover env s' mac = ws_discover env s mac"
proof -
  have eq: "map_option index (find (\<lambda>e. take 8 (mac64 e) = m) xs) =
      map_option fst (find (\<lambda>p. snd p = m) (map (\<lambda>e. (index e, take 8 (mac64 e))) xs))" for m xs
    by (induction xs) auto
  show ?thesis
    unfolding ws_discover_def mac_neighbor_table_address_discover_def addrtype_t.case eq assms by (rule refl)
qed

lemma discover_None: "ws_discover env s mac = None \<longleftrightarrow> (\<forall>e \<in> set (neighbour_list (nbr_table s)). take 8 (mac64 e) \<noteq> take 8 mac)"
  by (auto simp: ws_discover_def mac_neighbor_table_address_discover_def find_None_iff)

text \<open>A free entry is given to an unknown neighbour, with nothing in it.\<close>

lemma neighbor_add_free:
  assumes "node_inv {} s" and "free_list (nbr_table s) \<noteq> []" and "ws_discover env s mac = None"
  shows "\<exists>i s'. ws_bootstrap_mac_neighbor_add env mac s = (Some i, s') \<and> ws_discover env s' mac = Some i \<and>
    nbr_etx s' = nbr_etx s \<and> neighbor_storage s' = neighbor_storage s \<and> node_id s' = node_id s \<and>
    i \<notin> nbrs (nbr_table s)"
proof (cases rule: neighbor_allocate_cases [of "nbr_table s" mac])
  case full
  with assms(2) show ?thesis by simp
next
  case (entry e rest new)
  let ?tbl = "(nbr_table s)\<lparr>free_list := rest, neighbour_list := neighbour_list (nbr_table s) @ [new],
      neighbour_list_size := neighbour_list_size (nbr_table s) + 1\<rparr>"
  let ?f = "\<lambda>e. e\<lparr>lifetime := temporary_lifetime env, link_lifetime := temporary_lifetime env\<rparr>"
  let ?s1 = "nbr_modify (index e) ?f (s\<lparr>nbr_table := ?tbl\<rparr>)"
  let ?s' = "mac_helper_devicetable_set (index e) (mac64 (nbr_at ?s1 (index e))) (mac16 (nbr_at ?s1 (index e))) ?s1"
  have "ws_discover env ?s' mac = ws_discover env (s\<lparr>nbr_table := ?tbl\<rparr>) mac"
    by (rule discover_cong) (simp add: nbr_modify_def neighbor_upd_def)
  also have "\<dots> = Some (index e)"
    using assms(3) entry(2,3)
    by (simp add: ws_discover_def mac_neighbor_table_address_discover_def find_append_None)
  finally have d: "ws_discover env ?s' mac = Some (index e)" .
  have out: "index e \<notin> nbrs (nbr_table s)"
    using neighbor_inv_lists(3) [OF node_inv_neighbor [OF assms(1)]] entry(1) by auto
  have add: "ws_bootstrap_mac_neighbor_add env mac s = (Some (index e), ?s')"
    using assms(3) entry(5) by (simp add: ws_bootstrap_mac_neighbor_add_def ws_bootstrap_mac_neighbor_allocate_def Let_def)
  show ?thesis
    by (intro exI conjI) (rule add d out | simp add: mac_helper_devicetable_set_def nbr_modify_def)+
qed


section \<open>Unreachable neighbours\<close>

lemma find_nud_set:
  assumes "find (\<lambda>m. slot m = k) (active_nud s) = Some n0" and "slot n = k"
  shows "find (\<lambda>m. slot m = k) (active_nud (nud_set n s)) = Some n"
proof -
  have "find (\<lambda>m. slot m = k) (map (\<lambda>m. if slot m = slot n then n else m) ns) = Some n"
    if "find (\<lambda>m. slot m = k) ns = Some n0" for ns
    using that assms(2) by (induction ns) (auto split: if_splits)
  with assms(1) show ?thesis by (simp add: nud_set_def)
qed

lemma nud_step_expire:
  assumes "find (\<lambda>m. slot m = k) (active_nud s) = Some n"
  shows "ws_nud_timer_step env 0xffff k s = ws_nud_expired env n s"
proof -
  have "timer n \<le> 0xffff" using unat_u16_lt [of "timer n"] by (simp add: word_le_nat_alt)
  with assms show ?thesis by (simp add: ws_nud_timer_step_def)
qed

text \<open>One round of a process that gets no answer: a solicitation, and the end of the wait.\<close>

lemma nud_send:
  assumes "find (\<lambda>m. slot m = k) (active_nud s) = Some n" and "neighbor_info n = Some i" and "\<not> wait_response n"
    and "ns_built env i"
  shows "find (\<lambda>m. slot m = k) (active_nud (ws_nud_timer_step env 0xffff k s)) =
      Some (n\<lparr>wait_response := True, retry_count := retry_count n + 1, timer := WS_NUD_RETRY_INTERVAL\<rparr>)"
proof -
  have k: "slot n = k" using assms(1) by (auto simp: find_Some_iff)
  show ?thesis
    unfolding nud_step_expire [OF assms(1)]
    using find_nud_set [of k "log_call c s" n "n\<lparr>wait_response := True, retry_count := retry_count n + 1,
        timer := WS_NUD_RETRY_INTERVAL\<rparr>" for c] assms k
    by (simp add: ws_nud_expired_def ws_nud_message_build_def Let_def)
qed

lemma nud_retry:
  assumes "find (\<lambda>m. slot m = k) (active_nud s) = Some n" and "neighbor_info n = Some i" and "wait_response n"
    and "nud_process n" and "unat (retry_count n) < WS_NUD_RETRY_LIMIT"
  shows "find (\<lambda>m. slot m = k) (active_nud (ws_nud_timer_step env 0xffff k s)) =
      Some (n\<lparr>timer := rand_timer env (slot n) 1 900, wait_response := False\<rparr>)"
proof -
  have k: "slot n = k" using assms(1) by (auto simp: find_Some_iff)
  show ?thesis
    unfolding nud_step_expire [OF assms(1)] using find_nud_set [OF assms(1)] assms k by (simp add: ws_nud_expired_def)
qed

lemma diff_singleton_eqI: "A \<subseteq> B \<union> {i} \<Longrightarrow> i \<notin> B \<Longrightarrow> B \<subseteq> A \<Longrightarrow> B = A - {i}"
  by blast

lemma nud_give_up:
  assumes "node_inv {} s" and "find (\<lambda>m. slot m = k) (active_nud s) = Some n" and "neighbor_info n = Some i"
    and "wait_response n" and "nud_process n" and "\<not> unat (retry_count n) < WS_NUD_RETRY_LIMIT"
  shows "nbrs (nbr_table (ws_nud_timer_step env 0xffff k s)) = nbrs (nbr_table s) - {i}"
proof -
  have n: "n \<in> set (active_nud s)" using assms(2) by (auto simp: find_Some_iff)
  let ?s = "ws_nud_state_clean n s"
  note C = nud_state_clean_inv [OF assms(1) n refl refl assms(3)]
  have inv: "node_inv {} ?s" by (rule nud_state_clean_node_inv [OF assms(1) n refl refl])
  have "i \<in> nud_on (nbr_table s)" using assms(1,3) n by (auto simp: node_inv_def nud_ok_def)
  then have i: "i \<in> nbrs (nbr_table ?s)" unfolding C(3) using nud_on_nbrs by blast
  note R = table_step_remove [OF node_inv_neighbor [OF inv] i]
  have "nbrs (neighbor_table_class_remove_entry i (nbr_table ?s)) = nbrs (nbr_table s) - {i}"
    unfolding C(3) [symmetric] by (rule diff_singleton_eqI) (use R in \<open>simp_all add: table_step_def\<close>)
  moreover have "ws_nud_expired env n s = ws_table_op env (mac_neighbor_table_neighbor_remove i) ?s"
    using assms(3-6) by (simp add: ws_nud_expired_def)
  ultimately show ?thesis
    by (simp only: nud_step_expire [OF assms(2)] op_remove_table [OF inv i])
qed

lemma nud_step_nbrs:
  assumes "node_inv {} s" and "find (\<lambda>m. slot m = k) (active_nud s) = Some n" and "neighbor_info n = Some i"
    and "\<not> (wait_response n \<and> \<not> unat (retry_count n) < WS_NUD_RETRY_LIMIT)" and "nud_process n" and "ns_built env i"
  shows "nbrs (nbr_table (ws_nud_timer_step env 0xffff k s)) = nbrs (nbr_table s)"
  unfolding nud_step_expire [OF assms(2)] using assms(3-6)
  by (auto simp: ws_nud_expired_def ws_nud_message_build_def nud_set_def Let_def)

lemma nud_step_inv: "node_inv {} s \<Longrightarrow> node_inv {} (ws_nud_timer_step env ms k s)"
proof (cases "find (\<lambda>n. slot n = k) (active_nud s)")
  case (Some n)
  assume inv: "node_inv {} s"
  from Some have "n \<in> set (active_nud s)" by (auto simp: find_Some_iff)
  with Some show ?thesis
    using nud_expired_inv [OF inv] nud_set_inv [OF inv, of n "n\<lparr>timer := timer n - ms\<rparr>"]
    by (simp add: ws_nud_timer_step_def)
qed (simp add: ws_nud_timer_step_def)


section \<open>Witnesses\<close>

text \<open>A node with two entries that has one neighbour, a candidate parent not heard for long.\<close>

definition env_example :: ws_env where
  "env_example = \<lparr>rx_off_idle = False, has_registered_by_eui64 = (\<lambda>_. False), is_dodag_parent = (\<lambda>_. False),
     is_dodag_parent_candidate = (\<lambda>_. True), probe_parent_candidate = (\<lambda>_. True), small_network = True,
     rapid_join = False, bootstrap_done = True, border_router = False, has_selected_parent = True,
     temporary_lifetime = 240, temp_link_min_timeout = 10, max_child_count_override = 0xffff,
     mac_timestamp = 20000000, probe_source = None, ns_built = (\<lambda>_. True), rand_switch = (\<lambda>_ a b. a),
     rand_timer = (\<lambda>_ a b. b), read_16_bit = (\<lambda>_ _. 0)\<rparr>"

definition node_example :: ws_node where
  "node_example = snd (ws_bootstrap_neighbor_info_request env_example [1, 2, 3, 4, 5, 6, 7, 8] True
     (ws_nud_table_reset (ws_node_start env_example 1 2 64)))"

lemma node_example_reach: "ws_reach node_example"
  unfolding node_example_def by (intro ws_reach.intros) simp_all

definition node_example2 :: ws_node where
  "node_example2 = ws_neighbor_timeout_update env_example 1
     (nbr_modify 0 (\<lambda>e. e\<lparr>trusted_device := True, lifetime := 500, link_lifetime := 2200\<rparr>) node_example)"

lemma node_example_nbrs: "map index (neighbour_list (nbr_table node_example)) = [0]"
  unfolding node_example_def by code_simp

lemma node_example2_nud:
  "find (\<lambda>m. slot m = 0) (active_nud node_example2) =
     Some \<lparr>slot = 0, neighbor_info = Some 0, timer = 900, retry_count = 0, wait_response = False, nud_process = True\<rparr>"
  unfolding node_example2_def node_example_def by code_simp

lemma node_example2_reach: "ws_reach node_example2"
proof -
  have "0 \<in> nbrs (nbr_table node_example)" using node_example_nbrs by (metis list.set_intros(1) list.set_map)
  then show ?thesis
    unfolding node_example2_def by (intro ws_reach.timeout ws_reach.modify node_example_reach) simp_all
qed




end
