(* ===== verification/ChannelList.thy ===== *)
theory ChannelList
  imports ChannelPlan
begin

text \<open>
  The channel lists of the frequency hopping module: \<open>Service_Libs/fhss/channel_list.c\<close> and the
  lookup \<open>fhss_channel_index_from_mask\<close> of \<open>Service_Libs/fhss/fhss_ws.c\<close>. A list is an array of eight
  32-bit words, one bit per channel. The lemmas relate the loops to the increasing list of the
  enabled channels.
\<close>

section \<open>Operations\<close>

abbreviation CHANNEL_LIST_SIZE_IN_BITS :: nat where "CHANNEL_LIST_SIZE_IN_BITS \<equiv> 8 * 32"

definition channel_list_bit_test32 :: "u32 \<Rightarrow> nat \<Rightarrow> bool" where
  "channel_list_bit_test32 w bit_number \<longleftrightarrow> w AND push_bit bit_number 1 \<noteq> 0"

definition channel_list_bit_test :: "u32 list \<Rightarrow> nat \<Rightarrow> bool" where
  "channel_list_bit_test list bit_number \<longleftrightarrow>
     channel_list_bit_test32 (list ! (bit_number div 32)) (bit_number mod 32)"

text \<open>
  The two nested loops visit the channels in their order; \<open>channel\<close> is the 8-bit counter of the
  channel, \<open>enabled\<close> the number of enabled channels passed.
\<close>

fun channel_list_search_loop :: "u32 list \<Rightarrow> int \<Rightarrow> nat list \<Rightarrow> u8 \<Rightarrow> int \<Rightarrow> u8" where
  "channel_list_search_loop list index [] channel enabled = channel"
| "channel_list_search_loop list index (p # ps) channel enabled =
     (if list ! (p div 32) AND push_bit (p mod 32) 1 \<noteq> 0
      then if enabled + 1 = index + 1 then channel
           else channel_list_search_loop list index ps (channel + 1) (enabled + 1)
      else channel_list_search_loop list index ps (channel + 1) enabled)"

definition channel_list_search :: "u32 list \<Rightarrow> int \<Rightarrow> u8" where
  "channel_list_search list index =
     channel_list_search_loop list index [0..<CHANNEL_LIST_SIZE_IN_BITS] 0 0"

definition channel_list_get_channel :: "u32 list \<Rightarrow> int \<Rightarrow> u8" where
  "channel_list_get_channel list current_index =
     (let current_index = if current_index \<ge> int CHANNEL_LIST_SIZE_IN_BITS then 0 else current_index
      in channel_list_search list current_index)"

text \<open>The channel of a call is not negative (\<open>channel / 32\<close> would be an index before the array).\<close>

definition channel_list_set_channel :: "u32 list \<Rightarrow> nat \<Rightarrow> bool \<Rightarrow> u32 list" where
  "channel_list_set_channel list channel active =
     (if channel \<ge> CHANNEL_LIST_SIZE_IN_BITS then list
      else if active then list[channel div 32 := list ! (channel div 32) OR push_bit (channel mod 32) 1]
      else list[channel div 32 := list ! (channel div 32) AND NOT (push_bit (channel mod 32) 1)])"

definition channel_list_count_channels :: "u32 list \<Rightarrow> nat" where
  "channel_list_count_channels list =
     fold (\<lambda>index count. if channel_list_bit_test list index then count + 1 else count)
       [0..<CHANNEL_LIST_SIZE_IN_BITS] 0"

text \<open>
  The lookup of \<open>fhss_ws.c\<close>. The number of channels comes from the configuration, so that an access
  behind the mask is a possible outcome: \<open>None\<close>.
\<close>

fun fhss_mask_loop :: "u32 list \<Rightarrow> int \<Rightarrow> nat list \<Rightarrow> int \<Rightarrow> nat option" where
  "fhss_mask_loop channel_mask channel_index [] active_channels = Some 0"
| "fhss_mask_loop channel_mask channel_index (i # is) active_channels =
     (if i div 32 \<ge> length channel_mask then None
      else if channel_mask ! (i div 32) AND push_bit (i mod 32) 1 \<noteq> 0
      then if channel_index = active_channels then Some i
           else fhss_mask_loop channel_mask channel_index is (active_channels + 1)
      else fhss_mask_loop channel_mask channel_index is active_channels)"

definition fhss_channel_index_from_mask :: "u32 list \<Rightarrow> int \<Rightarrow> u16 \<Rightarrow> nat option" where
  "fhss_channel_index_from_mask channel_mask channel_index n =
     fhss_mask_loop channel_mask channel_index [0..<unat n] 0"

section \<open>The enabled channels\<close>

definition enabled_channels :: "u32 list \<Rightarrow> nat \<Rightarrow> nat list" where
  "enabled_channels m n = filter (channel_on m) [0..<n]"

lemma enabled_channels_sorted [simp]: "sorted (enabled_channels m n)" "distinct (enabled_channels m n)"
  by (simp_all add: enabled_channels_def sorted_wrt_filter)

lemma set_enabled_channels [simp]: "set (enabled_channels m n) = {c. c < n \<and> channel_on m c}"
  by (auto simp: enabled_channels_def)

lemma length_enabled_channels: "length (enabled_channels m n) = card {c. c < n \<and> channel_on m c}"
  using distinct_card [OF enabled_channels_sorted(2), of m n] by simp

lemma length_enabled_le: "length (enabled_channels m n) \<le> n"
  using length_filter_le [of "channel_on m" "[0..<n]"] by (simp add: enabled_channels_def)

lemma channel_bit_test:
  assumes "length m = 8" and "p < 256"
  shows "m ! (p div 32) AND push_bit (p mod 32) 1 \<noteq> 0 \<longleftrightarrow> channel_on m p"
proof -
  have "p div 32 < length m" using assms by linarith
  moreover have "p mod 32 < 32" by simp
  ultimately show ?thesis using channel_test [of "p mod 32" "m ! (p div 32)"] by (simp only: channel_on_def simp_thms)
qed

lemma enabled_channels_prefix:
  assumes "n \<le> n'" and "k < length (enabled_channels m n)"
  shows "enabled_channels m n' ! k = enabled_channels m n ! k"
proof -
  have "[0..<n'] = [0..<n] @ [n..<n']" using upt_add_eq_append [of 0 n "n' - n"] assms(1) by simp
  then show ?thesis using assms(2) by (simp add: enabled_channels_def nth_append)
qed

text \<open>Both loops return the enabled channel with the index they are asked for.\<close>

lemma channel_list_search_loop_spec:
  assumes "length m = 8" and "k \<le> 256" and "int e \<le> index"
  shows "channel_list_search_loop m index [k..<256] (word_of_nat k) (int e) =
    (let cs = filter (channel_on m) [k..<256] in
     if nat index - e < length cs then word_of_nat (cs ! (nat index - e)) else 0)"
  using assms(2,3)
proof (induction "256 - k" arbitrary: k e)
  case 0
  then have "k = 256" by simp
  then show ?case by simp
next
  case (Suc d)
  then have "k < 256" by simp
  then have kn: "[k..<256] = k # [Suc k..<256]" by (rule upt_conv_Cons)
  note on = channel_bit_test [OF assms(1) \<open>k < 256\<close>]
  have d: "d = 256 - Suc k" "Suc k \<le> 256" using Suc.hyps(2) by simp_all
  have s: "word_of_nat k + 1 = (word_of_nat (Suc k) :: u8)" by simp
  show ?case
  proof (cases "channel_on m k")
    case False
    then show ?thesis
      using Suc.hyps(1) [OF d(1,2) Suc.prems(2)] on by (simp add: kn add.commute)
  next
    case True
    show ?thesis
    proof (cases "int e = index")
      case True
      then show ?thesis using \<open>channel_on m k\<close> on by (auto simp: kn)
    next
      case False
      then have lt: "int (Suc e) \<le> index" using Suc.prems(2) by simp
      then have "nat index - e = Suc (nat index - Suc e)" by linarith
      with Suc.hyps(1) [OF d(1,2) lt] True on False show ?thesis by (simp add: kn add.commute Let_def)
    qed
  qed
qed

lemma fhss_mask_loop_spec:
  assumes "length m = 8" and "k \<le> n" and "n \<le> 256" and "int e \<le> index"
  shows "fhss_mask_loop m index [k..<n] (int e) =
    Some (let cs = filter (channel_on m) [k..<n] in
     if nat index - e < length cs then cs ! (nat index - e) else 0)"
  using assms(2,4)
proof (induction "n - k" arbitrary: k e)
  case (Suc d)
  then have "k < n" by simp
  then have kn: "[k..<n] = k # [Suc k..<n]" by (rule upt_conv_Cons)
  have k: "k < 256" using \<open>k < n\<close> assms(3) by simp
  note on = channel_bit_test [OF assms(1) k]
  have len: "k div 32 < length m" using k assms(1) by linarith
  have d: "d = n - Suc k" "Suc k \<le> n" using Suc.hyps(2) by simp_all
  show ?case
  proof (cases "channel_on m k")
    case False
    then show ?thesis using Suc.hyps(1) [OF d(1,2) Suc.prems(2)] on len by (simp add: kn)
  next
    case True
    show ?thesis
    proof (cases "int e = index")
      case True
      then show ?thesis using \<open>channel_on m k\<close> on len by (auto simp: kn)
    next
      case False
      then have lt: "int (Suc e) \<le> index" using Suc.prems(2) by simp
      then have "nat index - e = Suc (nat index - Suc e)" by linarith
      with Suc.hyps(1) [OF d(1,2) lt] True on False len show ?thesis by (simp add: kn add.commute Let_def)
    qed
  qed
qed simp

lemma channel_list_get_channel_spec:
  assumes "length m = 8" and "k < length (enabled_channels m 256)"
  shows "unat (channel_list_get_channel m (int k)) = enabled_channels m 256 ! k"
proof -
  have k: "k < 256" using assms(2) length_enabled_le [of m 256] by simp
  have "enabled_channels m 256 ! k < 256" using nth_mem [OF assms(2)] by simp
  moreover have "channel_list_get_channel m (int k) = word_of_nat (enabled_channels m 256 ! k)"
    using channel_list_search_loop_spec [OF assms(1), of 0 0 "int k"] assms(2) k
    by (simp add: channel_list_get_channel_def channel_list_search_def enabled_channels_def)
  ultimately show ?thesis by (simp add: unat_of_nat)
qed

lemma fhss_channel_index_from_mask_spec:
  assumes "length m = 8" and "unat n \<le> 256" and "0 \<le> index"
  shows "fhss_channel_index_from_mask m index n =
    Some (if nat index < length (enabled_channels m (unat n)) then enabled_channels m (unat n) ! nat index else 0)"
  using fhss_mask_loop_spec [OF assms(1) _ assms(2), of 0 0 index] assms(3)
  by (simp add: fhss_channel_index_from_mask_def enabled_channels_def Let_def)

lemma channel_list_count_spec:
  assumes "length m = 8"
  shows "channel_list_count_channels m = length (enabled_channels m 256)"
proof -
  have "fold (\<lambda>index count. if channel_list_bit_test m index then count + 1 else count) [0..<n] 0 =
      length (enabled_channels m n)" if "n \<le> 256" for n
    using that
  proof (induction n)
    case (Suc n)
    then have "channel_list_bit_test m n \<longleftrightarrow> channel_on m n"
      using channel_bit_test [OF assms, of n] by (simp add: channel_list_bit_test_def channel_list_bit_test32_def)
    with Suc show ?case by (simp add: enabled_channels_def)
  qed (simp add: enabled_channels_def)
  then show ?thesis by (simp add: channel_list_count_channels_def)
qed

lemma channel_list_set_channel_spec:
  assumes "length m = 8" and "c < 256"
  shows "length (channel_list_set_channel m c v) = 8" "channel_on (channel_list_set_channel m c v) j = (if j = c then v else channel_on m j)"
proof -
  have c: "c div 32 < length m" using assms by linarith
  show "length (channel_list_set_channel m c v) = 8" using assms by (simp add: channel_list_set_channel_def)
  show "channel_on (channel_list_set_channel m c v) j = (if j = c then v else channel_on m j)"
    using assms(2) channel_on_set [OF c, of j] channel_on_clear [OF c, of j]
    by (cases v) (simp_all add: channel_list_set_channel_def)
qed

end
