(* ===== verification/Tr51.thy ===== *)
theory Tr51
  imports ChannelList Complex_Main
begin

text \<open>
  The TR51 channel function of \<open>Service_Libs/fhss/channel_functions.c\<close>, first part: the prime number
  the hopping sequence is built on and the channel table, a pseudorandom order of the channels.
  The search for the prime and the drawing of channels are loops whose end is not evident; the
  first is a function with a termination proof, the second a partial function, \<open>None\<close> for a loop
  that does not end, a division by zero or an access outside an array. It always ends because the
  random numbers, a linear congruential sequence modulo \<open>2 ^ 31\<close>, take every value.
\<close>

section \<open>The nearest prime\<close>

function tr51_prime_loop :: "u16 \<Rightarrow> u16 \<Rightarrow> u16 option" where
  "tr51_prime_loop start_value divider =
     (if start_value = 0 then Some 0
      else if divider = 0 then None
      else if start_value mod divider \<noteq> 0
      then if divider - 1 = 1 then Some start_value else tr51_prime_loop start_value (divider - 1)
      else tr51_prime_loop (start_value + 1) (start_value + 1 - 1))"
  by pat_completeness auto
termination
proof (relation "measures [\<lambda>(s, d). if s = 0 then 0 else 65536 - unat s, \<lambda>(s, d). unat d]")
  show "((s, d - 1), s, d) \<in> measures [\<lambda>(s, d). if s = 0 then 0 else 65536 - unat s, \<lambda>(s, d). unat d]"
    if "d \<noteq> 0" for s d :: u16
    using that by (simp add: unat_gt_0 unat_minus_one measures_def)
  show "((s + 1, s + 1 - 1), s, d) \<in> measures [\<lambda>(s, d). if s = 0 then 0 else 65536 - unat s, \<lambda>(s, d). unat d]"
    if "s \<noteq> 0" for s d :: u16
  proof -
    have "s + 1 \<noteq> 0 \<Longrightarrow> unat (s + 1) = Suc (unat s)" by (metis unatSuc add.commute)
    moreover have "65535 - unat s < 65536 - unat s" using unat_u16_lt [of s] by linarith
    ultimately show ?thesis using that unat_u16_lt [of s] by (simp add: measures_def)
  qed
qed simp

declare tr51_prime_loop.simps [simp del]

definition tr51_calc_nearest_prime_number :: "u16 \<Rightarrow> u16 option" where
  "tr51_calc_nearest_prime_number start_value =
     (if start_value < 2 then Some 0 else tr51_prime_loop start_value (start_value - 1))"

definition prime_number :: "nat \<Rightarrow> bool" where
  "prime_number p \<longleftrightarrow> 1 < p \<and> (\<forall>d. d dvd p \<longrightarrow> d = 1 \<or> d = p)"

text \<open>The outcome of the search from \<open>s\<close> on, with the numbers of 16 bits exhausted or not.\<close>

definition next_prime :: "nat \<Rightarrow> nat \<Rightarrow> bool" where
  "next_prime s r \<longleftrightarrow> (if r = 0 then \<forall>p. s \<le> p \<and> p < 65536 \<longrightarrow> \<not> prime_number p
     else prime_number r \<and> s \<le> r \<and> (\<forall>p. s \<le> p \<and> p < r \<longrightarrow> \<not> prime_number p))"

lemma next_prime_Suc:
  assumes "next_prime (Suc s) r" and "\<not> prime_number s"
  shows "next_prime s r"
proof -
  have "s \<le> p \<longleftrightarrow> p = s \<or> Suc s \<le> p" for p by auto
  then show ?thesis using assms by (auto simp: next_prime_def split: if_splits)
qed

lemma prime_if_no_divisor:
  assumes "3 \<le> s" and "\<forall>d. 2 \<le> d \<and> d < s \<longrightarrow> \<not> d dvd s"
  shows "prime_number s"
  unfolding prime_number_def
proof (intro conjI allI impI)
  fix d :: nat assume "d dvd s"
  moreover have "0 < s" using assms(1) by simp
  ultimately have "d \<le> s" "0 < d" by (auto intro: dvd_imp_le dvd_pos_nat)
  with assms(2) \<open>d dvd s\<close> show "d = 1 \<or> d = s" by (metis One_nat_def Suc_lessI le_neq_implies_less numeral_2_eq_2 not_less_eq_eq not_le)
qed (use assms(1) in simp)

lemma word_mod_dvd: "(s :: u16) mod d = 0 \<longleftrightarrow> unat d dvd unat s"
  by (simp add: dvd_eq_mod_eq_0 unat_mod_distrib flip: unat_eq_0)

lemma tr51_prime_loop_spec:
  assumes "3 \<le> unat s" and "2 \<le> unat d" and "unat d < unat s"
    and "\<forall>d'. unat d < d' \<and> d' < unat s \<longrightarrow> \<not> d' dvd unat s"
  shows "\<exists>r. tr51_prime_loop s d = Some r \<and> next_prime (unat s) (unat r)"
  using assms
proof (induction s d rule: tr51_prime_loop.induct)
  case (1 s d)
  have nz: "s \<noteq> 0" "d \<noteq> 0" using "1.prems"(1,2) by auto
  have dm: "unat (d - 1) = unat d - 1" using nz(2) by (rule unat_minus_one)
  show ?case
  proof (cases "s mod d = 0")
    case False
    then have nd: "\<not> unat d dvd unat s" by (simp add: word_mod_dvd)
    have rest: "\<forall>d'. unat d - 1 < d' \<and> d' < unat s \<longrightarrow> \<not> d' dvd unat s"
    proof (intro allI impI)
      fix d' assume d': "unat d - 1 < d' \<and> d' < unat s"
      then consider "d' = unat d" | "unat d < d'" by linarith
      then show "\<not> d' dvd unat s" using nd "1.prems"(4) d' by cases auto
    qed
    show ?thesis
    proof (cases "d - 1 = 1")
      case True
      then have "unat d = 2" using dm "1.prems"(2) by simp
      then have "prime_number (unat s)" using rest prime_if_no_divisor [OF "1.prems"(1)] by simp
      then show ?thesis using False nz True "1.prems"(1)
        by (subst tr51_prime_loop.simps) (auto simp: next_prime_def)
    next
      case no: False
      have "unat d \<noteq> 2" using no dm by (simp add: word_unat_eq_iff)
      then have "2 \<le> unat (d - 1)" "unat (d - 1) < unat s" using dm "1.prems"(2,3) by linarith+
      from "1.IH"(1) [OF nz False no "1.prems"(1) this] rest dm False nz no show ?thesis
        by (subst tr51_prime_loop.simps) simp
    qed
  next
    case True
    then have np: "\<not> prime_number (unat s)"
      using "1.prems"(2,3) by (auto simp: word_mod_dvd prime_number_def)
    have step: "tr51_prime_loop s d = tr51_prime_loop (s + 1) s"
      using nz True by (subst tr51_prime_loop.simps) simp
    show ?thesis
    proof (cases "s + 1 = 0")
      case wrap: True
      have loop: "tr51_prime_loop 0 s = Some 0" by (subst tr51_prime_loop.simps) simp
      have "s = - 1" using wrap by (simp add: eq_neg_iff_add_eq_0)
      then have "unat s = 65535" by (simp add: unsigned_minus_1_eq_mask mask_eq_exp_minus_1)
      then have "next_prime (unat s) 0"
        using np le_antisym by (fastforce simp: next_prime_def)
      with step wrap loop show ?thesis by simp
    next
      case nowrap: False
      then have s1: "unat (s + 1) = Suc (unat s)" by (metis unatSuc add.commute)
      have c: "3 \<le> unat (s + 1)" "2 \<le> unat (s + 1 - 1)" "unat (s + 1 - 1) < unat (s + 1)"
        "\<forall>d'. unat (s + 1 - 1) < d' \<and> d' < unat (s + 1) \<longrightarrow> \<not> d' dvd unat (s + 1)"
        using s1 "1.prems"(1) by auto
      have "\<not> s mod d \<noteq> 0" using True by simp
      from "1.IH"(2) [OF nz this c] step s1 np next_prime_Suc show ?thesis by auto
    qed
  qed
qed

section \<open>The random numbers\<close>

definition tr51_seed_rand :: "u32 \<Rightarrow> u32" where
  "tr51_seed_rand seed = (if seed = 0 then 1 else seed)"

text \<open>The number drawn is the new value of \<open>global_seed\<close>, read as \<open>int32_t\<close>.\<close>

definition tr51_get_rand :: "u32 \<Rightarrow> int \<times> u32" where
  "tr51_get_rand global_seed =
     (let random_val = (global_seed * 1103515245 + 12345) AND 0x7fffffff in (sint random_val, random_val))"

text \<open>The congruential sequence without bounds; modulo \<open>2 ^ 31\<close> it is the sequence of the code.\<close>

definition lcg :: "nat \<Rightarrow> nat" where
  "lcg x = 1103515245 * x + 12345"

fun power_sum :: "nat \<Rightarrow> nat" where
  "power_sum 0 = 0"
| "power_sum (Suc n) = 1103515245 * power_sum n + 1"

lemma lcg_iterate: "(lcg ^^ n) x = 1103515245 ^ n * x + 12345 * power_sum n"
  by (induction n) (simp_all add: lcg_def algebra_simps)

lemma power_sum_double: "power_sum (n + m) = 1103515245 ^ m * power_sum n + power_sum m"
  by (induction m) (simp_all add: algebra_simps)

text \<open>
  The multiplier is 1 modulo 4, so that its power \<open>2 ^ k\<close> is 1 modulo \<open>2 ^ (k + 2)\<close> and the sum of
  the powers below is an odd multiple of \<open>2 ^ k\<close>.
\<close>

lemma multiplier_power: "\<exists>q. 1103515245 ^ (2 ^ k) = (2 :: nat) ^ (k + 2) * q + 1"
proof (induction k)
  case 0
  show ?case by (rule exI [of _ 275878811]) simp
next
  case (Suc k)
  then obtain q where q: "1103515245 ^ (2 ^ k) = (2 :: nat) ^ (k + 2) * q + 1" by blast
  have "(1103515245 :: nat) ^ (2 ^ Suc k) = 1103515245 ^ (2 ^ k) * 1103515245 ^ (2 ^ k)"
    by (simp only: power_Suc mult_2 power_add)
  also have "\<dots> = (2 ^ (k + 2) * q + 1) * (2 ^ (k + 2) * q + 1)" unfolding q ..
  also have "\<dots> = 2 ^ (Suc k + 2) * (2 ^ (k + 1) * q * q + q) + 1"
    by (simp add: algebra_simps power_add)
  finally show ?case by blast
qed

lemma power_sum_odd: "\<exists>q. odd q \<and> power_sum (2 ^ k) = 2 ^ k * q"
proof (induction k)
  case 0
  show ?case by (rule exI [of _ 1]) simp
next
  case (Suc k)
  then obtain q where q: "odd q" "power_sum (2 ^ k) = 2 ^ k * q" by blast
  obtain r where r: "1103515245 ^ (2 ^ k) = (2 :: nat) ^ (k + 2) * r + 1" using multiplier_power by blast
  have "power_sum (2 ^ Suc k) = (2 ^ (k + 2) * r + 1) * (2 ^ k * q) + 2 ^ k * q"
    using power_sum_double [of "2 ^ k" "2 ^ k"] by (simp only: r q(2) power_Suc mult_2)
  also have "\<dots> = 2 ^ Suc k * (q * (2 ^ (k + 1) * r + 1))" by (simp add: algebra_simps power_add)
  finally show ?case using q(1) by (intro exI [of _ "q * (2 ^ (k + 1) * r + 1)"]) simp
qed

lemma lcg_power_step: "(lcg ^^ (2 ^ k)) x mod 2 ^ Suc k = (x + 2 ^ k) mod 2 ^ Suc k"
proof -
  obtain q where q: "odd q" "power_sum (2 ^ k) = 2 ^ k * q" using power_sum_odd by blast
  obtain r where r: "1103515245 ^ (2 ^ k) = (2 :: nat) ^ (k + 2) * r + 1" using multiplier_power by blast
  from q(1) have "odd (12345 * q)" by simp
  then obtain h where h: "12345 * q = 2 * h + 1" by (rule oddE)
  have "(lcg ^^ (2 ^ k)) x = (2 ^ (k + 2) * r + 1) * x + 12345 * (2 ^ k * q)"
    unfolding lcg_iterate r q(2) ..
  also have "\<dots> = (2 ^ (k + 2) * r + 1) * x + 2 ^ k * (12345 * q)" by (simp only: ac_simps)
  also have "\<dots> = (2 ^ (k + 2) * r + 1) * x + 2 ^ k * (2 * h + 1)" by (simp only: h)
  also have "\<dots> = x + 2 ^ k + 2 ^ Suc k * (2 * r * x + h)" by (simp add: algebra_simps power_add)
  finally show ?thesis by simp
qed

lemma lcg_reaches: "\<exists>n. (lcg ^^ n) x mod 2 ^ k = y mod 2 ^ k"
proof (induction k)
  case (Suc k)
  then obtain n where n: "(lcg ^^ n) x mod 2 ^ k = y mod 2 ^ k" by blast
  let ?z = "(lcg ^^ n) x"
  have halves: "?z mod 2 ^ Suc k = y mod 2 ^ Suc k \<or> (?z + 2 ^ k) mod 2 ^ Suc k = y mod 2 ^ Suc k"
  proof -
    have m: "w mod 2 ^ Suc k = 2 ^ k * ((w div 2 ^ k) mod 2) + w mod 2 ^ k" for w :: nat
      using mod_mult2_eq [of w "2 ^ k" 2] by (simp add: mult.commute)
    have "(?z + 2 ^ k) div 2 ^ k = Suc (?z div 2 ^ k)" "(?z + 2 ^ k) mod 2 ^ k = ?z mod 2 ^ k" by simp_all
    then show ?thesis unfolding m n using mod_Suc [of "?z div 2 ^ k" 2] by (auto simp: mod2_eq_if)
  qed
  then show ?case
  proof
    assume "(?z + 2 ^ k) mod 2 ^ Suc k = y mod 2 ^ Suc k"
    then have "(lcg ^^ (2 ^ k + n)) x mod 2 ^ Suc k = y mod 2 ^ Suc k"
      using lcg_power_step [of k ?z] by (simp add: funpow_add)
    then show ?thesis by blast
  qed blast
qed simp

lemma sint_small:
  assumes "unat (w :: 'a::len word) < 2 ^ (LENGTH('a) - 1)"
  shows "sint w = int (unat w)"
proof -
  have "int (unat w) < int (2 ^ (LENGTH('a) - 1))" using assms by (simp only: of_nat_less_iff)
  then have "uint w < 2 ^ (LENGTH('a) - 1)" by simp
  moreover have "- (2 ^ (LENGTH('a) - 1)) \<le> uint w" by (rule order_trans [of _ 0]) simp_all
  ultimately show ?thesis by (simp add: sint_uint signed_take_bit_int_eq_self)
qed

lemma tr51_get_rand_lcg:
  "fst (tr51_get_rand s) = int (lcg (unat s) mod 2 ^ 31)"
  "unat (snd (tr51_get_rand s)) = lcg (unat s) mod 2 ^ 31"
proof -
  have m: "w AND 0x7fffffff = take_bit 31 (w :: u32)" for w
    by (simp add: take_bit_eq_mask mask_eq_exp_minus_1)
  have r: "snd (tr51_get_rand s) = take_bit 31 (s * 1103515245 + 12345)"
    by (simp only: tr51_get_rand_def Let_def snd_conv m)
  have "unat (s * 1103515245 + 12345) = lcg (unat s) mod 2 ^ 32"
    by (simp add: unat_word_ariths lcg_def mod_simps mult.commute)
  then show u: "unat (snd (tr51_get_rand s)) = lcg (unat s) mod 2 ^ 31"
    unfolding r unsigned_take_bit_eq by (simp add: take_bit_eq_mod mod_mod_cancel)
  have "fst (tr51_get_rand s) = sint (snd (tr51_get_rand s))" by (simp add: tr51_get_rand_def Let_def)
  also have "\<dots> = int (unat (snd (tr51_get_rand s)))" by (rule sint_small) (simp add: u)
  finally show "fst (tr51_get_rand s) = int (lcg (unat s) mod 2 ^ 31)" by (simp only: u)
qed

text \<open>Every number below \<open>2 ^ 31\<close> is drawn sooner or later.\<close>

definition tr51_next :: "u32 \<Rightarrow> u32" where
  "tr51_next s = snd (tr51_get_rand s)"

lemma unat_tr51_next: "unat (tr51_next s) = lcg (unat s) mod 2 ^ 31"
  unfolding tr51_next_def by (rule tr51_get_rand_lcg)

lemma tr51_next_rand: "fst (tr51_get_rand s) = int (unat (tr51_next s))"
  unfolding unat_tr51_next by (rule tr51_get_rand_lcg)

lemma lcg_mod: "lcg (x mod m) mod m = lcg x mod m"
  unfolding lcg_def by (metis mod_add_left_eq mod_mult_right_eq)

lemma tr51_next_iterate: "unat ((tr51_next ^^ Suc n) s) = (lcg ^^ Suc n) (unat s) mod 2 ^ 31"
proof (induction n)
  case (Suc n)
  let ?x = "(lcg ^^ Suc n) (unat s)"
  have "unat ((tr51_next ^^ Suc (Suc n)) s) = lcg (unat ((tr51_next ^^ Suc n) s)) mod 2 ^ 31"
    unfolding funpow.simps(2) [of "Suc n"] o_apply by (rule unat_tr51_next)
  also have "\<dots> = lcg ?x mod 2 ^ 31" unfolding Suc by (rule lcg_mod)
  finally show ?case by simp
qed (use unat_tr51_next [of s] in simp)

lemma tr51_next_reaches:
  assumes "v < 2 ^ 31"
  shows "\<exists>n. unat ((tr51_next ^^ Suc n) s) = v"
proof -
  obtain n where "(lcg ^^ n) (lcg (unat s)) mod 2 ^ 31 = v mod 2 ^ 31" using lcg_reaches by blast
  moreover have "unat ((tr51_next ^^ Suc n) s) = (lcg ^^ n) (lcg (unat s)) mod 2 ^ 31"
    by (rule trans [OF tr51_next_iterate]) (simp only: funpow_Suc_right o_apply)
  ultimately have "unat ((tr51_next ^^ Suc n) s) = v" using assms by simp
  then show ?thesis by blast
qed

section \<open>The channel table\<close>

text \<open>
  \<open>channel_table\<close> is an array of \<open>int16_t\<close>, its elements read by \<open>sint\<close>. The inner loop draws until the
  channel is none of the elements up to \<open>i\<close>.
\<close>

partial_function (option) tr51_draw ::
    "u16 \<Rightarrow> u16 list \<Rightarrow> nat \<Rightarrow> int \<Rightarrow> nat \<Rightarrow> u32 \<Rightarrow> (int \<times> u32) option" where
  "tr51_draw n table i j k seed =
     (if k \<le> i
      then if k \<ge> length table then None
           else if j = sint (table ! k)
           then tr51_draw n table i (fst (tr51_get_rand seed) mod int (unat n)) 0 (snd (tr51_get_rand seed))
           else tr51_draw n table i j (Suc k) seed
      else Some (j, seed))"

declare tr51_draw.simps [code]

definition tr51_table_step :: "u16 \<Rightarrow> nat \<Rightarrow> u16 list \<times> u32 \<Rightarrow> (u16 list \<times> u32) option" where
  "tr51_table_step n i ts =
     (case ts of (table, seed) \<Rightarrow>
        (case tr51_draw n table i (fst (tr51_get_rand seed) mod int (unat n)) 0 (snd (tr51_get_rand seed)) of
           None \<Rightarrow> None
         | Some (j, seed) \<Rightarrow> if i < length table then Some (table[i := word_of_int j], seed) else None))"

text \<open>Drawing a number is \<open>rand % number_of_channels\<close>; the loops are not entered for no channels.\<close>

definition tr51_calculate_channel_table :: "u16 \<Rightarrow> u16 \<Rightarrow> u16 list \<Rightarrow> (u16 list \<times> u32) option" where
  "tr51_calculate_channel_table n nearest_prime table =
     (if unat nearest_prime > length table then None
      else let table = fold (\<lambda>i table. table[i := - 1]) [0..<unat nearest_prime] table
           in fold_opt (tr51_table_step n) [0..<unat n] (table, tr51_seed_rand 1))"

text \<open>The number of channels is an \<open>int16_t\<close>, converted to \<open>uint16_t\<close> by the calls.\<close>

definition tr51_init_channel_table :: "u16 list \<Rightarrow> u16 \<Rightarrow> (u16 list \<times> u32) option" where
  "tr51_init_channel_table table n =
     (case tr51_calc_nearest_prime_number n of
        None \<Rightarrow> None
      | Some nearest_prime \<Rightarrow> tr51_calculate_channel_table n nearest_prime table)"

subsection \<open>The table is an order of the channels\<close>

definition table_used :: "u16 list \<Rightarrow> nat \<Rightarrow> int set" where
  "table_used table i = (\<lambda>k. sint (table ! k)) ` {0..i}"

lemma tr51_draw_fresh:
  assumes "i < length table" and "\<forall>k'. k \<le> k' \<and> k' \<le> i \<longrightarrow> j \<noteq> sint (table ! k')"
  shows "tr51_draw n table i j k seed = Some (j, seed)"
  using assms(2)
proof (induction "Suc i - k" arbitrary: k)
  case 0
  then show ?case by (subst tr51_draw.simps) simp
next
  case (Suc d)
  then have "k \<le> i" "d = Suc i - Suc k" by simp_all
  with Suc assms(1) show ?case by (subst tr51_draw.simps) auto
qed

lemma tr51_draw_again:
  assumes "i < length table" and "k \<le> k'" and "k' \<le> i" and "j = sint (table ! k')"
  shows "tr51_draw n table i j k seed =
    tr51_draw n table i (fst (tr51_get_rand seed) mod int (unat n)) 0 (snd (tr51_get_rand seed))"
  using assms(2)
proof (induction "k' - k" arbitrary: k)
  case 0
  then have "k = k'" by simp
  with assms show ?case by (subst tr51_draw.simps) simp
next
  case (Suc d)
  then have k: "k < k'" "k \<le> i" "k < length table" "d = k' - Suc k" using assms(1,3) by simp_all
  show ?case
  proof (cases "j = sint (table ! k)")
    case True
    with k show ?thesis by (subst tr51_draw.simps) simp
  next
    case False
    with k Suc.hyps(1) [of "Suc k"] show ?thesis by (subst tr51_draw.simps) simp
  qed
qed

lemma tr51_draw_ends:
  assumes "i < length table" and "0 < unat n"
    and "int (unat ((tr51_next ^^ m) seed)) mod int (unat n) \<notin> table_used table i"
    and "unat seed < 2 ^ 31"
  shows "\<exists>j seed'. tr51_draw n table i (int (unat seed) mod int (unat n)) 0 seed = Some (j, seed') \<and>
    0 \<le> j \<and> j < int (unat n) \<and> j \<notin> table_used table i \<and> unat seed' < 2 ^ 31"
proof -
  have "0 < int (unat n)" using assms(2) by (simp only: of_nat_0_less_iff)
  then have range: "0 \<le> x mod int (unat n)" "x mod int (unat n) < int (unat n)" for x
    by (rule pos_mod_sign, rule pos_mod_bound)
  show ?thesis
    using assms(3,4)
proof (induction m arbitrary: seed)
  case 0
  let ?j = "int (unat seed) mod int (unat n)"
  have "?j \<notin> table_used table i" using 0(1) by simp
  then have "tr51_draw n table i ?j 0 seed = Some (?j, seed)"
    by (intro tr51_draw_fresh [OF assms(1)]) (auto simp: table_used_def)
  then show ?case using range 0 by simp
next
  case (Suc m)
  let ?j = "int (unat seed) mod int (unat n)"
  let ?s = "tr51_next seed"
  show ?case
  proof (cases "?j \<in> table_used table i")
    case False
    then have "tr51_draw n table i ?j 0 seed = Some (?j, seed)"
      by (intro tr51_draw_fresh [OF assms(1)]) (auto simp: table_used_def)
    then show ?thesis using range Suc.prems(2) False by simp
  next
    case True
    then obtain k where k: "k \<le> i" "?j = sint (table ! k)" by (auto simp: table_used_def)
    have s: "unat ?s < 2 ^ 31" by (simp add: unat_tr51_next)
    have again: "tr51_draw n table i ?j 0 seed = tr51_draw n table i (int (unat ?s) mod int (unat n)) 0 ?s"
      using tr51_draw_again [OF assms(1) le0 k, of n seed] unfolding tr51_next_rand tr51_next_def .
    have "int (unat ((tr51_next ^^ m) ?s)) mod int (unat n) \<notin> table_used table i"
      using Suc.prems(1) unfolding funpow_Suc_right o_apply .
    from Suc.IH [OF this s] show ?thesis unfolding again .
  qed
  qed
qed

definition table_filled :: "nat \<Rightarrow> nat \<Rightarrow> nat \<Rightarrow> u16 list \<Rightarrow> bool" where
  "table_filled n p i table \<longleftrightarrow> length table = p \<and> inj_on (\<lambda>k. sint (table ! k)) {..<i} \<and>
     (\<forall>k < i. 0 \<le> sint (table ! k) \<and> sint (table ! k) < int n) \<and> (\<forall>k. i \<le> k \<and> k < p \<longrightarrow> table ! k = - 1)"

lemma table_unused:
  assumes "table_filled n p i table" and "i < n" and "n \<le> p"
  obtains v where "v < n" and "int v \<notin> table_used table i"
proof -
  have "card ((\<lambda>k. sint (table ! k)) ` {..<i}) \<le> i" using card_image_le [of "{..<i}"] by simp
  moreover have "card (int ` {..<n}) = n" by (simp add: card_image)
  ultimately have "\<not> int ` {..<n} \<subseteq> (\<lambda>k. sint (table ! k)) ` {..<i}"
    using card_mono [of "(\<lambda>k. sint (table ! k)) ` {..<i}" "int ` {..<n}"] assms(2) by fastforce
  then obtain v where v: "v < n" "int v \<notin> (\<lambda>k. sint (table ! k)) ` {..<i}" by auto
  have "sint (table ! i) = - 1" using assms by (simp add: table_filled_def)
  moreover have "{0..i} = insert i {..<i}" by auto
  ultimately have "int v \<notin> table_used table i" using v(2) by (simp add: table_used_def)
  with v(1) that show ?thesis by blast
qed

lemma tr51_table_step_filled:
  assumes "table_filled (unat n) p i table" and "i < unat n" and "unat n \<le> p" and "unat n < 32768"
  shows "\<exists>table' seed'. tr51_table_step n i (table, seed) = Some (table', seed') \<and> table_filled (unat n) p (Suc i) table'"
proof -
  have i: "i < length table" using assms by (simp add: table_filled_def)
  from table_unused [OF assms(1-3)] obtain v where v: "v < unat n" "int v \<notin> table_used table i" by blast
  then have "v < 2 ^ 31" using assms(4) by simp
  from tr51_next_reaches [OF this] obtain m where "unat ((tr51_next ^^ Suc m) seed) = v" by blast
  then have m: "unat ((tr51_next ^^ m) (tr51_next seed)) = v" unfolding funpow_Suc_right o_apply .
  have hit: "int (unat ((tr51_next ^^ m) (tr51_next seed))) mod int (unat n) \<notin> table_used table i"
    unfolding m by (simp only: mod_less [OF v(1)] v(2) simp_thms flip: zmod_int)
  have "0 < unat n" "unat (tr51_next seed) < 2 ^ 31" using v(1) by (simp_all add: unat_tr51_next)
  from tr51_draw_ends [OF i this(1) hit this(2)] obtain j seed' where
    j: "tr51_draw n table i (fst (tr51_get_rand seed) mod int (unat n)) 0 (snd (tr51_get_rand seed)) = Some (j, seed')"
      "0 \<le> j" "j < int (unat n)" "j \<notin> table_used table i"
    unfolding tr51_next_rand tr51_next_def by blast
  let ?t = "table[i := word_of_int j]"
  have "(word_of_int j :: u16) = word_of_nat (nat j)" using j(2) by simp
  moreover have "nat j < 65536" using j(2,3) assms(4) by linarith
  ultimately have "unat (word_of_int j :: u16) = nat j" by (simp add: unat_of_nat)
  moreover have "nat j < 32768" using j(2,3) assms(4) by linarith
  ultimately have sj: "sint (word_of_int j :: u16) = j" using j(2) sint_small [of "word_of_int j :: u16"] by simp
  have "{..<Suc i} = insert i {..<i}" by auto
  moreover have old: "sint (?t ! k) = sint (table ! k)" if "k < i" for k using that by simp
  moreover have "j \<notin> (\<lambda>k. sint (table ! k)) ` {..<i}" using j(4) by (auto simp: table_used_def)
  ultimately have "inj_on (\<lambda>k. sint (?t ! k)) {..<Suc i}"
    using assms(1) i by (auto simp: table_filled_def inj_on_def sj)
  then have "table_filled (unat n) p (Suc i) ?t"
    using assms(1) i j(2,3) by (auto simp: table_filled_def nth_list_update sj less_Suc_eq)
  then show ?thesis using j(1) i by (simp add: tr51_table_step_def)
qed

lemma tr51_channel_table_filled:
  assumes "unat n \<le> unat p" and "unat n < 32768" and "length table = unat p"
  shows "\<exists>table' seed. tr51_calculate_channel_table n p table = Some (table', seed) \<and>
    table_filled (unat n) (unat p) (unat n) table'"
proof -
  let ?clear = "\<lambda>k. fold (\<lambda>i table. table[i := - 1]) [0..<k] table"
  have clear: "length (?clear k) = length table \<and> (\<forall>i < length table. ?clear k ! i = (if i < k then - 1 else table ! i))" for k
    by (induction k) (auto simp: nth_list_update less_Suc_eq)
  have "\<exists>table' seed. fold_opt (tr51_table_step n) [0..<k] (?clear (unat p), tr51_seed_rand 1) = Some (table', seed) \<and>
      table_filled (unat n) (unat p) k table'" if "k \<le> unat n" for k
    using that
  proof (induction k)
    case 0
    then show ?case using clear [of "unat p"] assms(3) by (simp add: table_filled_def)
  next
    case (Suc k)
    then obtain table' seed where t:
      "fold_opt (tr51_table_step n) [0..<k] (?clear (unat p), tr51_seed_rand 1) = Some (table', seed)"
      "table_filled (unat n) (unat p) k table'" by auto
    moreover obtain table'' seed'' where "tr51_table_step n k (table', seed) = Some (table'', seed'')"
        "table_filled (unat n) (unat p) (Suc k) table''"
      using tr51_table_step_filled [OF t(2) _ assms(1,2), of seed] Suc.prems by auto
    ultimately show ?case by (simp add: fold_opt_append)
  qed
  from this [of "unat n"] show ?thesis
    using assms(3) by (simp add: tr51_calculate_channel_table_def Let_def)
qed

section \<open>The prime exists and the table is complete\<close>

lemma prime_by_small_divisors:
  assumes "1 < n" and "n < 65536" and "\<forall>d \<in> set [2..255]. int n mod d \<noteq> 0"
  shows "prime_number n"
  unfolding prime_number_def
proof (intro conjI allI impI)
  fix d assume "d dvd n"
  then obtain e where e: "n = d * e" by (rule dvdE)
  have small: "\<not> f dvd n" if "2 \<le> f" "f \<le> 255" for f :: nat
  proof
    assume "f dvd n"
    then have "int n mod int f = 0" by simp
    moreover have "int f \<in> set [2..255]" using that by (simp only: set_upto) simp
    ultimately show False using bspec [OF assms(3), of "int f"] by (simp only: simp_thms)
  qed
  have "d \<noteq> 0" using e assms(1) by (intro notI) simp
  have "e \<noteq> 0" using e assms(1) by (intro notI) simp
  have "\<not> (256 \<le> d \<and> 256 \<le> e)" using e assms(2) mult_le_mono [of 256 d 256 e] by auto
  moreover have "\<not> 2 \<le> d \<or> 256 \<le> d" using small [of d] \<open>d dvd n\<close> by linarith
  moreover have "\<not> 2 \<le> e \<or> 256 \<le> e" using small [of e] e by (cases "256 \<le> e") auto
  ultimately have "d = 1 \<or> e = 1" using \<open>d \<noteq> 0\<close> \<open>e \<noteq> 0\<close> by linarith
  with e show "d = 1 \<or> d = n" by auto
qed (rule assms(1))

lemma prime_65521: "prime_number 65521"
proof (rule prime_by_small_divisors)
  show "\<forall>d \<in> set [2..255]. int 65521 mod d \<noteq> 0" unfolding of_nat_numeral by code_simp
qed simp_all

lemma tr51_nearest_prime_ok:
  assumes "3 \<le> unat n" and "unat n \<le> 65521"
  shows "\<exists>p. tr51_calc_nearest_prime_number n = Some p \<and> prime_number (unat p) \<and> unat n \<le> unat p \<and>
    (\<forall>q. unat n \<le> q \<and> q < unat p \<longrightarrow> \<not> prime_number q)"
proof -
  have "n \<noteq> 0" using assms(1) by auto
  then have m: "unat (n - 1) = unat n - 1" by (rule unat_minus_one)
  have d: "2 \<le> unat (n - 1)" "unat (n - 1) < unat n" "\<forall>d'. unat (n - 1) < d' \<and> d' < unat n \<longrightarrow> \<not> d' dvd unat n"
    using assms(1) m by auto
  from tr51_prime_loop_spec [OF assms(1) d] obtain p where
    p: "tr51_prime_loop n (n - 1) = Some p" "next_prime (unat n) (unat p)" by blast
  have "unat p \<noteq> 0"
  proof
    assume "unat p = 0"
    with p(2) have "\<forall>q. unat n \<le> q \<and> q < 65536 \<longrightarrow> \<not> prime_number q" unfolding next_prime_def by simp
    from this [rule_format, of 65521] prime_65521 assms(2) show False by simp
  qed
  moreover have "\<not> n < 2" using assms(1) by (simp add: word_less_nat_alt)
  ultimately show ?thesis using p by (simp add: tr51_calc_nearest_prime_number_def next_prime_def)
qed

text \<open>For two channels the search leaves out 2 and returns 3.\<close>

lemma tr51_nearest_prime_two: "tr51_calc_nearest_prime_number 2 = Some 3"
  unfolding tr51_calc_nearest_prime_number_def
  by (subst tr51_prime_loop.simps, simp, subst tr51_prime_loop.simps, simp add: word_unat_eq_iff unat_mod_distrib)

lemma tr51_nearest_prime_ge:
  assumes "2 \<le> unat n" and "unat n \<le> 65521" and "tr51_calc_nearest_prime_number n = Some p"
  shows "unat n \<le> unat p" and "3 \<le> unat p" and "prime_number (unat p)"
proof -
  have "\<not> d dvd 3" if "2 \<le> d" "d < 3" for d :: nat
  proof -
    from that have "d = 2" by simp
    then show ?thesis by simp
  qed
  then have "prime_number 3" by (intro prime_if_no_divisor) auto
  moreover have "n = 2 \<or> 3 \<le> unat n" using assms(1) by (auto simp: word_unat_eq_iff)
  ultimately have "unat n \<le> unat p \<and> 3 \<le> unat p \<and> prime_number (unat p)"
    using assms(2,3) tr51_nearest_prime_two tr51_nearest_prime_ok [of n] by (elim disjE) auto
  then show "unat n \<le> unat p" "3 \<le> unat p" "prime_number (unat p)" by simp_all
qed

text \<open>
  The search for the nearest prime returns, without dividing by zero, the least prime that is
  not below its argument, for every argument from 3 to the greatest prime of 16 bits.
\<close>

lemma tr51_nearest_prime:
  assumes "3 \<le> unat n" and "unat n \<le> 65521"
  shows "\<exists>p. tr51_calc_nearest_prime_number n = Some p \<and> prime_number (unat p) \<and> unat n \<le> unat p \<and>
    (\<forall>q. unat n \<le> q \<and> q < unat p \<longrightarrow> \<not> prime_number q)"
  by (rule tr51_nearest_prime_ok [OF assms])



end
