(* ===== verification/Hopping.thy ===== *)
theory Hopping
  imports Tr51
begin

text \<open>
  The channel functions of \<open>Service_Libs/fhss/channel_functions.c\<close>, second part: the TR51 hopping
  sequence, which walks through the channel table with a step that depends on the address, and the
  direct hash function. \<open>None\<close> is a division by zero or an access outside an array; reading big-endian
  numbers (\<open>common_read_32_bit\<close>) is a parameter.
\<close>

section \<open>The TR51 hopping sequence\<close>

definition tr51_compute_cfd :: "bytes \<Rightarrow> u16 \<Rightarrow> (u8 \<times> u8) option" where
  "tr51_compute_cfd mac channel_table_length =
     (if length mac < 8 \<or> channel_table_length = 0 \<or> channel_table_length = 1 then None
      else Some (ucast (ucast (mac ! 5 XOR mac ! 6 XOR mac ! 7) mod channel_table_length),
                 ucast (ucast (mac ! 7) mod (channel_table_length - 1) + 1)))"

text \<open>\<open>excluded_channels\<close> is a mask of eight words or \<open>NULL\<close>.\<close>

definition tr51_find_excluded :: "int \<Rightarrow> u32 list option \<Rightarrow> bool option" where
  "tr51_find_excluded channel excluded_channels =
     (case excluded_channels of
        None \<Rightarrow> Some False
      | Some ex \<Rightarrow>
          let index = unat (word_of_int (channel div 32) :: u8); channel = nat (channel mod 32)
          in if index \<ge> length ex then None else Some (ex ! index AND push_bit channel 1 \<noteq> 0))"

primrec tr51_hop_loop ::
    "nat \<Rightarrow> u16 list \<Rightarrow> u16 \<Rightarrow> u8 \<Rightarrow> u32 list option \<Rightarrow> u8 \<Rightarrow> u8 \<Rightarrow> bytes \<Rightarrow> (u8 \<times> bytes) option" where
  "tr51_hop_loop 0 table table_length step ex index slot out = Some (slot, out)"
| "tr51_hop_loop (Suc cntr) table table_length step ex index slot out =
     (if unat index \<ge> length table then None
      else let index' = ucast (ucast (index + step) mod table_length)
           in if sint (table ! unat index) = - 1 then tr51_hop_loop cntr table table_length step ex index' slot out
              else case tr51_find_excluded (sint (table ! unat index)) ex of
                     None \<Rightarrow> None
                   | Some True \<Rightarrow> tr51_hop_loop cntr table table_length step ex index' slot out
                   | Some False \<Rightarrow>
                       if unat slot \<ge> length out then None
                       else tr51_hop_loop cntr table table_length step ex index' (slot + 1)
                              (out[unat slot := ucast (table ! unat index)]))"

definition tr51_calculate_hopping_sequence ::
    "u16 list \<Rightarrow> u16 \<Rightarrow> u8 \<Rightarrow> u8 \<Rightarrow> bytes \<Rightarrow> u32 list option \<Rightarrow> (u16 \<times> bytes) option" where
  "tr51_calculate_hopping_sequence table table_length first_element step_size out ex =
     (if table_length = 0 then Some (0, out)
      else map_option (\<lambda>(slot, out). (ucast slot, out))
             (tr51_hop_loop (unat table_length) table table_length step_size ex first_element 0 out))"

text \<open>The result is the channel index and the output table, which is kept for later calls.\<close>

definition tr51_channel_index ::
    "u16 list \<Rightarrow> bytes \<Rightarrow> u16 \<Rightarrow> bytes \<Rightarrow> u16 \<Rightarrow> u32 list option \<Rightarrow> (int \<times> bytes) option" where
  "tr51_channel_index table out slot_number mac n ex =
     (case tr51_calc_nearest_prime_number n of
        None \<Rightarrow> None
      | Some nearest_prime \<Rightarrow>
          (case tr51_compute_cfd mac nearest_prime of
             None \<Rightarrow> None
           | Some (first_element, step_size) \<Rightarrow>
               (case tr51_calculate_hopping_sequence table nearest_prime first_element step_size out ex of
                  None \<Rightarrow> None
                | Some (_, out) \<Rightarrow>
                    if unat slot_number \<ge> length out then None
                    else Some (int (unat (out ! unat slot_number)), out))))"

definition tr51_get_uc_channel_index ::
    "u16 list \<Rightarrow> bytes \<Rightarrow> u16 \<Rightarrow> bytes \<Rightarrow> u16 \<Rightarrow> u32 list option \<Rightarrow> (int \<times> bytes) option" where
  "tr51_get_uc_channel_index table out slot_number mac n ex = tr51_channel_index table out slot_number mac n ex"

definition tr51_get_bc_channel_index ::
    "u16 list \<Rightarrow> bytes \<Rightarrow> u16 \<Rightarrow> u16 \<Rightarrow> u16 \<Rightarrow> u32 list option \<Rightarrow> (int \<times> bytes) option" where
  "tr51_get_bc_channel_index table out slot_number bsi n ex =
     tr51_channel_index table out slot_number [0, 0, 0, 0, 0, 0, ucast (drop_bit 8 bsi), ucast bsi] n ex"

section \<open>The direct hash function\<close>

definition rot :: "u32 \<Rightarrow> nat \<Rightarrow> u32" where
  "rot x k = push_bit k x OR drop_bit (32 - k) x"

definition dh1cf_final :: "u32 \<Rightarrow> u32 \<Rightarrow> u32 \<Rightarrow> u32 \<times> u32 \<times> u32" where
  "dh1cf_final a b c =
     (let c = c XOR b; c = c - rot b 14;
          a = a XOR c; a = a - rot c 11;
          b = b XOR a; b = b - rot a 25;
          c = c XOR b; c = c - rot b 16;
          a = a XOR c; a = a - rot c 4;
          b = b XOR a; b = b - rot a 14;
          c = c XOR b; c = c - rot b 24
      in (a, b, c))"

definition dh1cf_mix :: "u32 \<Rightarrow> u32 \<Rightarrow> u32 \<Rightarrow> u32 \<times> u32 \<times> u32" where
  "dh1cf_mix a b c =
     (let a = a - c; a = a XOR rot c 4; c = c + b;
          b = b - a; b = b XOR rot a 6; a = a + c;
          c = c - b; c = c XOR rot b 8; b = b + a;
          a = a - c; a = a XOR rot c 16; c = c + b;
          b = b - a; b = b XOR rot a 19; a = a + c;
          c = c - b; c = c XOR rot b 4; b = b + a
      in (a, b, c))"

fun dh1cf_hash_loop :: "u32 list \<Rightarrow> u32 \<times> u32 \<times> u32 \<Rightarrow> u32" where
  "dh1cf_hash_loop (k0 # k1 # k2 # k3 # key) (a, b, c) =
     dh1cf_hash_loop (k3 # key) (dh1cf_mix (a + k0) (b + k1) (c + k2))"
| "dh1cf_hash_loop [k0, k1, k2] (a, b, c) = snd (snd (dh1cf_final (a + k0) (b + k1) (c + k2)))"
| "dh1cf_hash_loop [k0, k1] (a, b, c) = snd (snd (dh1cf_final (a + k0) (b + k1) c))"
| "dh1cf_hash_loop [k0] (a, b, c) = snd (snd (dh1cf_final (a + k0) b c))"
| "dh1cf_hash_loop [] (a, b, c) = c"

definition dh1cf_hashword :: "u32 list \<Rightarrow> u32 \<Rightarrow> u32" where
  "dh1cf_hashword key init_value =
     (let s = 0xdeadbeef + push_bit 2 (word_of_nat (length key)) + init_value in dh1cf_hash_loop key (s, s, s))"

text \<open>The number of channels is an \<open>int16_t\<close>, converted to the 32 bits of the hash value.\<close>

definition dh1cf_get_uc_channel_index ::
    "(u8 \<Rightarrow> u8 \<Rightarrow> u8 \<Rightarrow> u8 \<Rightarrow> u32) \<Rightarrow> u16 \<Rightarrow> bytes \<Rightarrow> u16 \<Rightarrow> int option" where
  "dh1cf_get_uc_channel_index read32 slot_number mac n =
     (if n = 0 \<or> length mac < 8 then None
      else Some (sint (dh1cf_hashword [ucast slot_number, read32 (mac ! 4) (mac ! 5) (mac ! 6) (mac ! 7),
                         read32 (mac ! 0) (mac ! 1) (mac ! 2) (mac ! 3)] 0 mod scast n)))"

definition dh1cf_get_bc_channel_index :: "u16 \<Rightarrow> u16 \<Rightarrow> u16 \<Rightarrow> int option" where
  "dh1cf_get_bc_channel_index slot_number bsi n =
     (if n = 0 then None
      else Some (sint (dh1cf_hashword [ucast slot_number, push_bit 16 (ucast bsi), 0] 0 mod scast n)))"

lemma unat_u16_u32: "unat (ucast (x :: u16) :: u32) = unat x"
  using unat_u16_lt [of x] by (simp add: unsigned_ucast_eq take_bit_nat_eq_self)

lemma unat_u8_u16: "unat (ucast (x :: u8) :: u16) = unat x"
  using unat_u8_lt [of x] by (simp add: unsigned_ucast_eq take_bit_nat_eq_self)

lemma dh1cf_mod_range:
  assumes "n \<noteq> 0" and "unat n < 32768"
  shows "0 \<le> sint (h mod scast (n :: u16) :: u32) \<and> sint (h mod scast n :: u32) < int (unat n)"
proof -
  have "sint n = uint n" using sint_small [of n] assms(2) by simp
  then have e: "(scast n :: u32) = ucast n" by (simp only: scast_eq ucast_eq)
  have "unat (ucast n :: u32) = unat n" by (rule unat_u16_u32)
  then have "unat (h mod scast n) = unat h mod unat n" unfolding e by (simp only: unat_mod_distrib)
  moreover have "0 < unat n" using assms(1) by (simp add: unat_gt_0)
  ultimately have "unat (h mod scast n) < unat n" by simp
  moreover from this have "sint (h mod scast n) = int (unat (h mod scast n))"
    using assms(2) by (intro sint_small) simp
  ultimately show ?thesis by (simp only: of_nat_0_le_iff of_nat_less_iff simp_thms)
qed

lemma dh1cf_uc_range:
  assumes "dh1cf_get_uc_channel_index read32 slot mac n = Some c" and "unat n < 32768"
  shows "0 \<le> c \<and> c < int (unat n)"
  using assms dh1cf_mod_range [of n] by (auto simp: dh1cf_get_uc_channel_index_def split: if_splits)

lemma dh1cf_bc_range:
  assumes "dh1cf_get_bc_channel_index slot bsi n = Some c" and "unat n < 32768"
  shows "0 \<le> c \<and> c < int (unat n)"
  using assms dh1cf_mod_range [of n] by (auto simp: dh1cf_get_bc_channel_index_def split: if_splits)

section \<open>The sequence visits every channel once\<close>

lemma prime_coprime:
  assumes "prime_number p" and "0 < s" and "s < p"
  shows "coprime p s"
proof -
  have "gcd p s dvd p" "gcd p s dvd s" by simp_all
  then have "gcd p s = 1 \<or> gcd p s = p" "gcd p s \<le> s"
    using assms(1,2) by (auto simp: prime_number_def intro: dvd_imp_le)
  with assms(3) show ?thesis by (simp add: coprime_iff_gcd_eq_1)
qed

text \<open>Steps of a fixed length prime to the length of the table reach every position.\<close>

lemma steps_inj:
  fixes p s i :: nat
  assumes "prime_number p" and "0 < s" and "s < p"
  shows "inj_on (\<lambda>k. (i + k * s) mod p) {..<p}"
proof -
  have cp: "coprime p s" by (rule prime_coprime [OF assms])
  have le: "k = k'" if "k \<le> k'" "k' < p" "(i + k * s) mod p = (i + k' * s) mod p" for k k'
  proof -
    have "i + k' * s = i + k * s + (k' - k) * s" using that(1) by (simp add: diff_mult_distrib)
    then have "p dvd (k' - k) * s"
      using that(3) mod_eq_dvd_iff_nat [of "i + k * s" "i + k' * s" p] that(1) by simp
    then have "p dvd k' - k" using cp by (simp add: coprime_dvd_mult_left_iff)
    then show ?thesis using that(1,2) by (auto dest: dvd_imp_le)
  qed
  show ?thesis
  proof (rule inj_onI)
    fix k k' assume "k \<in> {..<p}" "k' \<in> {..<p}" "(i + k * s) mod p = (i + k' * s) mod p"
    then show "k = k'" using le [of k k'] le [of k' k] by (cases "k \<le> k'") simp_all
  qed
qed

text \<open>
  With a table of at most 128 entries the 8-bit index never wraps around: the loop takes the
  positions in steps modulo the length and collects the channels that are not excluded.
\<close>

definition hop_visible :: "u32 list option \<Rightarrow> int \<Rightarrow> bool" where
  "hop_visible ex c \<longleftrightarrow> c \<noteq> - 1 \<and> tr51_find_excluded c ex = Some False"

definition hop_entries :: "u16 list \<Rightarrow> u32 list option \<Rightarrow> nat list \<Rightarrow> u16 list" where
  "hop_entries table ex ks = filter (\<lambda>w. hop_visible ex (sint w)) (map (\<lambda>k. table ! k) ks)"

lemma hop_index_step:
  fixes p :: u16
  assumes "unat index < unat p" and "unat step < unat p" and "unat p \<le> 128"
  shows "unat (ucast (ucast (index + step :: u8) mod p) :: u8) = (unat index + unat step) mod unat p"
proof -
  have "unat (index + step) = unat index + unat step"
    using assms by (simp add: unat_word_ariths)
  then have m: "unat (ucast (index + step) mod p) = (unat index + unat step) mod unat p"
    by (simp only: unat_mod_distrib unat_u8_u16)
  also have "\<dots> < 256" using assms by (intro less_trans [OF mod_less_divisor]) simp_all
  finally have "unat (ucast (ucast (index + step) mod p) :: u8) = unat (ucast (index + step) mod p)"
    by (simp add: unsigned_ucast_eq take_bit_nat_eq_self)
  with m show ?thesis by simp
qed

lemma tr51_hop_loop_spec:
  assumes "length table = unat p" and "unat p \<le> 128" and "unat step < unat p" and "unat index < unat p"
    and "\<forall>w \<in> set table. sint w \<noteq> - 1 \<longrightarrow> tr51_find_excluded (sint w) ex \<noteq> None"
    and "unat slot + length (hop_entries table ex (map (\<lambda>k. (unat index + k * unat step) mod unat p) [0..<cntr])) \<le> length out"
    and "length (hop_entries table ex (map (\<lambda>k. (unat index + k * unat step) mod unat p) [0..<cntr])) + unat slot < 256"
  shows "tr51_hop_loop cntr table p step ex index slot out =
    (let es = hop_entries table ex (map (\<lambda>k. (unat index + k * unat step) mod unat p) [0..<cntr])
     in Some (slot + word_of_nat (length es),
              take (unat slot) out @ map ucast es @ drop (unat slot + length es) out))"
  using assms(4,6,7)
proof (induction cntr arbitrary: index slot out)
  case 0
  then show ?case by (simp add: hop_entries_def)
next
  case (Suc cntr)
  let ?i = "ucast (ucast (index + step) mod p) :: u8"
  let ?ks = "\<lambda>i. map (\<lambda>k. (i + k * unat step) mod unat p) [0..<cntr]"
  have i: "unat ?i = (unat index + unat step) mod unat p" by (rule hop_index_step [OF Suc.prems(1) assms(3,2)])
  have ip: "unat ?i < unat p" unfolding i using assms(3) by simp
  have "[0..<Suc cntr] = 0 # map Suc [0..<cntr]" by (simp add: map_Suc_upt upt_conv_Cons)
  then have ks: "map (\<lambda>k. (unat index + k * unat step) mod unat p) [0..<Suc cntr] = unat index # ?ks (unat ?i)"
    using Suc.prems(1) by (simp add: i mod_simps o_def ac_simps)
  let ?w = "table ! unat index"
  have w: "?w \<in> set table" "unat index < length table" using Suc.prems(1) assms(1) by simp_all
  show ?case
  proof (cases "hop_visible ex (sint ?w)")
    case False
    then have es: "hop_entries table ex (unat index # ?ks (unat ?i)) = hop_entries table ex (?ks (unat ?i))"
      by (simp add: hop_entries_def)
    have "sint ?w = - 1 \<or> tr51_find_excluded (sint ?w) ex = Some True"
      using False assms(5) w(1) by (auto simp: hop_visible_def)
    then have step: "tr51_hop_loop (Suc cntr) table p step ex index slot out = tr51_hop_loop cntr table p step ex ?i slot out"
      using w(2) by (auto simp: Let_def)
    show ?thesis unfolding step ks es
      by (rule Suc.IH [OF ip]) (use Suc.prems(2,3) in \<open>simp_all only: ks es\<close>)
  next
    case True
    then have es: "hop_entries table ex (unat index # ?ks (unat ?i)) = ?w # hop_entries table ex (?ks (unat ?i))"
      by (simp add: hop_entries_def)
    note room = Suc.prems(2) [unfolded ks es] and small = Suc.prems(3) [unfolded ks es]
    have s1: "unat (slot + 1) = Suc (unat slot)" using small by (simp add: unat_word_ariths)
    let ?out = "out[unat slot := ucast ?w]"
    have step: "tr51_hop_loop (Suc cntr) table p step ex index slot out = tr51_hop_loop cntr table p step ex ?i (slot + 1) ?out"
      using w(2) True room by (simp add: hop_visible_def)
    have IH: "tr51_hop_loop cntr table p step ex ?i (slot + 1) ?out =
      (let es = hop_entries table ex (?ks (unat ?i))
       in Some (slot + 1 + word_of_nat (length es),
                take (unat (slot + 1)) ?out @ map ucast es @ drop (unat (slot + 1) + length es) ?out))"
      by (rule Suc.IH [OF ip]) (use room small s1 in simp_all)
    have "take (Suc (unat slot)) ?out = take (unat slot) out @ [ucast ?w]"
      using room by (simp add: take_Suc_conv_app_nth)
    then show ?thesis unfolding step IH ks es Let_def s1 using room by simp
  qed
qed

lemma steps_permutation:
  assumes "prime_number p" and "0 < s" and "s < p"
  shows "distinct (map (\<lambda>k. (i + k * s) mod p) [0..<p])" "set (map (\<lambda>k. (i + k * s) mod p) [0..<p]) = {..<p}"
proof -
  note inj = steps_inj [OF assms, of i]
  then show "distinct (map (\<lambda>k. (i + k * s) mod p) [0..<p])"
    by (simp add: distinct_map atLeast0LessThan)
  have "(\<lambda>k. (i + k * s) mod p) ` {..<p} \<subseteq> {..<p}" using assms(3) by auto
  moreover have "card ((\<lambda>k. (i + k * s) mod p) ` {..<p}) = p" using card_image [OF inj] by simp
  ultimately have "(\<lambda>k. (i + k * s) mod p) ` {..<p} = {..<p}" by (intro card_subset_eq) simp_all
  then show "set (map (\<lambda>k. (i + k * s) mod p) [0..<p]) = {..<p}" by (simp add: atLeast0LessThan)
qed

lemma sint_nonneg:
  assumes "0 \<le> sint (w :: 'a::len word)"
  shows "sint w = int (unat w)"
proof -
  have u: "uint w = sint w mod 2 ^ LENGTH('a)" using uint_word_of_int [of "sint w", where 'a = 'a] by simp
  have "(2 :: int) ^ (LENGTH('a) - 1) \<le> 2 ^ LENGTH('a)" by (rule power_increasing) simp_all
  with sint_lt [of w] have "sint w < 2 ^ LENGTH('a)" by (rule less_le_trans)
  with assms have "sint w mod 2 ^ LENGTH('a) = sint w" by (rule mod_pos_pos_trivial)
  with u show ?thesis by simp
qed

lemma filled_visible_entries:
  assumes "table_filled n p n table" and "distinct ks" and "set ks = {..<p}" and "n \<le> p"
  shows "distinct (hop_entries table ex ks)"
    and "(\<lambda>w. nat (sint w)) ` set (hop_entries table ex ks) = {c. c < n \<and> tr51_find_excluded (int c) ex = Some False}"
    and "\<forall>w \<in> set (hop_entries table ex ks). 0 \<le> sint w \<and> sint w < int n"
proof -
  let ?v = "\<lambda>k. hop_visible ex (sint (table ! k))"
  have low: "k < n" if "k < p" "?v k" for k
    using assms(1) that by (cases "k < n") (simp_all add: table_filled_def hop_visible_def)
  have range: "0 \<le> sint (table ! k)" "sint (table ! k) < int n" if "k < n" for k
    using assms(1) that by (simp_all add: table_filled_def)
  have inj: "inj_on (\<lambda>k. sint (table ! k)) {..<n}" using assms(1) by (simp add: table_filled_def)
  have es: "hop_entries table ex ks = map (\<lambda>k. table ! k) (filter ?v ks)"
    by (simp add: hop_entries_def filter_map o_def)
  have set: "set (filter ?v ks) = {k. k < n \<and> ?v k}" using assms(3,4) low by auto
  have "inj_on (\<lambda>k. table ! k) (set (filter ?v ks))"
    unfolding set using inj by (auto simp: inj_on_def)
  then show "distinct (hop_entries table ex ks)" using assms(2) by (simp add: es distinct_map)
  show "\<forall>w \<in> set (hop_entries table ex ks). 0 \<le> sint w \<and> sint w < int n"
    unfolding es using range low assms(3) by auto
  have "(\<lambda>k. sint (table ! k)) ` {..<n} = {0..<int n}"
  proof (rule card_subset_eq)
    show "(\<lambda>k. sint (table ! k)) ` {..<n} \<subseteq> {0..<int n}" using range by auto
    show "card ((\<lambda>k. sint (table ! k)) ` {..<n}) = card {0..<int n}" using card_image [OF inj] by simp
  qed simp
  then have all: "\<exists>k < n. sint (table ! k) = int c" if "c < n" for c
    using that by (metis (no_types, lifting) atLeastLessThan_iff imageE lessThan_iff of_nat_0_le_iff of_nat_less_iff)
  have "c \<in> (\<lambda>w. nat (sint w)) ` set (hop_entries table ex ks) \<longleftrightarrow> c < n \<and> tr51_find_excluded (int c) ex = Some False" for c
  proof
    assume "c \<in> (\<lambda>w. nat (sint w)) ` set (hop_entries table ex ks)"
    then obtain k where k: "k < n" "?v k" "c = nat (sint (table ! k))" unfolding es by (auto simp: set simp del: set_filter)
    then show "c < n \<and> tr51_find_excluded (int c) ex = Some False"
      using range [OF k(1)] by (simp add: hop_visible_def)
  next
    assume c: "c < n \<and> tr51_find_excluded (int c) ex = Some False"
    then obtain k where k: "k < n" "sint (table ! k) = int c" using all by blast
    then have "k \<in> set (filter ?v ks)" unfolding set using c by (simp add: hop_visible_def)
    then show "c \<in> (\<lambda>w. nat (sint w)) ` set (hop_entries table ex ks)"
      unfolding es using k(2) by (intro image_eqI [of _ _ "table ! k"]) simp_all
  qed
  then show "(\<lambda>w. nat (sint w)) ` set (hop_entries table ex ks) = {c. c < n \<and> tr51_find_excluded (int c) ex = Some False}"
    by blast
qed

text \<open>A node that hops over \<open>n\<close> channels with a complete table visits every channel once per round.\<close>

lemma prime_127: "prime_number 127"
proof -
  have "\<not> d dvd 127" if "2 \<le> d" "d < 127" for d :: nat
  proof
    assume "d dvd 127"
    then obtain e where e: "127 = d * e" by (rule dvdE)
    have "\<forall>d \<in> set [2..126]. int 127 mod d \<noteq> 0" unfolding of_nat_numeral by code_simp
    moreover have "int d \<in> set [2..126]" using that by (simp only: set_upto) simp
    ultimately have "int 127 mod int d \<noteq> 0" by (rule bspec)
    moreover have "int 127 mod int d = 0" unfolding zmod_int [symmetric] using \<open>d dvd 127\<close> by (simp only: dvd_imp_mod_0 of_nat_0)
    ultimately show False by (rule notE)
  qed
  then show ?thesis by (intro prime_if_no_divisor) auto
qed

lemma nearest_prime_127:
  assumes "2 \<le> unat n" and "unat n \<le> 127" and "tr51_calc_nearest_prime_number n = Some p"
  shows "unat p \<le> 127"
proof (cases "unat n = 2")
  case True
  then have "n = 2" by (simp add: word_unat_eq_iff)
  then show ?thesis using assms(3) tr51_nearest_prime_two by simp
next
  case False
  then have "\<forall>q. unat n \<le> q \<and> q < unat p \<longrightarrow> \<not> prime_number q"
    using tr51_nearest_prime_ok [of n] assms by auto
  from this [rule_format, of 127] prime_127 assms(2) show ?thesis by fastforce
qed

lemma unat_word_of_nat_u16: "s < 65536 \<Longrightarrow> unat (word_of_nat s :: u16) = s"
  by (simp add: unat_of_nat)

lemma tr51_cfd_range:
  assumes "8 \<le> length mac" and "3 \<le> unat p" and "unat p \<le> 128"
  shows "\<exists>f s. tr51_compute_cfd mac p = Some (f, s) \<and> unat f < unat p \<and> 0 < unat s \<and> unat s < unat p"
proof -
  have p: "p \<noteq> 0" "p \<noteq> 1" using assms(2) by (auto simp: word_unat_eq_iff)
  have cut: "unat (ucast x :: u8) = unat x" if "unat x < 256" for x :: u16
    using that by (simp add: unsigned_ucast_eq take_bit_nat_eq_self)
  let ?f = "ucast (mac ! 5 XOR mac ! 6 XOR mac ! 7) mod p :: u16"
  have "unat ?f = unat (ucast (mac ! 5 XOR mac ! 6 XOR mac ! 7) :: u16) mod unat p" by (rule unat_mod_distrib)
  also have "\<dots> < unat p" using assms(2) by simp
  finally have f: "unat ?f < unat p" .
  let ?m = "ucast (mac ! 7) mod (p - 1) :: u16"
  have p1: "unat (p - 1) = unat p - 1" by (rule unat_minus_one [OF p(1)])
  have "unat ?m = unat (ucast (mac ! 7) :: u16) mod unat (p - 1)" by (rule unat_mod_distrib)
  also have "\<dots> < unat p - 1" unfolding p1 using assms(2) by simp
  finally have m: "unat ?m < unat p - 1" .
  then have s: "unat (?m + 1) = Suc (unat ?m)" using assms(3) by (simp add: unat_word_ariths)
  show ?thesis
    using assms(1,3) p f m s cut [of ?f] cut [of "?m + 1"] by (simp add: tr51_compute_cfd_def)
qed

lemma tr51_round:
  assumes "2 \<le> unat n" and "unat n \<le> 127" and "tr51_calc_nearest_prime_number n = Some p"
    and "table_filled (unat n) (unat p) (unat n) table" and "8 \<le> length mac"
    and "\<forall>c < unat n. tr51_find_excluded (int c) ex \<noteq> None"
  defines "C \<equiv> {c. c < unat n \<and> tr51_find_excluded (int c) ex = Some False}"
  shows "\<exists>f. bij_betw f {..<card C} C \<and>
    (\<forall>s < card C. \<forall>out. unat n \<le> length out \<longrightarrow> (\<exists>out'. length out' = length out \<and>
       tr51_channel_index table out (word_of_nat s) mac n ex = Some (int (f s), out')))"
proof -
  have n: "unat n \<le> 65521" using assms(2) by simp
  note p = tr51_nearest_prime_ge [OF assms(1) n assms(3)]
  have p127: "unat p \<le> 127" by (rule nearest_prime_127 [OF assms(1-3)])
  then have p128: "unat p \<le> 128" by simp
  from tr51_cfd_range [OF assms(5) p(2) p128] obtain i s where
    cfd: "tr51_compute_cfd mac p = Some (i, s)" "unat i < unat p" "0 < unat s" "unat s < unat p" by blast
  let ?ks = "map (\<lambda>k. (unat i + k * unat s) mod unat p) [0..<unat p]"
  let ?es = "hop_entries table ex ?ks"
  note perm = steps_permutation [OF p(3) cfd(3,4), of "unat i"]
  note es = filled_visible_entries [OF assms(4) perm p(1), of ex]
  have img: "(\<lambda>w. nat (sint w)) ` set ?es = C" unfolding C_def by (rule es(2))
  have inj: "inj_on (\<lambda>w. nat (sint w)) (set ?es)"
  proof (rule inj_onI)
    fix v w assume vw: "v \<in> set ?es" "w \<in> set ?es" "nat (sint v) = nat (sint w)"
    have "sint v = int (unat v)" "sint w = int (unat w)" using es(3) vw(1,2) sint_nonneg by blast+
    then show "v = w" using vw(3) by (simp only: nat_int word_unat_eq_iff)
  qed
  have len: "length ?es = card C"
    using distinct_card [OF es(1)] card_image [OF inj] img by simp
  have "C \<subseteq> {..<unat n}" by (auto simp: C_def)
  then have "card C \<le> unat n" using card_mono [of "{..<unat n}" C] by simp
  then have small: "card C \<le> unat n" "card C < 256" using assms(2) by simp_all
  have tl: "length table = unat p" using assms(4) by (simp add: table_filled_def)
  have ok: "\<forall>w \<in> set table. sint w \<noteq> - 1 \<longrightarrow> tr51_find_excluded (sint w) ex \<noteq> None"
  proof (intro ballI impI)
    fix w assume w: "w \<in> set table" "sint w \<noteq> - 1"
    then obtain k where k: "k < unat p" "w = table ! k" using tl by (auto simp: in_set_conv_nth)
    then have "k < unat n" using assms(4) w(2) by (cases "k < unat n") (simp_all add: table_filled_def)
    then have "0 \<le> sint w" "sint w < int (unat n)" using assms(4) k(2) by (simp_all add: table_filled_def)
    then have "int (nat (sint w)) = sint w" "nat (sint w) < unat n" by linarith+
    then show "tr51_find_excluded (sint w) ex \<noteq> None" using assms(6) by metis
  qed
  have loop: "tr51_hop_loop (unat p) table p s ex i 0 out =
      Some (word_of_nat (length ?es), map ucast ?es @ drop (length ?es) out)" if "unat n \<le> length out" for out
    using that tr51_hop_loop_spec [OF tl p128 cfd(4,2) ok, of 0 "unat p" out] len small by simp
  let ?f = "\<lambda>k. nat (sint (?es ! k))"
  have "bij_betw (\<lambda>k. ?es ! k) {..<card C} (set ?es)" using bij_betw_nth [OF es(1)] len by simp
  moreover have "bij_betw (\<lambda>w. nat (sint w)) (set ?es) C" using inj img by (simp add: bij_betw_def)
  ultimately have "bij_betw ?f {..<card C} C" using bij_betw_trans by (fastforce simp: o_def)
  moreover have "\<exists>out'. length out' = length out \<and> tr51_channel_index table out (word_of_nat k) mac n ex = Some (int (?f k), out')"
    if "k < card C" "unat n \<le> length out" for k out
  proof -
    have "?es ! k \<in> set ?es" using that(1) len by simp
    then have r: "0 \<le> sint (?es ! k)" "sint (?es ! k) < int (unat n)" using es(3) by auto
    have u: "sint (?es ! k) = int (unat (?es ! k))" by (rule sint_nonneg [OF r(1)])
    then have "unat (?es ! k) < 256" using r(2) assms(2) by linarith
    then have "unat (ucast (?es ! k) :: u8) = unat (?es ! k)" by (simp add: unsigned_ucast_eq take_bit_nat_eq_self)
    moreover have "p \<noteq> 0" using p(2) by auto
    moreover have "unat (word_of_nat k :: u16) = k" using that(1) small(2) by (intro unat_word_of_nat_u16) simp
    ultimately show ?thesis
      using assms(3) cfd(1) loop [OF that(2)] u that len small
      by (simp add: tr51_channel_index_def tr51_calculate_hopping_sequence_def nth_append)
  qed
  ultimately show ?thesis by blast
qed

lemma find_excluded_defined:
  assumes "ex = None \<or> (\<exists>m. ex = Some m \<and> length m = 8)" and "c < 256"
  shows "tr51_find_excluded (int c) ex \<noteq> None"
proof -
  have c: "c div 32 < 8" using assms(2) by linarith
  have "int c div 32 = int (c div 32)" by (simp add: zdiv_int)
  then have "unat (word_of_int (int c div 32) :: u8) = c div 32" using c by (simp add: unat_of_nat)
  with assms(1) c show ?thesis by (auto simp: tr51_find_excluded_def Let_def)
qed

lemma tr51_initialised:
  assumes "2 \<le> unat n" and "unat n < 32768" and "tr51_calc_nearest_prime_number n = Some p"
    and "length tb = unat p" and "tr51_init_channel_table tb n = Some (table, seed)"
  shows "table_filled (unat n) (unat p) (unat n) table"
proof -
  from assms(2) have "unat n \<le> 65521" by simp
  from tr51_nearest_prime_ge(1) [OF assms(1) this assms(3)] tr51_channel_table_filled [OF _ assms(2,4)]
  show ?thesis using assms(3,5) by (auto simp: tr51_init_channel_table_def)
qed

text \<open>
  C11: A node that hops by TR51 over at most 127 channels visits every channel that is not excluded
  exactly once in a round, whatever its address, and never leaves its tables.
\<close>

theorem tr51_uc_visits_every_channel:
  assumes "2 \<le> unat n" and "unat n \<le> 127" and "tr51_calc_nearest_prime_number n = Some p"
    and "length tb = unat p" and "tr51_init_channel_table tb n = Some (table, seed)"
    and "length mac = 8" and "ex = None \<or> (\<exists>m. ex = Some m \<and> length m = 8)"
  shows "\<exists>f. bij_betw f {..<card {c. c < unat n \<and> tr51_find_excluded (int c) ex = Some False}}
                      {c. c < unat n \<and> tr51_find_excluded (int c) ex = Some False} \<and>
    (\<forall>s < card {c. c < unat n \<and> tr51_find_excluded (int c) ex = Some False}. \<forall>out. unat n \<le> length out \<longrightarrow>
       (\<exists>out'. length out' = length out \<and>
        tr51_get_uc_channel_index table out (word_of_nat s) mac n ex = Some (int (f s), out')))"
proof -
  have "table_filled (unat n) (unat p) (unat n) table"
    using tr51_initialised [OF assms(1) _ assms(3-5)] assms(2) by simp
  moreover have "\<forall>c < unat n. tr51_find_excluded (int c) ex \<noteq> None"
    using find_excluded_defined [OF assms(7)] assms(2) by auto
  ultimately show ?thesis
    using tr51_round [OF assms(1-3), of table mac ex] assms(6)
    unfolding tr51_get_uc_channel_index_def by simp
qed

lemma four_channels: "tr51_calc_nearest_prime_number 4 = Some 5"
  "tr51_init_channel_table (replicate 5 0) 4 = Some ([2, 3, 0, 1, - 1], 1147902781)"
  by code_simp+

theorem tr51_uc_visits_every_channel_witness:
  "\<exists>f. bij_betw f {..<card {c. c < unat (4 :: u16) \<and> tr51_find_excluded (int c) (Some [2, 0, 0, 0, 0, 0, 0, 0]) = Some False}}
                 {c. c < unat (4 :: u16) \<and> tr51_find_excluded (int c) (Some [2, 0, 0, 0, 0, 0, 0, 0]) = Some False} \<and>
    (\<forall>s < card {c. c < unat (4 :: u16) \<and> tr51_find_excluded (int c) (Some [2, 0, 0, 0, 0, 0, 0, 0]) = Some False}.
       \<forall>out. unat (4 :: u16) \<le> length out \<longrightarrow> (\<exists>out'. length out' = length out \<and>
       tr51_get_uc_channel_index [2, 3, 0, 1, - 1] out (word_of_nat s) [0, 1, 2, 3, 4, 5, 6, 7] 4
         (Some [2, 0, 0, 0, 0, 0, 0, 0]) = Some (int (f s), out')))"
  by (rule tr51_uc_visits_every_channel [OF _ _ four_channels(1) _ four_channels(2)]) simp_all

text \<open>
  With more than 127 channels the length of the table is above 128 and the sum of the index and
  the step wraps around at 256 before it is reduced modulo the length.
\<close>

definition hop_orbit :: "nat set" where
  "hop_orbit = {0, 1, 2, 3, 4, 130}"

lemma hop_orbit_step: "unat index \<in> hop_orbit \<Longrightarrow> unat (ucast (ucast (index + 130 :: u8) mod 131 :: u16) :: u8) \<in> hop_orbit"
proof -
  assume "unat index \<in> hop_orbit"
  then have "index \<in> {0, 1, 2, 3, 4, 130}" by (auto simp: hop_orbit_def word_unat_eq_iff)
  then show ?thesis by (auto simp: hop_orbit_def)
qed

lemma tr51_hop_loop_orbit:
  assumes "tr51_hop_loop cntr table 131 130 None index slot out = Some (slot', out')" and "unat index \<in> hop_orbit"
    and "unat slot + cntr < 256" and "set (take (unat slot) out) \<subseteq> (\<lambda>k. ucast (table ! k)) ` hop_orbit"
  shows "set (take (unat slot') out') \<subseteq> (\<lambda>k. ucast (table ! k)) ` hop_orbit"
  using assms
proof (induction cntr arbitrary: index slot out)
  case (Suc cntr)
  note index' = hop_orbit_step [OF Suc.prems(2)]
  show ?case
  proof (cases "sint (table ! unat index) = - 1")
    case True
    with Suc.prems(1) have "tr51_hop_loop cntr table 131 130 None (ucast (ucast (index + 130) mod 131 :: u16)) slot out = Some (slot', out')"
      by (simp add: Let_def split: if_splits)
    from Suc.IH [OF this index'] Suc.prems(3,4) show ?thesis by simp
  next
    case False
    let ?out = "out[unat slot := ucast (table ! unat index)]"
    from False Suc.prems(1) have l: "unat slot < length out"
      "tr51_hop_loop cntr table 131 130 None (ucast (ucast (index + 130) mod 131 :: u16)) (slot + 1) ?out = Some (slot', out')"
      by (simp_all add: tr51_find_excluded_def Let_def split: if_splits)
    have s: "unat (slot + 1) = Suc (unat slot)" using Suc.prems(3) by (simp add: unat_word_ariths)
    have "set (take (Suc (unat slot)) ?out) \<subseteq> (\<lambda>k. ucast (table ! k)) ` hop_orbit"
      using l(1) Suc.prems(2,4) by (simp add: take_Suc_conv_app_nth)
    with Suc.IH [OF l(2) index'] Suc.prems(3) s show ?thesis by simp
  qed
qed simp

text \<open>
  Over 129 channels a node whose address ends with the bytes 0x81 0x81 (after an arbitrary
  start with sixth byte 0) hops over at most six of the channels: the 8-bit index of the walk through
  the channel table wraps around.
\<close>

lemma tr51_long_table_misses_channels:
  assumes "mac = [m0, m1, m2, m3, m4, 0, 0x81, 0x81]"
    and "tr51_compute_cfd mac 131 = Some (first_element, step_size)"
    and "tr51_calculate_hopping_sequence table 131 first_element step_size out None = Some (n, out')"
  shows "card (set (take (unat n) out')) \<le> 6"
proof -
  have cfd: "first_element = 0" "step_size = 130"
    using assms(1,2) by (simp_all add: tr51_compute_cfd_def)
  obtain slot' where l: "tr51_hop_loop 131 table 131 130 None 0 0 out = Some (slot', out')" "n = ucast slot'"
    using assms(3) by (auto simp: tr51_calculate_hopping_sequence_def cfd)
  have "set (take (unat slot') out') \<subseteq> (\<lambda>k. ucast (table ! k)) ` hop_orbit"
    by (rule tr51_hop_loop_orbit [OF l(1)]) (simp_all add: hop_orbit_def)
  then have "card (set (take (unat slot') out')) \<le> card ((\<lambda>k. ucast (table ! k) :: u8) ` hop_orbit)"
    by (intro card_mono) (simp_all add: hop_orbit_def)
  also have "\<dots> \<le> card hop_orbit" by (rule card_image_le) (simp add: hop_orbit_def)
  also have "\<dots> = 6" by (simp add: hop_orbit_def)
  finally show ?thesis by (simp only: l(2) unat_u8_u16)
qed

end
