(* ===== verification/FhssWs.thy ===== *)
theory FhssWs
  imports Hopping WsNeighbor "HOL-Library.Signed_Division"
begin

text \<open>
  Frequency hopping of a Wi-SUN node, \<open>Service_Libs/fhss/fhss_ws.c\<close> with the parts of
  \<open>fhss_common.c\<close> it uses: the state, the configuration, and the choice of the channels to listen and
  to transmit on. The configuration, callback and timing structures are declared outside of the
  repository; the records have the fields this code uses. \<open>fhss_structure_t\<close> and its \<open>ws\<close> part are
  one record. Calls into the MAC and the timers are collected in \<open>fhss_out\<close>, newest first. Values of
  signed types are integers; a conversion to an unsigned field is written out. \<open>None\<close> is a division
  by zero or an access outside an array. Statistics and traces are left out.
\<close>

section \<open>Units\<close>

definition divide_integer :: "int \<Rightarrow> int \<Rightarrow> int" where
  "divide_integer dividend divisor =
     (if divisor = 0 then dividend
      else if dividend < 0 then (dividend - divisor sdiv 2) sdiv divisor
      else (dividend + divisor sdiv 2) sdiv divisor)"

abbreviation MS_TO_US :: "int \<Rightarrow> int" where "MS_TO_US x \<equiv> x * 1000"
abbreviation S_TO_US :: "int \<Rightarrow> int" where "S_TO_US x \<equiv> x * 1000000"
abbreviation US_TO_MS :: "int \<Rightarrow> int" where "US_TO_MS x \<equiv> divide_integer x 1000"
abbreviation US_TO_S :: "int \<Rightarrow> int" where "US_TO_S x \<equiv> divide_integer x 1000000"
abbreviation NS_TO_US :: "int \<Rightarrow> int" where "NS_TO_US x \<equiv> divide_integer x 1000"

text \<open>The conversion of a 64-bit value to \<open>uint32_t\<close>, and of an unsigned 32-bit value to \<open>int64_t\<close>.\<close>

abbreviation to_u32 :: "int \<Rightarrow> u32" where "to_u32 x \<equiv> word_of_int x"
abbreviation of_u32 :: "u32 \<Rightarrow> int" where "of_u32 x \<equiv> int (unat x)"
abbreviation of_u8 :: "u8 \<Rightarrow> int" where "of_u8 x \<equiv> int (unat x)"
abbreviation of_u16 :: "u16 \<Rightarrow> int" where "of_u16 x \<equiv> int (unat x)"

section \<open>State\<close>

datatype fhss_states = FHSS_UNSYNCHRONIZED | FHSS_SYNCHRONIZED | FHSS_EXPEDITED_FORWARDING

text \<open>The levels are compared by their order.\<close>

datatype fhss_ws_tx_allow_level = WS_TX_SLOT | WS_TX_AND_RX_SLOT | WS_TX_ALWAYS

datatype fhss_timer_cb = fhss_unicast_timer | fhss_broadcast_timer

datatype fhss_effect =
    Change_Channel int
  | Timer_Start fhss_timer_cb u32
  | Timer_Stop fhss_timer_cb
  | Event_Timer_Start u32
  | Event_Timer_Stop
  | Tx_Poll

record fhss_ws_configuration =
  cfg_uc_channel_function :: ws_channel_functions_e
  cfg_bc_channel_function :: ws_channel_functions_e
  cfg_bsi :: u16
  cfg_uc_dwell_interval :: u8
  cfg_broadcast_interval :: u32
  cfg_bc_dwell_interval :: u8
  cfg_unicast_fixed_channel :: u8
  cfg_broadcast_fixed_channel :: u8
  cfg_channel_mask_size :: u16
  cfg_channel_mask :: "u32 list"
  cfg_unicast_channel_mask :: "u32 list"
  cfg_number_of_channel_retries :: u8
  cfg_vendor_defined_cf :: "(u16 \<Rightarrow> bytes option \<Rightarrow> u16 \<Rightarrow> u16 \<Rightarrow> int) option"

record fhss_failed_tx =
  failed_handle :: u8
  bad_channel :: u8
  retries_done :: u8

record fhss_t =
  own_hop :: u8
  rx_channel :: u8
  fhss_number_of_channels :: u16
  number_of_uc_channels :: u16
  number_of_bc_channels :: u16
  optimal_packet_length :: u16
  fhss_state :: fhss_states
  fhss_resolution_divider :: u8
  fhss_failed_tx_list :: "fhss_failed_tx list"
  bc_channel :: u8
  uc_slot :: u16
  bc_slot :: u16
  min_synch_interval :: u16
  txrx_slot_length_ms :: u32
  synchronization_time :: u32
  unicast_start_time_us :: u32
  drift_per_millisecond_ns :: int
  tr51_channel_table :: "u16 list option"
  tr51_output_table :: "bytes option"
  next_uc_timeout :: u32
  next_bc_timeout :: u32
  expedited_forwarding_enabled_us :: u32
  unicast_timer_running :: bool
  broadcast_timer_running :: bool
  is_on_bc_channel :: bool
  tx_level :: fhss_ws_tx_allow_level
  ef_tx_level :: fhss_ws_tx_allow_level
  fhss_configuration :: fhss_ws_configuration
  parent_bc_info :: "bc_timing_info_t option"
  fhss_out :: "fhss_effect list"

abbreviation fhss_log :: "fhss_effect \<Rightarrow> fhss_t \<Rightarrow> fhss_t" where
  "fhss_log e st \<equiv> st\<lparr>fhss_out := e # fhss_out st\<rparr>"

definition level_at_least :: "fhss_ws_tx_allow_level \<Rightarrow> fhss_ws_tx_allow_level \<Rightarrow> bool" where
  "level_at_least l bound \<longleftrightarrow>
     (case bound of WS_TX_SLOT \<Rightarrow> True | WS_TX_AND_RX_SLOT \<Rightarrow> l \<noteq> WS_TX_SLOT | WS_TX_ALWAYS \<Rightarrow> l = WS_TX_ALWAYS)"

section \<open>Failed transmissions\<close>

definition fhss_failed_handle_find :: "fhss_t \<Rightarrow> u8 \<Rightarrow> nat option" where
  "fhss_failed_handle_find st handle = find_index (\<lambda>cur. failed_handle cur = handle) (fhss_failed_tx_list st)"

text \<open>\<open>ok\<close> is the success of the allocation.\<close>

definition fhss_failed_handle_add :: "bool \<Rightarrow> u8 \<Rightarrow> u8 \<Rightarrow> fhss_t \<Rightarrow> int \<times> fhss_t" where
  "fhss_failed_handle_add ok handle channel st =
     (if \<not> ok then (- 1, st)
      else (0, st\<lparr>fhss_failed_tx_list := fhss_failed_tx_list st @
                   [\<lparr>failed_handle = handle, bad_channel = channel, retries_done = 0\<rparr>]\<rparr>))"

definition fhss_failed_handle_remove :: "u8 \<Rightarrow> fhss_t \<Rightarrow> int \<times> fhss_t" where
  "fhss_failed_handle_remove handle st =
     (case fhss_failed_handle_find st handle of
        None \<Rightarrow> (- 1, st)
      | Some k \<Rightarrow> (0, st\<lparr>fhss_failed_tx_list := take k (fhss_failed_tx_list st) @ drop (Suc k) (fhss_failed_tx_list st)\<rparr>))"

definition fhss_failed_list_free :: "fhss_t \<Rightarrow> fhss_t" where
  "fhss_failed_list_free st = fold (\<lambda>i st. snd (fhss_failed_handle_remove (word_of_nat i) st)) [0..<256] st"

section \<open>Timers\<close>

text \<open>\<open>remaining\<close> is the result of \<open>fhss_get_remaining_slots\<close>.\<close>

definition get_remaining_slots_us :: "u32 \<Rightarrow> u32 \<Rightarrow> u32" where
  "get_remaining_slots_us remaining max_timeout_us = (if remaining > max_timeout_us then 0 else remaining)"

definition fhss_start_timer :: "u32 \<Rightarrow> fhss_timer_cb \<Rightarrow> fhss_t \<Rightarrow> fhss_t" where
  "fhss_start_timer time cb st =
     (let divider = ucast (fhss_resolution_divider st);
          time = if time < divider then divider else time
      in fhss_log (Timer_Start cb (time div divider)) st)"

definition fhss_stop_timer :: "fhss_timer_cb \<Rightarrow> fhss_t \<Rightarrow> fhss_t" where
  "fhss_stop_timer cb st = fhss_log (Timer_Stop cb) st"

text \<open>\<open>now\<close> is the time stamp read when the next timeout is stored.\<close>

definition fhss_ws_start_timer :: "u32 \<Rightarrow> u32 \<Rightarrow> fhss_timer_cb \<Rightarrow> fhss_t \<Rightarrow> fhss_t" where
  "fhss_ws_start_timer now time cb st =
     (let time_in_ms = divide_integer (of_u32 time) 1000;
          time = time - to_u32 (NS_TO_US (time_in_ms * drift_per_millisecond_ns st));
          st = fhss_start_timer time cb st
      in case cb of
           fhss_unicast_timer \<Rightarrow> st\<lparr>next_uc_timeout := now + time\<rparr>
         | fhss_broadcast_timer \<Rightarrow> st\<lparr>next_bc_timeout := now + time\<rparr>)"

section \<open>Configuration\<close>

text \<open>
  The two tables of the TR51 channel function. \<open>ok1\<close> and \<open>ok2\<close> are the success of the two allocations,
  \<open>junk1\<close> and \<open>junk2\<close> what the allocated memory contains: the channel table has as many entries as the
  nearest prime, the output table two bytes per channel.
\<close>

record fhss_alloc =
  ok1 :: bool
  ok2 :: bool
  junk1 :: "nat \<Rightarrow> u16 list"
  junk2 :: "nat \<Rightarrow> bytes"

definition fhss_alloc_ok :: "fhss_alloc \<Rightarrow> bool" where
  "fhss_alloc_ok al \<longleftrightarrow> (\<forall>n. length (junk1 al n) = n) \<and> (\<forall>n. length (junk2 al n) = n)"

definition fhss_ws_manage_channel_table_allocation :: "fhss_alloc \<Rightarrow> u16 \<Rightarrow> fhss_t \<Rightarrow> (int \<times> fhss_t) option" where
  "fhss_ws_manage_channel_table_allocation al count st =
     (if tr51_channel_table st \<noteq> None \<or> tr51_output_table st \<noteq> None then Some (0, st)
      else case tr51_calc_nearest_prime_number count of
             None \<Rightarrow> None
           | Some p \<Rightarrow>
               if \<not> ok1 al then Some (- 1, st\<lparr>tr51_channel_table := None\<rparr>)
               else if \<not> ok2 al
               then Some (- 1, st\<lparr>tr51_channel_table := Some (junk1 al (unat p)), tr51_output_table := None\<rparr>)
               else map_option (\<lambda>(table, _). (0, st\<lparr>tr51_channel_table := Some table,
                                                    tr51_output_table := Some (junk2 al (2 * unat count))\<rparr>))
                      (tr51_init_channel_table (junk1 al (unat p)) count))"

definition fhss_ws_set_hop_count :: "u8 \<Rightarrow> fhss_t \<Rightarrow> fhss_t" where
  "fhss_ws_set_hop_count hop_count st = st\<lparr>own_hop := hop_count\<rparr>"

definition fhss_ws_set_tx_allowance_level ::
    "fhss_ws_tx_allow_level \<Rightarrow> fhss_ws_tx_allow_level \<Rightarrow> fhss_t \<Rightarrow> fhss_t" where
  "fhss_ws_set_tx_allowance_level global_level ef_level st = st\<lparr>tx_level := global_level, ef_tx_level := ef_level\<rparr>"

text \<open>
  The state of a new instance. \<open>instance_ok\<close> says that there is no other instance and its memory is
  allocated, \<open>ws_ok\<close> that the memory of the \<open>ws\<close> part is. The cleared value of \<open>fhss_state\<close> is
  \<open>FHSS_UNSYNCHRONIZED\<close>.
\<close>

definition fhss_ws_instance :: "u8 \<Rightarrow> fhss_ws_configuration \<Rightarrow> fhss_t" where
  "fhss_ws_instance divider cfg = \<lparr>
     own_hop = 0, rx_channel = 0, fhss_number_of_channels = 0, number_of_uc_channels = 0, number_of_bc_channels = 0,
     optimal_packet_length = 0, fhss_state = FHSS_UNSYNCHRONIZED,
     fhss_resolution_divider = (if divider = 0 then 1 else divider), fhss_failed_tx_list = [],
     bc_channel = 0, uc_slot = 0, bc_slot = 0, min_synch_interval = 0, txrx_slot_length_ms = 0,
     synchronization_time = 0, unicast_start_time_us = 0, drift_per_millisecond_ns = 0,
     tr51_channel_table = None, tr51_output_table = None, next_uc_timeout = 0, next_bc_timeout = 0,
     expedited_forwarding_enabled_us = 0, unicast_timer_running = False, broadcast_timer_running = False,
     is_on_bc_channel = False, tx_level = WS_TX_SLOT, ef_tx_level = WS_TX_SLOT,
     fhss_configuration = cfg, parent_bc_info = None, fhss_out = []\<rparr>"

definition fhss_ws_enable ::
    "bool \<Rightarrow> bool \<Rightarrow> fhss_alloc \<Rightarrow> u8 \<Rightarrow> fhss_ws_configuration \<Rightarrow> fhss_t option option" where
  "fhss_ws_enable instance_ok ws_ok al divider cfg =
     (let channel_count = channel_list_count_channels (cfg_channel_mask cfg);
          uc_channel_count = channel_list_count_channels (cfg_unicast_channel_mask cfg)
      in if channel_count = 0 then Some None
         else if \<not> instance_ok then Some None
         else if \<not> ws_ok then Some None
         else case fhss_ws_manage_channel_table_allocation al (word_of_nat channel_count) (fhss_ws_instance divider cfg) of
                None \<Rightarrow> None
              | Some (ret, st) \<Rightarrow>
                  if ret \<noteq> 0 then Some None
                  else
                    let cfg = if uc_channel_count = 0 then cfg\<lparr>cfg_unicast_channel_mask := cfg_channel_mask cfg\<rparr> else cfg;
                        uc_channel_count = if uc_channel_count = 0 then channel_count else uc_channel_count;
                        st = st\<lparr>fhss_configuration := cfg, fhss_number_of_channels := word_of_nat channel_count,
                               number_of_uc_channels := word_of_nat uc_channel_count, optimal_packet_length := 500\<rparr>;
                        st = fhss_ws_set_hop_count 0xff st
                    in Some (Some (st\<lparr>rx_channel := cfg_unicast_fixed_channel cfg, min_synch_interval := 60,
                                     tx_level := WS_TX_SLOT, ef_tx_level := WS_TX_ALWAYS, fhss_failed_tx_list := []\<rparr>)))"

text \<open>\<open>now\<close> is the time stamp read by the start of the unicast timer.\<close>

definition fhss_ws_configuration_set ::
    "fhss_alloc \<Rightarrow> u32 \<Rightarrow> fhss_ws_configuration \<Rightarrow> fhss_t \<Rightarrow> (int \<times> fhss_t) option" where
  "fhss_ws_configuration_set al now cfg st =
     (let channel_count_bc = channel_list_count_channels (cfg_channel_mask cfg);
          channel_count_uc = channel_list_count_channels (cfg_unicast_channel_mask cfg)
      in if channel_count_bc = 0 \<or> cfg_channel_mask_size cfg = 0 then Some (- 1, st)
         else case
           (if unat (number_of_bc_channels st) < channel_count_bc \<or>
               channel_count_uc \<noteq> 0 \<and> unat (number_of_uc_channels st) < channel_count_uc
            then fhss_ws_manage_channel_table_allocation al
                   (word_of_nat (if channel_count_uc > channel_count_bc then channel_count_uc else channel_count_bc))
                   (st\<lparr>tr51_channel_table := None, tr51_output_table := None\<rparr>)
            else Some (0, st)) of
             None \<Rightarrow> None
           | Some (ret, st) \<Rightarrow>
               if ret \<noteq> 0 then Some (- 1, st)
               else
                 let st = if cfg_uc_channel_function cfg = WS_FIXED_CHANNEL \<or> cfg_uc_dwell_interval cfg = 0
                          then (fhss_stop_timer fhss_unicast_timer st)\<lparr>unicast_timer_running := False\<rparr> else st;
                     st = if cfg_bc_channel_function cfg = WS_FIXED_CHANNEL \<or>
                             cfg_bc_dwell_interval (fhss_configuration st) = 0 \<or>
                             cfg_broadcast_interval (fhss_configuration st) = 0
                          then st\<lparr>synchronization_time := 0\<rparr> else st;
                     st = if \<not> unicast_timer_running st \<and> cfg_uc_channel_function cfg \<noteq> WS_FIXED_CHANNEL \<and>
                             cfg_uc_dwell_interval cfg \<noteq> 0
                          then (fhss_ws_start_timer now (to_u32 (MS_TO_US (of_u8 (cfg_uc_dwell_interval cfg))))
                                  fhss_unicast_timer st)\<lparr>unicast_timer_running := True\<rparr> else st;
                     cfg = if channel_count_uc = 0 then cfg\<lparr>cfg_unicast_channel_mask := cfg_channel_mask cfg\<rparr> else cfg;
                     channel_count_uc = if channel_count_uc = 0 then channel_count_bc else channel_count_uc;
                     st = st\<lparr>fhss_configuration := cfg\<rparr>;
                     st = if \<not> unicast_timer_running st \<and> \<not> broadcast_timer_running st
                          then fhss_log (Event_Timer_Start 200) st else st;
                     st = st\<lparr>fhss_number_of_channels := cfg_channel_mask_size cfg,
                            number_of_bc_channels := word_of_nat channel_count_bc,
                            number_of_uc_channels := word_of_nat channel_count_uc\<rparr>;
                     st = if cfg_uc_channel_function cfg = WS_FIXED_CHANNEL
                          then st\<lparr>rx_channel := cfg_unicast_fixed_channel cfg\<rparr> else st
                 in Some (0, st))"

definition fhss_ws_remove_parent :: "fhss_t \<Rightarrow> int \<times> fhss_t" where
  "fhss_ws_remove_parent st = (0, st\<lparr>parent_bc_info := None\<rparr>)"

section \<open>Channels\<close>

text \<open>\<open>read32\<close> is \<open>common_read_32_bit\<close>, \<open>mac\<close> the own address. A missing table is \<open>None\<close>.\<close>

definition fhss_ws_calc_bc_channel :: "fhss_t \<Rightarrow> (int \<times> fhss_t) option" where
  "fhss_ws_calc_bc_channel st =
     (let cfg = fhss_configuration st in
      case cfg_bc_channel_function cfg of
        WS_TR51CF \<Rightarrow>
          (case (tr51_channel_table st, tr51_output_table st) of
             (Some table, Some out) \<Rightarrow>
               (case tr51_get_bc_channel_index table out (bc_slot st) (cfg_bsi cfg) (number_of_bc_channels st) None of
                  None \<Rightarrow> None
                | Some (next_channel, out) \<Rightarrow>
                    map_option (\<lambda>next_channel.
                      (int next_channel,
                       st\<lparr>tr51_output_table := Some out,
                          bc_slot := (if bc_slot st + 1 = number_of_bc_channels st then 0 else bc_slot st + 1)\<rparr>))
                    (fhss_channel_index_from_mask (cfg_channel_mask cfg) next_channel (fhss_number_of_channels st)))
           | _ \<Rightarrow> None)
      | WS_DH1CF \<Rightarrow>
          (let st = st\<lparr>bc_slot := bc_slot st + 1\<rparr> in
           case dh1cf_get_bc_channel_index (bc_slot st) (cfg_bsi cfg) (number_of_bc_channels st) of
             None \<Rightarrow> None
           | Some next_channel \<Rightarrow>
               map_option (\<lambda>next_channel. (int next_channel, st))
                 (fhss_channel_index_from_mask (cfg_channel_mask cfg) next_channel (fhss_number_of_channels st)))
      | WS_VENDOR_DEF_CF \<Rightarrow>
          (case cfg_vendor_defined_cf cfg of
             None \<Rightarrow> Some (of_u8 (cfg_broadcast_fixed_channel cfg), st)
           | Some cf \<Rightarrow> Some (cf (bc_slot st) None (cfg_bsi cfg) (fhss_number_of_channels st), st))
      | WS_FIXED_CHANNEL \<Rightarrow> Some (of_u8 (cfg_broadcast_fixed_channel cfg), st))"

text \<open>The channel is stored in \<open>rx_channel\<close>, an \<open>uint8_t\<close>, before it is used.\<close>

definition fhss_ws_own_uc_channel ::
    "(u8 \<Rightarrow> u8 \<Rightarrow> u8 \<Rightarrow> u8 \<Rightarrow> u32) \<Rightarrow> bytes \<Rightarrow> fhss_t \<Rightarrow> fhss_t option" where
  "fhss_ws_own_uc_channel read32 mac st =
     (let cfg = fhss_configuration st in
      case cfg_uc_channel_function cfg of
        WS_TR51CF \<Rightarrow>
          (case (tr51_channel_table st, tr51_output_table st) of
             (Some table, Some out) \<Rightarrow>
               (case tr51_get_uc_channel_index table out (uc_slot st) mac (number_of_uc_channels st) None of
                  None \<Rightarrow> None
                | Some (next_channel, out) \<Rightarrow>
                    map_option (\<lambda>next_channel.
                       st\<lparr>tr51_output_table := Some out, rx_channel := word_of_nat next_channel,
                          uc_slot := (if uc_slot st + 1 = number_of_uc_channels st then 0 else uc_slot st + 1)\<rparr>)
                    (fhss_channel_index_from_mask (cfg_unicast_channel_mask cfg) next_channel (fhss_number_of_channels st)))
           | _ \<Rightarrow> None)
      | WS_DH1CF \<Rightarrow>
          (case dh1cf_get_uc_channel_index read32 (uc_slot st) mac (number_of_uc_channels st) of
             None \<Rightarrow> None
           | Some next_channel \<Rightarrow>
               map_option (\<lambda>next_channel. st\<lparr>rx_channel := word_of_nat next_channel, uc_slot := uc_slot st + 1\<rparr>)
                 (fhss_channel_index_from_mask (cfg_unicast_channel_mask cfg) next_channel (fhss_number_of_channels st)))
      | WS_VENDOR_DEF_CF \<Rightarrow>
          (case cfg_vendor_defined_cf cfg of
             None \<Rightarrow> Some st
           | Some cf \<Rightarrow>
               Some (st\<lparr>rx_channel := word_of_int (cf (bc_slot st) (Some mac) (cfg_bsi cfg) (number_of_uc_channels st))\<rparr>))
      | WS_FIXED_CHANNEL \<Rightarrow> Some st)"

definition fhss_ws_update_uc_channel_callback ::
    "(u8 \<Rightarrow> u8 \<Rightarrow> u8 \<Rightarrow> u8 \<Rightarrow> u32) \<Rightarrow> bytes \<Rightarrow> fhss_t \<Rightarrow> fhss_t option" where
  "fhss_ws_update_uc_channel_callback read32 mac st =
     (if cfg_uc_channel_function (fhss_configuration st) = WS_FIXED_CHANNEL then Some st
      else map_option (\<lambda>st. if is_on_bc_channel st then st else fhss_log (Change_Channel (of_u8 (rx_channel st))) st)
             (fhss_ws_own_uc_channel read32 mac st))"

end
