(* ===== verification/FhssTx.thy ===== *)
theory FhssTx
  imports FhssWs
begin

text \<open>
  When and where a Wi-SUN node transmits, \<open>Service_Libs/fhss/fhss_ws.c\<close>: the transmit and receive slots
  of the unicast interval, the channel of the receiver, and the retries on other channels. The
  conversions of the C type \<open>float\<close> are a parameter \<open>fl\<close>, the rounding of a rational number to it.
\<close>

section \<open>Transmit slots\<close>

definition calc_own_tx_trig_slot :: "u8 \<Rightarrow> u8" where
  "calc_own_tx_trig_slot hop =
     (if hop = 0xff then 0
      else (let hop = (if hop AND 1 \<noteq> 0 then hop - 1 else hop); hop = hop div 2 in hop AND 1))"

abbreviation WS_TXRX_SLOT_LEN_MS_MAX :: u32 where "WS_TXRX_SLOT_LEN_MS_MAX \<equiv> 100"
abbreviation WS_TXRX_SLOT_LEN_MS_MIN :: u32 where "WS_TXRX_SLOT_LEN_MS_MIN \<equiv> 13"

text \<open>\<open>datarate\<close> is the result of the callback, if there is one.\<close>

definition txrx_slot_tmp :: "u32 option \<Rightarrow> u16 \<Rightarrow> u32" where
  "txrx_slot_tmp datarate packet_length =
     (case datarate of
        None \<Rightarrow> WS_TXRX_SLOT_LEN_MS_MAX
      | Some rate \<Rightarrow>
          if rate = 0 then WS_TXRX_SLOT_LEN_MS_MAX
          else let tmp = (ucast packet_length * 2 * (8000000 div rate)) div 1000;
                   tmp = (if tmp > WS_TXRX_SLOT_LEN_MS_MAX then WS_TXRX_SLOT_LEN_MS_MAX else tmp)
               in if tmp < WS_TXRX_SLOT_LEN_MS_MIN then WS_TXRX_SLOT_LEN_MS_MIN else tmp)"

text \<open>The unicast part of the broadcast interval, in 32-bit arithmetic.\<close>

definition uc_interval_ms :: "fhss_t \<Rightarrow> u32" where
  "uc_interval_ms st =
     cfg_broadcast_interval (fhss_configuration st) - ucast (cfg_bc_dwell_interval (fhss_configuration st))"

definition fhss_set_txrx_slot_length :: "u32 option \<Rightarrow> fhss_t \<Rightarrow> fhss_t" where
  "fhss_set_txrx_slot_length datarate st =
     (if cfg_broadcast_interval (fhss_configuration st) = 0 \<or> cfg_bc_dwell_interval (fhss_configuration st) = 0 then st
      else let number_of_tx_slots = (uc_interval_ms st div txrx_slot_tmp datarate (optimal_packet_length st)) div 2
           in if number_of_tx_slots = 0 then st
              else st\<lparr>txrx_slot_length_ms := uc_interval_ms st div (number_of_tx_slots * 2)\<rparr>)"

definition fhss_get_number_of_tx_slots :: "fhss_t \<Rightarrow> u32 option" where
  "fhss_get_number_of_tx_slots st =
     (if txrx_slot_length_ms st = 0 then None else Some ((uc_interval_ms st div txrx_slot_length_ms st) div 2))"

text \<open>\<open>remaining\<close> is the time the broadcast timer has left.\<close>

definition fhss_ws_check_tx_allowed :: "u32 \<Rightarrow> fhss_t \<Rightarrow> bool option" where
  "fhss_ws_check_tx_allowed remaining st =
     (if own_hop st = 0xff then Some True
      else if is_on_bc_channel st then Some True
      else case fhss_get_number_of_tx_slots st of
             None \<Rightarrow> None
           | Some number_of_tx_slots \<Rightarrow>
               if number_of_tx_slots = 0 then Some True
               else
                 let slot = txrx_slot_length_ms st;
                     remaining_time_ms = get_remaining_slots_us remaining
                       (to_u32 (MS_TO_US (of_u32 (cfg_broadcast_interval (fhss_configuration st))))) div 1000;
                     tx_slot_begin_ms = uc_interval_ms st - slot * ucast (own_hop st AND 1)
                 in if tx_slot_begin_ms < remaining_time_ms then Some False
                    else if 2 * slot = 0 then None
                    else
                      let tx_slot_begin_ms = tx_slot_begin_ms -
                            ((tx_slot_begin_ms - remaining_time_ms) div (2 * slot)) * (2 * slot);
                          rx_slot_begin_ms = tx_slot_begin_ms - slot
                      in Some (remaining_time_ms \<le> tx_slot_begin_ms \<and> remaining_time_ms > rx_slot_begin_ms))"

definition fhss_allow_transmitting_on_rx_slot :: "fhss_t \<Rightarrow> bool" where
  "fhss_allow_transmitting_on_rx_slot st \<longleftrightarrow>
     level_at_least (tx_level st) WS_TX_AND_RX_SLOT \<or>
     expedited_forwarding_enabled_us st \<noteq> 0 \<and> level_at_least (ef_tx_level st) WS_TX_AND_RX_SLOT"

definition fhss_allow_unicast_on_broadcast_channel :: "fhss_t \<Rightarrow> bool" where
  "fhss_allow_unicast_on_broadcast_channel st \<longleftrightarrow>
     level_at_least (tx_level st) WS_TX_ALWAYS \<or>
     expedited_forwarding_enabled_us st \<noteq> 0 \<and> level_at_least (ef_tx_level st) WS_TX_ALWAYS"

text \<open>
  The loop of \<open>fhss_ws_get_retry_period_callback\<close>: \<open>start\<close> is the start of the next transmit slot in
  32-bit microseconds, the result the time to wait, or nothing for a slot that has begun.
\<close>

partial_function (option) retry_slot_loop :: "u32 \<Rightarrow> u32 \<Rightarrow> u32 \<Rightarrow> u32 \<Rightarrow> u32 option option" where
  "retry_slot_loop slot_us interval_us cur_time_us start =
     (if start < cur_time_us \<or> start - cur_time_us > interval_us
      then if cur_time_us < start + slot_us div 2 then Some None
           else retry_slot_loop slot_us interval_us cur_time_us (start + slot_us * 2)
      else Some (Some (start - cur_time_us)))"

declare retry_slot_loop.simps [code]

definition fhss_ws_get_retry_period_callback :: "rand \<Rightarrow> u32 \<Rightarrow> u32 \<Rightarrow> fhss_t \<Rightarrow> u32 option" where
  "fhss_ws_get_retry_period_callback rnd cur_time_us remaining st =
     (if \<not> broadcast_timer_running st then Some (ucast (rnd 20000 45000))
      else if own_hop st = 0xff then Some (ucast (rnd 20000 45000))
      else if is_on_bc_channel st then Some 0
      else if fhss_allow_transmitting_on_rx_slot st then Some 0
      else
        let slot_us = to_u32 (MS_TO_US (of_u32 (txrx_slot_length_ms st)));
            interval_us = to_u32 (MS_TO_US (of_u32 (cfg_broadcast_interval (fhss_configuration st))));
            offset = slot_us div 2 * ucast (calc_own_tx_trig_slot (own_hop st));
            start = unicast_start_time_us st + slot_us * ucast (own_hop st AND 1) + offset
        in case retry_slot_loop slot_us interval_us cur_time_us start of
             None \<Rightarrow> None
           | Some None \<Rightarrow> Some 0
           | Some (Some return_value) \<Rightarrow>
               Some (if get_remaining_slots_us remaining interval_us \<le> return_value
                     then return_value + to_u32 (MS_TO_US (of_u8 (cfg_bc_dwell_interval (fhss_configuration st))))
                     else return_value))"

section \<open>The channel of the receiver\<close>

abbreviation DEF_2E24 :: int where "DEF_2E24 \<equiv> 0x1000000"

text \<open>The conversion of a non-negative \<open>float\<close> to \<open>int\<close> cuts the fraction off.\<close>

definition own_floor :: "rat \<Rightarrow> int" where
  "own_floor value = \<lfloor>value\<rfloor>"

definition own_ceil :: "(rat \<Rightarrow> rat) \<Rightarrow> rat \<Rightarrow> int" where
  "own_ceil fl value = (let ivalue = \<lfloor>value\<rfloor> in if value = fl (of_int ivalue) then ivalue else ivalue + 1)"

definition fhss_ws_calculate_destination_slot :: "(rat \<Rightarrow> rat) \<Rightarrow> uc_timing_info_t \<Rightarrow> u32 \<Rightarrow> u16 option" where
  "fhss_ws_calculate_destination_slot fl uc tx_time =
     (let dwell_time = of_u8 (unicast_dwell_interval uc);
          seq_length = (if unicast_channel_function uc = WS_TR51CF
                        then of_u16 (unicast_number_of_channels uc) else 0x10000);
          dest_ms = to_u32 (own_ceil fl (fl (fl (of_int (of_u32 (uc_ufsi uc) * seq_length * dwell_time)) / of_int DEF_2E24)))
      in if dwell_time = 0 \<or> seq_length = 0 then None
         else let ms = US_TO_MS (of_u32 (tx_time - utt_rx_timestamp uc)) + of_u32 dest_ms
              in Some (word_of_int (of_u32 (to_u32 (own_floor (fl (fl (of_int ms) / of_int dwell_time)))) mod seq_length)))"

text \<open>\<open>nb\<close> is the timing information and channel list of the neighbour, if it is known.\<close>

definition fhss_ws_tx_channel ::
    "(rat \<Rightarrow> rat) \<Rightarrow> (u8 \<Rightarrow> u8 \<Rightarrow> u8 \<Rightarrow> u8 \<Rightarrow> u32) \<Rightarrow> uc_timing_info_t \<times> ws_channel_mask_t \<Rightarrow> bytes \<Rightarrow> u32 \<Rightarrow> fhss_t
      \<Rightarrow> (int option \<times> fhss_t) option" where
  "fhss_ws_tx_channel fl read32 nb destination_address tx_time st =
     (case nb of (uc, chans) \<Rightarrow>
        (case fhss_ws_calculate_destination_slot fl uc tx_time of
           None \<Rightarrow> None
         | Some destination_slot \<Rightarrow>
             (case unicast_channel_function uc of
                WS_TR51CF \<Rightarrow>
                  (case (tr51_channel_table st, tr51_output_table st) of
                     (Some table, Some out) \<Rightarrow>
                       (case tr51_get_uc_channel_index table out destination_slot destination_address
                               (unicast_number_of_channels uc) None of
                          None \<Rightarrow> None
                        | Some (tx_channel, out) \<Rightarrow>
                            map_option (\<lambda>tx_channel. (Some (int tx_channel), st\<lparr>tr51_output_table := Some out\<rparr>))
                              (fhss_channel_index_from_mask (channel_mask chans) tx_channel (fhss_number_of_channels st)))
                   | _ \<Rightarrow> None)
              | WS_DH1CF \<Rightarrow>
                  (case dh1cf_get_uc_channel_index read32 destination_slot destination_address (channel_count chans) of
                     None \<Rightarrow> None
                   | Some tx_channel \<Rightarrow>
                       map_option (\<lambda>tx_channel. (Some (int tx_channel), st))
                         (fhss_channel_index_from_mask (channel_mask chans) tx_channel (fhss_number_of_channels st)))
              | WS_VENDOR_DEF_CF \<Rightarrow>
                  (case cfg_vendor_defined_cf (fhss_configuration st) of
                     None \<Rightarrow> Some (None, st)
                   | Some cf \<Rightarrow> Some (Some (cf (bc_slot st) (Some destination_address) (cfg_bsi (fhss_configuration st))
                                              (unicast_number_of_channels uc)), st))
              | WS_FIXED_CHANNEL \<Rightarrow> Some (Some (of_u16 (uc_fixed uc)), st))))"

definition fhss_ws_tx_handle_callback ::
    "(rat \<Rightarrow> rat) \<Rightarrow> (u8 \<Rightarrow> u8 \<Rightarrow> u8 \<Rightarrow> u8 \<Rightarrow> u32) \<Rightarrow> (bytes \<Rightarrow> (uc_timing_info_t \<times> ws_channel_mask_t) option) \<Rightarrow> u32 \<Rightarrow>
     bool \<Rightarrow> bytes \<Rightarrow> u32 \<Rightarrow> fhss_t \<Rightarrow> (int \<times> fhss_t) option" where
  "fhss_ws_tx_handle_callback fl read32 get_neighbor_info remaining is_broadcast_addr destination_address tx_time st =
     (if is_broadcast_addr \<and> is_on_bc_channel st then Some (0, st)
      else if is_broadcast_addr \<and> \<not> is_on_bc_channel st then Some (- 3, st)
      else if \<not> is_broadcast_addr \<and> is_on_bc_channel st
      then if fhss_allow_unicast_on_broadcast_channel st then Some (0, st) else Some (- 3, st)
      else case (if fhss_allow_transmitting_on_rx_slot st then Some True else fhss_ws_check_tx_allowed remaining st) of
             None \<Rightarrow> None
           | Some False \<Rightarrow> Some (- 1, st)
           | Some True \<Rightarrow>
               if fhss_state st = FHSS_SYNCHRONIZED
               then case get_neighbor_info destination_address of
                      None \<Rightarrow> Some (- 2, st)
                    | Some nb \<Rightarrow>
                        if unicast_number_of_channels (fst nb) = 0 then Some (- 2, st)
                        else case fhss_ws_tx_channel fl read32 nb destination_address tx_time st of
                               None \<Rightarrow> None
                             | Some (None, st) \<Rightarrow> Some (- 1, st)
                             | Some (Some tx_channel, st) \<Rightarrow> Some (0, fhss_log (Change_Channel tx_channel) st)
               else Some (0, st))"

section \<open>Transmissions that fail\<close>

definition fhss_check_bad_channel :: "u8 \<Rightarrow> fhss_t \<Rightarrow> bool" where
  "fhss_check_bad_channel handle st \<longleftrightarrow>
     (if cfg_uc_channel_function (fhss_configuration st) = WS_FIXED_CHANNEL then True
      else case fhss_failed_handle_find st handle of
             None \<Rightarrow> True
           | Some k \<Rightarrow> bad_channel (fhss_failed_tx_list st ! k) \<noteq> rx_channel st)"

text \<open>Without \<open>FHSS_WS_PROTECT_MC_SLOTS\<close> \<open>fhss_ws_check_tx_time\<close> is always true.\<close>

definition fhss_ws_check_tx_time :: bool where
  "fhss_ws_check_tx_time = True"

definition fhss_ws_check_tx_conditions_callback :: "u32 \<Rightarrow> bool \<Rightarrow> u8 \<Rightarrow> fhss_t \<Rightarrow> bool option" where
  "fhss_ws_check_tx_conditions_callback remaining is_broadcast_addr handle st =
     (if is_broadcast_addr \<and> \<not> is_on_bc_channel st then Some False
      else if \<not> is_broadcast_addr \<and> is_on_bc_channel st \<and> \<not> fhss_allow_unicast_on_broadcast_channel st then Some False
      else if \<not> fhss_check_bad_channel handle st then Some False
      else if \<not> is_broadcast_addr \<and> \<not> fhss_ws_check_tx_time then Some False
      else if \<not> is_broadcast_addr \<and> \<not> fhss_allow_transmitting_on_rx_slot st then fhss_ws_check_tx_allowed remaining st
      else Some True)"

definition fhss_ws_data_tx_done_callback :: "bool \<Rightarrow> bool \<Rightarrow> u8 \<Rightarrow> fhss_t \<Rightarrow> fhss_t" where
  "fhss_ws_data_tx_done_callback waiting_ack tx_completed handle st =
     (let st = if fhss_state st = FHSS_SYNCHRONIZED \<and> \<not> waiting_ack
               then if \<not> is_on_bc_channel st then fhss_log (Change_Channel (of_u8 (rx_channel st))) st
                    else fhss_log (Change_Channel (of_u8 (bc_channel st))) st
               else st
      in if tx_completed
         then case fhss_failed_handle_find st handle of
                None \<Rightarrow> st
              | Some _ \<Rightarrow> snd (fhss_failed_handle_remove handle st)
         else st)"

text \<open>\<open>ok\<close> is the success of the allocation of a failure entry; \<open>is_data\<close> that the frame is a data frame.\<close>

definition fhss_ws_data_tx_fail_callback :: "bool \<Rightarrow> u8 \<Rightarrow> bool \<Rightarrow> u8 \<Rightarrow> fhss_t \<Rightarrow> bool \<times> fhss_t" where
  "fhss_ws_data_tx_fail_callback ok handle is_data channel st =
     (let retries = cfg_number_of_channel_retries (fhss_configuration st) in
      if fhss_state st = FHSS_UNSYNCHRONIZED then (False, st)
      else if \<not> is_data then (False, st)
      else if retries = 0 then (False, st)
      else case fhss_failed_handle_find st handle of
             Some k \<Rightarrow>
               let e = fhss_failed_tx_list st ! k; e = e\<lparr>retries_done := retries_done e + 1\<rparr>;
                   st = st\<lparr>fhss_failed_tx_list := (fhss_failed_tx_list st)[k := e]\<rparr>
               in if retries_done e \<ge> retries then (False, snd (fhss_failed_handle_remove handle st))
                  else (True, st\<lparr>fhss_failed_tx_list := (fhss_failed_tx_list st)[k := e\<lparr>bad_channel := channel\<rparr>]\<rparr>)
           | None \<Rightarrow> (True, snd (fhss_failed_handle_add ok handle (rx_channel st) st)))"

definition fhss_ws_is_broadcast_channel_callback :: "fhss_t \<Rightarrow> bool" where
  "fhss_ws_is_broadcast_channel_callback st = is_on_bc_channel st"

definition fhss_ws_use_broadcast_queue_cb :: "bool \<Rightarrow> bool" where
  "fhss_ws_use_broadcast_queue_cb is_broadcast_addr = is_broadcast_addr"

end
