(* ===== verification/FhssHandlers.thy ===== *)
theory FhssHandlers
  imports FhssTx
begin

text \<open>
  The schedules of a Wi-SUN node, \<open>Service_Libs/fhss/fhss_ws.c\<close>: the handlers of the broadcast and the
  unicast timer, synchronisation with a parent, and the times written into outgoing frames.
  Everything the handlers read from outside is in a record \<open>fhss_env\<close>: successive time stamps are
  \<open>ts 0\<close>, \<open>ts 1\<close>, \<open>\<dots>\<close>, in the order the handler reads them.
\<close>

record fhss_env =
  ts :: "nat \<Rightarrow> u32"
  remaining_uc :: u32
  remaining_bc :: u32
  env_rnd :: rand
  env_read32 :: "u8 \<Rightarrow> u8 \<Rightarrow> u8 \<Rightarrow> u8 \<Rightarrow> u32"
  own_mac :: bytes
  env_datarate :: "u32 option"
  tx_queue_size :: "bool \<Rightarrow> u16"

abbreviation EXPEDITED_FORWARDING_POLL_PERIOD :: u32 where "EXPEDITED_FORWARDING_POLL_PERIOD \<equiv> 5000 div 50"
abbreviation DEFAULT_POLL_PERIOD :: u32 where "DEFAULT_POLL_PERIOD \<equiv> 10000 div 50"

text \<open>Conversions between the unsigned types and \<open>int32_t\<close>.\<close>

abbreviation to_i32 :: "int \<Rightarrow> int" where "to_i32 x \<equiv> sint (word_of_int x :: u32)"

section \<open>The broadcast timer\<close>

text \<open>
  The delay of the handler, in microseconds, changes the slot, the part of the interval to start and
  the remaining delay.
\<close>

definition bc_delay_update :: "int \<Rightarrow> fhss_t \<Rightarrow> (int \<times> fhss_t) option" where
  "bc_delay_update delay_us st =
     (let bi = of_u32 (cfg_broadcast_interval (fhss_configuration st));
          dwell = of_u8 (cfg_bc_dwell_interval (fhss_configuration st));
          uc = of_u32 (uc_interval_ms st);
          ms = US_TO_MS delay_us
      in if \<not> is_on_bc_channel st
         then let st = st\<lparr>bc_slot := bc_slot st + word_of_int ((ms + uc) sdiv bi)\<rparr>
              in if ms smod bi > dwell
                 then Some (if ms + uc > bi then to_i32 ((MS_TO_US (bi - dwell) + delay_us) smod MS_TO_US bi) else delay_us,
                            st\<lparr>is_on_bc_channel := True\<rparr>)
                 else Some (if ms + uc > bi
                            then to_i32 ((MS_TO_US (bi - dwell) + delay_us) smod MS_TO_US bi - MS_TO_US (bi - dwell))
                            else delay_us, st)
         else let st = st\<lparr>bc_slot := bc_slot st + word_of_int ((ms + dwell) sdiv bi)\<rparr>;
                  st = (if ms smod bi > uc then st\<lparr>is_on_bc_channel := False\<rparr> else st);
                  delay_us = to_i32 (delay_us smod MS_TO_US bi)
              in if bi - dwell = 0 then None else Some (to_i32 (delay_us smod MS_TO_US (bi - dwell)), st))"

definition bc_event_timer :: "rand \<Rightarrow> fhss_t \<Rightarrow> fhss_t" where
  "bc_event_timer rnd st =
     (if expedited_forwarding_enabled_us st \<noteq> 0 then fhss_log (Event_Timer_Start EXPEDITED_FORWARDING_POLL_PERIOD) st
      else let bc_dwell_us = to_u32 (MS_TO_US (of_u8 (cfg_bc_dwell_interval (fhss_configuration st))));
               bc_min_random = ucast (bc_dwell_us div 50 div 50);
               bc_max_random = ucast ((bc_dwell_us - bc_dwell_us div 4) div 50)
           in fhss_log (Event_Timer_Start (ucast (rnd bc_min_random bc_max_random))) st)"

definition uc_event_timer :: "rand \<Rightarrow> u32 \<Rightarrow> fhss_t \<Rightarrow> fhss_t option" where
  "uc_event_timer rnd remaining st =
     (if expedited_forwarding_enabled_us st \<noteq> 0 then Some (fhss_log (Event_Timer_Start EXPEDITED_FORWARDING_POLL_PERIOD) st)
      else
        let own_tx_trig_slot = ucast (calc_own_tx_trig_slot (own_hop st));
            slot_us = to_u32 (MS_TO_US (of_u32 (txrx_slot_length_ms st)));
            uc_min_random = ucast ((slot_us div 2 * own_tx_trig_slot) div 50 + slot_us div 100 div 50);
            uc_max_random = ucast ((slot_us div 2 * own_tx_trig_slot) div 50 + slot_us div 5 div 50)
        in case fhss_ws_check_tx_allowed remaining st of
             None \<Rightarrow> None
           | Some tx_allowed \<Rightarrow>
               let uc_min_random = (if tx_allowed then uc_min_random else uc_min_random + ucast (slot_us div 50));
                   uc_max_random = (if tx_allowed then uc_max_random else uc_max_random + ucast (slot_us div 50))
               in Some (fhss_log (Event_Timer_Start (ucast (rnd uc_min_random uc_max_random))) st))"

text \<open>
  The order of the time stamps: the delay, then the start of the unicast interval where it is
  stored, then the start of the timer.
\<close>

definition fhss_broadcast_handler :: "fhss_env \<Rightarrow> fhss_t \<Rightarrow> fhss_t option" where
  "fhss_broadcast_handler env st =
     (let cfg = fhss_configuration st in
      if cfg_bc_dwell_interval cfg = 0 \<or> cfg_broadcast_interval cfg = 0
      then Some (st\<lparr>is_on_bc_channel := False, synchronization_time := 0, broadcast_timer_running := False\<rparr>)
      else
        let delay_us = (if bc_slot st = 0 \<and> next_bc_timeout st = 0 then 0 else sint (ts env 0 - next_bc_timeout st)) in
        case bc_delay_update delay_us st of
          None \<Rightarrow> None
        | Some (delay_us, st) \<Rightarrow>
            if cfg_bc_channel_function cfg = WS_TR51CF \<and> number_of_bc_channels st = 0 then None
            else
              let st = (if cfg_bc_channel_function cfg = WS_TR51CF
                        then st\<lparr>bc_slot := bc_slot st mod number_of_bc_channels st\<rparr> else st);
                  bi = of_u32 (cfg_broadcast_interval cfg); dwell = of_u8 (cfg_bc_dwell_interval cfg);
                  delay = delay_us * of_u8 (fhss_resolution_divider st)
              in if \<not> is_on_bc_channel st
                 then let st = fhss_ws_start_timer (ts env 1) (to_u32 (MS_TO_US dwell - delay)) fhss_broadcast_timer st;
                          st = st\<lparr>is_on_bc_channel := True\<rparr>
                      in case fhss_ws_calc_bc_channel st of
                           None \<Rightarrow> None
                         | Some (next_channel, st) \<Rightarrow>
                             let st = st\<lparr>bc_channel := word_of_int next_channel\<rparr>;
                                 st = bc_event_timer (env_rnd env) st
                             in Some (fhss_log (Change_Channel (of_u8 (bc_channel st))) st)
                 else let st = st\<lparr>unicast_start_time_us := ts env 1\<rparr>;
                          timeout = to_u32 (MS_TO_US (bi - dwell));
                          st = fhss_ws_start_timer (ts env 2) (timeout - word_of_int delay) fhss_broadcast_timer st;
                          st = st\<lparr>is_on_bc_channel := False\<rparr>
                      in map_option (\<lambda>st. fhss_log (Change_Channel (of_u8 (rx_channel st))) st)
                           (uc_event_timer (env_rnd env) (remaining_bc env) st))"

section \<open>The unicast timer\<close>

definition fhss_ws_get_sf_timeout_callback :: "fhss_t \<Rightarrow> u32" where
  "fhss_ws_get_sf_timeout_callback st = to_u32 (MS_TO_US (of_u8 (cfg_uc_dwell_interval (fhss_configuration st))))"

definition fhss_unicast_handler :: "fhss_env \<Rightarrow> fhss_t \<Rightarrow> fhss_t option" where
  "fhss_unicast_handler env st =
     (let cfg = fhss_configuration st;
          delay_us = (if uc_slot st = 0 \<and> next_uc_timeout st = 0 then 0 else sint (ts env 0 - next_uc_timeout st));
          dwell = of_u8 (cfg_uc_dwell_interval cfg)
      in if dwell = 0 \<or> cfg_uc_channel_function cfg = WS_TR51CF \<and> number_of_uc_channels st = 0 then None
         else
           let st = (if cfg_uc_channel_function cfg \<noteq> WS_FIXED_CHANNEL
                     then st\<lparr>uc_slot := uc_slot st + word_of_int (US_TO_MS delay_us sdiv dwell)\<rparr> else st);
               st = (if cfg_uc_channel_function cfg = WS_TR51CF
                     then st\<lparr>uc_slot := uc_slot st mod number_of_uc_channels st\<rparr> else st);
               delay_us = to_i32 (delay_us smod MS_TO_US dwell);
               timeout = fhss_ws_get_sf_timeout_callback st
           in if timeout = 0 then Some ((fhss_stop_timer fhss_unicast_timer st)\<lparr>unicast_timer_running := False\<rparr>)
              else
                let st = fhss_ws_start_timer (ts env 1) (timeout - word_of_int (delay_us * of_u8 (fhss_resolution_divider st)))
                           fhss_unicast_timer st;
                    st = st\<lparr>unicast_timer_running := True\<rparr>
                in map_option (\<lambda>st. if (cfg_broadcast_interval cfg = 0 \<or> cfg_bc_dwell_interval cfg = 0) \<and>
                                       tx_queue_size env False \<noteq> 0 then fhss_log Tx_Poll st else st)
                     (fhss_ws_update_uc_channel_callback (env_read32 env) (own_mac env) st))"

section \<open>Polling the transmit queue\<close>

definition fhss_event_timer_cb :: "fhss_env \<Rightarrow> fhss_t \<Rightarrow> fhss_t option" where
  "fhss_event_timer_cb env st =
     (let poll = (\<lambda>bc st. if tx_queue_size env bc \<noteq> 0 then fhss_log Tx_Poll st else st) in
      if expedited_forwarding_enabled_us st \<noteq> 0
      then let st = (if of_u32 (ts env 0 - expedited_forwarding_enabled_us st) > S_TO_US 5
                     then st\<lparr>expedited_forwarding_enabled_us := 0\<rparr> else st);
               st = fhss_log (Event_Timer_Start EXPEDITED_FORWARDING_POLL_PERIOD) st
           in Some (poll (is_on_bc_channel st) st)
      else if \<not> unicast_timer_running st \<and> \<not> broadcast_timer_running st
      then Some (poll False (fhss_log (Event_Timer_Start DEFAULT_POLL_PERIOD) st))
      else if is_on_bc_channel st then Some (poll True st)
      else
        let slot = of_u32 (txrx_slot_length_ms st);
            delay = to_u32 (MS_TO_US slot * 2)
        in case fhss_ws_check_tx_allowed (remaining_bc env) st of
             None \<Rightarrow> None
           | Some allowed \<Rightarrow>
               let delay = (if allowed then delay
                            else delay - to_u32 (MS_TO_US (of_u32 (txrx_slot_length_ms st -
                                   ucast (calc_own_tx_trig_slot (own_hop st)) * (txrx_slot_length_ms st div 2)))));
                   max_timeout = to_u32 (MS_TO_US (of_u32 (cfg_broadcast_interval (fhss_configuration st))));
                   st = (if delay < get_remaining_slots_us (remaining_bc env) max_timeout
                         then fhss_log (Event_Timer_Start (delay div 50)) st else st)
               in Some (poll False st))"

section \<open>The state of the synchronisation\<close>

definition fhss_ws_synch_state_set_callback :: "fhss_env \<Rightarrow> fhss_states \<Rightarrow> fhss_t \<Rightarrow> (int \<times> fhss_t) option" where
  "fhss_ws_synch_state_set_callback env state st =
     (if state = FHSS_EXPEDITED_FORWARDING
      then let st = (if expedited_forwarding_enabled_us st = 0
                     then fhss_log (Event_Timer_Start EXPEDITED_FORWARDING_POLL_PERIOD) st else st);
               now = ts env 0
           in Some (0, st\<lparr>expedited_forwarding_enabled_us := (if now = 0 then 1 else now)\<rparr>)
      else
        let finish = (\<lambda>st. Some (of_u8 (if is_on_bc_channel st then bc_channel st else rx_channel st),
                                 st\<lparr>fhss_state := state\<rparr>))
        in if state = FHSS_SYNCHRONIZED
           then let st = fhss_set_txrx_slot_length (env_datarate env) st;
                    cfg = fhss_configuration st
                in case (if cfg_broadcast_interval cfg \<noteq> 0 \<and> cfg_bc_dwell_interval cfg \<noteq> 0
                         then map_option (\<lambda>st. st\<lparr>broadcast_timer_running := True\<rparr>) (fhss_broadcast_handler env st)
                         else Some st) of
                     None \<Rightarrow> None
                   | Some st \<Rightarrow>
                       (case (if cfg_uc_channel_function cfg \<noteq> WS_FIXED_CHANNEL
                              then map_option (\<lambda>st. (fhss_ws_start_timer (ts env 3)
                                       (to_u32 (MS_TO_US (of_u8 (cfg_uc_dwell_interval cfg)))) fhss_unicast_timer st)
                                       \<lparr>unicast_timer_running := True\<rparr>)
                                     (fhss_ws_update_uc_channel_callback (env_read32 env) (own_mac env) st)
                              else Some st) of
                          None \<Rightarrow> None
                        | Some st \<Rightarrow> finish st)
           else finish ((fhss_stop_timer fhss_broadcast_timer (fhss_stop_timer fhss_unicast_timer
                           (fhss_log Event_Timer_Stop (st\<lparr>synchronization_time := 0\<rparr>))))
                         \<lparr>broadcast_timer_running := False, is_on_bc_channel := False, synchronization_time := 0\<rparr>))"

section \<open>Synchronisation with the parent\<close>

definition time_to_tx_ms :: "u32 \<Rightarrow> u32 \<Rightarrow> u32" where
  "time_to_tx_ms cur_time tx_time =
     (if cur_time < tx_time then to_u32 (US_TO_MS (of_u32 (tx_time - cur_time))) else 0)"

definition fhss_ws_calculate_broadcast_interval_offset :: "u32 \<Rightarrow> u32 \<Rightarrow> u32 \<Rightarrow> fhss_t \<Rightarrow> u32" where
  "fhss_ws_calculate_broadcast_interval_offset remaining cur_time tx_time st =
     (let bi = cfg_broadcast_interval (fhss_configuration st);
          dwell = ucast (cfg_bc_dwell_interval (fhss_configuration st));
          remaining_time_ms = to_u32 (US_TO_MS (of_u32 (get_remaining_slots_us remaining (to_u32 (MS_TO_US (of_u32 bi))))));
          remaining_time_ms = (if is_on_bc_channel st then remaining_time_ms + (bi - dwell) else remaining_time_ms)
      in (bi - remaining_time_ms) + time_to_tx_ms cur_time tx_time)"

text \<open>
  The correction of the clock drift, at most 10 ns per millisecond and step, is not stored on Linux
  (\<open>linux\<close>). The time stamps are read for the check of the interval, the new synchronisation time, the
  offset, the age of the information and the start of the timer.
\<close>

definition fhss_drift_step :: "u32 \<Rightarrow> u32 \<Rightarrow> u16 \<Rightarrow> u16 \<Rightarrow> u32 \<Rightarrow> u32 \<Rightarrow> int" where
  "fhss_drift_step true_offset own_offset slot own_slot bi time_since_us =
     (let err = of_u32 (true_offset - own_offset) + of_u32 (word_of_int (of_u16 slot - of_u16 own_slot) * bi);
          drift = to_i32 (divide_integer (to_i32 (err * 1000000)) (to_i32 (US_TO_MS (of_u32 time_since_us))))
      in if drift > 10 then 10 else if drift < - 10 then - 10 else drift)"

definition fhss_ws_set_parent :: "bool \<Rightarrow> fhss_env \<Rightarrow> bc_timing_info_t \<Rightarrow> bool \<Rightarrow> fhss_t \<Rightarrow> (int \<times> fhss_t) option" where
  "fhss_ws_set_parent linux env bc force_synch st =
     (let bi = broadcast_interval bc; dwell = broadcast_dwell_interval bc in
      if bi = 0 \<or> dwell = 0 then Some (- 1, st)
      else if to_u32 (S_TO_US (of_u16 (min_synch_interval st))) > ts env 0 - synchronization_time st \<and> \<not> force_synch
      then Some (0, st)
      else
        let own_bc_slot = bc_slot st;
            prev_synchronization_time = synchronization_time st;
            st = st\<lparr>synchronization_time := ts env 1\<rparr>;
            time_since_last_synch_us = synchronization_time st - prev_synchronization_time;
            own_offset = fhss_ws_calculate_broadcast_interval_offset (remaining_bc env) (ts env 2) (synchronization_time st) st;
            st = fhss_stop_timer fhss_broadcast_timer st;
            time_from_reception_ms = to_u32 (US_TO_MS (of_u32 (ts env 3 - bt_rx_timestamp bc)));
            true_offset = (broadcast_interval_offset bc + time_from_reception_ms) mod bi;
            st = (if true_offset \<ge> ucast dwell then st\<lparr>is_on_bc_channel := False\<rparr> else st);
            timeout = to_u32 (MS_TO_US (of_u32 bi - of_u32 true_offset));
            timeout = (if is_on_bc_channel st
                       then timeout - to_u32 (MS_TO_US (of_u32 bi - of_u8 dwell)) else timeout);
            st = fhss_ws_start_timer (ts env 4) timeout fhss_broadcast_timer st;
            st = st\<lparr>broadcast_timer_running := True\<rparr>;
            slots_since_reception = ucast ((broadcast_interval_offset bc + time_from_reception_ms) div bi);
            cfg = (fhss_configuration st)\<lparr>cfg_bc_dwell_interval := dwell, cfg_broadcast_interval := bi\<rparr>;
            st = fhss_set_txrx_slot_length (env_datarate env) (st\<lparr>fhss_configuration := cfg\<rparr>);
            st = st\<lparr>bc_slot := (if cfg_bc_channel_function cfg = WS_FIXED_CHANNEL then 0
                                 else broadcast_slot bc + slots_since_reception)\<rparr>
        in if cfg_bc_channel_function cfg = WS_TR51CF \<and> fhss_number_of_channels st = 0 then None
           else
             let st = (if cfg_bc_channel_function cfg = WS_TR51CF
                       then st\<lparr>bc_slot := bc_slot st mod fhss_number_of_channels st\<rparr> else st);
                 st = st\<lparr>parent_bc_info := Some bc\<rparr>;
                 st = (if prev_synchronization_time \<noteq> 0 \<and> cfg_bc_channel_function cfg \<noteq> WS_FIXED_CHANNEL \<and>
                          60 \<le> US_TO_S (of_u32 time_since_last_synch_us) \<and> \<not> linux
                       then st\<lparr>drift_per_millisecond_ns := drift_per_millisecond_ns st +
                              fhss_drift_step true_offset own_offset (bc_slot st) own_bc_slot bi time_since_last_synch_us\<rparr>
                       else st)
             in Some (0, st))"

section \<open>Times in outgoing frames\<close>

definition fhss_ws_calculate_ufsi :: "(rat \<Rightarrow> rat) \<Rightarrow> u32 \<Rightarrow> u32 \<Rightarrow> u32 \<Rightarrow> fhss_t \<Rightarrow> u32 option" where
  "fhss_ws_calculate_ufsi fl remaining cur_time tx_time st =
     (let cfg = fhss_configuration st;
          tr51 = cfg_uc_channel_function cfg = WS_TR51CF;
          dwell_time = of_u8 (cfg_uc_dwell_interval cfg);
          cur_slot = (if tr51 \<and> uc_slot st = 0 then number_of_uc_channels st else uc_slot st) - 1;
          remaining_time_ms =
            (if unicast_timer_running st
             then to_u32 (US_TO_MS (of_u32 (get_remaining_slots_us remaining
                    (to_u32 (MS_TO_US dwell_time - NS_TO_US (drift_per_millisecond_ns st * dwell_time)))))) else 0);
          ms_since_seq_start = of_u32 (to_u32 (of_u16 cur_slot * dwell_time) + (to_u32 dwell_time - remaining_time_ms) +
                                       time_to_tx_ms cur_time tx_time);
          seq_length = (if tr51 then of_u16 (number_of_uc_channels st) else 0x10000)
      in if dwell_time = 0 \<or> tr51 \<and> number_of_uc_channels st = 0 then None
         else
           let ms = (if tr51 then ms_since_seq_start mod (dwell_time * of_u16 (number_of_uc_channels st)) else ms_since_seq_start)
           in Some (to_u32 (own_floor (fl (fl (of_int (ms * DEF_2E24)) / fl (of_int (of_u32 (to_u32 (seq_length * dwell_time)))))))))"

text \<open>
  The search for a Wi-SUN header information element in a frame. \<open>read16\<close> is
  \<open>common_read_16_bit_inverse\<close>; the length of an element is a field of seven bits. The result is the
  position and the length of the content behind the sub-id.
\<close>

partial_function (option) fhss_ws_ie_header_discover_loop ::
    "(u8 \<Rightarrow> u8 \<Rightarrow> u16) \<Rightarrow> bytes \<Rightarrow> nat \<Rightarrow> u16 \<Rightarrow> u8 \<Rightarrow> u8 \<Rightarrow> (nat \<times> nat) option option" where
  "fhss_ws_ie_header_discover_loop read16 frame pos len wanted sub_id =
     (if len > 2
      then if pos + 1 \<ge> length frame then None
           else
             let ie_dummy = read16 (frame ! pos) (frame ! (pos + 1));
                 ie_length = ie_dummy AND 0x7f;
                 ie_id = ucast (drop_bit 7 (ie_dummy AND 0x7f80)) :: u8
             in if ie_length \<noteq> 0 \<and> wanted = ie_id \<and> pos + 2 \<ge> length frame then None
                else if ie_length \<noteq> 0 \<and> wanted = ie_id \<and> frame ! (pos + 2) = sub_id
                then Some (Some (pos + 3, unat (ie_length - 1)))
                else fhss_ws_ie_header_discover_loop read16 frame (pos + 2 + unat ie_length) (len - (ie_length + 2)) wanted sub_id
      else Some None)"

declare fhss_ws_ie_header_discover_loop.simps [code]

definition fhss_ws_ie_header_discover ::
    "(u8 \<Rightarrow> u8 \<Rightarrow> u16) \<Rightarrow> bytes \<Rightarrow> u16 \<Rightarrow> u8 \<Rightarrow> u8 \<Rightarrow> (nat \<times> nat) option option" where
  "fhss_ws_ie_header_discover read16 frame len wanted sub_id = fhss_ws_ie_header_discover_loop read16 frame 0 len wanted sub_id"

definition write_bytes :: "nat \<Rightarrow> bytes \<Rightarrow> bytes \<Rightarrow> bytes option" where
  "write_bytes pos bs frame =
     (if pos + length bs \<le> length frame then Some (take pos frame @ bs @ drop (pos + length bs) frame) else None)"

text \<open>
  The UTT element gets the fractional sequence interval, the BT element the broadcast slot and the
  offset in its interval; \<open>write16\<close> and \<open>write24\<close> are the inverse writes. An element whose content has
  the length zero is not filled in.
\<close>

definition fhss_ws_write_synch_info_callback ::
    "(rat \<Rightarrow> rat) \<Rightarrow> (u8 \<Rightarrow> u8 \<Rightarrow> u16) \<Rightarrow> (u16 \<Rightarrow> bytes) \<Rightarrow> (u32 \<Rightarrow> bytes) \<Rightarrow> fhss_env \<Rightarrow> u8 \<Rightarrow> bool \<Rightarrow> u32 \<Rightarrow> bytes
      \<Rightarrow> fhss_t \<Rightarrow> (int \<times> bytes) option" where
  "fhss_ws_write_synch_info_callback fl read16 write16 write24 env len is_data tx_time frame st =
     (if \<not> is_data then Some (- 1, frame)
      else case (case fhss_ws_ie_header_discover read16 frame (ucast len) 0x2a 1 of
                   None \<Rightarrow> None
                 | Some None \<Rightarrow> Some frame
                 | Some (Some (pos, n)) \<Rightarrow>
                     if n = 0 then Some frame
                     else case fhss_ws_calculate_ufsi fl (remaining_uc env) (ts env 0) tx_time st of
                            None \<Rightarrow> None
                          | Some u \<Rightarrow> write_bytes (pos + 1) (write24 u) frame) of
             None \<Rightarrow> None
           | Some frame \<Rightarrow>
               (case fhss_ws_ie_header_discover read16 frame (ucast len) 0x2a 2 of
                  None \<Rightarrow> None
                | Some None \<Rightarrow> Some (of_u8 (rx_channel st), frame)
                | Some (Some (pos, n)) \<Rightarrow>
                    if n = 0 then Some (of_u8 (rx_channel st), frame)
                    else case write_bytes pos (write16 (bc_slot st)) frame of
                           None \<Rightarrow> None
                         | Some frame \<Rightarrow>
                             map_option (\<lambda>frame. (of_u8 (rx_channel st), frame))
                               (write_bytes (pos + 2)
                                  (write24 (fhss_ws_calculate_broadcast_interval_offset (remaining_bc env) (ts env 1) tx_time st))
                                  frame)))"

end
