(* ===== verification/FhssSlots.thy ===== *)
theory FhssSlots
  imports FhssTx
begin

text \<open>
  The transmit slots of \<open>FhssTx\<close>: the unicast interval is cut into slots of equal length, which
  belong in turn to the nodes with an even and with an odd hop count.
\<close>

section \<open>Words\<close>

lemma unat_u8_u32: "unat (ucast (x :: u8) :: u32) = unat x"
  using unat_u8_lt [of x] by (simp add: unsigned_ucast_eq take_bit_nat_eq_self)

lemma unat_and_1: "unat ((h :: 'a::len word) AND 1) = unat h mod 2"
  by (subst unsigned_and_eq) (simp add: and_one_eq)

lemma unat_times_small:
  fixes a b :: u32
  assumes "unat a * unat b < 4294967296"
  shows "unat (a * b) = unat a * unat b"
  using assms by (simp add: unat_word_ariths)

lemma unat_plus_small:
  fixes a b :: u32
  assumes "unat a + unat b < 4294967296"
  shows "unat (a + b) = unat a + unat b"
  using assms by (simp add: unat_word_ariths)

lemma sub_wraps:
  fixes x y :: u32
  assumes "x < y"
  shows "x \<le> x - y"
  using assms unat_u32_lt [of y] unfolding word_le_nat_alt word_less_nat_alt
  by (simp add: unat_sub_if_size word_size)

lemma unat_to_u32: "n < 4294967296 \<Longrightarrow> unat (to_u32 (int n)) = n"
  by (simp add: unat_of_nat)

lemma unat_ms_to_us: "n \<le> 4294967 \<Longrightarrow> unat (to_u32 (MS_TO_US (int n))) = 1000 * n"
  using unat_to_u32 [of "n * 1000"] by simp

section \<open>The slot a node may transmit in\<close>

definition uc_elapsed_ms :: "u32 \<Rightarrow> fhss_t \<Rightarrow> nat" where
  "uc_elapsed_ms remaining st = unat (uc_interval_ms st) - unat remaining div 1000"

definition in_uc_interval :: "u32 \<Rightarrow> fhss_t \<Rightarrow> bool" where
  "in_uc_interval remaining st \<longleftrightarrow> \<not> is_on_bc_channel st \<and>
     unat (cfg_bc_dwell_interval (fhss_configuration st)) \<le> unat (cfg_broadcast_interval (fhss_configuration st)) \<and>
     unat (cfg_broadcast_interval (fhss_configuration st)) \<le> 4294967 \<and>
     unat remaining div 1000 \<le> unat (uc_interval_ms st) \<and>
     unat remaining \<le> 1000 * unat (cfg_broadcast_interval (fhss_configuration st)) \<and>
     txrx_slot_length_ms st \<noteq> 0 \<and> 2 * unat (txrx_slot_length_ms st) \<le> unat (uc_interval_ms st)"

lemma slot_arith:
  fixes L s h r :: nat
  assumes "0 < s" and "h \<le> 1" and "2 * s \<le> L" and "r \<le> L"
  defines "tb \<equiv> L - s * h - (L - s * h - r) div (2 * s) * (2 * s)"
  shows "(r \<le> L - s * h \<and> s \<le> tb \<and> r > tb - s) \<longleftrightarrow> ((L - r) div s) mod 2 = h \<and> ((L - r) div s + 1) * s \<le> L"
proof (cases "r \<le> L - s * h")
  case True
  define k m where "k = (L - s * h - r) div (2 * s)" and "m = (L - s * h - r) mod (2 * s)"
  have sh: "s * h \<le> L" using assms(2,3) by (cases h) simp_all
  have d: "L - s * h - r = k * (2 * s) + m" unfolding k_def m_def by (simp only: div_mult_mod_eq)
  have m: "m < 2 * s" unfolding m_def using assms(1) by simp
  have tb: "tb = r + m" using d True unfolding tb_def k_def [symmetric] by linarith
  have e: "L - r = s * (h + 2 * k) + m" using d sh True by (simp add: algebra_simps)
  show ?thesis
  proof (cases "m < s")
    case low: True
    have q: "(L - r) div s = h + 2 * k" using e low assms(1) by simp
    have "h mod 2 = h" using assms(2) by simp
    then have "((L - r) div s) mod 2 = h" unfolding q by simp
    moreover have "((L - r) div s + 1) * s = L - r - m + s" unfolding q using e by (simp add: algebra_simps)
    then have "((L - r) div s + 1) * s \<le> L \<longleftrightarrow> s \<le> tb"
      unfolding tb using e low assms(4) by linarith
    moreover have "r > tb - s \<or> tb < s" unfolding tb using low by linarith
    ultimately show ?thesis using True by auto
  next
    case high: False
    have "L - r = s * (h + 2 * k + 1) + (m - s)" using e high by (simp add: algebra_simps)
    moreover have "m - s < s" using m high by linarith
    ultimately have "(L - r) div s = h + 2 * k + 1" by (intro div_nat_eqI) simp_all
    moreover from assms(2) have "h = 0 \<or> h = 1" by linarith
    ultimately have "((L - r) div s) mod 2 \<noteq> h" by (elim disjE) simp_all
    moreover have "\<not> r > tb - s" unfolding tb using high by linarith
    ultimately show ?thesis by blast
  qed
next
  case False
  have "h = 1" using False assms(2,4) by (cases h) auto
  then have "L - r < s" using False assms(1,3) by simp
  with False \<open>h = 1\<close> show ?thesis by simp
qed

lemma fhss_ws_check_tx_allowed_iff:
  assumes "own_hop st \<noteq> 0xff" and "in_uc_interval remaining st"
  shows "fhss_ws_check_tx_allowed remaining st =
    Some ((uc_elapsed_ms remaining st div unat (txrx_slot_length_ms st)) mod 2 = unat (own_hop st) mod 2 \<and>
          (uc_elapsed_ms remaining st div unat (txrx_slot_length_ms st) + 1) * unat (txrx_slot_length_ms st)
            \<le> unat (uc_interval_ms st))"
proof -
  let ?s = "txrx_slot_length_ms st" and ?L = "uc_interval_ms st" and ?bi = "cfg_broadcast_interval (fhss_configuration st)"
  let ?h = "ucast (own_hop st AND 1) :: u32"
  let ?r = "get_remaining_slots_us remaining (to_u32 (MS_TO_US (of_u32 ?bi))) div 1000"
  note U = assms(2) [unfolded in_uc_interval_def]
  have Lbi: "unat ?L \<le> unat ?bi"
    using U unat_u8_u32 by (simp add: uc_interval_ms_def unat_sub word_le_nat_alt)
  have s: "0 < unat ?s" "2 * unat ?s \<le> unat ?L" using U by (simp_all add: unat_gt_0)
  have h: "unat ?h = unat (own_hop st) mod 2" by (simp only: unat_u8_u32 unat_and_1)
  have big: "unat (to_u32 (MS_TO_US (of_u32 ?bi))) = 1000 * unat ?bi"
    using U by (intro unat_ms_to_us) simp
  have r: "unat ?r = unat remaining div 1000"
    using U big by (simp add: get_remaining_slots_us_def word_less_nat_alt unat_div_distrib)
  have le1: "unat ?s * unat ?h \<le> unat ?s * 1" by (intro mult_le_mono2) (simp add: h)
  then have sh: "unat (?s * ?h) = unat ?s * unat ?h"
    using s Lbi U by (intro unat_times_small) linarith
  have tb: "unat (?L - ?s * ?h) = unat ?L - unat ?s * unat ?h"
    using s sh le1 by (subst unat_sub) (simp_all only: word_le_nat_alt)
  have s2: "unat (2 * ?s) = 2 * unat ?s" using s Lbi U by (subst unat_times_small) simp_all
  have slots: "(?L div ?s) div 2 \<noteq> 0"
  proof -
    have "2 \<le> unat ?L div unat ?s" using s by (simp add: less_eq_div_iff_mult_less_eq)
    then have "unat ((?L div ?s) div 2) \<noteq> 0" by (simp add: unat_div_distrib)
    then show ?thesis by auto
  qed
  let ?first = "?L - ?s * ?h"
  let ?tb = "?first - (?first - ?r) div (2 * ?s) * (2 * ?s)"
  define tb' where "tb' = unat ?L - unat ?s * unat ?h - (unat ?L - unat ?s * unat ?h - unat ?r) div (2 * unat ?s) * (2 * unat ?s)"
  have arith: "(unat ?r \<le> unat ?L - unat ?s * unat ?h \<and> unat ?s \<le> tb' \<and> unat ?r > tb' - unat ?s) \<longleftrightarrow>
      ((unat ?L - unat ?r) div unat ?s) mod 2 = unat ?h \<and> ((unat ?L - unat ?r) div unat ?s + 1) * unat ?s \<le> unat ?L"
    unfolding tb'_def by (rule slot_arith) (use s U h r in simp_all)
  have nz: "2 * ?s \<noteq> 0" using s2 s by auto
  have start: "fhss_ws_check_tx_allowed remaining st =
      (if ?first < ?r then Some False else Some (?r \<le> ?tb \<and> ?r > ?tb - ?s))"
    using assms(1) U slots nz
    by (cases "?first < ?r") (simp_all add: fhss_ws_check_tx_allowed_def fhss_get_number_of_tx_slots_def Let_def)
  show ?thesis
  proof (cases "?first < ?r")
    case True
    then have "\<not> unat ?r \<le> unat ?L - unat ?s * unat ?h" using tb by (simp add: word_less_nat_alt)
    then show ?thesis using start True arith by (simp add: uc_elapsed_ms_def h flip: r)
  next
    case False
    then have le: "?r \<le> ?first" "unat ?r \<le> unat ?L - unat ?s * unat ?h" using tb by (simp_all add: word_less_nat_alt word_le_nat_alt)
    let ?q = "(?first - ?r) div (2 * ?s)"
    have q: "unat ?q = (unat ?L - unat ?s * unat ?h - unat ?r) div (2 * unat ?s)"
      using le tb s2 by (simp only: unat_div_distrib unat_sub)
    have qle: "unat ?q * unat (2 * ?s) \<le> unat ?first - unat ?r" unfolding q s2 tb by simp
    then have qs: "unat (?q * (2 * ?s)) = unat ?q * unat (2 * ?s)"
      using unat_u32_lt [of ?first] by (intro unat_times_small) linarith
    have "?q * (2 * ?s) \<le> ?first" unfolding word_le_nat_alt qs using qle by linarith
    then have "unat ?tb = unat ?first - unat (?q * (2 * ?s))" by (rule unat_sub)
    then have ub: "unat ?tb = tb'" unfolding qs tb q s2 tb'_def .
    have "tb' = unat ?first - unat ?q * unat (2 * ?s)" unfolding tb'_def tb q s2 ..
    then have "unat ?r \<le> tb'" using qle le(1) [unfolded word_le_nat_alt] by linarith
    then have rtb: "?r \<le> ?tb" by (simp only: word_le_nat_alt ub)
    have "?r > ?tb - ?s \<longleftrightarrow> unat ?s \<le> tb' \<and> unat ?r > tb' - unat ?s"
    proof (cases "?s \<le> ?tb")
      case True
      then show ?thesis using ub by (simp add: word_less_nat_alt word_le_nat_alt unat_sub)
    next
      case wrap: False
      then have lt: "unat ?tb < unat ?s" by (simp add: word_le_nat_alt)
      have "?tb \<le> ?tb - ?s" using wrap by (intro sub_wraps) simp
      then have "\<not> ?r > ?tb - ?s" using rtb by simp
      then show ?thesis using lt ub by simp
    qed
    then show ?thesis using start False rtb arith le(2) by (simp add: uc_elapsed_ms_def h flip: r)
  qed
qed

section \<open>Waiting for the next slot\<close>

lemma retry_slot_loop_spec:
  assumes "0 < unat slot" and "2 * unat slot \<le> unat interval" and "unat cur + 3 * unat slot < 4294967296"
    and "unat start \<le> unat cur + unat interval" and "unat start + unat slot < 4294967296"
  shows "\<exists>k r. retry_slot_loop slot interval cur start = Some r \<and>
    (case r of None \<Rightarrow> unat start + 2 * unat slot * k \<le> unat cur \<and> unat cur < unat start + 2 * unat slot * k + unat slot div 2
     | Some w \<Rightarrow> unat cur + unat w = unat start + 2 * unat slot * k)"
  using assms(4,5)
proof (induction "unat cur - unat start" arbitrary: start rule: less_induct)
  case less
  have half: "unat (start + slot div 2) = unat start + unat slot div 2"
    using less.prems(2) by (subst unat_add_lem [THEN iffD1]) (simp_all add: unat_div_distrib)
  show ?case
  proof (cases "start < cur")
    case True
    then have lt: "unat start < unat cur" by (simp add: word_less_nat_alt)
    show ?thesis
    proof (cases "cur < start + slot div 2")
      case True
      then have "retry_slot_loop slot interval cur start = Some None"
        using \<open>start < cur\<close> by (subst retry_slot_loop.simps) simp
      then show ?thesis using True lt half by (intro exI [of _ 0] exI [of _ None]) (simp add: word_less_nat_alt)
    next
      case False
      have step: "retry_slot_loop slot interval cur start = retry_slot_loop slot interval cur (start + slot * 2)"
        using \<open>start < cur\<close> False by (subst retry_slot_loop.simps) simp
      have s2: "unat (slot * 2) = 2 * unat slot" using assms(3) by (subst unat_times_small) simp_all
      have s: "unat (start + slot * 2) = unat start + 2 * unat slot"
        using lt assms(3) s2 by (subst unat_add_lem [THEN iffD1]) simp_all
      have "unat cur - unat (start + slot * 2) < unat cur - unat start" using s lt assms(1) by linarith
      moreover have "unat (start + slot * 2) \<le> unat cur + unat interval" using s lt assms(2) by linarith
      moreover have "unat (start + slot * 2) + unat slot < 4294967296" using s lt assms(3) by linarith
      ultimately obtain k r where r: "retry_slot_loop slot interval cur (start + slot * 2) = Some r"
        "case r of None \<Rightarrow> unat (start + slot * 2) + 2 * unat slot * k \<le> unat cur \<and>
             unat cur < unat (start + slot * 2) + 2 * unat slot * k + unat slot div 2
         | Some w \<Rightarrow> unat cur + unat w = unat (start + slot * 2) + 2 * unat slot * k"
        using less.hyps by blast
      show ?thesis
        unfolding step r(1) using r(2) by (intro exI [of _ "Suc k"] exI [of _ r]) (simp add: s split: option.splits)
    qed
  next
    case False
    then have le: "cur \<le> start" by simp
    then have d: "unat (start - cur) = unat start - unat cur" by (rule unat_sub)
    then have "\<not> start - cur > interval" using less.prems(1) by (simp add: word_less_nat_alt)
    then have "retry_slot_loop slot interval cur start = Some (Some (start - cur))"
      using False by (subst retry_slot_loop.simps) simp
    then show ?thesis using d le
      by (intro exI [of _ 0] exI [of _ "Some (start - cur)"]) (simp add: word_le_nat_alt)
  qed
qed

lemma mod_2_le: "(n :: nat) mod 2 \<le> Suc 0"
  by presburger

lemma trig_slot_le: "unat (calc_own_tx_trig_slot hop) \<le> 1"
  by (simp add: calc_own_tx_trig_slot_def Let_def unat_and_1 mod_2_le)

lemma slot_parity:
  fixes s h k t :: nat
  assumes "h \<le> 1" and "t < s"
  shows "((s * h + 2 * s * k + t) div s) mod 2 = h"
proof -
  have "s * h + 2 * s * k + t = s * (h + 2 * k) + t" by (simp add: algebra_simps)
  then have "(s * h + 2 * s * k + t) div s = h + 2 * k" using assms(2) by simp
  moreover from assms(1) have "h = 0 \<or> h = 1" by linarith
  ultimately show ?thesis by (elim disjE) simp_all
qed

definition tx_slot_us :: "fhss_t \<Rightarrow> nat" where
  "tx_slot_us st = 1000 * unat (txrx_slot_length_ms st)"

lemma retry_period_in_slot:
  assumes "broadcast_timer_running st" and "own_hop st \<noteq> 0xff" and "\<not> is_on_bc_channel st"
    and "\<not> fhss_allow_transmitting_on_rx_slot st"
    and "txrx_slot_length_ms st \<noteq> 0" and "2 * unat (txrx_slot_length_ms st) \<le> unat (cfg_broadcast_interval (fhss_configuration st))"
    and "unat (cfg_broadcast_interval (fhss_configuration st)) \<le> 1000000"
    and "unicast_start_time_us st \<le> cur" and "unat cur < 2000000000"
  shows "\<exists>w. (fhss_ws_get_retry_period_callback rnd cur remaining st = Some w \<or>
      fhss_ws_get_retry_period_callback rnd cur remaining st =
        Some (w + to_u32 (MS_TO_US (of_u8 (cfg_bc_dwell_interval (fhss_configuration st)))))) \<and>
    ((unat cur + unat w - unat (unicast_start_time_us st)) div tx_slot_us st) mod 2 = unat (own_hop st) mod 2"
proof -
  let ?bi = "cfg_broadcast_interval (fhss_configuration st)"
  let ?slot = "to_u32 (MS_TO_US (of_u32 (txrx_slot_length_ms st)))" and ?int = "to_u32 (MS_TO_US (of_u32 ?bi))"
  let ?off = "?slot div 2 * ucast (calc_own_tx_trig_slot (own_hop st)) :: u32"
  let ?h = "ucast (own_hop st AND 1) :: u32" and ?u = "unicast_start_time_us st"
  let ?start = "?u + ?slot * ?h + ?off"
  have small: "unat (txrx_slot_length_ms st) \<le> 500000" using assms(6,7) by linarith
  have slot: "unat ?slot = tx_slot_us st" unfolding tx_slot_us_def using small by (intro unat_ms_to_us) simp
  have int: "unat ?int = 1000 * unat ?bi" using assms(7) by (intro unat_ms_to_us) simp
  have s: "0 < tx_slot_us st" "2 * tx_slot_us st \<le> unat ?int" "tx_slot_us st \<le> 500000000"
    using assms(5,6) small int by (simp_all add: tx_slot_us_def unat_gt_0)
  have h: "unat ?h = unat (own_hop st) mod 2" by (simp only: unat_u8_u32 unat_and_1)
  have sh: "tx_slot_us st * unat ?h \<le> tx_slot_us st * 1" by (intro mult_le_mono2) (simp add: h)
  then have sh': "unat (?slot * ?h) = tx_slot_us st * unat ?h"
    using s unfolding slot [symmetric] by (intro unat_times_small) linarith
  have off1: "tx_slot_us st div 2 * unat (calc_own_tx_trig_slot (own_hop st)) \<le> tx_slot_us st div 2 * 1"
    by (intro mult_le_mono2 trig_slot_le)
  have half: "unat (?slot div 2) = tx_slot_us st div 2" by (simp only: unat_div_distrib slot) simp
  have "unat (?slot div 2) * unat (ucast (calc_own_tx_trig_slot (own_hop st)) :: u32) < 4294967296"
    unfolding half unat_u8_u32 using s(3) off1 by linarith
  from unat_times_small [OF this] have "unat ?off = tx_slot_us st div 2 * unat (calc_own_tx_trig_slot (own_hop st))"
    unfolding half unat_u8_u32 .
  with off1 have off: "unat ?off \<le> tx_slot_us st div 2" by simp
  have u: "unat ?u \<le> unat cur" using assms(8) by (simp add: word_le_nat_alt)
  have st1: "unat (?u + ?slot * ?h) = unat ?u + tx_slot_us st * unat ?h"
    unfolding sh' [symmetric] by (rule unat_plus_small) (use u assms(9) s sh sh' in linarith)
  have start: "unat ?start = unat ?u + tx_slot_us st * unat ?h + unat ?off"
    unfolding st1 [symmetric] by (rule unat_plus_small) (use u assms(9) s sh off st1 in linarith)
  have P: "0 < unat ?slot" "2 * unat ?slot \<le> unat ?int" "unat cur + 3 * unat ?slot < 4294967296"
    using s assms(9) unfolding slot by linarith+
  have Q: "unat ?start \<le> unat cur + unat ?int" "unat ?start + unat ?slot < 4294967296"
    using s sh off u assms(9) unfolding slot start by linarith+
  from retry_slot_loop_spec [OF P Q] obtain k r where r: "retry_slot_loop ?slot ?int cur ?start = Some r"
    "case r of None \<Rightarrow> unat ?start + 2 * unat ?slot * k \<le> unat cur \<and> unat cur < unat ?start + 2 * unat ?slot * k + unat ?slot div 2
     | Some w \<Rightarrow> unat cur + unat w = unat ?start + 2 * unat ?slot * k"
    by blast
  have hop1: "unat ?h \<le> 1" by (simp add: h)
  have cb: "fhss_ws_get_retry_period_callback rnd cur remaining st =
      (case r of None \<Rightarrow> Some 0
       | Some w \<Rightarrow> Some (if get_remaining_slots_us remaining ?int \<le> w
           then w + to_u32 (MS_TO_US (of_u8 (cfg_bc_dwell_interval (fhss_configuration st)))) else w))"
    using assms(1-4) r(1) by (simp add: fhss_ws_get_retry_period_callback_def Let_def split: option.splits)
  show ?thesis
  proof (cases r)
    case None
    then have i: "unat ?u + tx_slot_us st * unat ?h + unat ?off + 2 * tx_slot_us st * k \<le> unat cur"
        "unat cur < unat ?u + tx_slot_us st * unat ?h + unat ?off + 2 * tx_slot_us st * k + tx_slot_us st div 2"
      using r(2) unfolding start slot by simp_all
    define t where "t = unat cur - unat ?u - tx_slot_us st * unat ?h - 2 * tx_slot_us st * k"
    have "t < tx_slot_us st" using i off s(1) unfolding t_def by linarith
    moreover have "unat cur - unat ?u = tx_slot_us st * unat ?h + 2 * tx_slot_us st * k + t"
      using i unfolding t_def by linarith
    ultimately have "((unat cur - unat ?u) div tx_slot_us st) mod 2 = unat ?h" using slot_parity [OF hop1] by simp
    with cb None h show ?thesis by (intro exI [of _ 0]) simp
  next
    case (Some w)
    then have "unat cur + unat w - unat ?u = tx_slot_us st * unat ?h + 2 * tx_slot_us st * k + unat ?off"
      using r(2) unfolding start slot by simp
    moreover have "unat ?off < tx_slot_us st" using off s(1) by linarith
    ultimately have "((unat cur + unat w - unat ?u) div tx_slot_us st) mod 2 = unat ?h" using slot_parity [OF hop1] by metis
    with cb Some h show ?thesis by (intro exI [of _ w]) simp
  qed
qed

section \<open>Properties\<close>

text \<open>
  C29: During the unicast interval a node may transmit exactly in the slots whose number has the
  parity of its hop count, as far as they end within the interval.
\<close>

theorem fhss_tx_slots:
  assumes "own_hop st \<noteq> 0xff" and "in_uc_interval remaining st"
  shows "fhss_ws_check_tx_allowed remaining st =
    Some ((uc_elapsed_ms remaining st div unat (txrx_slot_length_ms st)) mod 2 = unat (own_hop st) mod 2 \<and>
          (uc_elapsed_ms remaining st div unat (txrx_slot_length_ms st) + 1) * unat (txrx_slot_length_ms st)
            \<le> unat (uc_interval_ms st))"
  by (rule fhss_ws_check_tx_allowed_iff [OF assms])

text \<open>A configuration with a broadcast interval of one second, 200 ms of them for broadcasts.\<close>

definition example_cfg :: fhss_ws_configuration where
  "example_cfg = \<lparr>cfg_uc_channel_function = WS_DH1CF, cfg_bc_channel_function = WS_DH1CF, cfg_bsi = 0x1234,
     cfg_uc_dwell_interval = 100, cfg_broadcast_interval = 1000, cfg_bc_dwell_interval = 200,
     cfg_unicast_fixed_channel = 0, cfg_broadcast_fixed_channel = 0, cfg_channel_mask_size = 8,
     cfg_channel_mask = [0xff, 0, 0, 0, 0, 0, 0, 0], cfg_unicast_channel_mask = [0xb7, 0, 0, 0, 0, 0, 0, 0],
     cfg_number_of_channel_retries = 4, cfg_vendor_defined_cf = None\<rparr>"

definition example_fhss :: fhss_t where
  "example_fhss = (fhss_ws_instance 1 example_cfg)\<lparr>own_hop := 1, txrx_slot_length_ms := 100,
     broadcast_timer_running := True, fhss_state := FHSS_SYNCHRONIZED,
     fhss_number_of_channels := 8, number_of_bc_channels := 8, number_of_uc_channels := 6\<rparr>"

lemmas example_defs = example_fhss_def example_cfg_def fhss_ws_instance_def

theorem fhss_tx_slots_witness:
  "fhss_ws_check_tx_allowed 650000 example_fhss =
    Some ((uc_elapsed_ms 650000 example_fhss div unat (txrx_slot_length_ms example_fhss)) mod 2 = unat (own_hop example_fhss) mod 2 \<and>
          (uc_elapsed_ms 650000 example_fhss div unat (txrx_slot_length_ms example_fhss) + 1) * unat (txrx_slot_length_ms example_fhss)
            \<le> unat (uc_interval_ms example_fhss)) \<and> fhss_ws_check_tx_allowed 650000 example_fhss = Some True"
proof (rule conjI)
  show "fhss_ws_check_tx_allowed 650000 example_fhss = Some True" by code_simp
qed (rule fhss_tx_slots; simp add: in_uc_interval_def uc_interval_ms_def example_defs)

text \<open>
  Two synchronised nodes whose hop counts differ in parity, as those of a node and of its
  parent, are never both allowed to transmit in the unicast interval.
\<close>

lemma fhss_hops_alternate:
  assumes "own_hop st \<noteq> 0xff" and "own_hop st' \<noteq> 0xff" and "unat (own_hop st) mod 2 \<noteq> unat (own_hop st') mod 2"
    and "in_uc_interval remaining st" and "in_uc_interval remaining st'"
    and "txrx_slot_length_ms st' = txrx_slot_length_ms st" and "uc_interval_ms st' = uc_interval_ms st"
  shows "\<not> (fhss_ws_check_tx_allowed remaining st = Some True \<and> fhss_ws_check_tx_allowed remaining st' = Some True)"
  using assms(3,6,7) fhss_ws_check_tx_allowed_iff [OF assms(1,4)] fhss_ws_check_tx_allowed_iff [OF assms(2,5)]
  by (simp add: uc_elapsed_ms_def)

text \<open>
  The search for the next transmit slot ends, and after the time it returns (to which the length
  of a broadcast slot is added when one lies between) the node is in a slot of its own parity.
\<close>

lemma fhss_retry_in_tx_slot:
  assumes "broadcast_timer_running st" and "own_hop st \<noteq> 0xff" and "\<not> is_on_bc_channel st"
    and "\<not> fhss_allow_transmitting_on_rx_slot st"
    and "txrx_slot_length_ms st \<noteq> 0" and "2 * unat (txrx_slot_length_ms st) \<le> unat (cfg_broadcast_interval (fhss_configuration st))"
    and "unat (cfg_broadcast_interval (fhss_configuration st)) \<le> 1000000"
    and "unicast_start_time_us st \<le> cur" and "unat cur < 2000000000"
  shows "\<exists>w. (fhss_ws_get_retry_period_callback rnd cur remaining st = Some w \<or>
      fhss_ws_get_retry_period_callback rnd cur remaining st =
        Some (w + to_u32 (MS_TO_US (of_u8 (cfg_bc_dwell_interval (fhss_configuration st)))))) \<and>
    ((unat cur + unat w - unat (unicast_start_time_us st)) div tx_slot_us st) mod 2 = unat (own_hop st) mod 2"
  by (rule retry_period_in_slot [OF assms])

end
