(* ===== verification/FhssProps.thy ===== *)
theory FhssProps
  imports FhssHandlers FhssSlots
begin

text \<open>
  Reachable states of the frequency hopping module and what holds in them: the numbers of channels
  agree with the masks and the TR51 tables with each other. Every operation other than the
  configuration leaves these parts alone, which is one frame relation between states.
\<close>

section \<open>What the operations leave alone\<close>

definition fhss_frame :: "fhss_t \<Rightarrow> fhss_t \<Rightarrow> bool" where
  "fhss_frame st st' \<longleftrightarrow>
     cfg_channel_mask (fhss_configuration st') = cfg_channel_mask (fhss_configuration st) \<and>
     cfg_unicast_channel_mask (fhss_configuration st') = cfg_unicast_channel_mask (fhss_configuration st) \<and>
     fhss_number_of_channels st' = fhss_number_of_channels st \<and>
     number_of_uc_channels st' = number_of_uc_channels st \<and> number_of_bc_channels st' = number_of_bc_channels st \<and>
     fhss_resolution_divider st' = fhss_resolution_divider st \<and>
     tr51_channel_table st' = tr51_channel_table st \<and>
     map_option length (tr51_output_table st') = map_option length (tr51_output_table st)"

lemma fhss_frame_refl [simp]: "fhss_frame st st"
  by (simp add: fhss_frame_def)

lemma fhss_frame_trans: "fhss_frame st st' \<Longrightarrow> fhss_frame st' st'' \<Longrightarrow> fhss_frame st st''"
  by (simp add: fhss_frame_def)

lemma fhss_frame_updates [simp]:
  "fhss_frame st (st'\<lparr>fhss_out := es\<rparr>) = fhss_frame st st'"
  "fhss_frame st (st'\<lparr>fhss_failed_tx_list := fs\<rparr>) = fhss_frame st st'"
  "fhss_frame st (st'\<lparr>own_hop := h\<rparr>) = fhss_frame st st'"
  "fhss_frame st (st'\<lparr>tx_level := l\<rparr>) = fhss_frame st st'"
  "fhss_frame st (st'\<lparr>ef_tx_level := l\<rparr>) = fhss_frame st st'"
  "fhss_frame st (st'\<lparr>parent_bc_info := b\<rparr>) = fhss_frame st st'"
  "fhss_frame st (st'\<lparr>rx_channel := c\<rparr>) = fhss_frame st st'"
  "fhss_frame st (st'\<lparr>bc_channel := c\<rparr>) = fhss_frame st st'"
  "fhss_frame st (st'\<lparr>uc_slot := s\<rparr>) = fhss_frame st st'"
  "fhss_frame st (st'\<lparr>bc_slot := s\<rparr>) = fhss_frame st st'"
  "fhss_frame st (st'\<lparr>txrx_slot_length_ms := t\<rparr>) = fhss_frame st st'"
  "fhss_frame st (st'\<lparr>synchronization_time := t\<rparr>) = fhss_frame st st'"
  "fhss_frame st (st'\<lparr>unicast_start_time_us := t\<rparr>) = fhss_frame st st'"
  "fhss_frame st (st'\<lparr>drift_per_millisecond_ns := d\<rparr>) = fhss_frame st st'"
  "fhss_frame st (st'\<lparr>next_uc_timeout := t\<rparr>) = fhss_frame st st'"
  "fhss_frame st (st'\<lparr>next_bc_timeout := t\<rparr>) = fhss_frame st st'"
  "fhss_frame st (st'\<lparr>expedited_forwarding_enabled_us := t\<rparr>) = fhss_frame st st'"
  "fhss_frame st (st'\<lparr>unicast_timer_running := b1\<rparr>) = fhss_frame st st'"
  "fhss_frame st (st'\<lparr>broadcast_timer_running := b1\<rparr>) = fhss_frame st st'"
  "fhss_frame st (st'\<lparr>is_on_bc_channel := b1\<rparr>) = fhss_frame st st'"
  "fhss_frame st (st'\<lparr>fhss_state := f\<rparr>) = fhss_frame st st'"
  by (simp_all add: fhss_frame_def)

lemma fhss_frame_timers [simp]:
  "fhss_frame st (fhss_start_timer t cb st') = fhss_frame st st'"
  "fhss_frame st (fhss_stop_timer cb st') = fhss_frame st st'"
  "fhss_frame st (fhss_ws_start_timer now t cb st') = fhss_frame st st'"
  by (simp_all add: fhss_start_timer_def fhss_stop_timer_def fhss_ws_start_timer_def Let_def split: fhss_timer_cb.split)

lemma fhss_frame_failed [simp]:
  "fhss_frame st (snd (fhss_failed_handle_remove h st')) = fhss_frame st st'"
  "fhss_frame st (snd (fhss_failed_handle_add ok h c st')) = fhss_frame st st'"
  by (simp_all add: fhss_failed_handle_remove_def fhss_failed_handle_add_def split: option.split)

lemma fhss_frame_slot_length [simp]: "fhss_frame st (fhss_set_txrx_slot_length r st') = fhss_frame st st'"
  by (simp add: fhss_set_txrx_slot_length_def Let_def)

lemma tr51_hop_loop_length:
  "tr51_hop_loop cntr table len step ex index slot out = Some (slot', out') \<Longrightarrow> length out' = length out"
  by (induction cntr arbitrary: index slot out) (auto simp: Let_def split: if_splits option.splits bool.splits)

lemma tr51_channel_index_length:
  assumes "tr51_channel_index table out slot mac n ex = Some (c, out')"
  shows "length out' = length out"
  using assms
  by (auto simp: tr51_channel_index_def tr51_calculate_hopping_sequence_def
      dest: tr51_hop_loop_length split: if_splits option.splits prod.splits)

lemma fhss_frame_output:
  "tr51_output_table st = Some out \<Longrightarrow> length out' = length out \<Longrightarrow>
   fhss_frame st (st\<lparr>tr51_output_table := Some out', rx_channel := c, uc_slot := s\<rparr>)"
  "tr51_output_table st = Some out \<Longrightarrow> length out' = length out \<Longrightarrow> fhss_frame st (st\<lparr>tr51_output_table := Some out', bc_slot := s\<rparr>)"
  "tr51_output_table st = Some out \<Longrightarrow> length out' = length out \<Longrightarrow> fhss_frame st (st\<lparr>tr51_output_table := Some out'\<rparr>)"
  by (simp_all add: fhss_frame_def)

lemma fhss_frame_bc_channel:
  assumes "fhss_ws_calc_bc_channel st = Some (c, st')"
  shows "fhss_frame st st'"
proof (cases "cfg_bc_channel_function (fhss_configuration st)")
  case WS_TR51CF
  with assms obtain table out where t: "tr51_channel_table st = Some table" "tr51_output_table st = Some out"
    by (auto simp: fhss_ws_calc_bc_channel_def Let_def split: option.splits)
  with assms WS_TR51CF obtain n out' where n: "tr51_get_bc_channel_index table out (bc_slot st) (cfg_bsi (fhss_configuration st))
      (number_of_bc_channels st) None = Some (n, out')"
    by (auto simp: fhss_ws_calc_bc_channel_def Let_def split: option.splits)
  then have "length out' = length out" by (auto simp: tr51_get_bc_channel_index_def dest: tr51_channel_index_length)
  with assms WS_TR51CF t n show ?thesis
    by (auto simp: fhss_ws_calc_bc_channel_def Let_def intro: fhss_frame_output)
qed (use assms in \<open>auto simp: fhss_ws_calc_bc_channel_def Let_def split: option.splits\<close>)

lemma fhss_frame_own_channel:
  assumes "fhss_ws_own_uc_channel read32 mac st = Some st'"
  shows "fhss_frame st st'"
proof (cases "cfg_uc_channel_function (fhss_configuration st)")
  case WS_TR51CF
  with assms obtain table out where t: "tr51_channel_table st = Some table" "tr51_output_table st = Some out"
    by (auto simp: fhss_ws_own_uc_channel_def Let_def split: option.splits)
  with assms WS_TR51CF obtain n out' where n: "tr51_get_uc_channel_index table out (uc_slot st) mac
      (number_of_uc_channels st) None = Some (n, out')"
    by (auto simp: fhss_ws_own_uc_channel_def Let_def split: option.splits)
  then have "length out' = length out" by (auto simp: tr51_get_uc_channel_index_def dest: tr51_channel_index_length)
  with assms WS_TR51CF t n show ?thesis
    by (auto simp: fhss_ws_own_uc_channel_def Let_def intro: fhss_frame_output)
qed (use assms in \<open>auto simp: fhss_ws_own_uc_channel_def Let_def split: option.splits\<close>)

lemma fhss_frame_uc_channel:
  assumes "fhss_ws_update_uc_channel_callback read32 mac st = Some st'"
  shows "fhss_frame st st'"
proof (cases "cfg_uc_channel_function (fhss_configuration st) = WS_FIXED_CHANNEL")
  case False
  with assms obtain st1 where s: "fhss_ws_own_uc_channel read32 mac st = Some st1"
    "st' = (if is_on_bc_channel st1 then st1 else fhss_log (Change_Channel (of_u8 (rx_channel st1))) st1)"
    by (auto simp: fhss_ws_update_uc_channel_callback_def simp del: fhss_frame_updates)
  from fhss_frame_own_channel [OF s(1)] show ?thesis unfolding s(2) by simp
qed (use assms in \<open>simp add: fhss_ws_update_uc_channel_callback_def\<close>)

lemma fhss_frame_delay: "bc_delay_update d st = Some (d', st') \<Longrightarrow> fhss_frame st st'"
  by (auto simp: bc_delay_update_def Let_def split: if_splits)

lemma fhss_frame_events:
  "fhss_frame st (bc_event_timer rnd st') = fhss_frame st st'"
  "uc_event_timer rnd r st = Some st' \<Longrightarrow> fhss_frame st st'"
  by (auto simp: bc_event_timer_def uc_event_timer_def Let_def split: if_splits option.splits)

lemma fhss_frame_broadcast:
  assumes "fhss_broadcast_handler env st = Some st'"
  shows "fhss_frame st st'"
proof (cases "cfg_bc_dwell_interval (fhss_configuration st) = 0 \<or> cfg_broadcast_interval (fhss_configuration st) = 0")
  case True
  then show ?thesis using assms by (auto simp: fhss_broadcast_handler_def Let_def)
next
  case False
  let ?d0 = "if bc_slot st = 0 \<and> next_bc_timeout st = 0 then 0 else sint (ts env 0 - next_bc_timeout st)"
  let ?tr = "cfg_bc_channel_function (fhss_configuration st) = WS_TR51CF"
  from assms False obtain d st1 where 1: "bc_delay_update ?d0 st = Some (d, st1)"
    by (auto simp: fhss_broadcast_handler_def Let_def split: option.splits)
  define st2 where "st2 = (if ?tr then st1\<lparr>bc_slot := bc_slot st1 mod number_of_bc_channels st1\<rparr> else st1)"
  have f2: "fhss_frame st st2" using fhss_frame_delay [OF 1] by (simp add: st2_def)
  note H = assms [unfolded fhss_broadcast_handler_def Let_def if_not_P [OF False] 1 option.case prod.case]
  have nofault: "\<not> (?tr \<and> number_of_bc_channels st1 = 0)" using H by (auto split: if_splits)
  note H' = H [unfolded if_not_P [OF nofault], folded st2_def]
  show ?thesis
  proof (cases "is_on_bc_channel st2")
    case on: True
    then show ?thesis
      using H' f2 by (auto dest!: fhss_frame_events(2) [of _ _ _ _] elim!: fhss_frame_trans [rotated] simp del: fhss_frame_refl)
  next
    case off: False
    then show ?thesis
      using H' f2 by (auto dest!: fhss_frame_bc_channel simp: fhss_frame_events(1) elim!: fhss_frame_trans [rotated] split: option.splits)
  qed
qed

lemma fhss_frame_unicast:
  assumes "fhss_unicast_handler env st = Some st'"
  shows "fhss_frame st st'"
proof -
  have poll: "fhss_frame st (if b then fhss_log Tx_Poll s else s) = fhss_frame st s" for b s by simp
  from assms show ?thesis
    by (auto simp: fhss_unicast_handler_def Let_def poll dest!: fhss_frame_uc_channel elim!: fhss_frame_trans [rotated]
        split: if_splits)
qed

lemma fhss_frame_event:
  assumes "fhss_event_timer_cb env st = Some st'"
  shows "fhss_frame st st'"
  using assms by (auto simp: fhss_event_timer_cb_def Let_def split: if_splits option.splits)

lemma fhss_frame_synch_state:
  assumes "fhss_ws_synch_state_set_callback env state st = Some (c, st')"
  shows "fhss_frame st st'"
proof (cases state)
  case FHSS_SYNCHRONIZED
  let ?st = "fhss_set_txrx_slot_length (env_datarate env) st"
  let ?bc = "cfg_broadcast_interval (fhss_configuration ?st) \<noteq> 0 \<and> cfg_bc_dwell_interval (fhss_configuration ?st) \<noteq> 0"
  let ?uc = "cfg_uc_channel_function (fhss_configuration ?st) \<noteq> WS_FIXED_CHANNEL"
  from assms FHSS_SYNCHRONIZED obtain st1 where 1:
    "(if ?bc then map_option (\<lambda>st. st\<lparr>broadcast_timer_running := True\<rparr>) (fhss_broadcast_handler env ?st) else Some ?st) = Some st1"
    by (auto simp: fhss_ws_synch_state_set_callback_def Let_def split: option.splits)
  from 1 have f1: "fhss_frame st st1"
    by (cases ?bc) (auto dest!: fhss_frame_broadcast elim!: fhss_frame_trans [rotated])
  from assms FHSS_SYNCHRONIZED 1 obtain st2 where 2:
    "(if ?uc then map_option (\<lambda>st. (fhss_ws_start_timer (ts env 3)
        (to_u32 (MS_TO_US (of_u8 (cfg_uc_dwell_interval (fhss_configuration ?st))))) fhss_unicast_timer st)\<lparr>unicast_timer_running := True\<rparr>)
        (fhss_ws_update_uc_channel_callback (env_read32 env) (own_mac env) st1) else Some st1) = Some st2"
    "st' = st2\<lparr>fhss_state := state\<rparr>"
    unfolding fhss_ws_synch_state_set_callback_def Let_def by (simp split: option.splits)
  from 2(1) f1 have "fhss_frame st st2"
    by (cases ?uc) (auto dest!: fhss_frame_uc_channel elim!: fhss_frame_trans [rotated])
  then show ?thesis by (simp add: 2(2))
qed (use assms in \<open>auto simp: fhss_ws_synch_state_set_callback_def Let_def split: if_splits\<close>)

lemma fhss_frame_intervals:
  "fhss_frame st (st'\<lparr>fhss_configuration := (fhss_configuration st'')\<lparr>cfg_bc_dwell_interval := d, cfg_broadcast_interval := i\<rparr>\<rparr>) \<longleftrightarrow>
   fhss_frame st (st'\<lparr>fhss_configuration := fhss_configuration st''\<rparr>)"
  by (simp add: fhss_frame_def)

lemma fhss_ws_start_timer_cfg [simp]: "fhss_configuration (fhss_ws_start_timer n t cb st) = fhss_configuration st"
  "fhss_configuration (fhss_stop_timer cb st) = fhss_configuration st"
  by (simp_all add: fhss_ws_start_timer_def fhss_stop_timer_def fhss_start_timer_def Let_def split: fhss_timer_cb.split)

lemma fhss_frame_same_cfg: "fhss_configuration st'' = fhss_configuration st' \<Longrightarrow>
   fhss_frame st (st'\<lparr>fhss_configuration := fhss_configuration st''\<rparr>) = fhss_frame st st'"
  by (simp add: fhss_frame_def)

lemma fhss_frame_set_parent:
  assumes "fhss_ws_set_parent linux env bc force st = Some (r, st')"
  shows "fhss_frame st st'"
  using assms
  by (auto simp: fhss_ws_set_parent_def Let_def fhss_frame_intervals fhss_frame_same_cfg split: if_splits)

lemma fhss_frame_tx_channel:
  assumes "fhss_ws_tx_channel fl read32 nb mac t st = Some (c, st')"
  shows "fhss_frame st st'"
proof -
  obtain uc chans where nb: "nb = (uc, chans)" by (cases nb)
  show ?thesis
  proof (cases "unicast_channel_function uc")
    case WS_TR51CF
    with assms nb obtain slot table out n out' where n: "tr51_output_table st = Some out"
      "tr51_get_uc_channel_index table out slot mac (unicast_number_of_channels uc) None = Some (n, out')"
      "st' = st\<lparr>tr51_output_table := Some out'\<rparr>"
      by (auto simp: fhss_ws_tx_channel_def split: option.splits)
    then have "length out' = length out" by (auto simp: tr51_get_uc_channel_index_def dest: tr51_channel_index_length)
    with n show ?thesis by (auto intro: fhss_frame_output)
  qed (use assms nb in \<open>auto simp: fhss_ws_tx_channel_def split: option.splits\<close>)
qed

lemma fhss_frame_tx_handle:
  assumes "fhss_ws_tx_handle_callback fl read32 nbs r bcast mac t st = Some (c, st')"
  shows "fhss_frame st st'"
  using assms
  by (auto simp: fhss_ws_tx_handle_callback_def dest!: fhss_frame_tx_channel split: if_splits option.splits bool.splits)

lemma fhss_frame_tx_done: "fhss_frame st (fhss_ws_data_tx_done_callback ack completed h st)"
  by (simp add: fhss_ws_data_tx_done_callback_def Let_def split: option.split)

lemma fhss_frame_tx_fail: "fhss_frame st (snd (fhss_ws_data_tx_fail_callback ok h is_data c st))"
  by (simp add: fhss_ws_data_tx_fail_callback_def Let_def split: option.split)

section \<open>Well-formed states\<close>

definition fhss_tables_ok :: "fhss_t \<Rightarrow> bool" where
  "fhss_tables_ok st \<longleftrightarrow> (\<forall>table out. tr51_channel_table st = Some table \<and> tr51_output_table st = Some out \<longrightarrow>
     (\<exists>n p. 2 \<le> unat n \<and> unat n \<le> 256 \<and> tr51_calc_nearest_prime_number n = Some p \<and>
        table_filled (unat n) (unat p) (unat n) table \<and> length out = 2 * unat n))"

definition enabled_count :: "u32 list \<Rightarrow> nat" where
  "enabled_count m = length (enabled_channels m 256)"

definition fhss_counts_ok :: "fhss_t \<Rightarrow> bool" where
  "fhss_counts_ok st \<longleftrightarrow>
     (let m = cfg_channel_mask (fhss_configuration st); um = cfg_unicast_channel_mask (fhss_configuration st)
      in length m = 8 \<and> length um = 8 \<and> 0 < enabled_count m \<and> 0 < enabled_count um \<and>
         unat (number_of_uc_channels st) = enabled_count um \<and>
         (number_of_bc_channels st = 0 \<or> unat (number_of_bc_channels st) = enabled_count m))"

definition fhss_ok :: "fhss_t \<Rightarrow> bool" where
  "fhss_ok st \<longleftrightarrow> fhss_resolution_divider st \<noteq> 0 \<and> fhss_counts_ok st \<and> fhss_tables_ok st"

lemma fhss_frame_ok:
  assumes "fhss_frame st st'" and "fhss_ok st"
  shows "fhss_ok st'"
proof -
  have counts: "fhss_resolution_divider st' \<noteq> 0 \<and> fhss_counts_ok st'"
    using assms by (simp add: fhss_ok_def fhss_frame_def fhss_counts_ok_def)
  have "fhss_tables_ok st'"
    unfolding fhss_tables_ok_def
  proof (intro allI impI)
    fix table out
    assume t: "tr51_channel_table st' = Some table \<and> tr51_output_table st' = Some out"
    with assms(1) have "map_option length (tr51_output_table st) = Some (length out)" "tr51_channel_table st = Some table"
      by (simp_all add: fhss_frame_def)
    then obtain out0 where "tr51_output_table st = Some out0" "length out0 = length out" "tr51_channel_table st = Some table"
      by auto
    with assms(2) show "\<exists>n p. 2 \<le> unat n \<and> unat n \<le> 256 \<and> tr51_calc_nearest_prime_number n = Some p \<and>
        table_filled (unat n) (unat p) (unat n) table \<and> length out = 2 * unat n"
      unfolding fhss_ok_def fhss_tables_ok_def by fastforce
  qed
  with counts show ?thesis by (simp add: fhss_ok_def)
qed

lemma enabled_count_le: "enabled_count m \<le> 256"
  using length_enabled_le [of m 256] by (simp add: enabled_count_def)

lemma channel_count_eq: "length m = 8 \<Longrightarrow> channel_list_count_channels m = enabled_count m"
  by (simp add: channel_list_count_spec enabled_count_def)

lemma enabled_count_u16: "unat (word_of_nat (enabled_count m) :: u16) = enabled_count m"
  using enabled_count_le [of m] by (intro unat_word_of_nat_u16) simp

lemma tr51_init_one: "tr51_init_channel_table [] 1 = None" "tr51_calc_nearest_prime_number 1 = Some 0"
proof -
  show p: "tr51_calc_nearest_prime_number 1 = Some 0" by (simp add: tr51_calc_nearest_prime_number_def)
  have "tr51_draw 1 [] 0 j 0 seed = None" for j seed by (subst tr51_draw.simps) simp
  then show "tr51_init_channel_table [] 1 = None"
    by (simp add: tr51_init_channel_table_def p tr51_calculate_channel_table_def tr51_table_step_def)
qed

lemma fhss_allocation_ok:
  assumes "fhss_ws_manage_channel_table_allocation al (word_of_nat k) st = Some (r, st')" and "fhss_alloc_ok al"
    and "0 < k" and "k \<le> 256" and "fhss_tables_ok st"
  shows "fhss_tables_ok st'" and "fhss_configuration st' = fhss_configuration st"
    and "fhss_resolution_divider st' = fhss_resolution_divider st"
    and "number_of_bc_channels st' = number_of_bc_channels st" and "number_of_uc_channels st' = number_of_uc_channels st"
proof -
  let ?n = "word_of_nat k :: u16"
  have k: "unat ?n = k" using assms(4) by (intro unat_word_of_nat_u16) simp
  note A = assms(1) [unfolded fhss_ws_manage_channel_table_allocation_def]
  let ?done = "tr51_channel_table st \<noteq> None \<or> tr51_output_table st \<noteq> None"
  have parts: "fhss_tables_ok st' \<and> (\<exists>t out. st' = st\<lparr>tr51_channel_table := t, tr51_output_table := out\<rparr>)"
  proof (cases ?done)
    case True
    with A have "st' = st" by simp
    with assms(5) show ?thesis by (intro conjI exI [of _ "tr51_channel_table st"] exI [of _ "tr51_output_table st"]) simp_all
  next
    case False
    then have none: "tr51_channel_table st = None" "tr51_output_table st = None" by simp_all
    note A1 = A [unfolded if_not_P [OF False]]
    obtain p where p: "tr51_calc_nearest_prime_number ?n = Some p"
      using A1 by (cases "tr51_calc_nearest_prime_number ?n") simp_all
    note A2 = A1 [unfolded p option.case]
    have junk: "length (junk1 al (unat p)) = unat p" "length (junk2 al (2 * unat ?n)) = 2 * unat ?n"
      using assms(2) by (simp_all add: fhss_alloc_ok_def)
    show ?thesis
    proof (cases "ok1 al \<and> ok2 al")
      case False
      then have "\<exists>t. st' = st\<lparr>tr51_channel_table := t, tr51_output_table := None\<rparr>"
      proof (cases "ok1 al")
        case True
        then show ?thesis using A2 False by auto
      next
        case no: False
        then have "st' = st\<lparr>tr51_channel_table := None\<rparr>" using A2 by simp
        moreover have "st\<lparr>tr51_channel_table := None\<rparr> = st\<lparr>tr51_channel_table := None, tr51_output_table := None\<rparr>"
          using none by simp
        ultimately show ?thesis by blast
      qed
      then show ?thesis by (auto simp: fhss_tables_ok_def)
    next
      case True
      obtain table seed where t: "tr51_init_channel_table (junk1 al (unat p)) ?n = Some (table, seed)"
        using A2 True by (cases "tr51_init_channel_table (junk1 al (unat p)) ?n") auto
      then have st': "st' = st\<lparr>tr51_channel_table := Some table, tr51_output_table := Some (junk2 al (2 * unat ?n))\<rparr>"
        using A2 True by simp
      have "k \<noteq> 1"
      proof
        assume "k = 1"
        then have "p = 0" "junk1 al (unat p) = []" using p junk(1) tr51_init_one(2) by simp_all
        then show False using t tr51_init_one(1) \<open>k = 1\<close> by simp
      qed
      then have n: "2 \<le> unat ?n" "unat ?n \<le> 256" using assms(3,4) k by simp_all
      then have "table_filled (unat ?n) (unat p) (unat ?n) table"
        using tr51_initialised [OF n(1) _ p junk(1) t] by simp
      then have "fhss_tables_ok st'" unfolding fhss_tables_ok_def st' using n p junk(2) by auto
      with st' show ?thesis by blast
    qed
  qed
  then show "fhss_tables_ok st'" by (rule conjunct1)
  from parts show "fhss_configuration st' = fhss_configuration st" "fhss_resolution_divider st' = fhss_resolution_divider st"
    "number_of_bc_channels st' = number_of_bc_channels st" "number_of_uc_channels st' = number_of_uc_channels st"
    by auto
qed

lemma fhss_enable_ok:
  assumes "fhss_ws_enable i w al d cfg = Some (Some st)" and "fhss_alloc_ok al"
    and "length (cfg_channel_mask cfg) = 8" and "length (cfg_unicast_channel_mask cfg) = 8"
  shows "fhss_ok st"
proof -
  let ?c = "enabled_count (cfg_channel_mask cfg)" and ?u = "enabled_count (cfg_unicast_channel_mask cfg)"
  note E = assms(1) [unfolded fhss_ws_enable_def Let_def channel_count_eq [OF assms(3)] channel_count_eq [OF assms(4)]]
  have c: "?c \<noteq> 0" by (rule notI) (use E in simp)
  note E1 = E [unfolded if_not_P [OF c]]
  have i: "i" by (rule ccontr) (use E1 in simp)
  have w: "w" by (rule ccontr) (use E1 i in simp)
  note E2 = E1 [unfolded eqTrueI [OF i] eqTrueI [OF w] not_True_eq_False if_False]
  obtain r st1 where 1: "fhss_ws_manage_channel_table_allocation al (word_of_nat ?c) (fhss_ws_instance d cfg) = Some (r, st1)"
    using E2 by (cases "fhss_ws_manage_channel_table_allocation al (word_of_nat ?c) (fhss_ws_instance d cfg)") auto
  have r: "\<not> r \<noteq> 0" by (rule notI) (use E2 1 in simp)
  note E3 = E2 [unfolded 1 option.case prod.case if_not_P [OF r] option.inject]
  have c0: "0 < ?c" using c by simp
  have "fhss_tables_ok (fhss_ws_instance d cfg)" by (simp add: fhss_tables_ok_def fhss_ws_instance_def)
  note A = fhss_allocation_ok [OF 1 assms(2) c0 enabled_count_le this]
  have "number_of_bc_channels st1 = 0" "fhss_resolution_divider st1 \<noteq> 0"
    unfolding A(3,4) by (simp_all add: fhss_ws_instance_def)
  moreover define cfg' where "cfg' = (if ?u = 0 then cfg\<lparr>cfg_unicast_channel_mask := cfg_channel_mask cfg\<rparr> else cfg)"
  define u' where "u' = (if ?u = 0 then ?c else ?u)"
  have st: "fhss_configuration st = cfg'" "number_of_uc_channels st = word_of_nat u'"
    "number_of_bc_channels st = number_of_bc_channels st1" "fhss_resolution_divider st = fhss_resolution_divider st1"
    "tr51_channel_table st = tr51_channel_table st1" "tr51_output_table st = tr51_output_table st1"
    unfolding E3 [symmetric] fhss_ws_set_hop_count_def cfg'_def u'_def by simp_all
  have cfg': "cfg_channel_mask cfg' = cfg_channel_mask cfg" "length (cfg_unicast_channel_mask cfg') = 8"
    "enabled_count (cfg_unicast_channel_mask cfg') = u'" "0 < u'" "unat (word_of_nat u' :: u16) = u'"
    using assms(3,4) c0 enabled_count_u16 by (simp_all add: cfg'_def u'_def)
  have "fhss_counts_ok st"
    unfolding fhss_counts_ok_def Let_def st using cfg' assms(3) c0 calculation(1) by simp
  moreover have "fhss_tables_ok st" unfolding fhss_tables_ok_def st using A(1) by (simp add: fhss_tables_ok_def)
  ultimately show ?thesis unfolding fhss_ok_def st using A(3) by (simp add: fhss_ws_instance_def)
qed

lemma fhss_timers_tables [simp]:
  "tr51_channel_table (fhss_ws_start_timer n t cb st) = tr51_channel_table st"
  "tr51_output_table (fhss_ws_start_timer n t cb st) = tr51_output_table st"
  "fhss_resolution_divider (fhss_ws_start_timer n t cb st) = fhss_resolution_divider st"
  "tr51_channel_table (fhss_stop_timer cb st) = tr51_channel_table st"
  "tr51_output_table (fhss_stop_timer cb st) = tr51_output_table st"
  "fhss_resolution_divider (fhss_stop_timer cb st) = fhss_resolution_divider st"
  by (simp_all add: fhss_ws_start_timer_def fhss_stop_timer_def fhss_start_timer_def Let_def split: fhss_timer_cb.split)

lemma if_trueD: "(if b then x else y) = z \<Longrightarrow> b \<Longrightarrow> x = z"
  by simp

lemma if_falseD: "(if b then x else y) = z \<Longrightarrow> \<not> b \<Longrightarrow> y = z"
  by simp

text \<open>What a successful configuration leaves, beside the timers.\<close>

lemma fhss_configuration_set_fields:
  assumes "fhss_ws_configuration_set al now cfg st = Some (0, st')"
    and "length (cfg_channel_mask cfg) = 8" and "length (cfg_unicast_channel_mask cfg) = 8"
  defines "um \<equiv> (if enabled_count (cfg_unicast_channel_mask cfg) = 0 then cfg_channel_mask cfg else cfg_unicast_channel_mask cfg)"
  shows "fhss_configuration st' = cfg\<lparr>cfg_unicast_channel_mask := um\<rparr> \<and>
    fhss_number_of_channels st' = cfg_channel_mask_size cfg \<and> cfg_channel_mask_size cfg \<noteq> 0 \<and>
    0 < enabled_count (cfg_channel_mask cfg) \<and>
    number_of_bc_channels st' = word_of_nat (enabled_count (cfg_channel_mask cfg)) \<and>
    number_of_uc_channels st' = word_of_nat (enabled_count um) \<and>
    (\<exists>k st1. 0 < k \<and> k \<le> 256 \<and>
      (fhss_ws_manage_channel_table_allocation al (word_of_nat k) (st\<lparr>tr51_channel_table := None, tr51_output_table := None\<rparr>) =
         Some (0, st1) \<or> st1 = st) \<and>
      tr51_channel_table st' = tr51_channel_table st1 \<and> tr51_output_table st' = tr51_output_table st1 \<and>
      fhss_resolution_divider st' = fhss_resolution_divider st1)"
proof -
  let ?c = "enabled_count (cfg_channel_mask cfg)" and ?u = "enabled_count (cfg_unicast_channel_mask cfg)"
  note E = assms(1) [unfolded fhss_ws_configuration_set_def Let_def channel_count_eq [OF assms(2)] channel_count_eq [OF assms(3)]]
  have c: "\<not> (?c = 0 \<or> cfg_channel_mask_size cfg = 0)" by (rule notI) (use E in simp)
  note E1 = E [unfolded if_not_P [OF c]]
  let ?need = "unat (number_of_bc_channels st) < ?c \<or> ?u \<noteq> 0 \<and> unat (number_of_uc_channels st) < ?u"
  let ?k = "if ?u > ?c then ?u else ?c"
  let ?alloc = "if ?need then fhss_ws_manage_channel_table_allocation al (word_of_nat ?k)
      (st\<lparr>tr51_channel_table := None, tr51_output_table := None\<rparr>) else Some (0, st)"
  obtain r st1 where 1: "?alloc = Some (r, st1)"
    using E1 by (cases ?alloc) auto
  have r: "\<not> r \<noteq> 0" by (rule notI) (use E1 1 in simp)
  note E2 = E1 [unfolded 1 option.case prod.case if_not_P [OF r] option.inject prod.inject simp_thms]
  have k: "0 < ?k" "?k \<le> 256" using c enabled_count_le [of "cfg_channel_mask cfg"] enabled_count_le [of "cfg_unicast_channel_mask cfg"] by simp_all
  have "fhss_ws_manage_channel_table_allocation al (word_of_nat ?k) (st\<lparr>tr51_channel_table := None, tr51_output_table := None\<rparr>) =
         Some (0, st1) \<or> st1 = st"
  proof (cases ?need)
    case True
    from if_trueD [OF 1 True] r show ?thesis by (intro disjI1) simp
  next
    case False
    from if_falseD [OF 1 False] show ?thesis by (intro disjI2) simp
  qed
  moreover have "tr51_channel_table st' = tr51_channel_table st1 \<and> tr51_output_table st' = tr51_output_table st1 \<and>
      fhss_resolution_divider st' = fhss_resolution_divider st1"
    unfolding E2 [symmetric] by simp
  ultimately have last: "\<exists>k st1. 0 < k \<and> k \<le> 256 \<and>
      (fhss_ws_manage_channel_table_allocation al (word_of_nat k) (st\<lparr>tr51_channel_table := None, tr51_output_table := None\<rparr>) =
         Some (0, st1) \<or> st1 = st) \<and>
      tr51_channel_table st' = tr51_channel_table st1 \<and> tr51_output_table st' = tr51_output_table st1 \<and>
      fhss_resolution_divider st' = fhss_resolution_divider st1"
    using k by blast
  have um: "enabled_count um = (if ?u = 0 then ?c else ?u)" by (simp add: um_def)
  have "fhss_configuration st' = cfg\<lparr>cfg_unicast_channel_mask := um\<rparr>"
    unfolding E2 [symmetric] um_def by simp
  moreover have "fhss_number_of_channels st' = cfg_channel_mask_size cfg"
    "number_of_bc_channels st' = word_of_nat ?c" "number_of_uc_channels st' = word_of_nat (enabled_count um)"
    unfolding E2 [symmetric] um by simp_all
  ultimately show ?thesis using last c by simp
qed

lemma fhss_configuration_set_failed:
  assumes "fhss_ws_configuration_set al now cfg st = Some (r, st')" and "r \<noteq> 0"
    and "length (cfg_channel_mask cfg) = 8" and "length (cfg_unicast_channel_mask cfg) = 8"
  shows "st' = st \<or> (\<exists>k r1. 0 < k \<and> k \<le> 256 \<and> fhss_ws_manage_channel_table_allocation al (word_of_nat k)
    (st\<lparr>tr51_channel_table := None, tr51_output_table := None\<rparr>) = Some (r1, st'))"
proof -
  let ?c = "enabled_count (cfg_channel_mask cfg)" and ?u = "enabled_count (cfg_unicast_channel_mask cfg)"
  note E = assms(1) [unfolded fhss_ws_configuration_set_def Let_def channel_count_eq [OF assms(3)] channel_count_eq [OF assms(4)]]
  show ?thesis
  proof (cases "?c = 0 \<or> cfg_channel_mask_size cfg = 0")
    case True
    then show ?thesis using E [unfolded if_P [OF True]] by simp
  next
    case False
    note E1 = E [unfolded if_not_P [OF False]]
    let ?need = "unat (number_of_bc_channels st) < ?c \<or> ?u \<noteq> 0 \<and> unat (number_of_uc_channels st) < ?u"
    let ?k = "if ?u > ?c then ?u else ?c"
    let ?alloc = "if ?need then fhss_ws_manage_channel_table_allocation al (word_of_nat ?k)
        (st\<lparr>tr51_channel_table := None, tr51_output_table := None\<rparr>) else Some (0, st)"
    obtain r1 st1 where 1: "?alloc = Some (r1, st1)" using E1 by (cases ?alloc) auto
    note E2 = E1 [unfolded 1 option.case prod.case]
    have r1: "r1 \<noteq> 0" by (rule notI) (use E2 assms(2) in simp)
    note E3 = E2 [unfolded if_P [OF r1]]
    have st: "st' = st1" using E3 by simp
    have k: "0 < ?k" "?k \<le> 256"
      using False enabled_count_le [of "cfg_channel_mask cfg"] enabled_count_le [of "cfg_unicast_channel_mask cfg"] by simp_all
    show ?thesis
    proof (cases ?need)
      case True
      from if_trueD [OF 1 True] k show ?thesis unfolding st by blast
    next
      case False
      from if_falseD [OF 1 False] st show ?thesis by simp
    qed
  qed
qed

lemma fhss_configuration_ok:
  assumes "fhss_ws_configuration_set al now cfg st = Some (r, st')" and "fhss_alloc_ok al" and "fhss_ok st"
    and "length (cfg_channel_mask cfg) = 8" and "length (cfg_unicast_channel_mask cfg) = 8"
  shows "fhss_ok st'"
proof -
  let ?st = "st\<lparr>tr51_channel_table := None, tr51_output_table := None\<rparr>"
  have tok: "fhss_tables_ok ?st" by (simp add: fhss_tables_ok_def)
  have base: "fhss_tables_ok st" "fhss_resolution_divider st \<noteq> 0" "fhss_counts_ok st"
    using assms(3) by (simp_all add: fhss_ok_def)
  show ?thesis
  proof (cases "r = 0")
    case True
    define um where "um = (if enabled_count (cfg_unicast_channel_mask cfg) = 0 then cfg_channel_mask cfg else cfg_unicast_channel_mask cfg)"
    from fhss_configuration_set_fields [OF assms(1) [unfolded True] assms(4,5), folded um_def]
    obtain k st1 where F:
      "fhss_configuration st' = cfg\<lparr>cfg_unicast_channel_mask := um\<rparr>"
      "0 < enabled_count (cfg_channel_mask cfg)"
      "number_of_bc_channels st' = word_of_nat (enabled_count (cfg_channel_mask cfg))"
      "number_of_uc_channels st' = word_of_nat (enabled_count um)" "0 < k" "k \<le> 256"
      "fhss_ws_manage_channel_table_allocation al (word_of_nat k) ?st = Some (0, st1) \<or> st1 = st"
      "tr51_channel_table st' = tr51_channel_table st1" "tr51_output_table st' = tr51_output_table st1"
      "fhss_resolution_divider st' = fhss_resolution_divider st1"
      by blast
    have "fhss_tables_ok st1 \<and> fhss_resolution_divider st1 \<noteq> 0"
      using F(7)
    proof
      assume a: "fhss_ws_manage_channel_table_allocation al (word_of_nat k) ?st = Some (0, st1)"
      show ?thesis using fhss_allocation_ok(1,3) [OF a assms(2) F(5,6) tok] base(2) by simp
    qed (use base in simp)
    then have "fhss_tables_ok st'" "fhss_resolution_divider st' \<noteq> 0"
      unfolding fhss_tables_ok_def F(8-10) by simp_all
    moreover have "0 < enabled_count um" "length um = 8" using F(2) assms(4,5) by (simp_all add: um_def)
    then have "fhss_counts_ok st'"
      using F(1-4) assms(4) enabled_count_u16 by (simp add: fhss_counts_ok_def)
    ultimately show ?thesis by (simp add: fhss_ok_def)
  next
    case False
    from fhss_configuration_set_failed [OF assms(1) False assms(4,5)] show ?thesis
    proof
      assume "\<exists>k r1. 0 < k \<and> k \<le> 256 \<and> fhss_ws_manage_channel_table_allocation al (word_of_nat k) ?st = Some (r1, st')"
      then obtain k r1 where k: "0 < k" "k \<le> 256" "fhss_ws_manage_channel_table_allocation al (word_of_nat k) ?st = Some (r1, st')"
        by blast
      note A = fhss_allocation_ok [OF k(3) assms(2) k(1,2) tok]
      show ?thesis using A(1) base by (simp add: fhss_ok_def fhss_counts_ok_def A(2-5))
    qed (use assms(3) in simp)
  qed
qed

section \<open>Reachable states\<close>

text \<open>
  The states of a module that is enabled and configured with masks of eight words; every other
  operation is called in any order and with any arguments, by the MAC, the bootstrap or the timers.
\<close>

inductive fhss_reach :: "fhss_t \<Rightarrow> bool" where
  enable: "fhss_ws_enable i w al d cfg = Some (Some st) \<Longrightarrow> fhss_alloc_ok al \<Longrightarrow>
    length (cfg_channel_mask cfg) = 8 \<Longrightarrow> length (cfg_unicast_channel_mask cfg) = 8 \<Longrightarrow> fhss_reach st"
| configure: "fhss_reach st \<Longrightarrow> fhss_ws_configuration_set al now cfg st = Some (r, st') \<Longrightarrow> fhss_alloc_ok al \<Longrightarrow>
    length (cfg_channel_mask cfg) = 8 \<Longrightarrow> length (cfg_unicast_channel_mask cfg) = 8 \<Longrightarrow> fhss_reach st'"
| hop_count: "fhss_reach st \<Longrightarrow> fhss_reach (fhss_ws_set_hop_count h st)"
| allowance: "fhss_reach st \<Longrightarrow> fhss_reach (fhss_ws_set_tx_allowance_level g e st)"
| set_parent: "fhss_reach st \<Longrightarrow> fhss_ws_set_parent linux env bc force st = Some (r, st') \<Longrightarrow> fhss_reach st'"
| remove_parent: "fhss_reach st \<Longrightarrow> fhss_reach (snd (fhss_ws_remove_parent st))"
| synch_state: "fhss_reach st \<Longrightarrow> fhss_ws_synch_state_set_callback env state st = Some (c, st') \<Longrightarrow> fhss_reach st'"
| broadcast: "fhss_reach st \<Longrightarrow> fhss_broadcast_handler env st = Some st' \<Longrightarrow> fhss_reach st'"
| unicast: "fhss_reach st \<Longrightarrow> fhss_unicast_handler env st = Some st' \<Longrightarrow> fhss_reach st'"
| event: "fhss_reach st \<Longrightarrow> fhss_event_timer_cb env st = Some st' \<Longrightarrow> fhss_reach st'"
| tx_handle: "fhss_reach st \<Longrightarrow> fhss_ws_tx_handle_callback fl read32 nbs rem bcast mac t st = Some (c, st') \<Longrightarrow> fhss_reach st'"
| tx_done: "fhss_reach st \<Longrightarrow> fhss_reach (fhss_ws_data_tx_done_callback ack completed h st)"
| tx_fail: "fhss_reach st \<Longrightarrow> fhss_reach (snd (fhss_ws_data_tx_fail_callback ok h is_data c st))"

lemma fhss_reach_well_formed: "fhss_reach st \<Longrightarrow> fhss_ok st"
proof (induction rule: fhss_reach.induct)
  case enable
  then show ?case by (rule fhss_enable_ok)
next
  case configure
  show ?case
    by (rule fhss_configuration_ok [OF configure.hyps(2,3) configure.IH configure.hyps(4,5)])
next
  case hop_count
  show ?case by (rule fhss_frame_ok [OF _ hop_count.IH]) (simp add: fhss_ws_set_hop_count_def)
next
  case allowance
  show ?case by (rule fhss_frame_ok [OF _ allowance.IH]) (simp add: fhss_ws_set_tx_allowance_level_def)
next
  case set_parent
  show ?case by (rule fhss_frame_ok [OF fhss_frame_set_parent [OF set_parent.hyps(2)] set_parent.IH])
next
  case remove_parent
  show ?case by (rule fhss_frame_ok [OF _ remove_parent.IH]) (simp add: fhss_ws_remove_parent_def)
next
  case synch_state
  show ?case by (rule fhss_frame_ok [OF fhss_frame_synch_state [OF synch_state.hyps(2)] synch_state.IH])
next
  case broadcast
  show ?case by (rule fhss_frame_ok [OF fhss_frame_broadcast [OF broadcast.hyps(2)] broadcast.IH])
next
  case unicast
  show ?case by (rule fhss_frame_ok [OF fhss_frame_unicast [OF unicast.hyps(2)] unicast.IH])
next
  case event
  show ?case by (rule fhss_frame_ok [OF fhss_frame_event [OF event.hyps(2)] event.IH])
next
  case tx_handle
  show ?case by (rule fhss_frame_ok [OF fhss_frame_tx_handle [OF tx_handle.hyps(2)] tx_handle.IH])
next
  case tx_done
  show ?case by (rule fhss_frame_ok [OF fhss_frame_tx_done tx_done.IH])
next
  case tx_fail
  show ?case by (rule fhss_frame_ok [OF fhss_frame_tx_fail tx_fail.IH])
qed

end
