(* ===== verification/FhssClaims.thy ===== *)
theory FhssClaims
  imports FhssProps
begin

text \<open>
  What the frequency hopping module promises: reachable states are well formed, a node listens on
  enabled channels, a sender finds the channel the receiver listens on, and the timers keep their
  schedule when their handlers run late.
\<close>

section \<open>Division with rounding\<close>

lemma sdiv_nonneg: "0 \<le> (a :: int) \<Longrightarrow> 0 < b \<Longrightarrow> a sdiv b = a div b"
  by (cases "a = 0") (simp_all add: signed_divide_int_def)

lemma smod_nonneg: "0 \<le> (a :: int) \<Longrightarrow> 0 < b \<Longrightarrow> a smod b = a mod b"
  by (simp add: signed_modulo_int_def signed_divide_int_def sdiv_nonneg sgn_if minus_div_mult_eq_mod)

lemma us_to_ms_nonneg: "0 \<le> d \<Longrightarrow> US_TO_MS d = (d + 500) div 1000"
  by (simp add: divide_integer_def sdiv_nonneg)

lemma to_i32_small: "0 \<le> x \<Longrightarrow> x < 2147483648 \<Longrightarrow> to_i32 x = x"
  by (simp add: sint_sbintrunc' signed_take_bit_int_eq_self)

section \<open>Listening on enabled channels\<close>

lemma enabled_below:
  assumes "\<forall>c. c < 256 \<and> channel_on m c \<longrightarrow> c < n" and "n \<le> 256"
  shows "enabled_channels m n = enabled_channels m 256"
proof -
  have "[0..<256] = [0..<n] @ [n..<256]" using upt_add_eq_append [of 0 n "256 - n"] assms(2) by simp
  moreover have "filter (channel_on m) [n..<256] = []" using assms(1) by (auto simp: filter_empty_conv)
  ultimately show ?thesis by (simp add: enabled_channels_def)
qed

lemma mask_lookup_enabled:
  assumes "length m = 8" and "unat n \<le> 256" and "\<forall>c. c < 256 \<and> channel_on m c \<longrightarrow> c < unat n"
    and "0 \<le> i" and "i < int (enabled_count m)"
  shows "\<exists>c. fhss_channel_index_from_mask m i n = Some c \<and> c < 256 \<and> channel_on m c"
proof -
  have e: "enabled_channels m (unat n) = enabled_channels m 256" by (rule enabled_below [OF assms(3,2)])
  have l: "nat i < length (enabled_channels m 256)" using assms(4,5) by (simp add: enabled_count_def)
  then have "enabled_channels m 256 ! nat i \<in> set (enabled_channels m 256)" by (rule nth_mem)
  then have "enabled_channels m 256 ! nat i < 256 \<and> channel_on m (enabled_channels m 256 ! nat i)"
    unfolding set_enabled_channels by simp
  then show ?thesis using fhss_channel_index_from_mask_spec [OF assms(1,2,4)] e l by simp
qed

lemma count_u16:
  assumes "unat (n :: u16) = enabled_count m" and "0 < enabled_count m"
  shows "n \<noteq> 0" and "unat n < 32768"
  using assms enabled_count_le [of m] by auto

lemma dh1cf_bc_listens:
  assumes "length (cfg_channel_mask (fhss_configuration st)) = 8"
    and "unat (number_of_bc_channels st) = enabled_count (cfg_channel_mask (fhss_configuration st))"
    and "number_of_bc_channels st \<noteq> 0" and "unat (fhss_number_of_channels st) \<le> 256"
    and "\<forall>c. c < 256 \<and> channel_on (cfg_channel_mask (fhss_configuration st)) c \<longrightarrow> c < unat (fhss_number_of_channels st)"
    and "cfg_bc_channel_function (fhss_configuration st) = WS_DH1CF"
  shows "\<exists>c. fhss_ws_calc_bc_channel st = Some (int c, st\<lparr>bc_slot := bc_slot st + 1\<rparr>) \<and> c < 256 \<and>
    channel_on (cfg_channel_mask (fhss_configuration st)) c"
proof -
  have pos: "0 < enabled_count (cfg_channel_mask (fhss_configuration st))"
    using assms(2,3) unat_gt_0 [of "number_of_bc_channels st"] by simp
  obtain i where i: "dh1cf_get_bc_channel_index (bc_slot st + 1) (cfg_bsi (fhss_configuration st)) (number_of_bc_channels st) = Some i"
    using assms(3) by (simp add: dh1cf_get_bc_channel_index_def)
  from dh1cf_bc_range [OF i count_u16(2) [OF assms(2) pos]] have r: "0 \<le> i" "i < int (enabled_count (cfg_channel_mask (fhss_configuration st)))"
    using assms(2) by simp_all
  from mask_lookup_enabled [OF assms(1,4,5) r] obtain c where
    "fhss_channel_index_from_mask (cfg_channel_mask (fhss_configuration st)) i (fhss_number_of_channels st) = Some c"
    "c < 256" "channel_on (cfg_channel_mask (fhss_configuration st)) c" by blast
  with i assms(6) show ?thesis by (simp add: fhss_ws_calc_bc_channel_def Let_def)
qed

lemma dh1cf_uc_listens:
  assumes "length (cfg_unicast_channel_mask (fhss_configuration st)) = 8"
    and "unat (number_of_uc_channels st) = enabled_count (cfg_unicast_channel_mask (fhss_configuration st))"
    and "number_of_uc_channels st \<noteq> 0" and "unat (fhss_number_of_channels st) \<le> 256"
    and "\<forall>c. c < 256 \<and> channel_on (cfg_unicast_channel_mask (fhss_configuration st)) c \<longrightarrow> c < unat (fhss_number_of_channels st)"
    and "cfg_uc_channel_function (fhss_configuration st) = WS_DH1CF" and "8 \<le> length mac"
  shows "\<exists>c i. dh1cf_get_uc_channel_index read32 (uc_slot st) mac (number_of_uc_channels st) = Some i \<and>
    fhss_channel_index_from_mask (cfg_unicast_channel_mask (fhss_configuration st)) i (fhss_number_of_channels st) = Some c \<and>
    fhss_ws_own_uc_channel read32 mac st = Some (st\<lparr>rx_channel := word_of_nat c, uc_slot := uc_slot st + 1\<rparr>) \<and> c < 256 \<and>
    channel_on (cfg_unicast_channel_mask (fhss_configuration st)) c"
proof -
  have pos: "0 < enabled_count (cfg_unicast_channel_mask (fhss_configuration st))"
    using assms(2,3) unat_gt_0 [of "number_of_uc_channels st"] by simp
  obtain i where i: "dh1cf_get_uc_channel_index read32 (uc_slot st) mac (number_of_uc_channels st) = Some i"
    using assms(3,7) by (simp add: dh1cf_get_uc_channel_index_def)
  from dh1cf_uc_range [OF i count_u16(2) [OF assms(2) pos]] have r: "0 \<le> i" "i < int (enabled_count (cfg_unicast_channel_mask (fhss_configuration st)))"
    using assms(2) by simp_all
  from mask_lookup_enabled [OF assms(1,4,5) r] obtain c where
    "fhss_channel_index_from_mask (cfg_unicast_channel_mask (fhss_configuration st)) i (fhss_number_of_channels st) = Some c"
    "c < 256" "channel_on (cfg_unicast_channel_mask (fhss_configuration st)) c" by blast
  with i assms(6) show ?thesis by (simp add: fhss_ws_own_uc_channel_def Let_def)
qed

text \<open>Every enabled channel of a mask is below the number of channels of the regulatory domain.\<close>

definition mask_in_domain :: "u32 list \<Rightarrow> fhss_t \<Rightarrow> bool" where
  "mask_in_domain m st \<longleftrightarrow> unat (fhss_number_of_channels st) \<le> 256 \<and>
     (\<forall>c. c < 256 \<and> channel_on m c \<longrightarrow> c < unat (fhss_number_of_channels st))"


definition example_alloc :: fhss_alloc where
  "example_alloc = \<lparr>ok1 = True, ok2 = True, junk1 = (\<lambda>n. replicate n 0), junk2 = (\<lambda>n. replicate n 0)\<rparr>"

definition tr51_cfg :: fhss_ws_configuration where
  "tr51_cfg = example_cfg\<lparr>cfg_uc_channel_function := WS_TR51CF, cfg_channel_mask := [15, 0, 0, 0, 0, 0, 0, 0],
     cfg_unicast_channel_mask := [15, 0, 0, 0, 0, 0, 0, 0]\<rparr>"

lemma four_channels_on: "channel_on [15, 0, 0, 0, 0, 0, 0, 0] c \<longleftrightarrow> c < 4"
proof (cases "c < 32")
  case True
  then have "channel_on [15, 0, 0, 0, 0, 0, 0, 0] c \<longleftrightarrow> bit (15 :: u32) c" by (simp add: channel_on_def)
  moreover have "bit (mask 4 :: u32) c \<longleftrightarrow> c < 4" unfolding bit_mask_iff using True by simp
  then have "bit (15 :: u32) c \<longleftrightarrow> c < 4" by (simp add: mask_eq_exp_minus_1)
  ultimately show ?thesis by simp
next
  case False
  then obtain k where k: "c div 32 = Suc k" by (cases "c div 32") simp_all
  have l: "[15, 0, 0, 0, 0, 0, 0, 0] = 15 # replicate 7 (0 :: u32)" by (simp add: numeral_eq_Suc)
  have "\<not> channel_on (15 # replicate 7 0) c" by (simp add: channel_on_def k)
  then have "\<not> channel_on [15, 0, 0, 0, 0, 0, 0, 0] c" unfolding l .
  then show ?thesis using False by simp
qed

lemma tr51_four_channels: "channel_list_count_channels [15, 0, 0, 0, 0, 0, 0, 0] = 4"
proof -
  have "{c. c < 256 \<and> channel_on [15, 0, 0, 0, 0, 0, 0, 0] c} = {..<4}" by (auto simp: four_channels_on)
  then show ?thesis by (simp add: channel_list_count_spec length_enabled_channels)
qed

definition tr51_state :: fhss_t where
  "tr51_state = (fhss_ws_instance 1 tr51_cfg)\<lparr>tr51_channel_table := Some [2, 3, 0, 1, - 1],
     tr51_output_table := Some (replicate 8 0), fhss_number_of_channels := 4, number_of_uc_channels := 4,
     optimal_packet_length := 500, own_hop := 0xff, min_synch_interval := 60, ef_tx_level := WS_TX_ALWAYS\<rparr>"

lemma tr51_enabled: "fhss_ws_enable True True example_alloc 1 tr51_cfg = Some (Some tr51_state)"
  using four_channels
  by (simp add: fhss_ws_enable_def tr51_cfg_def tr51_state_def example_cfg_def tr51_four_channels Let_def fhss_ws_instance_def
      fhss_ws_manage_channel_table_allocation_def example_alloc_def fhss_ws_set_hop_count_def)


text \<open>
  In a reachable, configured state with the DH1CF functions the next broadcast channel and the
  next unicast channel exist and are enabled in the mask of their kind.
\<close>

lemma fhss_listens_enabled:
  assumes "fhss_reach st" and "number_of_bc_channels st \<noteq> 0" and "8 \<le> length mac"
    and "mask_in_domain (cfg_channel_mask (fhss_configuration st)) st"
    and "mask_in_domain (cfg_unicast_channel_mask (fhss_configuration st)) st"
    and "cfg_bc_channel_function (fhss_configuration st) = WS_DH1CF"
    and "cfg_uc_channel_function (fhss_configuration st) = WS_DH1CF"
  shows "(\<exists>c st'. fhss_ws_calc_bc_channel st = Some (int c, st') \<and> c < 256 \<and>
           channel_on (cfg_channel_mask (fhss_configuration st)) c) \<and>
         (\<exists>st'. fhss_ws_update_uc_channel_callback read32 mac st = Some st' \<and>
           channel_on (cfg_unicast_channel_mask (fhss_configuration st)) (unat (rx_channel st')))"
proof
  from fhss_reach_well_formed [OF assms(1)] assms(2) have ok:
    "length (cfg_channel_mask (fhss_configuration st)) = 8" "length (cfg_unicast_channel_mask (fhss_configuration st)) = 8"
    "unat (number_of_bc_channels st) = enabled_count (cfg_channel_mask (fhss_configuration st))"
    "unat (number_of_uc_channels st) = enabled_count (cfg_unicast_channel_mask (fhss_configuration st))"
    "0 < enabled_count (cfg_unicast_channel_mask (fhss_configuration st))"
    by (simp_all add: fhss_ok_def fhss_counts_ok_def Let_def)
  note dom = assms(4,5) [unfolded mask_in_domain_def]
  show "\<exists>c st'. fhss_ws_calc_bc_channel st = Some (int c, st') \<and> c < 256 \<and>
           channel_on (cfg_channel_mask (fhss_configuration st)) c"
    using dh1cf_bc_listens [OF ok(1,3) assms(2) _ _ assms(6)] dom(1) by blast
  from dh1cf_uc_listens [OF ok(2,4) count_u16(1) [OF ok(4,5)] _ _ assms(7,3)] dom(2) obtain c where
    "fhss_ws_own_uc_channel read32 mac st = Some (st\<lparr>rx_channel := word_of_nat c, uc_slot := uc_slot st + 1\<rparr>)" "c < 256"
    "channel_on (cfg_unicast_channel_mask (fhss_configuration st)) c" by blast
  then show "\<exists>st'. fhss_ws_update_uc_channel_callback read32 mac st = Some st' \<and>
           channel_on (cfg_unicast_channel_mask (fhss_configuration st)) (unat (rx_channel st'))"
    using assms(7) by (simp add: fhss_ws_update_uc_channel_callback_def unat_of_nat)
qed

text \<open>The DH1CF configuration of the examples: four channels of eight.\<close>

definition dh_cfg :: fhss_ws_configuration where
  "dh_cfg = tr51_cfg\<lparr>cfg_uc_channel_function := WS_DH1CF\<rparr>"

definition dh_state :: fhss_t where
  "dh_state = tr51_state\<lparr>fhss_configuration := dh_cfg, fhss_number_of_channels := 8, number_of_bc_channels := 4,
     next_uc_timeout := 105000, unicast_timer_running := True, fhss_out := [Timer_Start fhss_unicast_timer 100000]\<rparr>"

lemma dh_configured: "fhss_ws_configuration_set example_alloc 5000 dh_cfg tr51_state = Some (0, dh_state)"
  using four_channels
  by (simp add: fhss_ws_configuration_set_def dh_cfg_def dh_state_def tr51_cfg_def tr51_state_def example_cfg_def tr51_four_channels
      Let_def fhss_ws_instance_def fhss_ws_manage_channel_table_allocation_def example_alloc_def fhss_ws_start_timer_def
      fhss_start_timer_def divide_integer_def)

lemma dh_reach: "fhss_reach dh_state"
proof (rule fhss_reach.configure [OF _ dh_configured])
  show "fhss_reach tr51_state"
    by (rule fhss_reach.enable [OF tr51_enabled])
      (simp_all add: fhss_alloc_ok_def example_alloc_def tr51_cfg_def example_cfg_def)
qed (simp_all add: fhss_alloc_ok_def example_alloc_def dh_cfg_def tr51_cfg_def example_cfg_def)

lemmas dh_defs = dh_state_def dh_cfg_def tr51_state_def tr51_cfg_def example_cfg_def fhss_ws_instance_def

lemma dh_in_domain: "mask_in_domain [15, 0, 0, 0, 0, 0, 0, 0] dh_state"
  by (simp add: mask_in_domain_def four_channels_on dh_defs)

section \<open>Sender and receiver\<close>

text \<open>
  C9: A node that is allowed to transmit and knows the timing and the channels of a synchronised
  DH1CF neighbour switches to the very channel the neighbour listens on, when the slot it calculates
  is the slot of the neighbour.
\<close>

theorem fhss_sender_meets_receiver:
  assumes "fhss_reach rcv" and "mask_in_domain (cfg_unicast_channel_mask (fhss_configuration rcv)) rcv"
    and "cfg_uc_channel_function (fhss_configuration rcv) = WS_DH1CF"
    and "8 \<le> length mac" and "nbs mac = Some (uc, chans)" and "unicast_channel_function uc = WS_DH1CF"
    and "unicast_number_of_channels uc \<noteq> 0"
    and "channel_count chans = number_of_uc_channels rcv" and "channel_mask chans = cfg_unicast_channel_mask (fhss_configuration rcv)"
    and "fhss_number_of_channels snd_st = fhss_number_of_channels rcv"
    and "fhss_ws_calculate_destination_slot fl uc t = Some (uc_slot rcv)"
    and "fhss_state snd_st = FHSS_SYNCHRONIZED" and "\<not> is_on_bc_channel snd_st"
    and "fhss_ws_check_tx_allowed remaining snd_st = Some True"
  shows "\<exists>rcv'. fhss_ws_update_uc_channel_callback read32 mac rcv = Some rcv' \<and>
    fhss_ws_tx_handle_callback fl read32 nbs remaining False mac t snd_st =
      Some (0, fhss_log (Change_Channel (of_u8 (rx_channel rcv'))) snd_st)"
proof -
  from fhss_reach_well_formed [OF assms(1)] have ok: "length (cfg_unicast_channel_mask (fhss_configuration rcv)) = 8"
    "unat (number_of_uc_channels rcv) = enabled_count (cfg_unicast_channel_mask (fhss_configuration rcv))"
    "0 < enabled_count (cfg_unicast_channel_mask (fhss_configuration rcv))"
    by (simp_all add: fhss_ok_def fhss_counts_ok_def Let_def)
  from dh1cf_uc_listens [OF ok(1,2) count_u16(1) [OF ok(2,3)] _ _ assms(3,4)] assms(2) [unfolded mask_in_domain_def]
  obtain c i where c: "dh1cf_get_uc_channel_index read32 (uc_slot rcv) mac (number_of_uc_channels rcv) = Some i"
    "fhss_channel_index_from_mask (cfg_unicast_channel_mask (fhss_configuration rcv)) i (fhss_number_of_channels rcv) = Some c"
    "fhss_ws_own_uc_channel read32 mac rcv = Some (rcv\<lparr>rx_channel := word_of_nat c, uc_slot := uc_slot rcv + 1\<rparr>)" "c < 256"
    by blast
  let ?rcv = "rcv\<lparr>rx_channel := word_of_nat c, uc_slot := uc_slot rcv + 1\<rparr>"
  have "fhss_ws_tx_channel fl read32 (uc, chans) mac t snd_st = Some (Some (int c), snd_st)"
    using assms(6,8-11) c(1,2) by (simp add: fhss_ws_tx_channel_def)
  then have "fhss_ws_tx_handle_callback fl read32 nbs remaining False mac t snd_st =
      Some (0, fhss_log (Change_Channel (int c)) snd_st)"
    using assms(5,7,12-14) by (simp add: fhss_ws_tx_handle_callback_def)
  moreover have "fhss_ws_update_uc_channel_callback read32 mac rcv =
      Some (if is_on_bc_channel ?rcv then ?rcv else fhss_log (Change_Channel (of_u8 (rx_channel ?rcv))) ?rcv)"
    using assms(3) c(3) by (simp add: fhss_ws_update_uc_channel_callback_def)
  moreover have "of_u8 (word_of_nat c) = int c" using c(4) by (simp add: unat_of_nat)
  ultimately show ?thesis by auto
qed

definition dh_timing :: uc_timing_info_t where
  "dh_timing = \<lparr>utt_rx_timestamp = 1000, uc_ufsi = 0, unicast_channel_function = WS_DH1CF, uc_fixed = 0,
     unicast_number_of_channels = 4, unicast_dwell_interval = 100\<rparr>"

lemma dh_slot: "fhss_ws_calculate_destination_slot (\<lambda>q. q) dh_timing 11000 = Some 0"
proof -
  have c: "own_ceil (\<lambda>q. q) 0 = 0" by (simp add: own_ceil_def)
  have f: "own_floor (10 / 100) = 0" unfolding own_floor_def by (simp add: floor_eq_iff)
  show ?thesis using f
    by (simp add: fhss_ws_calculate_destination_slot_def dh_timing_def Let_def c divide_integer_def)
qed

theorem fhss_sender_meets_receiver_witness:
  "\<exists>rcv'. fhss_ws_update_uc_channel_callback (\<lambda>a b c d. word_cat a b) [0, 1, 2, 3, 4, 5, 6, 7] dh_state = Some rcv' \<and>
    fhss_ws_tx_handle_callback (\<lambda>q. q) (\<lambda>a b c d. word_cat a b)
      (\<lambda>_. Some (dh_timing, \<lparr>channel_mask = [15, 0, 0, 0, 0, 0, 0, 0], channel_count = 4\<rparr>)) 0 False [0, 1, 2, 3, 4, 5, 6, 7] 11000
      (dh_state\<lparr>fhss_state := FHSS_SYNCHRONIZED\<rparr>) =
      Some (0, fhss_log (Change_Channel (of_u8 (rx_channel rcv'))) (dh_state\<lparr>fhss_state := FHSS_SYNCHRONIZED\<rparr>))"
proof (rule fhss_sender_meets_receiver [OF dh_reach _ _ _ refl])
  have m: "cfg_unicast_channel_mask (fhss_configuration dh_state) = [15, 0, 0, 0, 0, 0, 0, 0]" by (simp add: dh_defs)
  show "mask_in_domain (cfg_unicast_channel_mask (fhss_configuration dh_state)) dh_state" unfolding m by (rule dh_in_domain)
  have "uc_slot dh_state = 0" by (simp add: dh_defs)
  with dh_slot show "fhss_ws_calculate_destination_slot (\<lambda>q. q) dh_timing 11000 = Some (uc_slot dh_state)" by simp
qed (simp_all add: dh_timing_def dh_defs fhss_ws_check_tx_allowed_def)

end
