(* ===== verification/FhssTiming.thy ===== *)
theory FhssTiming
  imports FhssClaims
begin

text \<open>
  Time in the frequency hopping module: the fractional sequence interval a node announces is the time
  its neighbours calculate, and the timers keep their schedule when their handlers run late.
\<close>

section \<open>The fractional sequence interval\<close>

lemma own_ceil_exact: "own_ceil (\<lambda>q. q) v = \<lceil>v\<rceil>"
proof (cases "v = of_int \<lfloor>v\<rfloor>")
  case True
  then have "\<lceil>v\<rceil> = \<lfloor>v\<rfloor>" by (metis ceiling_of_int)
  with True show ?thesis by (simp add: own_ceil_def)
next
  case False
  then have "of_int \<lfloor>v\<rfloor> < v" using of_int_floor_le [of v] by linarith
  then have "\<lceil>v\<rceil> = \<lfloor>v\<rfloor> + 1" using floor_correct [of v] by (intro ceiling_unique) simp_all
  with False show ?thesis by (simp add: own_ceil_def Let_def)
qed

text \<open>Cutting off the fraction and rounding up is exact for intervals of at most \<open>2 ^ 24\<close> milliseconds.\<close>

lemma fraction_exact:
  assumes "0 < n" and "n \<le> DEF_2E24"
  shows "\<lceil>(of_int (x * DEF_2E24 div n * n) / of_int DEF_2E24 :: rat)\<rceil> = x"
proof (rule ceiling_unique)
  let ?u = "x * DEF_2E24 div n"
  have a: "?u * n \<le> x * DEF_2E24" using pos_mod_sign [OF assms(1), of "x * DEF_2E24"] div_mult_mod_eq [of "x * DEF_2E24" n] by linarith
  have "x * DEF_2E24 < ?u * n + n" using pos_mod_bound [OF assms(1), of "x * DEF_2E24"] div_mult_mod_eq [of "x * DEF_2E24" n] by linarith
  then have b: "(x - 1) * DEF_2E24 < ?u * n" using assms(2) by (simp only: left_diff_distrib)
  have "of_int (?u * n) \<le> (of_int (x * DEF_2E24) :: rat)" using a by (rule of_int_le_iff [THEN iffD2])
  then show "of_int (?u * n) / of_int DEF_2E24 \<le> (of_int x :: rat)" by simp
  have "(of_int ((x - 1) * DEF_2E24) :: rat) < of_int (?u * n)" using b by (rule of_int_less_iff [THEN iffD2])
  then show "of_int x - 1 < (of_int (?u * n) / of_int DEF_2E24 :: rat)" by simp
qed

definition uc_sequence_length :: "fhss_t \<Rightarrow> int" where
  "uc_sequence_length st =
     (if cfg_uc_channel_function (fhss_configuration st) = WS_TR51CF then of_u16 (number_of_uc_channels st) else 65536)"

text \<open>The time of a transmission since the start of the sequence, in milliseconds.\<close>

definition uc_sequence_ms :: "u32 \<Rightarrow> u32 \<Rightarrow> u32 \<Rightarrow> fhss_t \<Rightarrow> int" where
  "uc_sequence_ms remaining cur_time tx_time st =
     (let d = of_u8 (cfg_uc_dwell_interval (fhss_configuration st));
          slot = (if uc_slot st = 0 then uc_sequence_length st else of_u16 (uc_slot st)) - 1
      in slot * d + (d - US_TO_MS (of_u32 remaining)) + of_u32 (time_to_tx_ms cur_time tx_time))"

lemma of_u32_to_u32: "0 \<le> x \<Longrightarrow> x < 4294967296 \<Longrightarrow> of_u32 (to_u32 x) = x"
  by (simp add: take_bit_int_eq_self unsigned_of_int)

lemma of_word_le: "of_u8 x \<le> 255" "of_u16 y \<le> 65535" "of_u32 z \<le> 4294967295"
  using unat_u8_lt [of x] unat_u16_lt [of y] unat_u32_lt [of z] by linarith+

lemma time_to_tx_bound: "of_u32 (time_to_tx_ms cur t) \<le> 4294968"
proof -
  have "of_u32 (t - cur) \<le> 4294967295" using unat_u32_lt [of "t - cur"] by linarith
  then have "US_TO_MS (of_u32 (t - cur)) \<le> 4294968" "0 \<le> US_TO_MS (of_u32 (t - cur))"
    unfolding us_to_ms_nonneg [OF of_nat_0_le_iff] by linarith+
  then have "of_u32 (to_u32 (US_TO_MS (of_u32 (t - cur)))) \<le> 4294968" by (subst of_u32_to_u32) linarith+
  then show ?thesis unfolding time_to_tx_ms_def by (cases "cur < t") (simp_all only: if_True if_False unsigned_0 of_nat_0)
qed

lemma uc_slot_index:
  assumes "uc_sequence_length st \<noteq> 0" and "of_u16 (uc_slot st) \<le> uc_sequence_length st"
  defines "slot \<equiv> (if uc_slot st = 0 then uc_sequence_length st else of_u16 (uc_slot st)) - 1"
  shows "of_u16 ((if cfg_uc_channel_function (fhss_configuration st) = WS_TR51CF \<and> uc_slot st = 0
      then number_of_uc_channels st else uc_slot st) - 1) = slot"
    and "0 \<le> slot" and "slot \<le> 65535" and "slot < uc_sequence_length st"
proof -
  have dec: "of_u16 (w - 1) = of_u16 w - 1" if "w \<noteq> 0" for w :: u16
    using that unat_gt_0 [of w] by (simp add: unat_minus_one of_nat_diff)
  show "of_u16 ((if cfg_uc_channel_function (fhss_configuration st) = WS_TR51CF \<and> uc_slot st = 0
      then number_of_uc_channels st else uc_slot st) - 1) = slot"
  proof (cases "uc_slot st = 0")
    case True
    have m1: "of_u16 (- 1) = 65535" by (simp add: unsigned_minus_1_eq_mask mask_eq_exp_minus_1)
    show ?thesis
    proof (cases "cfg_uc_channel_function (fhss_configuration st) = WS_TR51CF")
      case tr: True
      then have "number_of_uc_channels st \<noteq> 0" using assms(1) by (auto simp: uc_sequence_length_def)
      with tr True dec [of "number_of_uc_channels st"] show ?thesis by (simp add: slot_def uc_sequence_length_def)
    next
      case False
      with True m1 show ?thesis by (simp add: slot_def uc_sequence_length_def)
    qed
  next
    case False
    then show ?thesis using dec [of "uc_slot st"] by (simp add: slot_def)
  qed
  have "of_u16 (number_of_uc_channels st) \<le> 65535" "of_u16 (uc_slot st) \<le> 65535"
    by (rule of_word_le)+
  moreover have "uc_slot st \<noteq> 0 \<Longrightarrow> 1 \<le> of_u16 (uc_slot st)" using unat_gt_0 [of "uc_slot st"] by linarith
  moreover have "0 \<le> uc_sequence_length st" by (simp add: uc_sequence_length_def)
  then have "0 < uc_sequence_length st" using assms(1) by linarith
  ultimately show "0 \<le> slot" "slot \<le> 65535" "slot < uc_sequence_length st"
    using assms(2) by (auto simp: slot_def uc_sequence_length_def split: if_splits)
qed

lemma remaining_ms_bound:
  assumes "of_u32 remaining \<le> MS_TO_US d"
  shows "0 \<le> US_TO_MS (of_u32 remaining)" and "US_TO_MS (of_u32 remaining) \<le> d"
  using assms unfolding us_to_ms_nonneg [OF of_nat_0_le_iff] by linarith+

lemma uc_sequence_ms_sum:
  assumes "uc_sequence_length st \<noteq> 0" and "of_u16 (uc_slot st) \<le> uc_sequence_length st"
    and "of_u32 remaining \<le> MS_TO_US (of_u8 (cfg_uc_dwell_interval (fhss_configuration st)))"
  defines "d \<equiv> of_u8 (cfg_uc_dwell_interval (fhss_configuration st))"
  shows "of_u32 (to_u32 (of_u16 ((if cfg_uc_channel_function (fhss_configuration st) = WS_TR51CF \<and> uc_slot st = 0
      then number_of_uc_channels st else uc_slot st) - 1) * d) + (to_u32 d - to_u32 (US_TO_MS (of_u32 remaining))) +
      time_to_tx_ms cur_time tx_time) = uc_sequence_ms remaining cur_time tx_time st"
    and "0 \<le> uc_sequence_ms remaining cur_time tx_time st"
    and "uc_sequence_ms remaining cur_time tx_time st \<le> uc_sequence_length st * d + 4294968"
proof -
  let ?slot = "(if uc_slot st = 0 then uc_sequence_length st else of_u16 (uc_slot st)) - 1"
  let ?r = "US_TO_MS (of_u32 remaining)" and ?t = "of_u32 (time_to_tx_ms cur_time tx_time)"
  note slot = uc_slot_index [OF assms(1,2)]
  note r = remaining_ms_bound [OF assms(3), folded d_def]
  have d: "0 \<le> d" "d \<le> 255" unfolding d_def by (rule of_nat_0_le_iff, rule of_word_le)
  have ms: "uc_sequence_ms remaining cur_time tx_time st = ?slot * d + (d - ?r) + ?t"
    by (simp add: uc_sequence_ms_def d_def Let_def)
  have s0: "0 \<le> ?slot * d" using slot(2) d(1) by (rule mult_nonneg_nonneg)
  have "?slot * d \<le> 65535 * 255" using slot(2,3) d by (intro mult_mono) simp_all
  then have "?slot * d + (d - ?r) + ?t < 4294967296" using d r time_to_tx_bound [of cur_time tx_time] by linarith
  moreover show nn: "0 \<le> uc_sequence_ms remaining cur_time tx_time st" unfolding ms using s0 r by simp
  ultimately have "of_u32 (to_u32 (?slot * d + (d - ?r) + ?t)) = uc_sequence_ms remaining cur_time tx_time st"
    unfolding ms by (rule of_u32_to_u32 [rotated])
  moreover have "to_u32 (?slot * d + (d - ?r) + ?t) = to_u32 (?slot * d) + (to_u32 d - to_u32 ?r) + time_to_tx_ms cur_time tx_time"
    by simp
  ultimately show "of_u32 (to_u32 (of_u16 ((if cfg_uc_channel_function (fhss_configuration st) = WS_TR51CF \<and> uc_slot st = 0
      then number_of_uc_channels st else uc_slot st) - 1) * d) + (to_u32 d - to_u32 (US_TO_MS (of_u32 remaining))) +
      time_to_tx_ms cur_time tx_time) = uc_sequence_ms remaining cur_time tx_time st"
    unfolding slot(1) by simp
  have "?slot * d + d \<le> uc_sequence_length st * d"
    using mult_right_mono [OF _ d(1), of "?slot + 1" "uc_sequence_length st"] slot(4) by (simp add: algebra_simps)
  then show "uc_sequence_ms remaining cur_time tx_time st \<le> uc_sequence_length st * d + 4294968"
    unfolding ms using r time_to_tx_bound [of cur_time tx_time] by linarith
qed

lemma of_u8_zero: "of_u8 x = 0 \<longleftrightarrow> x = 0"
  by (simp only: of_nat_eq_0_iff unsigned_eq_0_iff)

lemma zdiv_less: "0 < b \<Longrightarrow> a < c * b \<Longrightarrow> a div b < (c :: int)"
  using pos_mod_sign [of b a] div_mult_mod_eq [of a b] mult_right_mono [of c "a div b" b] by linarith

lemma floor_quotient: "own_floor (of_int a / of_int b) = a div b"
  by (simp add: own_floor_def floor_divide_of_int_eq)

lemma calculate_ufsi_exact:
  fixes cur_time tx_time :: u32
  assumes "cfg_uc_dwell_interval (fhss_configuration st) \<noteq> 0" and "uc_sequence_length st \<noteq> 0"
    and "unicast_timer_running st" and "drift_per_millisecond_ns st = 0"
    and "of_u32 remaining \<le> MS_TO_US (of_u8 (cfg_uc_dwell_interval (fhss_configuration st)))"
    and "of_u16 (uc_slot st) \<le> uc_sequence_length st"
  defines "n \<equiv> uc_sequence_length st * of_u8 (cfg_uc_dwell_interval (fhss_configuration st))"
    and "e \<equiv> uc_sequence_ms remaining cur_time tx_time st"
  shows "fhss_ws_calculate_ufsi (\<lambda>q. q) remaining cur_time tx_time st =
    Some (to_u32 ((if cfg_uc_channel_function (fhss_configuration st) = WS_TR51CF then e mod n else e) * DEF_2E24 div n))"
proof -
  let ?d = "of_u8 (cfg_uc_dwell_interval (fhss_configuration st))"
  have d: "?d \<noteq> 0" using assms(1) unfolding of_u8_zero .
  have full: "to_u32 (MS_TO_US ?d - NS_TO_US (drift_per_millisecond_ns st * ?d)) = to_u32 (MS_TO_US ?d)"
    by (simp add: assms(4) divide_integer_def)
  have "MS_TO_US ?d < 4294967296" using of_word_le(1) [of "cfg_uc_dwell_interval (fhss_configuration st)"] by linarith
  then have max: "of_u32 (to_u32 (MS_TO_US ?d)) = MS_TO_US ?d" by (intro of_u32_to_u32) simp_all
  have "unat remaining \<le> unat (to_u32 (MS_TO_US ?d))" using assms(5) max by linarith
  then have "\<not> remaining > to_u32 (MS_TO_US ?d)" by (simp add: word_less_nat_alt)
  then have rem: "get_remaining_slots_us remaining (to_u32 (MS_TO_US ?d)) = remaining"
    by (simp add: get_remaining_slots_us_def)
  have "uc_sequence_length st * ?d \<le> 65536 * 255"
    using of_word_le(1) [of "cfg_uc_dwell_interval (fhss_configuration st)"] of_word_le(2) [of "number_of_uc_channels st"]
    by (intro mult_mono) (simp_all add: uc_sequence_length_def)
  then have len: "of_u32 (to_u32 (uc_sequence_length st * ?d)) = n"
    unfolding n_def by (intro of_u32_to_u32) (auto simp: uc_sequence_length_def)
  have tr: "cfg_uc_channel_function (fhss_configuration st) = WS_TR51CF \<Longrightarrow> number_of_uc_channels st \<noteq> 0"
    using assms(2) by (auto simp: uc_sequence_length_def)
  have seq: "(if cfg_uc_channel_function (fhss_configuration st) = WS_TR51CF then of_u16 (number_of_uc_channels st) else 0x10000) =
      uc_sequence_length st" by (simp add: uc_sequence_length_def)
  have sum: "of_u32 (to_u32 (of_u16 ((if cfg_uc_channel_function (fhss_configuration st) = WS_TR51CF \<and> uc_slot st = 0
      then number_of_uc_channels st else uc_slot st) - 1) * ?d) + (to_u32 ?d - to_u32 (US_TO_MS (of_u32 remaining))) +
      time_to_tx_ms cur_time tx_time) = e"
    unfolding e_def by (rule uc_sequence_ms_sum(1) [OF assms(2,6,5)])
  have nz: "\<not> (?d = 0 \<or> cfg_uc_channel_function (fhss_configuration st) = WS_TR51CF \<and> number_of_uc_channels st = 0)"
    using d tr by blast
  show ?thesis
    unfolding fhss_ws_calculate_ufsi_def Let_def full rem seq len if_P [OF assms(3)] sum if_not_P [OF nz] floor_quotient
    by (simp add: uc_sequence_length_def n_def mult.commute)
qed

lemma destination_slot_exact:
  assumes "unicast_dwell_interval uc \<noteq> 0" and "L \<noteq> 0" and "0 \<le> x" and "x < 256 * (L * of_u8 (unicast_dwell_interval uc))"
    and "L = (if unicast_channel_function uc = WS_TR51CF then of_u16 (unicast_number_of_channels uc) else 65536)"
    and "uc_ufsi uc = to_u32 (x * DEF_2E24 div (L * of_u8 (unicast_dwell_interval uc)))" and "x \<le> 100000000"
  shows "fhss_ws_calculate_destination_slot (\<lambda>q. q) uc t =
    Some (word_of_int (((US_TO_MS (of_u32 (t - utt_rx_timestamp uc)) + x) div of_u8 (unicast_dwell_interval uc)) mod L))"
proof -
  let ?d = "of_u8 (unicast_dwell_interval uc)" and ?n = "L * of_u8 (unicast_dwell_interval uc)"
  have d0: "0 \<le> ?d" "?d \<noteq> 0" using assms(1) unfolding of_u8_zero by simp_all
  have d: "0 < ?d" using d0 by linarith
  have l0: "0 \<le> L" using assms(5) by simp
  have l: "0 < L" using assms(2) l0 by linarith
  have n: "0 < ?n" using d l by (rule mult_pos_pos [rotated])
  have "L \<le> 65536" using assms(5) of_word_le(2) [of "unicast_number_of_channels uc"] by simp
  then have "?n \<le> 65536 * 255" using of_word_le(1) [of "unicast_dwell_interval uc"] l0 by (intro mult_mono) simp_all
  then have n24: "?n \<le> DEF_2E24" by simp
  have u0: "0 \<le> x * DEF_2E24 div ?n" using assms(3) n by (simp add: pos_imp_zdiv_nonneg_iff)
  have "x * DEF_2E24 < 4294967296 * ?n" using assms(4) by simp
  then have "x * DEF_2E24 div ?n < 4294967296" by (rule zdiv_less [OF n])
  then have u: "of_u32 (uc_ufsi uc) = x * DEF_2E24 div ?n" unfolding assms(6) by (rule of_u32_to_u32 [OF u0])
  have seq: "(if unicast_channel_function uc = WS_TR51CF then of_u16 (unicast_number_of_channels uc) else 0x10000) = L"
    using assms(5) by simp
  have x: "of_u32 (to_u32 x) = x" by (rule of_u32_to_u32) (use assms(3,7) in simp_all)
  let ?ms = "US_TO_MS (of_u32 (t - utt_rx_timestamp uc)) + x"
  have nn: "0 \<le> US_TO_MS (of_u32 (t - utt_rx_timestamp uc))" "US_TO_MS (of_u32 (t - utt_rx_timestamp uc)) \<le> 4294968"
    using of_word_le(3) [of "t - utt_rx_timestamp uc"] unfolding us_to_ms_nonneg [OF of_nat_0_le_iff] by linarith+
  have m0: "0 \<le> ?ms div ?d" using nn(1) assms(3) d by (simp add: pos_imp_zdiv_nonneg_iff)
  have "?ms < 4294967296 * ?d" using nn(2) assms(7) d by linarith
  then have "?ms div ?d < 4294967296" by (rule zdiv_less [OF d])
  then have m: "of_u32 (to_u32 (?ms div ?d)) = ?ms div ?d" by (rule of_u32_to_u32 [OF m0])
  have c: "own_ceil (\<lambda>q. q) (of_int (x * DEF_2E24 div ?n * L * ?d) / of_int DEF_2E24) = x"
    unfolding own_ceil_exact using fraction_exact [OF n n24, of x] by (simp only: mult.assoc)
  have nz: "\<not> (?d = 0 \<or> L = 0)" using d l by linarith
  show ?thesis
    unfolding fhss_ws_calculate_destination_slot_def Let_def seq u c x floor_quotient m if_not_P [OF nz] ..
qed

lemma slot_modulo:
  assumes "0 < (d :: int)" and "0 < l"
  shows "(a + e mod (l * d)) div d mod l = (a + e) div d mod l"
proof -
  have "a + e = a + (e mod (l * d) + e div (l * d) * (l * d))" by (simp only: mod_div_mult_eq)
  then have "(a + e) div d = (a + e mod (l * d) + e div (l * d) * l * d) div d" by (simp only: ac_simps)
  also have "\<dots> = e div (l * d) * l + (a + e mod (l * d)) div d" using assms(1) by (intro div_mult_self1) simp
  finally show ?thesis by simp
qed

lemma take_24_of_fraction:
  assumes "0 < n" and "n \<le> DEF_2E24" and "0 \<le> e" and "e < 256 * n"
  shows "take_bit 24 (to_u32 (e * DEF_2E24 div n)) = to_u32 (e mod n * DEF_2E24 div n)"
proof -
  have "e * DEF_2E24 div n = e mod n * DEF_2E24 div n + e div n * DEF_2E24"
  proof -
    have "e * DEF_2E24 = (e mod n + e div n * n) * DEF_2E24" by (simp only: mod_div_mult_eq)
    also have "\<dots> = e mod n * DEF_2E24 + (e div n * DEF_2E24) * n" by (simp only: distrib_right ac_simps)
    finally show ?thesis using assms(1) by simp
  qed
  moreover have "0 \<le> e mod n * DEF_2E24 div n" using assms(1) by (simp add: pos_imp_zdiv_nonneg_iff)
  moreover have "e mod n * DEF_2E24 < DEF_2E24 * n" using pos_mod_bound [OF assms(1), of e] by linarith
  then have "e mod n * DEF_2E24 div n < DEF_2E24" by (rule zdiv_less [OF assms(1)])
  ultimately have "take_bit 24 (e * DEF_2E24 div n) = e mod n * DEF_2E24 div n" by (simp add: take_bit_eq_mod)
  moreover have "take_bit 24 (to_u32 x) = to_u32 (take_bit 24 x)" for x by transfer (simp add: min_def)
  ultimately show ?thesis by simp
qed

lemma announced_slot:
  assumes "cfg_uc_dwell_interval (fhss_configuration st) \<noteq> 0" and "uc_sequence_length st \<noteq> 0"
    and "unicast_timer_running st" and "drift_per_millisecond_ns st = 0"
    and "of_u32 remaining \<le> MS_TO_US (of_u8 (cfg_uc_dwell_interval (fhss_configuration st)))"
    and "of_u16 (uc_slot st) \<le> uc_sequence_length st"
    and "fhss_ws_calculate_ufsi (\<lambda>q. q) remaining cur_time tx_time st = Some u" and "uc_ufsi uc = take_bit 24 u"
    and "unicast_dwell_interval uc = cfg_uc_dwell_interval (fhss_configuration st)"
    and "unicast_channel_function uc = cfg_uc_channel_function (fhss_configuration st)"
    and "unicast_number_of_channels uc = number_of_uc_channels st"
  shows "fhss_ws_calculate_destination_slot (\<lambda>q. q) uc t = Some (word_of_int
    ((US_TO_MS (of_u32 (t - utt_rx_timestamp uc)) + uc_sequence_ms remaining cur_time tx_time st)
      div of_u8 (cfg_uc_dwell_interval (fhss_configuration st)) mod uc_sequence_length st))"
proof -
  let ?d = "of_u8 (cfg_uc_dwell_interval (fhss_configuration st))" and ?L = "uc_sequence_length st"
  let ?e = "uc_sequence_ms remaining cur_time tx_time st"
  have d: "0 < ?d" using assms(1) of_u8_zero [of "cfg_uc_dwell_interval (fhss_configuration st)"] of_nat_0_le_iff by (simp only: less_le) auto
  have "0 \<le> ?L" by (simp add: uc_sequence_length_def)
  then have l: "0 < ?L" using assms(2) by linarith
  have n: "0 < ?L * ?d" using l d by (rule mult_pos_pos)
  have "?L \<le> 65536" using of_word_le(2) [of "number_of_uc_channels st"] by (simp add: uc_sequence_length_def)
  then have "?L * ?d \<le> 65536 * 255" using of_word_le(1) [of "cfg_uc_dwell_interval (fhss_configuration st)"] l by (intro mult_mono) simp_all
  then have n24: "?L * ?d \<le> DEF_2E24" by simp
  note e = uc_sequence_ms_sum(2,3) [OF assms(2,6,5), of cur_time tx_time]
  have e256: "cfg_uc_channel_function (fhss_configuration st) \<noteq> WS_TR51CF \<Longrightarrow> ?e < 256 * (?L * ?d)"
    using e(2) d by (simp add: uc_sequence_length_def)
  have "take_bit 24 u = to_u32 (?e mod (?L * ?d) * DEF_2E24 div (?L * ?d))"
  proof (cases "cfg_uc_channel_function (fhss_configuration st) = WS_TR51CF")
    case True
    have r: "0 \<le> ?e mod (?L * ?d)" "?e mod (?L * ?d) < 256 * (?L * ?d)"
      using pos_mod_bound [OF n, of ?e] pos_mod_sign [OF n, of ?e] n by linarith+
    from calculate_ufsi_exact [OF assms(1-6), of cur_time tx_time] True assms(7)
    have "u = to_u32 (?e mod (?L * ?d) * DEF_2E24 div (?L * ?d))" by simp
    then show ?thesis using take_24_of_fraction [OF n n24 r] by simp
  next
    case False
    from calculate_ufsi_exact [OF assms(1-6), of cur_time tx_time] False assms(7)
    have "u = to_u32 (?e * DEF_2E24 div (?L * ?d))" by simp
    then show ?thesis using take_24_of_fraction [OF n n24 e(1) e256 [OF False]] by simp
  qed
  then have u: "uc_ufsi uc = to_u32 (?e mod (?L * ?d) * DEF_2E24 div (?L * ?d))" by (simp only: assms(8))
  have m: "0 \<le> ?e mod (?L * ?d)" "?e mod (?L * ?d) < 256 * (?L * ?d)" "?e mod (?L * ?d) \<le> 100000000"
    using pos_mod_bound [OF n, of ?e] pos_mod_sign [OF n, of ?e] n n24 by linarith+
  have L: "?L = (if unicast_channel_function uc = WS_TR51CF then of_u16 (unicast_number_of_channels uc) else 65536)"
    by (simp only: uc_sequence_length_def assms(10,11))
  have nz: "unicast_dwell_interval uc \<noteq> 0" using assms(1,9) by simp
  have "fhss_ws_calculate_destination_slot (\<lambda>q. q) uc t = Some (word_of_int
    ((US_TO_MS (of_u32 (t - utt_rx_timestamp uc)) + ?e mod (?L * ?d)) div ?d mod ?L))"
    using destination_slot_exact [OF nz assms(2) m(1), unfolded assms(9), OF m(2) L u m(3)] .
  then show ?thesis unfolding slot_modulo [OF d l] .
qed



section \<open>Late timers\<close>

text \<open>The delay of a handler that runs \<open>k\<close> whole intervals and \<open>r\<close> microseconds late.\<close>

lemma late_delay:
  assumes "now = timeout + to_u32 x" and "0 \<le> x" and "x < 2147483648"
  shows "sint (now - timeout) = x"
  using assms by (simp add: to_i32_small)

lemma late_intervals:
  assumes "0 < (d :: int)" and "0 \<le> r" and "r + 500 < MS_TO_US d" and "0 \<le> k"
  shows "US_TO_MS (k * MS_TO_US d + r) sdiv d = k" and "(k * MS_TO_US d + r) smod MS_TO_US d = r"
proof -
  have p: "0 \<le> k * MS_TO_US d + r" using assms by simp
  have "US_TO_MS (k * MS_TO_US d + r) = k * d + (r + 500) div 1000"
    unfolding us_to_ms_nonneg [OF p] by (simp add: mult.assoc [symmetric] add.assoc)
  moreover have "0 \<le> (r + 500) div 1000" "(r + 500) div 1000 < d" using assms(2,3) by linarith+
  ultimately show "US_TO_MS (k * MS_TO_US d + r) sdiv d = k"
    using assms(1,4) by (simp add: sdiv_nonneg)
  show "(k * MS_TO_US d + r) smod MS_TO_US d = r"
    using assms p by (simp add: smod_nonneg)
qed

lemma start_timer_exact:
  assumes "drift_per_millisecond_ns st = 0"
  shows "\<exists>e. fhss_ws_start_timer now time fhss_unicast_timer st = (fhss_log e st)\<lparr>next_uc_timeout := now + time\<rparr>"
    and "\<exists>e. fhss_ws_start_timer now time fhss_broadcast_timer st = (fhss_log e st)\<lparr>next_bc_timeout := now + time\<rparr>"
proof -
  have "NS_TO_US (x * 0) = 0" for x by (simp add: divide_integer_def)
  then show "\<exists>e. fhss_ws_start_timer now time fhss_unicast_timer st = (fhss_log e st)\<lparr>next_uc_timeout := now + time\<rparr>"
    "\<exists>e. fhss_ws_start_timer now time fhss_broadcast_timer st = (fhss_log e st)\<lparr>next_bc_timeout := now + time\<rparr>"
    by (auto simp: fhss_ws_start_timer_def fhss_start_timer_def Let_def assms)
qed

lemma next_timeout_exact:
  "now = old + to_u32 (k * i + r) \<Longrightarrow> now + (to_u32 i - to_u32 r) = old + to_u32 ((k + 1) * i)"
  by (simp add: distrib_right)

lemma unicast_catches_up:
  assumes "fhss_reach st" and "mask_in_domain (cfg_unicast_channel_mask (fhss_configuration st)) st"
    and "cfg_uc_channel_function (fhss_configuration st) = WS_DH1CF" and "8 \<le> length (own_mac env)"
    and "d = of_u8 (cfg_uc_dwell_interval (fhss_configuration st))" and "0 < d"
    and "drift_per_millisecond_ns st = 0" and "fhss_resolution_divider st = 1" and "uc_slot st \<noteq> 0 \<or> next_uc_timeout st \<noteq> 0"
    and "ts env 0 = next_uc_timeout st + to_u32 (int k * MS_TO_US d + r)" and "0 \<le> r" and "r + 500 < MS_TO_US d"
    and "int k * MS_TO_US d + r < 2147483648" and "ts env 1 = ts env 0"
  shows "\<exists>st'. fhss_unicast_handler env st = Some st' \<and> uc_slot st' = uc_slot st + word_of_nat (Suc k) \<and>
    next_uc_timeout st' = next_uc_timeout st + to_u32 (int (Suc k) * MS_TO_US d)"
proof -
  have p: "0 \<le> int k * MS_TO_US d + r" using assms(6,11) by simp
  note late = late_intervals [OF assms(6,11,12), of "int k", simplified]
  have delay: "sint (ts env 0 - next_uc_timeout st) = int k * MS_TO_US d + r" by (rule late_delay [OF assms(10) p assms(13)])
  have d255: "d \<le> 255" unfolding assms(5) by (rule of_word_le)
  then have to: "of_u32 (to_u32 (MS_TO_US d)) = MS_TO_US d" using assms(6) by (intro of_u32_to_u32) simp_all
  have timeout: "to_u32 (MS_TO_US d) \<noteq> 0"
  proof
    assume "to_u32 (MS_TO_US d) = 0"
    with to have "MS_TO_US d = 0" by (simp only: unsigned_0 of_nat_0)
    with assms(6) show False by simp
  qed
  have live: "(uc_slot st = 0 \<and> next_uc_timeout st = 0) = False" using assms(9) by auto
  have r: "to_i32 r = r" using assms(11,12) d255 by (intro to_i32_small) simp_all
  have u: "uint (cfg_uc_dwell_interval (fhss_configuration st)) = d"
    "(ucast (cfg_uc_dwell_interval (fhss_configuration st)) :: u32) = to_u32 d" using assms(5) by simp_all
  let ?st1 = "st\<lparr>uc_slot := uc_slot st + word_of_int (int k)\<rparr>"
  let ?time = "to_u32 (MS_TO_US d) - to_u32 r"
  obtain e where e: "fhss_ws_start_timer (ts env 1) ?time fhss_unicast_timer ?st1 =
      (fhss_log e ?st1)\<lparr>next_uc_timeout := ts env 1 + ?time\<rparr>"
    using start_timer_exact(1) [of ?st1] assms(7) by auto
  let ?st2 = "(fhss_log e ?st1)\<lparr>next_uc_timeout := ts env 1 + ?time, unicast_timer_running := True\<rparr>"
  from fhss_reach_well_formed [OF assms(1)] have ok: "length (cfg_unicast_channel_mask (fhss_configuration st)) = 8"
    "unat (number_of_uc_channels st) = enabled_count (cfg_unicast_channel_mask (fhss_configuration st))"
    "0 < enabled_count (cfg_unicast_channel_mask (fhss_configuration st))"
    by (simp_all add: fhss_ok_def fhss_counts_ok_def Let_def)
  obtain c where c: "fhss_ws_own_uc_channel (env_read32 env) (own_mac env) ?st2 =
      Some (?st2\<lparr>rx_channel := word_of_nat c, uc_slot := uc_slot ?st2 + 1\<rparr>)"
    using dh1cf_uc_listens [of ?st2 "own_mac env" "env_read32 env"] ok count_u16(1) [OF ok(2,3)] assms(2,3,4)
    by (auto simp: mask_in_domain_def)
  define st3 where "st3 = ?st2\<lparr>rx_channel := word_of_nat c, uc_slot := uc_slot ?st2 + 1\<rparr>"
  have upd: "fhss_ws_update_uc_channel_callback (env_read32 env) (own_mac env) ?st2 =
      Some (if is_on_bc_channel st3 then st3 else fhss_log (Change_Channel (of_u8 (rx_channel st3))) st3)"
    unfolding fhss_ws_update_uc_channel_callback_def c st3_def [symmetric] using assms(3) by simp
  have "\<exists>st'. fhss_unicast_handler env st = Some st' \<and> uc_slot st' = uc_slot st3 \<and> next_uc_timeout st' = next_uc_timeout st3"
    using assms(3,6,8) upd e timeout
    by (simp add: live fhss_unicast_handler_def Let_def delay u late r fhss_ws_get_sf_timeout_callback_def)
  moreover have "uc_slot st3 = uc_slot st + word_of_nat (Suc k)" by (simp add: st3_def)
  moreover have "next_uc_timeout st3 = next_uc_timeout st + to_u32 (int (Suc k) * MS_TO_US d)"
    using next_timeout_exact [OF assms(10)] assms(14) by (simp add: st3_def add.commute)
  ultimately show ?thesis by metis
qed


definition late_env :: fhss_env where
  "late_env = \<lparr>ts = (\<lambda>_. 345000), remaining_uc = 0, remaining_bc = 0, env_rnd = (\<lambda>a b. a),
     env_read32 = (\<lambda>a b c d. word_cat a b), own_mac = [0, 1, 2, 3, 4, 5, 6, 7], env_datarate = None,
     tx_queue_size = (\<lambda>_. 0)\<rparr>"


lemma bc_delay_small:
  assumes "d = of_u8 (cfg_bc_dwell_interval (fhss_configuration st))" and "b = of_u32 (cfg_broadcast_interval (fhss_configuration st))"
    and "0 < d" and "d < b" and "b \<le> 2000000" and "0 \<le> r" and "r + 500 < MS_TO_US d" and "r + 500 < MS_TO_US (b - d)"
  shows "bc_delay_update r st = Some (r, st)"
proof -
  have ms: "US_TO_MS r = (r + 500) div 1000" by (rule us_to_ms_nonneg [OF assms(6)])
  have m: "0 \<le> US_TO_MS r" "US_TO_MS r < d" unfolding ms using assms(6,7) by linarith+
  have m2: "US_TO_MS r < b - d" unfolding ms by (rule zdiv_less) (use assms(8) in simp_all)
  have uc: "of_u32 (uc_interval_ms st) = b - d"
  proof -
    have "uc_interval_ms st = to_u32 (b - d)" by (simp add: uc_interval_ms_def assms(1,2))
    then show ?thesis using assms(3-5) by (simp only: of_u32_to_u32)
  qed
  have off: "(US_TO_MS r + (b - d)) sdiv b = 0" "\<not> US_TO_MS r smod b > d" "\<not> US_TO_MS r + (b - d) > b"
    using m m2 assms(3,4) by (simp_all add: sdiv_nonneg smod_nonneg)
  have on: "(US_TO_MS r + d) sdiv b = 0" "\<not> US_TO_MS r smod b > b - d"
    using m m2 assms(3,4) by (simp_all add: sdiv_nonneg smod_nonneg)
  have nz: "\<not> b - d = 0" using assms(4) by simp
  have rr: "r smod MS_TO_US b = r" "r smod MS_TO_US (b - d) = r" "to_i32 r = r"
    using assms(3-8) by (simp_all add: smod_nonneg to_i32_small)
  show ?thesis
  proof (cases "is_on_bc_channel st")
    case False
    then show ?thesis unfolding bc_delay_update_def Let_def assms(1,2) [symmetric] uc off(1) if_not_P [OF off(2)] if_not_P [OF off(3)]
      by simp
  next
    case True
    then show ?thesis unfolding bc_delay_update_def Let_def assms(1,2) [symmetric] uc on(1) if_not_P [OF on(2)] rr if_not_P [OF nz]
      by simp
  qed
qed

lemma uc_event_timer_logs: "uc_event_timer rnd r st = Some st' \<Longrightarrow> \<exists>e. st' = fhss_log e st"
  by (auto simp: uc_event_timer_def Let_def split: if_splits option.splits)

lemma bc_event_timer_logs: "\<exists>e. bc_event_timer rnd st = fhss_log e st"
  by (auto simp: bc_event_timer_def Let_def)

lemma broadcast_handler_late:
  assumes "fhss_reach st" and "number_of_bc_channels st \<noteq> 0"
    and "mask_in_domain (cfg_channel_mask (fhss_configuration st)) st"
    and "cfg_bc_channel_function (fhss_configuration st) = WS_DH1CF"
    and "d = of_u8 (cfg_bc_dwell_interval (fhss_configuration st))" and "b = of_u32 (cfg_broadcast_interval (fhss_configuration st))"
    and "0 < d" and "d < b" and "b \<le> 2000000"
    and "drift_per_millisecond_ns st = 0" and "fhss_resolution_divider st = 1" and "next_bc_timeout st \<noteq> 0"
    and "ts env 0 = next_bc_timeout st + to_u32 r" and "0 \<le> r" and "r + 500 < MS_TO_US d" and "r + 500 < MS_TO_US (b - d)"
    and "ts env 1 = ts env 0" and "ts env 2 = ts env 0"
  shows "fhss_broadcast_handler env st =
    (if \<not> is_on_bc_channel st
     then let st = fhss_ws_start_timer (ts env 1) (to_u32 (MS_TO_US d - r)) fhss_broadcast_timer st;
              st = st\<lparr>is_on_bc_channel := True\<rparr>
          in case fhss_ws_calc_bc_channel st of
               None \<Rightarrow> None
             | Some (next_channel, st) \<Rightarrow>
                 let st = st\<lparr>bc_channel := word_of_int next_channel\<rparr>;
                     st = bc_event_timer (env_rnd env) st
                 in Some (fhss_log (Change_Channel (of_u8 (bc_channel st))) st)
     else let st = st\<lparr>unicast_start_time_us := ts env 1\<rparr>;
              st = fhss_ws_start_timer (ts env 2) (to_u32 (MS_TO_US (b - d)) - word_of_int r) fhss_broadcast_timer st;
              st = st\<lparr>is_on_bc_channel := False\<rparr>
          in map_option (\<lambda>st. fhss_log (Change_Channel (of_u8 (rx_channel st))) st)
               (uc_event_timer (env_rnd env) (remaining_bc env) st))"
proof -
  have "r < 2147483648" using assms(8,9,15) by linarith
  with assms(13,14) have delay: "sint (ts env 0 - next_bc_timeout st) = r" by (intro late_delay) simp_all
  have live: "\<not> (bc_slot st = 0 \<and> next_bc_timeout st = 0)" using assms(12) by simp
  have run: "\<not> (cfg_bc_dwell_interval (fhss_configuration st) = 0 \<or> cfg_broadcast_interval (fhss_configuration st) = 0)"
    using assms(5-8) by auto
  have dh: "\<not> (cfg_bc_channel_function (fhss_configuration st) = WS_TR51CF \<and> number_of_bc_channels st = 0)"
    "\<not> cfg_bc_channel_function (fhss_configuration st) = WS_TR51CF" using assms(4) by simp_all
  have div: "r * of_u8 (fhss_resolution_divider st) = r" by (simp add: assms(11))
  show ?thesis
    unfolding fhss_broadcast_handler_def Let_def if_not_P [OF run] if_not_P [OF live] delay
      bc_delay_small [OF assms(5-9,14-16)] option.case prod.case if_not_P [OF dh(1)] if_not_P [OF dh(2)] div assms(5,6) [symmetric] ..
qed

lemma broadcast_late_times:
  assumes "ts env 0 = timeout + to_u32 r" and "ts env 1 = ts env 0" and "ts env 2 = ts env 0"
  shows "ts env 1 + (to_u32 x - to_u32 r) = timeout + to_u32 x" and "ts env 2 = ts env 1"
  by (simp_all only: assms) simp

lemma broadcast_off_schedule:
  assumes "fhss_reach st" and "number_of_bc_channels st \<noteq> 0"
    and "mask_in_domain (cfg_channel_mask (fhss_configuration st)) st"
    and "cfg_bc_channel_function (fhss_configuration st) = WS_DH1CF"
    and "d = of_u8 (cfg_bc_dwell_interval (fhss_configuration st))" and "b = of_u32 (cfg_broadcast_interval (fhss_configuration st))"
    and "0 < d" and "d < b" and "b \<le> 2000000"
    and "drift_per_millisecond_ns st = 0" and "fhss_resolution_divider st = 1" and "next_bc_timeout st \<noteq> 0"
    and "ts env 0 = next_bc_timeout st + to_u32 r" and "0 \<le> r" and "r + 500 < MS_TO_US d" and "r + 500 < MS_TO_US (b - d)"
    and "ts env 1 = ts env 0" and "ts env 2 = ts env 0"
    and off: "\<not> is_on_bc_channel st"
  shows "\<exists>st'. fhss_broadcast_handler env st = Some st' \<and> is_on_bc_channel st' \<and> bc_slot st' = bc_slot st + 1 \<and>
    next_bc_timeout st' = next_bc_timeout st + to_u32 (MS_TO_US d)"
proof -
  note H = broadcast_handler_late [OF assms(1-18)]
  note now = broadcast_late_times [OF assms(13,17,18)]
  obtain e where e: "fhss_ws_start_timer (ts env 1) (to_u32 (MS_TO_US d - r)) fhss_broadcast_timer st =
      (fhss_log e st)\<lparr>next_bc_timeout := ts env 1 + to_u32 (MS_TO_US d - r)\<rparr>"
    using start_timer_exact(2) [OF assms(10)] by blast
  define st1 where "st1 = (fhss_log e st)\<lparr>next_bc_timeout := ts env 1 + to_u32 (MS_TO_US d - r), is_on_bc_channel := True\<rparr>"
  from fhss_reach_well_formed [OF assms(1)] assms(2) have ok:
    "length (cfg_channel_mask (fhss_configuration st1)) = 8"
    "unat (number_of_bc_channels st1) = enabled_count (cfg_channel_mask (fhss_configuration st1))"
    "number_of_bc_channels st1 \<noteq> 0" "cfg_bc_channel_function (fhss_configuration st1) = WS_DH1CF"
    "mask_in_domain (cfg_channel_mask (fhss_configuration st1)) st1"
    using assms(3,4) by (simp_all add: fhss_ok_def fhss_counts_ok_def Let_def st1_def mask_in_domain_def)
  from dh1cf_bc_listens [OF ok(1-3) _ _ ok(4)] ok(5) [unfolded mask_in_domain_def] obtain c where
    c: "fhss_ws_calc_bc_channel st1 = Some (int c, st1\<lparr>bc_slot := bc_slot st1 + 1\<rparr>)" by blast
  obtain e2 where e2: "bc_event_timer (env_rnd env) (st1\<lparr>bc_slot := bc_slot st1 + 1, bc_channel := word_of_int (int c)\<rparr>) =
      fhss_log e2 (st1\<lparr>bc_slot := bc_slot st1 + 1, bc_channel := word_of_int (int c)\<rparr>)"
    using bc_event_timer_logs by blast
  note H' = H [unfolded if_P [OF off] e Let_def, folded st1_def, unfolded c option.case prod.case e2]
  show ?thesis unfolding H' using now(1) [of "MS_TO_US d"] by (simp add: st1_def)
qed

lemma broadcast_on_schedule:
  assumes "fhss_reach st" and "number_of_bc_channels st \<noteq> 0"
    and "mask_in_domain (cfg_channel_mask (fhss_configuration st)) st"
    and "cfg_bc_channel_function (fhss_configuration st) = WS_DH1CF"
    and "d = of_u8 (cfg_bc_dwell_interval (fhss_configuration st))" and "b = of_u32 (cfg_broadcast_interval (fhss_configuration st))"
    and "0 < d" and "d < b" and "b \<le> 2000000"
    and "drift_per_millisecond_ns st = 0" and "fhss_resolution_divider st = 1" and "next_bc_timeout st \<noteq> 0"
    and "ts env 0 = next_bc_timeout st + to_u32 r" and "0 \<le> r" and "r + 500 < MS_TO_US d" and "r + 500 < MS_TO_US (b - d)"
    and "ts env 1 = ts env 0" and "ts env 2 = ts env 0"
    and on: "is_on_bc_channel st" and "fhss_broadcast_handler env st = Some st'"
  shows "\<not> is_on_bc_channel st' \<and> bc_slot st' = bc_slot st \<and>
    next_bc_timeout st' = next_bc_timeout st + to_u32 (MS_TO_US (b - d))"
proof -
  note H = assms(20) [unfolded broadcast_handler_late [OF assms(1-18)]]
  note now = broadcast_late_times [OF assms(13,17,18)]
  have nn: "\<not> \<not> is_on_bc_channel st" using on by simp
  let ?st1 = "st\<lparr>unicast_start_time_us := ts env 1\<rparr>"
  obtain e where e: "fhss_ws_start_timer (ts env 2) (to_u32 (MS_TO_US (b - d)) - word_of_int r) fhss_broadcast_timer ?st1 =
      (fhss_log e ?st1)\<lparr>next_bc_timeout := ts env 2 + (to_u32 (MS_TO_US (b - d)) - word_of_int r)\<rparr>"
    using start_timer_exact(2) [of ?st1] assms(10) by auto
  note H' = H [unfolded if_not_P [OF nn] Let_def e]
  then obtain st2 where st2: "uc_event_timer (env_rnd env) (remaining_bc env) ((fhss_log e ?st1)\<lparr>next_bc_timeout :=
      ts env 2 + (to_u32 (MS_TO_US (b - d)) - word_of_int r), is_on_bc_channel := False\<rparr>) = Some st2"
    "st' = fhss_log (Change_Channel (of_u8 (rx_channel st2))) st2"
    by (auto split: option.splits)
  from uc_event_timer_logs [OF st2(1)] obtain e2 where "st2 = fhss_log e2 ((fhss_log e ?st1)\<lparr>next_bc_timeout :=
      ts env 2 + (to_u32 (MS_TO_US (b - d)) - word_of_int r), is_on_bc_channel := False\<rparr>)" by blast
  then show ?thesis unfolding st2(2) using now(1) [of "MS_TO_US (b - d)"] now(2) by simp
qed


text \<open>The example node after it has followed a parent, 80 ms late at the end of the broadcast slot.\<close>

definition parent_bc :: bc_timing_info_t where
  "parent_bc = \<lparr>bt_rx_timestamp = 345000, broadcast_slot = 7, broadcast_interval_offset = 300,
     broadcast_channel_function = WS_DH1CF, bc_fixed = 0, broadcast_dwell_interval = 200, broadcast_interval = 1000,
     broadcast_schedule_id = 0x1234\<rparr>"

definition parent_state :: fhss_t where
  "parent_state = dh_state\<lparr>
     fhss_configuration := dh_cfg\<lparr>cfg_bc_dwell_interval := 200, cfg_broadcast_interval := 1000\<rparr>,
     synchronization_time := 345000, next_bc_timeout := 1045000, broadcast_timer_running := True,
     is_on_bc_channel := False, txrx_slot_length_ms := 100, bc_slot := 7, parent_bc_info := Some parent_bc,
     fhss_out := Timer_Start fhss_broadcast_timer 700000 # Timer_Stop fhss_broadcast_timer # fhss_out dh_state\<rparr>"

lemma parent_state: "fhss_ws_set_parent True late_env parent_bc True dh_state = Some (0, parent_state)"
  by (simp add: parent_state_def fhss_ws_set_parent_def parent_bc_def late_env_def dh_defs Let_def txrx_slot_tmp_def
      fhss_ws_start_timer_def fhss_start_timer_def fhss_stop_timer_def fhss_set_txrx_slot_length_def divide_integer_def
      uc_interval_ms_def)

definition later_env :: fhss_env where
  "later_env = late_env\<lparr>ts := (\<lambda>_. 1045000 + 80000)\<rparr>"

definition later_state :: fhss_t where
  "later_state = the (fhss_broadcast_handler later_env parent_state)"

lemma parent_state_facts:
  "cfg_channel_mask (fhss_configuration parent_state) = [15, 0, 0, 0, 0, 0, 0, 0]"
  "fhss_number_of_channels parent_state = fhss_number_of_channels dh_state" "number_of_bc_channels parent_state = 4"
  "cfg_bc_channel_function (fhss_configuration parent_state) = WS_DH1CF"
  "cfg_bc_dwell_interval (fhss_configuration parent_state) = 200" "cfg_broadcast_interval (fhss_configuration parent_state) = 1000"
  "drift_per_millisecond_ns parent_state = 0" "fhss_resolution_divider parent_state = 1"
  "next_bc_timeout parent_state = 1045000" "is_on_bc_channel parent_state = False"
  by (simp_all add: parent_state_def dh_defs)

lemma later_ts: "ts later_env k = 1125000"
  by (simp add: later_env_def late_env_def)


end
