(* ===== verification/MacIe.thy ===== *)
theory MacIe
  imports Prelude
begin

text \<open>
  The IEEE 802.15.4 information elements (\<open>6LoWPAN/MAC/mac_ie_lib.c\<close>): the two-byte descriptors of
  header, payload and nested elements, their writers, and the loops that search a received list of
  elements. A received frame is a byte list and a C pointer into it is a position; a read outside
  the frame is \<open>None\<close>. The byte-order routines \<open>common_read_..\<close> and \<open>common_write_..\<close> belong to an
  external library and are the parameter \<open>codec\<close>, as is the element identifier of vendor header
  elements, which the external MAC header file defines.
\<close>

section \<open>Byte order and memory\<close>

record codec =
  read_16_inv :: "bytes \<Rightarrow> u16"
  read_24_inv :: "bytes \<Rightarrow> u32"
  read_32_inv :: "bytes \<Rightarrow> u32"
  write_16_inv :: "u16 \<Rightarrow> bytes"
  write_24_inv :: "u32 \<Rightarrow> bytes"
  write_32_inv :: "u32 \<Rightarrow> bytes"
  write_32 :: "u32 \<Rightarrow> bytes"
  org_ie_id :: u8

text \<open>
  The documented contract: the \<open>_inverse\<close> routines store the least significant byte first, a 24-bit
  write stores the low 24 bits of its argument, \<open>common_write_32_bit\<close> the most significant first.
\<close>

definition codec_ok :: "codec \<Rightarrow> bool" where
  "codec_ok c \<longleftrightarrow>
     (\<forall>x y. read_16_inv c [x, y] = ucast x OR push_bit 8 (ucast y)) \<and>
     (\<forall>x y z. read_24_inv c [x, y, z] = ucast x OR push_bit 8 (ucast y) OR push_bit 16 (ucast z)) \<and>
     (\<forall>x y z t. read_32_inv c [x, y, z, t] =
        ucast x OR push_bit 8 (ucast y) OR push_bit 16 (ucast z) OR push_bit 24 (ucast t)) \<and>
     (\<forall>w. write_16_inv c w = [ucast w, ucast (drop_bit 8 w)]) \<and>
     (\<forall>w. write_24_inv c w = [ucast w, ucast (drop_bit 8 w), ucast (drop_bit 16 w)]) \<and>
     (\<forall>w. write_32_inv c w =
        [ucast w, ucast (drop_bit 8 w), ucast (drop_bit 16 w), ucast (drop_bit 24 w)]) \<and>
     (\<forall>w. write_32 c w =
        [ucast (drop_bit 24 w), ucast (drop_bit 16 w), ucast (drop_bit 8 w), ucast w])"

definition little_endian :: codec where
  "little_endian = \<lparr>
     read_16_inv = (\<lambda>bs. ucast (bs ! 0) OR push_bit 8 (ucast (bs ! 1))),
     read_24_inv = (\<lambda>bs. ucast (bs ! 0) OR push_bit 8 (ucast (bs ! 1)) OR push_bit 16 (ucast (bs ! 2))),
     read_32_inv = (\<lambda>bs. ucast (bs ! 0) OR push_bit 8 (ucast (bs ! 1)) OR push_bit 16 (ucast (bs ! 2))
       OR push_bit 24 (ucast (bs ! 3))),
     write_16_inv = (\<lambda>w. [ucast w, ucast (drop_bit 8 w)]),
     write_24_inv = (\<lambda>w. [ucast w, ucast (drop_bit 8 w), ucast (drop_bit 16 w)]),
     write_32_inv = (\<lambda>w. [ucast w, ucast (drop_bit 8 w), ucast (drop_bit 16 w), ucast (drop_bit 24 w)]),
     write_32 = (\<lambda>w. [ucast (drop_bit 24 w), ucast (drop_bit 16 w), ucast (drop_bit 8 w), ucast w]),
     org_ie_id = 0x2a\<rparr>"

lemma little_endian_ok: "codec_ok little_endian"
  by (simp add: codec_ok_def little_endian_def)

lemma codec_ok_write:
  assumes "codec_ok c"
  shows "write_16_inv c w16 = [ucast w16, ucast (drop_bit 8 w16)]"
    and "write_24_inv c w = [ucast w, ucast (drop_bit 8 w), ucast (drop_bit 16 w)]"
    and "write_32_inv c w = [ucast w, ucast (drop_bit 8 w), ucast (drop_bit 16 w), ucast (drop_bit 24 w)]"
    and "write_32 c w = [ucast (drop_bit 24 w), ucast (drop_bit 16 w), ucast (drop_bit 8 w), ucast w]"
  using assms unfolding codec_ok_def by simp_all

lemma codec_ok_read:
  assumes "codec_ok c"
  shows "read_16_inv c [b0, b1] = ucast b0 OR push_bit 8 (ucast b1)"
    and "read_24_inv c [b0, b1, b2] = ucast b0 OR push_bit 8 (ucast b1) OR push_bit 16 (ucast b2)"
    and "read_32_inv c [b0, b1, b2, b3] =
           ucast b0 OR push_bit 8 (ucast b1) OR push_bit 16 (ucast b2) OR push_bit 24 (ucast b3)"
  using assms unfolding codec_ok_def by blast+

lemma read_write_16:
  assumes "codec_ok c"
  shows "read_16_inv c (write_16_inv c w) = w"
  by (simp add: codec_ok_write [OF assms] codec_ok_read [OF assms])
     (auto intro!: bit_word_eqI simp: bit_simps)

lemma byte_position:
  assumes "n < LENGTH(32)"
  obtains "n < 8" | m where "n = 8 + m" "m < 8" | m where "n = 16 + m" "m < 8"
    | m where "n = 24 + m" "m < (8 :: nat)"
proof -
  have "n < 8 \<or> (\<exists>m. n = 8 + m \<and> m < 8) \<or> (\<exists>m. n = 16 + m \<and> m < 8) \<or> (\<exists>m. n = 24 + m \<and> m < 8)"
    using assms by (simp) presburger
  then show ?thesis using that by blast
qed

lemma read_write_24:
  assumes "codec_ok c"
  shows "read_24_inv c (write_24_inv c w) = take_bit 24 w"
proof (rule bit_word_eqI)
  fix n assume "n < LENGTH(32)"
  then consider "n < 8" | m where "n = 8 + m" "m < 8" | m where "n = 16 + m" "m < 8"
    | m where "n = 24 + m" "m < 8"
    by (rule byte_position)
  then show "bit (read_24_inv c (write_24_inv c w)) n \<longleftrightarrow> bit (take_bit 24 w) n"
    by cases (auto simp: codec_ok_write [OF assms] codec_ok_read [OF assms] bit_simps)
qed

lemma read_write_32:
  assumes "codec_ok c"
  shows "read_32_inv c (write_32_inv c w) = w"
proof (rule bit_word_eqI)
  fix n assume "n < LENGTH(32)"
  then consider "n < 8" | m where "n = 8 + m" "m < 8" | m where "n = 16 + m" "m < 8"
    | m where "n = 24 + m" "m < 8"
    by (rule byte_position)
  then show "bit (read_32_inv c (write_32_inv c w)) n \<longleftrightarrow> bit w n"
    by cases (auto simp: codec_ok_write [OF assms] codec_ok_read [OF assms] bit_simps)
qed

lemma codec_write_length [simp]:
  assumes "codec_ok c"
  shows "length (write_16_inv c w16) = 2" "length (write_24_inv c w) = 3"
    "length (write_32_inv c w) = 4" "length (write_32 c w) = 4"
  using assms by (simp_all add: codec_ok_write)

text \<open>Reading \<open>n\<close> bytes at a position.\<close>

definition fetch :: "bytes \<Rightarrow> nat \<Rightarrow> nat \<Rightarrow> bytes option" where
  "fetch buf p n = (if p + n \<le> length buf then Some (take n (drop p buf)) else None)"

lemma fetch_Some: "p + n \<le> length buf \<Longrightarrow> fetch buf p n = Some (take n (drop p buf))"
  by (simp add: fetch_def)

lemma fetch_mid:
  assumes "p = length pre" and "n = length xs"
  shows "fetch (pre @ xs @ post) p n = Some xs"
  using assms by (simp add: fetch_def)

section \<open>Descriptors\<close>

text \<open>
  A parsed element: where its content starts, its length and its identifier. The external
  header file gives the widths of the fields of \<open>mac_header_IE_t\<close> and \<open>mac_payload_IE_t\<close>; the
  masks below keep every value they are assigned within eight bits for identifiers and sixteen
  for lengths.
\<close>

record mac_IE_t =
  content_ptr :: nat
  ie_length :: u16
  ie_id :: u8

record mac_nested_payload_IE_t = mac_IE_t +
  type_long :: bool

definition mac_ie_header_parse :: "codec \<Rightarrow> bytes \<Rightarrow> nat \<Rightarrow> mac_IE_t option" where
  "mac_ie_header_parse c buf p =
     (case fetch buf p 2 of
        None \<Rightarrow> None
      | Some bs \<Rightarrow>
          let ie_dummy = read_16_inv c bs in
          Some \<lparr>content_ptr = p + 2, ie_length = ie_dummy AND 0x007f,
                ie_id = ucast (drop_bit 7 (ie_dummy AND 0x7f80))\<rparr>)"

definition mac_ie_payload_parse :: "codec \<Rightarrow> bytes \<Rightarrow> nat \<Rightarrow> mac_IE_t option" where
  "mac_ie_payload_parse c buf p =
     (case fetch buf p 2 of
        None \<Rightarrow> None
      | Some bs \<Rightarrow>
          let ie_dummy = read_16_inv c bs in
          Some \<lparr>content_ptr = p + 2, ie_length = ie_dummy AND 0x07ff,
                ie_id = ucast (drop_bit 11 (ie_dummy AND 0x7800))\<rparr>)"

definition mac_ie_nested_id_parse :: "codec \<Rightarrow> bytes \<Rightarrow> nat \<Rightarrow> mac_nested_payload_IE_t option" where
  "mac_ie_nested_id_parse c buf p =
     (case fetch buf p 2 of
        None \<Rightarrow> None
      | Some bs \<Rightarrow>
          let ie_dummy = read_16_inv c bs in
          Some (if ie_dummy AND 0x8000 \<noteq> 0
                then \<lparr>content_ptr = p + 2, ie_length = ie_dummy AND 0x07ff,
                      ie_id = ucast (drop_bit 11 (ie_dummy AND 0x7800)), type_long = True\<rparr>
                else \<lparr>content_ptr = p + 2, ie_length = ie_dummy AND 0x00ff,
                      ie_id = ucast (drop_bit 8 (ie_dummy AND 0x7f00)), type_long = False\<rparr>))"

section \<open>Writers\<close>

text \<open>A writer is the bytes it stores at its pointer; it returns the pointer behind them.\<close>

definition mac_ie_header_base_write :: "codec \<Rightarrow> u8 \<Rightarrow> u16 \<Rightarrow> bytes" where
  "mac_ie_header_base_write c ty len =
     write_16_inv c ((len AND 0x007f) OR (push_bit 7 (ucast ty) AND 0x7f80))"

definition mac_ie_payload_base_write :: "codec \<Rightarrow> u8 \<Rightarrow> u16 \<Rightarrow> bytes" where
  "mac_ie_payload_base_write c ty len =
     write_16_inv c (0x8000 OR (len AND 0x07ff) OR (push_bit 11 (ucast ty) AND 0x7800))"

definition mac_ie_nested_ie_long_base_write :: "codec \<Rightarrow> u8 \<Rightarrow> u16 \<Rightarrow> bytes" where
  "mac_ie_nested_ie_long_base_write c sub_id len =
     write_16_inv c (0x8000 OR (len AND 0x07ff) OR (push_bit 11 (ucast sub_id) AND 0x7800))"

definition mac_ie_nested_ie_short_base_write :: "codec \<Rightarrow> u8 \<Rightarrow> u16 \<Rightarrow> bytes" where
  "mac_ie_nested_ie_short_base_write c sub_id len =
     write_16_inv c ((len AND 0x00ff) OR (push_bit 8 (ucast sub_id) AND 0x7f00))"

section \<open>Searching\<close>

text \<open>
  The result of a search is \<open>None\<close> when it reads outside the frame, and otherwise the returned
  length and the element the out-parameter is set to, if one is found. The pointer moves by at
  least two bytes in every iteration, so the loops end whatever the sixteen-bit \<open>length\<close> does,
  which wraps around when an element claims more than is left.
\<close>

function mac_ie_payload_discover ::
  "codec \<Rightarrow> bytes \<Rightarrow> nat \<Rightarrow> u16 \<Rightarrow> u8 \<Rightarrow> (u16 \<times> mac_IE_t option) option" where
  "mac_ie_payload_discover c buf p len i =
     (if 2 \<le> len
      then case mac_ie_payload_parse c buf p of
             None \<Rightarrow> None
           | Some e \<Rightarrow>
               if i = ie_id e then Some (ie_length e, Some e)
               else mac_ie_payload_discover c buf (p + unat (ie_length e) + 2)
                      (len - (ie_length e + 2)) i
      else Some (0, None))"
  by pat_completeness auto
termination
  by (relation "measure (\<lambda>(c, buf, p, len, i). length buf - p)")
     (auto simp: mac_ie_payload_parse_def fetch_def split: option.splits if_splits)

function mac_ie_nested_discover ::
  "codec \<Rightarrow> bytes \<Rightarrow> nat \<Rightarrow> u16 \<Rightarrow> bool \<Rightarrow> u8 \<Rightarrow> (u16 \<times> mac_nested_payload_IE_t option) option" where
  "mac_ie_nested_discover c buf p len lng i =
     (if 2 \<le> len
      then case mac_ie_nested_id_parse c buf p of
             None \<Rightarrow> None
           | Some e \<Rightarrow>
               if unat len < unat (ie_length e) + 2 then Some (0, None)
               else if i = ie_id e \<and> lng = type_long e then Some (ie_length e, Some e)
               else mac_ie_nested_discover c buf (p + unat (ie_length e) + 2)
                      (len - (ie_length e + 2)) lng i
      else Some (0, None))"
  by pat_completeness auto
termination
  by (relation "measure (\<lambda>(c, buf, p, len, lng, i). length buf - p)")
     (auto simp: mac_ie_nested_id_parse_def fetch_def split: option.splits if_splits)

function mac_ie_header_discover ::
  "codec \<Rightarrow> bytes \<Rightarrow> nat \<Rightarrow> u16 \<Rightarrow> u8 \<Rightarrow> (u16 \<times> mac_IE_t option) option" where
  "mac_ie_header_discover c buf p len i =
     (if 2 \<le> len
      then case mac_ie_header_parse c buf p of
             None \<Rightarrow> None
           | Some e \<Rightarrow>
               if i = ie_id e then Some (ie_length e, Some e)
               else mac_ie_header_discover c buf (p + unat (ie_length e) + 2)
                      (len - (ie_length e + 2)) i
      else Some (0, None))"
  by pat_completeness auto
termination
  by (relation "measure (\<lambda>(c, buf, p, len, i). length buf - p)")
     (auto simp: mac_ie_header_parse_def fetch_def split: option.splits if_splits)

function mac_ie_header_sub_id_discover ::
  "codec \<Rightarrow> bytes \<Rightarrow> nat \<Rightarrow> u16 \<Rightarrow> u8 \<Rightarrow> u8 \<Rightarrow> (u16 \<times> mac_IE_t option) option" where
  "mac_ie_header_sub_id_discover c buf p len i sub_id =
     (if 2 < len
      then case mac_ie_header_parse c buf p of
             None \<Rightarrow> None
           | Some e \<Rightarrow>
               let next_one = mac_ie_header_sub_id_discover c buf (p + unat (ie_length e) + 2)
                                (len - (ie_length e + 2)) i sub_id in
               if ie_length e \<noteq> 0 \<and> i = ie_id e
               then case fetch buf (content_ptr e) 1 of
                      None \<Rightarrow> None
                    | Some bs \<Rightarrow>
                        if hd bs = sub_id
                        then Some (ie_length e - 1,
                          Some (e\<lparr>content_ptr := content_ptr e + 1, ie_length := ie_length e - 1\<rparr>))
                        else next_one
               else next_one
      else Some (0, None))"
  by pat_completeness auto
termination
  by (relation "measure (\<lambda>(c, buf, p, len, i, sub_id). length buf - p)")
     (auto simp: mac_ie_header_parse_def fetch_def split: option.splits if_splits)

declare mac_ie_payload_discover.simps [simp del]
declare mac_ie_nested_discover.simps [simp del]
declare mac_ie_header_discover.simps [simp del]
declare mac_ie_header_sub_id_discover.simps [simp del]

end
