(* ===== verification/WsIe.thy ===== *)
theory WsIe
  imports MacIe
begin

text \<open>
  The Wi-SUN information elements (\<open>6LoWPAN/ws/ws_ie_lib.c\<close>): header elements behind the vendor
  element of the external MAC, nested elements of the Wi-SUN payload element, and the hopping
  schedule with its channel plan, channel function and excluded channels. A writer is the bytes it
  stores; \<open>None\<close> is a read outside the array it copies from. The structures here are the ones on
  the wire, whose fields are the integers of the C structures.
\<close>

section \<open>Data\<close>

record ws_fc_ie_t =
  tx_flow_ctrl :: u8
  rx_flow_ctrl :: u8

record ws_pan_information_t =
  pan_size :: u16
  pan_routing_cost :: u16
  pan_version :: u16
  use_parent_bs :: bool
  rpl_routing_method :: bool
  pan_version_set :: bool
  version :: "3 word"

text \<open>\<open>exluded_range\<close> is an array of three ranges, \<open>channel_mask\<close> one of eight words.\<close>

record ws_excluded_channel_data_t =
  excuded_channel_ctrl :: "2 word"
  excluded_range_length :: "3 word"
  exluded_range :: "(u16 \<times> u16) list"
  channel_mask_bytes_inline :: u8
  excluded_mask :: "u32 list"

record hopping_wire =
  hw_uc_dwell_interval :: u8
  hw_bc_dwell_interval :: u8
  hw_regulatory_domain :: u8
  hw_operating_class :: u8
  hw_channel_plan :: u8
  hw_uc_channel_function :: u8
  hw_bc_channel_function :: u8
  hw_channel_spacing :: u8
  hw_number_of_channels :: u8
  hw_clock_drift :: u8
  hw_timing_accurancy :: u8
  hw_uc_fixed_channel :: u16
  hw_bc_fixed_channel :: u16
  hw_fhss_bsi :: u16
  hw_fhss_broadcast_interval :: u32
  hw_ch0_freq :: u32
  hw_excluded_channels :: ws_excluded_channel_data_t

text \<open>What a reader fills in; the unions of the C structures are datatypes.\<close>

record utt_wire =
  uw_message_type :: u8
  uw_ufsi :: u32

record bt_wire =
  bw_slot_number :: u16
  bw_interval_offset :: u32

datatype channel_plan_read =
  Plan_zero (regulator_domain: u8) (operation_class: u8)
| Plan_one (plan_ch0: u32) (plan_channel_spacing: "4 word") (number_of_channel: u16)

datatype channel_function_read =
  Function_none
| Function_zero (fixed_channel: u16)
| Function_three (channel_hop_count: u8) (channel_list: nat)

datatype excluded_read =
  Excluded_none
| Excluded_range (number_of_range: u8) (range_start: nat)
| Excluded_mask (mask_start: nat) (mask_len_inline: u8)

record us_wire =
  us_dwell :: u8
  us_drift :: u8
  us_accurancy :: u8
  us_plan :: channel_plan_read
  us_function :: channel_function_read
  us_excluded :: excluded_read
  us_plan_id :: "3 word"
  us_function_id :: "3 word"
  us_excluded_ctrl :: "2 word"

record bs_wire =
  bs_interval :: u32
  bs_identifier :: u16
  bs_dwell :: u8
  bs_drift :: u8
  bs_accurancy :: u8
  bs_plan :: channel_plan_read
  bs_function :: channel_function_read
  bs_plan_id :: "3 word"
  bs_function_id :: "3 word"
  bs_excluded_ctrl :: "2 word"

record vp_wire =
  vp_vendor_id :: u8
  vp_network_pan_id :: u16

section \<open>Header elements\<close>

definition ws_wh_header_base_write :: "codec \<Rightarrow> u16 \<Rightarrow> u8 \<Rightarrow> bytes" where
  "ws_wh_header_base_write c len ty = mac_ie_header_base_write c (org_ie_id c) (len + 1) @ [ty]"

definition ws_wh_utt_write :: "codec \<Rightarrow> u8 \<Rightarrow> bytes" where
  "ws_wh_utt_write c message_type = ws_wh_header_base_write c 4 1 @ [message_type, 0, 0, 0]"

definition ws_wh_bt_write :: "codec \<Rightarrow> bytes" where
  "ws_wh_bt_write c = ws_wh_header_base_write c 5 2 @ [0, 0, 0, 0, 0]"

definition ws_wh_fc_write :: "codec \<Rightarrow> ws_fc_ie_t \<Rightarrow> bytes" where
  "ws_wh_fc_write c fc = ws_wh_header_base_write c 2 3 @ [tx_flow_ctrl fc, rx_flow_ctrl fc]"

definition ws_wh_rsl_write :: "codec \<Rightarrow> u8 \<Rightarrow> bytes" where
  "ws_wh_rsl_write c rsl = ws_wh_header_base_write c 1 4 @ [rsl]"

definition ws_wh_ea_write :: "codec \<Rightarrow> bytes \<Rightarrow> bytes" where
  "ws_wh_ea_write c eui64 = ws_wh_header_base_write c 8 9 @ take 8 eui64"

definition ws_wh_vh_write :: "codec \<Rightarrow> bytes \<Rightarrow> u8 \<Rightarrow> bytes" where
  "ws_wh_vh_write c vendor_header vendor_header_length =
     ws_wh_header_base_write c (ucast vendor_header_length) 6 @
     (if vendor_header_length \<noteq> 0 then take (unat vendor_header_length) vendor_header else [])"

text \<open>
  The readers: \<open>None\<close> is a read outside the frame, \<open>Some None\<close> the result false. No caller looks at
  what a reader that returned false left in the structure.
\<close>

definition wh_read :: "codec \<Rightarrow> bytes \<Rightarrow> nat \<Rightarrow> u16 \<Rightarrow> u16 \<Rightarrow> u8 \<Rightarrow> bytes option option" where
  "wh_read c buf data len expected ty =
     (case mac_ie_header_sub_id_discover c buf data len (org_ie_id c) ty of
        None \<Rightarrow> None
      | Some (n, out) \<Rightarrow>
          if expected \<noteq> n then Some None
          else case out of
                 None \<Rightarrow> Some None
               | Some e \<Rightarrow> map_option Some (fetch buf (content_ptr e) (unat expected)))"

definition ws_wh_utt_read :: "codec \<Rightarrow> bytes \<Rightarrow> nat \<Rightarrow> u16 \<Rightarrow> utt_wire option option" where
  "ws_wh_utt_read c buf data len =
     map_option (map_option (\<lambda>bs. \<lparr>uw_message_type = hd bs, uw_ufsi = read_24_inv c (tl bs)\<rparr>))
       (wh_read c buf data len 4 1)"

definition ws_wh_bt_read :: "codec \<Rightarrow> bytes \<Rightarrow> nat \<Rightarrow> u16 \<Rightarrow> bt_wire option option" where
  "ws_wh_bt_read c buf data len =
     map_option (map_option (\<lambda>bs. \<lparr>bw_slot_number = read_16_inv c (take 2 bs),
         bw_interval_offset = read_24_inv c (drop 2 bs)\<rparr>))
       (wh_read c buf data len 5 2)"

definition ws_wh_fc_read :: "codec \<Rightarrow> bytes \<Rightarrow> nat \<Rightarrow> u16 \<Rightarrow> ws_fc_ie_t option option" where
  "ws_wh_fc_read c buf data len =
     map_option (map_option (\<lambda>bs. \<lparr>tx_flow_ctrl = bs ! 0, rx_flow_ctrl = bs ! 1\<rparr>))
       (wh_read c buf data len 2 3)"

definition ws_wh_rsl_read :: "codec \<Rightarrow> bytes \<Rightarrow> nat \<Rightarrow> u16 \<Rightarrow> u8 option option" where
  "ws_wh_rsl_read c buf data len = map_option (map_option hd) (wh_read c buf data len 1 4)"

definition ws_wh_ea_read :: "codec \<Rightarrow> bytes \<Rightarrow> nat \<Rightarrow> u16 \<Rightarrow> bytes option option" where
  "ws_wh_ea_read c buf data len = wh_read c buf data len 8 9"

section \<open>Hopping schedule: lengths\<close>

definition ws_channel_plan_length :: "u8 \<Rightarrow> u16" where
  "ws_channel_plan_length plan = (if plan = 0 then 2 else if plan = 1 then 6 else 0)"

definition ws_channel_function_length :: "u8 \<Rightarrow> u16 \<Rightarrow> u16" where
  "ws_channel_function_length cf hop_channel_count =
     (if cf = 0 then 2 else if cf = 1 \<or> cf = 2 then 0 else if cf = 3 then 1 + hop_channel_count else 0)"

definition ws_wp_nested_hopping_schedule_length :: "hopping_wire \<Rightarrow> bool \<Rightarrow> u16" where
  "ws_wp_nested_hopping_schedule_length hs unicast_schedule =
     (let exc = hw_excluded_channels hs;
          len = (if unicast_schedule then 4 else 10);
          cf = (if unicast_schedule then hw_uc_channel_function hs else hw_bc_channel_function hs);
          len = len + ws_channel_plan_length (hw_channel_plan hs);
          len = len + ws_channel_function_length cf 1
      in if unicast_schedule \<and> excuded_channel_ctrl exc \<noteq> 0
         then if excuded_channel_ctrl exc = 1
              then len + (ucast (excluded_range_length exc) * 4 + 1)
              else len + ucast (channel_mask_bytes_inline exc)
         else len)"

section \<open>Hopping schedule: writing\<close>

text \<open>The loop over \<open>exluded_range\<close>; \<open>None\<close> when it runs behind the array.\<close>

fun excluded_ranges_write :: "codec \<Rightarrow> nat \<Rightarrow> (u16 \<times> u16) list \<Rightarrow> bytes option" where
  "excluded_ranges_write c 0 rs = Some []"
| "excluded_ranges_write c (Suc n) [] = None"
| "excluded_ranges_write c (Suc n) ((lo, hi) # rs) =
     map_option (\<lambda>bs. write_16_inv c lo @ write_16_inv c hi @ bs) (excluded_ranges_write c n rs)"

text \<open>
  The loop over the mask words: whole words while 32 bits are left, then the top bytes of the word
  that is left over (\<open>channel_mask_length\<close> is a multiple of eight); at most eight words.
\<close>

fun excluded_mask_write :: "codec \<Rightarrow> u32 list \<Rightarrow> u16 \<Rightarrow> bytes" where
  "excluded_mask_write c [] n = []"
| "excluded_mask_write c (m # ms) n =
     (if 32 \<le> n
      then write_32 c m @ (if n - 32 = 0 then [] else excluded_mask_write c ms (n - 32))
      else map (\<lambda>j. ucast (drop_bit (24 - 8 * j) m)) [0..<unat n div 8])"

definition channel_plan_write :: "codec \<Rightarrow> hopping_wire \<Rightarrow> bytes" where
  "channel_plan_write c hs =
     (if hw_channel_plan hs = 0 then [hw_regulatory_domain hs, hw_operating_class hs]
      else if hw_channel_plan hs = 1
      then write_24_inv c (hw_ch0_freq hs * 100) @ [hw_channel_spacing hs]
           @ write_16_inv c (ucast (hw_number_of_channels hs))
      else [])"

definition channel_function_write :: "codec \<Rightarrow> u8 \<Rightarrow> u16 \<Rightarrow> bytes" where
  "channel_function_write c cf fixed =
     (if cf = 0 then write_16_inv c fixed
      else if cf = 1 \<or> cf = 2 then []
      else if cf = 3 then [1, 0]
      else [])"

definition excluded_write :: "codec \<Rightarrow> ws_excluded_channel_data_t \<Rightarrow> bytes option" where
  "excluded_write c exc =
     (if excuded_channel_ctrl exc = 1
      then map_option (\<lambda>bs. ucast (excluded_range_length exc) # bs)
             (excluded_ranges_write c (unat (excluded_range_length exc)) (exluded_range exc))
      else if excuded_channel_ctrl exc = 2
      then Some (excluded_mask_write c (excluded_mask exc) (ucast (channel_mask_bytes_inline exc) * 8))
      else Some [])"

definition ws_wp_nested_hopping_schedule_write :: "codec \<Rightarrow> hopping_wire \<Rightarrow> bool \<Rightarrow> bytes option" where
  "ws_wp_nested_hopping_schedule_write c hs unicast_schedule =
     (let len = ws_wp_nested_hopping_schedule_length hs unicast_schedule;
          exc = hw_excluded_channels hs;
          lead = (if \<not> unicast_schedule
                  then mac_ie_nested_ie_long_base_write c 2 len
                       @ write_32_inv c (hw_fhss_broadcast_interval hs)
                       @ write_16_inv c (hw_fhss_bsi hs) @ [hw_bc_dwell_interval hs]
                  else mac_ie_nested_ie_long_base_write c 1 len @ [hw_uc_dwell_interval hs]);
          base = (if unicast_schedule
                  then hw_channel_plan hs OR push_bit 3 (hw_uc_channel_function hs)
                       OR push_bit 6 (ucast (excuded_channel_ctrl exc))
                  else hw_channel_plan hs OR push_bit 3 (hw_bc_channel_function hs));
          cf = (if \<not> unicast_schedule then hw_bc_channel_function hs else hw_uc_channel_function hs);
          fixed = (if \<not> unicast_schedule then hw_bc_fixed_channel hs else hw_uc_fixed_channel hs);
          bytes = lead @ [hw_clock_drift hs, hw_timing_accurancy hs, base]
                  @ channel_plan_write c hs @ channel_function_write c cf fixed
      in if unicast_schedule \<and> excuded_channel_ctrl exc \<noteq> 0
         then map_option (\<lambda>bs. bytes @ bs) (excluded_write c exc)
         else Some bytes)"

section \<open>The other nested elements: writing\<close>

definition ws_wp_base_write :: "codec \<Rightarrow> u16 \<Rightarrow> bytes" where
  "ws_wp_base_write c len = mac_ie_payload_base_write c 4 len"

definition ws_wp_nested_vp_write :: "codec \<Rightarrow> bytes \<Rightarrow> u16 \<Rightarrow> bytes" where
  "ws_wp_nested_vp_write c vendor_payload len =
     (if len \<noteq> 0 then mac_ie_nested_ie_long_base_write c 3 len @ take (unat len) vendor_payload else [])"

definition ws_wp_nested_pan_info_write :: "codec \<Rightarrow> ws_pan_information_t option \<Rightarrow> bytes" where
  "ws_wp_nested_pan_info_write c pan =
     (case pan of
        None \<Rightarrow> mac_ie_nested_ie_short_base_write c 4 0
      | Some p \<Rightarrow>
          mac_ie_nested_ie_short_base_write c 4 5
          @ write_16_inv c (pan_size p) @ write_16_inv c (pan_routing_cost p)
          @ [of_bool (use_parent_bs p) OR push_bit 1 (of_bool (rpl_routing_method p))
             OR push_bit 5 (ucast (version p))])"

definition ws_wp_nested_netname_write :: "codec \<Rightarrow> bytes \<Rightarrow> u8 \<Rightarrow> bytes" where
  "ws_wp_nested_netname_write c network_name len =
     mac_ie_nested_ie_short_base_write c 5 (ucast len) @ take (unat len) network_name"

definition ws_wp_nested_pan_ver_write :: "codec \<Rightarrow> ws_pan_information_t option \<Rightarrow> bytes" where
  "ws_wp_nested_pan_ver_write c pan =
     (case pan of
        None \<Rightarrow> []
      | Some p \<Rightarrow> mac_ie_nested_ie_short_base_write c 6 2 @ write_16_inv c (pan_version p))"

definition ws_wp_nested_gtkhash_write :: "codec \<Rightarrow> bytes \<Rightarrow> u8 \<Rightarrow> bytes" where
  "ws_wp_nested_gtkhash_write c gtkhash len =
     mac_ie_nested_ie_short_base_write c 7 (ucast len) @ (if len \<noteq> 0 then take 32 gtkhash else [])"

section \<open>Hopping schedule: reading\<close>

definition ws_channel_plan_zero_read :: "bytes \<Rightarrow> nat \<Rightarrow> (channel_plan_read \<times> nat) option" where
  "ws_channel_plan_zero_read buf p =
     map_option (\<lambda>bs. (Plan_zero (bs ! 0) (bs ! 1), p + 2)) (fetch buf p 2)"

definition ws_channel_plan_one_read :: "codec \<Rightarrow> bytes \<Rightarrow> nat \<Rightarrow> (channel_plan_read \<times> nat) option" where
  "ws_channel_plan_one_read c buf p =
     map_option (\<lambda>bs. (Plan_one (read_24_inv c (take 3 bs) div 100) (ucast (bs ! 3))
         (read_16_inv c (drop 4 bs)), p + 6)) (fetch buf p 6)"

definition ws_channel_function_zero_read :: "codec \<Rightarrow> bytes \<Rightarrow> nat \<Rightarrow> (channel_function_read \<times> nat) option" where
  "ws_channel_function_zero_read c buf p =
     map_option (\<lambda>bs. (Function_zero (read_16_inv c bs), p + 2)) (fetch buf p 2)"

text \<open>The pointer of the channel list is advanced as well, one byte behind the hop count.\<close>

definition ws_channel_function_three_read :: "bytes \<Rightarrow> nat \<Rightarrow> (channel_function_read \<times> nat) option" where
  "ws_channel_function_three_read buf p =
     map_option (\<lambda>bs. (Function_three (hd bs) (p + 1), p + 2)) (fetch buf p 1)"

text \<open>
  The parts of a schedule the two readers treat alike: with the bytes of the element that are left,
  the channel plan and the channel function, and what is left behind them.
\<close>

definition channel_plan_part :: "codec \<Rightarrow> bytes \<Rightarrow> nat \<Rightarrow> u16 \<Rightarrow> 3 word
    \<Rightarrow> (channel_plan_read \<times> nat \<times> u16) option option" where
  "channel_plan_part c buf data left plan =
     (let info_length = ws_channel_plan_length (ucast plan) in
      if left < info_length then Some None
      else if plan = 0
      then map_option (\<lambda>(r, data). Some (r, data, left - info_length)) (ws_channel_plan_zero_read buf data)
      else if plan = 1
      then map_option (\<lambda>(r, data). Some (r, data, left - info_length)) (ws_channel_plan_one_read c buf data)
      else Some None)"

definition channel_function_part :: "codec \<Rightarrow> bytes \<Rightarrow> nat \<Rightarrow> u16 \<Rightarrow> 3 word
    \<Rightarrow> (channel_function_read \<times> nat \<times> u16) option option" where
  "channel_function_part c buf data left cf =
     (let info_length = ws_channel_function_length (ucast cf) 0;
          left' = left - info_length in
      if left < info_length then Some None
      else if cf = 0
      then map_option (\<lambda>(r, data). Some (r, data, left')) (ws_channel_function_zero_read c buf data)
      else if cf = 1 \<or> cf = 2 then Some (Some (Function_none, data, left'))
      else if cf = 3
      then case ws_channel_function_three_read buf data of
             None \<Rightarrow> None
           | Some (r, data) \<Rightarrow>
               let hops = ucast (channel_hop_count r) in
               if left' < hops then Some None
               else Some (Some (r, data + unat hops, left' - hops))
      else Some None)"

text \<open>The count of ranges is read before the length that is left is looked at.\<close>

definition excluded_part :: "bytes \<Rightarrow> nat \<Rightarrow> u16 \<Rightarrow> channel_plan_read \<Rightarrow> 2 word
    \<Rightarrow> excluded_read option option" where
  "excluded_part buf data left plan ctrl =
     (if ctrl = 0 then Some (Some Excluded_none)
      else if ctrl = 1
      then case fetch buf data 1 of
             None \<Rightarrow> None
           | Some bs \<Rightarrow>
               if unat left < unat (hd bs) * 4 + 1 then Some None
               else Some (Some (Excluded_range (hd bs) (data + 1)))
      else if ctrl = 2
      then case plan of
             Plan_one ch0 spacing n \<Rightarrow>
               let len_inline = word_of_nat ((unat n + 7) div 8) :: u8 in
               if (ucast len_inline :: u16) \<noteq> left then Some None
               else Some (Some (Excluded_mask data len_inline))
           | Plan_zero domain oper \<Rightarrow> Some (Some (Excluded_mask data (ucast left)))
      else Some None)"

definition nested_content :: "codec \<Rightarrow> bytes \<Rightarrow> nat \<Rightarrow> u16 \<Rightarrow> bool \<Rightarrow> u8 \<Rightarrow> (nat \<times> u16) option option" where
  "nested_content c buf data len lng i =
     (case mac_ie_nested_discover c buf data len lng i of
        None \<Rightarrow> None
      | Some (n, out) \<Rightarrow> Some (map_option (\<lambda>e. (content_ptr e, n)) out))"

definition ws_wp_nested_us_read :: "codec \<Rightarrow> bytes \<Rightarrow> nat \<Rightarrow> u16 \<Rightarrow> us_wire option option" where
  "ws_wp_nested_us_read c buf data len =
     (case nested_content c buf data len True 1 of
        None \<Rightarrow> None
      | Some None \<Rightarrow> Some None
      | Some (Some (data, n)) \<Rightarrow>
          if n < 4 then Some None
          else case fetch buf data 4 of
            None \<Rightarrow> None
          | Some bs \<Rightarrow>
              let plan = ucast (bs ! 3 AND 3);
                  cf = ucast (drop_bit 3 (bs ! 3 AND 0x38));
                  ctrl = ucast (drop_bit 6 (bs ! 3 AND 0xc0)) in
              (case channel_plan_part c buf (data + 4) (n - 4) plan of
                 None \<Rightarrow> None
               | Some None \<Rightarrow> Some None
               | Some (Some (p, data, left)) \<Rightarrow>
                   (case channel_function_part c buf data left cf of
                      None \<Rightarrow> None
                    | Some None \<Rightarrow> Some None
                    | Some (Some (f, data, left)) \<Rightarrow>
                        map_option (map_option (\<lambda>x.
                          \<lparr>us_dwell = bs ! 0, us_drift = bs ! 1, us_accurancy = bs ! 2, us_plan = p,
                            us_function = f, us_excluded = x, us_plan_id = plan,
                            us_function_id = cf, us_excluded_ctrl = ctrl\<rparr>))
                          (excluded_part buf data left p ctrl))))"

definition ws_wp_nested_bs_read :: "codec \<Rightarrow> bytes \<Rightarrow> nat \<Rightarrow> u16 \<Rightarrow> bs_wire option option" where
  "ws_wp_nested_bs_read c buf data len =
     (case nested_content c buf data len True 2 of
        None \<Rightarrow> None
      | Some None \<Rightarrow> Some None
      | Some (Some (data, n)) \<Rightarrow>
          if n < 10 then Some None
          else case fetch buf data 10 of
            None \<Rightarrow> None
          | Some bs \<Rightarrow>
              let plan = ucast (bs ! 9 AND 3);
                  cf = ucast (drop_bit 3 (bs ! 9 AND 0x38));
                  ctrl = ucast (drop_bit 6 (bs ! 9 AND 0xc0)) in
              (case channel_plan_part c buf (data + 10) (n - 10) plan of
                 None \<Rightarrow> None
               | Some None \<Rightarrow> Some None
               | Some (Some (p, data, left)) \<Rightarrow>
                   (case channel_function_part c buf data left cf of
                      None \<Rightarrow> None
                    | Some None \<Rightarrow> Some None
                    | Some (Some (f, data, left)) \<Rightarrow>
                        Some (Some
                          \<lparr>bs_interval = read_32_inv c (take 4 bs),
                            bs_identifier = read_16_inv c (take 2 (drop 4 bs)),
                            bs_dwell = bs ! 6, bs_drift = bs ! 7, bs_accurancy = bs ! 8, bs_plan = p,
                            bs_function = f, bs_plan_id = plan, bs_function_id = cf,
                            bs_excluded_ctrl = ctrl\<rparr>))))"

section \<open>The other nested elements: reading\<close>

text \<open>An element whose length is checked before its content is read.\<close>

definition ws_wp_nested_pan_read :: "codec \<Rightarrow> bytes \<Rightarrow> nat \<Rightarrow> u16 \<Rightarrow> ws_pan_information_t
    \<Rightarrow> ws_pan_information_t option option" where
  "ws_wp_nested_pan_read c buf data len pan =
     (case nested_content c buf data len False 4 of
        None \<Rightarrow> None
      | Some None \<Rightarrow> Some None
      | Some (Some (data, n)) \<Rightarrow>
          if n \<noteq> 5 then Some None
          else map_option (\<lambda>bs. Some (pan\<lparr>
                 pan_size := read_16_inv c (take 2 bs),
                 pan_routing_cost := read_16_inv c (take 2 (drop 2 bs)),
                 use_parent_bs := (bs ! 4 AND 0x01 = 0x01),
                 rpl_routing_method := (bs ! 4 AND 0x02 = 0x02),
                 version := ucast (drop_bit 5 (bs ! 4 AND 0xe0))\<rparr>)) (fetch buf data 5))"

definition ws_wp_nested_pan_version_read :: "codec \<Rightarrow> bytes \<Rightarrow> nat \<Rightarrow> u16 \<Rightarrow> u16 option option" where
  "ws_wp_nested_pan_version_read c buf data len =
     (case nested_content c buf data len False 6 of
        None \<Rightarrow> None
      | Some None \<Rightarrow> Some None
      | Some (Some (data, n)) \<Rightarrow>
          if n \<noteq> 2 then Some None
          else map_option (\<lambda>bs. Some (read_16_inv c bs)) (fetch buf data 2))"

text \<open>The last two return a pointer into the frame.\<close>

definition ws_wp_nested_gtkhash_read :: "codec \<Rightarrow> bytes \<Rightarrow> nat \<Rightarrow> u16 \<Rightarrow> nat option option" where
  "ws_wp_nested_gtkhash_read c buf data len =
     (case nested_content c buf data len False 7 of
        None \<Rightarrow> None
      | Some None \<Rightarrow> Some None
      | Some (Some (data, n)) \<Rightarrow> if n \<noteq> 32 then Some None else Some (Some data))"

definition ws_wp_nested_network_name_read :: "codec \<Rightarrow> bytes \<Rightarrow> nat \<Rightarrow> u16 \<Rightarrow> (nat \<times> u8) option option" where
  "ws_wp_nested_network_name_read c buf data len =
     (case nested_content c buf data len False 5 of
        None \<Rightarrow> None
      | Some None \<Rightarrow> Some None
      | Some (Some (data, n)) \<Rightarrow>
          if n = 0 then Some None
          else if 32 < n then Some None
          else Some (Some (data, ucast n)))"

text \<open>Three bytes are asked for and, for the message \<open>MSG_ID_PANID\<close>, four are read.\<close>

definition ws_wp_nested_vp_read :: "codec \<Rightarrow> bytes \<Rightarrow> nat \<Rightarrow> u16 \<Rightarrow> vp_wire \<Rightarrow> vp_wire option option" where
  "ws_wp_nested_vp_read c buf data len vp =
     (case nested_content c buf data len True 3 of
        None \<Rightarrow> None
      | Some None \<Rightarrow> Some None
      | Some (Some (data, n)) \<Rightarrow>
          if n < 3 then Some None
          else case fetch buf data 2 of
            None \<Rightarrow> None
          | Some bs \<Rightarrow>
              let vp = vp\<lparr>vp_vendor_id := bs ! 0\<rparr> in
              if bs ! 1 = 1
              then map_option (\<lambda>ws. Some (vp\<lparr>vp_network_pan_id := read_16_inv c ws\<rparr>)) (fetch buf (data + 2) 2)
              else Some (Some vp))"

definition ws_wp_nested_vp_get :: "codec \<Rightarrow> bytes \<Rightarrow> nat \<Rightarrow> u16 \<Rightarrow> (nat \<times> u8) option option" where
  "ws_wp_nested_vp_get c buf data len =
     (case mac_ie_payload_discover c buf data len 4 of
        None \<Rightarrow> None
      | Some (n, out) \<Rightarrow>
          if 2 < n
          then case out of
                 None \<Rightarrow> Some None
               | Some wp \<Rightarrow>
                   (case nested_content c buf (content_ptr wp) (ie_length wp) True 3 of
                      None \<Rightarrow> None
                    | Some None \<Rightarrow> Some None
                    | Some (Some (data, k)) \<Rightarrow> if k < 3 then Some None else Some (Some (data, ucast k)))
          else Some None)"

end
