(* ===== verification/MacIeProps.thy ===== *)
theory MacIeProps
  imports MacIe
begin

text \<open>
  What the element searches find: on a list of elements laid out one after the other, the first
  element with the identifier asked for, and, for the search of nested elements, nothing outside the
  length it is given, whatever the bytes.
\<close>

section \<open>Descriptors and their parsers\<close>

lemma u16_bits: "(n :: nat) < LENGTH(16) \<Longrightarrow>
    n \<in> {0, 1, 2, 3, 4, 5, 6, 7, 8, 9, 10, 11, 12, 13, 14, 15}"
  by simp presburger

lemma and_07ff: "(x :: u16) AND 0x07ff = take_bit 11 x"
  by (simp add: take_bit_eq_mask mask_eq_exp_minus_1)

lemma and_00ff: "(x :: u16) AND 0x00ff = take_bit 8 x"
  by (simp add: take_bit_eq_mask mask_eq_exp_minus_1)

lemma and_007f: "(x :: u16) AND 0x007f = take_bit 7 x"
  by (simp add: take_bit_eq_mask mask_eq_exp_minus_1)

lemma and_8000: "(x :: u16) AND 0x8000 \<noteq> 0 \<longleftrightarrow> bit x 15"
proof -
  have "x AND 0x8000 = (if bit x 15 then 0x8000 else 0)"
    by (rule bit_word_eqI, drule u16_bits) (auto simp: bit_simps)
  then show ?thesis by simp
qed

lemma and_7800: "drop_bit 11 ((x :: u16) AND 0x7800) = take_bit 4 (drop_bit 11 x)"
  by (rule bit_word_eqI, drule u16_bits) (auto simp: bit_simps)

lemma and_7f00: "drop_bit 8 ((x :: u16) AND 0x7f00) = take_bit 7 (drop_bit 8 x)"
  by (rule bit_word_eqI, drule u16_bits) (auto simp: bit_simps)

lemma and_7f80: "drop_bit 7 ((x :: u16) AND 0x7f80) = take_bit 8 (drop_bit 7 x)"
  by (rule bit_word_eqI, drule u16_bits) (auto simp: bit_simps)

lemma and_7800_push: "push_bit 11 (y :: u16) AND 0x7800 = push_bit 11 (take_bit 4 y)"
  by (rule bit_word_eqI, drule u16_bits) (auto simp: bit_simps)

lemma and_7f00_push: "push_bit 8 (y :: u16) AND 0x7f00 = push_bit 8 (take_bit 7 y)"
  by (rule bit_word_eqI, drule u16_bits) (auto simp: bit_simps)

lemma and_7f80_push: "push_bit 7 (y :: u16) AND 0x7f80 = push_bit 7 (take_bit 8 y)"
  by (rule bit_word_eqI, drule u16_bits) (auto simp: bit_simps)

lemmas ie_masks = and_07ff and_00ff and_007f and_8000 and_7800 and_7f00 and_7f80
  and_7800_push and_7f00_push and_7f80_push

lemma bit_8000 [simp]: "bit (0x8000 :: u16) n \<longleftrightarrow> n = 15"
  using bit_exp_iff [where 'a = u16, of 15 n] by auto

lemma take_bit_fits:
  assumes "unat (x :: 'a :: len word) < 2 ^ n"
  shows "take_bit n x = x"
proof -
  have "unat (take_bit n x) = unat x"
    using assms by (simp add: unsigned_take_bit_eq take_bit_nat_eq_self)
  then show ?thesis by (rule word_unat_eq_iff [THEN iffD2])
qed

lemma take_bit_ucast_u8: "(ucast (take_bit n (ucast (i :: u8) :: u16)) :: u8) = take_bit n i"
  by (auto intro!: bit_word_eqI simp: bit_simps)

text \<open>The words the writers compose, and their fields.\<close>

lemma long_word:
  assumes len: "unat (len :: u16) < 2048" and i: "unat (i :: u8) < 16"
    and w: "w = 0x8000 OR (len AND 0x07ff) OR (push_bit 11 (ucast i) AND 0x7800)"
  shows "w AND 0x8000 \<noteq> 0" "w AND 0x07ff = len" "ucast (drop_bit 11 (w AND 0x7800)) = i"
proof -
  have w': "w = 0x8000 OR take_bit 11 len OR push_bit 11 (take_bit 4 (ucast i))"
    by (simp only: w and_07ff and_7800_push)
  show "w AND 0x8000 \<noteq> 0" unfolding and_8000 by (simp add: w' bit_simps)
  have "take_bit 11 w = take_bit 11 len"
    by (rule bit_word_eqI, drule u16_bits) (auto simp: w' bit_simps)
  then show "w AND 0x07ff = len" using len by (simp only: and_07ff take_bit_fits) (simp add: take_bit_fits)
  have "take_bit 4 (drop_bit 11 w) = take_bit 4 (ucast i)"
    by (rule bit_word_eqI, drule u16_bits) (auto simp: w' bit_simps)
  then show "ucast (drop_bit 11 (w AND 0x7800)) = i"
    using i by (simp only: and_7800 take_bit_ucast_u8) (simp add: take_bit_fits)
qed

lemma short_word:
  assumes len: "unat (len :: u16) < 256" and i: "unat (i :: u8) < 128"
    and w: "w = (len AND 0x00ff) OR (push_bit 8 (ucast i) AND 0x7f00)"
  shows "w AND 0x8000 = 0" "w AND 0x00ff = len" "ucast (drop_bit 8 (w AND 0x7f00)) = i"
proof -
  have w': "w = take_bit 8 len OR push_bit 8 (take_bit 7 (ucast i))"
    by (simp only: w and_00ff and_7f00_push)
  have "\<not> bit w 15" by (simp add: w' bit_simps)
  then show "w AND 0x8000 = 0" using and_8000 by blast
  have "take_bit 8 w = take_bit 8 len"
    by (rule bit_word_eqI, drule u16_bits) (auto simp: w' bit_simps)
  then show "w AND 0x00ff = len" using len by (simp only: and_00ff) (simp add: take_bit_fits)
  have "take_bit 7 (drop_bit 8 w) = take_bit 7 (ucast i)"
    by (rule bit_word_eqI, drule u16_bits) (auto simp: w' bit_simps)
  then show "ucast (drop_bit 8 (w AND 0x7f00)) = i"
    using i by (simp only: and_7f00 take_bit_ucast_u8) (simp add: take_bit_fits)
qed

lemma header_word:
  assumes len: "unat (len :: u16) < 128"
    and w: "w = (len AND 0x007f) OR (push_bit 7 (ucast (i :: u8)) AND 0x7f80)"
  shows "w AND 0x007f = len" "ucast (drop_bit 7 (w AND 0x7f80)) = i"
proof -
  have w': "w = take_bit 7 len OR push_bit 7 (take_bit 8 (ucast i))"
    by (simp only: w and_007f and_7f80_push)
  have "take_bit 7 w = take_bit 7 len"
    by (rule bit_word_eqI, drule u16_bits) (auto simp: w' bit_simps)
  then show "w AND 0x007f = len" using len by (simp only: and_007f) (simp add: take_bit_fits)
  have "take_bit 8 (drop_bit 7 w) = take_bit 8 (ucast i)"
    by (rule bit_word_eqI, drule u16_bits) (auto simp: w' bit_simps)
  then show "ucast (drop_bit 7 (w AND 0x7f80)) = i"
    by (simp only: and_7f80 take_bit_ucast_u8) (simp add: take_bit_fits unat_u8_lt)
qed

text \<open>A writer's two bytes, read back at their place in a frame.\<close>

lemma header_parse_written:
  assumes c: "codec_ok c" and p: "p = length pre" and l: "unat len < 128"
  shows "mac_ie_header_parse c (pre @ mac_ie_header_base_write c ty len @ post) p
       = Some \<lparr>content_ptr = p + 2, ie_length = len, ie_id = ty\<rparr>"
  unfolding mac_ie_header_parse_def mac_ie_header_base_write_def
  by (simp only: fetch_mid [OF p codec_write_length(1) [OF c, symmetric]] option.case
      read_write_16 [OF c] Let_def header_word [OF l refl])

lemma payload_parse_written:
  assumes c: "codec_ok c" and p: "p = length pre" and l: "unat len < 2048" and i: "unat ty < 16"
  shows "mac_ie_payload_parse c (pre @ mac_ie_payload_base_write c ty len @ post) p
       = Some \<lparr>content_ptr = p + 2, ie_length = len, ie_id = ty\<rparr>"
  unfolding mac_ie_payload_parse_def mac_ie_payload_base_write_def
  by (simp only: fetch_mid [OF p codec_write_length(1) [OF c, symmetric]] option.case
      read_write_16 [OF c] Let_def long_word [OF l i refl])

section \<open>A list of nested elements\<close>

record nested_elem =
  ne_long :: bool
  ne_id :: u8
  ne_content :: bytes

definition nested_wf :: "nested_elem \<Rightarrow> bool" where
  "nested_wf e \<longleftrightarrow> (if ne_long e then unat (ne_id e) < 16 \<and> length (ne_content e) < 2048
                    else unat (ne_id e) < 128 \<and> length (ne_content e) < 256)"

definition nested_encode :: "codec \<Rightarrow> nested_elem \<Rightarrow> bytes" where
  "nested_encode c e =
     (if ne_long e then mac_ie_nested_ie_long_base_write c (ne_id e) (word_of_nat (length (ne_content e)))
      else mac_ie_nested_ie_short_base_write c (ne_id e) (word_of_nat (length (ne_content e))))
     @ ne_content e"

definition nested_elems :: "codec \<Rightarrow> nested_elem list \<Rightarrow> bytes" where
  "nested_elems c es = concat (map (nested_encode c) es)"

lemma nested_elems_simps [simp]:
  "nested_elems c [] = []"
  "nested_elems c (e # es) = nested_encode c e @ nested_elems c es"
  by (simp_all add: nested_elems_def)

lemma nested_encode_length:
  assumes "codec_ok c"
  shows "length (nested_encode c e) = 2 + length (ne_content e)"
  using assms
  by (simp add: nested_encode_def mac_ie_nested_ie_long_base_write_def
      mac_ie_nested_ie_short_base_write_def codec_write_length)

lemma nested_parse_written:
  assumes c: "codec_ok c" and p: "p = length pre" and wf: "nested_wf e"
  shows "mac_ie_nested_id_parse c (pre @ nested_encode c e @ post) p
       = Some \<lparr>content_ptr = p + 2, ie_length = word_of_nat (length (ne_content e)),
               ie_id = ne_id e, type_long = ne_long e\<rparr>"
proof -
  let ?len = "word_of_nat (length (ne_content e)) :: u16"
  have l: "unat ?len = length (ne_content e)"
    using wf by (auto simp: nested_wf_def unat_of_nat split: if_splits)
  show ?thesis
  proof (cases "ne_long e")
    case True
    with wf l have b: "unat ?len < 2048" "unat (ne_id e) < 16" by (auto simp: nested_wf_def)
    show ?thesis
      unfolding mac_ie_nested_id_parse_def nested_encode_def mac_ie_nested_ie_long_base_write_def
        if_P [OF True] append_assoc
      by (simp only: fetch_mid [OF p codec_write_length(1) [OF c, symmetric]] option.case
          read_write_16 [OF c] Let_def long_word [OF b refl]) (simp add: True)
  next
    case False
    with wf l have b: "unat ?len < 256" "unat (ne_id e) < 128" by (auto simp: nested_wf_def)
    show ?thesis
      unfolding mac_ie_nested_id_parse_def nested_encode_def mac_ie_nested_ie_short_base_write_def
        if_not_P [OF False] append_assoc
      by (simp only: fetch_mid [OF p codec_write_length(1) [OF c, symmetric]] option.case
          read_write_16 [OF c] Let_def short_word [OF b refl]) (simp add: False)
  qed
qed

section \<open>What the searches return\<close>

text \<open>
  A search result delivers an element when it returns the element's length and points at its content,
  and delivers nothing when it returns zero and leaves the out-parameter alone.
\<close>

definition delivers :: "bytes \<Rightarrow> bytes option \<Rightarrow> u16 \<times> ('a mac_IE_t_scheme) option \<Rightarrow> bool" where
  "delivers buf content r \<longleftrightarrow>
     (case content of
        None \<Rightarrow> r = (0, None)
      | Some bs \<Rightarrow> unat (fst r) = length bs \<and>
          (case snd r of None \<Rightarrow> False
           | Some x \<Rightarrow> ie_length x = fst r \<and> fetch buf (content_ptr x) (length bs) = Some bs))"

lemma unat_of_nat_u16: "n < 65536 \<Longrightarrow> unat (word_of_nat n :: u16) = n"
  by (simp add: unat_of_nat)

lemma word_length_step:
  fixes len x :: u16
  assumes "unat len = n + (2 + k)" and "k < 65534" and "x = word_of_nat k"
  shows "unat (len - (x + 2)) = n"
proof -
  have x: "unat x = k" using assms(2,3) by (simp add: unat_of_nat_u16)
  have two: "unat (x + 2) = k + 2" using x assms(2) by (simp add: unat_word_ariths)
  have "x + 2 \<le> len" using two assms(1) by (simp add: word_le_nat_alt)
  then show ?thesis using two assms(1) by (simp add: unat_diff_le)
qed

lemma nested_discover_skip:
  assumes "2 \<le> len" and "mac_ie_nested_id_parse c buf p = Some e"
    and "\<not> unat len < unat (ie_length e) + 2" and "\<not> (i = ie_id e \<and> lng = type_long e)"
  shows "mac_ie_nested_discover c buf p len lng i
       = mac_ie_nested_discover c buf (p + unat (ie_length e) + 2) (len - (ie_length e + 2)) lng i"
  unfolding mac_ie_nested_discover.simps [of c buf p len lng i]
  by (simp only: assms if_True if_False option.case)

lemma nested_discover_find:
  assumes c: "codec_ok c"
  shows "\<forall>e\<in>set es. nested_wf e \<Longrightarrow> unat len = length (nested_elems c es) \<Longrightarrow>
    \<exists>r. mac_ie_nested_discover c (pre @ nested_elems c es @ post) (length pre) len lng i = Some r
      \<and> delivers (pre @ nested_elems c es @ post)
          (map_option ne_content (find (\<lambda>e. ne_id e = i \<and> ne_long e = lng) es)) r"
proof (induction es arbitrary: pre len)
  case Nil
  then have "len = 0" by (simp add: unat_eq_0)
  then have "mac_ie_nested_discover c (pre @ nested_elems c [] @ post) (length pre) len lng i = Some (0, None)"
    by (subst mac_ie_nested_discover.simps) simp
  then show ?case by (simp add: delivers_def)
next
  case (Cons e es)
  let ?k = "length (ne_content e)"
  let ?x = "word_of_nat ?k :: u16"
  let ?buf = "pre @ nested_elems c (e # es) @ post"
  have wf: "nested_wf e" using Cons.prems(1) by simp
  have k: "?k < 2048" using wf by (auto simp: nested_wf_def split: if_splits)
  then have x: "unat ?x = ?k" by (simp add: unat_of_nat_u16)
  have len: "unat len = length (nested_elems c es) + (2 + ?k)"
    using Cons.prems(2) by (simp add: nested_encode_length [OF c])
  then have two: "2 \<le> len" by (simp add: word_le_nat_alt)
  have fits: "\<not> unat len < unat ?x + 2" using len x by simp
  have parse: "mac_ie_nested_id_parse c ?buf (length pre)
      = Some \<lparr>content_ptr = length pre + 2, ie_length = ?x, ie_id = ne_id e, type_long = ne_long e\<rparr>"
    using nested_parse_written [OF c refl wf, of pre "nested_elems c es @ post"] by simp
  show ?case
  proof (cases "ne_id e = i \<and> ne_long e = lng")
    case True
    have "fetch ?buf (length pre + 2) ?k = Some (ne_content e)"
      using fetch_mid [of "length pre + 2" "pre @ take 2 (nested_encode c e)" ?k "ne_content e"
          "nested_elems c es @ post"]
      by (simp add: nested_encode_def mac_ie_nested_ie_long_base_write_def
          mac_ie_nested_ie_short_base_write_def codec_write_length [OF c] split: if_splits)
    with True x fits two parse show ?thesis
      by (subst mac_ie_nested_discover.simps) (simp add: delivers_def)
  next
    case False
    have step: "mac_ie_nested_discover c ?buf (length pre) len lng i
        = mac_ie_nested_discover c ?buf (length pre + ?k + 2) (len - (?x + 2)) lng i"
      by (rule nested_discover_skip [OF two parse, simplified x mac_IE_t.simps]) (use fits x False in simp_all)
    have "unat (len - (?x + 2)) = length (nested_elems c es)"
      by (rule word_length_step [OF len]) (use k in simp_all)
    note IH = Cons.IH [OF _ this, of "pre @ nested_encode c e"]
    have skip: "find (\<lambda>e. ne_id e = i \<and> ne_long e = lng) (e # es)
        = find (\<lambda>e. ne_id e = i \<and> ne_long e = lng) es"
      using False by auto
    have at: "length (pre @ nested_encode c e) = length pre + ?k + 2"
      by (simp add: nested_encode_length [OF c])
    have buf: "(pre @ nested_encode c e) @ nested_elems c es @ post = ?buf" by simp
    show ?thesis unfolding step skip using IH Cons.prems(1) unfolding at buf by simp
  qed
qed

lemma nested_discover_safe:
  assumes "p + unat len \<le> length buf"
  shows "\<exists>r. mac_ie_nested_discover c buf p len lng i = Some r \<and>
    (case snd r of None \<Rightarrow> fst r = 0
     | Some x \<Rightarrow> fst r = ie_length x \<and> p + 2 \<le> content_ptr x \<and>
         content_ptr x + unat (ie_length x) \<le> p + unat len \<and> ie_id x = i \<and> type_long x = lng)"
  using assms
proof (induction c buf p len lng i rule: mac_ie_nested_discover.induct)
  case (1 c buf p len lng i)
  show ?case
  proof (cases "2 \<le> len")
    case False
    then show ?thesis by (subst mac_ie_nested_discover.simps) simp
  next
    case True
    then have l2: "2 \<le> unat len" by (simp add: word_le_nat_alt)
    then obtain e where e: "mac_ie_nested_id_parse c buf p = Some e"
      using "1.prems" by (simp add: mac_ie_nested_id_parse_def fetch_def Let_def)
    then have ptr: "content_ptr e = p + 2"
      by (auto simp: mac_ie_nested_id_parse_def Let_def split: option.splits)
    consider "unat len < unat (ie_length e) + 2"
      | "\<not> unat len < unat (ie_length e) + 2" "i = ie_id e \<and> lng = type_long e"
      | "\<not> unat len < unat (ie_length e) + 2" "\<not> (i = ie_id e \<and> lng = type_long e)"
      by blast
    then show ?thesis
    proof cases
      case 1
      then show ?thesis by (subst mac_ie_nested_discover.simps) (simp add: True e)
    next
      case 2
      then show ?thesis
        using ptr by (subst mac_ie_nested_discover.simps) (simp add: True e)
    next
      case 3
      let ?k = "unat (ie_length e)"
      have len: "unat len = (unat len - (2 + ?k)) + (2 + ?k)" using 3(1) by linarith
      have k: "?k < 65534" using 3(1) unat_u16_lt [of len] by linarith
      have left: "unat (len - (ie_length e + 2)) = unat len - (2 + ?k)"
        by (rule word_length_step [OF len k]) simp
      have "p + ?k + 2 + unat (len - (ie_length e + 2)) \<le> length buf"
        using "1.prems" 3(1) unfolding left by linarith
      note IH = "1.IH" [OF True e 3 this]
      have step: "mac_ie_nested_discover c buf p len lng i
          = mac_ie_nested_discover c buf (p + ?k + 2) (len - (ie_length e + 2)) lng i"
        by (rule nested_discover_skip [OF True e 3])
      have "p + ?k + 2 + unat (len - (ie_length e + 2)) = p + unat len" unfolding left using len by linarith
      moreover obtain r where "mac_ie_nested_discover c buf p len lng i = Some r"
        and "case snd r of None \<Rightarrow> fst r = 0
          | Some x \<Rightarrow> fst r = ie_length x \<and> p + ?k + 2 + 2 \<le> content_ptr x \<and>
              content_ptr x + unat (ie_length x) \<le> p + ?k + 2 + unat (len - (ie_length e + 2))
              \<and> ie_id x = i \<and> type_long x = lng"
        using IH unfolding step by blast
      ultimately show ?thesis by (intro exI [of _ r]) (auto split: option.splits)
    qed
  qed
qed

section \<open>Header and payload elements\<close>

record ie_elem =
  el_id :: u8
  el_content :: bytes

definition header_encode :: "codec \<Rightarrow> ie_elem \<Rightarrow> bytes" where
  "header_encode c e = mac_ie_header_base_write c (el_id e) (word_of_nat (length (el_content e))) @ el_content e"

definition header_elems :: "codec \<Rightarrow> ie_elem list \<Rightarrow> bytes" where
  "header_elems c es = concat (map (header_encode c) es)"

definition payload_encode :: "codec \<Rightarrow> ie_elem \<Rightarrow> bytes" where
  "payload_encode c e = mac_ie_payload_base_write c (el_id e) (word_of_nat (length (el_content e))) @ el_content e"

definition payload_elems :: "codec \<Rightarrow> ie_elem list \<Rightarrow> bytes" where
  "payload_elems c es = concat (map (payload_encode c) es)"

lemma ie_elems_simps [simp]:
  "header_elems c [] = []" "header_elems c (e # es) = header_encode c e @ header_elems c es"
  "payload_elems c [] = []" "payload_elems c (e # es) = payload_encode c e @ payload_elems c es"
  by (simp_all add: header_elems_def payload_elems_def)

lemma ie_encode_length:
  assumes "codec_ok c"
  shows "length (header_encode c e) = 2 + length (el_content e)"
    and "length (payload_encode c e) = 2 + length (el_content e)"
  using assms
  by (simp_all add: header_encode_def payload_encode_def mac_ie_header_base_write_def
      mac_ie_payload_base_write_def codec_write_length)

lemma fetch_content:
  assumes "length d = 2"
  shows "fetch (pre @ (d @ bs @ ds) @ post) (length pre + 2) (length bs) = Some bs"
    and "bs = b # rest \<Longrightarrow> fetch (pre @ (d @ bs @ ds) @ post) (length pre + 2) 1 = Some [b]"
    and "bs = b # rest \<Longrightarrow> fetch (pre @ (d @ bs @ ds) @ post) (length pre + 2 + 1) (length rest) = Some rest"
  using fetch_mid [of "length pre + 2" "pre @ d" "length bs" bs "ds @ post"]
    fetch_mid [of "length pre + 2" "pre @ d" 1 "[b]" "rest @ ds @ post"]
    fetch_mid [of "length pre + 2 + 1" "pre @ d @ [b]" "length rest" rest "ds @ post"] assms
  by simp_all

lemma header_sub_id_discover_skip:
  assumes "2 < len" and "mac_ie_header_parse c buf p = Some e"
    and "ie_length e \<noteq> 0 \<and> i = ie_id e \<Longrightarrow> \<exists>b. fetch buf (content_ptr e) 1 = Some [b] \<and> b \<noteq> sub"
  shows "mac_ie_header_sub_id_discover c buf p len i sub
       = mac_ie_header_sub_id_discover c buf (p + unat (ie_length e) + 2) (len - (ie_length e + 2)) i sub"
proof (cases "ie_length e \<noteq> 0 \<and> i = ie_id e")
  case True
  from assms(3) [OF this] obtain b where "fetch buf (content_ptr e) 1 = Some [b]" "b \<noteq> sub" by blast
  then show ?thesis
    unfolding mac_ie_header_sub_id_discover.simps [of c buf p len i sub]
    by (simp only: assms(1,2) True if_True if_False option.case Let_def list.sel simp_thms)
next
  case False
  then show ?thesis
    unfolding mac_ie_header_sub_id_discover.simps [of c buf p len i sub]
    by (simp only: assms(1,2) if_True if_False option.case Let_def)
qed

definition with_sub_id :: "u8 \<Rightarrow> u8 \<Rightarrow> ie_elem \<Rightarrow> bool" where
  "with_sub_id i sub e \<longleftrightarrow> el_id e = i \<and> el_content e \<noteq> [] \<and> hd (el_content e) = sub"

text \<open>
  The header search returns the content behind the sub-identifier of the first element that has it.
\<close>

lemma header_sub_id_discover_find:
  assumes c: "codec_ok c"
  shows "\<forall>e\<in>set es. length (el_content e) < 128 \<Longrightarrow> unat len = length (header_elems c es) \<Longrightarrow>
    \<exists>r. mac_ie_header_sub_id_discover c (pre @ header_elems c es @ post) (length pre) len i sub = Some r
      \<and> delivers (pre @ header_elems c es @ post)
          (map_option (\<lambda>e. tl (el_content e)) (find (with_sub_id i sub) es)) r"
proof (induction es arbitrary: pre len)
  case Nil
  then have "len = 0" by (simp add: unat_eq_0)
  then have "mac_ie_header_sub_id_discover c (pre @ header_elems c [] @ post) (length pre) len i sub = Some (0, None)"
    by (subst mac_ie_header_sub_id_discover.simps) simp
  then show ?case by (simp add: delivers_def)
next
  case (Cons e es)
  let ?k = "length (el_content e)"
  let ?x = "word_of_nat ?k :: u16"
  let ?buf = "pre @ header_elems c (e # es) @ post"
  let ?p = "\<lparr>content_ptr = length pre + 2, ie_length = ?x, ie_id = el_id e\<rparr>"
  let ?d = "mac_ie_header_base_write c (el_id e) ?x"
  have k: "?k < 128" using Cons.prems(1) by simp
  then have x: "unat ?x = ?k" by (simp add: unat_of_nat_u16)
  then have x0: "?x = 0 \<longleftrightarrow> el_content e = []" by (metis length_0_conv unat_eq_0)
  have len: "unat len = length (header_elems c es) + (2 + ?k)"
    using Cons.prems(2) by (simp add: ie_encode_length [OF c])
  have parse: "mac_ie_header_parse c ?buf (length pre) = Some ?p"
    using header_parse_written [OF c refl, of ?x pre "el_id e" "el_content e @ header_elems c es @ post"] x k
    by (simp add: header_encode_def)
  have d: "length ?d = 2" by (simp add: mac_ie_header_base_write_def codec_write_length [OF c])
  have buf: "?buf = pre @ (?d @ el_content e @ header_elems c es) @ post"
    by (simp add: header_encode_def)
  show ?case
  proof (cases "with_sub_id i sub e")
    case True
    then obtain rest where e: "el_content e = sub # rest" "el_id e = i"
      by (cases "el_content e") (auto simp: with_sub_id_def)
    have two: "2 < len" using len e by (simp add: word_less_nat_alt)
    have one: "unat (?x - 1) = length rest"
      using k e(1) by (simp add: unat_of_nat_u16)
    have f: "fetch ?buf (length pre + 2) 1 = Some [sub]"
      "fetch ?buf (length pre + 2 + 1) (length rest) = Some rest"
      unfolding buf by (rule fetch_content(2,3) [OF d e(1)])+
    have "mac_ie_header_sub_id_discover c ?buf (length pre) len i sub
        = Some (?x - 1, Some (?p\<lparr>content_ptr := length pre + 2 + 1, ie_length := ?x - 1\<rparr>))"
      unfolding mac_ie_header_sub_id_discover.simps [of c ?buf "length pre" len i sub]
        if_P [OF two] parse option.case Let_def
      using x0 e f by simp
    moreover have "find (with_sub_id i sub) (e # es) = Some e" using True by simp
    ultimately show ?thesis using one f(2) e(1) by (simp only: delivers_def) simp
  next
    case False
    note skip = False
    show ?thesis
    proof (cases "2 < len")
      case False
      with len have "?k = 0" "header_elems c es = []" by (auto simp: word_less_nat_alt)
      moreover have "header_encode c a \<noteq> []" for a using ie_encode_length(1) [OF c, of a] by auto
      ultimately have "?k = 0" "es = []" by (cases es; simp)+
      then have "find (with_sub_id i sub) (e # es) = None" using skip by simp
      then show ?thesis using False
        by (subst mac_ie_header_sub_id_discover.simps) (simp add: delivers_def)
    next
      case True
      have step: "mac_ie_header_sub_id_discover c ?buf (length pre) len i sub
          = mac_ie_header_sub_id_discover c ?buf (length pre + ?k + 2) (len - (?x + 2)) i sub"
      proof (rule header_sub_id_discover_skip [OF True parse, simplified x mac_IE_t.simps], goal_cases)
        case 1
        then obtain b rest where b: "el_content e = b # rest" using x0 by (cases "el_content e") auto
        have "fetch ?buf (length pre + 2) 1 = Some [b]" unfolding buf by (rule fetch_content(2) [OF d b])
        moreover have "b \<noteq> sub" using 1 skip b by (simp add: with_sub_id_def)
        ultimately show ?case by simp
      qed
      have "unat (len - (?x + 2)) = length (header_elems c es)"
        by (rule word_length_step [OF len]) (use k in simp_all)
      note IH = Cons.IH [OF _ this, of "pre @ header_encode c e"]
      have "find (with_sub_id i sub) (e # es) = find (with_sub_id i sub) es"
        using skip by simp
      note find = this
      have at: "length (pre @ header_encode c e) = length pre + ?k + 2"
        by (simp add: ie_encode_length [OF c])
      have b': "(pre @ header_encode c e) @ header_elems c es @ post = ?buf" by simp
      show ?thesis unfolding step find using IH Cons.prems(1) unfolding at b' by simp
    qed
  qed
qed

lemma payload_discover_skip:
  assumes "2 \<le> len" and "mac_ie_payload_parse c buf p = Some e" and "i \<noteq> ie_id e"
  shows "mac_ie_payload_discover c buf p len i
       = mac_ie_payload_discover c buf (p + unat (ie_length e) + 2) (len - (ie_length e + 2)) i"
  unfolding mac_ie_payload_discover.simps [of c buf p len i]
  by (simp only: assms if_True if_False option.case)

lemma payload_discover_find:
  assumes c: "codec_ok c"
  shows "\<forall>e\<in>set es. length (el_content e) < 2048 \<and> unat (el_id e) < 16 \<Longrightarrow>
    unat len = length (payload_elems c es) \<Longrightarrow>
    \<exists>r. mac_ie_payload_discover c (pre @ payload_elems c es @ post) (length pre) len i = Some r
      \<and> delivers (pre @ payload_elems c es @ post)
          (map_option el_content (find (\<lambda>e. el_id e = i) es)) r"
proof (induction es arbitrary: pre len)
  case Nil
  then have "len = 0" by (simp add: unat_eq_0)
  then have "mac_ie_payload_discover c (pre @ payload_elems c [] @ post) (length pre) len i = Some (0, None)"
    by (subst mac_ie_payload_discover.simps) simp
  then show ?case by (simp add: delivers_def)
next
  case (Cons e es)
  let ?k = "length (el_content e)"
  let ?x = "word_of_nat ?k :: u16"
  let ?buf = "pre @ payload_elems c (e # es) @ post"
  let ?d = "mac_ie_payload_base_write c (el_id e) ?x"
  have k: "?k < 2048" "unat (el_id e) < 16" using Cons.prems(1) by simp_all
  then have x: "unat ?x = ?k" by (simp add: unat_of_nat_u16)
  have len: "unat len = length (payload_elems c es) + (2 + ?k)"
    using Cons.prems(2) by (simp add: ie_encode_length [OF c])
  then have two: "2 \<le> len" by (simp add: word_le_nat_alt)
  have parse: "mac_ie_payload_parse c ?buf (length pre)
      = Some \<lparr>content_ptr = length pre + 2, ie_length = ?x, ie_id = el_id e\<rparr>"
    using payload_parse_written [OF c refl, of ?x "el_id e" pre "el_content e @ payload_elems c es @ post"] x k
    by (simp add: payload_encode_def)
  have d: "length ?d = 2" by (simp add: mac_ie_payload_base_write_def codec_write_length [OF c])
  have buf: "?buf = pre @ (?d @ el_content e @ payload_elems c es) @ post"
    by (simp add: payload_encode_def)
  show ?case
  proof (cases "el_id e = i")
    case True
    have "fetch ?buf (length pre + 2) ?k = Some (el_content e)"
      unfolding buf by (rule fetch_content(1) [OF d])
    with True x two parse show ?thesis
      by (subst mac_ie_payload_discover.simps) (simp add: delivers_def)
  next
    case False
    have step: "mac_ie_payload_discover c ?buf (length pre) len i
        = mac_ie_payload_discover c ?buf (length pre + ?k + 2) (len - (?x + 2)) i"
      by (rule payload_discover_skip [OF two parse, simplified x mac_IE_t.simps]) (use False in simp)
    have "unat (len - (?x + 2)) = length (payload_elems c es)"
      by (rule word_length_step [OF len]) (use k in simp_all)
    note IH = Cons.IH [OF _ this, of "pre @ payload_encode c e"]
    have at: "length (pre @ payload_encode c e) = length pre + ?k + 2"
      by (simp add: ie_encode_length [OF c])
    have b': "(pre @ payload_encode c e) @ payload_elems c es @ post = ?buf" by simp
    have find: "find (\<lambda>e. el_id e = i) (e # es) = find (\<lambda>e. el_id e = i) es" using False by simp
    show ?thesis unfolding step find using IH Cons.prems(1) unfolding at b' by simp
  qed
qed

text \<open>
  Without a comparison of the element's length with what is left, the payload search accepts an
  element of 2047 bytes in a list of two, and the header search runs on behind the frame.
\<close>

lemma payload_discover_no_length_check:
  "mac_ie_payload_discover little_endian [0xff, 0xa7] 0 2 4
     = Some (2047, Some \<lparr>content_ptr = 2, ie_length = 2047, ie_id = 4\<rparr>)"
  by code_simp

lemma header_discover_runs_on:
  "mac_ie_header_sub_id_discover little_endian [0x7f, 0x00, 0x01, 0x02] 0 4 0x2a 1 = None"
  by (subst mac_ie_header_sub_id_discover.simps, subst mac_ie_header_sub_id_discover.simps)
     (simp add: mac_ie_header_parse_def fetch_def little_endian_def)

end
