(* ===== verification/WsIeProps.thy ===== *)
theory WsIeProps
  imports WsIe MacIeProps
begin

text \<open>
  The Wi-SUN elements are read as they were written: the hopping schedule element with its channel
  plan, channel function and excluded channels, found among the other nested elements of a frame;
  the length that is announced is the number of bytes that follow.
\<close>

section \<open>Lengths\<close>

definition excluded_wf :: "ws_excluded_channel_data_t \<Rightarrow> bool" where
  "excluded_wf exc \<longleftrightarrow> excuded_channel_ctrl exc \<noteq> 3 \<and>
     length (exluded_range exc) = 3 \<and> length (excluded_mask exc) = 8 \<and>
     (excuded_channel_ctrl exc = 1 \<longrightarrow> unat (excluded_range_length exc) \<le> 3) \<and>
     (excuded_channel_ctrl exc = 2 \<longrightarrow> unat (channel_mask_bytes_inline exc) \<le> 32)"

lemma excluded_ranges_write_length:
  assumes "codec_ok c" and "n \<le> length rs"
  shows "\<exists>bs. excluded_ranges_write c n rs = Some bs \<and> length bs = 4 * n"
  using assms
  by (induction c n rs rule: excluded_ranges_write.induct) (auto simp: codec_write_length)

lemma excluded_mask_write_length:
  assumes "codec_ok c" and "unat n \<le> 32 * length ms" and "8 dvd unat n"
  shows "length (excluded_mask_write c ms n) = unat n div 8"
  using assms
proof (induction c ms n rule: excluded_mask_write.induct)
  case (1 c n)
  then show ?case by simp
next
  case (2 c m ms n)
  show ?case
  proof (cases "32 \<le> n")
    case False
    then show ?thesis by simp
  next
    case True
    then have l: "32 \<le> unat n" and d: "unat (n - 32) = unat n - 32"
      by (simp_all add: word_le_nat_alt unat_diff_le)
    show ?thesis
    proof (cases "n - 32 = 0")
      case True
      then have "unat n = 32" using d l by simp
      with True \<open>32 \<le> n\<close> show ?thesis by (simp add: codec_write_length [OF "2.prems"(1)])
    next
      case False
      have "8 dvd unat (n - 32)" unfolding d using "2.prems"(3) by (metis dvd_diff_nat dvd_refl dvd_add_left_iff numeral_Bit0 dvd_add)
      moreover have "unat (n - 32) \<le> 32 * length ms" using "2.prems"(2) d by simp
      ultimately have "length (excluded_mask_write c ms (n - 32)) = unat (n - 32) div 8"
        using "2.IH" "2.prems"(1) True False by blast
      moreover have "(unat n - 32) div 8 + 4 = unat n div 8"
        using l "2.prems"(3) by (auto elim!: dvdE)
      ultimately show ?thesis using True False d by (simp add: codec_write_length [OF "2.prems"(1)])
    qed
  qed
qed

definition excluded_length :: "ws_excluded_channel_data_t \<Rightarrow> nat" where
  "excluded_length exc =
     (if excuded_channel_ctrl exc = 1 then 1 + 4 * unat (excluded_range_length exc)
      else if excuded_channel_ctrl exc = 2 then unat (channel_mask_bytes_inline exc) else 0)"

lemma unat_u3: "unat (ucast (x :: 3 word) :: u16) = unat x"
proof -
  have "unat x < 8" using unsigned_less [of x] by simp
  then show ?thesis by (simp add: unsigned_ucast_eq take_bit_nat_eq_self)
qed

lemma unat_byte_u16: "unat (ucast (x :: u8) :: u16) = unat x"
  using unat_u8_lt [of x] by (simp add: unsigned_ucast_eq take_bit_nat_eq_self)

lemma two_bits: "(x :: 2 word) = 0 \<or> x = 1 \<or> x = 2 \<or> x = 3"
proof -
  have "unat x < 4" using unsigned_less [of x] by simp
  then have "unat x = 0 \<or> unat x = 1 \<or> unat x = 2 \<or> unat x = 3" by linarith
  then show ?thesis by (auto simp: word_unat_eq_iff)
qed

lemma excluded_write_length:
  assumes c: "codec_ok c" and wf: "excluded_wf exc"
  shows "\<exists>bs. excluded_write c exc = Some bs \<and> length bs = excluded_length exc \<and> length bs \<le> 32"
proof -
  consider "excuded_channel_ctrl exc = 0" | "excuded_channel_ctrl exc = 1" | "excuded_channel_ctrl exc = 2"
    using two_bits [of "excuded_channel_ctrl exc"] wf by (auto simp: excluded_wf_def)
  then show ?thesis
  proof cases
    case 1
    then show ?thesis by (simp add: excluded_write_def excluded_length_def)
  next
    case 2
    with wf have "unat (excluded_range_length exc) \<le> length (exluded_range exc)"
      and "unat (excluded_range_length exc) \<le> 3"
      by (auto simp: excluded_wf_def)
    with excluded_ranges_write_length [OF c this(1)] 2 show ?thesis
      by (auto simp: excluded_write_def excluded_length_def)
  next
    case 3
    let ?n = "ucast (channel_mask_bytes_inline exc) * 8 :: u16"
    have le: "unat (channel_mask_bytes_inline exc) \<le> 32" and ms: "length (excluded_mask exc) = 8"
      using 3 wf by (auto simp: excluded_wf_def)
    have n: "unat ?n = 8 * unat (channel_mask_bytes_inline exc)"
      using le by (simp add: unat_word_ariths unat_byte_u16)
    have "length (excluded_mask_write c (excluded_mask exc) ?n) = unat ?n div 8"
      by (rule excluded_mask_write_length [OF c]) (use le n ms in simp_all)
    with 3 n le show ?thesis by (simp add: excluded_write_def excluded_length_def)
  qed
qed

lemma channel_plan_write_length:
  assumes "codec_ok c"
  shows "length (channel_plan_write c hs) = unat (ws_channel_plan_length (hw_channel_plan hs))"
  using assms by (simp add: channel_plan_write_def ws_channel_plan_length_def codec_write_length)

lemma channel_function_write_length:
  assumes "codec_ok c"
  shows "length (channel_function_write c cf fixed) = unat (ws_channel_function_length cf 1)"
  using assms by (simp add: channel_function_write_def ws_channel_function_length_def codec_write_length)

lemma length_parts_small:
  "unat (ws_channel_plan_length p) \<le> 6" "unat (ws_channel_function_length cf 1) \<le> 2"
  by (simp_all add: ws_channel_plan_length_def ws_channel_function_length_def)

definition schedule_length :: "hopping_wire \<Rightarrow> bool \<Rightarrow> nat" where
  "schedule_length hs uni =
     (if uni then 4 else 10) + unat (ws_channel_plan_length (hw_channel_plan hs))
     + unat (ws_channel_function_length (if uni then hw_uc_channel_function hs else hw_bc_channel_function hs) 1)
     + (if uni then excluded_length (hw_excluded_channels hs) else 0)"

lemma unat_add_fits:
  assumes "unat (x :: u16) + unat y < 65536"
  shows "unat (x + y) = unat x + unat y"
  using assms by (simp add: unat_word_ariths)

lemma hopping_schedule_length_value:
  assumes wf: "excluded_wf (hw_excluded_channels hs)"
  shows "unat (ws_wp_nested_hopping_schedule_length hs uni) = schedule_length hs uni"
proof -
  let ?exc = "hw_excluded_channels hs"
  let ?cf = "if uni then hw_uc_channel_function hs else hw_bc_channel_function hs"
  let ?a = "(if uni then 4 else 10) + ws_channel_plan_length (hw_channel_plan hs) :: u16"
  let ?b = "?a + ws_channel_function_length ?cf 1"
  let ?base = "(if uni then 4 else 10) + unat (ws_channel_plan_length (hw_channel_plan hs))
      + unat (ws_channel_function_length ?cf 1)"
  note small = length_parts_small(1) [of "hw_channel_plan hs"] length_parts_small(2) [of ?cf]
  have a: "unat ?a = (if uni then 4 else 10) + unat (ws_channel_plan_length (hw_channel_plan hs))"
    using small(1) by (subst unat_add_fits) auto
  have b: "unat ?b = ?base"
    using small a by (subst unat_add_fits) auto
  have b18: "?base \<le> 18" using small by auto
  consider "\<not> uni" | "uni" "excuded_channel_ctrl ?exc = 0" | "uni" "excuded_channel_ctrl ?exc = 1"
    | "uni" "excuded_channel_ctrl ?exc = 2"
    using two_bits [of "excuded_channel_ctrl ?exc"] wf by (auto simp: excluded_wf_def)
  then show ?thesis
  proof cases
    case 3
    then have "unat (excluded_range_length ?exc) \<le> 3" using wf by (simp add: excluded_wf_def)
    then have e: "unat (ucast (excluded_range_length ?exc) * 4 + 1 :: u16) = 1 + 4 * unat (excluded_range_length ?exc)"
      by (simp add: unat_word_ariths unat_u3)
    have "unat (?b + (ucast (excluded_range_length ?exc) * 4 + 1)) = ?base + (1 + 4 * unat (excluded_range_length ?exc))"
      using b b18 e \<open>unat (excluded_range_length ?exc) \<le> 3\<close> by (subst unat_add_fits) simp_all
    with 3 show ?thesis
      by (simp add: ws_wp_nested_hopping_schedule_length_def schedule_length_def excluded_length_def Let_def)
  next
    case 4
    then have "unat (channel_mask_bytes_inline ?exc) \<le> 32" using wf by (simp add: excluded_wf_def)
    then have "unat (?b + ucast (channel_mask_bytes_inline ?exc)) = ?base + unat (channel_mask_bytes_inline ?exc)"
      using b b18 by (subst unat_add_fits) (simp_all add: unat_byte_u16)
    with 4 show ?thesis
      by (simp add: ws_wp_nested_hopping_schedule_length_def schedule_length_def excluded_length_def Let_def)
  qed (use b in \<open>simp_all add: ws_wp_nested_hopping_schedule_length_def schedule_length_def
         excluded_length_def Let_def\<close>)
qed

section \<open>The schedule elements as nested elements\<close>

definition us_base :: "hopping_wire \<Rightarrow> u8" where
  "us_base hs = hw_channel_plan hs OR push_bit 3 (hw_uc_channel_function hs)
     OR push_bit 6 (ucast (excuded_channel_ctrl (hw_excluded_channels hs)))"

definition us_content :: "codec \<Rightarrow> hopping_wire \<Rightarrow> bytes \<Rightarrow> bytes" where
  "us_content c hs xs =
     [hw_uc_dwell_interval hs, hw_clock_drift hs, hw_timing_accurancy hs, us_base hs]
     @ channel_plan_write c hs
     @ channel_function_write c (hw_uc_channel_function hs) (hw_uc_fixed_channel hs) @ xs"

definition bs_content :: "codec \<Rightarrow> hopping_wire \<Rightarrow> bytes" where
  "bs_content c hs =
     write_32_inv c (hw_fhss_broadcast_interval hs) @ write_16_inv c (hw_fhss_bsi hs)
     @ [hw_bc_dwell_interval hs, hw_clock_drift hs, hw_timing_accurancy hs,
        hw_channel_plan hs OR push_bit 3 (hw_bc_channel_function hs)]
     @ channel_plan_write c hs
     @ channel_function_write c (hw_bc_channel_function hs) (hw_bc_fixed_channel hs)"

lemma us_content_length:
  assumes c: "codec_ok c" and xs: "length xs = excluded_length (hw_excluded_channels hs)"
  shows "length (us_content c hs xs) = schedule_length hs True"
  by (simp add: us_content_def schedule_length_def xs channel_plan_write_length [OF c]
      channel_function_write_length [OF c])

lemma bs_content_length:
  assumes c: "codec_ok c"
  shows "length (bs_content c hs) = schedule_length hs False"
  by (simp add: bs_content_def schedule_length_def channel_plan_write_length [OF c]
      channel_function_write_length [OF c] codec_write_length [OF c])

lemma schedule_length_small:
  assumes "excluded_wf (hw_excluded_channels hs)"
  shows "schedule_length hs uni < 256"
  using length_parts_small(1) [of "hw_channel_plan hs"]
    length_parts_small(2) [of "if uni then hw_uc_channel_function hs else hw_bc_channel_function hs"]
    excluded_write_length [OF little_endian_ok assms]
  by (auto simp: schedule_length_def)

lemma hopping_schedule_us_element:
  assumes c: "codec_ok c" and wf: "excluded_wf (hw_excluded_channels hs)"
    and xs: "excluded_write c (hw_excluded_channels hs) = Some xs"
  shows "ws_wp_nested_hopping_schedule_write c hs True
    = Some (nested_encode c \<lparr>ne_long = True, ne_id = 1, ne_content = us_content c hs xs\<rparr>)"
proof -
  have l: "length xs = excluded_length (hw_excluded_channels hs)"
    using excluded_write_length [OF c wf] xs by auto
  have "ws_wp_nested_hopping_schedule_length hs True = word_of_nat (length (us_content c hs xs))"
    by (simp add: us_content_length [OF c l] flip: hopping_schedule_length_value [OF wf])
  moreover have "excuded_channel_ctrl (hw_excluded_channels hs) = 0 \<Longrightarrow> xs = []"
    using xs by (simp add: excluded_write_def)
  ultimately show ?thesis
    using xs by (simp add: ws_wp_nested_hopping_schedule_write_def nested_encode_def Let_def us_content_def
        us_base_def)
qed

lemma hopping_schedule_bs_element:
  assumes c: "codec_ok c" and wf: "excluded_wf (hw_excluded_channels hs)"
  shows "ws_wp_nested_hopping_schedule_write c hs False
    = Some (nested_encode c \<lparr>ne_long = True, ne_id = 2, ne_content = bs_content c hs\<rparr>)"
proof -
  have "ws_wp_nested_hopping_schedule_length hs False = word_of_nat (length (bs_content c hs))"
    by (simp add: bs_content_length [OF c] flip: hopping_schedule_length_value [OF wf])
  then show ?thesis
    by (simp add: ws_wp_nested_hopping_schedule_write_def nested_encode_def Let_def bs_content_def)
qed

section \<open>Reading a schedule\<close>

text \<open>
  A schedule the readers understand: a channel plan given inline, a channel function without an inline
  list of hops, a mask as long as the number of channels asks for, and values that fit the fields.
\<close>

definition readable :: "hopping_wire \<Rightarrow> u8 \<Rightarrow> bool" where
  "readable hs cf \<longleftrightarrow> (hw_channel_plan hs = 0 \<or> hw_channel_plan hs = 1) \<and> (cf = 0 \<or> cf = 1 \<or> cf = 2) \<and>
     unat (hw_ch0_freq hs) * 100 < 2 ^ 24 \<and> hw_channel_spacing hs < 16"

definition plan_of :: "hopping_wire \<Rightarrow> channel_plan_read" where
  "plan_of hs =
     (if hw_channel_plan hs = 0 then Plan_zero (hw_regulatory_domain hs) (hw_operating_class hs)
      else Plan_one (hw_ch0_freq hs) (ucast (hw_channel_spacing hs)) (ucast (hw_number_of_channels hs)))"

definition function_of :: "u8 \<Rightarrow> u16 \<Rightarrow> channel_function_read" where
  "function_of cf fixed = (if cf = 0 then Function_zero fixed else Function_none)"

lemma plan_part_written:
  assumes c: "codec_ok c" and r: "readable hs cf"
    and buf: "buf = pre @ channel_plan_write c hs @ post" and p: "p = length pre"
    and left: "unat left = length (channel_plan_write c hs) + k"
  shows "\<exists>left'. channel_plan_part c buf p left (ucast (hw_channel_plan hs))
      = Some (Some (plan_of hs, p + length (channel_plan_write c hs), left')) \<and> unat left' = k"
proof -
  have len: "length (channel_plan_write c hs) = unat (ws_channel_plan_length (hw_channel_plan hs))"
    by (rule channel_plan_write_length [OF c])
  let ?l = "ws_channel_plan_length (hw_channel_plan hs)"
  have le: "?l \<le> left" using left len by (simp add: word_le_nat_alt)
  then have left': "unat (left - ?l) = k" using left len by (simp add: unat_diff_le)
  have f: "fetch buf p (length (channel_plan_write c hs)) = Some (channel_plan_write c hs)"
    unfolding buf by (rule fetch_mid [OF p refl])
  show ?thesis
  proof (cases "hw_channel_plan hs = 0")
    case True
    then have "fetch buf p 2 = Some [hw_regulatory_domain hs, hw_operating_class hs]"
      using f by (simp add: channel_plan_write_def numeral_2_eq_2)
    with True show ?thesis using le left'
      by (simp add: channel_plan_part_def Let_def ws_channel_plan_zero_read_def plan_of_def
          channel_plan_write_def ws_channel_plan_length_def not_less)
  next
    case False
    then have one: "hw_channel_plan hs = 1" using r by (auto simp: readable_def)
    let ?w = "hw_ch0_freq hs * 100"
    have w: "unat ?w = unat (hw_ch0_freq hs) * 100"
      using r by (simp add: readable_def unat_word_ariths)
    then have "take_bit 24 ?w = ?w" using r by (intro take_bit_fits) (simp add: readable_def)
    moreover have "?w div 100 = hw_ch0_freq hs"
      by (simp add: word_unat_eq_iff unat_div_distrib w)
    ultimately have "read_24_inv c (write_24_inv c ?w) div 100 = hw_ch0_freq hs"
      by (simp add: read_write_24 [OF c])
    moreover have "write_24_inv c ?w = [ucast ?w, ucast (drop_bit 8 ?w), ucast (drop_bit 16 ?w)]"
      by (rule codec_ok_write(2) [OF c])
    ultimately show ?thesis using le left' f one
      by (simp add: channel_plan_part_def Let_def ws_channel_plan_one_read_def plan_of_def
          channel_plan_write_def ws_channel_plan_length_def not_less codec_write_length [OF c]
          read_write_16 [OF c])
  qed
qed

lemma function_part_written:
  assumes c: "codec_ok c" and r: "readable hs cf"
    and buf: "buf = pre @ channel_function_write c cf fixed @ post" and p: "p = length pre"
    and left: "unat left = length (channel_function_write c cf fixed) + k"
  shows "\<exists>left'. channel_function_part c buf p left (ucast cf)
      = Some (Some (function_of cf fixed, p + length (channel_function_write c cf fixed), left'))
      \<and> unat left' = k"
proof -
  let ?l = "ws_channel_function_length cf 0"
  have same: "?l = ws_channel_function_length cf 1"
    using r by (auto simp: readable_def ws_channel_function_length_def)
  have len: "length (channel_function_write c cf fixed) = unat ?l"
    unfolding same by (rule channel_function_write_length [OF c])
  have le: "?l \<le> left" using left len by (simp add: word_le_nat_alt)
  then have left': "unat (left - ?l) = k" using left len by (simp add: unat_diff_le)
  have f: "fetch buf p (length (channel_function_write c cf fixed)) = Some (channel_function_write c cf fixed)"
    unfolding buf by (rule fetch_mid [OF p refl])
  from r consider "cf = 0" | "cf = 1" | "cf = 2" by (auto simp: readable_def)
  then show ?thesis
    by cases (use le left' f in \<open>simp_all add: channel_function_part_def Let_def function_of_def
        ws_channel_function_zero_read_def channel_function_write_def ws_channel_function_length_def
        not_less codec_write_length [OF c] read_write_16 [OF c]\<close>)
qed

lemma us_base_fields:
  assumes r: "readable hs (hw_uc_channel_function hs)" and wf: "excluded_wf (hw_excluded_channels hs)"
  shows "ucast (us_base hs AND 3) = (ucast (hw_channel_plan hs) :: 3 word)"
    and "ucast (drop_bit 3 (us_base hs AND 0x38)) = (ucast (hw_uc_channel_function hs) :: 3 word)"
    and "ucast (drop_bit 6 (us_base hs AND 0xc0)) = excuded_channel_ctrl (hw_excluded_channels hs)"
  using r wf two_bits [of "excuded_channel_ctrl (hw_excluded_channels hs)"]
  unfolding readable_def us_base_def excluded_wf_def
  by (elim conjE disjE; simp)+

lemma bs_base_fields:
  assumes "readable hs cf"
  shows "ucast ((hw_channel_plan hs OR push_bit 3 cf) AND 3) = (ucast (hw_channel_plan hs) :: 3 word)"
    and "ucast (drop_bit 3 ((hw_channel_plan hs OR push_bit 3 cf) AND 0x38)) = (ucast cf :: 3 word)"
    and "ucast (drop_bit 6 ((hw_channel_plan hs OR push_bit 3 cf) AND 0xc0)) = (0 :: 2 word)"
  using assms unfolding readable_def
  by (elim conjE disjE; simp)+

definition excluded_says :: "codec \<Rightarrow> bytes \<Rightarrow> ws_excluded_channel_data_t \<Rightarrow> excluded_read \<Rightarrow> bool" where
  "excluded_says c buf exc x \<longleftrightarrow>
     (case x of
        Excluded_none \<Rightarrow> excuded_channel_ctrl exc = 0
      | Excluded_range n p \<Rightarrow> excuded_channel_ctrl exc = 1 \<and> n = ucast (excluded_range_length exc) \<and>
          fetch buf p (4 * unat n) = excluded_ranges_write c (unat n) (exluded_range exc)
      | Excluded_mask p n \<Rightarrow> excuded_channel_ctrl exc = 2 \<and> n = channel_mask_bytes_inline exc \<and>
          fetch buf p (unat n) = Some (excluded_mask_write c (excluded_mask exc) (ucast n * 8)))"

definition mask_fits_plan :: "hopping_wire \<Rightarrow> bool" where
  "mask_fits_plan hs \<longleftrightarrow>
     (hw_channel_plan hs = 1 \<and> excuded_channel_ctrl (hw_excluded_channels hs) = 2 \<longrightarrow>
      unat (channel_mask_bytes_inline (hw_excluded_channels hs)) = (unat (hw_number_of_channels hs) + 7) div 8)"

lemma excluded_part_written:
  assumes c: "codec_ok c" and wf: "excluded_wf (hw_excluded_channels hs)" and r: "readable hs cf"
    and m: "mask_fits_plan hs" and xs: "excluded_write c (hw_excluded_channels hs) = Some xs"
    and buf: "buf = pre @ xs @ post" and p: "p = length pre" and left: "unat left = length xs"
  shows "\<exists>x. excluded_part buf p left (plan_of hs) (excuded_channel_ctrl (hw_excluded_channels hs)) = Some (Some x)
    \<and> excluded_says c buf (hw_excluded_channels hs) x"
proof -
  let ?exc = "hw_excluded_channels hs"
  have len: "length xs = excluded_length ?exc" using excluded_write_length [OF c wf] xs by auto
  consider "excuded_channel_ctrl ?exc = 0" | "excuded_channel_ctrl ?exc = 1" | "excuded_channel_ctrl ?exc = 2"
    using two_bits [of "excuded_channel_ctrl ?exc"] wf by (auto simp: excluded_wf_def)
  then show ?thesis
  proof cases
    case 1
    then show ?thesis by (simp add: excluded_part_def excluded_says_def)
  next
    case 2
    let ?n = "ucast (excluded_range_length ?exc) :: u8"
    have n3: "unat (excluded_range_length ?exc) \<le> 3" using 2 wf by (simp add: excluded_wf_def)
    have n: "unat ?n = unat (excluded_range_length ?exc)"
      using n3 by (simp add: unsigned_ucast_eq take_bit_nat_eq_self)
    obtain rs where rs: "excluded_ranges_write c (unat ?n) (exluded_range ?exc) = Some rs" "xs = ?n # rs"
      using xs 2 n by (auto simp: excluded_write_def)
    have l: "length rs = 4 * unat ?n" using len rs(2) 2 n by (simp add: excluded_length_def)
    have "fetch buf p 1 = Some [?n]"
      using fetch_mid [OF p, of 1 "[?n]" "rs @ post"] by (simp add: buf rs(2))
    moreover have "fetch buf (p + 1) (4 * unat ?n) = Some rs"
      using fetch_mid [of "p + 1" "pre @ [?n]" "4 * unat ?n" rs post] p l by (simp add: buf rs(2))
    moreover have "\<not> unat left < unat ?n * 4 + 1" using left l rs(2) by simp
    ultimately show ?thesis using 2 rs(1) by (simp add: excluded_part_def excluded_says_def)
  next
    case 3
    let ?n = "channel_mask_bytes_inline ?exc"
    have n: "length xs = unat ?n" and n32: "unat ?n \<le> 32"
      using len 3 wf by (simp_all add: excluded_length_def excluded_wf_def)
    have xs': "xs = excluded_mask_write c (excluded_mask ?exc) (ucast ?n * 8)"
      using xs 3 by (simp add: excluded_write_def)
    have f: "fetch buf p (unat ?n) = Some xs"
      unfolding buf by (rule fetch_mid [OF p n [symmetric]])
    have left': "left = ucast ?n" using left n by (simp add: word_unat_eq_iff unat_byte_u16)
    show ?thesis
    proof (cases "hw_channel_plan hs = 0")
      case True
      have "(ucast (ucast ?n :: u16) :: u8) = ?n" by (auto intro!: bit_word_eqI simp: bit_simps)
      with True show ?thesis using 3 f left' xs'
        by (simp add: excluded_part_def excluded_says_def plan_of_def)
    next
      case False
      then have "hw_channel_plan hs = 1" using r by (auto simp: readable_def)
      then have "unat ?n = (unat (hw_number_of_channels hs) + 7) div 8"
        using m 3 by (simp add: mask_fits_plan_def)
      then have "word_of_nat ((unat (hw_number_of_channels hs) + 7) div 8) = ?n"
        by (metis of_nat_unat ucast_id)
      then show ?thesis using 3 f left' xs' False
        by (simp add: excluded_part_def excluded_says_def plan_of_def Let_def unat_byte_u16)
    qed
  qed
qed

text \<open>What the reader of a unicast schedule fills in, and where it finds it.\<close>

definition us_says :: "codec \<Rightarrow> bytes \<Rightarrow> hopping_wire \<Rightarrow> us_wire \<Rightarrow> bool" where
  "us_says c buf hs us \<longleftrightarrow>
     us_dwell us = hw_uc_dwell_interval hs \<and> us_drift us = hw_clock_drift hs \<and>
     us_accurancy us = hw_timing_accurancy hs \<and> us_plan us = plan_of hs \<and>
     us_function us = function_of (hw_uc_channel_function hs) (hw_uc_fixed_channel hs) \<and>
     excluded_says c buf (hw_excluded_channels hs) (us_excluded us)"

lemma nested_content_found:
  assumes c: "codec_ok c" and e: "nested_wf e"
    and wf: "\<forall>e\<in>set before. nested_wf e \<and> \<not> (ne_id e = i \<and> ne_long e = lng)"
      "\<forall>e\<in>set after. nested_wf e"
    and i: "ne_id e = i" "ne_long e = lng"
    and len: "unat len = length (nested_elems c (before @ e # after))"
    and buf: "buf = pre @ nested_elems c (before @ e # after) @ post"
  shows "\<exists>data n. nested_content c buf (length pre) len lng i = Some (Some (data, n))
    \<and> unat n = length (ne_content e) \<and> fetch buf data (length (ne_content e)) = Some (ne_content e)"
proof -
  have "find (\<lambda>e. ne_id e = i \<and> ne_long e = lng) (before @ e # after) = Some e"
    using wf(1) i by (induction before) auto
  moreover have "\<forall>e\<in>set (before @ e # after). nested_wf e" using wf e by auto
  ultimately obtain r where
    "mac_ie_nested_discover c buf (length pre) len lng i = Some r" "delivers buf (Some (ne_content e)) r"
    using nested_discover_find [OF c _ len, of pre post lng i] buf by auto
  then show ?thesis
    by (cases r) (auto simp: nested_content_def delivers_def split: option.splits)
qed

lemma fetch_split:
  assumes "fetch buf p n = Some (xs @ ys @ zs)"
  obtains pre post where "buf = pre @ xs @ ys @ zs @ post" "length pre = p"
proof -
  from assms have "p + n \<le> length buf" "take n (drop p buf) = xs @ ys @ zs"
    by (auto simp: fetch_def split: if_splits)
  then have "buf = take p buf @ (xs @ ys @ zs) @ drop (p + n) buf"
    by (metis append_take_drop_id drop_drop add.commute append.assoc)
  moreover have "length (take p buf) = p" using \<open>p + n \<le> length buf\<close> by simp
  ultimately show ?thesis using that by (metis append.assoc)
qed

lemma us_read_content:
  assumes c: "codec_ok c" and wf: "excluded_wf (hw_excluded_channels hs)"
    and r: "readable hs (hw_uc_channel_function hs)" and m: "mask_fits_plan hs"
    and xs: "excluded_write c (hw_excluded_channels hs) = Some xs"
    and found: "nested_content c buf p len True 1 = Some (Some (data, n))"
    and n: "unat n = length (us_content c hs xs)"
    and f: "fetch buf data (length (us_content c hs xs)) = Some (us_content c hs xs)"
  shows "\<exists>us. ws_wp_nested_us_read c buf p len = Some (Some us) \<and> us_says c buf hs us"
proof -
  let ?cf = "hw_uc_channel_function hs"
  let ?lead = "[hw_uc_dwell_interval hs, hw_clock_drift hs, hw_timing_accurancy hs, us_base hs]"
  let ?pw = "channel_plan_write c hs"
  let ?fw = "channel_function_write c ?cf (hw_uc_fixed_channel hs)"
  from fetch_split [of buf data _ ?lead ?pw "?fw @ xs"] f obtain pre post where
    buf: "buf = pre @ ?lead @ ?pw @ (?fw @ xs) @ post" and data: "length pre = data"
    unfolding us_content_def by blast
  have lead: "fetch buf data 4 = Some ?lead"
    using fetch_mid [of data pre 4 ?lead "?pw @ (?fw @ xs) @ post"] data by (simp add: buf)
  have n4: "\<not> n < 4" "unat (n - 4) = length ?pw + (length ?fw + length xs)"
    using n by (simp_all add: us_content_def word_less_nat_alt unat_diff_le word_le_nat_alt)
  obtain left where plan: "channel_plan_part c buf (data + 4) (n - 4) (ucast (hw_channel_plan hs))
      = Some (Some (plan_of hs, data + 4 + length ?pw, left))" "unat left = length ?fw + length xs"
    using plan_part_written [OF c r, of buf "pre @ ?lead" "(?fw @ xs) @ post" "data + 4", OF _ _ n4(2)] data
    by (auto simp: buf)
  obtain left' where func: "channel_function_part c buf (data + 4 + length ?pw) left (ucast ?cf)
      = Some (Some (function_of ?cf (hw_uc_fixed_channel hs), data + 4 + length ?pw + length ?fw, left'))"
      "unat left' = length xs"
    using function_part_written [OF c r, of buf "pre @ ?lead @ ?pw" "hw_uc_fixed_channel hs" "xs @ post"
        "data + 4 + length ?pw", OF _ _ plan(2)] data
    by (auto simp: buf)
  obtain x where exc: "excluded_part buf (data + 4 + length ?pw + length ?fw) left' (plan_of hs)
      (excuded_channel_ctrl (hw_excluded_channels hs)) = Some (Some x)"
      "excluded_says c buf (hw_excluded_channels hs) x"
    using excluded_part_written [OF c wf r m xs, of buf "pre @ ?lead @ ?pw @ ?fw" post
        "data + 4 + length ?pw + length ?fw", OF _ _ func(2)] data
    by (auto simp: buf)
  have base: "?lead ! 3 = us_base hs" by simp
  show ?thesis
    unfolding ws_wp_nested_us_read_def found option.case prod.case if_not_P [OF n4(1)] lead Let_def
      base us_base_fields [OF r wf] plan(1) func(1) exc(1) option.map
    by (intro exI conjI, rule refl) (simp add: us_says_def exc(2))
qed

definition bs_says :: "hopping_wire \<Rightarrow> bs_wire \<Rightarrow> bool" where
  "bs_says hs bs \<longleftrightarrow>
     bs_interval bs = hw_fhss_broadcast_interval hs \<and> bs_identifier bs = hw_fhss_bsi hs \<and>
     bs_dwell bs = hw_bc_dwell_interval hs \<and> bs_drift bs = hw_clock_drift hs \<and>
     bs_accurancy bs = hw_timing_accurancy hs \<and> bs_plan bs = plan_of hs \<and>
     bs_function bs = function_of (hw_bc_channel_function hs) (hw_bc_fixed_channel hs)"

lemma bs_read_content:
  assumes c: "codec_ok c" and r: "readable hs (hw_bc_channel_function hs)"
    and found: "nested_content c buf p len True 2 = Some (Some (data, n))"
    and n: "unat n = length (bs_content c hs)"
    and f: "fetch buf data (length (bs_content c hs)) = Some (bs_content c hs)"
  shows "\<exists>bs. ws_wp_nested_bs_read c buf p len = Some (Some bs) \<and> bs_says hs bs"
proof -
  let ?cf = "hw_bc_channel_function hs"
  let ?base = "hw_channel_plan hs OR push_bit 3 ?cf"
  let ?i = "write_32_inv c (hw_fhss_broadcast_interval hs)"
  let ?s = "write_16_inv c (hw_fhss_bsi hs)"
  let ?tail = "[hw_bc_dwell_interval hs, hw_clock_drift hs, hw_timing_accurancy hs, ?base]"
  let ?lead = "?i @ ?s @ ?tail"
  let ?pw = "channel_plan_write c hs"
  let ?fw = "channel_function_write c ?cf (hw_bc_fixed_channel hs)"
  have split: "bs_content c hs = ?lead @ ?pw @ ?fw" by (simp add: bs_content_def)
  obtain pre post where buf: "buf = pre @ ?lead @ ?pw @ ?fw @ post" and data: "length pre = data"
    by (rule fetch_split [OF f [unfolded split]]) blast
  have l10: "length ?lead = 10" by (simp add: codec_write_length [OF c])
  have lead: "fetch buf data 10 = Some ?lead"
    using fetch_mid [of data pre 10 ?lead "?pw @ ?fw @ post"] data l10 by (simp add: buf)
  have n10: "\<not> n < 10" "unat (n - 10) = length ?pw + length ?fw"
    using n l10 unfolding split by (simp_all add: word_less_nat_alt unat_diff_le word_le_nat_alt)
  obtain left where plan: "channel_plan_part c buf (data + 10) (n - 10) (ucast (hw_channel_plan hs))
      = Some (Some (plan_of hs, data + 10 + length ?pw, left))" "unat left = length ?fw"
    using plan_part_written [OF c r, of buf "pre @ ?lead" "?fw @ post" "data + 10", OF _ _ n10(2)] data l10
    by (auto simp: buf)
  have left: "unat left = length ?fw + 0" using plan(2) by simp
  obtain left' where func: "channel_function_part c buf (data + 10 + length ?pw) left (ucast ?cf)
      = Some (Some (function_of ?cf (hw_bc_fixed_channel hs), data + 10 + length ?pw + length ?fw, left'))"
    using function_part_written [OF c r, of buf "pre @ ?lead @ ?pw" "hw_bc_fixed_channel hs" post
        "data + 10 + length ?pw", OF _ _ left] data l10
    by (auto simp: buf)
  have bytes: "?lead ! 9 = ?base" "?lead ! 6 = hw_bc_dwell_interval hs" "?lead ! 7 = hw_clock_drift hs"
    "?lead ! 8 = hw_timing_accurancy hs" "take 4 ?lead = ?i" "take 2 (drop 4 ?lead) = ?s"
    by (simp_all add: nth_append codec_write_length [OF c])
  show ?thesis
    unfolding ws_wp_nested_bs_read_def found option.case prod.case if_not_P [OF n10(1)] lead Let_def
      bytes bs_base_fields [OF r] plan(1) func(1)
    by (intro exI conjI, rule refl) (simp add: bs_says_def read_write_16 [OF c] read_write_32 [OF c])
qed

section \<open>Round trips\<close>


definition us_example :: hopping_wire where
  "us_example = \<lparr>
     hw_uc_dwell_interval = 255, hw_bc_dwell_interval = 255, hw_regulatory_domain = 9,
     hw_operating_class = 1, hw_channel_plan = 1, hw_uc_channel_function = 2,
     hw_bc_channel_function = 2, hw_channel_spacing = 3, hw_number_of_channels = 20,
     hw_clock_drift = 255, hw_timing_accurancy = 1, hw_uc_fixed_channel = 7, hw_bc_fixed_channel = 8,
     hw_fhss_bsi = 0x1234, hw_fhss_broadcast_interval = 1020, hw_ch0_freq = 9171,
     hw_excluded_channels = \<lparr>excuded_channel_ctrl = 1, excluded_range_length = 2,
       exluded_range = [(1, 3), (5, 300), (0, 0)], channel_mask_bytes_inline = 3,
       excluded_mask = [0x80000000, 0, 0, 0, 0, 0, 0, 0]\<rparr>\<rparr>"

definition us_example_bytes :: bytes where
  "us_example_bytes = [0x13, 0x88, 255, 255, 1, 0x51, 108, 254, 13, 3, 20, 0, 2, 1, 0, 3, 0, 5, 0, 44, 1]"

lemma us_example_facts:
  "excluded_wf (hw_excluded_channels us_example)" "readable us_example (hw_uc_channel_function us_example)"
  "mask_fits_plan us_example"
  "ws_wp_nested_hopping_schedule_write little_endian us_example True = Some us_example_bytes"
  "nested_elems little_endian [\<lparr>ne_long = False, ne_id = 5, ne_content = [65, 66]\<rparr>] = [2, 5, 65, 66]"
  subgoal by (simp add: us_example_def excluded_wf_def)
  subgoal by (simp add: us_example_def readable_def)
  subgoal by (simp add: us_example_def mask_fits_plan_def)
  subgoal by code_simp
  subgoal by code_simp
  done


lemma bs_roundtrip:
  assumes c: "codec_ok c" and wf: "excluded_wf (hw_excluded_channels hs)"
    and r: "readable hs (hw_bc_channel_function hs)"
    and w: "ws_wp_nested_hopping_schedule_write c hs False = Some w"
    and others: "\<forall>e\<in>set before. nested_wf e \<and> \<not> (ne_id e = 2 \<and> ne_long e = True)"
      "\<forall>e\<in>set after. nested_wf e"
    and buf: "buf = pre @ nested_elems c before @ w @ nested_elems c after @ post"
    and len: "unat len = length (nested_elems c before @ w @ nested_elems c after)"
  shows "\<exists>bs. ws_wp_nested_bs_read c buf (length pre) len = Some (Some bs) \<and> bs_says hs bs"
proof -
  let ?e = "\<lparr>ne_long = True, ne_id = 2, ne_content = bs_content c hs\<rparr>"
  have we: "w = nested_encode c ?e" using w hopping_schedule_bs_element [OF c wf] by simp
  have elems: "nested_elems c (before @ ?e # after) = nested_elems c before @ w @ nested_elems c after"
    by (simp add: nested_elems_def we)
  have "nested_wf ?e"
    using schedule_length_small [OF wf, of False] bs_content_length [OF c] by (simp add: nested_wf_def)
  note found = nested_content_found [OF c this others, where pre = pre and post = post and len = len
      and buf = buf]
  have "unat len = length (nested_elems c (before @ ?e # after))"
    and "buf = pre @ nested_elems c (before @ ?e # after) @ post"
    unfolding elems by (simp_all add: len buf)
  from found [OF _ _ this] obtain data n where
    "nested_content c buf (length pre) len True 2 = Some (Some (data, n))"
    "unat n = length (bs_content c hs)"
    "fetch buf data (length (bs_content c hs)) = Some (bs_content c hs)"
    by (simp only: nested_elem.simps) blast
  then show ?thesis by (rule bs_read_content [OF c r])
qed

section \<open>Memory safety\<close>

lemma nested_content_safe:
  assumes "p + unat len \<le> length buf"
  obtains "nested_content c buf p len lng i = Some None"
    | d n where "nested_content c buf p len lng i = Some (Some (d, n))" "d + unat n \<le> p + unat len"
proof -
  from nested_discover_safe [OF assms, of c lng i] obtain r where
    r: "mac_ie_nested_discover c buf p len lng i = Some r"
      "case snd r of None \<Rightarrow> fst r = 0 | Some x \<Rightarrow> fst r = ie_length x \<and> p + 2 \<le> content_ptr x \<and>
         content_ptr x + unat (ie_length x) \<le> p + unat len \<and> ie_id x = i \<and> type_long x = lng"
    by blast
  show ?thesis
  proof (cases "snd r")
    case None
    with r(1) have "nested_content c buf p len lng i = Some None"
      by (cases r) (simp add: nested_content_def)
    then show ?thesis by (rule that)
  next
    case (Some x)
    with r have "nested_content c buf p len lng i = Some (Some (content_ptr x, fst r))"
      by (cases r) (simp add: nested_content_def)
    then show ?thesis by (rule that) (use r(2) Some in simp)
  qed
qed

lemma unat_minus: "\<not> left < (k :: u16) \<Longrightarrow> unat (left - k) = unat left - unat k \<and> unat k \<le> unat left"
  by (simp add: unat_diff_le not_less word_le_nat_alt)

lemma channel_plan_part_safe:
  assumes "d + unat left \<le> e" and "e \<le> length buf"
  obtains "channel_plan_part c buf d left plan = Some None"
    | r d' left' where "channel_plan_part c buf d left plan = Some (Some (r, d', left'))"
        "d' + unat left' \<le> e"
proof (cases "left < ws_channel_plan_length (ucast plan)")
  case True
  with that(1) show ?thesis by (simp add: channel_plan_part_def Let_def)
next
  case False
  note l = unat_minus [OF False]
  consider "plan = 0" | "plan = 1" | "plan \<noteq> 0" "plan \<noteq> 1" by blast
  then show ?thesis
  proof cases
    case 1
    with l have "d + 2 \<le> e" "unat (left - 2) = unat left - 2" "2 \<le> unat left"
      using assms(1) by (simp_all add: ws_channel_plan_length_def)
    with 1 False that(2) assms show ?thesis
      by (simp add: channel_plan_part_def Let_def ws_channel_plan_zero_read_def fetch_def
          ws_channel_plan_length_def)
  next
    case 2
    with l have "d + 6 \<le> e" "unat (left - 6) = unat left - 6" "6 \<le> unat left"
      using assms(1) by (simp_all add: ws_channel_plan_length_def)
    with 2 False that(2) assms show ?thesis
      by (simp add: channel_plan_part_def Let_def ws_channel_plan_one_read_def fetch_def
          ws_channel_plan_length_def)
  next
    case 3
    with False that(1) show ?thesis by (simp add: channel_plan_part_def Let_def)
  qed
qed

text \<open>Behind an inline list of hops the pointer is one byte ahead of the length that is left.\<close>

lemma channel_function_part_safe:
  assumes "d + unat left \<le> e" and "e \<le> length buf"
  obtains "channel_function_part c buf d left cf = Some None"
    | r d' left' where "channel_function_part c buf d left cf = Some (Some (r, d', left'))"
        "d' + unat left' \<le> e + 1"
proof (cases "left < ws_channel_function_length (ucast cf) 0")
  case True
  with that(1) show ?thesis by (simp add: channel_function_part_def Let_def)
next
  case False
  note l = unat_minus [OF False]
  consider "cf = 0" | "cf = 1 \<or> cf = 2" | "cf = 3" | "cf \<noteq> 0" "cf \<noteq> 1" "cf \<noteq> 2" "cf \<noteq> 3" by blast
  then show ?thesis
  proof cases
    case 1
    with l have "d + 2 \<le> e" "unat (left - 2) = unat left - 2" "2 \<le> unat left"
      using assms(1) by (simp_all add: ws_channel_function_length_def)
    with 1 False that(2) assms show ?thesis
      by (simp add: channel_function_part_def Let_def ws_channel_function_zero_read_def fetch_def
          ws_channel_function_length_def)
  next
    case 2
    with False that(2) assms show ?thesis
      by (auto simp add: channel_function_part_def Let_def ws_channel_function_length_def)
  next
    case 3
    with l have one: "unat (left - 1) = unat left - 1" "1 \<le> unat left"
      by (simp_all add: ws_channel_function_length_def)
    let ?h = "ucast (hd (take (Suc 0) (drop d buf))) :: u16"
    show ?thesis
    proof (cases "left - 1 < ?h")
      case True
      with 3 False that(1) one assms show ?thesis
        by (simp add: channel_function_part_def Let_def ws_channel_function_three_read_def fetch_def
            ws_channel_function_length_def)
    next
      case False': False
      note h = unat_minus [OF False']
      have "d + 2 + unat ?h + unat (left - 1 - ?h) \<le> e + 1" using h one assms(1) by linarith
      with 3 False False' that(2) one assms show ?thesis
        by (simp add: channel_function_part_def Let_def ws_channel_function_three_read_def fetch_def
            ws_channel_function_length_def)
    qed
  next
    case 4
    with False that(1) show ?thesis by (simp add: channel_function_part_def Let_def)
  qed
qed

lemma fetch_within: "d + k \<le> length buf \<Longrightarrow> fetch buf d k \<noteq> None"
  by (simp add: fetch_def)

lemma bs_read_safe:
  assumes "p + unat len \<le> length buf"
  shows "ws_wp_nested_bs_read c buf p len \<noteq> None"
proof (rule nested_content_safe [OF assms, of c True 2])
  assume "nested_content c buf p len True 2 = Some None"
  then show ?thesis by (simp add: ws_wp_nested_bs_read_def)
next
  fix d n assume nc: "nested_content c buf p len True 2 = Some (Some (d, n))" and d: "d + unat n \<le> p + unat len"
  show ?thesis
  proof (cases "n < 10")
    case True
    then show ?thesis by (simp add: ws_wp_nested_bs_read_def nc)
  next
    case False
    note n = unat_minus [OF False, simplified]
    obtain bs where bs: "fetch buf d 10 = Some bs" using n d assms by (auto simp: fetch_def)
    have le: "d + 10 + unat (n - 10) \<le> p + unat len" using n d by linarith
    let ?plan = "ucast (bs ! 9 AND 3)" and ?cf = "ucast (drop_bit 3 (bs ! 9 AND 0x38))"
    show ?thesis
    proof (rule channel_plan_part_safe [OF le assms, of c ?plan], goal_cases)
      case 1
      then show ?case by (simp add: ws_wp_nested_bs_read_def nc False bs Let_def)
    next
      case (2 r d' left')
      show ?case
        by (rule channel_function_part_safe [OF 2(2) assms, of c ?cf])
           (simp_all add: ws_wp_nested_bs_read_def nc False bs Let_def 2(1))
    qed
  qed
qed

lemma us_read_safe:
  assumes "p + unat len + 2 \<le> length buf"
  shows "ws_wp_nested_us_read c buf p len \<noteq> None"
proof -
  have within: "p + unat len \<le> length buf" using assms by simp
  show ?thesis
  proof (rule nested_content_safe [OF within, of c True 1])
    assume "nested_content c buf p len True 1 = Some None"
    then show ?thesis by (simp add: ws_wp_nested_us_read_def)
  next
    fix d n assume nc: "nested_content c buf p len True 1 = Some (Some (d, n))" and d: "d + unat n \<le> p + unat len"
    show ?thesis
    proof (cases "n < 4")
      case True
      then show ?thesis by (simp add: ws_wp_nested_us_read_def nc)
    next
      case False
      note n = unat_minus [OF False, simplified]
      obtain bs where bs: "fetch buf d 4 = Some bs" using n d assms by (auto simp: fetch_def)
      have le: "d + 4 + unat (n - 4) \<le> p + unat len" using n d by linarith
      let ?plan = "ucast (bs ! 3 AND 3)" and ?cf = "ucast (drop_bit 3 (bs ! 3 AND 0x38))"
      let ?ctrl = "ucast (drop_bit 6 (bs ! 3 AND 0xc0))"
      show ?thesis
      proof (rule channel_plan_part_safe [OF le within, of c ?plan], goal_cases)
        case 1
        then show ?case by (simp add: ws_wp_nested_us_read_def nc False bs Let_def)
      next
        case (2 r d' left')
        show ?case
        proof (rule channel_function_part_safe [OF 2(2) within, of c ?cf], goal_cases)
          case 1
          then show ?case by (simp add: ws_wp_nested_us_read_def nc False bs Let_def 2(1))
        next
          case f: (2 r' d'' left'')
          have "d'' + 1 \<le> length buf" using f(2) assms by linarith
          then have "excluded_part buf d'' left'' r ?ctrl \<noteq> None"
            by (auto simp: excluded_part_def fetch_def Let_def split: channel_plan_read.splits)
          then show ?case
            unfolding ws_wp_nested_us_read_def nc option.case prod.case if_not_P [OF False] bs Let_def 2(1) f(1)
            by simp
        qed
      qed
    qed
  qed
qed

lemma short_readers_safe:
  assumes "p + unat len \<le> length buf"
  shows "ws_wp_nested_pan_read c buf p len pan \<noteq> None" "ws_wp_nested_pan_version_read c buf p len \<noteq> None"
    "ws_wp_nested_gtkhash_read c buf p len \<noteq> None" "ws_wp_nested_network_name_read c buf p len \<noteq> None"
  by (rule nested_content_safe [OF assms, of c False 4],
      use assms in \<open>auto simp: ws_wp_nested_pan_read_def fetch_def\<close>)
     (rule nested_content_safe [OF assms, of c False 6],
      use assms in \<open>auto simp: ws_wp_nested_pan_version_read_def fetch_def\<close>,
      rule nested_content_safe [OF assms, of c False 7],
      use assms in \<open>auto simp: ws_wp_nested_gtkhash_read_def\<close>,
      rule nested_content_safe [OF assms, of c False 5],
      use assms in \<open>auto simp: ws_wp_nested_network_name_read_def\<close>)

lemma vp_read_safe:
  assumes "p + unat len + 1 \<le> length buf"
  shows "ws_wp_nested_vp_read c buf p len vp \<noteq> None"
proof -
  have "p + unat len \<le> length buf" using assms by simp
  then show ?thesis
  proof (rule nested_content_safe [of p len buf c True 3], goal_cases)
    case 1
    then show ?case by (simp add: ws_wp_nested_vp_read_def)
  next
    case (2 d n)
    then show ?case using assms
      by (auto simp: ws_wp_nested_vp_read_def fetch_def Let_def word_less_nat_alt)
  qed
qed

text \<open>
  C26: Whatever the bytes, a reader of a nested element stays within the length it is given when it
  looks for the schedule of the broadcasts, the PAN information and version, the key hashes and the
  network name. The reader of a unicast schedule may read up to two bytes more, the reader of a
  vendor element one.
\<close>

theorem nested_readers_in_bounds:
  assumes "p + unat len + 2 \<le> length buf"
  shows "ws_wp_nested_us_read c buf p len \<noteq> None
    \<and> ws_wp_nested_vp_read c (take (p + unat len + 1) buf) p len vp \<noteq> None
    \<and> ws_wp_nested_bs_read c (take (p + unat len) buf) p len \<noteq> None
    \<and> ws_wp_nested_pan_read c (take (p + unat len) buf) p len pan \<noteq> None
    \<and> ws_wp_nested_pan_version_read c (take (p + unat len) buf) p len \<noteq> None
    \<and> ws_wp_nested_gtkhash_read c (take (p + unat len) buf) p len \<noteq> None
    \<and> ws_wp_nested_network_name_read c (take (p + unat len) buf) p len \<noteq> None"
proof -
  have t: "p + unat len \<le> length (take (p + unat len) buf)" using assms by simp
  have v: "p + unat len + 1 \<le> length (take (p + unat len + 1) buf)" using assms by simp
  show ?thesis
    by (intro conjI us_read_safe assms vp_read_safe v bs_read_safe short_readers_safe t)
qed

theorem nested_readers_in_bounds_witness:
  "ws_wp_nested_us_read little_endian ([0x13, 0x88, 255, 255, 1] @ [0, 0]) 0 5 \<noteq> None"
  using nested_readers_in_bounds [of 0 5 "[0x13, 0x88, 255, 255, 1] @ [0, 0]" little_endian] by simp

text \<open>
  The announced length of a hopping schedule element is the number of bytes that are written
  behind its descriptor, for every channel plan and function and for every list of excluded channels
  that fits the arrays it is kept in; no array is read behind its last entry.
\<close>

lemma hopping_schedule_length_exact:
  assumes c: "codec_ok c" and wf: "excluded_wf (hw_excluded_channels hs)"
  shows "\<exists>w. ws_wp_nested_hopping_schedule_write c hs uni = Some w
    \<and> length w = 2 + unat (ws_wp_nested_hopping_schedule_length hs uni)"
proof -
  obtain xs where xs: "excluded_write c (hw_excluded_channels hs) = Some xs"
    and l: "length xs = excluded_length (hw_excluded_channels hs)"
    using excluded_write_length [OF c wf] by auto
  show ?thesis
    by (cases uni) (simp_all add: hopping_schedule_us_element [OF c wf xs] hopping_schedule_bs_element [OF c wf]
        nested_encode_length [OF c] us_content_length [OF c l] bs_content_length [OF c]
        hopping_schedule_length_value [OF wf])
qed

text \<open>
  C18: The search in the nested elements of a frame returns the first element that has the identifier
  and the form asked for, with its length and a pointer to its content, and zero when there is none,
  whatever stands before and behind the elements.
\<close>

theorem nested_discover_first:
  assumes "codec_ok c" and "\<forall>e\<in>set es. nested_wf e" and "unat len = length (nested_elems c es)"
  shows "\<exists>r. mac_ie_nested_discover c (pre @ nested_elems c es @ post) (length pre) len lng i = Some r
    \<and> delivers (pre @ nested_elems c es @ post)
        (map_option ne_content (find (\<lambda>e. ne_id e = i \<and> ne_long e = lng) es)) r"
  by (rule nested_discover_find [OF assms])

theorem nested_discover_first_witness:
  "\<exists>r. mac_ie_nested_discover little_endian ([7] @ [2, 5, 65, 66, 1, 6, 9] @ [0]) 1 7 False 6 = Some r
    \<and> delivers ([7] @ [2, 5, 65, 66, 1, 6, 9] @ [0]) (Some [9]) r"
proof -
  let ?es = "[\<lparr>ne_long = False, ne_id = 5, ne_content = [65, 66]\<rparr>, \<lparr>ne_long = False, ne_id = 6, ne_content = [9]\<rparr>]"
  have e: "nested_elems little_endian ?es = [2, 5, 65, 66, 1, 6, 9]" by code_simp
  have w: "\<forall>e\<in>set ?es. nested_wf e" by (simp add: nested_wf_def)
  have l: "unat (7 :: u16) = length (nested_elems little_endian ?es)" unfolding e by simp
  have f: "map_option ne_content (find (\<lambda>e. ne_id e = 6 \<and> ne_long e = False) ?es) = Some [9]" by simp
  have "length [7 :: u8] = 1" by simp
  with nested_discover_first [OF little_endian_ok w l, of "[7]" "[0]" False 6]
  show ?thesis unfolding e f by (simp only:)
qed

text \<open>
  The length of the payload element, which \<open>ws_llc\<close> hands to these readers, is not compared with
  the length of the frame; the search then runs on behind the frame.
\<close>

lemma payload_length_trusted:
  "mac_ie_payload_discover little_endian [0xff, 0xa7, 0x01, 0x07, 0x00] 0 5 4
     = Some (2047, Some \<lparr>content_ptr = 2, ie_length = 2047, ie_id = 4\<rparr>)"
  "ws_wp_nested_pan_read little_endian [0xff, 0xa7, 0x01, 0x07, 0x00] 2 2047 pan = None"
proof -
  show "mac_ie_payload_discover little_endian [0xff, 0xa7, 0x01, 0x07, 0x00] 0 5 4
     = Some (2047, Some \<lparr>content_ptr = 2, ie_length = 2047, ie_id = 4\<rparr>)"
    by code_simp
  have "Option.is_none (mac_ie_nested_discover little_endian [0xff, 0xa7, 0x01, 0x07, 0x00] 2 2047 False 4)"
    by code_simp
  then show "ws_wp_nested_pan_read little_endian [0xff, 0xa7, 0x01, 0x07, 0x00] 2 2047 pan = None"
    by (simp add: ws_wp_nested_pan_read_def nested_content_def Option.is_none_def)
qed

text \<open>
  A unicast schedule that announces ranges of excluded channels and ends there: the count of the
  ranges is read from the byte behind the element before its length is looked at.
\<close>

lemma us_range_count_unchecked:
  "ws_wp_nested_us_read little_endian [0x06, 0x88, 255, 255, 1, 0x50, 9, 1] 0 8 = None"
proof -
  have "Option.is_none (ws_wp_nested_us_read little_endian [0x06, 0x88, 255, 255, 1, 0x50, 9, 1] 0 8)"
    by code_simp
  then show ?thesis by (simp add: Option.is_none_def)
qed

end
