(* ===== verification/Mpx.thy ===== *)
theory Mpx
  imports MacIeProps
begin

text \<open>
  The header of the multiplexed data service (\<open>6LoWPAN/ws/ws_mpx_header.c\<close>): one byte with the
  transfer type and the transaction, and behind it, by the type, a fragment number, the size of the
  upper layer frame and the multiplex identifier.
\<close>

section \<open>Parsing and writing\<close>

record mpx_msg_t =
  transfer_type :: "3 word"
  transaction_id :: "5 word"
  fragment_number :: u8
  total_upper_layer_size :: u16
  multiplex_id :: u16
  frame_ptr :: nat
  frame_length :: u16

text \<open>
  \<open>MPX_FT_FULL_FRAME\<close> 0, \<open>..SMALL_MULTILEX_ID\<close> 1, \<open>FIRST_OR_SUB_FRAGMENT\<close> 2, \<open>LAST_FRAGMENT\<close> 4,
  \<open>ABORT\<close> 6. The result is \<open>None\<close> for a read outside the frame and \<open>Some None\<close> for false; no caller
  looks at the message then.
\<close>

definition ws_llc_mpx_header_frame_parse :: "codec \<Rightarrow> bytes \<Rightarrow> nat \<Rightarrow> u16 \<Rightarrow> mpx_msg_t option option" where
  "ws_llc_mpx_header_frame_parse c buf ptr len =
     (if len = 0 then Some None
      else case fetch buf ptr 1 of
        None \<Rightarrow> None
      | Some b \<Rightarrow>
          let tt = ucast (hd b AND 7) :: 3 word;
              tid = ucast (drop_bit 3 (hd b AND 0xf8)) :: 5 word;
              ptr = ptr + 1;
              len = len - 1;
              fragmented_number_present = (tt = 2 \<or> tt = 4)
          in
          if \<not> (tt = 0 \<or> tt = 1 \<or> tt = 2 \<or> tt = 4 \<or> tt = 6) then Some None
          else if fragmented_number_present \<and> len < 2 then Some None
          else if tt = 6 \<and> len \<noteq> 2 \<and> len \<noteq> 0 then Some None
          else case (if fragmented_number_present then map_option hd (fetch buf ptr 1) else Some 0) of
            None \<Rightarrow> None
          | Some fragment \<Rightarrow>
              let ptr = (if fragmented_number_present then ptr + 1 else ptr);
                  len = (if fragmented_number_present then len - 1 else len);
                  first_one = (fragmented_number_present \<and> fragment = 0);
                  fragment_total_size = (tt = 6 \<and> len = 2 \<or> first_one);
                  multiplex_id_present = (tt = 0 \<or> first_one)
              in
              if fragment_total_size \<and> len < 2 then Some None
              else case (if fragment_total_size then map_option (read_16_inv c) (fetch buf ptr 2) else Some 0) of
                None \<Rightarrow> None
              | Some total_size \<Rightarrow>
                  let ptr = (if fragment_total_size then ptr + 2 else ptr);
                      len = (if fragment_total_size then len - 2 else len)
                  in
                  if multiplex_id_present \<and> len < 3 then Some None
                  else case (if multiplex_id_present then map_option (read_16_inv c) (fetch buf ptr 2) else Some 0) of
                    None \<Rightarrow> None
                  | Some mpx \<Rightarrow>
                      Some (Some \<lparr>transfer_type = tt, transaction_id = tid, fragment_number = fragment,
                        total_upper_layer_size = total_size, multiplex_id = mpx,
                        frame_ptr = (if multiplex_id_present then ptr + 2 else ptr),
                        frame_length = (if multiplex_id_present then len - 2 else len)\<rparr>))"

definition ws_llc_mpx_header_write :: "codec \<Rightarrow> mpx_msg_t \<Rightarrow> bytes" where
  "ws_llc_mpx_header_write c msg =
     (let tt = transfer_type msg;
          fragmented_number_present = (tt = 2 \<or> tt = 4);
          first_one = (fragmented_number_present \<and> fragment_number msg = 0);
          fragment_total_size = (first_one \<or> tt = 6 \<and> total_upper_layer_size msg \<noteq> 0);
          multiplex_id_present = (tt = 0 \<or> first_one)
      in [ucast tt OR (push_bit 3 (ucast (transaction_id msg)) AND 0xf8)]
         @ (if fragmented_number_present then [fragment_number msg] else [])
         @ (if fragment_total_size then write_16_inv c (total_upper_layer_size msg) else [])
         @ (if multiplex_id_present then write_16_inv c (multiplex_id msg) else []))"

section \<open>Round trip\<close>

text \<open>
  A message whose unused fields are zero and whose payload is one the parser accepts: a full frame
  and a fragment carry at least one byte, an abort none.
\<close>

definition mpx_canonical :: "mpx_msg_t \<Rightarrow> nat \<Rightarrow> bool" where
  "mpx_canonical m n \<longleftrightarrow>
     (transfer_type m = 0 \<and> fragment_number m = 0 \<and> total_upper_layer_size m = 0 \<and> 0 < n) \<or>
     (transfer_type m = 1 \<and> fragment_number m = 0 \<and> total_upper_layer_size m = 0 \<and> multiplex_id m = 0) \<or>
     ((transfer_type m = 2 \<or> transfer_type m = 4) \<and> 0 < n \<and>
        (fragment_number m \<noteq> 0 \<longrightarrow> total_upper_layer_size m = 0 \<and> multiplex_id m = 0)) \<or>
     (transfer_type m = 6 \<and> fragment_number m = 0 \<and> multiplex_id m = 0 \<and> n = 0)"

lemma first_byte:
  fixes tt :: "3 word" and tid :: "5 word"
  assumes "b = (ucast tt OR (push_bit 3 (ucast tid) AND 0xf8) :: u8)"
  shows "ucast (b AND 7) = tt" "ucast (drop_bit 3 (b AND 0xf8)) = tid"
proof -
  have bits: "n \<in> {0, 1, 2, 3, 4, 5, 6, 7}" if "n < LENGTH(8)" for n :: nat
    using that by simp presburger
  have f8: "push_bit 3 (ucast tid) AND 0xf8 = (push_bit 3 (ucast tid) :: u8)"
    by (rule bit_word_eqI, drule bits) (auto simp: bit_simps)
  have "bit (ucast (b AND 7) :: 3 word) n = bit tt n" if "n < LENGTH(3)" for n
  proof -
    have "n \<in> {0, 1, 2}" using that by simp presburger
    then show ?thesis by (auto simp: assms f8 bit_simps)
  qed
  then show "ucast (b AND 7) = tt" by (rule bit_word_eqI)
  have "bit (ucast (drop_bit 3 (b AND 0xf8)) :: 5 word) n = bit tid n" if "n < LENGTH(5)" for n
  proof -
    have "n \<in> {0, 1, 2, 3, 4}" using that by simp presburger
    moreover have "\<not> bit tt k" if "3 \<le> k" for k
      using bit_imp_le_length [of tt k] that by auto
    ultimately show ?thesis by (auto simp: assms f8 bit_simps)
  qed
  then show "ucast (drop_bit 3 (b AND 0xf8)) = tid" by (rule bit_word_eqI)
qed

lemma fetch_skip: "fetch (pre @ xs) (length pre + k) n = fetch xs k n"
  by (simp add: fetch_def)

lemma fetch_skip0: "fetch (pre @ xs) (length pre) n = fetch xs 0 n"
  using fetch_skip [of pre xs 0 n] by simp

lemma mpx_cases:
  assumes "mpx_canonical m n"
  obtains "transfer_type m = 0" "fragment_number m = 0" "total_upper_layer_size m = 0" "0 < n"
    | "transfer_type m = 1" "fragment_number m = 0" "total_upper_layer_size m = 0" "multiplex_id m = 0"
    | "transfer_type m = 2 \<or> transfer_type m = 4" "fragment_number m = 0" "0 < n"
    | "transfer_type m = 2 \<or> transfer_type m = 4" "fragment_number m \<noteq> 0"
        "total_upper_layer_size m = 0" "multiplex_id m = 0" "0 < n"
    | "transfer_type m = 6" "fragment_number m = 0" "multiplex_id m = 0" "total_upper_layer_size m = 0" "n = 0"
    | "transfer_type m = 6" "fragment_number m = 0" "multiplex_id m = 0" "total_upper_layer_size m \<noteq> 0" "n = 0"
  using assms unfolding mpx_canonical_def by blast

text \<open>
  C24: A written header and the payload behind it are parsed to the message the header was written
  from, with the payload as its frame, whatever stands before and behind them.
\<close>

theorem mpx_roundtrip:
  assumes c: "codec_ok c" and m: "mpx_canonical m (length frame)"
    and len: "unat len = length (ws_llc_mpx_header_write c m) + length frame"
  shows "ws_llc_mpx_header_frame_parse c (pre @ ws_llc_mpx_header_write c m @ frame @ post) (length pre) len
       = Some (Some (m\<lparr>frame_ptr := length pre + length (ws_llc_mpx_header_write c m),
           frame_length := word_of_nat (length frame)\<rparr>))"
proof -
  obtain b where b: "b = (ucast (transfer_type m) OR (push_bit 3 (ucast (transaction_id m)) AND 0xf8) :: u8)"
    by blast
  note b_fields = first_byte [OF b]
  have w16: "read_16_inv c [ucast v, ucast (drop_bit 8 v)] = v" for v
    using read_write_16 [OF c, of v] by (simp add: codec_ok_write(1) [OF c])
  note w = ws_llc_mpx_header_write_def Let_def b [symmetric] codec_ok_write(1) [OF c]
  have nz: "len \<noteq> 0" using len by (auto simp: ws_llc_mpx_header_write_def Let_def)
  note parse = ws_llc_mpx_header_frame_parse_def Let_def fetch_skip fetch_skip0 nz
    b_fields b_fields [simplified] w16 fetch_def
    word_less_nat_alt word_le_nat_alt unat_diff_le
  have lenw: "len - word_of_nat k = word_of_nat n" if "unat len = k + n" for k n
  proof -
    have "len = word_of_nat (k + n)" by (simp flip: that)
    then show ?thesis by simp
  qed
  show ?thesis
    using m
  proof (cases rule: mpx_cases)
    case 1
    have h: "ws_llc_mpx_header_write c m = [b, ucast (multiplex_id m), ucast (drop_bit 8 (multiplex_id m))]"
      unfolding w using 1 by auto
    then have l: "unat len = 3 + length frame" using len by simp
    show ?thesis unfolding h using 1 l lenw [of 3, OF l]
      by (cases m) (simp add: parse)
  next
    case 2
    have h: "ws_llc_mpx_header_write c m = [b]"
      unfolding w using 2 by auto
    then have l: "unat len = 1 + length frame" using len by simp
    show ?thesis unfolding h using 2 l lenw [of 1, OF l]
      by (cases m) (simp add: parse)
  next
    case 3
    let ?t = "total_upper_layer_size m" and ?i = "multiplex_id m"
    have h: "ws_llc_mpx_header_write c m
        = [b, 0, ucast ?t, ucast (drop_bit 8 ?t), ucast ?i, ucast (drop_bit 8 ?i)]"
      unfolding w using 3 by auto
    then have l: "unat len = 6 + length frame" using len by simp
    show ?thesis unfolding h using 3 l lenw [of 6, OF l]
      by (cases m) (elim disjE; simp add: parse)
  next
    case 4
    have h: "ws_llc_mpx_header_write c m = [b, fragment_number m]"
      unfolding w using 4 by auto
    then have l: "unat len = 2 + length frame" using len by simp
    show ?thesis unfolding h using 4 l lenw [of 2, OF l]
      by (cases m) (elim disjE; simp add: parse)
  next
    case 5
    have h: "ws_llc_mpx_header_write c m = [b]"
      unfolding w using 5 by auto
    then have l: "len = 1" using len 5 by (simp add: word_unat_eq_iff)
    show ?thesis unfolding h using 5 l
      by (cases m) (simp add: parse)
  next
    case 6
    let ?t = "total_upper_layer_size m"
    have h: "ws_llc_mpx_header_write c m = [b, ucast ?t, ucast (drop_bit 8 ?t)]"
      unfolding w using 6 by auto
    then have l: "len = 3" using len 6 by (simp add: word_unat_eq_iff)
    show ?thesis unfolding h using 6 l
      by (cases m) (simp add: parse)
  qed
qed

definition mpx_fragment_example :: mpx_msg_t where
  "mpx_fragment_example = \<lparr>transfer_type = 2, transaction_id = 21, fragment_number = 0,
     total_upper_layer_size = 1500, multiplex_id = 0xa81e, frame_ptr = 0, frame_length = 0\<rparr>"

theorem mpx_roundtrip_witness:
  "ws_llc_mpx_header_frame_parse little_endian
     ([1] @ ws_llc_mpx_header_write little_endian mpx_fragment_example @ [7, 8] @ [9]) (length [1 :: u8]) 8
   = Some (Some (mpx_fragment_example\<lparr>
       frame_ptr := length [1 :: u8] + length (ws_llc_mpx_header_write little_endian mpx_fragment_example),
       frame_length := word_of_nat (length [7, 8 :: u8])\<rparr>))"
proof (rule mpx_roundtrip [OF little_endian_ok])
  show "mpx_canonical mpx_fragment_example (length [7, 8 :: u8])"
    by (simp add: mpx_canonical_def mpx_fragment_example_def)
  show "unat (8 :: u16) = length (ws_llc_mpx_header_write little_endian mpx_fragment_example) + length [7, 8 :: u8]"
    by (simp add: ws_llc_mpx_header_write_def mpx_fragment_example_def little_endian_def Let_def)
qed

section \<open>Bounds\<close>

lemma fetch_in: "p + n \<le> length buf \<Longrightarrow> \<exists>bs. fetch buf p n = Some bs"
  by (simp add: fetch_def)

text \<open>
  The parser never reads behind the length it is given, and the frame it reports is what is left
  behind the header: it ends where the length says.
\<close>

lemma mpx_parse_bounds:
  assumes "ptr + unat len \<le> length buf"
  shows "\<exists>r. ws_llc_mpx_header_frame_parse c buf ptr len = Some r \<and>
    (\<forall>m. r = Some m \<longrightarrow> ptr < frame_ptr m \<and> frame_ptr m + unat (frame_length m) = ptr + unat len)"
proof (cases "len = 0")
  case True
  then show ?thesis by (simp add: ws_llc_mpx_header_frame_parse_def)
next
  case False
  then have l1: "1 \<le> unat len" "unat (len - 1) = unat len - 1"
    by (auto simp: unat_diff_le word_le_nat_alt Suc_le_eq unat_gt_0)
  have p1: "ptr + 1 \<le> length buf" using assms l1(1) by linarith
  obtain b where b: "fetch buf ptr 1 = Some [b]"
    using p1 by (cases "drop ptr buf") (auto simp: fetch_def)
  obtain tt where tt: "ucast (b AND 7) = (tt :: 3 word)" by blast
  note start = ws_llc_mpx_header_frame_parse_def if_not_P [OF False] b option.case list.sel Let_def tt
  note parse = fetch_def unat_diff_le word_le_nat_alt word_less_nat_alt l1
  consider (bad) "\<not> (tt = 0 \<or> tt = 1 \<or> tt = 2 \<or> tt = 4 \<or> tt = 6)"
    | (full) "tt = 0" | (small) "tt = 1" | (frag) "tt = 2 \<or> tt = 4" | (abort) "tt = 6"
    by blast
  then show ?thesis
  proof cases
    case bad
    then show ?thesis unfolding start by simp
  next
    case full
    then show ?thesis unfolding start using assms p1
      by (cases "unat (len - 1) < 3") (auto simp add: parse)
  next
    case small
    then show ?thesis unfolding start using assms l1 by simp
  next
    case abort
    then have other: "tt \<noteq> 0" "\<not> (tt = 2 \<or> tt = 4)" by auto
    consider "len - 1 = 2" | "len - 1 = 0" | "len - 1 \<noteq> 2" "len - 1 \<noteq> 0" by blast
    then show ?thesis
    proof cases
      case 1
      then have "unat len = 3" using l1 by simp
      with 1 show ?thesis unfolding start using abort other assms by (simp add: fetch_def)
    next
      case 2
      then have "unat len = 1" using l1 by simp
      with 2 show ?thesis unfolding start using abort other by simp
    next
      case 3
      then show ?thesis unfolding start using abort other by simp
    qed
  next
    case frag
    then have other: "tt \<noteq> 0" "tt \<noteq> 1" "tt \<noteq> 6" by auto
    let ?fragment = "hd (take 1 (drop (ptr + 1) buf))"
    consider "unat len < 3" | "3 \<le> unat len" "?fragment \<noteq> 0"
      | "3 \<le> unat len" "?fragment = 0" "unat len < 6" | "6 \<le> unat len" "?fragment = 0"
      by linarith
    then show ?thesis
    proof cases
      case 1
      then have "len - 1 < 2" using l1 by (simp add: word_less_nat_alt)
      then show ?thesis unfolding start using frag other by simp
    next
      case 2
      then show ?thesis unfolding start using assms frag other by (simp add: parse) (linarith)?
    next
      case 3
      then have "unat len - 2 < 2 \<or> unat len - 4 < 3" by linarith
      with 3 show ?thesis unfolding start using assms frag other by (auto simp add: parse)
    next
      case 4
      then show ?thesis unfolding start using assms frag other by (simp add: parse) (linarith)?
    qed
  qed
qed

end
