(* ===== verification/LlcFrame.thy ===== *)
theory LlcFrame
  imports WsIeProps Mpx
begin

text \<open>
  The frames the Wi-SUN data service builds (\<open>6LoWPAN/ws/ws_llc_data_service.c\<close>, the build without the
  TI MAC, which lets the MAC write the elements): for each kind of message the header elements and the
  nested payload elements, and the lengths that are computed before the message buffer is allocated.
\<close>

section \<open>What is asked for\<close>

record wh_ie_sub_list_t =
  utt_ie :: bool
  bt_ie :: bool
  fc_ie :: bool
  rsl_ie :: bool
  vh_ie :: bool
  ea_ie :: bool

record wp_nested_ie_sub_list_t =
  us_ie :: bool
  bs_ie :: bool
  vp_ie :: bool
  pan_ie :: bool
  net_name_ie :: bool
  pan_version_ie :: bool
  gtkhash_ie :: bool

definition no_wh :: wh_ie_sub_list_t where
  "no_wh = \<lparr>utt_ie = False, bt_ie = False, fc_ie = False, rsl_ie = False, vh_ie = False, ea_ie = False\<rparr>"

definition no_wp :: wp_nested_ie_sub_list_t where
  "no_wp = \<lparr>us_ie = False, bs_ie = False, vp_ie = False, pan_ie = False, net_name_ie = False,
     pan_version_ie = False, gtkhash_ie = False\<rparr>"

record llc_ie_params_t =
  network_name_length :: u16
  vendor_payload_length :: u16
  vendor_header_length :: u8
  gtkhash_length :: u8
  pan_congiguration :: "ws_pan_information_t option"
  hopping_schedule :: "hopping_wire option"
  gtkhash :: "bytes option"
  network_name :: bytes
  vendor_header_data :: bytes
  vendor_payload :: bytes

section \<open>Lengths\<close>

definition ws_wh_headers_length :: "wh_ie_sub_list_t \<Rightarrow> llc_ie_params_t \<Rightarrow> u16" where
  "ws_wh_headers_length requested params =
     (if utt_ie requested then 3 + 4 else 0) +
     (if bt_ie requested then 3 + 5 else 0) +
     (if fc_ie requested then 3 + 2 else 0) +
     (if rsl_ie requested then 3 + 1 else 0) +
     (if vh_ie requested then 3 + ucast (vendor_header_length params) else 0) +
     (if ea_ie requested then 3 + 8 else 0)"

text \<open>\<open>hs\<close> is \<open>params->hopping_schedule\<close>, whose presence the callers have checked.\<close>

definition ws_wp_nested_message_length ::
    "wp_nested_ie_sub_list_t \<Rightarrow> llc_ie_params_t \<Rightarrow> hopping_wire \<Rightarrow> u16" where
  "ws_wp_nested_message_length requested params hs =
     (if gtkhash_ie requested then 2 + ucast (gtkhash_length params) else 0) +
     (if net_name_ie requested then 2 + network_name_length params else 0) +
     (if vp_ie requested \<and> vendor_payload_length params \<noteq> 0 then 2 + vendor_payload_length params else 0) +
     (if pan_ie requested then 2 + (if pan_congiguration params \<noteq> None then 5 else 0) else 0) +
     (if pan_version_ie requested then 2 + (if pan_congiguration params \<noteq> None then 2 else 0) else 0) +
     (if bs_ie requested then 2 + ws_wp_nested_hopping_schedule_length hs False else 0) +
     (if us_ie requested then 2 + ws_wp_nested_hopping_schedule_length hs True else 0)"

section \<open>Frames\<close>

text \<open>
  The header elements, the payload element (none when the nested length is zero) and the size of the
  buffer that is allocated for both. \<open>None\<close> is a read behind an array of the hopping schedule.
\<close>

record llc_frame =
  frame_header :: bytes
  frame_payload :: bytes
  frame_buffer_size :: u16

definition opt_append :: "bytes option \<Rightarrow> bytes option \<Rightarrow> bytes option" where
  "opt_append a b = (case a of None \<Rightarrow> None | Some x \<Rightarrow> map_option ((@) x) b)"

definition opt_when :: "bool \<Rightarrow> bytes option \<Rightarrow> bytes option" where
  "opt_when b x = (if b then x else Some [])"

definition overhead :: "u16 \<Rightarrow> u16 \<Rightarrow> u16" where
  "overhead header nested = (if nested \<noteq> 0 then header + (nested + 2) else header)"

text \<open>
  \<open>ws_llc_asynch_request\<close>. Flow control, signal level and vendor header are never part of an
  asynchronous message.
\<close>

definition asynch_frame ::
    "codec \<Rightarrow> llc_ie_params_t \<Rightarrow> hopping_wire \<Rightarrow> u8 \<Rightarrow> wh_ie_sub_list_t \<Rightarrow> wp_nested_ie_sub_list_t
     \<Rightarrow> llc_frame option" where
  "asynch_frame c params hs message_type wh wp =
     (let wh = wh\<lparr>fc_ie := False, rsl_ie := False, vh_ie := False\<rparr>;
          header_buffer_length = ws_wh_headers_length wh params;
          wp_nested_payload_length = ws_wp_nested_message_length wp params hs;
          headers = (if utt_ie wh then ws_wh_utt_write c message_type else [])
                    @ (if bt_ie wh then ws_wh_bt_write c else []);
          nested =
            opt_append (opt_when (us_ie wp) (ws_wp_nested_hopping_schedule_write c hs True))
            (opt_append (opt_when (bs_ie wp) (ws_wp_nested_hopping_schedule_write c hs False))
              (Some (
                (if pan_ie wp then ws_wp_nested_pan_info_write c (pan_congiguration params) else []) @
                (if net_name_ie wp
                 then ws_wp_nested_netname_write c (network_name params) (ucast (network_name_length params)) else []) @
                (if pan_version_ie wp then ws_wp_nested_pan_ver_write c (pan_congiguration params) else []) @
                (if gtkhash_ie wp
                 then ws_wp_nested_gtkhash_write c (case gtkhash params of None \<Rightarrow> [] | Some h \<Rightarrow> h) (gtkhash_length params)
                 else []) @
                (if vp_ie wp then ws_wp_nested_vp_write c (vendor_payload params) (vendor_payload_length params) else []))))
      in map_option (\<lambda>payload.
           \<lparr>frame_header = headers, frame_payload = payload,
             frame_buffer_size = overhead header_buffer_length wp_nested_payload_length\<rparr>)
         (if wp_nested_payload_length \<noteq> 0
          then opt_append (Some (ws_wp_base_write c wp_nested_payload_length)) nested
          else Some []))"

text \<open>\<open>ws_llc_lowpan_mpx_header_set\<close>: the bytes it puts behind the nested elements.\<close>

definition ws_llc_lowpan_mpx_header_set :: "codec \<Rightarrow> u8 \<Rightarrow> 5 word \<Rightarrow> u16 \<Rightarrow> nat \<Rightarrow> bytes" where
  "ws_llc_lowpan_mpx_header_set c mpx_group_id mpx_id user_id msdu_length =
     mac_ie_payload_base_write c mpx_group_id (word_of_nat (msdu_length + 3))
     @ ws_llc_mpx_header_write c \<lparr>transfer_type = 0, transaction_id = mpx_id, fragment_number = 0,
         total_upper_layer_size = 0, multiplex_id = user_id, frame_ptr = 0, frame_length = 0\<rparr>"

text \<open>\<open>ws_llc_lowpan_mpx_data_request\<close>: the masks, by the request and what is configured.\<close>

definition lowpan_wh :: "llc_ie_params_t \<Rightarrow> bool \<Rightarrow> bool \<Rightarrow> wh_ie_sub_list_t" where
  "lowpan_wh params edfe ack =
     no_wh\<lparr>utt_ie := True, bt_ie := True, vh_ie := vendor_header_length params \<noteq> 0, fc_ie := edfe \<and> ack\<rparr>"

definition lowpan_wp :: "llc_ie_params_t \<Rightarrow> bool \<Rightarrow> wp_nested_ie_sub_list_t" where
  "lowpan_wp params ack =
     no_wp\<lparr>vp_ie := vendor_payload_length params \<noteq> 0, bs_ie := \<not> ack, us_ie := True\<rparr>"

text \<open>
  The nested part is the two schedules; the vendor payload is counted in \<open>nested_ie_length\<close> and not
  written. \<open>WS_FT_DATA\<close> is 4.
\<close>

definition schedule_payload :: "codec \<Rightarrow> hopping_wire \<Rightarrow> u16 \<Rightarrow> bool \<Rightarrow> bytes option" where
  "schedule_payload c hs nested_ie_length with_bs =
     (if nested_ie_length \<noteq> 0
      then opt_append (Some (ws_wp_base_write c nested_ie_length))
             (opt_append (ws_wp_nested_hopping_schedule_write c hs True)
               (opt_when with_bs (ws_wp_nested_hopping_schedule_write c hs False)))
      else Some [])"

definition lowpan_frame :: "codec \<Rightarrow> llc_ie_params_t \<Rightarrow> hopping_wire \<Rightarrow> bool \<Rightarrow> bool \<Rightarrow> llc_frame option" where
  "lowpan_frame c params hs edfe ack =
     (let wh = lowpan_wh params edfe ack;
          wp = lowpan_wp params ack;
          ie_header_length = ws_wh_headers_length wh params;
          nested_ie_length = ws_wp_nested_message_length wp params hs;
          headers = (if fc_ie wh then ws_wh_fc_write c \<lparr>tx_flow_ctrl = 50, rx_flow_ctrl = 255\<rparr> else [])
                    @ ws_wh_utt_write c 4
                    @ (if bt_ie wh then ws_wh_bt_write c else [])
                    @ (if vh_ie wh
                       then ws_wh_vh_write c (vendor_header_data params) (vendor_header_length params) else [])
      in map_option (\<lambda>payload.
           \<lparr>frame_header = headers, frame_payload = payload,
             frame_buffer_size = overhead ie_header_length nested_ie_length + 5\<rparr>)
         (schedule_payload c hs nested_ie_length (bs_ie wp)))"

text \<open>
  \<open>ws_llc_mpx_eapol_request\<close>: \<open>relay\<close> is the state of the relay, \<open>auth\<close> the authenticator's address when
  the frame is the first of a handshake. \<open>WS_FT_EAPOL\<close> is 6.
\<close>

definition eapol_frame :: "codec \<Rightarrow> llc_ie_params_t \<Rightarrow> hopping_wire \<Rightarrow> bool \<Rightarrow> bytes option \<Rightarrow> llc_frame option" where
  "eapol_frame c params hs relay auth =
     (let wh = no_wh\<lparr>utt_ie := True, bt_ie := relay, ea_ie := auth \<noteq> None\<rparr>;
          wp = no_wp\<lparr>bs_ie := auth \<noteq> None, us_ie := True\<rparr>;
          ie_header_length = ws_wh_headers_length wh params;
          nested_ie_length = ws_wp_nested_message_length wp params hs;
          headers = ws_wh_utt_write c 6
                    @ (if bt_ie wh then ws_wh_bt_write c else [])
                    @ (case auth of None \<Rightarrow> [] | Some eui64 \<Rightarrow> ws_wh_ea_write c eui64)
      in map_option (\<lambda>payload.
           \<lparr>frame_header = headers, frame_payload = payload,
             frame_buffer_size = overhead ie_header_length nested_ie_length + 5\<rparr>)
         (schedule_payload c hs nested_ie_length (bs_ie wp)))"

section \<open>Enhanced acknowledgements and extended frame exchange\<close>

text \<open>\<open>ws_llc_ack_data_req_ext\<close> and the two builders of \<open>ws_llc_mcps_edfe_handler\<close>; the elements go
  into a buffer of 24 bytes of the data base, or over the first bytes of the message.\<close>

definition ack_elements :: "codec \<Rightarrow> u8 \<Rightarrow> bytes" where
  "ack_elements c rsl = ws_wh_utt_write c 5 @ ws_wh_rsl_write c rsl"

definition ws_llc_build_edfe_response :: "codec \<Rightarrow> ws_fc_ie_t \<Rightarrow> u8 \<Rightarrow> bytes" where
  "ws_llc_build_edfe_response c fc rsl =
     ws_wh_fc_write c fc @ ws_wh_utt_write c 4 @ ws_wh_bt_write c @ ws_wh_rsl_write c rsl"

definition ws_llc_build_edfe_frame :: "codec \<Rightarrow> bytes \<Rightarrow> bytes" where
  "ws_llc_build_edfe_frame c header =
     (let fc = ws_wh_fc_write c \<lparr>tx_flow_ctrl = 0, rx_flow_ctrl = 255\<rparr> in fc @ drop (length fc) header)"

section \<open>The buffers are filled exactly\<close>

lemma header_base_length:
  assumes "codec_ok c"
  shows "length (ws_wh_header_base_write c len ty) = 3"
  using assms by (simp add: ws_wh_header_base_write_def mac_ie_header_base_write_def)

lemma header_element_lengths:
  assumes "codec_ok c"
  shows "length (ws_wh_utt_write c t) = 7" "length (ws_wh_bt_write c) = 8" "length (ws_wh_fc_write c fc) = 5"
    "length (ws_wh_rsl_write c r) = 4"
    "length eui64 = 8 \<Longrightarrow> length (ws_wh_ea_write c eui64) = 11"
    "length vh = unat n \<Longrightarrow> length (ws_wh_vh_write c vh n) = 3 + unat n"
  using assms
  by (simp_all add: ws_wh_utt_write_def ws_wh_bt_write_def ws_wh_fc_write_def ws_wh_rsl_write_def
      ws_wh_ea_write_def ws_wh_vh_write_def header_base_length)

lemma nested_element_lengths:
  assumes "codec_ok c"
  shows "length (ws_wp_nested_pan_info_write c pan) = 2 + (if pan \<noteq> None then 5 else 0)"
    "pan \<noteq> None \<Longrightarrow> length (ws_wp_nested_pan_ver_write c pan) = 4"
    "length name = unat n \<Longrightarrow> length (ws_wp_nested_netname_write c name n) = 2 + unat n"
    "length h = 32 \<Longrightarrow> (g = 0 \<or> g = 32) \<Longrightarrow> length (ws_wp_nested_gtkhash_write c h g) = 2 + unat g"
    "length vp = unat k \<Longrightarrow> k \<noteq> 0 \<Longrightarrow> length (ws_wp_nested_vp_write c vp k) = 2 + unat k"
    "length (ws_wp_base_write c len) = 2"
  using assms
  by (auto simp: ws_wp_nested_pan_info_write_def ws_wp_nested_pan_ver_write_def ws_wp_nested_netname_write_def
      ws_wp_nested_gtkhash_write_def ws_wp_nested_vp_write_def ws_wp_base_write_def
      mac_ie_nested_ie_short_base_write_def mac_ie_nested_ie_long_base_write_def mac_ie_payload_base_write_def
      codec_write_length split: option.split)

text \<open>
  What the configuration functions keep: lengths that are those of the arrays, a network name of at most
  32 bytes, a vendor payload of at most 255, and the 32 bytes of the key hashes or none.
\<close>

definition params_wf :: "llc_ie_params_t \<Rightarrow> bool" where
  "params_wf params \<longleftrightarrow>
     length (network_name params) = unat (network_name_length params) \<and> unat (network_name_length params) \<le> 32 \<and>
     length (vendor_payload params) = unat (vendor_payload_length params) \<and> unat (vendor_payload_length params) \<le> 255 \<and>
     length (vendor_header_data params) = unat (vendor_header_length params) \<and> vendor_header_length params \<noteq> 255 \<and>
     (case gtkhash params of None \<Rightarrow> gtkhash_length params = 0
      | Some h \<Rightarrow> gtkhash_length params = 32 \<and> length h = 32)"

lemma word_of_length:
  assumes "length xs = n + unat (k :: u16)"
  shows "(word_of_nat (length xs) :: u16) = word_of_nat n + k"
  using assms by simp

lemma schedule_written:
  assumes "codec_ok c" and wf: "excluded_wf (hw_excluded_channels hs)"
  obtains w where "ws_wp_nested_hopping_schedule_write c hs uni = Some w"
    "(word_of_nat (length w) :: u16) = 2 + ws_wp_nested_hopping_schedule_length hs uni" "length w < 258"
    "length w = 2 + unat (ws_wp_nested_hopping_schedule_length hs uni)"
proof -
  obtain xs where xs: "excluded_write c (hw_excluded_channels hs) = Some xs"
    and l: "length xs = excluded_length (hw_excluded_channels hs)"
    using excluded_write_length [OF assms] by auto
  obtain w where w: "ws_wp_nested_hopping_schedule_write c hs uni = Some w" "length w = 2 + schedule_length hs uni"
    by (cases uni) (simp_all add: hopping_schedule_us_element [OF assms xs] hopping_schedule_bs_element [OF assms]
        nested_encode_length [OF assms(1)] us_content_length [OF assms(1) l] bs_content_length [OF assms(1)])
  have e: "length w = 2 + unat (ws_wp_nested_hopping_schedule_length hs uni)"
    using w(2) by (simp only: hopping_schedule_length_value [OF wf])
  have "length w < 258" using w(2) schedule_length_small [OF wf, of uni] by simp
  moreover have "(word_of_nat (length w) :: u16) = 2 + ws_wp_nested_hopping_schedule_length hs uni"
    unfolding e by simp
  ultimately show ?thesis using that [OF w(1)] e by blast
qed

lemma schedule_when:
  assumes c: "codec_ok c" and wf: "excluded_wf (hw_excluded_channels hs)"
  obtains w where "opt_when b (ws_wp_nested_hopping_schedule_write c hs uni) = Some w"
    "(word_of_nat (length w) :: u16) = (if b then 2 + ws_wp_nested_hopping_schedule_length hs uni else 0)"
    "length w < 258"
proof (cases b)
  case True
  then show ?thesis using that by (rule_tac schedule_written [OF c wf, of uni]) (simp add: opt_when_def)
next
  case False
  then show ?thesis using that [of "[]"] by (simp add: opt_when_def)
qed

lemma word_length_bound:
  assumes "(word_of_nat (length xs) :: u16) = k" and "length xs < 65536"
  shows "unat k = length xs"
  using assms by (auto simp: unat_of_nat_u16)

text \<open>
  The buffer of an asynchronous message has exactly the size of its elements, the length announced in
  the payload element is the number of nested bytes behind it.
\<close>

lemma asynch_frame_exact:
  assumes c: "codec_ok c" and wf: "excluded_wf (hw_excluded_channels hs)" and p: "params_wf params"
    and pan: "pan_version_ie wp \<longrightarrow> pan_congiguration params \<noteq> None" and no_ea: "\<not> ea_ie wh"
  shows "\<exists>f nested. asynch_frame c params hs ty wh wp = Some f
    \<and> unat (frame_buffer_size f) = length (frame_header f) + length (frame_payload f)
    \<and> frame_payload f = (if nested = [] then [] else ws_wp_base_write c (word_of_nat (length nested)) @ nested)
    \<and> length nested < 1000"
proof -
  obtain us where us: "opt_when (us_ie wp) (ws_wp_nested_hopping_schedule_write c hs True) = Some us"
    "(word_of_nat (length us) :: u16) = (if us_ie wp then 2 + ws_wp_nested_hopping_schedule_length hs True else 0)"
    "length us < 258"
    by (rule schedule_when [OF c wf])
  obtain bs where bs: "opt_when (bs_ie wp) (ws_wp_nested_hopping_schedule_write c hs False) = Some bs"
    "(word_of_nat (length bs) :: u16) = (if bs_ie wp then 2 + ws_wp_nested_hopping_schedule_length hs False else 0)"
    "length bs < 258"
    by (rule schedule_when [OF c wf])
  let ?pan = "if pan_ie wp then ws_wp_nested_pan_info_write c (pan_congiguration params) else []"
  let ?name = "if net_name_ie wp then ws_wp_nested_netname_write c (network_name params)
      (ucast (network_name_length params)) else []"
  let ?ver = "if pan_version_ie wp then ws_wp_nested_pan_ver_write c (pan_congiguration params) else []"
  let ?hash = "if gtkhash_ie wp then ws_wp_nested_gtkhash_write c
      (case gtkhash params of None \<Rightarrow> [] | Some h \<Rightarrow> h) (gtkhash_length params) else []"
  let ?vp = "if vp_ie wp then ws_wp_nested_vp_write c (vendor_payload params) (vendor_payload_length params) else []"
  have name8: "unat (ucast (network_name_length params) :: u8) = unat (network_name_length params)"
    using p by (simp add: params_wf_def unsigned_ucast_eq take_bit_nat_eq_self)
  have "length ?pan = (if pan_ie wp then 2 + (if pan_congiguration params \<noteq> None then 5 else 0) else 0)"
    by (simp add: nested_element_lengths(1) [OF c])
  note l1 = this
  have "length ?ver = (if pan_version_ie wp then 2 + (if pan_congiguration params \<noteq> None then 2 else 0) else 0)"
    using pan by (simp add: nested_element_lengths(2) [OF c])
  note l2 = this
  have "length ?name = (if net_name_ie wp then 2 + unat (network_name_length params) else 0)"
    using p name8 by (simp add: nested_element_lengths(3) [OF c] params_wf_def)
  note l3 = this
  have "length ?hash = (if gtkhash_ie wp then 2 + unat (gtkhash_length params) else 0)"
    using p nested_element_lengths(4) [OF c]
    by (auto simp: params_wf_def ws_wp_nested_gtkhash_write_def mac_ie_nested_ie_short_base_write_def
        codec_write_length [OF c] split: option.splits)
  note l4 = this
  have "length ?vp = (if vp_ie wp \<and> vendor_payload_length params \<noteq> 0 then 2 + unat (vendor_payload_length params) else 0)"
    using p by (simp add: nested_element_lengths(5) [OF c] params_wf_def ws_wp_nested_vp_write_def
        mac_ie_nested_ie_long_base_write_def codec_write_length [OF c])
  note l5 = this
  let ?rest = "?pan @ ?name @ ?ver @ ?hash @ ?vp"
  obtain nested where nested: "nested = us @ bs @ ?rest" by blast
  let ?n = "ws_wp_nested_message_length wp params hs"
  have total: "word_of_nat (length nested) = ?n"
    unfolding nested length_append of_nat_add us(2) bs(2) l1 l2 l3 l4 l5
    by (simp add: ws_wp_nested_message_length_def)
  have small: "length nested < 1000"
    using us(3) bs(3) p l1 l2 l3 l4 l5 unfolding nested length_append
    by (auto simp: params_wf_def split: option.splits if_splits)
  define wh' where "wh' = wh\<lparr>fc_ie := False, rsl_ie := False, vh_ie := False\<rparr>"
  let ?h = "(if utt_ie wh' then ws_wh_utt_write c ty else []) @ (if bt_ie wh' then ws_wh_bt_write c else [])"
  have h: "(word_of_nat (length ?h) :: u16) = ws_wh_headers_length wh' params" "length ?h \<le> 15"
    using no_ea by (auto simp: wh'_def ws_wh_headers_length_def header_element_lengths(1,2) [OF c])
  have u: "unat ?n = length nested"
    by (rule word_length_bound [OF total]) (use small in simp)
  have n: "?n \<noteq> 0 \<longleftrightarrow> nested \<noteq> []"
    using u unat_eq_0 [of ?n] length_0_conv [of nested] by (simp only:)
  let ?payload = "if nested = [] then [] else ws_wp_base_write c (word_of_nat (length nested)) @ nested"
  let ?size = "overhead (ws_wh_headers_length wh' params) ?n"
  have frame: "asynch_frame c params hs ty wh wp
      = Some \<lparr>frame_header = ?h, frame_payload = ?payload, frame_buffer_size = ?size\<rparr>"
    unfolding asynch_frame_def Let_def wh'_def [symmetric] n us(1) bs(1) opt_append_def option.case option.map
      nested [symmetric] total
    by simp
  have pl: "length ?payload = (if nested = [] then 0 else 2 + length nested)"
    by (simp add: nested_element_lengths(6) [OF c])
  have "(word_of_nat (length ?h + length ?payload) :: u16) = ?size"
    unfolding of_nat_add h(1) pl overhead_def n using total by simp
  moreover have "length ?h + length ?payload < 65536" unfolding pl using h(2) small by simp
  ultimately have size: "unat ?size = length ?h + length ?payload"
    by (metis unat_of_nat_u16)
  show ?thesis
    by (rule exI [of _ "\<lparr>frame_header = ?h, frame_payload = ?payload, frame_buffer_size = ?size\<rparr>"],
        rule exI [of _ nested])
       (intro conjI frame small, simp_all only: llc_frame.simps size)
qed

lemma schedule_payload_value:
  assumes c: "codec_ok c" and wf: "excluded_wf (hw_excluded_channels hs)" and n: "n \<noteq> 0"
  obtains nested where
    "schedule_payload c hs n with_bs = Some (ws_wp_base_write c n @ nested)"
    "(word_of_nat (length nested) :: u16) = 2 + ws_wp_nested_hopping_schedule_length hs True
       + (if with_bs then 2 + ws_wp_nested_hopping_schedule_length hs False else 0)"
    "2 \<le> length nested" "length nested < 516"
proof -
  obtain us where us: "ws_wp_nested_hopping_schedule_write c hs True = Some us"
    "(word_of_nat (length us) :: u16) = 2 + ws_wp_nested_hopping_schedule_length hs True" "length us < 258"
    "length us = 2 + unat (ws_wp_nested_hopping_schedule_length hs True)"
    by (rule schedule_written [OF c wf])
  obtain bs where bs: "opt_when with_bs (ws_wp_nested_hopping_schedule_write c hs False) = Some bs"
    "(word_of_nat (length bs) :: u16) = (if with_bs then 2 + ws_wp_nested_hopping_schedule_length hs False else 0)"
    "length bs < 258"
    by (rule schedule_when [OF c wf])
  show ?thesis
  proof (rule that [of "us @ bs"])
    show "schedule_payload c hs n with_bs = Some (ws_wp_base_write c n @ us @ bs)"
      by (simp add: schedule_payload_def n us(1) bs(1) opt_append_def)
    show "(word_of_nat (length (us @ bs)) :: u16) = 2 + ws_wp_nested_hopping_schedule_length hs True
       + (if with_bs then 2 + ws_wp_nested_hopping_schedule_length hs False else 0)"
      unfolding length_append of_nat_add us(2) bs(2) by simp
  qed (use us(3,4) bs(3) in simp_all)
qed

definition vendor_bytes :: "llc_ie_params_t \<Rightarrow> nat" where
  "vendor_bytes params = (if vendor_payload_length params = 0 then 0 else 2 + unat (vendor_payload_length params))"

lemma word_nonzero_if_length:
  assumes "(word_of_nat k :: u16) = n" and "0 < k" and "k < 65536"
  shows "n \<noteq> 0" and "unat n = k"
  using assms by (auto simp: unat_of_nat_u16 word_unat_eq_iff)

lemma lowpan_frame_value:
  assumes c: "codec_ok c" and wf: "excluded_wf (hw_excluded_channels hs)" and p: "params_wf params"
  shows "\<exists>f nested. lowpan_frame c params hs edfe ack = Some f
    \<and> frame_payload f = ws_wp_base_write c (word_of_nat (length nested + vendor_bytes params)) @ nested
    \<and> unat (frame_buffer_size f)
        = length (frame_header f) + length (frame_payload f) + vendor_bytes params + 5
    \<and> length nested + vendor_bytes params < 1000"
proof -
  let ?wp = "lowpan_wp params ack"
  let ?wh = "lowpan_wh params edfe ack"
  let ?n = "ws_wp_nested_message_length ?wp params hs"
  let ?sum = "2 + ws_wp_nested_hopping_schedule_length hs True
      + (if \<not> ack then 2 + ws_wp_nested_hopping_schedule_length hs False else 0)"
  have vb: "(word_of_nat (vendor_bytes params) :: u16)
      = (if vendor_payload_length params = 0 then 0 else 2 + vendor_payload_length params)"
    by (simp add: vendor_bytes_def)
  have n_sum: "?n = ?sum + word_of_nat (vendor_bytes params)"
    unfolding vb by (simp add: ws_wp_nested_message_length_def lowpan_wp_def no_wp_def)
  have vb_small: "vendor_bytes params \<le> 257" using p by (simp add: vendor_bytes_def params_wf_def)
  obtain us where "ws_wp_nested_hopping_schedule_write c hs True = Some us"
    and us: "(word_of_nat (length us) :: u16) = 2 + ws_wp_nested_hopping_schedule_length hs True"
    "length us < 258" "length us = 2 + unat (ws_wp_nested_hopping_schedule_length hs True)"
    by (rule schedule_written [OF c wf])
  obtain bs where "opt_when (\<not> ack) (ws_wp_nested_hopping_schedule_write c hs False) = Some bs"
    and bs: "(word_of_nat (length bs) :: u16)
      = (if \<not> ack then 2 + ws_wp_nested_hopping_schedule_length hs False else 0)" "length bs < 258"
    by (rule schedule_when [OF c wf])
  have k: "(word_of_nat (length us + length bs + vendor_bytes params) :: u16) = ?n"
    unfolding n_sum of_nat_add us(1) bs(1) by simp
  have n: "?n \<noteq> 0" by (rule word_nonzero_if_length(1) [OF k]) (use us bs vb_small in simp_all)
  obtain nested where nested: "schedule_payload c hs ?n (\<not> ack) = Some (ws_wp_base_write c ?n @ nested)"
    "(word_of_nat (length nested) :: u16) = ?sum" "length nested < 516"
    by (rule schedule_payload_value [OF c wf n, of "\<not> ack"]) blast
  have n': "?n = word_of_nat (length nested + vendor_bytes params)"
    unfolding n_sum of_nat_add nested(2) by simp
  let ?h = "(if fc_ie ?wh then ws_wh_fc_write c \<lparr>tx_flow_ctrl = 50, rx_flow_ctrl = 255\<rparr> else [])
      @ ws_wh_utt_write c 4 @ (if bt_ie ?wh then ws_wh_bt_write c else [])
      @ (if vh_ie ?wh then ws_wh_vh_write c (vendor_header_data params) (vendor_header_length params) else [])"
  have vh: "length (ws_wh_vh_write c (vendor_header_data params) (vendor_header_length params))
      = 3 + unat (vendor_header_length params)"
    using p by (intro header_element_lengths(6) [OF c]) (simp add: params_wf_def)
  have h: "(word_of_nat (length ?h) :: u16) = ws_wh_headers_length ?wh params"
    by (simp add: ws_wh_headers_length_def lowpan_wh_def no_wh_def header_element_lengths(1-3) [OF c] vh
        of_nat_unat)
  have h_small: "length ?h \<le> 300"
    using unat_u8_lt [of "vendor_header_length params"]
    by (simp add: header_element_lengths(1-3) [OF c] vh)
  let ?f = "\<lparr>frame_header = ?h, frame_payload = ws_wp_base_write c ?n @ nested,
      frame_buffer_size = overhead (ws_wh_headers_length ?wh params) ?n + 5\<rparr>"
  have f: "lowpan_frame c params hs edfe ack = Some ?f"
    using nested(1) by (simp add: lowpan_frame_def Let_def lowpan_wp_def no_wp_def)
  have over: "overhead (ws_wh_headers_length ?wh params) ?n = ws_wh_headers_length ?wh params + (?n + 2)"
    using n by (simp add: overhead_def)
  have "(word_of_nat (length ?h + (2 + length nested) + vendor_bytes params + 5) :: u16)
      = overhead (ws_wh_headers_length ?wh params) ?n + 5"
    unfolding over unfolding of_nat_add h n_sum nested(2) by simp
  then have size: "unat (overhead (ws_wh_headers_length ?wh params) ?n + 5)
      = length ?h + (2 + length nested) + vendor_bytes params + 5"
    by (rule word_nonzero_if_length(2)) (use h_small nested(3) vb_small in simp_all)
  show ?thesis
    by (rule exI [of _ ?f], rule exI [of _ nested])
       (use f n' size nested(3) vb_small in \<open>simp add: nested_element_lengths(6) [OF c]\<close>)
qed

lemma eapol_frame_exact:
  assumes c: "codec_ok c" and wf: "excluded_wf (hw_excluded_channels hs)"
    and auth: "\<forall>a. auth = Some a \<longrightarrow> length a = 8"
  shows "\<exists>f nested. eapol_frame c params hs relay auth = Some f
    \<and> frame_payload f = ws_wp_base_write c (word_of_nat (length nested)) @ nested
    \<and> unat (frame_buffer_size f) = length (frame_header f) + length (frame_payload f) + 5"
proof -
  let ?wp = "no_wp\<lparr>bs_ie := auth \<noteq> None, us_ie := True\<rparr>"
  let ?wh = "no_wh\<lparr>utt_ie := True, bt_ie := relay, ea_ie := auth \<noteq> None\<rparr>"
  let ?n = "ws_wp_nested_message_length ?wp params hs"
  have n_sum: "?n = 2 + ws_wp_nested_hopping_schedule_length hs True
      + (if auth \<noteq> None then 2 + ws_wp_nested_hopping_schedule_length hs False else 0)"
    by (simp add: ws_wp_nested_message_length_def no_wp_def)
  obtain us where "ws_wp_nested_hopping_schedule_write c hs True = Some us"
    and us: "(word_of_nat (length us) :: u16) = 2 + ws_wp_nested_hopping_schedule_length hs True"
    "length us < 258" "length us = 2 + unat (ws_wp_nested_hopping_schedule_length hs True)"
    by (rule schedule_written [OF c wf])
  obtain bs where "opt_when (auth \<noteq> None) (ws_wp_nested_hopping_schedule_write c hs False) = Some bs"
    and bs: "(word_of_nat (length bs) :: u16)
      = (if auth \<noteq> None then 2 + ws_wp_nested_hopping_schedule_length hs False else 0)" "length bs < 258"
    by (rule schedule_when [OF c wf])
  have k: "(word_of_nat (length us + length bs) :: u16) = ?n"
    unfolding n_sum of_nat_add us(1) bs(1) by simp
  have n: "?n \<noteq> 0" by (rule word_nonzero_if_length(1) [OF k]) (use us bs in simp_all)
  obtain nested where nested: "schedule_payload c hs ?n (auth \<noteq> None) = Some (ws_wp_base_write c ?n @ nested)"
    "(word_of_nat (length nested) :: u16) = ?n" "length nested < 516"
    by (rule schedule_payload_value [OF c wf n, of "auth \<noteq> None"]) (simp only: n_sum)
  let ?h = "ws_wh_utt_write c 6 @ (if bt_ie ?wh then ws_wh_bt_write c else [])
      @ (case auth of None \<Rightarrow> [] | Some eui64 \<Rightarrow> ws_wh_ea_write c eui64)"
  have h: "(word_of_nat (length ?h) :: u16) = ws_wh_headers_length ?wh params" "length ?h \<le> 26"
    using auth by (auto simp add: ws_wh_headers_length_def no_wh_def header_element_lengths(1,2,5) [OF c]
        split: option.split)
  let ?f = "\<lparr>frame_header = ?h, frame_payload = ws_wp_base_write c ?n @ nested,
      frame_buffer_size = overhead (ws_wh_headers_length ?wh params) ?n + 5\<rparr>"
  have f: "eapol_frame c params hs relay auth = Some ?f"
    using nested(1) by (simp add: eapol_frame_def Let_def)
  have over: "overhead (ws_wh_headers_length ?wh params) ?n = ws_wh_headers_length ?wh params + (?n + 2)"
    using n by (simp add: overhead_def)
  have "(word_of_nat (length ?h + (2 + length nested) + 5) :: u16)
      = overhead (ws_wh_headers_length ?wh params) ?n + 5"
    unfolding over of_nat_add h(1) nested(2) by simp
  then have size: "unat (overhead (ws_wh_headers_length ?wh params) ?n + 5)
      = length ?h + (2 + length nested) + 5"
    by (rule word_nonzero_if_length(2)) (use h(2) nested(3) in simp_all)
  show ?thesis
    by (rule exI [of _ ?f], rule exI [of _ nested])
       (use f size nested(2) in \<open>simp add: nested_element_lengths(6) [OF c]\<close>)
qed

text \<open>The elements of acknowledgements and EDFE responses fit the buffer of 24 bytes.\<close>

lemma response_elements_fit:
  assumes "codec_ok c"
  shows "length (ack_elements c rsl) \<le> 24" "length (ws_llc_build_edfe_response c fc rsl) = 24"
  using assms by (simp_all add: ack_elements_def ws_llc_build_edfe_response_def header_element_lengths)


definition params_example :: llc_ie_params_t where
  "params_example = \<lparr>network_name_length = 2, vendor_payload_length = 3, vendor_header_length = 0,
     gtkhash_length = 32,
     pan_congiguration = Some \<lparr>pan_size = 1, pan_routing_cost = 256, pan_version = 7, use_parent_bs = True,
       rpl_routing_method = True, pan_version_set = True, version = 1\<rparr>,
     hopping_schedule = Some us_example, gtkhash = Some (replicate 32 9), network_name = [65, 66],
     vendor_header_data = [], vendor_payload = [1, 2, 3]\<rparr>"

lemma params_example_wf: "params_wf params_example"
  by (simp add: params_wf_def params_example_def)


text \<open>
  A data message announces in its payload element the vendor payload that is configured, and
  reserves the room for it, but does not write it: the announced length exceeds the nested bytes by the
  vendor payload and its descriptor.
\<close>

lemma lowpan_vendor_payload_missing:
  assumes "codec_ok c" and "excluded_wf (hw_excluded_channels hs)" and "params_wf params"
  shows "\<exists>f nested. lowpan_frame c params hs edfe ack = Some f
    \<and> frame_payload f = ws_wp_base_write c (word_of_nat (length nested + vendor_bytes params)) @ nested
    \<and> unat (frame_buffer_size f)
        = length (frame_header f) + length (frame_payload f) + vendor_bytes params + 5"
  using lowpan_frame_value [OF assms, of edfe ack] by blast

end
