(* ===== verification/LlcTemp.thy ===== *)
theory LlcTemp
  imports WsNeighbor AddressTable
begin

text \<open>
  The temporary neighbours of the Wi-SUN data service (\<open>6LoWPAN/ws/ws_llc_data_service.c\<close>): a table of
  25 entries for nodes that are heard in multicast frames or in the EAPOL handshake before they are
  neighbours. Every entry is in one of three lists; a pointer to an entry is its position in the table
  and a list is the sequence of the positions. The table is an address table: an EAPOL entry is handed
  out once per address and stays with it until it is released or times out.
\<close>

section \<open>Data\<close>

record ws_neighbor_temp_class_t =
  neigh_info :: ws_neighbor_class_entry_t
  eapol_rx_relay_filter :: u8
  last_rx_mac_sequency :: u8
  eapol_timeout :: u16
  temp_mac64 :: bytes
  temp_mpduLinkQuality :: u8
  temp_signal_dbm :: "8 word"

record temp_entriest_t =
  neighbour_temporary_table :: "ws_neighbor_temp_class_t list"
  active_multicast_temp_neigh :: "nat list"
  active_eapol_temp_neigh :: "nat list"
  free_temp_neigh :: "nat list"

text \<open>\<open>MAX_NEIGH_TEMPORARY_MULTICAST_SIZE\<close>, \<open>MAX_NEIGH_TEMPORRY_EAPOL_SIZE\<close> and their sum.\<close>

abbreviation (input) multicast_size :: nat where "multicast_size \<equiv> 5"
abbreviation (input) eapol_size :: nat where "eapol_size \<equiv> 20"
abbreviation (input) temp_size :: nat where "temp_size \<equiv> 25"

definition temp_neighbor_zero :: ws_neighbor_temp_class_t where
  "temp_neighbor_zero = \<lparr>neigh_info = ws_neighbor_zero, eapol_rx_relay_filter = 0,
     last_rx_mac_sequency = 0, eapol_timeout = 0, temp_mac64 = replicate 8 0,
     temp_mpduLinkQuality = 0, temp_signal_dbm = 0\<rparr>"

section \<open>Operations\<close>

definition ws_llc_temp_neigh_info_table_reset :: "temp_entriest_t \<Rightarrow> temp_entriest_t" where
  "ws_llc_temp_neigh_info_table_reset base =
     base\<lparr>active_multicast_temp_neigh := [], active_eapol_temp_neigh := [], free_temp_neigh := [0..<temp_size]\<rparr>"

definition temp_discover :: "temp_entriest_t \<Rightarrow> bytes \<Rightarrow> nat list \<Rightarrow> nat option" where
  "temp_discover base mac64 xs = find (\<lambda>i. temp_mac64 (neighbour_temporary_table base ! i) = mac64) xs"

definition ws_llc_discover_mc_temp_entry :: "temp_entriest_t \<Rightarrow> bytes \<Rightarrow> nat option" where
  "ws_llc_discover_mc_temp_entry base mac64 = temp_discover base mac64 (active_multicast_temp_neigh base)"

definition ws_llc_discover_eapol_temp_entry :: "temp_entriest_t \<Rightarrow> bytes \<Rightarrow> nat option" where
  "ws_llc_discover_eapol_temp_entry base mac64 = temp_discover base mac64 (active_eapol_temp_neigh base)"

definition eapol_temp_free :: "nat \<Rightarrow> temp_entriest_t \<Rightarrow> temp_entriest_t" where
  "eapol_temp_free i base =
     base\<lparr>active_eapol_temp_neigh := remove1 i (active_eapol_temp_neigh base),
          free_temp_neigh := free_temp_neigh base @ [i]\<rparr>"

definition ws_llc_release_eapol_temp_entry :: "temp_entriest_t \<Rightarrow> bytes \<Rightarrow> temp_entriest_t" where
  "ws_llc_release_eapol_temp_entry base mac64 =
     (case ws_llc_discover_eapol_temp_entry base mac64 of
        None \<Rightarrow> base
      | Some i \<Rightarrow> eapol_temp_free i base)"

text \<open>\<open>RSL_UNITITIALIZED\<close> is \<open>0x7fff\<close>.\<close>

definition ws_init_temporary_neigh_data :: "nat \<Rightarrow> bytes \<Rightarrow> temp_entriest_t \<Rightarrow> temp_entriest_t" where
  "ws_init_temporary_neigh_data i mac64 base =
     base\<lparr>neighbour_temporary_table := (neighbour_temporary_table base)[i :=
       (neighbour_temporary_table base ! i)\<lparr>
          neigh_info := ws_neighbor_zero\<lparr>rsl_in := 0x7fff, rsl_out := 0x7fff\<rparr>,
          temp_mac64 := mac64, eapol_rx_relay_filter := 0\<rparr>]\<rparr>"

text \<open>\<open>None\<close> is the dereference of a null pointer: no free entry and no multicast entry to replace.\<close>

definition ws_allocate_multicast_temp_entry :: "temp_entriest_t \<Rightarrow> bytes \<Rightarrow> (nat \<times> temp_entriest_t) option" where
  "ws_allocate_multicast_temp_entry base mac64 =
     (case ws_llc_discover_mc_temp_entry base mac64 of
        Some i \<Rightarrow>
          Some (i, base\<lparr>active_multicast_temp_neigh := i # remove1 i (active_multicast_temp_neigh base)\<rparr>)
      | None \<Rightarrow>
          let mc = active_multicast_temp_neigh base in
          (case (if length mc < multicast_size then free_temp_neigh base else []) of
             i # _ \<Rightarrow>
               Some (i, ws_init_temporary_neigh_data i mac64
                 (base\<lparr>free_temp_neigh := remove1 i (free_temp_neigh base),
                       active_multicast_temp_neigh := i # mc\<rparr>))
           | [] \<Rightarrow>
               if mc = [] then None
               else let i = last mc in
                 Some (i, ws_init_temporary_neigh_data i mac64
                   (base\<lparr>active_multicast_temp_neigh := i # remove1 i mc\<rparr>))))"

definition ws_allocate_eapol_temp_entry :: "temp_entriest_t \<Rightarrow> bytes \<Rightarrow> nat option \<times> temp_entriest_t" where
  "ws_allocate_eapol_temp_entry base mac64 =
     (case ws_llc_discover_eapol_temp_entry base mac64 of
        Some i \<Rightarrow> (Some i, base)
      | None \<Rightarrow>
          (case (if length (active_eapol_temp_neigh base) < eapol_size then free_temp_neigh base else []) of
             [] \<Rightarrow> (None, base)
           | i # _ \<Rightarrow>
               (Some i, ws_init_temporary_neigh_data i mac64
                 (base\<lparr>free_temp_neigh := remove1 i (free_temp_neigh base),
                       active_eapol_temp_neigh := i # active_eapol_temp_neigh base\<rparr>))))"

definition ws_llc_free_multicast_temp_entry :: "nat \<Rightarrow> temp_entriest_t \<Rightarrow> temp_entriest_t" where
  "ws_llc_free_multicast_temp_entry i base =
     base\<lparr>active_multicast_temp_neigh := remove1 i (active_multicast_temp_neigh base),
          free_temp_neigh := free_temp_neigh base @ [i]\<rparr>"

text \<open>The fields of one entry, by position.\<close>

definition temp_update :: "nat \<Rightarrow> (ws_neighbor_temp_class_t \<Rightarrow> ws_neighbor_temp_class_t)
    \<Rightarrow> temp_entriest_t \<Rightarrow> temp_entriest_t" where
  "temp_update i f base =
     base\<lparr>neighbour_temporary_table :=
       (neighbour_temporary_table base)[i := f (neighbour_temporary_table base ! i)]\<rparr>"

definition temp_age :: "u16 \<Rightarrow> ws_neighbor_temp_class_t \<Rightarrow> ws_neighbor_temp_class_t" where
  "temp_age s e =
     (let e = e\<lparr>eapol_timeout := eapol_timeout e - s\<rparr> in
      if eapol_rx_relay_filter e = 0 then e
      else if unat (eapol_rx_relay_filter e) \<le> unat s then e\<lparr>eapol_rx_relay_filter := 0\<rparr>
      else e\<lparr>eapol_rx_relay_filter := eapol_rx_relay_filter e - ucast s\<rparr>)"

definition temp_timer_step :: "u16 \<Rightarrow> nat \<Rightarrow> temp_entriest_t \<Rightarrow> temp_entriest_t" where
  "temp_timer_step s i base =
     (if eapol_timeout (neighbour_temporary_table base ! i) \<le> s then eapol_temp_free i base
      else temp_update i (temp_age s) base)"

definition ws_llc_timer_seconds :: "u16 \<Rightarrow> temp_entriest_t \<Rightarrow> temp_entriest_t" where
  "ws_llc_timer_seconds s base = fold (temp_timer_step s) (active_eapol_temp_neigh base) base"

text \<open>
  The filter of relayed EAPOL frames. \<open>normal\<close> is the neighbour that the callback
  \<open>ws_neighbor_info_request_cb\<close> returns, if any; its duplicate check may change it.
\<close>

definition ws_llc_eapol_relay_forward_filter ::
    "bytes \<Rightarrow> u8 \<Rightarrow> u32 \<Rightarrow> ws_neighbor_class_entry_t option \<Rightarrow> temp_entriest_t
     \<Rightarrow> bool \<times> ws_neighbor_class_entry_t option \<times> temp_entriest_t" where
  "ws_llc_eapol_relay_forward_filter joiner_eui64 mac_sequency rx_timestamp normal base =
     (case ws_llc_discover_eapol_temp_entry base joiner_eui64 of
        None \<Rightarrow>
          (case normal of
             None \<Rightarrow> (False, None, base)
           | Some e \<Rightarrow>
               let (ok, e') = ws_neighbor_class_neighbor_duplicate_packet_check mac_sequency rx_timestamp e
               in (ok, Some e', base))
      | Some i \<Rightarrow>
          let t = neighbour_temporary_table base ! i in
          if eapol_rx_relay_filter t \<noteq> 0 \<and> last_rx_mac_sequency t = mac_sequency then (False, normal, base)
          else (True, normal,
                temp_update i (\<lambda>t. t\<lparr>last_rx_mac_sequency := mac_sequency, eapol_rx_relay_filter := 6\<rparr>) base))"

section \<open>The three lists partition the table\<close>

definition mac_at :: "temp_entriest_t \<Rightarrow> nat \<Rightarrow> bytes" where
  "mac_at base i = temp_mac64 (neighbour_temporary_table base ! i)"

definition temp_inv :: "temp_entriest_t \<Rightarrow> bool" where
  "temp_inv base \<longleftrightarrow>
     length (neighbour_temporary_table base) = temp_size \<and>
     distinct (active_multicast_temp_neigh base @ active_eapol_temp_neigh base @ free_temp_neigh base) \<and>
     set (active_multicast_temp_neigh base) \<union> set (active_eapol_temp_neigh base) \<union> set (free_temp_neigh base)
       = {..<temp_size} \<and>
     length (active_multicast_temp_neigh base) \<le> multicast_size \<and>
     length (active_eapol_temp_neigh base) \<le> eapol_size \<and>
     inj_on (mac_at base) (set (active_multicast_temp_neigh base)) \<and>
     inj_on (mac_at base) (set (active_eapol_temp_neigh base))"

lemma temp_discover_Some:
  assumes "temp_discover base mac xs = Some i"
  shows "i \<in> set xs" and "mac_at base i = mac"
  using assms by (auto simp: temp_discover_def mac_at_def find_Some_iff)

lemma temp_discover_None: "temp_discover base mac xs = None \<longleftrightarrow> (\<forall>i\<in>set xs. mac_at base i \<noteq> mac)"
  by (auto simp: temp_discover_def mac_at_def find_None_iff)

lemma temp_discover_unique:
  assumes "inj_on (mac_at base) (set xs)"
  shows "temp_discover base mac xs = Some i \<longleftrightarrow> i \<in> set xs \<and> mac_at base i = mac"
proof
  assume "i \<in> set xs \<and> mac_at base i = mac"
  then show "temp_discover base mac xs = Some i"
    using assms temp_discover_None [of base mac xs] temp_discover_Some [of base mac xs]
    by (cases "temp_discover base mac xs") (auto dest: inj_onD)
qed (auto dest: temp_discover_Some)

lemma temp_reset_inv:
  "length (neighbour_temporary_table base) = temp_size \<Longrightarrow> temp_inv (ws_llc_temp_neigh_info_table_reset base)"
  by (auto simp: temp_inv_def ws_llc_temp_neigh_info_table_reset_def)

lemma temp_eapol_free_inv [inv_intros]:
  assumes "temp_inv base" and "i \<in> set (active_eapol_temp_neigh base)"
  shows "temp_inv (eapol_temp_free i base)"
proof -
  have "mac_at (eapol_temp_free i base) = mac_at base"
    by (simp add: fun_eq_iff mac_at_def eapol_temp_free_def)
  then show ?thesis
    using assms by (auto simp: temp_inv_def eapol_temp_free_def length_remove1 intro: inj_on_subset)
qed

lemma temp_multicast_free_inv [inv_intros]:
  assumes "temp_inv base" and "i \<in> set (active_multicast_temp_neigh base)"
  shows "temp_inv (ws_llc_free_multicast_temp_entry i base)"
proof -
  have "mac_at (ws_llc_free_multicast_temp_entry i base) = mac_at base"
    by (simp add: fun_eq_iff mac_at_def ws_llc_free_multicast_temp_entry_def)
  then show ?thesis
    using assms by (auto simp: temp_inv_def ws_llc_free_multicast_temp_entry_def length_remove1 intro: inj_on_subset)
qed

lemma temp_release_inv [inv_intros]:
  "temp_inv base \<Longrightarrow> temp_inv (ws_llc_release_eapol_temp_entry base mac)"
  by (auto simp: ws_llc_release_eapol_temp_entry_def ws_llc_discover_eapol_temp_entry_def
      intro: temp_eapol_free_inv dest: temp_discover_Some split: option.split)

lemma mac_at_init:
  assumes "i < length (neighbour_temporary_table base)"
  shows "mac_at (ws_init_temporary_neigh_data i mac base) = (mac_at base)(i := mac)"
  using assms by (auto simp: fun_eq_iff mac_at_def ws_init_temporary_neigh_data_def nth_list_update)

lemma mac_at_lists [simp]:
  "mac_at (base\<lparr>active_multicast_temp_neigh := xs\<rparr>) = mac_at base"
  "mac_at (base\<lparr>active_eapol_temp_neigh := xs\<rparr>) = mac_at base"
  "mac_at (base\<lparr>free_temp_neigh := xs\<rparr>) = mac_at base"
  by (simp_all add: fun_eq_iff mac_at_def)

lemma temp_init_fields [simp]:
  "active_multicast_temp_neigh (ws_init_temporary_neigh_data i mac base) = active_multicast_temp_neigh base"
  "active_eapol_temp_neigh (ws_init_temporary_neigh_data i mac base) = active_eapol_temp_neigh base"
  "free_temp_neigh (ws_init_temporary_neigh_data i mac base) = free_temp_neigh base"
  "length (neighbour_temporary_table (ws_init_temporary_neigh_data i mac base))
     = length (neighbour_temporary_table base)"
  by (simp_all add: ws_init_temporary_neigh_data_def)

lemma inj_on_fresh:
  assumes "inj_on f (A - {i})" and "\<forall>j\<in>A. f j \<noteq> v"
  shows "inj_on (f(i := v)) (insert i A)"
  using assms by (auto simp: inj_on_def)

lemma temp_counts:
  assumes "temp_inv base"
  shows "length (active_multicast_temp_neigh base) + length (active_eapol_temp_neigh base)
       + length (free_temp_neigh base) = temp_size"
proof -
  let ?xs = "active_multicast_temp_neigh base @ active_eapol_temp_neigh base @ free_temp_neigh base"
  have "set ?xs = {..<temp_size}" and "distinct ?xs"
    using assms unfolding temp_inv_def set_append by (simp_all add: Un_assoc)
  then have "card {..<temp_size} = length ?xs" using distinct_card [of ?xs] by simp
  then show ?thesis by simp
qed

lemma inj_on_fun_upd_off: "i \<notin> A \<Longrightarrow> inj_on (f(i := v)) A = inj_on f A"
  by (auto simp: inj_on_def)

lemma multicast_alloc_inv:
  assumes inv: "temp_inv base" and i: "i < temp_size"
    and new: "\<forall>j\<in>set mc. j \<noteq> i \<longrightarrow> mac_at base j \<noteq> mac"
    and mc: "distinct (i # remove1 i mc)" "length (i # remove1 i mc) \<le> multicast_size"
      "set mc \<subseteq> set (active_multicast_temp_neigh base)" "distinct mc"
    and off: "i \<notin> set (active_eapol_temp_neigh base)"
    and parts: "distinct (i # remove1 i mc @ active_eapol_temp_neigh base @ fr)"
      "set (i # remove1 i mc @ active_eapol_temp_neigh base @ fr) = {..<temp_size}"
  shows "temp_inv (ws_init_temporary_neigh_data i mac
    (base\<lparr>free_temp_neigh := fr, active_multicast_temp_neigh := i # remove1 i mc\<rparr>))"
proof -
  let ?b = "base\<lparr>free_temp_neigh := fr, active_multicast_temp_neigh := i # remove1 i mc\<rparr>"
  have len: "length (neighbour_temporary_table base) = temp_size" using inv by (simp add: temp_inv_def)
  then have m: "mac_at (ws_init_temporary_neigh_data i mac ?b) = (mac_at base)(i := mac)"
    using i by (subst mac_at_init) simp_all
  have "inj_on (mac_at base) (set (remove1 i mc) - {i})"
    using inv mc(3) set_remove1_subset [of i mc] by (auto simp: temp_inv_def intro: inj_on_subset)
  moreover have "\<forall>j\<in>set (remove1 i mc). mac_at base j \<noteq> mac"
    using new mc(4) by (auto simp: set_remove1_eq)
  ultimately have "inj_on ((mac_at base)(i := mac)) (set (i # remove1 i mc))"
    using inj_on_fresh [of "mac_at base" "set (remove1 i mc)" i mac] by simp
  moreover have "inj_on ((mac_at base)(i := mac)) (set (active_eapol_temp_neigh base))"
    using inv off by (simp add: temp_inv_def inj_on_fun_upd_off)
  ultimately show ?thesis
    unfolding temp_inv_def m using inv len mc(2) parts by (auto simp: temp_inv_def)
qed

text \<open>
  The multicast list always has room, or an entry that can be replaced: the null pointer is never
  reached.
\<close>

lemma multicast_allocate_total:
  assumes inv: "temp_inv base"
  shows "\<exists>i base'. ws_allocate_multicast_temp_entry base mac = Some (i, base') \<and> temp_inv base'
    \<and> ws_llc_discover_mc_temp_entry base' mac = Some i
    \<and> active_eapol_temp_neigh base' = active_eapol_temp_neigh base
    \<and> (\<forall>j\<in>set (active_eapol_temp_neigh base).
         neighbour_temporary_table base' ! j = neighbour_temporary_table base ! j)"
proof -
  let ?mc = "active_multicast_temp_neigh base" and ?fr = "free_temp_neigh base"
  have unique: "inj_on (mac_at base) (set ?mc)" and dist: "distinct (?mc @ active_eapol_temp_neigh base @ ?fr)"
    and all: "set ?mc \<union> set (active_eapol_temp_neigh base) \<union> set ?fr = {..<temp_size}"
    and len: "length ?mc \<le> 5" "length (neighbour_temporary_table base) = temp_size"
    using inv by (simp_all add: temp_inv_def)
  have found: "ws_llc_discover_mc_temp_entry base' mac = Some i"
    if "temp_inv base'" "i \<in> set (active_multicast_temp_neigh base')" "mac_at base' i = mac" for base' i
    using that temp_discover_unique [of base' "active_multicast_temp_neigh base'" mac i]
    by (simp add: ws_llc_discover_mc_temp_entry_def temp_inv_def)
  show ?thesis
  proof (cases "ws_llc_discover_mc_temp_entry base mac")
    case (Some i)
    then have i: "i \<in> set ?mc" "mac_at base i = mac"
      by (auto simp: ws_llc_discover_mc_temp_entry_def dest: temp_discover_Some)
    let ?b = "base\<lparr>active_multicast_temp_neigh := i # remove1 i ?mc\<rparr>"
    have same: "set (i # remove1 i ?mc) = set ?mc" "length (i # remove1 i ?mc) = length ?mc"
      using i(1) dist length_pos_if_in_set [OF i(1)] by (auto simp: set_remove1_eq length_remove1)
    have d: "distinct (i # remove1 i ?mc)" using dist by (simp add: set_remove1_eq)
    have "temp_inv ?b"
      using inv same d dist i(1) by (auto simp: temp_inv_def set_remove1_eq)
    moreover have "mac_at ?b i = mac" using i(2) by simp
    ultimately show ?thesis
      using Some found [of ?b i] by (simp add: ws_allocate_multicast_temp_entry_def)
  next
    case None
    then have fresh: "\<forall>j\<in>set ?mc. mac_at base j \<noteq> mac"
      by (simp add: ws_llc_discover_mc_temp_entry_def temp_discover_None)
    show ?thesis
    proof (cases "if length ?mc < multicast_size then ?fr else []")
      case (Cons i rest)
      then have less: "length ?mc < 5" and fr: "?fr = i # rest" by (auto split: if_splits)
      have i: "i < temp_size" "i \<notin> set ?mc" "i \<notin> set (active_eapol_temp_neigh base)"
        using all dist fr by auto
      let ?b = "ws_init_temporary_neigh_data i mac
        (base\<lparr>free_temp_neigh := remove1 i ?fr, active_multicast_temp_neigh := i # remove1 i ?mc\<rparr>)"
      have r: "remove1 i ?mc = ?mc" using i(2) by (rule remove1_idem)
      have "temp_inv ?b"
        by (rule multicast_alloc_inv [OF inv i(1)])
           (use fresh less dist all i fr in \<open>auto simp: r set_remove1_eq\<close>)
      then have inv': "temp_inv (ws_init_temporary_neigh_data i mac
        (base\<lparr>free_temp_neigh := remove1 i ?fr, active_multicast_temp_neigh := i # ?mc\<rparr>))"
        by (simp only: r)
      moreover have "mac_at (ws_init_temporary_neigh_data i mac
        (base\<lparr>free_temp_neigh := remove1 i ?fr, active_multicast_temp_neigh := i # ?mc\<rparr>)) i = mac"
        using i(1) len(2) by (subst mac_at_init) simp_all
      moreover have "\<forall>j\<in>set (active_eapol_temp_neigh base). j \<noteq> i" using i(3) by auto
      ultimately show ?thesis
        using None Cons found [OF inv', of i]
        by (auto simp: ws_allocate_multicast_temp_entry_def ws_init_temporary_neigh_data_def Let_def)
    next
      case Nil
      have "?mc \<noteq> []"
      proof
        assume "?mc = []"
        with Nil temp_counts [OF inv] inv show False by (simp add: temp_inv_def)
      qed
      let ?i = "last ?mc"
      have i: "?i \<in> set ?mc" using \<open>?mc \<noteq> []\<close> by simp
      then have i': "?i < temp_size" "?i \<notin> set (active_eapol_temp_neigh base)" using all dist by auto
      have same: "set (?i # remove1 ?i ?mc) = set ?mc" "length (?i # remove1 ?i ?mc) = length ?mc"
          using i dist length_pos_if_in_set [OF i] by (auto simp: set_remove1_eq length_remove1)
      have d: "distinct (?i # remove1 ?i ?mc)" using dist by (simp add: set_remove1_eq)
      have fr: "?fr = free_temp_neigh base" by (rule refl)
      let ?b = "ws_init_temporary_neigh_data ?i mac
        (base\<lparr>free_temp_neigh := ?fr, active_multicast_temp_neigh := ?i # remove1 ?i ?mc\<rparr>)"
      have "temp_inv ?b"
        by (rule multicast_alloc_inv [OF inv i'(1)])
           (use fresh d same dist all i i' len in \<open>auto simp: set_remove1_eq\<close>)
      then have inv': "temp_inv (ws_init_temporary_neigh_data ?i mac
        (base\<lparr>active_multicast_temp_neigh := ?i # remove1 ?i ?mc\<rparr>))"
        by (simp add: ws_init_temporary_neigh_data_def)
      moreover have "mac_at (ws_init_temporary_neigh_data ?i mac
        (base\<lparr>active_multicast_temp_neigh := ?i # remove1 ?i ?mc\<rparr>)) ?i = mac"
        using i'(1) len(2) by (subst mac_at_init) simp_all
      moreover have "\<forall>j\<in>set (active_eapol_temp_neigh base). j \<noteq> ?i" using i'(2) by auto
      ultimately show ?thesis
        using None Nil \<open>?mc \<noteq> []\<close> found [OF inv', of ?i]
        by (auto simp: ws_allocate_multicast_temp_entry_def ws_init_temporary_neigh_data_def Let_def)
    qed
  qed
qed

section \<open>EAPOL entries\<close>

lemma eapol_allocate_cases:
  assumes inv: "temp_inv base" and none: "ws_llc_discover_eapol_temp_entry base mac = None"
  obtains (full) "length (active_eapol_temp_neigh base) = eapol_size"
      "ws_allocate_eapol_temp_entry base mac = (None, base)"
  | (new) i where "length (active_eapol_temp_neigh base) < eapol_size" "i \<in> set (free_temp_neigh base)"
      "ws_allocate_eapol_temp_entry base mac =
         (Some i, ws_init_temporary_neigh_data i mac
            (base\<lparr>free_temp_neigh := remove1 i (free_temp_neigh base),
                  active_eapol_temp_neigh := i # active_eapol_temp_neigh base\<rparr>))"
proof (cases "length (active_eapol_temp_neigh base) < eapol_size")
  case True
  with temp_counts [OF inv] inv have "free_temp_neigh base \<noteq> []" by (auto simp: temp_inv_def)
  then obtain i rest where "free_temp_neigh base = i # rest" by (cases "free_temp_neigh base") auto
  with True none new [of i] show ?thesis by (simp add: ws_allocate_eapol_temp_entry_def)
next
  case False
  with inv have "length (active_eapol_temp_neigh base) = eapol_size" by (simp add: temp_inv_def)
  with full none show ?thesis by (simp add: ws_allocate_eapol_temp_entry_def)
qed

lemma eapol_allocate_new_inv:
  assumes inv: "temp_inv base" and none: "ws_llc_discover_eapol_temp_entry base mac = None"
    and i: "i \<in> set (free_temp_neigh base)" and less: "length (active_eapol_temp_neigh base) < eapol_size"
  shows "temp_inv (ws_init_temporary_neigh_data i mac
            (base\<lparr>free_temp_neigh := remove1 i (free_temp_neigh base),
                  active_eapol_temp_neigh := i # active_eapol_temp_neigh base\<rparr>))"
    and "mac_at (ws_init_temporary_neigh_data i mac
            (base\<lparr>free_temp_neigh := remove1 i (free_temp_neigh base),
                  active_eapol_temp_neigh := i # active_eapol_temp_neigh base\<rparr>)) = (mac_at base)(i := mac)"
proof -
  let ?b = "base\<lparr>free_temp_neigh := remove1 i (free_temp_neigh base),
      active_eapol_temp_neigh := i # active_eapol_temp_neigh base\<rparr>"
  have len: "length (neighbour_temporary_table base) = temp_size" and lt: "i < temp_size"
    using inv i by (auto simp: temp_inv_def)
  show m: "mac_at (ws_init_temporary_neigh_data i mac ?b) = (mac_at base)(i := mac)"
    using len lt by (subst mac_at_init) simp_all
  have fresh: "\<forall>j\<in>set (active_eapol_temp_neigh base). mac_at base j \<noteq> mac"
    using none by (simp add: ws_llc_discover_eapol_temp_entry_def temp_discover_None)
  have off: "i \<notin> set (active_eapol_temp_neigh base)" "i \<notin> set (active_multicast_temp_neigh base)"
    using inv i by (auto simp: temp_inv_def)
  have "inj_on ((mac_at base)(i := mac)) (insert i (set (active_eapol_temp_neigh base)))"
    using inv fresh by (intro inj_on_fresh) (auto simp: temp_inv_def intro: inj_on_subset)
  moreover have "inj_on ((mac_at base)(i := mac)) (set (active_multicast_temp_neigh base))"
    using inv off(2) by (simp add: temp_inv_def inj_on_fun_upd_off)
  ultimately show "temp_inv (ws_init_temporary_neigh_data i mac ?b)"
    unfolding temp_inv_def m using inv i less off by (auto simp: temp_inv_def set_remove1_eq)
qed

text \<open>The EAPOL list is an address table.\<close>

interpretation eapol_temp: address_table temp_inv "\<lambda>_. True" ws_llc_discover_eapol_temp_entry
  ws_allocate_eapol_temp_entry
proof
  fix t k
  assume inv: "temp_inv t" and none: "ws_llc_discover_eapol_temp_entry t k = None"
  show "temp_inv (snd (ws_allocate_eapol_temp_entry t k))"
    using inv none
  proof (cases rule: eapol_allocate_cases)
    case full
    then show ?thesis using inv by simp
  next
    case (new i)
    then show ?thesis using eapol_allocate_new_inv(1) [OF inv none new(2,1)] by simp
  qed
next
  fix t k k' i t'
  assume inv: "temp_inv t" and none: "ws_llc_discover_eapol_temp_entry t k = None"
    and alloc: "ws_allocate_eapol_temp_entry t k = (Some i, t')"
  show "ws_llc_discover_eapol_temp_entry t' k'
      = (if k' = k then Some i else ws_llc_discover_eapol_temp_entry t k')"
    using inv none
  proof (cases rule: eapol_allocate_cases)
    case full
    then show ?thesis using alloc by simp
  next
    case (new j)
    with alloc have ij: "j = i" by simp
    let ?xs = "active_eapol_temp_neigh t"
    have off: "i \<notin> set ?xs" using inv new(2) ij by (auto simp: temp_inv_def)
    have t': "active_eapol_temp_neigh t' = i # ?xs" "mac_at t' = (mac_at t)(i := k)"
      using alloc new(3) eapol_allocate_new_inv(2) [OF inv none new(2,1)] ij by auto
    have "find (\<lambda>j. mac_at t' j = k') ?xs = find (\<lambda>j. mac_at t j = k') ?xs"
      using off by (intro find_cong) (auto simp: t'(2))
    then show ?thesis
      by (simp add: ws_llc_discover_eapol_temp_entry_def temp_discover_def t'(1) t'(2) flip: mac_at_def)
  qed
next
  fix t k t'
  assume alloc: "ws_allocate_eapol_temp_entry t k = (None, t')"
  then show "t' = t"
    by (auto simp: ws_allocate_eapol_temp_entry_def split: option.splits list.splits if_splits)
qed

lemma eapol_get: "ws_allocate_eapol_temp_entry base mac = eapol_temp.get base mac"
  by (simp add: get_or_alloc_def ws_allocate_eapol_temp_entry_def split: option.split)

lemma temp_eapol_allocate_inv [inv_intros]:
  "temp_inv base \<Longrightarrow> temp_inv (snd (ws_allocate_eapol_temp_entry base mac))"
  by (subst eapol_get) (rule eapol_temp.get_inv)

section \<open>Ageing and the relay filter\<close>

lemma temp_update_inv [inv_intros]:
  assumes "temp_inv base" and "\<And>t. temp_mac64 (f t) = temp_mac64 t"
  shows "temp_inv (temp_update i f base)"
proof -
  have "mac_at (temp_update i f base) = mac_at base"
    by (cases "i < length (neighbour_temporary_table base)")
       (auto simp: fun_eq_iff mac_at_def temp_update_def nth_list_update assms(2) list_update_beyond)
  then show ?thesis using assms(1) by (simp add: temp_inv_def temp_update_def)
qed

lemma temp_age_mac [simp]: "temp_mac64 (temp_age s e) = temp_mac64 e"
  by (simp add: temp_age_def Let_def)

lemma temp_update_lists [simp]:
  "active_multicast_temp_neigh (temp_update i f base) = active_multicast_temp_neigh base"
  "active_eapol_temp_neigh (temp_update i f base) = active_eapol_temp_neigh base"
  "free_temp_neigh (temp_update i f base) = free_temp_neigh base"
  by (simp_all add: temp_update_def)

lemma eapol_temp_free_fields [simp]:
  "active_multicast_temp_neigh (eapol_temp_free i base) = active_multicast_temp_neigh base"
  "active_eapol_temp_neigh (eapol_temp_free i base) = remove1 i (active_eapol_temp_neigh base)"
  "free_temp_neigh (eapol_temp_free i base) = free_temp_neigh base @ [i]"
  "neighbour_temporary_table (eapol_temp_free i base) = neighbour_temporary_table base"
  by (simp_all add: eapol_temp_free_def)

definition times_out :: "u16 \<Rightarrow> temp_entriest_t \<Rightarrow> nat \<Rightarrow> bool" where
  "times_out s base i \<longleftrightarrow> eapol_timeout (neighbour_temporary_table base ! i) \<le> s"

lemma temp_timer_fold:
  assumes "temp_inv base" and "distinct xs" and "set xs \<subseteq> set (active_eapol_temp_neigh base)"
  shows "temp_inv (fold (temp_timer_step s) xs base)
    \<and> active_eapol_temp_neigh (fold (temp_timer_step s) xs base)
        = filter (\<lambda>i. i \<notin> set xs \<or> \<not> times_out s base i) (active_eapol_temp_neigh base)
    \<and> active_multicast_temp_neigh (fold (temp_timer_step s) xs base) = active_multicast_temp_neigh base
    \<and> free_temp_neigh (fold (temp_timer_step s) xs base) = free_temp_neigh base @ filter (times_out s base) xs
    \<and> (\<forall>j. neighbour_temporary_table (fold (temp_timer_step s) xs base) ! j
          = (if j \<in> set xs \<and> \<not> times_out s base j then temp_age s (neighbour_temporary_table base ! j)
             else neighbour_temporary_table base ! j))"
  using assms
proof (induction xs arbitrary: base)
  case Nil
  then show ?case by simp
next
  case (Cons i xs)
  let ?a = "active_eapol_temp_neigh base"
  have i: "i \<in> set ?a" "i < length (neighbour_temporary_table base)"
    using Cons.prems(1,3) by (auto simp: temp_inv_def)
  have da: "distinct ?a" using Cons.prems(1) by (simp add: temp_inv_def)
  show ?case
  proof (cases "times_out s base i")
    case True
    let ?b = "eapol_temp_free i base"
    have step: "temp_timer_step s i base = ?b" using True by (simp add: temp_timer_step_def times_out_def)
    have b: "temp_inv ?b" by (rule temp_eapol_free_inv [OF Cons.prems(1) i(1)])
    have sub: "set xs \<subseteq> set (active_eapol_temp_neigh ?b)"
      using Cons.prems(2,3) da by (auto simp: set_remove1_eq)
    have t: "times_out s ?b = times_out s base" by (simp add: fun_eq_iff times_out_def)
    have "filter (\<lambda>j. j \<notin> set xs \<or> \<not> times_out s base j) (remove1 i ?a)
        = filter (\<lambda>j. j \<notin> set (i # xs) \<or> \<not> times_out s base j) ?a"
      using True Cons.prems(2) da by (auto simp: distinct_remove1_removeAll removeAll_filter_not_eq intro!: filter_cong)
    then show ?thesis
      using Cons.IH [OF b _ sub] Cons.prems(2) True by (auto simp: step t)
  next
    case False
    let ?b = "temp_update i (temp_age s) base"
    have step: "temp_timer_step s i base = ?b" using False by (simp add: temp_timer_step_def times_out_def)
    have b: "temp_inv ?b" by (rule temp_update_inv [OF Cons.prems(1)]) simp
    have sub: "set xs \<subseteq> set (active_eapol_temp_neigh ?b)" using Cons.prems(3) by simp
    have other: "neighbour_temporary_table ?b ! j = neighbour_temporary_table base ! j" if "j \<noteq> i" for j
      using that by (simp add: temp_update_def)
    then have out: "times_out s ?b j = times_out s base j" if "j \<noteq> i" for j
      using that by (simp add: times_out_def)
    have "(j \<notin> set xs \<or> \<not> times_out s ?b j) = (j \<notin> set (i # xs) \<or> \<not> times_out s base j)" for j
      using Cons.prems(2) False out [of j] by (cases "j = i") auto
    note kept = this
    have "filter (\<lambda>j. j \<notin> set xs \<or> \<not> times_out s ?b j) ?a
        = filter (\<lambda>j. j \<notin> set (i # xs) \<or> \<not> times_out s base j) ?a"
      using kept by simp
    moreover have "filter (times_out s ?b) xs = filter (times_out s base) xs"
      by (rule filter_cong [OF refl], rule out) (use Cons.prems(2) in auto)
    moreover have "neighbour_temporary_table ?b ! i = temp_age s (neighbour_temporary_table base ! i)"
      using i(2) by (simp add: temp_update_def)
    moreover have "(if j \<in> set xs \<and> \<not> times_out s ?b j then temp_age s (neighbour_temporary_table ?b ! j)
          else neighbour_temporary_table ?b ! j)
        = (if j \<in> set (i # xs) \<and> \<not> times_out s base j then temp_age s (neighbour_temporary_table base ! j)
          else neighbour_temporary_table base ! j)" for j
      using Cons.prems(2) False other [of j] out [of j] calculation(3) by (cases "j = i") auto
    ultimately show ?thesis
      using Cons.IH [OF b _ sub] Cons.prems(2) False by (simp add: step)
  qed
qed

lemma temp_timer_inv [inv_intros]: "temp_inv base \<Longrightarrow> temp_inv (ws_llc_timer_seconds s base)"
  unfolding ws_llc_timer_seconds_def
  by (rule conjunct1 [OF temp_timer_fold]) (simp_all add: temp_inv_def)

lemma temp_relay_filter_inv [inv_intros]:
  "temp_inv base \<Longrightarrow> temp_inv (snd (snd (ws_llc_eapol_relay_forward_filter mac sq ts normal base)))"
  by (auto simp: ws_llc_eapol_relay_forward_filter_def Let_def intro!: temp_update_inv
      split: option.split prod.split)

section \<open>Reachable tables\<close>

definition temp_entries_zero :: temp_entriest_t where
  "temp_entries_zero = \<lparr>neighbour_temporary_table = replicate temp_size temp_neighbor_zero,
     active_multicast_temp_neigh = [], active_eapol_temp_neigh = [], free_temp_neigh = []\<rparr>"

text \<open>
  The table after \<open>ws_llc_create\<close> and any sequence of the operations; \<open>fill\<close> is what the indication
  handlers and the confirmation store in an entry they were handed.
\<close>

inductive temp_reach :: "temp_entriest_t \<Rightarrow> bool" where
  create: "temp_reach (ws_llc_temp_neigh_info_table_reset temp_entries_zero)"
| reset: "temp_reach b \<Longrightarrow> temp_reach (ws_llc_temp_neigh_info_table_reset b)"
| multicast: "temp_reach b \<Longrightarrow> ws_allocate_multicast_temp_entry b mac = Some (i, b') \<Longrightarrow> temp_reach b'"
| eapol: "temp_reach b \<Longrightarrow> temp_reach (snd (ws_allocate_eapol_temp_entry b mac))"
| release: "temp_reach b \<Longrightarrow> temp_reach (ws_llc_release_eapol_temp_entry b mac)"
| free_multicast: "temp_reach b \<Longrightarrow> ws_llc_discover_mc_temp_entry b mac = Some i \<Longrightarrow>
    temp_reach (ws_llc_free_multicast_temp_entry i b)"
| timer: "temp_reach b \<Longrightarrow> temp_reach (ws_llc_timer_seconds s b)"
| relay: "temp_reach b \<Longrightarrow>
    temp_reach (snd (snd (ws_llc_eapol_relay_forward_filter mac sq ts normal b)))"
| fill: "temp_reach b \<Longrightarrow> temp_reach (temp_update i (\<lambda>t. t\<lparr>neigh_info := g (neigh_info t),
    eapol_timeout := n, temp_mpduLinkQuality := l, temp_signal_dbm := d\<rparr>) b)"

lemma temp_reach_temp_inv: "temp_reach b \<Longrightarrow> temp_inv b"
proof (induction rule: temp_reach.induct)
  case create
  then show ?case by (intro temp_reset_inv) (simp add: temp_entries_zero_def)
next
  case (reset b)
  then show ?case by (intro temp_reset_inv) (simp add: temp_inv_def)
next
  case (multicast b mac i b')
  then show ?case using multicast_allocate_total [of b mac] by auto
next
  case (eapol b mac)
  then show ?case by (intro temp_eapol_allocate_inv)
next
  case (release b mac)
  then show ?case by (intro temp_release_inv)
next
  case (free_multicast b mac i)
  then show ?case
    by (intro temp_multicast_free_inv) (auto simp: ws_llc_discover_mc_temp_entry_def dest: temp_discover_Some)
next
  case (timer b s)
  then show ?case by (intro temp_timer_inv)
next
  case (relay b mac sq ts normal)
  then show ?case by (intro temp_relay_filter_inv)
next
  case (fill b i g n l d)
  then show ?case by (intro temp_update_inv) simp_all
qed

text \<open>
  In every reachable table of temporary neighbours each of the 25 entries is in exactly one of the
  three lists, at most five are multicast entries and at most twenty EAPOL entries, no address has two
  entries of a kind, and a multicast entry is always found: the handler of a multicast frame never
  gets a null pointer.
\<close>

lemma temp_table_partition:
  assumes "temp_reach b"
  shows "temp_inv b \<and> (\<exists>i b'. ws_allocate_multicast_temp_entry b mac = Some (i, b') \<and> i < temp_size
    \<and> ws_llc_discover_mc_temp_entry b' mac = Some i)"
proof -
  note inv = temp_reach_temp_inv [OF assms]
  obtain i b' where a: "ws_allocate_multicast_temp_entry b mac = Some (i, b')" "temp_inv b'"
    "ws_llc_discover_mc_temp_entry b' mac = Some i"
    using multicast_allocate_total [OF inv, of mac] by blast
  then have "i \<in> set (active_multicast_temp_neigh b')"
    by (auto simp: ws_llc_discover_mc_temp_entry_def dest: temp_discover_Some)
  with a(2) have "i < temp_size" by (auto simp: temp_inv_def)
  with a inv show ?thesis by blast
qed

text \<open>
  A node that was given an EAPOL entry keeps it through the requests of any nodes; a node
  without one gets one unless twenty other nodes hold them.
\<close>

lemma eapol_temp_entries:
  assumes "temp_reach b" and "ws_llc_discover_eapol_temp_entry b mac = Some i"
  shows "ws_llc_discover_eapol_temp_entry (fold (\<lambda>m b. snd (ws_allocate_eapol_temp_entry b m)) macs b) mac = Some i
    \<and> (fst (ws_allocate_eapol_temp_entry b new) = None \<longleftrightarrow>
         ws_llc_discover_eapol_temp_entry b new = None \<and> length (active_eapol_temp_neigh b) = eapol_size)"
proof -
  note inv = temp_reach_temp_inv [OF assms(1)]
  have "fst (ws_allocate_eapol_temp_entry b new) = None \<longleftrightarrow>
      ws_llc_discover_eapol_temp_entry b new = None \<and> length (active_eapol_temp_neigh b) = eapol_size"
  proof (cases "ws_llc_discover_eapol_temp_entry b new")
    case None
    show ?thesis using inv None by (cases rule: eapol_allocate_cases) (simp_all add: None)
  next
    case (Some j)
    then show ?thesis by (simp add: ws_allocate_eapol_temp_entry_def)
  qed
  moreover have "(\<lambda>k t. snd (eapol_temp.get t k)) = (\<lambda>m b. snd (ws_allocate_eapol_temp_entry b m))"
    by (simp add: fun_eq_iff eapol_get [symmetric])
  ultimately show ?thesis
    using eapol_temp.get_all_keeps [OF inv _ _ assms(2), of macs] by simp
qed

text \<open>
  The timer of the data service frees exactly the EAPOL entries whose lifetime does not exceed the
  elapsed time, shortens the lifetime of the others by that time, and leaves multicast entries alone.
\<close>

lemma temp_timer_spec:
  assumes "temp_reach b"
  shows "active_eapol_temp_neigh (ws_llc_timer_seconds s b)
      = filter (\<lambda>i. s < eapol_timeout (neighbour_temporary_table b ! i)) (active_eapol_temp_neigh b)
    \<and> free_temp_neigh (ws_llc_timer_seconds s b)
      = free_temp_neigh b @ filter (\<lambda>i. eapol_timeout (neighbour_temporary_table b ! i) \<le> s) (active_eapol_temp_neigh b)
    \<and> active_multicast_temp_neigh (ws_llc_timer_seconds s b) = active_multicast_temp_neigh b
    \<and> (\<forall>i\<in>set (active_eapol_temp_neigh (ws_llc_timer_seconds s b)).
        eapol_timeout (neighbour_temporary_table (ws_llc_timer_seconds s b) ! i)
          = eapol_timeout (neighbour_temporary_table b ! i) - s)"
proof -
  note inv = temp_reach_temp_inv [OF assms]
  have d: "distinct (active_eapol_temp_neigh b)" using inv by (simp add: temp_inv_def)
  have t: "times_out s b = (\<lambda>i. eapol_timeout (neighbour_temporary_table b ! i) \<le> s)"
    by (simp add: fun_eq_iff times_out_def)
  have age: "eapol_timeout (temp_age s e) = eapol_timeout e - s" for e
    by (simp add: temp_age_def Let_def)
  have "filter (\<lambda>i. i \<notin> set (active_eapol_temp_neigh b) \<or> \<not> times_out s b i) (active_eapol_temp_neigh b)
      = filter (\<lambda>i. s < eapol_timeout (neighbour_temporary_table b ! i)) (active_eapol_temp_neigh b)"
    by (rule filter_cong) (auto simp: t not_le)
  then show ?thesis
    using temp_timer_fold [OF inv d subset_refl, of s]
    by (simp add: ws_llc_timer_seconds_def age t not_le)
qed

end
