(* ===== verification/Llc.thy ===== *)
theory Llc
  imports LlcFrame LlcTemp
begin

text \<open>
  The message queue of the Wi-SUN data service (\<open>6LoWPAN/ws/ws_llc_data_service.c\<close>): MAC handles and
  multiplexing sequence numbers, the data, EAPOL and asynchronous requests, the confirmation of the MAC,
  purging, the queue of EAPOL messages, extended frame exchange and the configuration functions. The
  repository builds it over the TI MAC (\<open>FEATURE_TIMAC_SUPPORT\<close>), whose data request may be refused; both
  variants are modelled, \<open>timac\<close> selects one. Calls of other components are recorded in order in
  \<open>llc_log\<close>; what they return is in \<open>llc_env\<close>.
\<close>

section \<open>Data\<close>

text \<open>The status codes of the external MAC interface; \<open>MLME_SUCCESS\<close> is zero there.\<close>

datatype mlme_status = MLME_SUCCESS | MLME_NO_DATA | MLME_TX_NO_ACK | MLME_TRANSACTION_OVERFLOW
  | MLME_INVALID_HANDLE | MLME_STATUS u8

record mcps_data_req_t =
  rq_handle :: u8
  rq_tx_ack :: bool
  rq_dst_mode :: "2 word"
  rq_src_mode :: "2 word"
  rq_dst_addr :: bytes
  rq_dst_pan :: u16
  rq_edfe :: bool
  rq_pan_suppressed :: bool
  rq_seq_suppressed :: bool
  rq_msdu :: bytes

record llc_message_t =
  dst_address :: bytes
  dst_pan_id :: u16
  messsage_type :: "3 word"
  message_mpx_id :: "5 word"
  ack_requested :: bool
  eapol_temporary :: bool
  dst_address_type :: "2 word"
  src_address_type :: "2 word"
  msg_handle :: u8
  mpx_user_handle :: u8
  ie_header :: bytes
  ie_payload :: bytes
  ie_msdu :: bytes
  ie_header_mask :: wh_ie_sub_list_t
  nested_wp_id :: wp_nested_ie_sub_list_t
  priority :: u8

text \<open>The neighbour a lookup by address returns: its index and link lifetime.\<close>

record llc_neighbour =
  nb_index :: u8
  nb_link_lifetime :: u32

datatype llc_event =
  Aq_calc u8
| Eapol_aq_calc u16
| Mac_data_req mcps_data_req_t llc_message_t nat
| Mac_asynch_req "3 word"
| Mac_purge u8
| Data_confirm u16 u8 mlme_status
| Asynch_confirm u8
| Tx_temporary_set bytes
| Tx_temporary_clear
| Neighbor_request bytes bool
| Etx_attempts u8 u8 bool
| Link_lifetime_refresh u8
| Unicast_time_info u8 utt_wire u32
| Rsl_out u8 u8
| Neighbor_remove u8
| Edfe_force_stop
| Auth_eui64_set bytes

record llc_env =
  env_codec :: codec
  timac :: bool
  mpx_group_id :: u8
  alloc_ok :: bool
  mac_accepts :: "mcps_data_req_t \<Rightarrow> mlme_status"
  mac_asynch_accepts :: "3 word \<Rightarrow> mlme_status"
  purge_status :: "u8 \<Rightarrow> u8"
  tx_temporary_ok :: "bytes \<Rightarrow> bool"
  neighbor_lookup :: "bytes \<Rightarrow> llc_neighbour option"
  temp_eapol_min_timeout :: u16

text \<open>
  An entry of \<open>mpx_user_table\<close> is the user's identifier and whether its two callbacks are set.
  \<open>last_sent_async_frame_type\<close> and the two test switches are static variables of the file.
\<close>

record llc_data_base_t =
  mac_handle_base :: u8
  llc_message_list_size :: u8
  edfe_rx_wait_timer :: u16
  mpx_id :: "4 word"
  mpx_user_table :: "(u16 \<times> bool \<times> bool) list"
  llc_message_list :: "llc_message_t list"
  ie_params :: llc_ie_params_t
  temp_entries :: temp_entriest_t
  llc_eap_pending_list :: "llc_message_t list"
  llc_eap_pending_list_size :: u16
  active_eapol_session :: bool
  high_priority_mode :: bool
  asynch_confirm_set :: bool
  last_sent_async_frame_type :: u8
  test_skip_first_init_response :: bool
  test_drop_data_message :: u8
  llc_log :: "llc_event list"

text \<open>\<open>WS_FT_DATA\<close>, \<open>WS_FT_EAPOL\<close> and the identifiers of the two users.\<close>

abbreviation (input) WS_FT_DATA :: "3 word" where "WS_FT_DATA \<equiv> 4"
abbreviation (input) WS_FT_EAPOL :: "3 word" where "WS_FT_EAPOL \<equiv> 6"
abbreviation (input) LOWPAN_USER :: u16 where "LOWPAN_USER \<equiv> 0xA0ED"
abbreviation (input) KMP_USER :: u16 where "KMP_USER \<equiv> 0x0001"

definition event :: "llc_event \<Rightarrow> llc_data_base_t \<Rightarrow> llc_data_base_t" where
  "event e st = st\<lparr>llc_log := llc_log st @ [e]\<rparr>"

section \<open>The list of messages\<close>

definition llc_message_discover_by_mac_handle :: "u8 \<Rightarrow> llc_message_t list \<Rightarrow> nat option" where
  "llc_message_discover_by_mac_handle handle xs = find_index (\<lambda>m. msg_handle m = handle) xs"

definition llc_message_discover_by_mpx_id :: "u8 \<Rightarrow> llc_message_t list \<Rightarrow> nat option" where
  "llc_message_discover_by_mpx_id handle xs =
     find_index (\<lambda>m. (messsage_type m = WS_FT_DATA \<or> messsage_type m = WS_FT_EAPOL) \<and>
       ucast (message_mpx_id m) = handle) xs"

definition llc_message_discover_mpx_user_id :: "u8 \<Rightarrow> u16 \<Rightarrow> llc_message_t list \<Rightarrow> nat option" where
  "llc_message_discover_mpx_user_id handle user_id xs =
     (let ty = (if user_id = LOWPAN_USER then WS_FT_DATA else WS_FT_EAPOL) in
      find_index (\<lambda>m. messsage_type m = ty \<and> mpx_user_handle m = handle) xs)"

definition remove_at :: "nat \<Rightarrow> 'a list \<Rightarrow> 'a list" where
  "remove_at i xs = take i xs @ drop (Suc i) xs"

definition llc_message_free :: "nat \<Rightarrow> llc_data_base_t \<Rightarrow> llc_data_base_t" where
  "llc_message_free i st =
     (let n = llc_message_list_size st - 1 in
      event (Aq_calc n)
        (st\<lparr>llc_message_list := remove_at i (llc_message_list st), llc_message_list_size := n\<rparr>))"

text \<open>
  The two loops of \<open>llc_message_id_allocate\<close>; they do not end when every handle, or every sequence
  number of four bits, is in use.
\<close>

partial_function (option) mac_handle_loop :: "llc_message_t list \<Rightarrow> u8 \<Rightarrow> u8 option" where
  "mac_handle_loop xs h =
     (if llc_message_discover_by_mac_handle h xs \<noteq> None then mac_handle_loop xs (h + 1) else Some h)"

partial_function (option) mpx_id_loop :: "llc_message_t list \<Rightarrow> 4 word \<Rightarrow> 4 word option" where
  "mpx_id_loop xs i =
     (if llc_message_discover_by_mpx_id (ucast i) xs \<noteq> None then mpx_id_loop xs (i + 1) else Some i)"

declare mac_handle_loop.simps [code]
declare mpx_id_loop.simps [code]

definition llc_message_id_allocate ::
    "llc_message_t \<Rightarrow> bool \<Rightarrow> llc_data_base_t \<Rightarrow> (llc_message_t \<times> llc_data_base_t) option" where
  "llc_message_id_allocate m mpx_user st =
     (case mac_handle_loop (llc_message_list st) (mac_handle_base st) of
        None \<Rightarrow> None
      | Some h \<Rightarrow>
          (case (if mpx_user then mpx_id_loop (llc_message_list st) (mpx_id st) else Some (mpx_id st)) of
             None \<Rightarrow> None
           | Some i \<Rightarrow>
               Some (if mpx_user
                 then (m\<lparr>msg_handle := h, message_mpx_id := ucast i\<rparr>, st\<lparr>mac_handle_base := h + 1, mpx_id := i + 1\<rparr>)
                 else (m\<lparr>msg_handle := h\<rparr>, st\<lparr>mac_handle_base := h + 1\<rparr>))))"

text \<open>\<open>llc_message_allocate\<close>: \<open>LLC_MESSAGE_QUEUE_LIST_SIZE_MAX\<close> is 16.\<close>

definition llc_message_allocate :: "llc_env \<Rightarrow> llc_data_base_t \<Rightarrow> bool" where
  "llc_message_allocate env st \<longleftrightarrow> llc_message_list_size st < 16 \<and> alloc_ok env"

definition ws_llc_mpx_user_discover :: "u16 \<Rightarrow> llc_data_base_t \<Rightarrow> (u16 \<times> bool \<times> bool) option" where
  "ws_llc_mpx_user_discover user_id st = find (\<lambda>(u, _). u = user_id) (mpx_user_table st)"

text \<open>
  A new message; the fields that the code leaves as the allocator returned them are zero here and are
  not read before they are set.
\<close>

definition new_message :: "3 word \<Rightarrow> u8 \<Rightarrow> u8 \<Rightarrow> llc_frame \<Rightarrow> bytes \<Rightarrow> llc_message_t" where
  "new_message ty user_handle prio f msdu = \<lparr>dst_address = replicate 8 0, dst_pan_id = 0, messsage_type = ty,
     message_mpx_id = 0, ack_requested = False, eapol_temporary = False, dst_address_type = 0,
     src_address_type = 0, msg_handle = 0, mpx_user_handle = user_handle, ie_header = frame_header f,
     ie_payload = frame_payload f, ie_msdu = msdu, ie_header_mask = no_wh, nested_wp_id = no_wp, priority = prio\<rparr>"

definition no_frame :: llc_frame where
  "no_frame = \<lparr>frame_header = [], frame_payload = [], frame_buffer_size = 5\<rparr>"

text \<open>Counting and listing a message that has its identifiers.\<close>

definition llc_message_add :: "llc_message_t \<Rightarrow> llc_data_base_t \<Rightarrow> llc_data_base_t" where
  "llc_message_add m st =
     (let n = llc_message_list_size st + 1 in
      (event (Aq_calc n) (st\<lparr>llc_message_list_size := n\<rparr>))\<lparr>llc_message_list := llc_message_list st @ [m]\<rparr>)"

section \<open>Data requests\<close>

definition lowpan_data_req :: "mcps_data_req_t \<Rightarrow> u8 \<Rightarrow> mcps_data_req_t" where
  "lowpan_data_req data handle =
     (let req = data\<lparr>rq_msdu := [], rq_handle := handle\<rparr> in
      if rq_edfe data \<and> rq_tx_ack data
      then req\<lparr>rq_seq_suppressed := True, rq_pan_suppressed := True, rq_tx_ack := True\<rparr>
      else if \<not> rq_tx_ack data
      then req\<lparr>rq_edfe := False, rq_pan_suppressed := False, rq_dst_mode := 0\<rparr>
      else req\<lparr>rq_edfe := False, rq_pan_suppressed := True\<rparr>)"

text \<open>The message of a data request, before it has its identifiers, and its multiplexing header.\<close>

definition lowpan_message :: "bool \<Rightarrow> llc_ie_params_t \<Rightarrow> mcps_data_req_t \<Rightarrow> u8 \<Rightarrow> llc_frame \<Rightarrow> llc_message_t" where
  "lowpan_message ti params data prio f =
     (let m = (new_message WS_FT_DATA (rq_handle data) prio f (rq_msdu data))\<lparr>ack_requested := rq_tx_ack data\<rparr>;
          m = (if rq_tx_ack data
               then m\<lparr>dst_address_type := rq_dst_mode data, dst_address := take 8 (rq_dst_addr data)\<rparr> else m)
      in if ti
         then m\<lparr>ie_header_mask := lowpan_wh params (rq_edfe data) (rq_tx_ack data),
                nested_wp_id := lowpan_wp params (rq_tx_ack data)\<rparr>
         else m)"

definition mpx_header_added :: "llc_env \<Rightarrow> u16 \<Rightarrow> llc_message_t \<Rightarrow> llc_message_t" where
  "mpx_header_added env user m =
     m\<lparr>ie_payload := ie_payload m @ ws_llc_lowpan_mpx_header_set (env_codec env) (mpx_group_id env)
         (message_mpx_id m) user (length (ie_msdu m))\<rparr>"

text \<open>\<open>None\<close>: an array is read behind its end, a null schedule is used, or a loop does not end.\<close>

definition ws_llc_lowpan_mpx_data_request ::
    "llc_env \<Rightarrow> mcps_data_req_t \<Rightarrow> u8 \<Rightarrow> llc_data_base_t \<Rightarrow> llc_data_base_t option" where
  "ws_llc_lowpan_mpx_data_request env data prio st =
     (let params = ie_params st; c = env_codec env in
      if \<not> llc_message_allocate env st
      then Some (event (Data_confirm LOWPAN_USER (rq_handle data) MLME_TRANSACTION_OVERFLOW) st)
      else case (if timac env then Some no_frame
            else case hopping_schedule params of
                   None \<Rightarrow> None
                 | Some hs \<Rightarrow> lowpan_frame c params hs (rq_edfe data) (rq_tx_ack data)) of
        None \<Rightarrow> None
      | Some f \<Rightarrow>
            (case llc_message_id_allocate (lowpan_message (timac env) params data prio f) True st of
              None \<Rightarrow> None
            | Some (m, st) \<Rightarrow>
                let m = mpx_header_added env LOWPAN_USER m;
                    st = llc_message_add m st;
                    req = lowpan_data_req data (msg_handle m)
                in Some (
                  if timac env
                  then let req = req\<lparr>rq_msdu := ie_msdu m\<rparr>;
                           st = event (Mac_data_req req m 2) st;
                           status = mac_accepts env req
                       in if status \<noteq> MLME_SUCCESS
                          then event (Data_confirm LOWPAN_USER (rq_handle data) status) st else st
                  else event (Mac_data_req req m (if rq_edfe data then 0 else 2)) st)))"

definition ws_llc_eapol_temp_entry_set :: "llc_env \<Rightarrow> bytes \<Rightarrow> llc_data_base_t \<Rightarrow> bool \<times> llc_data_base_t" where
  "ws_llc_eapol_temp_entry_set env mac64 st =
     (case ws_llc_discover_eapol_temp_entry (temp_entries st) mac64 of
        None \<Rightarrow> (False, st)
      | Some i \<Rightarrow> (tx_temporary_ok env mac64, event (Tx_temporary_set mac64) st))"

definition ws_llc_eapol_data_req_init :: "llc_message_t \<Rightarrow> mcps_data_req_t" where
  "ws_llc_eapol_data_req_init m =
     (let req = \<lparr>rq_handle = msg_handle m, rq_tx_ack = ack_requested m, rq_dst_mode = 0,
           rq_src_mode = src_address_type m, rq_dst_addr = replicate 8 0, rq_dst_pan = dst_pan_id m,
           rq_edfe = False, rq_pan_suppressed = False, rq_seq_suppressed = False, rq_msdu = []\<rparr> in
      if \<not> ack_requested m then req
      else req\<lparr>rq_pan_suppressed := True, rq_dst_mode := dst_address_type m, rq_dst_addr := dst_address m\<rparr>)"

definition ws_llc_mpx_eapol_send ::
    "llc_env \<Rightarrow> llc_message_t \<Rightarrow> llc_data_base_t \<Rightarrow> (mlme_status \<times> llc_data_base_t) option" where
  "ws_llc_mpx_eapol_send env m st =
     (case llc_message_id_allocate m True st of
        None \<Rightarrow> None
      | Some (m, st) \<Rightarrow>
          let n = llc_message_list_size st + 1;
              st = event (Aq_calc n) (st\<lparr>llc_message_list_size := n\<rparr>);
              (temporary, st) = ws_llc_eapol_temp_entry_set env (dst_address m) st;
              m = mpx_header_added env KMP_USER (m\<lparr>eapol_temporary := temporary\<rparr>);
              st = st\<lparr>llc_message_list := llc_message_list st @ [m]\<rparr>;
              req = ws_llc_eapol_data_req_init m
          in Some (
            if \<not> timac env
            then (MLME_SUCCESS, event (Mac_data_req req m 2) (st\<lparr>active_eapol_session := True\<rparr>))
            else let req = req\<lparr>rq_msdu := ie_msdu m\<rparr>;
                     st = event (Mac_data_req req m 2) st;
                     status = mac_accepts env req
                 in (status, if status = MLME_SUCCESS then st\<lparr>active_eapol_session := True\<rparr> else st)))"

definition eapol_message :: "bool \<Rightarrow> mcps_data_req_t \<Rightarrow> u8 \<Rightarrow> bool \<Rightarrow> bytes option \<Rightarrow> llc_frame \<Rightarrow> llc_message_t" where
  "eapol_message ti data prio relay auth f =
     (let m = (new_message WS_FT_EAPOL (rq_handle data) prio f (rq_msdu data))
            \<lparr>ack_requested := rq_tx_ack data, src_address_type := rq_src_mode data,
             dst_address := take 8 (rq_dst_addr data), dst_address_type := rq_dst_mode data,
             dst_pan_id := rq_dst_pan data\<rparr>
      in if ti
         then m\<lparr>ie_header_mask := no_wh\<lparr>utt_ie := True, bt_ie := relay, ea_ie := auth \<noteq> None\<rparr>,
                nested_wp_id := no_wp\<lparr>bs_ie := auth \<noteq> None, us_ie := True\<rparr>\<rparr>
         else m)"

text \<open>
  \<open>relay\<close> and \<open>auth\<close> are what the EAPOL relay and the handshake say of the frame: whether the relay is
  active, and the authenticator's address when the frame is the first of a handshake.
\<close>

definition ws_llc_mpx_eapol_request ::
    "llc_env \<Rightarrow> mcps_data_req_t \<Rightarrow> u8 \<Rightarrow> bool \<Rightarrow> bytes option \<Rightarrow> llc_data_base_t \<Rightarrow> llc_data_base_t option" where
  "ws_llc_mpx_eapol_request env data prio relay auth st =
     (let params = ie_params st; c = env_codec env in
      if \<not> llc_message_allocate env st
      then Some (event (Data_confirm KMP_USER (rq_handle data) MLME_TRANSACTION_OVERFLOW) st)
      else case (if timac env then Some no_frame
            else case hopping_schedule params of
                   None \<Rightarrow> None
                 | Some hs \<Rightarrow> eapol_frame c params hs relay auth) of
        None \<Rightarrow> None
      | Some f \<Rightarrow>
            let m = eapol_message (timac env) data prio relay auth f;
                st = (case auth of Some a \<Rightarrow> if timac env then event (Auth_eui64_set a) st else st | None \<Rightarrow> st)
            in if active_eapol_session st
               then let n = llc_eap_pending_list_size st + 1 in
                 Some (event (Eapol_aq_calc n)
                   (st\<lparr>llc_eap_pending_list := llc_eap_pending_list st @ [m], llc_eap_pending_list_size := n\<rparr>))
               else case ws_llc_mpx_eapol_send env m st of
                 None \<Rightarrow> None
               | Some (status, st) \<Rightarrow>
                   Some (if timac env \<and> status \<noteq> MLME_SUCCESS
                         then event (Data_confirm KMP_USER (rq_handle data) status) st else st))"

definition ws_llc_mpx_data_request ::
    "llc_env \<Rightarrow> mcps_data_req_t \<Rightarrow> u16 \<Rightarrow> u8 \<Rightarrow> bool \<Rightarrow> bytes option \<Rightarrow> llc_data_base_t \<Rightarrow> llc_data_base_t option" where
  "ws_llc_mpx_data_request env data user_id prio relay auth st =
     (case ws_llc_mpx_user_discover user_id st of
        None \<Rightarrow> Some st
      | Some (_, confirm_set, ind_set) \<Rightarrow>
          if \<not> confirm_set \<or> \<not> ind_set then Some st
          else if \<not> timac env \<and> hopping_schedule (ie_params st) = None
          then Some (event (Data_confirm user_id (rq_handle data) MLME_TRANSACTION_OVERFLOW) st)
          else if user_id = KMP_USER then ws_llc_mpx_eapol_request env data prio relay auth st
          else if user_id = LOWPAN_USER then ws_llc_lowpan_mpx_data_request env data prio st
          else Some st)"

section \<open>Confirmation\<close>

record mcps_data_conf_t =
  cf_handle :: u8
  cf_status :: mlme_status
  cf_timestamp :: u32
  cf_tx_retries :: u8

definition conf_success :: "mcps_data_conf_t \<Rightarrow> bool" where
  "conf_success conf \<longleftrightarrow> cf_status conf = MLME_SUCCESS \<or> cf_status conf = MLME_NO_DATA"

text \<open>
  What the confirmation of an acknowledged data frame tells the neighbour's statistics and timing;
  \<open>WS_NEIGHBOR_LINK_TIMEOUT\<close> is 2200. \<open>header_ies\<close> is the header element list of the acknowledgement.
\<close>

definition confirm_neighbour ::
    "llc_env \<Rightarrow> mcps_data_conf_t \<Rightarrow> bytes \<Rightarrow> llc_neighbour \<Rightarrow> llc_data_base_t \<Rightarrow> llc_data_base_t option" where
  "confirm_neighbour env conf header_ies nb st =
     (if (conf_success conf \<or> cf_status conf = MLME_TX_NO_ACK) \<and> nb_link_lifetime nb = 2200
      then let st = event (Etx_attempts (1 + cf_tx_retries conf) (nb_index nb) (conf_success conf)) st;
               len = word_of_nat (length header_ies) in
        if \<not> conf_success conf then Some st
        else case ws_wh_utt_read (env_codec env) header_ies 0 len of
          None \<Rightarrow> None
        | Some utt \<Rightarrow>
            let st = (case utt of
                        None \<Rightarrow> st
                      | Some u \<Rightarrow> event (Unicast_time_info (nb_index nb) u (cf_timestamp conf))
                                   (event (Link_lifetime_refresh (nb_index nb)) st)) in
            map_option (\<lambda>rsl. case rsl of None \<Rightarrow> st | Some r \<Rightarrow> event (Rsl_out (nb_index nb) r) st)
              (ws_wh_rsl_read (env_codec env) header_ies 0 len)
      else Some st)"

definition llc_user_confirm :: "u16 \<Rightarrow> u8 \<Rightarrow> mlme_status \<Rightarrow> llc_data_base_t \<Rightarrow> llc_data_base_t" where
  "llc_user_confirm user handle status st =
     (case ws_llc_mpx_user_discover user st of
        Some (_, True, _) \<Rightarrow> event (Data_confirm user handle status) st
      | _ \<Rightarrow> st)"

text \<open>
  \<open>eapol_tx_confirm\<close> is the first part, for a message whose receiver has a temporary entry;
  \<open>eapol_next\<close> the start of the next EAPOL message that waits, whose status nobody looks at.
\<close>

definition eapol_tx_confirm :: "llc_env \<Rightarrow> mcps_data_conf_t \<Rightarrow> llc_message_t \<Rightarrow> llc_data_base_t \<Rightarrow> llc_data_base_t" where
  "eapol_tx_confirm env conf m st =
     (if eapol_temporary m
      then let st = event Tx_temporary_clear st in
        if conf_success conf
        then case ws_llc_discover_eapol_temp_entry (temp_entries st) (dst_address m) of
               None \<Rightarrow> st
             | Some i \<Rightarrow> st\<lparr>temp_entries :=
                 temp_update i (\<lambda>t. t\<lparr>eapol_timeout := temp_eapol_min_timeout env + 1\<rparr>) (temp_entries st)\<rparr>
        else st
      else st)"

definition eapol_next :: "llc_env \<Rightarrow> llc_data_base_t \<Rightarrow> llc_data_base_t option" where
  "eapol_next env st =
     (case llc_eap_pending_list st of
        [] \<Rightarrow> Some st
      | m # ms \<Rightarrow>
          let n = llc_eap_pending_list_size st - 1;
              st = event (Eapol_aq_calc n) (st\<lparr>llc_eap_pending_list := ms, llc_eap_pending_list_size := n\<rparr>)
          in map_option snd (ws_llc_mpx_eapol_send env m st))"

text \<open>\<open>conf_data\<close> is absent for the asynchronous messages of the TI MAC.\<close>

definition ws_llc_mac_confirm_cb ::
    "llc_env \<Rightarrow> mcps_data_conf_t \<Rightarrow> bytes option \<Rightarrow> llc_data_base_t \<Rightarrow> llc_data_base_t option" where
  "ws_llc_mac_confirm_cb env conf conf_data st =
     (if timac env \<and> conf_data = None
      then Some ((event (Asynch_confirm (last_sent_async_frame_type st)) st)\<lparr>last_sent_async_frame_type := 0xFF\<rparr>)
      else case llc_message_discover_by_mac_handle (cf_handle conf) (llc_message_list st) of
        None \<Rightarrow> Some st
      | Some i \<Rightarrow>
          let m = llc_message_list st ! i;
              ty = messsage_type m;
              st = eapol_tx_confirm env conf m st;
              acked = ack_requested m \<and> ty = WS_FT_DATA;
              asks = acked \<and> dst_address_type m = 3;
              nb = (if asks then neighbor_lookup env (dst_address m) else None);
              st = (if asks then event (Neighbor_request (dst_address m) False) st else st)
          in case (case nb of None \<Rightarrow> Some st
                   | Some nb \<Rightarrow> confirm_neighbour env conf (case conf_data of None \<Rightarrow> [] | Some h \<Rightarrow> h) nb st) of
            None \<Rightarrow> None
          | Some st \<Rightarrow>
              let st = llc_message_free i st in
              if ty = WS_FT_DATA
              then let st = llc_user_confirm LOWPAN_USER (mpx_user_handle m) (cf_status conf) st in
                Some (case nb of
                        Some nb \<Rightarrow> if nb_link_lifetime nb \<le> 240 then event (Neighbor_remove (nb_index nb)) st else st
                      | None \<Rightarrow> st)
              else if ty = WS_FT_EAPOL
              then eapol_next env (llc_user_confirm KMP_USER (mpx_user_handle m) (cf_status conf)
                     (st\<lparr>active_eapol_session := False\<rparr>))
              else Some (if timac env then st else event (Asynch_confirm (ucast ty)) st))"

section \<open>Purging and cleaning\<close>

definition ws_llc_mpx_data_purge_request :: "llc_env \<Rightarrow> u8 \<Rightarrow> u16 \<Rightarrow> llc_data_base_t \<Rightarrow> u8 option \<times> llc_data_base_t" where
  "ws_llc_mpx_data_purge_request env handle user_id st =
     (case llc_message_discover_mpx_user_id handle user_id (llc_message_list st) of
        None \<Rightarrow> (None, st)
      | Some i \<Rightarrow>
          let h = msg_handle (llc_message_list st ! i);
              st = event (Mac_purge h) st;
              status = purge_status env h
          in (Some status, if status = 0 then llc_message_free i st else st))"

definition ws_llc_mpx_eui64_purge_request :: "bytes \<Rightarrow> llc_data_base_t \<Rightarrow> llc_data_base_t" where
  "ws_llc_mpx_eui64_purge_request eui64 st =
     st\<lparr>temp_entries := ws_llc_release_eapol_temp_entry (temp_entries st) eui64\<rparr>"

definition ws_llc_mpx_data_cb_register :: "u16 \<Rightarrow> bool \<Rightarrow> bool \<Rightarrow> llc_data_base_t \<Rightarrow> bool \<times> llc_data_base_t" where
  "ws_llc_mpx_data_cb_register user_id confirm_set ind_set st =
     (case ws_llc_mpx_user_discover user_id st of
        None \<Rightarrow> (False, st)
      | Some _ \<Rightarrow> (True, st\<lparr>mpx_user_table :=
          map (\<lambda>(u, cb). if u = user_id then (u, confirm_set, ind_set) else (u, cb)) (mpx_user_table st)\<rparr>))"

definition wc_llc_mpx_priority_set_request :: "bool \<Rightarrow> llc_data_base_t \<Rightarrow> llc_data_base_t" where
  "wc_llc_mpx_priority_set_request enable_mode st = st\<lparr>high_priority_mode := enable_mode\<rparr>"

definition params_zero :: llc_ie_params_t where
  "params_zero = \<lparr>network_name_length = 0, vendor_payload_length = 0, vendor_header_length = 0,
     gtkhash_length = 0, pan_congiguration = None, hopping_schedule = None, gtkhash = None,
     network_name = [], vendor_header_data = [], vendor_payload = []\<rparr>"

definition llc_clean_step :: "llc_message_t \<Rightarrow> llc_data_base_t \<Rightarrow> llc_data_base_t" where
  "llc_clean_step m st = event (Mac_purge (msg_handle m)) (llc_message_free 0 st)"

definition ws_llc_clean :: "llc_data_base_t \<Rightarrow> llc_data_base_t" where
  "ws_llc_clean st =
     (fold llc_clean_step (llc_message_list st) st)\<lparr>llc_eap_pending_list := [], llc_eap_pending_list_size := 0,
        active_eapol_session := False, ie_params := params_zero,
        temp_entries := ws_llc_temp_neigh_info_table_reset (temp_entries st), high_priority_mode := False\<rparr>"

text \<open>\<open>ws_llc_create\<close> on an interface without a data base; \<open>asynch\<close> is whether a confirm callback is given.\<close>

definition ws_llc_base_allocate :: "bool \<Rightarrow> llc_data_base_t" where
  "ws_llc_base_allocate asynch = \<lparr>mac_handle_base = 0, llc_message_list_size = 0, edfe_rx_wait_timer = 0,
     mpx_id = 0, mpx_user_table = [(LOWPAN_USER, False, False), (KMP_USER, False, False)],
     llc_message_list = [], ie_params = params_zero,
     temp_entries = ws_llc_temp_neigh_info_table_reset temp_entries_zero, llc_eap_pending_list = [],
     llc_eap_pending_list_size = 0, active_eapol_session = False, high_priority_mode = False,
     asynch_confirm_set = asynch, last_sent_async_frame_type = 0xFF, test_skip_first_init_response = False,
     test_drop_data_message = 0, llc_log = []\<rparr>"

section \<open>Asynchronous messages\<close>

text \<open>The result is the returned value, \<open>-1\<close> as false.\<close>

definition ws_llc_asynch_request ::
    "llc_env \<Rightarrow> 3 word \<Rightarrow> wh_ie_sub_list_t \<Rightarrow> wp_nested_ie_sub_list_t \<Rightarrow> llc_data_base_t
     \<Rightarrow> (bool \<times> llc_data_base_t) option" where
  "ws_llc_asynch_request env ty wh wp st =
     (case hopping_schedule (ie_params st) of
        None \<Rightarrow> Some (False, st)
      | Some hs \<Rightarrow>
          let confirm = (\<lambda>st. if asynch_confirm_set st then event (Asynch_confirm (ucast ty)) st else st) in
          if timac env
          then if pan_version_ie wp \<and> pan_congiguration (ie_params st) = None then None
            else if last_sent_async_frame_type st = 0xFF
            then let st = event (Mac_asynch_req ty) (st\<lparr>last_sent_async_frame_type := ucast ty\<rparr>) in
              Some (True, if mac_asynch_accepts env ty \<noteq> MLME_SUCCESS then confirm st else st)
            else Some (True, confirm st)
          else if high_priority_mode st then Some (False, st)
          else if \<not> llc_message_allocate env st then Some (True, confirm st)
          else case asynch_frame (env_codec env) (ie_params st) hs (ucast ty) wh wp of
            None \<Rightarrow> None
          | Some f \<Rightarrow>
              (case llc_message_id_allocate (new_message ty 0 0 f []) False st of
                 None \<Rightarrow> None
               | Some (m, st) \<Rightarrow>
                   let st = llc_message_add m st;
                       req = \<lparr>rq_handle = msg_handle m, rq_tx_ack = False, rq_dst_mode = 0, rq_src_mode = 3,
                         rq_dst_addr = replicate 8 0, rq_dst_pan = 0, rq_edfe = False,
                         rq_pan_suppressed = (ty = 1), rq_seq_suppressed = True, rq_msdu = []\<rparr>
                   in Some (True, event (Mac_data_req req m (if frame_payload f = [] then 0 else 1)) st)))"

section \<open>Extended frame exchange\<close>

datatype edfe_status = MCPS_EDFE_NORMAL_FRAME | MCPS_EDFE_TX_FRAME | MCPS_EDFE_FINAL_FRAME_TX
  | MCPS_EDFE_FINAL_FRAME_RX | MCPS_EDFE_RESPONSE_FRAME | MCPS_EDFE_MALFORMED_FRAME

text \<open>
  \<open>handle\<close> is the message handle when \<open>use_message_handle_to_discover\<close> is set, \<open>rsl\<close> the level of the
  received frame. The result is the status and the header elements of the answer.
\<close>

definition ws_llc_mcps_edfe_handler ::
    "llc_env \<Rightarrow> bytes \<Rightarrow> u8 option \<Rightarrow> u8 \<Rightarrow> llc_data_base_t \<Rightarrow> (edfe_status \<times> bytes \<times> llc_data_base_t) option" where
  "ws_llc_mcps_edfe_handler env header_ies handle rsl st =
     (case ws_wh_fc_read (env_codec env) header_ies 0 (word_of_nat (length header_ies)) of
        None \<Rightarrow> None
      | Some None \<Rightarrow> Some (MCPS_EDFE_NORMAL_FRAME, [], st)
      | Some (Some fc) \<Rightarrow>
          Some (
          if tx_flow_ctrl fc = 0 \<and> rx_flow_ctrl fc \<noteq> 0
          then case (case handle of None \<Rightarrow> None
                     | Some h \<Rightarrow> llc_message_discover_by_mac_handle h (llc_message_list st)) of
                 None \<Rightarrow>
                   if test_drop_data_message st \<noteq> 0
                   then (MCPS_EDFE_MALFORMED_FRAME, [],
                         st\<lparr>test_drop_data_message := test_drop_data_message st - 1,
                            edfe_rx_wait_timer := edfe_rx_wait_timer st + 99\<rparr>)
                   else (MCPS_EDFE_FINAL_FRAME_TX,
                         ws_llc_build_edfe_response (env_codec env) (fc\<lparr>rx_flow_ctrl := 0\<rparr>) rsl,
                         st\<lparr>edfe_rx_wait_timer := 0\<rparr>)
               | Some i \<Rightarrow>
                   if test_skip_first_init_response st
                   then (MCPS_EDFE_FINAL_FRAME_RX, [], st\<lparr>test_skip_first_init_response := False\<rparr>)
                   else let m = llc_message_list st ! i;
                            h = ws_llc_build_edfe_frame (env_codec env) (ie_header m)
                        in (MCPS_EDFE_TX_FRAME, h,
                            st\<lparr>llc_message_list := (llc_message_list st)[i := m\<lparr>ie_header := h\<rparr>]\<rparr>)
          else if tx_flow_ctrl fc = 0 \<and> rx_flow_ctrl fc = 0
          then (MCPS_EDFE_FINAL_FRAME_RX, [], st\<lparr>edfe_rx_wait_timer := 0\<rparr>)
          else if tx_flow_ctrl fc \<noteq> 0 \<and> rx_flow_ctrl fc \<noteq> 0
          then (MCPS_EDFE_RESPONSE_FRAME,
                ws_llc_build_edfe_response (env_codec env) \<lparr>tx_flow_ctrl = 0, rx_flow_ctrl = 255\<rparr> rsl,
                st\<lparr>edfe_rx_wait_timer := ucast (tx_flow_ctrl fc) + 99\<rparr>)
          else (MCPS_EDFE_NORMAL_FRAME, [], st)))"

definition ws_llc_fast_timer :: "u16 \<Rightarrow> llc_data_base_t \<Rightarrow> llc_data_base_t" where
  "ws_llc_fast_timer ticks st =
     (if edfe_rx_wait_timer st = 0 then st
      else let ticks = (if 655 < ticks then 0xffff else if ticks = 0 then 1 else ticks * 100) in
        if ticks < edfe_rx_wait_timer st then st\<lparr>edfe_rx_wait_timer := edfe_rx_wait_timer st - ticks\<rparr>
        else event Edfe_force_stop (st\<lparr>edfe_rx_wait_timer := 0\<rparr>))"

section \<open>Configuration\<close>

definition ws_llc_set_vendor_header_data :: "bytes \<Rightarrow> u8 \<Rightarrow> llc_ie_params_t \<Rightarrow> llc_ie_params_t" where
  "ws_llc_set_vendor_header_data data len p = p\<lparr>vendor_header_data := data, vendor_header_length := len\<rparr>"

definition ws_llc_set_vendor_payload_data :: "bytes \<Rightarrow> u8 \<Rightarrow> llc_ie_params_t \<Rightarrow> llc_ie_params_t" where
  "ws_llc_set_vendor_payload_data data len p = p\<lparr>vendor_payload := data, vendor_payload_length := ucast len\<rparr>"

definition ws_llc_set_network_name :: "bytes \<Rightarrow> u8 \<Rightarrow> llc_ie_params_t \<Rightarrow> llc_ie_params_t" where
  "ws_llc_set_network_name name len p = p\<lparr>network_name := name, network_name_length := ucast len\<rparr>"

definition ws_llc_set_gtkhash :: "bytes option \<Rightarrow> llc_ie_params_t \<Rightarrow> llc_ie_params_t" where
  "ws_llc_set_gtkhash h p = p\<lparr>gtkhash := h, gtkhash_length := (if h \<noteq> None then 32 else 0)\<rparr>"

definition ws_llc_set_pan_information_pointer :: "ws_pan_information_t option \<Rightarrow> llc_ie_params_t \<Rightarrow> llc_ie_params_t" where
  "ws_llc_set_pan_information_pointer pan p = p\<lparr>pan_congiguration := pan\<rparr>"

definition ws_llc_hopping_schedule_config :: "hopping_wire option \<Rightarrow> llc_ie_params_t \<Rightarrow> llc_ie_params_t" where
  "ws_llc_hopping_schedule_config hs p = p\<lparr>hopping_schedule := hs\<rparr>"

section \<open>Operations\<close>

text \<open>\<open>Op_temporary\<close> is what a received frame does to the temporary neighbours (\<open>LlcInd\<close>).\<close>

datatype llc_op =
  Op_request mcps_data_req_t u16 u8 bool "bytes option"
| Op_asynch "3 word" wh_ie_sub_list_t wp_nested_ie_sub_list_t
| Op_confirm mcps_data_conf_t "bytes option"
| Op_purge u8 u16
| Op_eui64_purge bytes
| Op_register u16 bool bool
| Op_priority bool
| Op_clean
| Op_edfe bytes "u8 option" u8
| Op_fast_timer u16
| Op_seconds u16
| Op_configure "llc_ie_params_t \<Rightarrow> llc_ie_params_t"
| Op_temporary temp_entriest_t

fun llc_exec :: "llc_env \<Rightarrow> llc_op \<Rightarrow> llc_data_base_t \<Rightarrow> llc_data_base_t option" where
  "llc_exec env (Op_request data user prio relay auth) st = ws_llc_mpx_data_request env data user prio relay auth st"
| "llc_exec env (Op_asynch ty wh wp) st = map_option snd (ws_llc_asynch_request env ty wh wp st)"
| "llc_exec env (Op_confirm conf ies) st = ws_llc_mac_confirm_cb env conf ies st"
| "llc_exec env (Op_purge handle user) st = Some (snd (ws_llc_mpx_data_purge_request env handle user st))"
| "llc_exec env (Op_eui64_purge mac) st = Some (ws_llc_mpx_eui64_purge_request mac st)"
| "llc_exec env (Op_register user c i) st = Some (snd (ws_llc_mpx_data_cb_register user c i st))"
| "llc_exec env (Op_priority b) st = Some (wc_llc_mpx_priority_set_request b st)"
| "llc_exec env Op_clean st = Some (ws_llc_clean st)"
| "llc_exec env (Op_edfe ies h rsl) st = map_option (snd \<circ> snd) (ws_llc_mcps_edfe_handler env ies h rsl st)"
| "llc_exec env (Op_fast_timer t) st = Some (ws_llc_fast_timer t st)"
| "llc_exec env (Op_seconds s) st = Some (st\<lparr>temp_entries := ws_llc_timer_seconds s (temp_entries st)\<rparr>)"
| "llc_exec env (Op_configure f) st = Some (st\<lparr>ie_params := f (ie_params st)\<rparr>)"
| "llc_exec env (Op_temporary t) st = Some (st\<lparr>temp_entries := t\<rparr>)"

text \<open>
  The states the data base goes through; \<open>ok\<close> restricts the environments and operations.
\<close>

inductive llc_reach :: "(llc_env \<Rightarrow> llc_op \<Rightarrow> bool) \<Rightarrow> llc_data_base_t \<Rightarrow> bool" for ok where
  create: "llc_reach ok (ws_llc_base_allocate asynch)"
| step: "llc_reach ok st \<Longrightarrow> ok env op \<Longrightarrow> llc_exec env op st = Some st' \<Longrightarrow> llc_reach ok st'"

end
