(* ===== verification/LlcInd.thy ===== *)
theory LlcInd
  imports Llc WsNodeReach "HOL-Library.Monad_Syntax"
begin

text \<open>
  The frames that the MAC hands to the Wi-SUN data service (the indication handlers of
  \<open>6LoWPAN/ws/ws_llc_data_service.c\<close> and the checks of \<open>6LoWPAN/ws/ws_bootstrap.c\<close> they use). They work
  on the node with its neighbour tables (\<open>WsNode\<close>) and on the data base of the service (\<open>Llc\<close>) at once:
  the sender is a neighbour, becomes one, or has a temporary entry, and what the frame says of its
  schedule goes to that entry before the payload goes to the user.
\<close>

section \<open>Data\<close>

text \<open>A pointer to the schedule of the sender: the entry of a neighbour, or a temporary one.\<close>

datatype ws_ref = Registered u8 | Temporary nat

datatype llc_ind_event =
  Data_ind u16 nat u16 u8
| Asynch_ind u8 nat u16
| Fhss_set_parent bytes bc_timing_info_t
| Border_router_addr_write bytes
| Eapol_parent_synch ws_ref
| Timac_set_pan_id u16

record mcps_data_ind_t =
  in_src_mode :: "2 word"
  in_dst_mode :: "2 word"
  in_src_addr :: bytes
  in_src_pan :: u16
  in_dsn :: u8
  in_dsn_suppressed :: bool
  in_timestamp :: u32
  in_signal_dbm :: "8 word"
  in_link_quality :: u8
  in_security_level :: u8

text \<open>
  \<open>own\<close> and \<open>own_wire\<close> are the two views of the node's hopping schedule, \<open>domain_of\<close> the number of a
  regulatory domain; \<open>auth_mbedtls\<close> and \<open>auth_none\<close> are two values of \<open>ti_wisun_config.auth_type\<close>; \<open>vp_stack\<close> is what
  the uninitialised structure of the vendor payload holds.
\<close>

record ind_env =
  node_env :: ws_env
  base_env :: llc_env
  own :: ws_hopping_schedule_t
  own_wire :: hopping_wire
  domain_of :: "u8 \<Rightarrow> reg_domain_e"
  read_32_bit :: "u8 \<Rightarrow> u8 \<Rightarrow> u8 \<Rightarrow> u8 \<Rightarrow> u32"
  auth_mbedtls :: bool
  auth_none :: bool
  min_sens_config :: u8
  asynch_ind_set :: bool
  vp_stack :: vp_wire

record ind_state =
  node :: ws_node
  base :: llc_data_base_t
  mac_pan_id :: u16
  network_pan_id :: u16
  device_min_sens :: u8
  ind_log :: "llc_ind_event list"

definition ind_event :: "llc_ind_event \<Rightarrow> ind_state \<Rightarrow> ind_state" where
  "ind_event e s = s\<lparr>ind_log := ind_log s @ [e]\<rparr>"

definition temps_upd :: "(temp_entriest_t \<Rightarrow> temp_entriest_t) \<Rightarrow> ind_state \<Rightarrow> ind_state" where
  "temps_upd f s = s\<lparr>base := (base s)\<lparr>temp_entries := f (temp_entries (base s))\<rparr>\<rparr>"

text \<open>The entry behind the pointer. \<open>ws_neighbor_zero\<close> stands for a read behind the table.\<close>

definition ws_at :: "ind_state \<Rightarrow> ws_ref \<Rightarrow> ws_neighbor_class_entry_t" where
  "ws_at s r =
     (case r of
        Registered i \<Rightarrow>
          (case ws_neighbor_class_entry_get (neighbor_storage (node s)) i of
             Some e \<Rightarrow> e
           | None \<Rightarrow> ws_neighbor_zero)
      | Temporary k \<Rightarrow> neigh_info (neighbour_temporary_table (temp_entries (base s)) ! k))"

definition ws_put :: "ws_ref \<Rightarrow> ws_neighbor_class_entry_t \<Rightarrow> ind_state \<Rightarrow> ind_state" where
  "ws_put r e s =
     (case r of
        Registered i \<Rightarrow> s\<lparr>node := (node s)\<lparr>neighbor_storage := ws_entry_write i e (neighbor_storage (node s))\<rparr>\<rparr>
      | Temporary k \<Rightarrow> temps_upd (temp_update k (\<lambda>t. t\<lparr>neigh_info := e\<rparr>)) s)"

section \<open>Elements of a frame\<close>

definition channel_function_of :: "3 word \<Rightarrow> ws_channel_functions_e" where
  "channel_function_of f =
     (if f = 0 then WS_FIXED_CHANNEL else if f = 1 then WS_TR51CF else if f = 2 then WS_DH1CF else WS_VENDOR_DEF_CF)"

definition us_ie_of :: "ind_env \<Rightarrow> bytes \<Rightarrow> us_wire \<Rightarrow> ws_us_ie_t" where
  "us_ie_of env buf us = \<lparr>
     us_dwell_interval = us_dwell us,
     us_channel_plan = us_plan_id us,
     us_channel_function = channel_function_of (us_function_id us),
     us_excluded_channel_ctrl = us_excluded_ctrl us,
     plan_zero_regulator_domain = (case us_plan us of Plan_zero d c \<Rightarrow> domain_of env d | _ \<Rightarrow> REG_DOMAIN_OTHER),
     plan_zero_operation_class = (case us_plan us of Plan_zero d c \<Rightarrow> c | _ \<Rightarrow> 0),
     plan_one_number_of_channel = (case us_plan us of Plan_one f sp n \<Rightarrow> n | _ \<Rightarrow> 0),
     us_fixed_channel = (case us_function us of Function_zero ch \<Rightarrow> ch | _ \<Rightarrow> 0),
     number_of_range = (case us_excluded us of Excluded_range n p \<Rightarrow> n | _ \<Rightarrow> 0),
     range_bytes = (case us_excluded us of Excluded_range n p \<Rightarrow> drop p buf | _ \<Rightarrow> []),
     mask_len_inline = (case us_excluded us of Excluded_mask p n \<Rightarrow> n | _ \<Rightarrow> 0),
     mask_bytes = (case us_excluded us of Excluded_mask p n \<Rightarrow> drop p buf | _ \<Rightarrow> [])\<rparr>"

definition bs_ie_of :: "bs_wire \<Rightarrow> ws_bs_ie_t" where
  "bs_ie_of bs = \<lparr>
     bs_broadcast_interval = bs_interval bs,
     bs_schedule_identifier = bs_identifier bs,
     bs_dwell_interval = bs_dwell bs,
     bs_channel_function = channel_function_of (bs_function_id bs),
     bs_fixed_channel = (case bs_function bs of Function_zero ch \<Rightarrow> ch | _ \<Rightarrow> 0)\<rparr>"

text \<open>
  The checks of the bootstrap. Outside of the TI MAC the comparison of plan one ends without a value
  when everything agrees, which is \<open>None\<close> here.
\<close>

definition ws_channel_plan_zero_compare :: "bool \<Rightarrow> u8 \<Rightarrow> u8 \<Rightarrow> hopping_wire \<Rightarrow> bool" where
  "ws_channel_plan_zero_compare ti domain op_class hs \<longleftrightarrow>
     ti \<or> op_class = hw_operating_class hs \<and> domain = hw_regulatory_domain hs"

definition ws_channel_plan_one_compare :: "bool \<Rightarrow> u32 \<Rightarrow> 4 word \<Rightarrow> u16 \<Rightarrow> hopping_wire \<Rightarrow> bool option" where
  "ws_channel_plan_one_compare ti ch0 spacing n hs =
     (if ti then Some True
      else if ch0 \<noteq> hw_ch0_freq hs then Some False
      else if ucast spacing \<noteq> hw_channel_spacing hs then Some False
      else if n \<noteq> ucast (hw_number_of_channels hs) then Some False
      else None)"

definition ws_bootstrap_validate_channel_plan :: "bool \<Rightarrow> us_wire \<Rightarrow> hopping_wire \<Rightarrow> bool option" where
  "ws_bootstrap_validate_channel_plan ti us hs =
     (if ti then Some True
      else case us_plan us of
        Plan_zero d c \<Rightarrow> Some (ws_channel_plan_zero_compare ti d c hs)
      | Plan_one f sp n \<Rightarrow> ws_channel_plan_one_compare ti f sp n hs)"

definition ws_bootstrap_validate_channel_function :: "bool \<Rightarrow> 3 word option \<Rightarrow> 3 word option \<Rightarrow> bool" where
  "ws_bootstrap_validate_channel_function ti us bs \<longleftrightarrow>
     ti \<or> (us \<in> {None, Some 0, Some 1, Some 2} \<and> bs \<in> {None, Some 0, Some 1, Some 2})"

definition ws_bootstrap_configure_network_panid :: "bool \<Rightarrow> u16 \<Rightarrow> ind_state \<Rightarrow> ind_state" where
  "ws_bootstrap_configure_network_panid ti panid s =
     (let s = s\<lparr>network_pan_id := panid\<rparr> in
      if ti then (ind_event (Timac_set_pan_id panid) s)\<lparr>mac_pan_id := panid\<rparr> else s)"

section \<open>What the handlers of data and EAPOL frames share\<close>

text \<open>The two lists of information elements of a frame.\<close>

record ie_list =
  header_ies :: bytes
  payload_ies :: bytes

definition ws_llc_mpx_frame_common_validates :: "ind_env \<Rightarrow> mcps_data_ind_t \<Rightarrow> u8 \<Rightarrow> ind_state \<Rightarrow> bool" where
  "ws_llc_mpx_frame_common_validates env data ty s \<longleftrightarrow>
     \<not> (auth_mbedtls env \<and> gtkhash (ie_params (base s)) = None \<and> ty = 4) \<and> in_src_mode data = 3 \<and>
     (mac_pan_id s = 0xffff \<or> in_src_pan data = mac_pan_id s)"

text \<open>The result is the user of a full frame with the place and the length of its payload.\<close>

definition ws_llc_mpx_header_parse :: "ind_env \<Rightarrow> ie_list \<Rightarrow> ind_state \<Rightarrow> (u16 \<times> nat \<times> u16) option option" where
  "ws_llc_mpx_header_parse env ies s =
     (let c = env_codec (base_env env); buf = payload_ies ies in
      do {
        (n, ie) \<leftarrow> mac_ie_payload_discover c buf 0 (word_of_nat (length buf)) (mpx_group_id (base_env env));
        if n < 1 then Some None
        else do {
          mpx_ie \<leftarrow> ie;
          frame \<leftarrow> ws_llc_mpx_header_frame_parse c buf (content_ptr mpx_ie) (ie_length mpx_ie);
          Some (case frame of
                  None \<Rightarrow> None
                | Some f \<Rightarrow>
                    if transfer_type f \<noteq> 0 then None
                    else (case ws_llc_mpx_user_discover (multiplex_id f) (base s) of
                            None \<Rightarrow> None
                          | Some (user, confirm_set, ind_set) \<Rightarrow>
                              if \<not> ind_set then None else Some (user, frame_ptr f, frame_length f)))
        }
      })"

text \<open>The nested elements of the Wi-SUN payload element, when it has more than two bytes; the vendor payload is
  only looked for in data frames.\<close>

definition ws_nested_elements ::
    "ind_env \<Rightarrow> bool \<Rightarrow> ie_list \<Rightarrow> (us_wire option \<times> bs_wire option \<times> vp_wire option) option" where
  "ws_nested_elements env vendor ies =
     (let c = env_codec (base_env env); buf = payload_ies ies in
      do {
        (n, ie) \<leftarrow> mac_ie_payload_discover c buf 0 (word_of_nat (length buf)) 4;
        if n \<le> 2 then Some (None, None, None)
        else do {
          nested \<leftarrow> ie;
          us \<leftarrow> ws_wp_nested_us_read c buf (content_ptr nested) (ie_length nested);
          bs \<leftarrow> ws_wp_nested_bs_read c buf (content_ptr nested) (ie_length nested);
          vp \<leftarrow> (if vendor then ws_wp_nested_vp_read c buf (content_ptr nested) (ie_length nested) (vp_stack env)
                else Some None);
          Some (us, bs, vp)
        }
      })"

text \<open>The checks of the schedule elements.\<close>

definition schedules_valid :: "ind_env \<Rightarrow> us_wire option \<Rightarrow> bs_wire option \<Rightarrow> bool option" where
  "schedules_valid env us bs =
     do {
       us_ok \<leftarrow> (case us of
                  None \<Rightarrow> Some True
                | Some u \<Rightarrow> do {
                    plan \<leftarrow> ws_bootstrap_validate_channel_plan (timac (base_env env)) u (own_wire env);
                    Some (plan \<and> ws_bootstrap_validate_channel_function (timac (base_env env)) (Some (us_function_id u)) None)
                  });
       Some (us_ok \<and>
         (bs = None \<or> ws_bootstrap_validate_channel_function (timac (base_env env)) None (map_option bs_function_id bs)))
     }"

text \<open>
  What the time and schedule elements change in the sender's entry; \<open>None\<close> is an access outside of the
  channel lists or the elements.
\<close>

definition sender_unicast :: "ind_env \<Rightarrow> mcps_data_ind_t \<Rightarrow> ie_list \<Rightarrow> utt_wire \<Rightarrow> us_wire option \<Rightarrow> bs_wire option
    \<Rightarrow> ws_neighbor_class_entry_t \<Rightarrow> ws_neighbor_class_entry_t option" where
  "sender_unicast env data ies utt us bs e =
     do {
       let e = ws_neighbor_class_neighbor_unicast_time_info_update
                 \<lparr>message_type = uw_message_type utt, ufsi = uw_ufsi utt\<rparr> (in_timestamp data) e;
       e \<leftarrow> (case us of
              None \<Rightarrow> Some e
            | Some u \<Rightarrow> ws_neighbor_class_neighbor_unicast_schedule_set
                (\<lambda>x y. read_16_inv (env_codec (base_env env)) [x, y]) (read_32_bit env)
                (us_ie_of env (payload_ies ies) u) (own env) e);
       Some (case bs of
               None \<Rightarrow> e
             | Some b \<Rightarrow> ws_neighbor_class_neighbor_broadcast_schedule_set (bs_ie_of b) e)
     }"

definition bt_update :: "mcps_data_ind_t \<Rightarrow> bt_wire \<Rightarrow> ws_neighbor_class_entry_t \<Rightarrow> ws_neighbor_class_entry_t" where
  "bt_update data bt = ws_neighbor_class_neighbor_broadcast_time_info_update
     \<lparr>bt_slot_number = bw_slot_number bt, bt_interval_offset = bw_interval_offset bt\<rparr> (in_timestamp data)"

definition ws_read_bt :: "ind_env \<Rightarrow> ie_list \<Rightarrow> bt_wire option option" where
  "ws_read_bt env ies =
     ws_wh_bt_read (env_codec (base_env env)) (header_ies ies) 0 (word_of_nat (length (header_ies ies)))"

text \<open>The signal of a frame is kept in a new temporary entry.\<close>

definition temp_signal :: "mcps_data_ind_t \<Rightarrow> ws_neighbor_temp_class_t \<Rightarrow> ws_neighbor_temp_class_t" where
  "temp_signal data t = t\<lparr>temp_mpduLinkQuality := in_link_quality data, temp_signal_dbm := in_signal_dbm data\<rparr>"

section \<open>Data frames\<close>

definition data_vendor :: "ind_env \<Rightarrow> vp_wire option \<Rightarrow> ind_state \<Rightarrow> ind_state" where
  "data_vendor env vp s =
     (case vp of
        None \<Rightarrow> s
      | Some v \<Rightarrow> if \<not> border_router (node_env env) \<and> vp_vendor_id v = 36
          then ws_bootstrap_configure_network_panid (timac (base_env env)) (vp_network_pan_id v) s else s)"

definition release_sender :: "mcps_data_ind_t \<Rightarrow> ind_state \<Rightarrow> ind_state" where
  "release_sender data s = temps_upd (\<lambda>t. ws_llc_release_eapol_temp_entry t (in_src_addr data)) s"

text \<open>
  The neighbour information of a data frame: the pointer to the neighbour, if any, and to the schedule.
  The result without a pointer is a frame that is dropped.
\<close>

definition data_sender ::
    "ind_env \<Rightarrow> mcps_data_ind_t \<Rightarrow> bool \<Rightarrow> ind_state \<Rightarrow> ((u8 option \<times> ws_ref) option \<times> ind_state) option" where
  "data_sender env data us_inline s =
     (let multicast = in_dst_mode data \<noteq> 3;
          ((found, nb), n) = ws_bootstrap_neighbor_info_request (node_env env) (in_src_addr data)
            (\<not> multicast \<and> us_inline) (node s);
          s = s\<lparr>node := n\<rparr>
      in if found then (case nb of None \<Rightarrow> None | Some i \<Rightarrow> Some (Some (nb, Registered i), s))
         else if \<not> multicast then Some (None, s)
         else case ws_allocate_multicast_temp_entry (temp_entries (base s)) (in_src_addr data) of
                None \<Rightarrow> None
              | Some (k, tbl) \<Rightarrow>
                  Some (Some (nb, Temporary k), temps_upd (\<lambda>_. temp_update k (temp_signal data) tbl) s))"

definition role_of :: "ind_state \<Rightarrow> u8 \<Rightarrow> 2 word" where
  "role_of s i = link_role (nbr_at (node s) i)"

text \<open>The rest of the handler, for a frame that is not dropped, in four parts.\<close>

definition data_timing :: "mcps_data_ind_t \<Rightarrow> bt_wire option \<Rightarrow> u8 option \<Rightarrow> ws_ref
    \<Rightarrow> ws_neighbor_class_entry_t \<Rightarrow> ind_state \<Rightarrow> ind_state" where
  "data_timing data bt nb r e s =
     (case bt of
        None \<Rightarrow> ws_put r e s
      | Some b \<Rightarrow>
          let e = bt_update data b e; s = ws_put r e s in
          (case nb of
             Some i \<Rightarrow> if role_of s i = PRIORITY_PARENT_NEIGHBOUR
               then ind_event (Fhss_set_parent (mac64 (nbr_at (node s) i)) (bc_timing_info e)) s else s
           | None \<Rightarrow> s))"

definition data_heard :: "mcps_data_ind_t \<Rightarrow> ws_ref \<Rightarrow> ind_state \<Rightarrow> ind_state" where
  "data_heard data r s =
     (if in_dst_mode data = 3 then ws_put r ((ws_at s r)\<lparr>unicast_data_rx := True\<rparr>) s else s)"

definition data_signal :: "ind_env \<Rightarrow> mcps_data_ind_t \<Rightarrow> ws_ref \<Rightarrow> ind_state \<Rightarrow> ind_state" where
  "data_signal env data r s =
     (let sens = ws_neighbor_class_rf_sensitivity_calculate (min_sens_config env) (in_signal_dbm data) (device_min_sens s)
      in ws_put r (ws_neighbor_class_rsl_in_calculate sens (in_signal_dbm data) (ws_at s r)) (s\<lparr>device_min_sens := sens\<rparr>))"

definition data_trust :: "ind_env \<Rightarrow> mcps_data_ind_t \<Rightarrow> u8 option \<Rightarrow> ind_state \<Rightarrow> ind_state" where
  "data_trust env data nb s =
     (case nb of
        None \<Rightarrow> s
      | Some i \<Rightarrow> if in_security_level data \<noteq> 0 \<or> auth_none env
          then s\<lparr>node := (node s)\<lparr>nbr_table := mac_neighbor_table_trusted_neighbor i True (nbr_table (node s))\<rparr>\<rparr>
          else s)"

definition data_accepted ::
    "ind_env \<Rightarrow> mcps_data_ind_t \<Rightarrow> ie_list \<Rightarrow> utt_wire \<Rightarrow> us_wire option \<Rightarrow> bs_wire option \<Rightarrow> u16 \<times> nat \<times> u16
     \<Rightarrow> u8 option \<Rightarrow> ws_ref \<Rightarrow> ind_state \<Rightarrow> ind_state option" where
  "data_accepted env data ies utt us bs user nb r s =
     do {
       e \<leftarrow> sender_unicast env data ies utt us bs (ws_at s r);
       bt \<leftarrow> ws_read_bt env ies;
       let s = data_trust env data nb (data_signal env data r (data_heard data r (data_timing data bt nb r e s)));
       Some (ind_event (Data_ind (fst user) (fst (snd user)) (snd (snd user))
         (if nb = None then 0 else in_security_level data)) s)
     }"

definition ws_llc_data_indication_cb ::
    "ind_env \<Rightarrow> mcps_data_ind_t \<Rightarrow> ie_list \<Rightarrow> utt_wire \<Rightarrow> ind_state \<Rightarrow> ind_state option" where
  "ws_llc_data_indication_cb env data ies utt s =
     (if \<not> ws_llc_mpx_frame_common_validates env data (uw_message_type utt) s then Some s
      else do {
        parsed \<leftarrow> ws_llc_mpx_header_parse env ies s;
        (case parsed of
           None \<Rightarrow> Some s
         | Some user \<Rightarrow> do {
             (us, bs, vp) \<leftarrow> ws_nested_elements env True ies;
             valid \<leftarrow> schedules_valid env us bs;
             if \<not> valid then Some s
             else do {
               let s = data_vendor env vp s;
               let s = (if in_security_level data \<noteq> 0 then release_sender data s else s);
               (sender, s) \<leftarrow> data_sender env data (us \<noteq> None) s;
               (case sender of
                  None \<Rightarrow> Some s
                | Some (nb, r) \<Rightarrow>
                    let (fresh, e) = ws_neighbor_class_neighbor_duplicate_packet_check (in_dsn data) (in_timestamp data) (ws_at s r) in
                    if in_dst_mode data = 3 \<and> \<not> in_dsn_suppressed data
                    then if \<not> fresh then Some (ws_put r e s)
                         else data_accepted env data ies utt us bs user nb r (ws_put r e s)
                    else data_accepted env data ies utt us bs user nb r s)
             }
           })
      })"

section \<open>EAPOL frames\<close>

definition eapol_sender ::
    "ind_env \<Rightarrow> mcps_data_ind_t \<Rightarrow> ind_state \<Rightarrow> ((u8 option \<times> ws_ref) option \<times> ind_state) option" where
  "eapol_sender env data s =
     (let ((found, nb), n) = ws_bootstrap_neighbor_info_request (node_env env) (in_src_addr data) False (node s);
          s = s\<lparr>node := n\<rparr>
      in if found then (case nb of None \<Rightarrow> None | Some i \<Rightarrow> Some (Some (nb, Registered i), s))
         else case ws_allocate_eapol_temp_entry (temp_entries (base s)) (in_src_addr data) of
                (None, tbl) \<Rightarrow> Some (None, temps_upd (\<lambda>_. tbl) s)
              | (Some k, tbl) \<Rightarrow>
                  Some (Some (nb, Temporary k), temps_upd (\<lambda>_. temp_update k (\<lambda>t. temp_signal data
                    (t\<lparr>eapol_timeout := temp_eapol_min_timeout (base_env env) + 1\<rparr>)) tbl) s))"

definition ws_llc_eapol_indication_cb ::
    "ind_env \<Rightarrow> mcps_data_ind_t \<Rightarrow> ie_list \<Rightarrow> utt_wire \<Rightarrow> ind_state \<Rightarrow> ind_state option" where
  "ws_llc_eapol_indication_cb env data ies utt s =
     (if \<not> ws_llc_mpx_frame_common_validates env data (uw_message_type utt) s \<or> in_dst_mode data \<noteq> 3 then Some s
      else do {
        parsed \<leftarrow> ws_llc_mpx_header_parse env ies s;
        (case parsed of
           None \<Rightarrow> Some s
         | Some (user, ptr, len) \<Rightarrow> do {
             (us, bs, vp) \<leftarrow> ws_nested_elements env False ies;
             valid \<leftarrow> schedules_valid env us bs;
             if \<not> valid then Some s
             else do {
               (sender, s) \<leftarrow> eapol_sender env data s;
               (case sender of
                  None \<Rightarrow> Some s
                | Some (nb, r) \<Rightarrow> do {
                    e \<leftarrow> sender_unicast env data ies utt us bs (ws_at s r);
                    let s = ws_put r e s;
                    ea \<leftarrow> (if auth_mbedtls env
                           then ws_wh_ea_read (env_codec (base_env env)) (header_ies ies) 0
                                  (word_of_nat (length (header_ies ies)))
                           else Some None);
                    let s = (case ea of None \<Rightarrow> s | Some a \<Rightarrow> ind_event (Border_router_addr_write a) s);
                    bt \<leftarrow> ws_read_bt env ies;
                    let s = (case bt of
                               None \<Rightarrow> s
                             | Some b \<Rightarrow>
                                 let s = ws_put r (bt_update data b e) s in
                                 if nb = None then s else ind_event (Eapol_parent_synch r) s);
                    Some (ind_event (Data_ind user ptr len (in_security_level data)) s)
                  })
             }
           })
      })"

section \<open>Asynchronous frames\<close>

definition ws_llc_asynch_indication ::
    "ind_env \<Rightarrow> mcps_data_ind_t \<Rightarrow> ie_list \<Rightarrow> utt_wire \<Rightarrow> ind_state \<Rightarrow> ind_state option" where
  "ws_llc_asynch_indication env data ies utt s =
     (if \<not> asynch_ind_set env then Some s
      else do {
        (n, ie) \<leftarrow> mac_ie_payload_discover (env_codec (base_env env)) (payload_ies ies) 0
                    (word_of_nat (length (payload_ies ies))) 4;
        if n < 2 then Some s
        else do {
          nested \<leftarrow> ie;
          let s = (if uw_message_type utt \<in> {0, 2, 3}
                   then release_sender data s else s);
          Some (ind_event (Asynch_ind (uw_message_type utt) (content_ptr nested) (ie_length nested)) s)
        }
      })"

definition ws_llc_mac_indication_cb :: "ind_env \<Rightarrow> mcps_data_ind_t \<Rightarrow> ie_list \<Rightarrow> ind_state \<Rightarrow> ind_state option" where
  "ws_llc_mac_indication_cb env data ies s =
     do {
       found \<leftarrow> ws_wh_utt_read (env_codec (base_env env)) (header_ies ies) 0 (word_of_nat (length (header_ies ies)));
       (case found of
          None \<Rightarrow> Some s
        | Some utt \<Rightarrow>
            if uw_message_type utt < 4 then ws_llc_asynch_indication env data ies utt s
            else if uw_message_type utt = 4 then ws_llc_data_indication_cb env data ies utt s
            else if uw_message_type utt = 6 then ws_llc_eapol_indication_cb env data ies utt s
            else Some s)
     }"

end
