(* ===== verification/LlcInv.thy ===== *)
theory LlcInv
  imports Llc
begin

text \<open>
  The queue of the data service: the loops that look for a free handle and a free sequence number end
  because there are never more than sixteen messages, the identifiers in use are distinct, and the
  count of messages is exact.
\<close>

section \<open>Loops over words\<close>

lemma word_add_nat_inj:
  assumes "j < 2 ^ LENGTH('a)" and "k < 2 ^ LENGTH('a)"
    and "(b :: 'a::len word) + word_of_nat j = b + word_of_nat k"
  shows "j = k"
proof -
  have "(word_of_nat j :: 'a word) = word_of_nat k" using assms(3) by simp
  then have "unat (word_of_nat j :: 'a word) = unat (word_of_nat k :: 'a word)" by simp
  then show ?thesis using assms(1,2) by (simp add: unat_of_nat)
qed

lemma free_word_exists:
  fixes b :: "'a::len word"
  assumes "finite B" and "card B < n" and "n \<le> 2 ^ LENGTH('a)"
  shows "\<exists>k<n. b + word_of_nat k \<notin> B"
proof (rule ccontr)
  assume "\<not> ?thesis"
  then have sub: "(\<lambda>k. b + word_of_nat k) ` {..<n} \<subseteq> B" by auto
  have "inj_on (\<lambda>k. b + word_of_nat k) {..<n}"
    using assms(3) by (auto intro!: inj_onI dest!: word_add_nat_inj [of _ _ b, rotated 2])
  then have "card ((\<lambda>k. b + word_of_nat k) ` {..<n}) = n" by (simp add: card_image)
  then show False using card_mono [OF assms(1) sub] assms(2) by simp
qed

lemma first_free_word:
  fixes b :: "'a::len word"
  assumes "finite B" and "card B < 2 ^ LENGTH('a)"
  obtains k where "b + word_of_nat k \<notin> B" "\<forall>j<k. b + word_of_nat j \<in> B"
proof -
  obtain k where "b + word_of_nat k \<notin> B" using free_word_exists [OF assms(1,2)] by blast
  then show ?thesis
    using that [of "LEAST k. b + word_of_nat k \<notin> B"] LeastI [of "\<lambda>k. b + word_of_nat k \<notin> B" k]
      not_less_Least [of _ "\<lambda>k. b + word_of_nat k \<notin> B"] by blast
qed

section \<open>Identifiers in use\<close>

definition is_mpx :: "llc_message_t \<Rightarrow> bool" where
  "is_mpx m \<longleftrightarrow> messsage_type m = WS_FT_DATA \<or> messsage_type m = WS_FT_EAPOL"

definition mpx_ids :: "llc_message_t list \<Rightarrow> (5 word) list" where
  "mpx_ids xs = map message_mpx_id (filter is_mpx xs)"

lemma mac_handle_in_use:
  "llc_message_discover_by_mac_handle h xs \<noteq> None \<longleftrightarrow> h \<in> msg_handle ` set xs"
  by (auto simp: llc_message_discover_by_mac_handle_def find_index_ex image_iff)

lemma ucast_4_5_8: "(ucast (ucast (i :: 4 word) :: 5 word) :: u8) = ucast i"
proof (rule bit_word_eqI)
  fix n
  have "n < 4" if "bit i n" using bit_imp_le_length [OF that] by simp
  then show "bit (ucast (ucast i :: 5 word) :: u8) n = bit (ucast i :: u8) n" by (auto simp: bit_simps)
qed

lemma ucast_5_8_inj: "(ucast (x :: 5 word) :: u8) = ucast y \<longleftrightarrow> x = y"
proof
  assume e: "(ucast x :: u8) = ucast y"
  have "x = ucast (ucast x :: u8)" "y = ucast (ucast y :: u8)"
    by (auto intro!: bit_word_eqI simp: bit_simps)
  then show "x = y" using e by metis
qed simp

lemma mpx_id_in_use:
  "llc_message_discover_by_mpx_id (ucast (i :: 4 word)) xs \<noteq> None \<longleftrightarrow> (ucast i :: 5 word) \<in> set (mpx_ids xs)"
proof -
  have "ucast (message_mpx_id m) = (ucast i :: u8) \<longleftrightarrow> message_mpx_id m = ucast i" for m
    using ucast_5_8_inj [of "message_mpx_id m" "ucast i"] by (simp add: ucast_4_5_8)
  note eq = this
  have "llc_message_discover_by_mpx_id (ucast i) xs \<noteq> None \<longleftrightarrow>
      (\<exists>m\<in>set xs. is_mpx m \<and> message_mpx_id m = (ucast i :: 5 word))"
    unfolding llc_message_discover_by_mpx_id_def not_None_eq find_index_ex eq is_mpx_def by (rule refl)
  also have "\<dots> \<longleftrightarrow> (ucast i :: 5 word) \<in> set (mpx_ids xs)"
    unfolding mpx_ids_def by force
  finally show ?thesis .
qed

lemma mac_handle_loop_finds:
  assumes "length xs < 256"
  shows "\<exists>h. mac_handle_loop xs b = Some h \<and> h \<notin> msg_handle ` set xs"
proof -
  have "card (msg_handle ` set xs) < 2 ^ LENGTH(8)"
    using card_image_le [of "set xs" msg_handle] card_length [of xs] assms by simp
  then obtain k where k: "b + word_of_nat k \<notin> msg_handle ` set xs"
    "\<forall>j<k. b + word_of_nat j \<in> msg_handle ` set xs"
    by (rule first_free_word [OF finite_imageI [OF finite_set]])
  have "mac_handle_loop xs b = Some (b + word_of_nat k)"
    using k
  proof (induction k arbitrary: b)
    case 0
    then show ?case using mac_handle_in_use [of b xs] by (subst mac_handle_loop.simps) simp
  next
    case (Suc k)
    have "b \<in> msg_handle ` set xs" using Suc.prems(2) [rule_format, of 0] by simp
    then have "mac_handle_loop xs b = mac_handle_loop xs (b + 1)"
      using mac_handle_in_use [of b xs] by (subst mac_handle_loop.simps) simp
    also have "\<dots> = Some (b + 1 + word_of_nat k)"
    proof (rule Suc.IH)
      show "b + 1 + word_of_nat k \<notin> msg_handle ` set xs" using Suc.prems(1) by (simp add: ac_simps)
      show "\<forall>j<k. b + 1 + word_of_nat j \<in> msg_handle ` set xs"
      proof (intro allI impI)
        fix j assume "j < k"
        then show "b + 1 + word_of_nat j \<in> msg_handle ` set xs"
          using Suc.prems(2) [rule_format, of "Suc j"] by (simp add: ac_simps)
      qed
    qed
    finally show ?case by (simp add: ac_simps)
  qed
  with k(1) show ?thesis by blast
qed

lemma mpx_id_loop_finds:
  assumes "length xs < 16"
  shows "\<exists>i. mpx_id_loop xs b = Some i \<and> (ucast i :: 5 word) \<notin> set (mpx_ids xs)"
proof -
  let ?B = "{i :: 4 word. (ucast i :: 5 word) \<in> set (mpx_ids xs)}"
  have inj: "inj (ucast :: 4 word \<Rightarrow> 5 word)"
  proof (rule injI)
    fix x y :: "4 word" assume e: "(ucast x :: 5 word) = ucast y"
    have "x = ucast (ucast x :: 5 word)" "y = ucast (ucast y :: 5 word)"
      by (auto intro!: bit_word_eqI simp: bit_simps)
    then show "x = y" using e by metis
  qed
  have "card ((ucast :: 4 word \<Rightarrow> 5 word) ` ?B) \<le> card (set (mpx_ids xs))" by (rule card_mono) auto
  also have "\<dots> \<le> length (mpx_ids xs)" by (rule card_length)
  also have "\<dots> \<le> length xs" by (simp add: mpx_ids_def length_filter_le)
  finally have "card ?B < 2 ^ LENGTH(4)" using assms inj by (simp add: card_image inj_on_subset)
  then obtain k where k: "b + word_of_nat k \<notin> ?B" "\<forall>j<k. b + word_of_nat j \<in> ?B"
    by (rule first_free_word [OF finite_subset [OF subset_UNIV finite]])
  have "mpx_id_loop xs b = Some (b + word_of_nat k)"
    using k
  proof (induction k arbitrary: b)
    case 0
    then show ?case using mpx_id_in_use [of b xs] by (subst mpx_id_loop.simps) simp
  next
    case (Suc k)
    have "b \<in> ?B" using Suc.prems(2) [rule_format, of 0] by simp
    then have "mpx_id_loop xs b = mpx_id_loop xs (b + 1)"
      using mpx_id_in_use [of b xs] by (subst mpx_id_loop.simps) simp
    also have "\<dots> = Some (b + 1 + word_of_nat k)"
    proof (rule Suc.IH)
      show "b + 1 + word_of_nat k \<notin> ?B" using Suc.prems(1) by (simp add: ac_simps)
      show "\<forall>j<k. b + 1 + word_of_nat j \<in> ?B"
      proof (intro allI impI)
        fix j assume "j < k"
        then show "b + 1 + word_of_nat j \<in> ?B"
          using Suc.prems(2) [rule_format, of "Suc j"] by (simp add: ac_simps)
      qed
    qed
    finally show ?case by (simp add: ac_simps)
  qed
  with k(1) show ?thesis by blast
qed

text \<open>When all sixteen sequence numbers are in use the second loop does not end.\<close>

lemma mpx_id_loop_stuck:
  assumes "\<forall>i :: 4 word. (ucast i :: 5 word) \<in> set (mpx_ids xs)"
  shows "mpx_id_loop xs b = None"
proof -
  have "mpx_id_loop xs b = Some r \<Longrightarrow> (ucast r :: 5 word) \<notin> set (mpx_ids xs)" for r
    by (erule mpx_id_loop.raw_induct [rotated]) (auto split: if_splits simp: mpx_id_in_use [symmetric])
  then show ?thesis using assms by (cases "mpx_id_loop xs b") auto
qed

section \<open>The invariant\<close>

definition llc_inv :: "llc_data_base_t \<Rightarrow> bool" where
  "llc_inv st \<longleftrightarrow>
     unat (llc_message_list_size st) = length (llc_message_list st) \<and> length (llc_message_list st) \<le> 16 \<and>
     distinct (map msg_handle (llc_message_list st)) \<and> distinct (mpx_ids (llc_message_list st)) \<and>
     temp_inv (temp_entries st) \<and>
     llc_eap_pending_list_size st = word_of_nat (length (llc_eap_pending_list st)) \<and>
     (\<forall>m\<in>set (llc_eap_pending_list st). messsage_type m = WS_FT_EAPOL)"

lemma event_fields [simp]:
  "mac_handle_base (event e st) = mac_handle_base st"
  "llc_message_list_size (event e st) = llc_message_list_size st"
  "edfe_rx_wait_timer (event e st) = edfe_rx_wait_timer st"
  "mpx_id (event e st) = mpx_id st"
  "mpx_user_table (event e st) = mpx_user_table st"
  "llc_message_list (event e st) = llc_message_list st"
  "ie_params (event e st) = ie_params st"
  "temp_entries (event e st) = temp_entries st"
  "llc_eap_pending_list (event e st) = llc_eap_pending_list st"
  "llc_eap_pending_list_size (event e st) = llc_eap_pending_list_size st"
  "active_eapol_session (event e st) = active_eapol_session st"
  "llc_log (event e st) = llc_log st @ [e]"
  by (simp_all add: event_def)

lemma event_inv [simp]: "llc_inv (event e st) = llc_inv st"
  by (simp add: llc_inv_def)

lemma remove_at_set: "set (remove_at i xs) \<subseteq> set xs"
  by (auto simp: remove_at_def dest: in_set_takeD in_set_dropD)

lemma remove_at_length: "i < length xs \<Longrightarrow> length (remove_at i xs) = length xs - 1"
  by (simp add: remove_at_def)

lemma map_remove_at: "map f (remove_at i xs) = remove_at i (map f xs)"
  by (simp add: remove_at_def take_map drop_map)

lemma distinct_remove_at: "distinct xs \<Longrightarrow> distinct (remove_at i xs)"
proof -
  assume d: "distinct xs"
  have "set (take i xs) \<inter> set (drop (Suc i) xs) = {}"
    using d set_take_disj_set_drop_if_distinct [of xs i "Suc i"] by simp
  then show ?thesis using d by (simp add: remove_at_def)
qed

lemma mpx_ids_append: "mpx_ids (xs @ ys) = mpx_ids xs @ mpx_ids ys"
  by (simp add: mpx_ids_def)

lemma distinct_mpx_remove_at: "distinct (mpx_ids xs) \<Longrightarrow> distinct (mpx_ids (remove_at i xs))"
proof (cases "i < length xs")
  case True
  assume d: "distinct (mpx_ids xs)"
  have "xs = take i xs @ xs ! i # drop (Suc i) xs" using True by (simp add: id_take_nth_drop)
  then have "mpx_ids xs = mpx_ids (take i xs) @ mpx_ids [xs ! i] @ mpx_ids (drop (Suc i) xs)"
    by (metis append_Cons append_Nil mpx_ids_append)
  then show ?thesis using d by (auto simp: remove_at_def mpx_ids_append)
qed (simp add: remove_at_def)

lemma free_inv [inv_intros]:
  assumes inv: "llc_inv st" and i: "i < length (llc_message_list st)"
  shows "llc_inv (llc_message_free i st)" and "length (llc_message_list (llc_message_free i st)) < 16"
proof -
  have n: "unat (llc_message_list_size st) = length (llc_message_list st)" "length (llc_message_list st) \<le> 16"
    using inv by (simp_all add: llc_inv_def)
  then have "1 \<le> llc_message_list_size st" using i by (simp add: word_le_nat_alt)
  then have "unat (llc_message_list_size st - 1) = length (llc_message_list st) - 1"
    using n by (simp add: unat_diff_le)
  then show "llc_inv (llc_message_free i st)"
    using inv i n(2) by (simp add: llc_message_free_def Let_def llc_inv_def remove_at_length map_remove_at
        distinct_remove_at distinct_mpx_remove_at le_diff_conv)
  show "length (llc_message_list (llc_message_free i st)) < 16"
    using n i by (simp add: llc_message_free_def Let_def remove_at_length)
qed

lemma mpx_ids_snoc: "mpx_ids (xs @ [m]) = mpx_ids xs @ (if is_mpx m then [message_mpx_id m] else [])"
  by (simp add: mpx_ids_def)

lemma id_allocate_finds:
  assumes "length (llc_message_list st) < 16"
  obtains h :: u8 and i :: "5 word" and b1 b2 where
    "llc_message_id_allocate m mpx st
       = Some (if mpx then m\<lparr>msg_handle := h, message_mpx_id := i\<rparr> else m\<lparr>msg_handle := h\<rparr>,
               if mpx then st\<lparr>mac_handle_base := b1, mpx_id := b2\<rparr> else st\<lparr>mac_handle_base := b1\<rparr>)"
    "h \<notin> msg_handle ` set (llc_message_list st)"
    "mpx \<Longrightarrow> i \<notin> set (mpx_ids (llc_message_list st))"
proof -
  obtain h where h: "mac_handle_loop (llc_message_list st) (mac_handle_base st) = Some h"
    "h \<notin> msg_handle ` set (llc_message_list st)"
    using mac_handle_loop_finds [of "llc_message_list st"] assms by force
  obtain i where i: "mpx_id_loop (llc_message_list st) (mpx_id st) = Some i"
    "(ucast i :: 5 word) \<notin> set (mpx_ids (llc_message_list st))"
    using mpx_id_loop_finds [OF assms] by blast
  show ?thesis
    by (rule that [where h = h and i = "ucast i" and ?b1.0 = "h + 1" and ?b2.0 = "i + 1"]) (use h i in \<open>simp_all add: llc_message_id_allocate_def\<close>)
qed

text \<open>Appending a message with fresh identifiers.\<close>

lemma append_inv:
  assumes inv: "llc_inv st" and room: "length (llc_message_list st) < 16"
    and h: "msg_handle m \<notin> msg_handle ` set (llc_message_list st)"
    and i: "is_mpx m \<Longrightarrow> message_mpx_id m \<notin> set (mpx_ids (llc_message_list st))"
    and st': "llc_message_list st' = llc_message_list st @ [m]"
      "llc_message_list_size st' = llc_message_list_size st + 1" "temp_entries st' = temp_entries st"
      "llc_eap_pending_list st' = llc_eap_pending_list st"
      "llc_eap_pending_list_size st' = llc_eap_pending_list_size st"
  shows "llc_inv st'"
proof -
  have "unat (llc_message_list_size st + 1) = unat (llc_message_list_size st) + 1"
    using inv room by (simp add: llc_inv_def unat_word_ariths)
  then show ?thesis using inv room h i by (simp add: llc_inv_def st' mpx_ids_snoc)
qed

lemma message_add_inv:
  assumes "llc_inv st" and "length (llc_message_list st) < 16"
    and "msg_handle m \<notin> msg_handle ` set (llc_message_list st)"
    and "is_mpx m \<Longrightarrow> message_mpx_id m \<notin> set (mpx_ids (llc_message_list st))"
  shows "llc_inv (llc_message_add m st)"
  by (rule append_inv [OF assms]) (simp_all add: llc_message_add_def Let_def)

lemma base_fields_inv [simp]:
  "llc_inv (st\<lparr>mac_handle_base := b\<rparr>) = llc_inv st" "llc_inv (st\<lparr>mpx_id := i\<rparr>) = llc_inv st"
  "llc_inv (st\<lparr>active_eapol_session := a\<rparr>) = llc_inv st" "llc_inv (st\<lparr>high_priority_mode := a\<rparr>) = llc_inv st"
  "llc_inv (st\<lparr>edfe_rx_wait_timer := e\<rparr>) = llc_inv st" "llc_inv (st\<lparr>mpx_user_table := t\<rparr>) = llc_inv st"
  "llc_inv (st\<lparr>last_sent_async_frame_type := ty\<rparr>) = llc_inv st" "llc_inv (st\<lparr>ie_params := p\<rparr>) = llc_inv st"
  "llc_inv (st\<lparr>test_skip_first_init_response := a\<rparr>) = llc_inv st"
  "llc_inv (st\<lparr>test_drop_data_message := d\<rparr>) = llc_inv st"
  by (simp_all add: llc_inv_def)

lemma allocate_room: "llc_inv st \<Longrightarrow> llc_message_allocate env st \<Longrightarrow> length (llc_message_list st) < 16"
  by (auto simp: llc_inv_def llc_message_allocate_def word_less_nat_alt)

section \<open>Requests\<close>

text \<open>What the frame builders need: nothing over the TI MAC, sound configurations otherwise.\<close>

definition frames_ok :: "llc_env \<Rightarrow> llc_data_base_t \<Rightarrow> bool" where
  "frames_ok env st \<longleftrightarrow> timac env \<or>
     codec_ok (env_codec env) \<and> params_wf (ie_params st) \<and>
     (\<forall>hs. hopping_schedule (ie_params st) = Some hs \<longrightarrow> excluded_wf (hw_excluded_channels hs))"

lemma new_message_mpx [simp]:
  "messsage_type (new_message ty u p f d) = ty"
  by (simp add: new_message_def)

lemma lowpan_request_step:
  assumes inv: "llc_inv st" and room: "llc_message_allocate env st"
    and f: "(if timac env then Some no_frame
            else case hopping_schedule (ie_params st) of None \<Rightarrow> None
                 | Some hs \<Rightarrow> lowpan_frame (env_codec env) (ie_params st) hs (rq_edfe data) (rq_tx_ack data)) = Some f"
  obtains m st' where "ws_llc_lowpan_mpx_data_request env data prio st = Some st'" "llc_inv st'"
    "llc_message_list st' = llc_message_list st @ [m]" "messsage_type m = WS_FT_DATA"
    "mpx_user_handle m = rq_handle data" "ack_requested m = rq_tx_ack data"
    "active_eapol_session st' = active_eapol_session st" "llc_eap_pending_list st' = llc_eap_pending_list st"
    "mpx_user_table st' = mpx_user_table st"
    "llc_log st' = llc_log st @ [Aq_calc (llc_message_list_size st + 1)]
       @ (let req = (lowpan_data_req data (msg_handle m))\<lparr>rq_msdu := if timac env then ie_msdu m else []\<rparr>;
              status = (if timac env then mac_accepts env req else MLME_SUCCESS) in
          [Mac_data_req req m (if \<not> timac env \<and> rq_edfe data then 0 else 2)]
          @ (if status \<noteq> MLME_SUCCESS then [Data_confirm LOWPAN_USER (rq_handle data) status] else []))"
proof -
  note r = allocate_room [OF inv room]
  let ?m = "lowpan_message (timac env) (ie_params st) data prio f"
  obtain h i b1 b2 where a: "llc_message_id_allocate ?m True st
       = Some (?m\<lparr>msg_handle := h, message_mpx_id := i\<rparr>, st\<lparr>mac_handle_base := b1, mpx_id := b2\<rparr>)"
    "h \<notin> msg_handle ` set (llc_message_list st)" "i \<notin> set (mpx_ids (llc_message_list st))"
    using id_allocate_finds [OF r, of ?m True] by (metis (full_types))
  obtain m where m: "m = mpx_header_added env LOWPAN_USER (?m\<lparr>msg_handle := h, message_mpx_id := i\<rparr>)" by blast
  have fields: "messsage_type m = WS_FT_DATA" "mpx_user_handle m = rq_handle data"
    "ack_requested m = rq_tx_ack data" "msg_handle m = h" "message_mpx_id m = i"
    by (simp_all add: m mpx_header_added_def lowpan_message_def new_message_def Let_def)
  let ?st = "llc_message_add m (st\<lparr>mac_handle_base := b1, mpx_id := b2\<rparr>)"
  have "llc_inv ?st"
    by (rule message_add_inv) (use inv r a fields in simp_all)
  have run: "ws_llc_lowpan_mpx_data_request env data prio st = Some (
      if timac env
      then let req = (lowpan_data_req data (msg_handle m))\<lparr>rq_msdu := ie_msdu m\<rparr>;
               st = event (Mac_data_req req m 2) ?st;
               status = mac_accepts env req
           in if status \<noteq> MLME_SUCCESS
              then event (Data_confirm LOWPAN_USER (rq_handle data) status) st else st
      else event (Mac_data_req (lowpan_data_req data (msg_handle m)) m (if rq_edfe data then 0 else 2)) ?st)"
    unfolding ws_llc_lowpan_mpx_data_request_def Let_def f option.case if_not_P [OF not_not [THEN iffD2, OF room]] a(1)
      prod.case m by (rule refl)
  show ?thesis
    by (rule that [OF run, of m])
       (use \<open>llc_inv ?st\<close> fields in \<open>auto simp: Let_def llc_message_add_def lowpan_data_req_def\<close>)
qed

lemma temp_entry_set_state:
  "\<exists>es. snd (ws_llc_eapol_temp_entry_set env mac st) = st\<lparr>llc_log := llc_log st @ es\<rparr>"
proof (cases "ws_llc_discover_eapol_temp_entry (temp_entries st) mac")
  case None
  then show ?thesis by (intro exI [of _ "[]"]) (simp add: ws_llc_eapol_temp_entry_set_def)
next
  case (Some i)
  then show ?thesis
    by (intro exI [of _ "[Tx_temporary_set mac]"]) (simp add: ws_llc_eapol_temp_entry_set_def event_def)
qed

text \<open>An EAPOL message is handed to the MAC.\<close>

lemma eapol_send_step:
  assumes inv: "llc_inv st" and room: "length (llc_message_list st) < 16" and ty: "messsage_type m0 = WS_FT_EAPOL"
  obtains m st' status where "ws_llc_mpx_eapol_send env m0 st = Some (status, st')" "llc_inv st'"
    "llc_message_list st' = llc_message_list st @ [m]" "messsage_type m = WS_FT_EAPOL"
    "mpx_user_handle m = mpx_user_handle m0"
    "llc_eap_pending_list st' = llc_eap_pending_list st" "mpx_user_table st' = mpx_user_table st"
    "status = MLME_SUCCESS \<or> timac env \<and> (\<exists>rq. mac_accepts env rq = status)"
    "active_eapol_session st' = (active_eapol_session st \<or> status = MLME_SUCCESS)"
proof -
  obtain h i b1 b2 where a: "llc_message_id_allocate m0 True st
       = Some (m0\<lparr>msg_handle := h, message_mpx_id := i\<rparr>, st\<lparr>mac_handle_base := b1, mpx_id := b2\<rparr>)"
    "h \<notin> msg_handle ` set (llc_message_list st)" "i \<notin> set (mpx_ids (llc_message_list st))"
    using id_allocate_finds [OF room, of m0 True] by (metis (full_types))
  let ?n = "llc_message_list_size st + 1"
  let ?st1 = "event (Aq_calc ?n) ((st\<lparr>mac_handle_base := b1, mpx_id := b2\<rparr>)\<lparr>llc_message_list_size := ?n\<rparr>)"
  obtain temporary st2 where t: "ws_llc_eapol_temp_entry_set env (dst_address m0) ?st1 = (temporary, st2)"
    by (rule prod.exhaust)
  then obtain es where st2: "st2 = ?st1\<lparr>llc_log := llc_log ?st1 @ es\<rparr>"
    using temp_entry_set_state [of env "dst_address m0" ?st1] by auto
  let ?m1 = "mpx_header_added env KMP_USER (m0\<lparr>msg_handle := h, message_mpx_id := i, eapol_temporary := temporary\<rparr>)"
  have fields: "messsage_type ?m1 = WS_FT_EAPOL" "msg_handle ?m1 = h" "message_mpx_id ?m1 = i"
    "mpx_user_handle ?m1 = mpx_user_handle m0"
    using ty by (simp_all add: mpx_header_added_def)
  obtain m where m: "m = ?m1" by blast
  note fields = fields [folded m]
  let ?st3 = "st2\<lparr>llc_message_list := llc_message_list st2 @ [m]\<rparr>"
  have inv3: "llc_inv ?st3"
    by (rule append_inv [OF inv room, of m]) (use a fields in \<open>simp_all add: st2\<close>)
  let ?req = "ws_llc_eapol_data_req_init m"
  have n: "llc_message_list_size (st\<lparr>mac_handle_base := b1, mpx_id := b2\<rparr>) + 1 = ?n" by simp
  have addr: "dst_address (m0\<lparr>msg_handle := h, message_mpx_id := i\<rparr>) = dst_address m0" by simp
  have run: "ws_llc_mpx_eapol_send env m0 st = Some (
      if \<not> timac env
      then (MLME_SUCCESS, event (Mac_data_req ?req m 2) (?st3\<lparr>active_eapol_session := True\<rparr>))
      else let req = ?req\<lparr>rq_msdu := ie_msdu m\<rparr>;
               st = event (Mac_data_req req m 2) ?st3;
               status = mac_accepts env req
           in (status, if status = MLME_SUCCESS then st\<lparr>active_eapol_session := True\<rparr> else st))"
    unfolding ws_llc_mpx_eapol_send_def Let_def a(1) option.case prod.case n addr t m by (rule refl)
  have old: "active_eapol_session st2 = active_eapol_session st" "llc_eap_pending_list st2 = llc_eap_pending_list st"
    "mpx_user_table st2 = mpx_user_table st" "llc_message_list st2 = llc_message_list st"
    by (simp_all add: st2)
  show ?thesis
  proof (cases "timac env")
    case False
    then have run': "ws_llc_mpx_eapol_send env m0 st
        = Some (MLME_SUCCESS, event (Mac_data_req ?req m 2) (?st3\<lparr>active_eapol_session := True\<rparr>))"
      using run by simp
    show ?thesis
      by (rule that [OF run', of m]) (use inv3 fields old in simp_all)
  next
    case True
    let ?rq = "?req\<lparr>rq_msdu := ie_msdu m\<rparr>"
    let ?status = "mac_accepts env ?rq"
    let ?st4 = "event (Mac_data_req ?rq m 2) ?st3"
    have run': "ws_llc_mpx_eapol_send env m0 st
        = Some (?status, if ?status = MLME_SUCCESS then ?st4\<lparr>active_eapol_session := True\<rparr> else ?st4)"
      using run True by (simp add: Let_def)
    show ?thesis
      by (rule that [OF run', of m]) (use True inv3 fields old in auto)
  qed
qed

lemma eapol_next_inv:
  assumes inv: "llc_inv st" and room: "length (llc_message_list st) < 16"
  obtains st' where "eapol_next env st = Some st'" "llc_inv st'"
proof (cases "llc_eap_pending_list st")
  case Nil
  then show ?thesis using that inv by (simp add: eapol_next_def)
next
  case (Cons m ms)
  let ?st = "event (Eapol_aq_calc (llc_eap_pending_list_size st - 1))
    (st\<lparr>llc_eap_pending_list := ms, llc_eap_pending_list_size := llc_eap_pending_list_size st - 1\<rparr>)"
  have inv': "llc_inv ?st" using inv Cons by (simp add: llc_inv_def)
  have "messsage_type m = WS_FT_EAPOL" using inv Cons by (simp add: llc_inv_def)
  note send = eapol_send_step [OF inv' _ this, of env]
  have "length (llc_message_list ?st) < 16" using room by simp
  then obtain st' status where "ws_llc_mpx_eapol_send env m ?st = Some (status, st')" "llc_inv st'"
    by (rule send) blast
  then show ?thesis using that Cons by (simp add: eapol_next_def Let_def)
qed

lemma lowpan_request_inv:
  assumes inv: "llc_inv st"
  shows "\<And>st'. ws_llc_lowpan_mpx_data_request env data prio st = Some st' \<Longrightarrow> llc_inv st'"
    and "frames_ok env st \<Longrightarrow> timac env \<or> hopping_schedule (ie_params st) \<noteq> None \<Longrightarrow>
      ws_llc_lowpan_mpx_data_request env data prio st \<noteq> None"
proof -
  let ?f = "if timac env then Some no_frame
            else case hopping_schedule (ie_params st) of None \<Rightarrow> None
                 | Some hs \<Rightarrow> lowpan_frame (env_codec env) (ie_params st) hs (rq_edfe data) (rq_tx_ack data)"
  have full: "ws_llc_lowpan_mpx_data_request env data prio st
      = Some (event (Data_confirm LOWPAN_USER (rq_handle data) MLME_TRANSACTION_OVERFLOW) st)"
    if "\<not> llc_message_allocate env st"
    using that by (simp add: ws_llc_lowpan_mpx_data_request_def Let_def)
  have none: "ws_llc_lowpan_mpx_data_request env data prio st = None"
    if "llc_message_allocate env st" "?f = None"
    using that unfolding ws_llc_lowpan_mpx_data_request_def Let_def by simp
  have ok: "\<exists>st'. ws_llc_lowpan_mpx_data_request env data prio st = Some st' \<and> llc_inv st'"
    if "llc_message_allocate env st" "?f = Some f" for f
    using lowpan_request_step [OF inv that, of prio] by blast
  show "llc_inv st'" if "ws_llc_lowpan_mpx_data_request env data prio st = Some st'" for st'
    using that full none ok inv by (cases "llc_message_allocate env st"; cases ?f) auto
  show "ws_llc_lowpan_mpx_data_request env data prio st \<noteq> None"
    if "frames_ok env st" "timac env \<or> hopping_schedule (ie_params st) \<noteq> None"
  proof -
    note prem = that
    have "\<exists>f. ?f = Some f"
    proof (cases "timac env")
      case True
      then show ?thesis by simp
    next
      case False
      then obtain hs where hs: "hopping_schedule (ie_params st) = Some hs" using prem(2) by blast
      with prem(1) False obtain f where
        "lowpan_frame (env_codec env) (ie_params st) hs (rq_edfe data) (rq_tx_ack data) = Some f"
        using lowpan_frame_value by (metis frames_ok_def)
      with False hs show ?thesis by simp
    qed
    then show ?thesis using full ok by (cases "llc_message_allocate env st") auto
  qed
qed

lemma eapol_message_fields [simp]:
  "messsage_type (eapol_message ti data prio relay auth f) = WS_FT_EAPOL"
  "mpx_user_handle (eapol_message ti data prio relay auth f) = rq_handle data"
  by (simp_all add: eapol_message_def Let_def new_message_def)

definition auth_set :: "llc_env \<Rightarrow> bytes option \<Rightarrow> llc_data_base_t \<Rightarrow> llc_data_base_t" where
  "auth_set env auth st = (case auth of Some a \<Rightarrow> if timac env then event (Auth_eui64_set a) st else st | None \<Rightarrow> st)"

lemma auth_set_fields [simp]:
  "llc_inv (auth_set env auth st) = llc_inv st"
  "llc_message_list (auth_set env auth st) = llc_message_list st"
  "active_eapol_session (auth_set env auth st) = active_eapol_session st"
  "llc_eap_pending_list (auth_set env auth st) = llc_eap_pending_list st"
  "llc_eap_pending_list_size (auth_set env auth st) = llc_eap_pending_list_size st"
  "mpx_user_table (auth_set env auth st) = mpx_user_table st"
  by (simp_all add: auth_set_def split: option.split)

text \<open>The three ways of an EAPOL request with a frame: refused, queued, and sent.\<close>

lemma eapol_request_step:
  assumes inv: "llc_inv st" and room: "llc_message_allocate env st"
    and f: "(if timac env then Some no_frame
            else case hopping_schedule (ie_params st) of None \<Rightarrow> None
                 | Some hs \<Rightarrow> eapol_frame (env_codec env) (ie_params st) hs relay auth) = Some f"
  shows "\<exists>st'. ws_llc_mpx_eapol_request env data prio relay auth st = Some st' \<and> llc_inv st' \<and>
    (if active_eapol_session st
     then llc_message_list st' = llc_message_list st \<and> active_eapol_session st' \<and>
       (\<exists>m. llc_eap_pending_list st' = llc_eap_pending_list st @ [m])
     else \<exists>m. llc_message_list st' = llc_message_list st @ [m] \<and> messsage_type m = WS_FT_EAPOL \<and>
       llc_eap_pending_list st' = llc_eap_pending_list st \<and>
       (active_eapol_session st' \<or> timac env \<and> (\<exists>rq. mac_accepts env rq \<noteq> MLME_SUCCESS)))"
proof -
  let ?m = "eapol_message (timac env) data prio relay auth f"
  let ?st = "auth_set env auth st"
  let ?n = "llc_eap_pending_list_size ?st + 1"
  have run: "ws_llc_mpx_eapol_request env data prio relay auth st =
     (if active_eapol_session ?st
      then Some (event (Eapol_aq_calc ?n)
        (?st\<lparr>llc_eap_pending_list := llc_eap_pending_list ?st @ [?m], llc_eap_pending_list_size := ?n\<rparr>))
      else case ws_llc_mpx_eapol_send env ?m ?st of
        None \<Rightarrow> None
      | Some (status, st) \<Rightarrow>
          Some (if timac env \<and> status \<noteq> MLME_SUCCESS
                then event (Data_confirm KMP_USER (rq_handle data) status) st else st))"
    unfolding ws_llc_mpx_eapol_request_def Let_def f option.case if_not_P [OF not_not [THEN iffD2, OF room]]
      auth_set_def by (rule refl)
  show ?thesis
  proof (cases "active_eapol_session st")
    case True
    have "llc_inv (?st\<lparr>llc_eap_pending_list := llc_eap_pending_list ?st @ [?m], llc_eap_pending_list_size := ?n\<rparr>)"
      using inv by (auto simp: llc_inv_def auth_set_def split: option.split)
    with True show ?thesis unfolding run by simp
  next
    case False
    have inv': "llc_inv ?st" and r: "length (llc_message_list ?st) < 16"
      using inv allocate_room [OF inv room] by simp_all
    have ty: "messsage_type ?m = WS_FT_EAPOL" by simp
    obtain m st' status where s: "ws_llc_mpx_eapol_send env ?m ?st = Some (status, st')" "llc_inv st'"
      "llc_message_list st' = llc_message_list ?st @ [m]" "messsage_type m = WS_FT_EAPOL"
      "llc_eap_pending_list st' = llc_eap_pending_list ?st"
      "status = MLME_SUCCESS \<or> timac env \<and> (\<exists>rq. mac_accepts env rq = status)"
      "active_eapol_session st' = (active_eapol_session ?st \<or> status = MLME_SUCCESS)"
      by (rule eapol_send_step [OF inv' r ty]) blast
    have out: "ws_llc_mpx_eapol_request env data prio relay auth st
        = Some (if timac env \<and> status \<noteq> MLME_SUCCESS
                then event (Data_confirm KMP_USER (rq_handle data) status) st' else st')"
      unfolding run s(1) using False by simp
    have "\<exists>m. llc_message_list st' = llc_message_list st @ [m] \<and> messsage_type m = WS_FT_EAPOL"
      using s(3,4) by simp
    moreover have "active_eapol_session st' \<or> timac env \<and> (\<exists>rq. mac_accepts env rq \<noteq> MLME_SUCCESS)"
      using s(6,7) by (metis (full_types))
    ultimately show ?thesis unfolding out using False s(2,5) by (simp split: if_split) blast
  qed
qed

lemma eapol_request_inv:
  assumes inv: "llc_inv st"
  shows "\<And>st'. ws_llc_mpx_eapol_request env data prio relay auth st = Some st' \<Longrightarrow> llc_inv st'"
    and "frames_ok env st \<Longrightarrow> timac env \<or> hopping_schedule (ie_params st) \<noteq> None \<Longrightarrow>
      \<forall>a. auth = Some a \<longrightarrow> length a = 8 \<Longrightarrow>
      ws_llc_mpx_eapol_request env data prio relay auth st \<noteq> None"
proof -
  let ?f = "if timac env then Some no_frame
            else case hopping_schedule (ie_params st) of None \<Rightarrow> None
                 | Some hs \<Rightarrow> eapol_frame (env_codec env) (ie_params st) hs relay auth"
  have full: "ws_llc_mpx_eapol_request env data prio relay auth st
      = Some (event (Data_confirm KMP_USER (rq_handle data) MLME_TRANSACTION_OVERFLOW) st)"
    if "\<not> llc_message_allocate env st"
    using that by (simp add: ws_llc_mpx_eapol_request_def Let_def)
  have none: "ws_llc_mpx_eapol_request env data prio relay auth st = None"
    if "llc_message_allocate env st" "?f = None"
    using that unfolding ws_llc_mpx_eapol_request_def Let_def by simp
  have ok: "\<exists>st'. ws_llc_mpx_eapol_request env data prio relay auth st = Some st' \<and> llc_inv st'"
    if "llc_message_allocate env st" "?f = Some f" for f
    using eapol_request_step [OF inv that, where data = data and prio = prio] by blast
  show "llc_inv st'" if "ws_llc_mpx_eapol_request env data prio relay auth st = Some st'" for st'
    using that full none ok inv by (cases "llc_message_allocate env st"; cases ?f) auto
  show "ws_llc_mpx_eapol_request env data prio relay auth st \<noteq> None"
    if "frames_ok env st" "timac env \<or> hopping_schedule (ie_params st) \<noteq> None"
      "\<forall>a. auth = Some a \<longrightarrow> length a = 8"
  proof -
    note prem = that
    have "\<exists>f. ?f = Some f"
    proof (cases "timac env")
      case True
      then show ?thesis by simp
    next
      case False
      then obtain hs where hs: "hopping_schedule (ie_params st) = Some hs" using prem(2) by blast
      with prem(1) False have "codec_ok (env_codec env)" "excluded_wf (hw_excluded_channels hs)"
        by (simp_all add: frames_ok_def)
      from eapol_frame_exact [OF this prem(3)] obtain f where
        "eapol_frame (env_codec env) (ie_params st) hs relay auth = Some f" by blast
      with False hs show ?thesis by simp
    qed
    then show ?thesis using full ok by (cases "llc_message_allocate env st") auto
  qed
qed

lemma data_request_inv:
  assumes "llc_inv st" and "ws_llc_mpx_data_request env data user prio relay auth st = Some st'"
  shows "llc_inv st'"
  using assms lowpan_request_inv(1) [OF assms(1)] eapol_request_inv(1) [OF assms(1)]
  by (auto simp: ws_llc_mpx_data_request_def split: option.splits if_splits)

lemma asynch_request_inv:
  assumes inv: "llc_inv st" and r: "ws_llc_asynch_request env ty wh wp st = Some (b, st')"
    and ty: "ty \<noteq> WS_FT_DATA" "ty \<noteq> WS_FT_EAPOL"
  shows "llc_inv st'"
proof (cases "hopping_schedule (ie_params st)")
  case None
  with inv r show ?thesis by (simp add: ws_llc_asynch_request_def)
next
  case (Some hs)
  show ?thesis
  proof (cases "timac env \<or> high_priority_mode st \<or> \<not> llc_message_allocate env st")
    case True
    with inv r Some show ?thesis
      by (auto simp: ws_llc_asynch_request_def Let_def split: if_splits)
  next
    case False
    with r Some obtain f where f: "asynch_frame (env_codec env) (ie_params st) hs (ucast ty) wh wp = Some f"
      by (cases "asynch_frame (env_codec env) (ie_params st) hs (ucast ty) wh wp")
         (auto simp: ws_llc_asynch_request_def Let_def)
    have room: "length (llc_message_list st) < 16" using allocate_room [OF inv] False by blast
    obtain h b1 where a: "llc_message_id_allocate (new_message ty 0 0 f []) False st
         = Some ((new_message ty 0 0 f [])\<lparr>msg_handle := h\<rparr>, st\<lparr>mac_handle_base := b1\<rparr>)"
      "h \<notin> msg_handle ` set (llc_message_list st)"
      using id_allocate_finds [OF room, of "new_message ty 0 0 f []" False] by (metis (full_types))
    have "llc_inv (llc_message_add ((new_message ty 0 0 f [])\<lparr>msg_handle := h\<rparr>) (st\<lparr>mac_handle_base := b1\<rparr>))"
      by (rule message_add_inv) (use inv room a ty in \<open>simp_all add: is_mpx_def\<close>)
    with r Some False f a(1) show ?thesis by (auto simp: ws_llc_asynch_request_def Let_def)
  qed
qed

section \<open>Confirmation, purging and the rest\<close>

lemma user_confirm_inv [simp]:
  "llc_inv (llc_user_confirm user handle status st) = llc_inv st"
  "llc_message_list (llc_user_confirm user handle status st) = llc_message_list st"
  by (simp_all add: llc_user_confirm_def split: option.split prod.split bool.split)

lemma eapol_tx_confirm_inv:
  "llc_inv st \<Longrightarrow> llc_inv (eapol_tx_confirm env conf m st)"
  "llc_message_list (eapol_tx_confirm env conf m st) = llc_message_list st"
  by (auto simp: eapol_tx_confirm_def Let_def llc_inv_def intro!: temp_update_inv split: option.split)

lemma confirm_neighbour_inv:
  assumes "confirm_neighbour env conf ies nb st = Some st'"
  shows "llc_inv st' = llc_inv st" "llc_message_list st' = llc_message_list st"
  using assms by (auto simp: confirm_neighbour_def Let_def split: if_splits option.splits)

lemma confirm_inv:
  assumes inv: "llc_inv st" and r: "ws_llc_mac_confirm_cb env conf conf_data st = Some st'"
  shows "llc_inv st'"
proof (cases "timac env \<and> conf_data = None")
  case True
  with inv r show ?thesis by (auto simp: ws_llc_mac_confirm_cb_def)
next
  case False
  show ?thesis
  proof (cases "llc_message_discover_by_mac_handle (cf_handle conf) (llc_message_list st)")
    case None
    with inv r False show ?thesis by (auto simp: ws_llc_mac_confirm_cb_def)
  next
    case (Some i)
    let ?m = "llc_message_list st ! i"
    let ?st1 = "eapol_tx_confirm env conf ?m st"
    let ?asks = "(ack_requested ?m \<and> messsage_type ?m = WS_FT_DATA) \<and> dst_address_type ?m = 3"
    let ?nb = "if ?asks then neighbor_lookup env (dst_address ?m) else None"
    let ?st2 = "if ?asks then event (Neighbor_request (dst_address ?m) False) ?st1 else ?st1"
    have i: "i < length (llc_message_list st)"
      using Some by (auto simp: llc_message_discover_by_mac_handle_def dest: find_index_SomeD)
    have s2: "llc_inv ?st2" "llc_message_list ?st2 = llc_message_list st"
      using eapol_tx_confirm_inv [where st = st and env = env and conf = conf and m = ?m] inv by simp_all
    obtain st3 where st3: "(case ?nb of None \<Rightarrow> Some ?st2
                   | Some nb \<Rightarrow> confirm_neighbour env conf (case conf_data of None \<Rightarrow> [] | Some h \<Rightarrow> h) nb ?st2) = Some st3"
      using r Some False
      unfolding ws_llc_mac_confirm_cb_def Let_def if_not_P [OF False] by (auto split: option.splits)
    have s3: "llc_inv st3" "llc_message_list st3 = llc_message_list st"
      using st3 s2 confirm_neighbour_inv by (auto split: option.splits simp del: if_split)
    let ?st4 = "llc_message_free i st3"
    have s4: "llc_inv ?st4" "length (llc_message_list ?st4) < 16"
      using free_inv [OF s3(1), of i] i s3(2) by simp_all
    have out: "Some st' = (
              if messsage_type ?m = WS_FT_DATA
              then let st = llc_user_confirm LOWPAN_USER (mpx_user_handle ?m) (cf_status conf) ?st4 in
                Some (case ?nb of
                        Some nb \<Rightarrow> if nb_link_lifetime nb \<le> 240 then event (Neighbor_remove (nb_index nb)) st else st
                      | None \<Rightarrow> st)
              else if messsage_type ?m = WS_FT_EAPOL
              then eapol_next env (llc_user_confirm KMP_USER (mpx_user_handle ?m) (cf_status conf)
                     (?st4\<lparr>active_eapol_session := False\<rparr>))
              else Some (if timac env then ?st4 else event (Asynch_confirm (ucast (messsage_type ?m))) ?st4))"
      unfolding r [symmetric] ws_llc_mac_confirm_cb_def Let_def if_not_P [OF False] Some option.case st3
      by (rule refl)
    show ?thesis
    proof (cases "messsage_type ?m = WS_FT_EAPOL")
      case True
      let ?st5 = "llc_user_confirm KMP_USER (mpx_user_handle ?m) (cf_status conf) (?st4\<lparr>active_eapol_session := False\<rparr>)"
      have "llc_inv ?st5" "length (llc_message_list ?st5) < 16" using s4 by simp_all
      then obtain st6 where "eapol_next env ?st5 = Some st6" "llc_inv st6" by (rule eapol_next_inv)
      with out True show ?thesis by simp
    next
      case False
      with out s4(1) show ?thesis by (auto simp: Let_def split: if_splits option.splits)
    qed
  qed
qed

end
