(* ===== verification/LlcProps.thy ===== *)
theory LlcProps
  imports LlcInv
begin

text \<open>
  The operations of the data service keep the invariant of its queue; what follows for requests,
  confirmations and the EAPOL messages, of which one at a time is given to the MAC.
\<close>

section \<open>The other operations\<close>

lemma purge_inv:
  assumes inv: "llc_inv st"
  shows "llc_inv (snd (ws_llc_mpx_data_purge_request env handle user st))"
proof (cases "llc_message_discover_mpx_user_id handle user (llc_message_list st)")
  case None
  then show ?thesis using inv by (simp add: ws_llc_mpx_data_purge_request_def)
next
  case (Some i)
  let ?st = "event (Mac_purge (msg_handle (llc_message_list st ! i))) st"
  have "i < length (llc_message_list ?st)"
    using Some by (auto simp: llc_message_discover_mpx_user_id_def Let_def dest: find_index_SomeD)
  then have "llc_inv (llc_message_free i ?st)" using free_inv(1) [of ?st i] inv by simp
  then show ?thesis using Some inv by (simp add: ws_llc_mpx_data_purge_request_def Let_def)
qed

lemma clean_fold_inv:
  assumes "llc_inv st" and "length xs \<le> length (llc_message_list st)"
  shows "llc_inv (fold llc_clean_step xs st) \<and>
    length (llc_message_list (fold llc_clean_step xs st)) = length (llc_message_list st) - length xs"
  using assms
proof (induction xs arbitrary: st)
  case (Cons x xs)
  let ?st = "llc_clean_step x st"
  have "0 < length (llc_message_list st)" using Cons.prems(2) by auto
  then have "llc_inv ?st" "length (llc_message_list ?st) = length (llc_message_list st) - 1"
    using free_inv(1) [OF Cons.prems(1), of 0]
    by (simp_all add: llc_clean_step_def llc_message_free_def Let_def remove_at_length)
  then show ?case using Cons.IH [of ?st] Cons.prems(2) by simp
qed simp

lemma clean_inv:
  assumes "llc_inv st"
  shows "llc_inv (ws_llc_clean st)" and "llc_message_list (ws_llc_clean st) = []"
    and "llc_eap_pending_list (ws_llc_clean st) = []"
proof -
  let ?st = "fold llc_clean_step (llc_message_list st) st"
  have f: "llc_inv ?st" "length (llc_message_list ?st) = 0"
    using clean_fold_inv [OF assms, of "llc_message_list st"] by simp_all
  have "temp_inv (ws_llc_temp_neigh_info_table_reset (temp_entries st))"
    using assms by (intro temp_reset_inv) (simp add: llc_inv_def temp_inv_def)
  with f show "llc_inv (ws_llc_clean st)" by (simp add: ws_llc_clean_def llc_inv_def)
  show "llc_message_list (ws_llc_clean st) = []" using f(2) by (simp add: ws_llc_clean_def)
  show "llc_eap_pending_list (ws_llc_clean st) = []" by (simp add: ws_llc_clean_def)
qed

text \<open>A header list may be replaced: nothing that the invariant looks at is in it.\<close>

lemma map_filter_update:
  assumes "i < length xs" and "P y = P (xs ! i)" and "f y = f (xs ! i)"
  shows "map f (filter P (xs[i := y])) = map f (filter P xs)"
proof -
  have "xs = take i xs @ xs ! i # drop (Suc i) xs" using assms(1) by (simp add: id_take_nth_drop)
  then have "map f (filter P xs) = map f (filter P (take i xs @ xs ! i # drop (Suc i) xs))" by simp
  with assms show ?thesis by (simp add: upd_conv_take_nth_drop)
qed

lemma header_update_inv:
  assumes "llc_inv st"
  shows "llc_inv (st\<lparr>llc_message_list := (llc_message_list st)[i := (llc_message_list st ! i)\<lparr>ie_header := h\<rparr>]\<rparr>)"
proof (cases "i < length (llc_message_list st)")
  case True
  let ?xs = "llc_message_list st" and ?m = "(llc_message_list st ! i)\<lparr>ie_header := h\<rparr>"
  have "map msg_handle (?xs[i := ?m]) = map msg_handle ?xs"
    using map_filter_update [OF True, of "\<lambda>_. True" ?m msg_handle] by simp
  moreover have "mpx_ids (?xs[i := ?m]) = mpx_ids ?xs"
    unfolding mpx_ids_def by (rule map_filter_update [OF True]) (simp_all add: is_mpx_def)
  ultimately show ?thesis using assms by (simp add: llc_inv_def)
next
  case False
  then show ?thesis using assms by (simp add: list_update_beyond)
qed

lemma edfe_inv:
  assumes inv: "llc_inv st" and r: "ws_llc_mcps_edfe_handler env ies h rsl st = Some (s, bs, st')"
  shows "llc_inv st'"
  using r inv header_update_inv [OF inv]
  by (auto simp: ws_llc_mcps_edfe_handler_def Let_def split: option.splits if_splits)

lemma timer_inv:
  "llc_inv st \<Longrightarrow> llc_inv (ws_llc_fast_timer t st)"
  "llc_inv st \<Longrightarrow> llc_inv (st\<lparr>temp_entries := ws_llc_timer_seconds s (temp_entries st)\<rparr>)"
  "llc_inv st \<Longrightarrow> llc_inv (ws_llc_mpx_eui64_purge_request mac st)"
  "llc_inv st \<Longrightarrow> llc_inv (wc_llc_mpx_priority_set_request b st)"
  by (simp_all add: ws_llc_fast_timer_def Let_def ws_llc_mpx_eui64_purge_request_def
      wc_llc_mpx_priority_set_request_def)
     (simp_all add: llc_inv_def temp_release_inv temp_timer_inv)

lemma register_inv:
  "llc_inv st \<Longrightarrow> llc_inv (snd (ws_llc_mpx_data_cb_register user c i st))"
  by (simp add: ws_llc_mpx_data_cb_register_def split: option.split)

section \<open>Reachable states\<close>

text \<open>
  The asynchronous messages are the ones that the bootstrap sends, none has the type of a data frame;
  a received frame leaves the temporary neighbours in order.
\<close>

definition llc_op_ok :: "llc_env \<Rightarrow> llc_op \<Rightarrow> bool" where
  "llc_op_ok env oper =
     (case oper of
        Op_asynch ty wh wp \<Rightarrow> ty \<noteq> WS_FT_DATA \<and> ty \<noteq> WS_FT_EAPOL
      | Op_temporary t \<Rightarrow> temp_inv t
      | _ \<Rightarrow> True)"

lemma llc_exec_inv:
  assumes inv: "llc_inv st" and ok: "llc_op_ok env oper" and r: "llc_exec env oper st = Some st'"
  shows "llc_inv st'"
proof (cases oper)
  case (Op_request data user prio relay auth)
  with r show ?thesis by (auto intro: data_request_inv [OF inv])
next
  case (Op_asynch ty wh wp)
  with r obtain b where "ws_llc_asynch_request env ty wh wp st = Some (b, st')" by auto
  then show ?thesis using asynch_request_inv [OF inv] ok Op_asynch by (simp add: llc_op_ok_def)
next
  case (Op_confirm conf ies)
  with r show ?thesis by (auto intro: confirm_inv [OF inv])
next
  case (Op_edfe ies h rsl)
  with r obtain s bs where "ws_llc_mcps_edfe_handler env ies h rsl st = Some (s, bs, st')" by auto
  then show ?thesis by (rule edfe_inv [OF inv])
next
  case (Op_configure f)
  with r inv show ?thesis by auto
next
  case (Op_temporary t)
  with r inv ok show ?thesis by (auto simp: llc_op_ok_def llc_inv_def)
qed (use r inv purge_inv clean_inv(1) timer_inv register_inv in auto)

lemma llc_create_inv: "llc_inv (ws_llc_base_allocate asynch)"
proof -
  have "temp_inv (ws_llc_temp_neigh_info_table_reset temp_entries_zero)"
    by (rule temp_reset_inv) (simp add: temp_entries_zero_def)
  then show ?thesis by (simp add: llc_inv_def ws_llc_base_allocate_def mpx_ids_def)
qed

lemma llc_reach_inv:
  assumes "llc_reach ok st" and "\<And>env oper. ok env oper \<Longrightarrow> llc_op_ok env oper"
  shows "llc_inv st"
  using assms(1)
proof induction
  case (create asynch)
  show ?case by (rule llc_create_inv)
next
  case (step st env oper st')
  then show ?case using llc_exec_inv assms(2) by blast
qed

section \<open>Requests end\<close>

lemma reach_request_returns:
  assumes inv: "llc_inv st" and ok: "frames_ok env st" and a: "\<forall>a. auth = Some a \<longrightarrow> length a = 8"
  shows "ws_llc_mpx_data_request env data user prio relay auth st \<noteq> None"
  using lowpan_request_inv(2) [OF inv ok, of data prio] eapol_request_inv(2) [OF inv ok _ a, of data prio relay]
  by (auto simp: ws_llc_mpx_data_request_def split: option.split prod.split)

section \<open>Refused requests\<close>

definition user_set :: "llc_data_base_t \<Rightarrow> u16 \<Rightarrow> bool" where
  "user_set st user \<longleftrightarrow> ws_llc_mpx_user_discover user st = Some (user, True, True)"

lemma lowpan_refused:
  assumes inv: "llc_inv st" and user: "user_set st LOWPAN_USER" and ti: "timac env"
    and refuse: "\<forall>rq. mac_accepts env rq = status" "status \<noteq> MLME_SUCCESS"
    and room: "llc_message_allocate env st"
  obtains m st' rq where "ws_llc_mpx_data_request env data LOWPAN_USER prio relay auth st = Some st'"
    "llc_inv st'" "user_set st' LOWPAN_USER" "llc_message_list st' = llc_message_list st @ [m]"
    "llc_log st' = llc_log st @ [Aq_calc (llc_message_list_size st + 1), Mac_data_req rq m 2,
       Data_confirm LOWPAN_USER (rq_handle data) status]"
proof -
  have f: "(if timac env then Some no_frame
      else case hopping_schedule (ie_params st) of None \<Rightarrow> None
           | Some hs \<Rightarrow> lowpan_frame (env_codec env) (ie_params st) hs (rq_edfe data) (rq_tx_ack data)) = Some no_frame"
    using ti by simp
  obtain m st' where s: "ws_llc_lowpan_mpx_data_request env data prio st = Some st'" "llc_inv st'"
    "llc_message_list st' = llc_message_list st @ [m]" "mpx_user_table st' = mpx_user_table st"
    "llc_log st' = llc_log st @ [Aq_calc (llc_message_list_size st + 1)]
       @ (let req = (lowpan_data_req data (msg_handle m))\<lparr>rq_msdu := if timac env then ie_msdu m else []\<rparr>;
              status = (if timac env then mac_accepts env req else MLME_SUCCESS) in
          [Mac_data_req req m (if \<not> timac env \<and> rq_edfe data then 0 else 2)]
          @ (if status \<noteq> MLME_SUCCESS then [Data_confirm LOWPAN_USER (rq_handle data) status] else []))"
    by (rule lowpan_request_step [OF inv room f, of prio]) blast
  have "ws_llc_mpx_data_request env data LOWPAN_USER prio relay auth st = Some st'"
    using s(1) user ti by (simp add: ws_llc_mpx_data_request_def user_set_def)
  moreover have "user_set st' LOWPAN_USER"
    using user s(4) by (simp add: user_set_def ws_llc_mpx_user_discover_def)
  ultimately show ?thesis
    by (rule that [OF _ s(2) _ s(3)]) (use s(5) ti refuse in \<open>simp add: Let_def\<close>)
qed

fun lowpan_requests :: "llc_env \<Rightarrow> mcps_data_req_t list \<Rightarrow> llc_data_base_t \<Rightarrow> llc_data_base_t option" where
  "lowpan_requests env [] st = Some st"
| "lowpan_requests env (d # ds) st =
     (case ws_llc_mpx_data_request env d LOWPAN_USER 0 False None st of
        None \<Rightarrow> None
      | Some st \<Rightarrow> lowpan_requests env ds st)"

lemma refused_requests:
  assumes "llc_inv st" and "user_set st LOWPAN_USER" and "length (llc_message_list st) + length ds \<le> 16"
    and env: "timac env" "\<forall>rq. mac_accepts env rq = status" "status \<noteq> MLME_SUCCESS" "alloc_ok env"
  shows "\<exists>st'. lowpan_requests env ds st = Some st' \<and> llc_inv st' \<and> user_set st' LOWPAN_USER \<and>
    length (llc_message_list st') = length (llc_message_list st) + length ds"
  using assms(1-3)
proof (induction ds arbitrary: st)
  case (Cons d ds)
  have "llc_message_allocate env st"
    using Cons.prems(1,3) env(4) by (simp add: llc_message_allocate_def llc_inv_def word_less_nat_alt)
  then obtain m st' rq where s: "ws_llc_mpx_data_request env d LOWPAN_USER 0 False None st = Some st'"
    "llc_inv st'" "user_set st' LOWPAN_USER" "llc_message_list st' = llc_message_list st @ [m]"
    by (rule lowpan_refused [OF Cons.prems(1,2) env(1-3)]) blast
  then show ?case using Cons.IH [OF s(2,3)] Cons.prems(3) by simp
qed simp

lemma full_queue_overflow:
  assumes "llc_inv st" and "user_set st LOWPAN_USER" and "length (llc_message_list st) = 16" and "timac env"
  shows "ws_llc_mpx_data_request env data LOWPAN_USER prio relay auth st
    = Some (event (Data_confirm LOWPAN_USER (rq_handle data) MLME_TRANSACTION_OVERFLOW) st)"
proof -
  have "\<not> llc_message_allocate env st"
    using assms(1,3) by (simp add: llc_message_allocate_def llc_inv_def word_less_nat_alt)
  then show ?thesis
    using assms(2,4) by (simp add: ws_llc_mpx_data_request_def user_set_def ws_llc_lowpan_mpx_data_request_def)
qed

section \<open>Confirmation\<close>

lemma user_confirm_fields [simp]:
  "llc_eap_pending_list (llc_user_confirm user handle status st) = llc_eap_pending_list st"
  "active_eapol_session (llc_user_confirm user handle status st) = active_eapol_session st"
  "mpx_user_table (llc_user_confirm user handle status st) = mpx_user_table st"
  by (simp_all add: llc_user_confirm_def split: option.split prod.split bool.split)

lemma free_fields [simp]:
  "llc_message_list (llc_message_free i st) = remove_at i (llc_message_list st)"
  "llc_eap_pending_list (llc_message_free i st) = llc_eap_pending_list st"
  "active_eapol_session (llc_message_free i st) = active_eapol_session st"
  "mpx_user_table (llc_message_free i st) = mpx_user_table st"
  "llc_log (llc_message_free i st) = llc_log st @ [Aq_calc (llc_message_list_size st - 1)]"
  by (simp_all add: llc_message_free_def Let_def)

lemma eapol_tx_confirm_fields [simp]:
  "llc_eap_pending_list (eapol_tx_confirm env conf m st) = llc_eap_pending_list st"
  "active_eapol_session (eapol_tx_confirm env conf m st) = active_eapol_session st"
  "mpx_user_table (eapol_tx_confirm env conf m st) = mpx_user_table st"
  by (simp_all add: eapol_tx_confirm_def Let_def split: option.split)

text \<open>The events of a confirmation that answer a user.\<close>

fun answers :: "llc_event list \<Rightarrow> (u16 \<times> u8 \<times> mlme_status) list" where
  "answers [] = []"
| "answers (Data_confirm u h s # es) = (u, h, s) # answers es"
| "answers (e # es) = answers es"

lemma answers_append [simp]: "answers (xs @ ys) = answers xs @ answers ys"
  by (induction xs rule: answers.induct) simp_all

lemma eapol_tx_confirm_log: "answers (llc_log (eapol_tx_confirm env conf m st)) = answers (llc_log st)"
  by (simp add: eapol_tx_confirm_def Let_def split: option.split)

lemma confirm_neighbour_log:
  assumes "confirm_neighbour env conf ies nb st = Some st'"
  shows "answers (llc_log st') = answers (llc_log st)" "llc_eap_pending_list st' = llc_eap_pending_list st"
    "active_eapol_session st' = active_eapol_session st" "mpx_user_table st' = mpx_user_table st"
  using assms by (auto simp: confirm_neighbour_def Let_def split: if_splits option.splits)

text \<open>
  What is common to the confirmations of the listed message \<open>m\<close>: the state \<open>st4\<close> before its user is
  told, and the three ways to go on.
\<close>

lemma confirm_step:
  assumes inv: "llc_inv st" and m: "m \<in> set (llc_message_list st)" and h: "cf_handle conf = msg_handle m"
    and ti: "\<not> (timac env \<and> ies = None)" and r: "ws_llc_mac_confirm_cb env conf ies st = Some st'"
  obtains i st4 and nb :: "llc_neighbour option" where "i < length (llc_message_list st)" "llc_message_list st ! i = m" "llc_inv st4"
    "llc_message_list st4 = remove_at i (llc_message_list st)"
    "length (llc_message_list st4) < 16"
    "llc_eap_pending_list st4 = llc_eap_pending_list st" "active_eapol_session st4 = active_eapol_session st"
    "mpx_user_table st4 = mpx_user_table st" "answers (llc_log st4) = answers (llc_log st)"
    "Some st' = (
              if messsage_type m = WS_FT_DATA
              then let st = llc_user_confirm LOWPAN_USER (mpx_user_handle m) (cf_status conf) st4 in
                Some (case nb of
                        Some nb \<Rightarrow> if nb_link_lifetime nb \<le> 240 then event (Neighbor_remove (nb_index nb)) st else st
                      | None \<Rightarrow> st)
              else if messsage_type m = WS_FT_EAPOL
              then eapol_next env (llc_user_confirm KMP_USER (mpx_user_handle m) (cf_status conf)
                     (st4\<lparr>active_eapol_session := False\<rparr>))
              else Some (if timac env then st4 else event (Asynch_confirm (ucast (messsage_type m))) st4))"
proof -
  obtain i where i: "i < length (llc_message_list st)" "llc_message_list st ! i = m"
    using m by (auto simp: in_set_conv_nth)
  have d: "llc_message_discover_by_mac_handle (cf_handle conf) (llc_message_list st) = Some i"
    unfolding llc_message_discover_by_mac_handle_def find_index_Some
  proof (intro conjI allI impI)
    fix j assume j: "j < i"
    then have "map msg_handle (llc_message_list st) ! j \<noteq> map msg_handle (llc_message_list st) ! i"
      using inv i(1) by (subst nth_eq_iff_index_eq) (auto simp: llc_inv_def)
    then show "msg_handle (llc_message_list st ! j) \<noteq> cf_handle conf" using i j h by simp
  qed (use i h in simp_all)
  let ?st1 = "eapol_tx_confirm env conf m st"
  let ?asks = "(ack_requested m \<and> messsage_type m = WS_FT_DATA) \<and> dst_address_type m = 3"
  let ?nb = "if ?asks then neighbor_lookup env (dst_address m) else None"
  let ?st2 = "if ?asks then event (Neighbor_request (dst_address m) False) ?st1 else ?st1"
  obtain st3 where st3: "(case ?nb of None \<Rightarrow> Some ?st2
                 | Some nb \<Rightarrow> confirm_neighbour env conf (case ies of None \<Rightarrow> [] | Some h \<Rightarrow> h) nb ?st2) = Some st3"
    using r unfolding ws_llc_mac_confirm_cb_def Let_def if_not_P [OF ti] d option.case i(2)
    by (auto split: option.splits)
  have s2: "llc_inv ?st2" "llc_message_list ?st2 = llc_message_list st"
    "llc_eap_pending_list ?st2 = llc_eap_pending_list st" "active_eapol_session ?st2 = active_eapol_session st"
    "mpx_user_table ?st2 = mpx_user_table st" "answers (llc_log ?st2) = answers (llc_log st)"
    using eapol_tx_confirm_inv [where st = st and env = env and conf = conf and m = m] inv
    by (simp_all add: eapol_tx_confirm_log)
  have s3: "llc_inv st3" "llc_message_list st3 = llc_message_list st"
    "llc_eap_pending_list st3 = llc_eap_pending_list st" "active_eapol_session st3 = active_eapol_session st"
    "mpx_user_table st3 = mpx_user_table st" "answers (llc_log st3) = answers (llc_log st)"
    using st3 s2 confirm_neighbour_inv confirm_neighbour_log by (auto split: option.splits simp del: if_split)
  let ?st4 = "llc_message_free i st3"
  have s4: "llc_inv ?st4" "length (llc_message_list ?st4) < 16"
    using free_inv [OF s3(1), of i] i(1) s3(2) by simp_all
  show ?thesis
  proof (rule that [OF i s4(1) _ s4(2), of ?nb])
    show "Some st' = (
              if messsage_type m = WS_FT_DATA
              then let st = llc_user_confirm LOWPAN_USER (mpx_user_handle m) (cf_status conf) ?st4 in
                Some (case ?nb of
                        Some nb \<Rightarrow> if nb_link_lifetime nb \<le> 240 then event (Neighbor_remove (nb_index nb)) st else st
                      | None \<Rightarrow> st)
              else if messsage_type m = WS_FT_EAPOL
              then eapol_next env (llc_user_confirm KMP_USER (mpx_user_handle m) (cf_status conf)
                     (?st4\<lparr>active_eapol_session := False\<rparr>))
              else Some (if timac env then ?st4 else event (Asynch_confirm (ucast (messsage_type m))) ?st4))"
      unfolding r [symmetric] ws_llc_mac_confirm_cb_def Let_def if_not_P [OF ti] d option.case i(2) st3
      by (rule refl)
  qed (use s3 in simp_all)
qed

lemma user_confirm_answers:
  assumes "user_set st user"
  shows "answers (llc_log (llc_user_confirm user handle status st)) = answers (llc_log st) @ [(user, handle, status)]"
  using assms by (simp add: llc_user_confirm_def user_set_def)

lemma remove_at_others:
  assumes "distinct (map f xs)" and "i < length xs"
  shows "set (remove_at i xs) = set xs - {xs ! i}"
proof -
  have "xs = take i xs @ xs ! i # drop (Suc i) xs" using assms(2) by (simp add: id_take_nth_drop)
  moreover have "distinct (take i xs @ xs ! i # drop (Suc i) xs)"
    using assms by (simp add: distinct_map flip: id_take_nth_drop)
  ultimately have "set xs - {xs ! i} = set (take i xs) \<union> set (drop (Suc i) xs)"
    by (metis Diff_insert_absorb Un_iff Un_insert_right distinct.simps(2) distinct_append
        disjoint_insert(1) list.simps(15) set_append)
  then show ?thesis by (simp add: remove_at_def)
qed

lemma data_confirmed:
  assumes inv: "llc_inv st" and user: "user_set st LOWPAN_USER"
    and m: "m \<in> set (llc_message_list st)" "messsage_type m = WS_FT_DATA" and h: "cf_handle conf = msg_handle m"
    and ti: "\<not> (timac env \<and> ies = None)" and r: "ws_llc_mac_confirm_cb env conf ies st = Some st'"
  shows "answers (llc_log st') = answers (llc_log st) @ [(LOWPAN_USER, mpx_user_handle m, cf_status conf)]"
    and "set (llc_message_list st') = set (llc_message_list st) - {m}"
proof -
  obtain i st4 and nb :: "llc_neighbour option" where s: "i < length (llc_message_list st)"
    "llc_message_list st ! i = m" "llc_message_list st4 = remove_at i (llc_message_list st)"
    "mpx_user_table st4 = mpx_user_table st" "answers (llc_log st4) = answers (llc_log st)"
    "Some st' = (let st = llc_user_confirm LOWPAN_USER (mpx_user_handle m) (cf_status conf) st4 in
        Some (case nb of
                Some nb \<Rightarrow> if nb_link_lifetime nb \<le> 240 then event (Neighbor_remove (nb_index nb)) st else st
              | None \<Rightarrow> st))"
    by (rule confirm_step [OF inv m(1) h ti r]) (simp add: m(2))
  have u: "user_set st4 LOWPAN_USER"
    using user s(4) by (simp add: user_set_def ws_llc_mpx_user_discover_def)
  have "answers (llc_log st') = answers (llc_log (llc_user_confirm LOWPAN_USER (mpx_user_handle m) (cf_status conf) st4))"
    and l: "llc_message_list st' = remove_at i (llc_message_list st)"
    using s(3,6) by (auto simp: Let_def split: option.splits if_splits)
  then show "answers (llc_log st') = answers (llc_log st) @ [(LOWPAN_USER, mpx_user_handle m, cf_status conf)]"
    using user_confirm_answers [OF u] s(5) by simp
  show "set (llc_message_list st') = set (llc_message_list st) - {m}"
    using remove_at_others [of msg_handle "llc_message_list st" i] inv s(1,2) l by (simp add: llc_inv_def)
qed

section \<open>One EAPOL message at a time\<close>

definition eapol_listed :: "llc_message_t list \<Rightarrow> llc_message_t list" where
  "eapol_listed xs = filter (\<lambda>m. messsage_type m = WS_FT_EAPOL) xs"

definition eapol_serial :: "llc_data_base_t \<Rightarrow> bool" where
  "eapol_serial st \<longleftrightarrow> length (eapol_listed (llc_message_list st)) = (if active_eapol_session st then 1 else 0) \<and>
     (llc_eap_pending_list st \<noteq> [] \<longrightarrow> active_eapol_session st)"

lemma eapol_serial_same:
  assumes "eapol_serial st" and "eapol_listed (llc_message_list st') = eapol_listed (llc_message_list st)"
    and "active_eapol_session st' = active_eapol_session st" "llc_eap_pending_list st' = llc_eap_pending_list st"
  shows "eapol_serial st'"
  using assms by (simp add: eapol_serial_def)

lemma eapol_listed_snoc:
  "eapol_listed (xs @ [m]) = eapol_listed xs @ (if messsage_type m = WS_FT_EAPOL then [m] else [])"
  by (simp add: eapol_listed_def)

lemma eapol_listed_remove_at:
  assumes "i < length xs"
  shows "length (eapol_listed xs)
    = length (eapol_listed (remove_at i xs)) + (if messsage_type (xs ! i) = WS_FT_EAPOL then 1 else 0)"
proof -
  have "xs = take i xs @ xs ! i # drop (Suc i) xs" using assms by (simp add: id_take_nth_drop)
  then have "eapol_listed xs = eapol_listed (take i xs @ xs ! i # drop (Suc i) xs)" by simp
  then show ?thesis by (simp add: eapol_listed_def remove_at_def)
qed

lemma data_listed_remove_at:
  assumes "i < length xs" and "messsage_type (xs ! i) \<noteq> WS_FT_EAPOL"
  shows "eapol_listed (remove_at i xs) = eapol_listed xs"
proof -
  have "xs = take i xs @ xs ! i # drop (Suc i) xs" using assms by (simp add: id_take_nth_drop)
  then have "eapol_listed xs = eapol_listed (take i xs @ xs ! i # drop (Suc i) xs)" by simp
  then show ?thesis using assms by (simp add: eapol_listed_def remove_at_def)
qed

text \<open>
  The MAC takes every message and no EAPOL message is purged: an environment that refuses leaves the
  message in the list with no session, and a purged message leaves the session without a message.
\<close>

definition eapol_ok :: "llc_env \<Rightarrow> llc_op \<Rightarrow> bool" where
  "eapol_ok env oper \<longleftrightarrow> llc_op_ok env oper \<and> (timac env \<longrightarrow> (\<forall>rq. mac_accepts env rq = MLME_SUCCESS)) \<and>
     (case oper of Op_purge h user \<Rightarrow> user = LOWPAN_USER | _ \<Rightarrow> True)"

lemma eapol_request_serial:
  assumes inv: "llc_inv st" and ser: "eapol_serial st" and acc: "timac env \<longrightarrow> (\<forall>rq. mac_accepts env rq = MLME_SUCCESS)"
    and r: "ws_llc_mpx_eapol_request env data prio relay auth st = Some st'"
  shows "eapol_serial st'"
proof (cases "llc_message_allocate env st")
  case False
  with r ser show ?thesis by (auto simp: ws_llc_mpx_eapol_request_def eapol_serial_def)
next
  case True
  let ?f = "if timac env then Some no_frame
            else case hopping_schedule (ie_params st) of None \<Rightarrow> None
                 | Some hs \<Rightarrow> eapol_frame (env_codec env) (ie_params st) hs relay auth"
  obtain f where f: "?f = Some f"
    using r True unfolding ws_llc_mpx_eapol_request_def Let_def by (cases ?f) auto
  have run: "llc_inv st' \<and> (if active_eapol_session st
     then llc_message_list st' = llc_message_list st \<and> active_eapol_session st' \<and>
       (\<exists>m. llc_eap_pending_list st' = llc_eap_pending_list st @ [m])
     else \<exists>m. llc_message_list st' = llc_message_list st @ [m] \<and> messsage_type m = WS_FT_EAPOL \<and>
       llc_eap_pending_list st' = llc_eap_pending_list st \<and>
       (active_eapol_session st' \<or> timac env \<and> (\<exists>rq. mac_accepts env rq \<noteq> MLME_SUCCESS)))"
    using eapol_request_step [OF inv True f, where data = data and prio = prio] r by auto
  show ?thesis
    using run ser acc by (auto simp: eapol_serial_def eapol_listed_snoc split: if_splits)
qed

lemma lowpan_request_serial:
  assumes inv: "llc_inv st" and ser: "eapol_serial st"
    and r: "ws_llc_lowpan_mpx_data_request env data prio st = Some st'"
  shows "eapol_serial st'"
proof (cases "llc_message_allocate env st")
  case False
  with r ser show ?thesis by (auto simp: ws_llc_lowpan_mpx_data_request_def eapol_serial_def)
next
  case True
  let ?f = "if timac env then Some no_frame
            else case hopping_schedule (ie_params st) of None \<Rightarrow> None
                 | Some hs \<Rightarrow> lowpan_frame (env_codec env) (ie_params st) hs (rq_edfe data) (rq_tx_ack data)"
  obtain f where f: "?f = Some f"
    using r True unfolding ws_llc_lowpan_mpx_data_request_def Let_def by (cases ?f) auto
  obtain m where "llc_message_list st' = llc_message_list st @ [m]" "messsage_type m = WS_FT_DATA"
    "active_eapol_session st' = active_eapol_session st" "llc_eap_pending_list st' = llc_eap_pending_list st"
    using r by (auto intro: lowpan_request_step [OF inv True f, of prio])
  then show ?thesis by (intro eapol_serial_same [OF ser]) (simp_all add: eapol_listed_snoc)
qed

lemma eapol_next_serial:
  assumes inv: "llc_inv st" and room: "length (llc_message_list st) < 16"
    and idle: "\<not> active_eapol_session st" "eapol_listed (llc_message_list st) = []"
    and acc: "timac env \<longrightarrow> (\<forall>rq. mac_accepts env rq = MLME_SUCCESS)"
    and r: "eapol_next env st = Some st'"
  shows "eapol_serial st'"
proof (cases "llc_eap_pending_list st")
  case Nil
  then show ?thesis using r idle by (simp add: eapol_next_def eapol_serial_def)
next
  case (Cons m ms)
  let ?st = "event (Eapol_aq_calc (llc_eap_pending_list_size st - 1))
    (st\<lparr>llc_eap_pending_list := ms, llc_eap_pending_list_size := llc_eap_pending_list_size st - 1\<rparr>)"
  have inv': "llc_inv ?st" using inv Cons by (simp add: llc_inv_def)
  have ty: "messsage_type m = WS_FT_EAPOL" using inv Cons by (simp add: llc_inv_def)
  have room': "length (llc_message_list ?st) < 16" using room by simp
  obtain m' st2 status where s: "ws_llc_mpx_eapol_send env m ?st = Some (status, st2)"
    "llc_message_list st2 = llc_message_list ?st @ [m']" "messsage_type m' = WS_FT_EAPOL"
    "llc_eap_pending_list st2 = llc_eap_pending_list ?st"
    "status = MLME_SUCCESS \<or> timac env \<and> (\<exists>rq. mac_accepts env rq = status)"
    "active_eapol_session st2 = (active_eapol_session ?st \<or> status = MLME_SUCCESS)"
    by (rule eapol_send_step [OF inv' room' ty]) blast
  have "status = MLME_SUCCESS" using s(5) acc by auto
  moreover have "st' = st2" using r s(1) Cons by (simp add: eapol_next_def Let_def)
  ultimately show ?thesis using s idle by (simp add: eapol_serial_def eapol_listed_snoc)
qed

lemma confirm_serial:
  assumes inv: "llc_inv st" and ser: "eapol_serial st"
    and acc: "timac env \<longrightarrow> (\<forall>rq. mac_accepts env rq = MLME_SUCCESS)"
    and r: "ws_llc_mac_confirm_cb env conf ies st = Some st'"
  shows "eapol_serial st'"
proof (cases "timac env \<and> ies = None")
  case True
  with r ser show ?thesis by (auto simp: ws_llc_mac_confirm_cb_def eapol_serial_def)
next
  case ti: False
  show ?thesis
  proof (cases "llc_message_discover_by_mac_handle (cf_handle conf) (llc_message_list st)")
    case None
    with r ti ser show ?thesis by (auto simp: ws_llc_mac_confirm_cb_def)
  next
    case (Some k)
    let ?m = "llc_message_list st ! k"
    have m: "?m \<in> set (llc_message_list st)" and h: "cf_handle conf = msg_handle ?m"
      using find_index_SomeD [OF Some [unfolded llc_message_discover_by_mac_handle_def]] by simp_all
    show ?thesis
    proof (rule confirm_step [OF inv m h ti r])
      fix i st4 and nb :: "llc_neighbour option"
      assume i: "i < length (llc_message_list st)" "llc_message_list st ! i = ?m" and inv4: "llc_inv st4"
        and l4: "llc_message_list st4 = remove_at i (llc_message_list st)" and room: "length (llc_message_list st4) < 16"
        and same: "llc_eap_pending_list st4 = llc_eap_pending_list st"
          "active_eapol_session st4 = active_eapol_session st"
        and out: "Some st' = (
              if messsage_type ?m = WS_FT_DATA
              then let st = llc_user_confirm LOWPAN_USER (mpx_user_handle ?m) (cf_status conf) st4 in
                Some (case nb of
                        Some nb \<Rightarrow> if nb_link_lifetime nb \<le> 240 then event (Neighbor_remove (nb_index nb)) st else st
                      | None \<Rightarrow> st)
              else if messsage_type ?m = WS_FT_EAPOL
              then eapol_next env (llc_user_confirm KMP_USER (mpx_user_handle ?m) (cf_status conf)
                     (st4\<lparr>active_eapol_session := False\<rparr>))
              else Some (if timac env then st4 else event (Asynch_confirm (ucast (messsage_type ?m))) st4))"
      show "eapol_serial st'"
      proof (cases "messsage_type ?m = WS_FT_EAPOL")
        case True
        let ?st5 = "llc_user_confirm KMP_USER (mpx_user_handle ?m) (cf_status conf) (st4\<lparr>active_eapol_session := False\<rparr>)"
        have "length (eapol_listed (llc_message_list st)) \<le> 1" using ser by (simp add: eapol_serial_def)
        then have "eapol_listed (llc_message_list ?st5) = []"
          using eapol_listed_remove_at [OF i(1)] True i(2) l4 by simp
        moreover have "llc_inv ?st5" "length (llc_message_list ?st5) < 16" "\<not> active_eapol_session ?st5"
          using inv4 room by simp_all
        moreover have "eapol_next env ?st5 = Some st'" using out True by simp
        ultimately show ?thesis using eapol_next_serial acc by blast
      next
        case False
        have "eapol_listed (llc_message_list st4) = eapol_listed (llc_message_list st)"
          using data_listed_remove_at [OF i(1)] False i(2) l4 by simp
        then have "eapol_serial st4" by (rule eapol_serial_same [OF ser _ same(2,1)])
        then show ?thesis
          using out False by (auto simp: Let_def eapol_serial_def split: option.splits if_splits)
      qed
    qed
  qed
qed

lemma asynch_serial:
  assumes inv: "llc_inv st" and ser: "eapol_serial st" and r: "ws_llc_asynch_request env ty wh wp st = Some (b, st')"
    and ty: "ty \<noteq> WS_FT_EAPOL"
  shows "eapol_serial st'"
proof (cases "hopping_schedule (ie_params st)")
  case None
  with ser r show ?thesis by (simp add: ws_llc_asynch_request_def)
next
  case (Some hs)
  show ?thesis
  proof (cases "timac env \<or> high_priority_mode st \<or> \<not> llc_message_allocate env st")
    case True
    with ser r Some show ?thesis
      by (auto simp: ws_llc_asynch_request_def Let_def eapol_serial_def split: if_splits)
  next
    case False
    with r Some obtain f where f: "asynch_frame (env_codec env) (ie_params st) hs (ucast ty) wh wp = Some f"
      by (cases "asynch_frame (env_codec env) (ie_params st) hs (ucast ty) wh wp")
         (auto simp: ws_llc_asynch_request_def Let_def)
    have room: "length (llc_message_list st) < 16" using allocate_room [OF inv] False by blast
    let ?m0 = "new_message ty 0 0 f []"
    obtain h b1 where a: "llc_message_id_allocate ?m0 False st = Some (?m0\<lparr>msg_handle := h\<rparr>, st\<lparr>mac_handle_base := b1\<rparr>)"
      using id_allocate_finds [OF room, of ?m0 False] by (metis (full_types))
    from r Some False f a obtain rq n where
      st': "st' = event (Mac_data_req rq (?m0\<lparr>msg_handle := h\<rparr>) n)
        (llc_message_add (?m0\<lparr>msg_handle := h\<rparr>) (st\<lparr>mac_handle_base := b1\<rparr>))"
      by (auto simp: ws_llc_asynch_request_def Let_def)
    show ?thesis
      by (rule eapol_serial_same [OF ser])
         (use ty in \<open>simp_all add: st' llc_message_add_def Let_def eapol_listed_snoc\<close>)
  qed
qed

lemma purge_serial:
  assumes ser: "eapol_serial st" and user: "user = LOWPAN_USER"
  shows "eapol_serial (snd (ws_llc_mpx_data_purge_request env handle user st))"
proof (cases "llc_message_discover_mpx_user_id handle user (llc_message_list st)")
  case None
  then show ?thesis using ser by (simp add: ws_llc_mpx_data_purge_request_def)
next
  case (Some i)
  have i: "i < length (llc_message_list st)" "messsage_type (llc_message_list st ! i) \<noteq> WS_FT_EAPOL"
    using find_index_SomeD [OF Some [unfolded llc_message_discover_mpx_user_id_def Let_def]] user by auto
  let ?st = "event (Mac_purge (msg_handle (llc_message_list st ! i))) st"
  have "eapol_serial (llc_message_free i ?st)"
    by (rule eapol_serial_same [OF ser]) (simp_all add: data_listed_remove_at i)
  moreover have "eapol_serial ?st" using ser by (simp add: eapol_serial_def)
  ultimately show ?thesis using Some by (simp add: ws_llc_mpx_data_purge_request_def Let_def)
qed

lemma edfe_serial:
  assumes ser: "eapol_serial st" and r: "ws_llc_mcps_edfe_handler env ies h rsl st = Some (s, bs, st')"
  shows "eapol_serial st'"
proof -
  have l: "eapol_listed ((llc_message_list st)[i := (llc_message_list st ! i)\<lparr>ie_header := x\<rparr>]) = eapol_listed (llc_message_list st)
      \<or> i < length (llc_message_list st)" for i x
    by (cases "i < length (llc_message_list st)") (simp_all add: list_update_beyond)
  have n: "length (eapol_listed ((llc_message_list st)[i := (llc_message_list st ! i)\<lparr>ie_header := x\<rparr>]))
      = length (eapol_listed (llc_message_list st))" for i x
  proof (cases "i < length (llc_message_list st)")
    case True
    have "map messsage_type (eapol_listed ((llc_message_list st)[i := (llc_message_list st ! i)\<lparr>ie_header := x\<rparr>]))
        = map messsage_type (eapol_listed (llc_message_list st))"
      unfolding eapol_listed_def by (rule map_filter_update [OF True]) simp_all
    then show ?thesis by (metis length_map)
  qed (simp add: list_update_beyond)
  show ?thesis
    using r ser n by (auto simp: ws_llc_mcps_edfe_handler_def Let_def eapol_serial_def
        split: option.splits if_splits)
qed

lemma fast_timer_fields [simp]:
  "llc_message_list (ws_llc_fast_timer t st) = llc_message_list st"
  "active_eapol_session (ws_llc_fast_timer t st) = active_eapol_session st"
  "llc_eap_pending_list (ws_llc_fast_timer t st) = llc_eap_pending_list st"
  by (simp_all add: ws_llc_fast_timer_def Let_def)

lemma llc_exec_serial:
  assumes inv: "llc_inv st" and ser: "eapol_serial st" and ok: "eapol_ok env oper"
    and r: "llc_exec env oper st = Some st'"
  shows "eapol_serial st'"
proof (cases oper)
  case (Op_request data user prio relay auth)
  have acc: "timac env \<longrightarrow> (\<forall>rq. mac_accepts env rq = MLME_SUCCESS)" using ok by (simp add: eapol_ok_def)
  have r': "ws_llc_mpx_data_request env data user prio relay auth st = Some st'" using r Op_request by simp
  have ev: "eapol_serial (event e st)" for e using ser by (simp add: eapol_serial_def)
  consider "eapol_serial st'" | "ws_llc_mpx_eapol_request env data prio relay auth st = Some st'"
    | "ws_llc_lowpan_mpx_data_request env data prio st = Some st'"
    using r' ser ev by (auto simp: ws_llc_mpx_data_request_def split: option.splits if_splits)
  then show ?thesis
    using eapol_request_serial [OF inv ser acc] lowpan_request_serial [OF inv ser] by cases blast+
next
  case (Op_asynch ty wh wp)
  with r obtain b where "ws_llc_asynch_request env ty wh wp st = Some (b, st')" by auto
  then show ?thesis using asynch_serial [OF inv ser] ok Op_asynch by (simp add: eapol_ok_def llc_op_ok_def)
next
  case (Op_confirm conf ies)
  with r ok show ?thesis by (auto simp: eapol_ok_def intro: confirm_serial [OF inv ser])
next
  case (Op_purge h user)
  with r ok purge_serial [OF ser] show ?thesis by (auto simp: eapol_ok_def)
next
  case Op_clean
  with r clean_inv [OF inv] show ?thesis
    by (auto simp: eapol_serial_def eapol_listed_def) (simp add: ws_llc_clean_def)
next
  case (Op_edfe ies h rsl)
  with r obtain s bs where "ws_llc_mcps_edfe_handler env ies h rsl st = Some (s, bs, st')" by auto
  then show ?thesis by (rule edfe_serial [OF ser])
qed (use r ser in \<open>auto simp: eapol_serial_def ws_llc_mpx_eui64_purge_request_def
    ws_llc_mpx_data_cb_register_def wc_llc_mpx_priority_set_request_def
    split: option.splits\<close>)

lemma llc_reach_serial:
  assumes "llc_reach eapol_ok st"
  shows "eapol_serial st"
  using assms
proof induction
  case (create asynch)
  show ?case by (simp add: eapol_serial_def ws_llc_base_allocate_def eapol_listed_def)
next
  case (step st env oper st')
  have "llc_inv st" using step.hyps(1) by (rule llc_reach_inv) (simp add: eapol_ok_def)
  then show ?case using llc_exec_serial step by blast
qed

section \<open>Properties of the queue\<close>

text \<open>
  C4: in every state the data service can reach, whatever the MAC and the upper layers do, the count of
  its messages is exact and at most 16, no two of them have the same MAC handle, no two data or EAPOL
  messages have the same multiplexing sequence number, only EAPOL messages wait, and the three lists of
  temporary neighbours divide their table.
\<close>

theorem llc_queue_invariant:
  assumes "llc_reach llc_op_ok st"
  shows "unat (llc_message_list_size st) = length (llc_message_list st) \<and> length (llc_message_list st) \<le> 16 \<and>
    distinct (map msg_handle (llc_message_list st)) \<and>
    distinct (map message_mpx_id
      (filter (\<lambda>m. messsage_type m = WS_FT_DATA \<or> messsage_type m = WS_FT_EAPOL) (llc_message_list st))) \<and>
    (\<forall>m\<in>set (llc_eap_pending_list st). messsage_type m = WS_FT_EAPOL) \<and> temp_inv (temp_entries st)"
proof -
  have "llc_inv st" using assms by (rule llc_reach_inv)
  then show ?thesis unfolding llc_inv_def mpx_ids_def is_mpx_def by blast
qed

text \<open>A data service over the TI MAC with its user registered, and two requests.\<close>

definition llc_env_example :: "mlme_status \<Rightarrow> llc_env" where
  "llc_env_example status = \<lparr>env_codec = little_endian, timac = True, mpx_group_id = 3, alloc_ok = True,
     mac_accepts = (\<lambda>_. status), mac_asynch_accepts = (\<lambda>_. MLME_SUCCESS), purge_status = (\<lambda>_. 0),
     tx_temporary_ok = (\<lambda>_. True), neighbor_lookup = (\<lambda>_. None), temp_eapol_min_timeout = 330\<rparr>"

definition llc_request_example :: "u8 \<Rightarrow> mcps_data_req_t" where
  "llc_request_example h = \<lparr>rq_handle = h, rq_tx_ack = True, rq_dst_mode = 3, rq_src_mode = 3,
     rq_dst_addr = [1, 2, 3, 4, 5, 6, 7, 8], rq_dst_pan = 0xabcd, rq_edfe = False, rq_pan_suppressed = False,
     rq_seq_suppressed = False, rq_msdu = [11, 12, 13]\<rparr>"

definition registered_example :: llc_data_base_t where
  "registered_example = snd (ws_llc_mpx_data_cb_register LOWPAN_USER True True
     (snd (ws_llc_mpx_data_cb_register KMP_USER True True (ws_llc_base_allocate True))))"

lemma registered_reach:
  "llc_reach ok registered_example" if "\<And>u c i. ok (llc_env_example MLME_SUCCESS) (Op_register u c i)"
proof -
  let ?st = "ws_llc_base_allocate True"
  let ?st1 = "snd (ws_llc_mpx_data_cb_register KMP_USER True True ?st)"
  have "llc_reach ok ?st1"
    by (rule llc_reach.step [OF llc_reach.create [of ok True], of "llc_env_example MLME_SUCCESS" "Op_register KMP_USER True True"])
       (simp_all add: that)
  then show ?thesis
    by (rule llc_reach.step [of ok ?st1 "llc_env_example MLME_SUCCESS" "Op_register LOWPAN_USER True True"])
       (simp_all add: that registered_example_def)
qed

lemma registered_users: "user_set registered_example LOWPAN_USER" "user_set registered_example KMP_USER"
  "llc_message_list registered_example = []" "llc_message_list_size registered_example = 0"
  by (simp_all add: registered_example_def ws_llc_mpx_data_cb_register_def ws_llc_mpx_user_discover_def
      ws_llc_base_allocate_def user_set_def)

lemma returned: "\<not> Option.is_none x \<Longrightarrow> \<exists>y. x = Some y"
  by (cases x) simp_all

definition two_requests :: llc_data_base_t where
  "two_requests = the (lowpan_requests (llc_env_example MLME_SUCCESS) [llc_request_example 7, llc_request_example 8] registered_example)"

lemma lowpan_requests_reach:
  assumes "llc_reach ok st" and "lowpan_requests env ds st = Some st'"
    and "\<And>d. ok env (Op_request d LOWPAN_USER 0 False None)"
  shows "llc_reach ok st'"
  using assms(1,2)
proof (induction ds arbitrary: st)
  case (Cons d ds)
  then obtain st1 where s: "ws_llc_mpx_data_request env d LOWPAN_USER 0 False None st = Some st1"
    "lowpan_requests env ds st1 = Some st'" by (auto split: option.splits)
  have "llc_reach ok st1" by (rule llc_reach.step [OF Cons.prems(1) assms(3) [of d]]) (simp add: s(1))
  then show ?case using Cons.IH s(2) by blast
qed simp

lemma two_requests_facts:
  "lowpan_requests (llc_env_example MLME_SUCCESS) [llc_request_example 7, llc_request_example 8] registered_example = Some two_requests"
  "map (\<lambda>m. (msg_handle m, mpx_user_handle m, messsage_type m)) (llc_message_list two_requests) = [(0, 7, 4), (1, 8, 4)]"
  "llc_reach llc_op_ok two_requests"
proof -
  have "\<not> Option.is_none (lowpan_requests (llc_env_example MLME_SUCCESS) [llc_request_example 7, llc_request_example 8]
      registered_example)" by code_simp
  then show r: "lowpan_requests (llc_env_example MLME_SUCCESS) [llc_request_example 7, llc_request_example 8] registered_example
      = Some two_requests" by (auto simp: two_requests_def Option.is_none_def)
  show "map (\<lambda>m. (msg_handle m, mpx_user_handle m, messsage_type m)) (llc_message_list two_requests) = [(0, 7, 4), (1, 8, 4)]"
    by code_simp
  show "llc_reach llc_op_ok two_requests"
    by (rule lowpan_requests_reach [OF registered_reach r]) (simp_all add: llc_op_ok_def)
qed

theorem llc_queue_invariant_witness:
  "map msg_handle (llc_message_list two_requests) = [0, 1] \<and> unat (llc_message_list_size two_requests) = 2 \<and>
    distinct (map message_mpx_id
      (filter (\<lambda>m. messsage_type m = WS_FT_DATA \<or> messsage_type m = WS_FT_EAPOL) (llc_message_list two_requests)))"
proof -
  have "map msg_handle (llc_message_list two_requests) = map fst [(0, 7 :: u8, 4 :: 3 word), (1, 8, 4)]"
    unfolding two_requests_facts(2) [symmetric] by simp
  moreover from this have "length (llc_message_list two_requests) = 2"
    by (metis length_map list.size(3,4) numeral_2_eq_2 add_0 plus_1_eq_Suc add.commute)
  ultimately show ?thesis using llc_queue_invariant [OF two_requests_facts(3)] by simp
qed

text \<open>
  C12: a data request always returns, in every state the data service can reach: the loops over the
  MAC handles and over the sixteen sequence numbers end, no null schedule is used and no array is read
  behind its end. Over the TI MAC this needs nothing of the configuration; otherwise the byte helpers,
  the vendor data and the excluded channels are well formed.
\<close>

theorem llc_request_returns:
  assumes "llc_reach llc_op_ok st" and "frames_ok env st" and "auth = None \<or> (\<exists>a. auth = Some a \<and> length a = 8)"
  shows "\<exists>st'. ws_llc_mpx_data_request env data user prio relay auth st = Some st'"
proof -
  have "llc_inv st" using assms(1) by (rule llc_reach_inv)
  then show ?thesis using reach_request_returns [OF _ assms(2), where auth = auth] assms(3) by fastforce
qed

theorem llc_request_returns_witness:
  "\<exists>st'. ws_llc_mpx_data_request (llc_env_example MLME_SUCCESS) (llc_request_example 9) KMP_USER 0 True
     (Some [1, 2, 3, 4, 5, 6, 7, 8]) two_requests = Some st'"
  by (rule llc_request_returns [OF two_requests_facts(3)]) (simp_all add: frames_ok_def llc_env_example_def)

text \<open>
  C22: a message that the TI MAC refuses stays in the list although its user has been told that it
  failed. Requests refused one after the other fill the list to its 16 messages, and from then on every
  request is answered with an overflow without the MAC being asked.
\<close>

theorem refused_requests_block:
  assumes "llc_reach llc_op_ok st" and "user_set st LOWPAN_USER"
    and "timac env" "alloc_ok env" "\<forall>rq. mac_accepts env rq = status" "status \<noteq> MLME_SUCCESS"
    and "length (llc_message_list st) + length ds = 16"
  shows "\<exists>st'. lowpan_requests env ds st = Some st' \<and> length (llc_message_list st') = 16 \<and>
    (\<forall>data env'. timac env' \<longrightarrow> ws_llc_mpx_data_request env' data LOWPAN_USER 0 False None st'
       = Some (event (Data_confirm LOWPAN_USER (rq_handle data) MLME_TRANSACTION_OVERFLOW) st'))"
proof -
  have "llc_inv st" using assms(1) by (rule llc_reach_inv)
  from refused_requests [OF this assms(2) _ assms(3,5,6,4), of ds] assms(7) obtain st' where
    s: "lowpan_requests env ds st = Some st'" "llc_inv st'" "user_set st' LOWPAN_USER"
      "length (llc_message_list st') = 16" by auto
  then show ?thesis using full_queue_overflow by blast
qed

theorem refused_requests_block_witness:
  "\<exists>st'. lowpan_requests (llc_env_example MLME_TX_NO_ACK) (replicate 16 (llc_request_example 7)) registered_example = Some st' \<and>
    ws_llc_mpx_data_request (llc_env_example MLME_SUCCESS) (llc_request_example 8) LOWPAN_USER 0 False None st'
      = Some (event (Data_confirm LOWPAN_USER 8 MLME_TRANSACTION_OVERFLOW) st')"
proof -
  have "llc_reach llc_op_ok registered_example" by (rule registered_reach) (simp add: llc_op_ok_def)
  from refused_requests_block [OF this registered_users(1), of "llc_env_example MLME_TX_NO_ACK" MLME_TX_NO_ACK
      "replicate 16 (llc_request_example 7)"]
  obtain st' where s: "lowpan_requests (llc_env_example MLME_TX_NO_ACK) (replicate 16 (llc_request_example 7))
      registered_example = Some st'"
    "\<forall>data env'. timac env' \<longrightarrow> ws_llc_mpx_data_request env' data LOWPAN_USER 0 False None st'
       = Some (event (Data_confirm LOWPAN_USER (rq_handle data) MLME_TRANSACTION_OVERFLOW) st')"
    using registered_users(3) by (auto simp: llc_env_example_def)
  have "timac (llc_env_example MLME_SUCCESS)" "rq_handle (llc_request_example 8) = 8"
    by (simp_all add: llc_env_example_def llc_request_example_def)
  with s show ?thesis by metis
qed

text \<open>
  C14: the confirmation of a data message is answered once, to the user of data messages, with the
  user's own handle and the status the MAC reported; exactly that message leaves the list. This holds in
  every state the data service can reach, in the presence of other messages and of EAPOL messages.
\<close>

theorem llc_confirm_answers_user:
  assumes "llc_reach llc_op_ok st" and "user_set st LOWPAN_USER"
    and "m \<in> set (llc_message_list st)" "messsage_type m = WS_FT_DATA" and "cf_handle conf = msg_handle m"
    and "ws_llc_mac_confirm_cb env conf (Some ies) st = Some st'"
  shows "answers (llc_log st') = answers (llc_log st) @ [(LOWPAN_USER, mpx_user_handle m, cf_status conf)] \<and>
    set (llc_message_list st') = set (llc_message_list st) - {m}"
proof -
  have inv: "llc_inv st" using assms(1) by (rule llc_reach_inv)
  have "\<not> (timac env \<and> Some ies = None)" by simp
  then show ?thesis using data_confirmed [OF inv assms(2-5) _ assms(6)] by blast
qed

definition llc_conf_example :: mcps_data_conf_t where
  "llc_conf_example = \<lparr>cf_handle = 1, cf_status = MLME_TX_NO_ACK, cf_timestamp = 0, cf_tx_retries = 3\<rparr>"

lemma llc_confirm_example_facts:
  "\<not> Option.is_none (ws_llc_mac_confirm_cb (llc_env_example MLME_SUCCESS) llc_conf_example (Some []) two_requests)"
  "user_set two_requests LOWPAN_USER" "answers (llc_log two_requests) = []"
  "length (llc_message_list (the (ws_llc_mac_confirm_cb (llc_env_example MLME_SUCCESS) llc_conf_example (Some []) two_requests))) = 1"
  subgoal by code_simp
  subgoal unfolding user_set_def by code_simp
  subgoal by code_simp
  subgoal by code_simp
  done

theorem llc_confirm_answers_user_witness:
  "\<exists>st' m0. ws_llc_mac_confirm_cb (llc_env_example MLME_SUCCESS) llc_conf_example (Some []) two_requests = Some st' \<and>
    answers (llc_log st') = [(LOWPAN_USER, 8, MLME_TX_NO_ACK)] \<and>
    llc_message_list st' = [m0] \<and> mpx_user_handle m0 = 7"
proof -
  obtain st' where r: "ws_llc_mac_confirm_cb (llc_env_example MLME_SUCCESS) llc_conf_example (Some []) two_requests = Some st'"
    using returned [OF llc_confirm_example_facts(1)] by blast
  obtain m0 m1 where ms: "llc_message_list two_requests = [m0, m1]"
    and m: "messsage_type m1 = WS_FT_DATA" "msg_handle m1 = 1" "mpx_user_handle m1 = 8" "mpx_user_handle m0 = 7"
    using two_requests_facts(2) by auto
  have h: "m1 \<in> set (llc_message_list two_requests)" "cf_handle llc_conf_example = msg_handle m1"
    using ms m(2) by (simp_all add: llc_conf_example_def)
  note c = llc_confirm_answers_user [OF two_requests_facts(3) llc_confirm_example_facts(2) h(1) m(1) h(2) r]
  have "answers (llc_log st') = [(LOWPAN_USER, 8, MLME_TX_NO_ACK)]"
    using c llc_confirm_example_facts(3) m(3) by (simp add: llc_conf_example_def)
  moreover obtain x where x: "llc_message_list st' = [x]"
    using llc_confirm_example_facts(4) unfolding r option.sel by (auto simp: length_Suc_conv)
  moreover have "x = m0" using c x ms by auto
  ultimately show ?thesis using r m(4) by blast
qed

text \<open>
  C16: when the MAC takes every message and no EAPOL message is purged, at most one EAPOL message is at
  the MAC in every state the data service can reach: the others wait, and wait only while there is one.
\<close>

theorem eapol_one_at_a_time:
  assumes "llc_reach eapol_ok st"
  shows "length (filter (\<lambda>m. messsage_type m = WS_FT_EAPOL) (llc_message_list st)) \<le> 1 \<and>
    (llc_eap_pending_list st \<noteq> [] \<longrightarrow>
       length (filter (\<lambda>m. messsage_type m = WS_FT_EAPOL) (llc_message_list st)) = 1)"
  using llc_reach_serial [OF assms] by (auto simp: eapol_serial_def eapol_listed_def split: if_splits)

definition eapol_requests :: llc_data_base_t where
  "eapol_requests = the (Option.bind
     (ws_llc_mpx_data_request (llc_env_example MLME_SUCCESS) (llc_request_example 7) KMP_USER 0 False None registered_example)
     (ws_llc_mpx_data_request (llc_env_example MLME_SUCCESS) (llc_request_example 8) KMP_USER 0 False None))"

theorem eapol_one_at_a_time_witness:
  "length (llc_eap_pending_list eapol_requests) = 1 \<and>
    length (filter (\<lambda>m. messsage_type m = WS_FT_EAPOL) (llc_message_list eapol_requests)) = 1"
proof -
  let ?req = "\<lambda>h. ws_llc_mpx_data_request (llc_env_example MLME_SUCCESS) (llc_request_example h) KMP_USER 0 False None"
  have "\<not> Option.is_none (?req 7 registered_example)" by code_simp
  then obtain st1 where r1: "?req 7 registered_example = Some st1" using returned by blast
  have "\<not> Option.is_none (Option.bind (?req 7 registered_example) (?req 8))" by code_simp
  then have r2: "?req 8 st1 = Some eapol_requests"
    by (auto simp: Option.is_none_def r1 eapol_requests_def)
  have ok: "eapol_ok (llc_env_example MLME_SUCCESS) (Op_request d KMP_USER 0 False None)" for d
    by (simp add: eapol_ok_def llc_op_ok_def llc_env_example_def)
  have "llc_reach eapol_ok registered_example"
    by (rule registered_reach) (simp add: eapol_ok_def llc_op_ok_def llc_env_example_def)
  then have "llc_reach eapol_ok st1" by (rule llc_reach.step [where ok = eapol_ok, OF _ ok [of "llc_request_example 7"]]) (simp add: r1)
  then have "llc_reach eapol_ok eapol_requests"
    by (rule llc_reach.step [where ok = eapol_ok, OF _ ok [of "llc_request_example 8"]]) (simp add: r2)
  moreover have p: "length (llc_eap_pending_list eapol_requests) = 1" by code_simp
  moreover from p have "llc_eap_pending_list eapol_requests \<noteq> []" by auto
  ultimately show ?thesis using eapol_one_at_a_time by blast
qed

end
