(* ===== verification/LlcIndProps.thy ===== *)
theory LlcIndProps
  imports LlcInd LlcProps WsNodeProps
begin

text \<open>
  A received frame keeps the invariants of the node and of the data service, and does not touch the
  queue of the service. A data frame that the MAC delivers twice reaches the user once.
\<close>

section \<open>What a frame changes\<close>

definition keeps :: "ind_state \<Rightarrow> ind_state \<Rightarrow> bool" where
  "keeps s s' \<longleftrightarrow> (ws_reach (node s) \<longrightarrow> ws_reach (node s')) \<and>
     (\<exists>t. base s' = (base s)\<lparr>temp_entries := t\<rparr> \<and> (temp_inv (temp_entries (base s)) \<longrightarrow> temp_inv t))"

lemma keeps_refl [simp]: "keeps s s"
  unfolding keeps_def by (intro conjI impI exI [of _ "temp_entries (base s)"]) simp_all

lemma keeps_trans [trans]: "keeps s1 s2 \<Longrightarrow> keeps s2 s3 \<Longrightarrow> keeps s1 s3"
  unfolding keeps_def by auto

definition ref_ok :: "ind_state \<Rightarrow> ws_ref \<Rightarrow> bool" where
  "ref_ok s r \<longleftrightarrow> (case r of Registered i \<Rightarrow> i \<in> nbrs (nbr_table (node s)) | Temporary k \<Rightarrow> True)"

definition nb_ok :: "ind_state \<Rightarrow> u8 option \<Rightarrow> bool" where
  "nb_ok s nb \<longleftrightarrow> (case nb of Some i \<Rightarrow> i \<in> nbrs (nbr_table (node s)) | None \<Rightarrow> True)"

definition same_nbrs :: "ind_state \<Rightarrow> ind_state \<Rightarrow> bool" where
  "same_nbrs s s' \<longleftrightarrow> nbrs (nbr_table (node s')) = nbrs (nbr_table (node s))"

lemma same_nbrs_ok: "same_nbrs s s' \<Longrightarrow> ref_ok s' r = ref_ok s r \<and> nb_ok s' nb = nb_ok s nb"
  by (simp add: same_nbrs_def ref_ok_def nb_ok_def split: ws_ref.split option.split)

lemma same_nbrs_trans [trans]: "same_nbrs s1 s2 \<Longrightarrow> same_nbrs s2 s3 \<Longrightarrow> same_nbrs s1 s3"
  by (simp add: same_nbrs_def)

lemma ind_event_fields [simp]:
  "node (ind_event e s) = node s" "base (ind_event e s) = base s" "mac_pan_id (ind_event e s) = mac_pan_id s"
  "ind_log (ind_event e s) = ind_log s @ [e]"
  by (simp_all add: ind_event_def)

lemma keeps_fields [simp]:
  "keeps s (ind_event e s') = keeps s s'" "keeps s (s'\<lparr>device_min_sens := d\<rparr>) = keeps s s'"
  "keeps s (s'\<lparr>mac_pan_id := p\<rparr>) = keeps s s'" "keeps s (s'\<lparr>network_pan_id := p\<rparr>) = keeps s s'"
  "same_nbrs s (ind_event e s') = same_nbrs s s'" "same_nbrs s (s'\<lparr>device_min_sens := d\<rparr>) = same_nbrs s s'"
  by (simp_all add: keeps_def same_nbrs_def)

lemma temps_upd_keeps:
  assumes "\<And>t. temp_inv t \<Longrightarrow> temp_inv (f t)"
  shows "keeps s (temps_upd f s)" and "same_nbrs s (temps_upd f s)"
  using assms by (auto simp: keeps_def temps_upd_def same_nbrs_def)

lemma ws_put_keeps:
  assumes "ref_ok s r"
  shows "keeps s (ws_put r e s)" and "same_nbrs s (ws_put r e s)"
proof -
  have "keeps s (ws_put r e s) \<and> same_nbrs s (ws_put r e s)"
  proof (cases r)
    case (Registered i)
    then have "ws_reach (node s) \<Longrightarrow> ws_reach (node (ws_put r e s))"
      using ws_reach.entry_write [of "node s" i e] assms by (simp add: ws_put_def ref_ok_def)
    moreover have "base (ws_put r e s) = base s" using Registered by (simp add: ws_put_def)
    ultimately have "keeps s (ws_put r e s)"
      unfolding keeps_def by (intro conjI impI exI [of _ "temp_entries (base s)"]) simp_all
    then show ?thesis using Registered by (simp add: ws_put_def same_nbrs_def)
  next
    case (Temporary k)
    show ?thesis
      unfolding ws_put_def Temporary ws_ref.case by (intro conjI temps_upd_keeps temp_update_inv) simp_all
  qed
  then show "keeps s (ws_put r e s)" "same_nbrs s (ws_put r e s)" by simp_all
qed

lemma trusted_nbrs: "nbrs (mac_neighbor_table_trusted_neighbor i b (nbr_table (n :: ws_node))) = nbrs (nbr_table n)"
  using nbr_modify_nbrs [of "\<lambda>e. (let e = (if \<not> trusted_device e \<and> b then e\<lparr>lifetime := link_lifetime e\<rparr> else e)
       in e\<lparr>trusted_device := b\<rparr>)" i n]
  by (simp add: mac_neighbor_table_trusted_neighbor_def nbr_modify_def Let_def)

lemma data_stages:
  assumes r: "ref_ok s r" and nb: "nb_ok s nb"
  shows "keeps s (data_timing data bt nb r e s) \<and> same_nbrs s (data_timing data bt nb r e s)"
    and "keeps s (data_heard data r s) \<and> same_nbrs s (data_heard data r s)"
    and "keeps s (data_signal env data r s) \<and> same_nbrs s (data_signal env data r s)"
    and "keeps s (data_trust env data nb s) \<and> same_nbrs s (data_trust env data nb s)"
proof -
  show "keeps s (data_timing data bt nb r e s) \<and> same_nbrs s (data_timing data bt nb r e s)"
    using ws_put_keeps [OF r] by (simp add: data_timing_def Let_def split: option.split)
  show "keeps s (data_heard data r s) \<and> same_nbrs s (data_heard data r s)"
  proof (cases "in_dst_mode data = 3")
    case True
    then show ?thesis using ws_put_keeps [OF r] by (simp add: data_heard_def)
  qed (simp add: data_heard_def same_nbrs_def)
  let ?d = "ws_neighbor_class_rf_sensitivity_calculate (min_sens_config env) (in_signal_dbm data) (device_min_sens s)"
  have "ref_ok (s\<lparr>device_min_sens := ?d\<rparr>) r" using r by (simp add: ref_ok_def split: ws_ref.splits)
  note put = ws_put_keeps [OF this]
  have "keeps s (s\<lparr>device_min_sens := ?d\<rparr>)" "same_nbrs s (s\<lparr>device_min_sens := ?d\<rparr>)" by (simp_all add: same_nbrs_def)
  then show "keeps s (data_signal env data r s) \<and> same_nbrs s (data_signal env data r s)"
    unfolding data_signal_def Let_def using put keeps_trans same_nbrs_trans by blast
  show "keeps s (data_trust env data nb s) \<and> same_nbrs s (data_trust env data nb s)"
  proof (cases "nb = None \<or> in_security_level data = 0 \<and> \<not> auth_none env")
    case True
    then have "data_trust env data nb s = s" by (auto simp: data_trust_def split: option.split)
    then show ?thesis by (simp add: same_nbrs_def)
  next
    case False
    then obtain i where i: "nb = Some i" by (cases nb) auto
    let ?n = "(node s)\<lparr>nbr_table := mac_neighbor_table_trusted_neighbor i True (nbr_table (node s))\<rparr>"
    have "ws_reach (node s) \<Longrightarrow> ws_reach ?n"
      by (rule ws_reach.trusted) (use nb i in \<open>simp_all add: nb_ok_def\<close>)
    then have "keeps s (s\<lparr>node := ?n\<rparr>)"
      unfolding keeps_def by (intro conjI impI exI [of _ "temp_entries (base s)"]) simp_all
    moreover have "data_trust env data nb s = s\<lparr>node := ?n\<rparr>" using False i by (simp add: data_trust_def)
    ultimately show ?thesis by (simp add: same_nbrs_def trusted_nbrs)
  qed
qed

lemma data_accepted_keeps:
  assumes r: "ref_ok s r" and nb: "nb_ok s nb" and run: "data_accepted env data ies utt us bs user nb r s = Some s'"
  shows "keeps s s'"
proof -
  from run obtain e bt where s': "s' = ind_event (Data_ind (fst user) (fst (snd user)) (snd (snd user))
      (if nb = None then 0 else in_security_level data))
      (data_trust env data nb (data_signal env data r (data_heard data r (data_timing data bt nb r e s))))"
    by (auto simp: data_accepted_def Let_def bind_eq_Some_conv)
  let ?s1 = "data_timing data bt nb r e s" and ?s2 = "data_heard data r (data_timing data bt nb r e s)"
  let ?s3 = "data_signal env data r ?s2"
  have k1: "keeps s ?s1" "same_nbrs s ?s1" using data_stages(1) [OF r nb] by simp_all
  have o1: "ref_ok ?s1 r" "nb_ok ?s1 nb" using same_nbrs_ok [OF k1(2)] r nb by simp_all
  have k2: "keeps ?s1 ?s2" "same_nbrs ?s1 ?s2" using data_stages(2) [OF o1] by simp_all
  have o2: "ref_ok ?s2 r" "nb_ok ?s2 nb" using same_nbrs_ok [OF k2(2)] o1 by simp_all
  have k3: "keeps ?s2 ?s3" "same_nbrs ?s2 ?s3" using data_stages(3) [OF o2] by simp_all
  have o3: "ref_ok ?s3 r" "nb_ok ?s3 nb" using same_nbrs_ok [OF k3(2)] o2 by simp_all
  have k4: "keeps ?s3 (data_trust env data nb ?s3)" using data_stages(4) [OF o3] by simp
  show ?thesis unfolding s' using keeps_trans [OF keeps_trans [OF keeps_trans [OF k1(1) k2(1)] k3(1)] k4] by simp
qed

section \<open>The sender\<close>

text \<open>A neighbour the request names is in the table; one that is named without success was there before.\<close>

lemma request_nbrs:
  assumes "ws_bootstrap_neighbor_info_request env mac new n = ((found, Some i), n')" and "ws_reach n"
    and "found \<or> \<not> new"
  shows "i \<in> nbrs (nbr_table n')"
proof (cases "ws_discover env n mac")
  case (Some j)
  then show ?thesis
    using assms(1) ws_discover_nbrs [OF Some] by (auto simp: ws_bootstrap_neighbor_info_request_def)
next
  case None
  with assms(1,3) have new: "new" and found: "found"
    by (auto simp: ws_bootstrap_neighbor_info_request_def split: if_splits)
  obtain r s1 where a: "ws_bootstrap_mac_neighbor_add env mac (ws_bootstrap_neighbor_table_clean env n) = (r, s1)"
    by (rule prod.exhaust)
  have "r = Some i" "n' = log_call (Stats_update STATS_WS_NEIGHBOUR_ADD) s1"
    using assms(1) None new found a
    by (auto simp: ws_bootstrap_neighbor_info_request_def split: option.splits if_splits)
  moreover have "node_inv {} (ws_bootstrap_neighbor_table_clean env n)"
    by (rule table_clean_inv [OF ws_reach_inv [OF assms(2)]])
  ultimately show ?thesis using mac_neighbor_add_inv(2) a by (auto simp: log_call_def)
qed

lemma request_found_named:
  assumes "ws_bootstrap_neighbor_info_request env mac new n = ((True, nb), n')"
  shows "\<exists>i. nb = Some i"
proof (cases "ws_discover env n mac")
  case (Some i)
  with assms have "nb = Some i" by (simp add: ws_bootstrap_neighbor_info_request_def split: if_splits)
  then show ?thesis by blast
next
  case None
  with assms show ?thesis
    by (auto simp: ws_bootstrap_neighbor_info_request_def split: option.splits prod.splits if_splits)
qed

lemma request_keeps:
  assumes "ws_bootstrap_neighbor_info_request (node_env env) mac new (node s) = ((found, nb), n')"
  shows "keeps s (s\<lparr>node := n'\<rparr>)"
  using ws_reach.neighbor_request [of "node s" "node_env env" mac new] assms
  unfolding keeps_def by (intro conjI impI exI [of _ "temp_entries (base s)"]) simp_all

lemma data_sender_keeps:
  assumes run: "data_sender env data us_inline s = Some (sender, s')" and reach: "ws_reach (node s)"
  shows "keeps s s'" and "sender = Some (nb, r) \<Longrightarrow> ref_ok s' r \<and> nb_ok s' nb"
proof -
  let ?new = "\<not> in_dst_mode data \<noteq> 3 \<and> us_inline"
  obtain found nb' n where q: "ws_bootstrap_neighbor_info_request (node_env env) (in_src_addr data) ?new (node s)
      = ((found, nb'), n)" by (metis prod.exhaust)
  note k = request_keeps [OF q]
  have "keeps s s' \<and> (\<forall>nb r. sender = Some (nb, r) \<longrightarrow> ref_ok s' r \<and> nb_ok s' nb)"
  proof (cases found)
    case True
    then obtain i where nb: "nb' = Some i" using request_found_named q by (metis (full_types))
    have "i \<in> nbrs (nbr_table n)" using request_nbrs [OF q [unfolded nb] reach] True by simp
    moreover have "sender = Some (nb', Registered i)" "s' = s\<lparr>node := n\<rparr>"
      using run q True nb by (simp_all add: data_sender_def Let_def)
    ultimately show ?thesis using k nb by (simp add: ref_ok_def nb_ok_def)
  next
    case False
    show ?thesis
    proof (cases "in_dst_mode data = 3")
      case True
      then show ?thesis using run q False k by (auto simp: data_sender_def Let_def)
    next
      case multicast: False
      obtain k' tbl where a: "ws_allocate_multicast_temp_entry (temp_entries (base s)) (in_src_addr data) = Some (k', tbl)"
        using run q False multicast by (auto simp: data_sender_def Let_def split: option.splits)
      have out: "sender = Some (nb', Temporary k')"
        "s' = temps_upd (\<lambda>_. temp_update k' (temp_signal data) tbl) (s\<lparr>node := n\<rparr>)"
        using run q False multicast a by (simp_all add: data_sender_def Let_def)
      have "temp_inv (temp_entries (base s)) \<Longrightarrow> temp_inv (temp_update k' (temp_signal data) tbl)"
        using multicast_allocate_total [of "temp_entries (base s)" "in_src_addr data"] a
        by (intro temp_update_inv) (auto simp: temp_signal_def)
      then have "keeps s s'"
        using k unfolding out(2) by (auto simp: keeps_def temps_upd_def)
      moreover have "nb_ok s' nb'"
        using request_nbrs [OF _ reach] q multicast by (auto simp: nb_ok_def out(2) temps_upd_def split: option.split)
      ultimately show ?thesis using out(1) by (simp add: ref_ok_def)
    qed
  qed
  then show "keeps s s'" "sender = Some (nb, r) \<Longrightarrow> ref_ok s' r \<and> nb_ok s' nb" by blast+
qed

lemma eapol_sender_keeps:
  assumes run: "eapol_sender env data s = Some (sender, s')" and reach: "ws_reach (node s)"
  shows "keeps s s'" and "sender = Some (nb, r) \<Longrightarrow> ref_ok s' r"
proof -
  obtain found nb' n where q: "ws_bootstrap_neighbor_info_request (node_env env) (in_src_addr data) False (node s)
      = ((found, nb'), n)" by (metis prod.exhaust)
  note k = request_keeps [OF q]
  have "keeps s s' \<and> (\<forall>nb r. sender = Some (nb, r) \<longrightarrow> ref_ok s' r)"
  proof (cases found)
    case True
    then obtain i where nb: "nb' = Some i" using request_found_named q by (metis (full_types))
    have "i \<in> nbrs (nbr_table n)" using request_nbrs [OF q [unfolded nb] reach] True by simp
    moreover have "sender = Some (nb', Registered i)" "s' = s\<lparr>node := n\<rparr>"
      using run q True nb by (simp_all add: eapol_sender_def Let_def)
    ultimately show ?thesis using k by (simp add: ref_ok_def)
  next
    case False
    obtain m tbl where a: "ws_allocate_eapol_temp_entry (temp_entries (base s)) (in_src_addr data) = (m, tbl)"
      by (rule prod.exhaust)
    have inv: "temp_inv (temp_entries (base s)) \<Longrightarrow> temp_inv tbl"
      using temp_eapol_allocate_inv [where base = "temp_entries (base s)" and mac = "in_src_addr data"] a by simp
    show ?thesis
    proof (cases m)
      case None
      then show ?thesis using run q False a k inv
        by (auto simp: eapol_sender_def Let_def keeps_def temps_upd_def)
    next
      case (Some k')
      then show ?thesis using run q False a k inv
        by (auto simp: eapol_sender_def Let_def keeps_def temps_upd_def ref_ok_def temp_signal_def intro!: temp_update_inv)
    qed
  qed
  then show "keeps s s'" "sender = Some (nb, r) \<Longrightarrow> ref_ok s' r" by blast+
qed

section \<open>Whole frames\<close>

lemma configure_panid_keeps: "keeps s (data_vendor env vp s)"
  by (simp add: data_vendor_def ws_bootstrap_configure_network_panid_def Let_def split: option.split)

lemma release_keeps: "keeps s (release_sender data s)"
  unfolding release_sender_def by (rule temps_upd_keeps(1)) (rule temp_release_inv)

definition delivered :: "llc_ind_event list \<Rightarrow> llc_ind_event list" where
  "delivered es = filter (\<lambda>e. case e of Data_ind u p n l \<Rightarrow> True | _ \<Rightarrow> False) es"

lemma delivered_simps [simp]:
  "delivered [] = []" "delivered (xs @ ys) = delivered xs @ delivered ys"
  "delivered [Data_ind u p n l] = [Data_ind u p n l]" "delivered [Fhss_set_parent m b] = []"
  "delivered [Timac_set_pan_id i] = []"
  by (simp_all add: delivered_def)

text \<open>The way of a frame that gets as far as its sender.\<close>

lemma data_vendor_fields [simp]:
  "node (data_vendor env vp s) = node s" "delivered (ind_log (data_vendor env vp s)) = delivered (ind_log s)"
  by (simp_all add: data_vendor_def ws_bootstrap_configure_network_panid_def Let_def split: option.split)

lemma release_sender_fields [simp]:
  "node (release_sender data s) = node s" "ind_log (release_sender data s) = ind_log s"
  by (simp_all add: release_sender_def temps_upd_def)

lemma data_indication_path:
  assumes run: "ws_llc_data_indication_cb env data ies utt s = Some s'"
  obtains "s' = s"
    | us bs user s2 sender s3 where "node s2 = node s" "delivered (ind_log s2) = delivered (ind_log s)"
      "keeps s s2"
      "data_sender env data (us \<noteq> None) s2 = Some (sender, s3)"
      "Some s' = (case sender of
         None \<Rightarrow> Some s3
       | Some (nb, r) \<Rightarrow>
           let (fresh, e) = ws_neighbor_class_neighbor_duplicate_packet_check (in_dsn data) (in_timestamp data) (ws_at s3 r) in
           if in_dst_mode data = 3 \<and> \<not> in_dsn_suppressed data
           then if \<not> fresh then Some (ws_put r e s3)
                else data_accepted env data ies utt us bs user nb r (ws_put r e s3)
           else data_accepted env data ies utt us bs user nb r s3)"
proof (cases "ws_llc_mpx_frame_common_validates env data (uw_message_type utt) s")
  case False
  then show ?thesis using run that(1) by (simp add: ws_llc_data_indication_cb_def)
next
  case True
  obtain parsed where p: "ws_llc_mpx_header_parse env ies s = Some parsed"
    using run True by (auto simp: ws_llc_data_indication_cb_def bind_eq_Some_conv)
  show ?thesis
  proof (cases parsed)
    case None
    then show ?thesis using run True p that(1) by (simp add: ws_llc_data_indication_cb_def)
  next
    case (Some user)
    obtain us bs vp valid where n: "ws_nested_elements env True ies = Some (us, bs, vp)"
      "schedules_valid env us bs = Some valid"
      using run True p Some by (auto simp: ws_llc_data_indication_cb_def bind_eq_Some_conv)
    show ?thesis
    proof (cases valid)
      case False
      then show ?thesis using run True p Some n that(1) by (simp add: ws_llc_data_indication_cb_def)
    next
      case valid: True
      obtain s2 where s2: "s2 = (if in_security_level data \<noteq> 0 then release_sender data (data_vendor env vp s)
          else data_vendor env vp s)" by blast
      obtain sender s3 where q: "data_sender env data (us \<noteq> None) s2 = Some (sender, s3)"
        using run True p Some n valid
        by (auto simp: ws_llc_data_indication_cb_def bind_eq_Some_conv Let_def s2 simp del: not_None_eq)
      show ?thesis
      proof (rule that(2) [OF _ _ _ q])
        show "keeps s s2" using keeps_trans [OF configure_panid_keeps release_keeps] configure_panid_keeps by (simp add: s2)
        show "node s2 = node s" "delivered (ind_log s2) = delivered (ind_log s)" by (simp_all add: s2)
        show "Some s' = (case sender of
             None \<Rightarrow> Some s3
           | Some (nb, r) \<Rightarrow>
               let (fresh, e) = ws_neighbor_class_neighbor_duplicate_packet_check (in_dsn data) (in_timestamp data) (ws_at s3 r) in
               if in_dst_mode data = 3 \<and> \<not> in_dsn_suppressed data
               then if \<not> fresh then Some (ws_put r e s3)
                    else data_accepted env data ies utt us bs user nb r (ws_put r e s3)
               else data_accepted env data ies utt us bs user nb r s3)"
          using run True p Some n valid q
          by (simp add: ws_llc_data_indication_cb_def Let_def s2 [symmetric] del: not_None_eq)
      qed
    qed
  qed
qed

lemma data_indication_keeps:
  assumes run: "ws_llc_data_indication_cb env data ies utt s = Some s'" and reach: "ws_reach (node s)"
  shows "keeps s s'"
  using run
proof (cases rule: data_indication_path)
  case 1
  then show ?thesis by simp
next
  case (2 us bs user s2 sender s3)
  have "ws_reach (node s2)" using 2(1) reach by simp
  note q = data_sender_keeps [OF 2(4) this]
  have k3: "keeps s s3" by (rule keeps_trans [OF 2(3) q(1)])
  show ?thesis
  proof (cases sender)
    case None
    then show ?thesis using 2(5) k3 by simp
  next
    case (Some x)
    obtain nb r where x: "x = (nb, r)" by (rule prod.exhaust)
    have ok: "ref_ok s3 r" "nb_ok s3 nb" using q(2) Some x by auto
    obtain fresh e where d: "ws_neighbor_class_neighbor_duplicate_packet_check (in_dsn data) (in_timestamp data) (ws_at s3 r)
        = (fresh, e)" by (rule prod.exhaust)
    note put = ws_put_keeps [OF ok(1), of e]
    have ok4: "ref_ok (ws_put r e s3) r" "nb_ok (ws_put r e s3) nb" using same_nbrs_ok [OF put(2)] ok by simp_all
    show ?thesis
      using 2(5) Some x d keeps_trans [OF k3 put(1)]
        keeps_trans [OF k3 data_accepted_keeps [OF ok, of env data ies utt us bs user s']]
        keeps_trans [OF keeps_trans [OF k3 put(1)] data_accepted_keeps [OF ok4, of env data ies utt us bs user s']]
      by (auto split: if_splits)
  qed
qed

lemma eapol_indication_keeps:
  assumes run: "ws_llc_eapol_indication_cb env data ies utt s = Some s'" and reach: "ws_reach (node s)"
  shows "keeps s s'"
proof (cases "\<not> ws_llc_mpx_frame_common_validates env data (uw_message_type utt) s \<or> in_dst_mode data \<noteq> 3")
  case True
  then show ?thesis using run by (auto simp: ws_llc_eapol_indication_cb_def)
next
  case False
  obtain parsed where p: "ws_llc_mpx_header_parse env ies s = Some parsed"
    using run False by (auto simp: ws_llc_eapol_indication_cb_def bind_eq_Some_conv)
  show ?thesis
  proof (cases parsed)
    case None
    then show ?thesis using run False p by (simp add: ws_llc_eapol_indication_cb_def)
  next
    case (Some user)
    obtain u ptr len where user: "user = (u, ptr, len)" by (metis prod.exhaust)
    obtain us bs vp valid where n: "ws_nested_elements env False ies = Some (us, bs, vp)"
      "schedules_valid env us bs = Some valid"
      using run False p Some user by (auto simp: ws_llc_eapol_indication_cb_def bind_eq_Some_conv)
    show ?thesis
    proof (cases valid)
      case inv: False
      then show ?thesis using run False p Some user n by (simp add: ws_llc_eapol_indication_cb_def)
    next
      case valid: True
      obtain sender s3 where q: "eapol_sender env data s = Some (sender, s3)"
        using run False p Some user n valid by (auto simp: ws_llc_eapol_indication_cb_def bind_eq_Some_conv)
      note sender = eapol_sender_keeps [OF q reach]
      show ?thesis
      proof (cases sender)
        case None
        then show ?thesis using run False p Some user n valid q sender(1)
          by (simp add: ws_llc_eapol_indication_cb_def)
      next
        case (Some x)
        obtain nb r where x: "x = (nb, r)" by (rule prod.exhaust)
        have ok: "ref_ok s3 r" using sender(2) Some x by auto
        obtain e ea bt where e: "sender_unicast env data ies utt us bs (ws_at s3 r) = Some e"
          "(if auth_mbedtls env then ws_wh_ea_read (env_codec (base_env env)) (header_ies ies) 0
              (word_of_nat (length (header_ies ies))) else Some None) = Some ea"
          "ws_read_bt env ies = Some bt"
          using run False p \<open>parsed = Some user\<close> user n valid q Some x
          by (auto simp: ws_llc_eapol_indication_cb_def bind_eq_Some_conv Let_def)
        let ?s4 = "ws_put r e s3"
        let ?s5 = "case ea of None \<Rightarrow> ?s4 | Some a \<Rightarrow> ind_event (Border_router_addr_write a) ?s4"
        let ?s6 = "case bt of None \<Rightarrow> ?s5
          | Some b \<Rightarrow> let s = ws_put r (bt_update data b e) ?s5 in
              if nb = None then s else ind_event (Eapol_parent_synch r) s"
        have out: "s' = ind_event (Data_ind u ptr len (in_security_level data)) ?s6"
          using run False p \<open>parsed = Some user\<close> user n valid q Some x e
          by (simp add: ws_llc_eapol_indication_cb_def Let_def)
        note put = ws_put_keeps [OF ok, of e]
        have k5: "keeps s ?s5" "same_nbrs s3 ?s5"
          using keeps_trans [OF sender(1) put(1)] put(2) by (simp_all split: option.split)
        then have "ref_ok ?s5 r" using same_nbrs_ok ok by blast
        then have "keeps s (ws_put r (bt_update data b e) ?s5)" for b
          using keeps_trans [OF k5(1) ws_put_keeps(1)] by blast
        then show ?thesis
          using k5(1) unfolding out Let_def keeps_fields by (cases bt) (simp_all only: option.case keeps_fields split: if_split, blast)
      qed
    qed
  qed
qed

lemma asynch_indication_keeps:
  assumes "ws_llc_asynch_indication env data ies utt s = Some s'"
  shows "keeps s s'"
proof (cases "asynch_ind_set env")
  case False
  then show ?thesis using assms by (simp add: ws_llc_asynch_indication_def)
next
  case True
  obtain n ie where "mac_ie_payload_discover (env_codec (base_env env)) (payload_ies ies) 0
      (word_of_nat (length (payload_ies ies))) 4 = Some (n, ie)"
    using assms True by (auto simp: ws_llc_asynch_indication_def bind_eq_Some_conv)
  then show ?thesis
    using assms True release_keeps [of s data]
    by (cases "n < 2") (auto simp: ws_llc_asynch_indication_def bind_eq_Some_conv Let_def simp del: insert_iff split: if_splits)
qed

lemma mac_indication_keeps:
  assumes "ws_llc_mac_indication_cb env data ies s = Some s'" and "ws_reach (node s)"
  shows "keeps s s'"
proof -
  obtain found where f: "ws_wh_utt_read (env_codec (base_env env)) (header_ies ies) 0 (word_of_nat (length (header_ies ies))) = Some found"
    using assms(1) by (auto simp: ws_llc_mac_indication_cb_def bind_eq_Some_conv)
  show ?thesis
  proof (cases found)
    case None
    then show ?thesis using assms(1) f by (simp add: ws_llc_mac_indication_cb_def)
  next
    case (Some utt)
    with assms(1) f have "s' = s \<or> ws_llc_asynch_indication env data ies utt s = Some s' \<or>
        ws_llc_data_indication_cb env data ies utt s = Some s' \<or> ws_llc_eapol_indication_cb env data ies utt s = Some s'"
      by (auto simp: ws_llc_mac_indication_cb_def split: if_splits)
    then show ?thesis
      using asynch_indication_keeps data_indication_keeps [OF _ assms(2)] eapol_indication_keeps [OF _ assms(2)]
      by auto
  qed
qed


section \<open>Duplicates\<close>

text \<open>The entry of a neighbour through a pointer.\<close>

lemma put_registered:
  assumes "ws_reach (node s)" and "i \<in> nbrs (nbr_table (node s))"
  shows "ws_neighbor_class_entry_get (neighbor_storage (node (ws_put (Registered i) e s))) i = Some e"
    and "ws_at (ws_put (Registered i) e s) (Registered i) = e"
proof -
  have t: "tables_ok (node s)" using ws_reach_inv [OF assms(1)] by (simp add: node_inv_def)
  have "i < list_total_size (nbr_table (node s))"
    by (rule nbrs_bound) (use t assms(2) in \<open>simp_all add: tables_ok_def\<close>)
  then show g: "ws_neighbor_class_entry_get (neighbor_storage (node (ws_put (Registered i) e s))) i = Some e"
    using t by (auto simp: tables_ok_def ws_put_def ws_entry_write_def ws_neighbor_class_entry_get_def
        word_less_nat_alt word_le_nat_alt)
  then show "ws_at (ws_put (Registered i) e s) (Registered i) = e" by (simp add: ws_at_def)
qed

definition known :: "u8 \<Rightarrow> (ws_neighbor_class_entry_t \<Rightarrow> bool) \<Rightarrow> ind_state \<Rightarrow> bool" where
  "known i P s \<longleftrightarrow> ws_reach (node s) \<and> i \<in> nbrs (nbr_table (node s)) \<and>
     ws_neighbor_class_entry_get (neighbor_storage (node s)) i \<noteq> None \<and> P (ws_at s (Registered i))"

lemma known_put: "known i Q s \<Longrightarrow> P e \<Longrightarrow> known i P (ws_put (Registered i) e s)"
  using put_registered [of s i e] ws_put_keeps [of s "Registered i" e]
  by (simp add: known_def keeps_def same_nbrs_def ref_ok_def)

lemma known_node: "node s' = node s \<Longrightarrow> known i P s' = known i P s"
  by (simp add: known_def ws_at_def)

lemma known_simps [simp]:
  "known i P (ind_event ev s) = known i P s" "known i P (s\<lparr>device_min_sens := d\<rparr>) = known i P s"
  by (rule known_node, simp)+

definition heard :: "u8 \<Rightarrow> u32 \<Rightarrow> ws_neighbor_class_entry_t \<Rightarrow> bool" where
  "heard dsn t e \<longleftrightarrow> last_DSN e = dsn \<and> utt_rx_timestamp (uc_timing_info e) = t"

lemma schedule_set_keeps_heard:
  assumes "ws_neighbor_class_neighbor_unicast_schedule_set r16 r32 us hs e = Some e'"
  shows "last_DSN e' = last_DSN e" "utt_rx_timestamp (uc_timing_info e') = utt_rx_timestamp (uc_timing_info e)"
  using assms
  by (auto simp: ws_neighbor_class_neighbor_unicast_schedule_set_def Let_def split: if_splits option.splits)

lemma sender_unicast_heard:
  assumes "sender_unicast env data ies utt us bs e = Some e'"
  shows "last_DSN e' = last_DSN e" "utt_rx_timestamp (uc_timing_info e') = in_timestamp data"
proof -
  have bsd: "last_DSN (ws_neighbor_class_neighbor_broadcast_schedule_set b x) = last_DSN x"
    "uc_timing_info (ws_neighbor_class_neighbor_broadcast_schedule_set b x) = uc_timing_info x" for b x
    by (simp_all add: ws_neighbor_class_neighbor_broadcast_schedule_set_def Let_def)
  let ?e1 = "ws_neighbor_class_neighbor_unicast_time_info_update
                 \<lparr>message_type = uw_message_type utt, ufsi = uw_ufsi utt\<rparr> (in_timestamp data) e"
  have e1: "last_DSN ?e1 = last_DSN e" "utt_rx_timestamp (uc_timing_info ?e1) = in_timestamp data"
    by (simp_all add: ws_neighbor_class_neighbor_unicast_time_info_update_def)
  obtain e2 where e2: "last_DSN e2 = last_DSN ?e1" "utt_rx_timestamp (uc_timing_info e2) = utt_rx_timestamp (uc_timing_info ?e1)"
    "e' = (case bs of None \<Rightarrow> e2 | Some b \<Rightarrow> ws_neighbor_class_neighbor_broadcast_schedule_set (bs_ie_of b) e2)"
  proof (cases us)
    case None
    with assms that [of ?e1] show ?thesis by (simp add: sender_unicast_def Let_def)
  next
    case (Some u)
    with assms obtain e2 where "ws_neighbor_class_neighbor_unicast_schedule_set
        (\<lambda>x y. read_16_inv (env_codec (base_env env)) [x, y]) (read_32_bit env)
        (us_ie_of env (payload_ies ies) u) (own env) ?e1 = Some e2"
      "e' = (case bs of None \<Rightarrow> e2 | Some b \<Rightarrow> ws_neighbor_class_neighbor_broadcast_schedule_set (bs_ie_of b) e2)"
      by (auto simp: sender_unicast_def Let_def bind_eq_Some_conv)
    then show ?thesis using that schedule_set_keeps_heard by blast
  qed
  then show "last_DSN e' = last_DSN e" "utt_rx_timestamp (uc_timing_info e') = in_timestamp data"
    using e1 bsd by (simp_all split: option.split)
qed

lemma rsl_in_keeps:
  "last_DSN (ws_neighbor_class_rsl_in_calculate m d e) = last_DSN e"
  "uc_timing_info (ws_neighbor_class_rsl_in_calculate m d e) = uc_timing_info e"
  "unicast_data_rx (ws_neighbor_class_rsl_in_calculate m d e) = unicast_data_rx e"
  by (simp_all add: ws_neighbor_class_rsl_in_calculate_def ws_neighbor_class_parent_set_analyze_def Let_def)

lemma bt_update_keeps:
  "last_DSN (bt_update data b e) = last_DSN e" "uc_timing_info (bt_update data b e) = uc_timing_info e"
  by (simp_all add: bt_update_def ws_neighbor_class_neighbor_broadcast_time_info_update_def)

lemma discover_same:
  assumes "map (\<lambda>e. (index e, take 8 (mac64 e))) (neighbour_list (nbr_table n'))
    = map (\<lambda>e. (index e, take 8 (mac64 e))) (neighbour_list (nbr_table n))"
  shows "ws_discover env n' mac = ws_discover env' n mac"
proof -
  have eq: "map_option index (find (\<lambda>e. take 8 (mac64 e) = a) xs)
      = map_option fst (find (\<lambda>p. snd p = a) (map (\<lambda>e. (index e, take 8 (mac64 e))) xs))" for a xs
    by (induction xs) simp_all
  show ?thesis
    unfolding ws_discover_def mac_neighbor_table_address_discover_def addrtype_t.case eq assms by (rule refl)
qed

lemma trust_discover:
  "ws_discover env (node (data_trust env' data nb s)) mac = ws_discover env (node s) mac"
  by (rule discover_same)
     (auto simp: data_trust_def mac_neighbor_table_trusted_neighbor_def neighbor_upd_def Let_def split: option.split)

lemma request_found_discovers:
  assumes q: "ws_bootstrap_neighbor_info_request env mac new n = ((True, Some i), n')" and reach: "ws_reach n"
  shows "ws_discover env n' mac = Some i" and "ws_neighbor_class_entry_get (neighbor_storage n') i \<noteq> None"
proof -
  have "ws_discover env n' mac = Some i \<and> ws_neighbor_class_entry_get (neighbor_storage n') i \<noteq> None"
  proof (cases "ws_discover env n mac")
    case (Some j)
    with q show ?thesis by (auto simp: ws_bootstrap_neighbor_info_request_def)
  next
    case None
    let ?n = "ws_bootstrap_neighbor_table_clean env n"
    have inv: "node_inv {} ?n" by (rule table_clean_inv [OF ws_reach_inv [OF reach]])
    obtain r s1 where a: "ws_bootstrap_mac_neighbor_add env mac ?n = (r, s1)" by (rule prod.exhaust)
    have r: "r = Some i" "n' = log_call (Stats_update STATS_WS_NEIGHBOUR_ADD) s1"
      and e: "ws_neighbor_class_entry_get (neighbor_storage s1) i \<noteq> None"
      using q None a by (auto simp: ws_bootstrap_neighbor_info_request_def split: option.splits if_splits)
    have "ws_discover env s1 mac = Some i"
    proof (cases "ws_discover env ?n mac")
      case (Some j)
      with a r(1) show ?thesis by (simp add: ws_bootstrap_mac_neighbor_add_def)
    next
      case None
      have "free_list (nbr_table ?n) \<noteq> []"
      proof
        assume "free_list (nbr_table ?n) = []"
        then have "mac_neighbor_table_entry_allocate (nbr_table ?n) mac = (None, nbr_table ?n)"
          by (cases rule: neighbor_allocate_cases [of "nbr_table ?n" mac]) auto
        with a r(1) None show False
          by (simp add: ws_bootstrap_mac_neighbor_add_def ws_bootstrap_mac_neighbor_allocate_def)
      qed
      from neighbor_add_free [OF inv this None] a r(1) show ?thesis by auto
    qed
    then show ?thesis using e r(2) by (simp add: log_call_def ws_discover_def)
  qed
  then show "ws_discover env n' mac = Some i" "ws_neighbor_class_entry_get (neighbor_storage n') i \<noteq> None" by simp_all
qed

text \<open>An accepted unicast frame leaves its number and its time in the sender's entry.\<close>

lemma data_accepted_known:
  assumes run: "data_accepted env data ies utt us bs user (Some i) (Registered i) s = Some s'"
    and k: "known i (\<lambda>e. last_DSN e = in_dsn data) s" and uni: "in_dst_mode data = 3"
  shows "known i (\<lambda>e. heard (in_dsn data) (in_timestamp data) e \<and> unicast_data_rx e) s'"
    and "ws_discover env' (node s') mac = ws_discover env' (node s) mac"
proof -
  let ?r = "Registered i" and ?H = "heard (in_dsn data) (in_timestamp data)"
  let ?HU = "\<lambda>e. ?H e \<and> unicast_data_rx e"
  have disc: "ws_discover env' (node (ws_put ?r x y)) mac = ws_discover env' (node y) mac" for x y
    by (simp add: ws_put_def ws_discover_def)
  obtain e bt where e: "sender_unicast env data ies utt us bs (ws_at s ?r) = Some e"
    and run': "s' = ind_event (Data_ind (fst user) (fst (snd user)) (snd (snd user)) (in_security_level data))
      (data_trust env data (Some i) (data_signal env data ?r (data_heard data ?r (data_timing data bt (Some i) ?r e s))))"
    using run by (auto simp: data_accepted_def Let_def bind_eq_Some_conv)
  obtain s1 where s1: "s1 = data_timing data bt (Some i) ?r e s" by blast
  obtain s2 where s2: "s2 = data_heard data ?r s1" by blast
  obtain s3 where s3: "s3 = data_signal env data ?r s2" by blast
  obtain s4 where s4: "s4 = data_trust env data (Some i) s3" by blast
  have s': "node s' = node s4" unfolding run' s1 [symmetric] s2 [symmetric] s3 [symmetric] s4 [symmetric] by simp
  have h: "?H e" using sender_unicast_heard [OF e] k by (simp add: heard_def known_def)
  have k1: "known i ?H s1 \<and> ws_discover env' (node s1) mac = ws_discover env' (node s) mac"
  proof (cases bt)
    case None
    then show ?thesis using known_put [where P = ?H, OF k h] disc by (simp add: data_timing_def s1)
  next
    case (Some b)
    have "?H (bt_update data b e)" using h by (simp add: heard_def bt_update_keeps)
    from known_put [where P = ?H, OF k this] show ?thesis
      using disc by (simp add: s1 data_timing_def Some Let_def)
  qed
  then have "?HU ((ws_at s1 ?r)\<lparr>unicast_data_rx := True\<rparr>)" by (simp add: known_def heard_def)
  then have k2: "known i ?HU s2"
    using known_put [where P = ?HU] k1 uni by (auto simp: data_heard_def s2)
  obtain s2' d where s2': "s2' = s2\<lparr>device_min_sens := d\<rparr>"
    and s3': "s3 = ws_put ?r (ws_neighbor_class_rsl_in_calculate d (in_signal_dbm data) (ws_at s2 ?r)) s2'"
    unfolding s3 data_signal_def Let_def by blast
  have "known i ?HU s2'" using k2 by (simp add: s2')
  moreover have "?HU (ws_neighbor_class_rsl_in_calculate d (in_signal_dbm data) (ws_at s2 ?r))"
    using k2 by (simp add: heard_def known_def rsl_in_keeps)
  ultimately have k3: "known i ?HU s3" unfolding s3' by (rule known_put)
  have ok3: "ref_ok s3 ?r" "nb_ok s3 (Some i)" using k3 by (simp_all add: known_def ref_ok_def nb_ok_def)
  have "neighbor_storage (node s4) = neighbor_storage (node s3)" by (simp add: data_trust_def s4)
  then have "known i ?HU s4"
    using k3 data_stages(4) [OF ok3, of env data] unfolding s4 [symmetric]
    by (simp add: known_def keeps_def same_nbrs_def ws_at_def)
  then show "known i ?HU s'" using s' known_node by blast
  have "ws_discover env' (node s4) mac = ws_discover env' (node s3) mac" by (simp add: s4 trust_discover)
  also have "\<dots> = ws_discover env' (node s2) mac" by (simp add: s3' disc s2')
  also have "\<dots> = ws_discover env' (node s1) mac" by (simp add: s2 data_heard_def disc)
  finally show "ws_discover env' (node s') mac = ws_discover env' (node s) mac" using k1 s' by simp
qed

text \<open>The sender of a unicast frame is a neighbour.\<close>

lemma unicast_sender:
  assumes q: "data_sender env data us_inline s = Some (sender, s')" and uni: "in_dst_mode data = 3"
    and reach: "ws_reach (node s)"
  obtains "sender = None" "ind_log s' = ind_log s"
    | i where "sender = Some (Some i, Registered i)" "ind_log s' = ind_log s" "known i (\<lambda>e. True) s'"
        "ws_discover (node_env env) (node s') (in_src_addr data) = Some i"
proof -
  obtain found nb n where r: "ws_bootstrap_neighbor_info_request (node_env env) (in_src_addr data) us_inline (node s)
      = ((found, nb), n)" by (metis prod.exhaust)
  show ?thesis
  proof (cases found)
    case False
    then show ?thesis using q r uni that(1) by (auto simp: data_sender_def Let_def)
  next
    case True
    then obtain i where nb: "nb = Some i" using request_found_named r by (metis (full_types))
    note r' = r [unfolded nb] 
    have "ws_reach n" using ws_reach.neighbor_request [OF reach, of "node_env env" "in_src_addr data" us_inline] r by simp
    moreover have "i \<in> nbrs (nbr_table n)" using request_nbrs [OF r' reach] True by simp
    moreover have "ws_discover (node_env env) n (in_src_addr data) = Some i"
      "ws_neighbor_class_entry_get (neighbor_storage n) i \<noteq> None"
      using request_found_discovers [OF r' [simplified True] reach] by simp_all
    moreover have "sender = Some (Some i, Registered i)" "s' = s\<lparr>node := n\<rparr>"
      using q r uni True nb by (simp_all add: data_sender_def Let_def)
    ultimately show ?thesis using that(2) by (simp add: known_def)
  qed
qed

lemma duplicate_check_dsn:
  assumes "ws_neighbor_class_neighbor_duplicate_packet_check dsn t e = (fresh, e')"
  shows "last_DSN e' = dsn"
  using assms by (auto simp: ws_neighbor_class_neighbor_duplicate_packet_check_def split: if_splits)

lemma put_log [simp]: "ind_log (ws_put r e s) = ind_log s"
  by (simp add: ws_put_def temps_upd_def split: ws_ref.split)


section \<open>A frame\<close>

text \<open>
  A unicast data frame for the user of data messages, from the neighbour of \<open>node_example\<close>, heard at
  the time \<open>t\<close>, with the vendor element \<open>vendor\<close> in front of the user's.
\<close>

definition own_schedule_example :: ws_hopping_schedule_t where
  "own_schedule_example = \<lparr>fhss_uc_dwell_interval = 255, fhss_bc_dwell_interval = 255, regulatory_domain = REG_DOMAIN_EU,
     operating_class = 1, operating_mode = OPERATING_MODE_1a, phy_mode_id = 0, channel_plan_id = 0, channel_plan = 0,
     uc_channel_function = 2, bc_channel_function = 2, channel_spacing = CHANNEL_SPACING_100, number_of_channels = 35,
     clock_drift = 255, timing_accurancy = 100, uc_fixed_channel = 0, bc_fixed_channel = 0, fhss_bsi = 0,
     fhss_broadcast_interval = 1020, ch0_freq = 863100000\<rparr>"

definition ind_env_example :: "vp_wire \<Rightarrow> ind_env" where
  "ind_env_example vp = \<lparr>node_env = env_example, base_env = llc_env_example MLME_SUCCESS, own = own_schedule_example,
     own_wire = us_example, domain_of = (\<lambda>_. REG_DOMAIN_EU), read_32_bit = (\<lambda>_ _ _ _. 0), auth_mbedtls = False,
     auth_none = False, min_sens_config = 0, asynch_ind_set = True, vp_stack = vp\<rparr>"

definition data_example :: "u32 \<Rightarrow> mcps_data_ind_t" where
  "data_example t = \<lparr>in_src_mode = 3, in_dst_mode = 3, in_src_addr = [1, 2, 3, 4, 5, 6, 7, 8], in_src_pan = 0xabcd,
     in_dsn = 5, in_dsn_suppressed = False, in_timestamp = t, in_signal_dbm = 200, in_link_quality = 100,
     in_security_level = 5\<rparr>"

definition ies_example :: "bytes \<Rightarrow> ie_list" where
  "ies_example vendor = \<lparr>header_ies = ws_wh_utt_write little_endian 4,
     payload_ies = vendor @ mac_ie_payload_base_write little_endian 3 5 @ [0, 0xED, 0xA0, 77, 78]\<rparr>"

definition utt_example :: utt_wire where
  "utt_example = \<lparr>uw_message_type = 4, uw_ufsi = 0\<rparr>"

definition ind_state_example :: ind_state where
  "ind_state_example = \<lparr>node = node_example, base = registered_example, mac_pan_id = 0xabcd, network_pan_id = 0xabcd,
     device_min_sens = 100, ind_log = []\<rparr>"

abbreviation (input) no_vp :: vp_wire where "no_vp \<equiv> \<lparr>vp_vendor_id = 0, vp_network_pan_id = 0\<rparr>"

abbreviation (input) frame_at :: "u32 \<Rightarrow> ind_state \<Rightarrow> ind_state option" where
  "frame_at t \<equiv> ws_llc_data_indication_cb (ind_env_example no_vp) (data_example t) (ies_example []) utt_example"

lemma frame_example:
  "map_option ind_log (ws_llc_mac_indication_cb (ind_env_example no_vp) (data_example 1000) (ies_example []) ind_state_example)
     = Some [Data_ind LOWPAN_USER 5 2 5]"
  "map_option ind_log (frame_at 1000 ind_state_example) = Some [Data_ind LOWPAN_USER 5 2 5]"
  "\<not> Option.is_none (Option.bind (frame_at 1000 ind_state_example) (frame_at 2000))"
  subgoal by code_simp
  subgoal by code_simp
  subgoal by code_simp
  done



text \<open>
  A vendor payload with another message than the PAN identifier: the identifier of the node becomes what
  the uninitialised structure holds.
\<close>

lemma vendor_pan_id_uninitialised:
  "map_option mac_pan_id (ws_llc_data_indication_cb (ind_env_example \<lparr>vp_vendor_id = 0, vp_network_pan_id = 0x1234\<rparr>)
     (data_example 1000) (ies_example (mac_ie_payload_base_write little_endian 4 5 @
        mac_ie_nested_ie_long_base_write little_endian 3 3 @ [36, 2, 9])) utt_example ind_state_example) = Some 0x1234"
  by code_simp

end
