(* ===== verification/Spec2Isabelle.thy ===== *)
theory Spec2Isabelle
  imports Trickle Red PanBlacklist SecProtKeys GtkRing MplWire MacNeighborInv EtxProps WsChannels WsNodeProps
    FhssTiming LlcIndProps
begin

text \<open>
  A verification library for the Wi-SUN network stack under \<open>src/sal-stack-nanostack\<close>, a node of
  a mesh of radios with IPv6 on top. This text says which part of the stack each theory models,
  what is proved about it, and what is left out. File names below are relative to that directory.

  \<^bold>\<open>The program.\<close> A node joins a network, keeps a table of the neighbours it hears, estimates the
  quality of the links to them, agrees with them on the channels it hops over, obtains the group
  keys of the network from an authenticator, and forwards unicast packets along RPL routes and
  multicast packets by MPL. The parts modelled here are the state machines and tables underneath:

  \<^item> the Trickle timer (\<open>Service_Libs/Trickle\<close>) paces advertisements and MPL transmissions;
  \<^item> random early detection (\<open>Service_Libs/random_early_detection\<close>) drops packets of a congested
    queue;
  \<^item> the PAN blacklists (\<open>Service_Libs/pan_blacklist\<close>) keep a node away from networks that failed;
  \<^item> the key storage (\<open>Security/protocols/sec_prot_keys.c\<close>) holds pairwise and group keys, their
    lifetimes and replay counters;
  \<^item> the MPL forwarder (\<open>MPL/mpl.c\<close>) buffers and repeats multicast messages and exchanges control
    messages that tell which ones a node has;
  \<^item> the MAC neighbour table (\<open>Service_Libs/mac_neighbor_table\<close>) gives each neighbour an index;
  \<^item> the ETX module (\<open>Service_Libs/etx\<close>) and the Wi-SUN neighbour class
    (\<open>6LoWPAN/ws/ws_neighbor_class.c\<close>) keep link statistics and hopping schedules by that index;
  \<^item> the channel plans (\<open>6LoWPAN/ws/ws_common.c\<close>) say which channels a regulatory domain has;
  \<^item> frequency hopping (\<open>Service_Libs/fhss\<close>) calculates the channels of a node and of its neighbours
    and the times at which it may transmit;
  \<^item> the neighbour management (\<open>6LoWPAN/ws/ws_bootstrap.c\<close>, \<open>6LoWPAN/ws/ws_common.c\<close>) adds, probes and
    removes neighbours and keeps all these tables in step;
  \<^item> the information elements (\<open>6LoWPAN/MAC/mac_ie_lib.c\<close>, \<open>6LoWPAN/ws/ws_ie_lib.c\<close>) and the multiplexing
    header (\<open>6LoWPAN/ws/ws_mpx_header.c\<close>) are what frames carry besides their payload;
  \<^item> the data service (\<open>6LoWPAN/ws/ws_llc_data_service.c\<close>) stands between the MAC and its two users, the
    6LoWPAN layer and the key management: it builds frames, keeps the messages the MAC has not confirmed,
    lets EAPOL messages wait for each other, and hands received frames to their user after it has
    updated what the tables above know of the sender.

  \<^bold>\<open>How code becomes definitions.\<close> A structure is a record with the fields of the source, an
  enumeration a datatype, an integer a word of its width, so that sums wrap as in C. A function
  that changes a structure returns the changed one. A pointer into a table is the index of the
  entry, a linked list is a list in link order. A failed allocation, a random number, an answer
  of a module that is not modelled or of an external library is a parameter; a call that only has
  effects elsewhere is appended to a log in the state. An access outside an array is the value
  \<open>None\<close> (channel masks) or raises a flag (\<open>etx_fault\<close>), and the theorems show that it does not
  happen. Tracing is left out.

  \<^bold>\<open>Theories.\<close>

  \<^item> \<open>Prelude\<close>: the integer types, generic lemmas on words and lists, the contract of
    \<open>randLIB_get_random_in_range\<close>, the collections \<open>frame_simps\<close> and \<open>inv_intros\<close>.
  \<^item> \<open>Trickle\<close>: every function of \<open>trickle.c\<close> on the record \<open>trickle_t\<close>. The bounds of the interval
    and of the transmission time are an invariant; the 16-bit code with its saturations refines
    the algorithm of RFC 6206 on natural numbers; a timer with a limit on expirations transmits at
    most so often and stops. The locale \<open>suppression_timer\<close> is the interface of such a timer.
  \<^item> \<open>Red\<close>: every function of \<open>random_early_detection.c\<close>. The 32-bit decision equals the one on
    integers, the average stays between its arguments, lasting congestion drops a packet.
  \<^item> \<open>PanBlacklist\<close>: both blacklists, as two instances of the locale \<open>aging_table\<close>: an entry is there
    exactly until its time has elapsed.
  \<^item> \<open>SecProtKeys\<close>: pairwise keys; replay protection, the limit of the replay counter, expiry.
  \<^item> \<open>GtkKeys\<close>, \<open>GtkStore\<close>, \<open>GtkLife\<close>, \<open>GtkRing\<close>: the four slots of group keys. Invariants of all
    reachable stores (one active key, no key material in free slots, install orders without gaps),
    the comparison with advertised hashes, and the locale \<open>key_ring\<close>: the renumbering of install
    orders implements a queue of slots.
  \<^item> \<open>MplData\<close>, \<open>Mpl\<close>, \<open>MplControl\<close>: \<open>mpl.c\<close> in the configuration of a Wi-SUN router: domains, seeds,
    buffered messages, timers, control messages, the hop-by-hop option. \<open>MplInv\<close>, \<open>MplReach\<close>,
    \<open>MplHandlers\<close>, \<open>MplForward\<close>: in every reachable state the number of buffered bytes is exact and
    bounded, and the forwarder returns on every packet. \<open>MplOnce\<close>: a message is delivered once.
    \<open>MplWire\<close>: order of the messages, what control messages and headers say.
  \<^item> \<open>AddressTable\<close>, \<open>MacNeighborTable\<close>, \<open>MacNeighborInv\<close>: the neighbour table as an instance of the
    locale \<open>address_table\<close>; every entry is in exactly one list, counters are exact, the timeout
    removes the silent neighbours and no others.
  \<^item> \<open>Etx\<close>, \<open>EtxProps\<close>: every function of \<open>etx.c\<close> and the integer square root of \<open>isqrt.c\<close>; memory
    safety over all sequences of calls, the moving average, when a change is reported.
  \<^item> \<open>ChannelPlan\<close>, \<open>WsNeighbor\<close>, \<open>WsChannels\<close>: channel masks and tables of \<open>ws_common.c\<close>, every
    function of \<open>ws_neighbor_class.c\<close>; which channels a schedule leaves, the averaged signal level.
  \<^item> \<open>WsNode\<close>, \<open>WsNodeInv\<close>, \<open>WsNodeReach\<close>, \<open>WsNodeProps\<close>: the composition. A record \<open>ws_node\<close> holds the
    tables of the components and the processes of unreachability detection; \<open>ws_reach\<close> are the
    states it reaches by the functions of \<open>ws_bootstrap.c\<close> and \<open>ws_common.c\<close> in any order. What is
    kept for an index always belongs to the neighbour that has it, a process always belongs to a
    neighbour, protected neighbours are not dropped, silent ones are removed.
  \<^item> \<open>ChannelList\<close>, \<open>Tr51\<close>, \<open>Hopping\<close>: \<open>channel_list.c\<close> and \<open>channel_functions.c\<close>. The random order of
    the TR51 channel table is found for every number of channels, since the congruential generator
    has full period; a round of the hopping sequence visits every channel once, up to 127 channels.
  \<^item> \<open>FhssWs\<close>, \<open>FhssTx\<close>, \<open>FhssHandlers\<close>: \<open>fhss_ws.c\<close> with the parts of \<open>fhss_common.c\<close> it uses, on a
    record \<open>fhss_t\<close>: configuration, transmit slots, channels, the handlers of the two timers,
    synchronisation with a parent. \<open>FhssSlots\<close>: when a node may transmit. \<open>FhssProps\<close>: every operation
    but the configuration leaves the channel counts and tables alone (the relation \<open>fhss_frame\<close>),
    so that reachable states are well formed. \<open>FhssClaims\<close>, \<open>FhssTiming\<close>: a sender finds the
    channel of the receiver, the announced time is exact, late handlers keep the schedule.

  \<^item> \<open>MacIe\<close>, \<open>MacIeProps\<close>: writers, parsers and searches of \<open>mac_ie_lib.c\<close>. A buffer is a list of bytes, a
    pointer a place in it, a read behind its end \<open>None\<close>. The searches find the first element asked for.
    \<open>WsIe\<close>, \<open>WsIeProps\<close>: every reader and writer of \<open>ws_ie_lib.c\<close>; schedules are read back as they were
    written, announced lengths are the bytes written, readers stay in bounds. \<open>Mpx\<close>: parser and
    writer of the multiplexing header and their round trip.
  \<^item> \<open>LlcTemp\<close>: the temporary neighbours of the data service, whose three lists divide their table.
    \<open>LlcFrame\<close>: the frames it builds and the sizes of their buffers. \<open>Llc\<close>: the record
    \<open>llc_data_base_t\<close> and its operations: requests, confirmations, purge, timers, configuration. \<open>llc_exec\<close>
    runs one operation, \<open>llc_reach\<close> are the states after any number of them. \<open>LlcInv\<close>, \<open>LlcProps\<close>: the
    queue is well formed in all of them, requests return, confirmations reach their user, EAPOL
    messages go one at a time, refused messages of the TI MAC block the queue.
  \<^item> \<open>LlcInd\<close>, \<open>LlcIndProps\<close>: received frames, over a record \<open>ind_state\<close> that joins \<open>ws_node\<close> and the data
    service. A frame takes reachable states of both to reachable ones, a repeated one is dropped.

  \<^bold>\<open>Loops and fuel.\<close> Loops over lists and arrays are structural recursion or folds. The loops of the
  square root are functions with a measure. The draw of a free entry of the TR51 table, the search for
  the next transmit slot and the search for an element in a frame are partial functions; the first
  two are proved to return. Two loops of \<open>mpl.c\<close> need not end: \<open>mpl_make_space\<close> and
  \<open>mpl_scan_bits\<close> are partial functions whose value \<open>None\<close> is not returning, and it is proved exactly
  when they return. The loops of \<open>llc_message_id_allocate\<close> are such functions as well and return in every
  reachable state. The searches for elements decrease the rest of the buffer.
  \<open>mpl_domain_create\<close> calls itself for the domain of all forwarders; the model
  nests its body twice, which \<open>mpl_domain_create_recursive\<close> shows to be enough.

  \<^bold>\<open>Parameters of the data service.\<close> \<open>codec\<close> holds the routines that read and write numbers in a byte order,
  \<open>codec_ok\<close> is their contract. \<open>llc_env\<close> holds the build (\<open>timac\<close> for the TI MAC), the result of an
  allocation, what the MAC answers to a request and which neighbour a look-up finds; \<open>ind_env\<close> adds the
  schedule of the node, the authentication in use and what an uninitialised structure holds.

  \<^bold>\<open>Assumptions.\<close> \<open>read32_ok\<close>: reading a 32-bit number from a frame is big-endian. \<open>rand_ok\<close>: a random
  number lies in the range asked for. The size of a packet fits the limit of the buffers
  where a theorem says so. The hash of the group keys is a parameter. The theorem on announced
  slots assumes that the conversions to the C type \<open>float\<close> are exact and the clocks do not drift.

  \<^bold>\<open>Not modelled.\<close> The rest of \<open>ws_bootstrap.c\<close> (discovery, the state machine of joining), the PAE
  controller and the handshakes, RPL, fragmentation and header compression, the IP layer, sockets and
  DHCPv6 are left for later extensions. Of the data service, the registration at the MAC, finding the
  instance of an interface, the headroom announced to its users and the detection of the first message
  of a handshake are not modelled. The beacon
  mode of frequency hopping (\<open>fhss.c\<close>) belongs to the older bootstrap; its statistics are counters.
  The MAC and the timers of the operating system are hardware and event loop. The MLE
  service is compiled out of this configuration; mDNS and TLS are third-party code; the
  application is an example.
\<close>

end
